(* ===== verification/Prelude.thy ===== *)
theory Prelude
  imports Complex_Main "HOL-Library.Char_ord" "HOL-Library.List_Lexorder"
begin

text \<open>
  Shared material of the development: the Python values and string operations the modelled
  code uses, tables as lists of rows with the SQL statements on them, transition systems with
  an invariant, and the generic lemmas the components rest on.

  Conventions. A Python \<open>str\<close> is a \<open>string\<close> whose characters are Latin-1 code points
  (so \<open>len\<close>, slices and \<open>strip\<close> count characters as Python does); the few code points
  beyond Latin-1 that the source's literals contain have one-character stand-ins from the unused
  C1 range (\<open>ellipsis\<close>, \<open>en_dash\<close>, ... below). A Python \<open>float\<close> is a \<open>real\<close> (no rounding); \<open>int\<close> is
  \<open>int\<close>. The clock, \<open>uuid4\<close> and \<open>secrets\<close> are inputs of the operations. A raised exception is
  \<open>Inl\<close> of an error value, a normal return \<open>Inr\<close>.
\<close>

named_theorems table_simps \<open>rewrite rules for tables of rows\<close>
named_theorems text_bounds \<open>length bounds of Python text operations\<close>

section \<open>Python values\<close>

datatype pyfloat = Finite real | NotFinite

datatype pyval = PNone | PBool bool | PInt int | PFloat pyfloat | PStr string | POther

text \<open>\<open>isinstance(v, bool) or not isinstance(v, int)\<close> is the negation of this test.\<close>

fun plain_int :: "pyval \<Rightarrow> bool" where
  "plain_int (PInt _) = True"
| "plain_int _ = False"

fun is_str :: "pyval \<Rightarrow> bool" where
  "is_str (PStr _) = True"
| "is_str _ = False"

fun the_str :: "pyval \<Rightarrow> string" where
  "the_str (PStr s) = s"
| "the_str _ = ''''"

fun the_int_of :: "pyval \<Rightarrow> int" where
  "the_int_of (PInt i) = i"
| "the_int_of _ = 0"

text \<open>JSON objects as the code builds them before \<open>json.dumps\<close>.\<close>

datatype json = JNull | JBool bool | JInt int | JReal real | JStr string
  | JArr "json list" | JObj "(string \<times> json) list"

definition jreal_opt :: "real option \<Rightarrow> json" where
  "jreal_opt v = (case v of None \<Rightarrow> JNull | Some r \<Rightarrow> JReal r)"

fun jopt :: "string option \<Rightarrow> json" where
  "jopt None = JNull"
| "jopt (Some s) = JStr s"

text \<open>Truthiness of an optional string: \<open>None\<close> and the empty string are false.\<close>

fun truthy :: "string option \<Rightarrow> bool" where
  "truthy None = False"
| "truthy (Some s) = (s \<noteq> '''')"

lemma truthy_iff: "truthy v \<longleftrightarrow> (\<exists>s. v = Some s \<and> s \<noteq> '''')"
  by (cases v) auto

text \<open>\<open>value or None\<close> on a string.\<close>

definition or_none :: "string \<Rightarrow> string option" where
  "or_none s = (if s = '''' then None else Some s)"

lemma or_none_simps [simp]: "or_none '''' = None" "s \<noteq> '''' \<Longrightarrow> or_none s = Some s"
  by (auto simp: or_none_def)

lemma or_none_Some_iff: "or_none s = Some t \<longleftrightarrow> s = t \<and> t \<noteq> ''''"
  by (auto simp: or_none_def)

section \<open>Strings\<close>

definition ellipsis :: char where "ellipsis = CHR 0x80"
definition en_dash :: char where "en_dash = CHR 0x81"
definition em_dash :: char where "em_dash = CHR 0x82"
definition pause_sign :: char where "pause_sign = CHR 0x83"
definition check_sign :: char where "check_sign = CHR 0x84"
definition cross_sign :: char where "cross_sign = CHR 0x86"
definition loop_sign :: char where "loop_sign = CHR 0x87"
definition warn_sign :: char where "warn_sign = CHR 0x88"
definition ring_sign :: char where "ring_sign = CHR 0x89"
definition glass_sign :: char where "glass_sign = CHR 0x8A"
definition arrow_sign :: char where "arrow_sign = CHR 0x8B"

text \<open>The Latin-1 characters \<open>str.isspace\<close> accepts, which \<open>str.strip\<close> removes.\<close>

definition py_space :: "char \<Rightarrow> bool" where
  "py_space c = (let n = of_char c :: nat in
     n = 32 \<or> (9 \<le> n \<and> n \<le> 13) \<or> (28 \<le> n \<and> n \<le> 31) \<or> n = 133 \<or> n = 160)"

definition lstrip :: "string \<Rightarrow> string" where
  "lstrip s = dropWhile py_space s"

definition rstrip :: "string \<Rightarrow> string" where
  "rstrip s = rev (dropWhile py_space (rev s))"

definition strip :: "string \<Rightarrow> string" where
  "strip s = rstrip (lstrip s)"

text \<open>\<open>s[:n]\<close> is \<open>take n s\<close>; \<open>s[-n:]\<close> for positive \<open>n\<close> is \<open>last_n n s\<close>.\<close>

definition last_n :: "nat \<Rightarrow> 'a list \<Rightarrow> 'a list" where
  "last_n n s = drop (length s - n) s"

lemma length_lstrip [text_bounds]: "length (lstrip s) \<le> length s"
  by (simp add: lstrip_def length_dropWhile_le)

lemma length_rstrip [text_bounds]: "length (rstrip s) \<le> length s"
  unfolding rstrip_def by (metis length_dropWhile_le length_rev)

lemma length_strip [text_bounds]: "length (strip s) \<le> length s"
  using length_rstrip [of "lstrip s"] length_lstrip [of s] by (simp add: strip_def)

lemma length_last_n [text_bounds]: "length (last_n n s) \<le> n"
  by (simp add: last_n_def)

lemma strip_Nil [simp]: "strip '''' = ''''"
  by (simp add: strip_def lstrip_def rstrip_def)

lemma rstrip_last: "rstrip s \<noteq> [] \<Longrightarrow> \<not> py_space (last (rstrip s))"
  unfolding rstrip_def by (metis hd_dropWhile last_rev rev.simps(1) rev_rev_ident)

lemma lstrip_hd: "lstrip s \<noteq> [] \<Longrightarrow> \<not> py_space (hd (lstrip s))"
  unfolding lstrip_def by (rule hd_dropWhile)

lemma rstrip_id: "s = [] \<or> \<not> py_space (last s) \<Longrightarrow> rstrip s = s"
  unfolding rstrip_def
  by (cases s rule: rev_cases) auto

lemma lstrip_id: "s = [] \<or> \<not> py_space (hd s) \<Longrightarrow> lstrip s = s"
  unfolding lstrip_def by (cases s) auto

lemma rstrip_prefix: "\<exists>t. s = rstrip s @ t"
  unfolding rstrip_def
  by (metis rev_append rev_rev_ident takeWhile_dropWhile_id)

lemma hd_rstrip: "rstrip s \<noteq> [] \<Longrightarrow> hd (rstrip s) = hd s"
  by (metis hd_append2 rstrip_prefix)

lemma strip_ends: "strip s \<noteq> [] \<Longrightarrow> \<not> py_space (hd (strip s)) \<and> \<not> py_space (last (strip s))"
proof -
  assume ne: "strip s \<noteq> []"
  then have "lstrip s \<noteq> []" by (auto simp: strip_def rstrip_def)
  with ne show ?thesis
    using lstrip_hd [of s] rstrip_last [of "lstrip s"] hd_rstrip [of "lstrip s"]
    by (simp add: strip_def)
qed

lemma strip_id: "s = [] \<or> (\<not> py_space (hd s) \<and> \<not> py_space (last s)) \<Longrightarrow> strip s = s"
  by (auto simp: strip_def lstrip_id rstrip_id)

lemma strip_strip [simp]: "strip (strip s) = strip s"
  using strip_ends [of s] by (intro strip_id) blast

text \<open>Lower case and case folding on Latin-1 (the micro sign, whose folding leaves Latin-1,
  is kept).\<close>

definition char_lower :: "char \<Rightarrow> char" where
  "char_lower c = (let n = of_char c :: nat in
     if (65 \<le> n \<and> n \<le> 90) \<or> (192 \<le> n \<and> n \<le> 222 \<and> n \<noteq> 215) then char_of (n + 32) else c)"

definition str_lower :: "string \<Rightarrow> string" where
  "str_lower s = map char_lower s"

definition casefold :: "string \<Rightarrow> string" where
  "casefold s = concat (map (\<lambda>c. if of_char c = (223::nat) then ''ss'' else [char_lower c]) s)"

text \<open>Upper case on Latin-1, but for the three characters whose upper case leaves Latin-1.\<close>

definition char_upper :: "char \<Rightarrow> char" where
  "char_upper c = (let n = of_char c :: nat in
     if (97 \<le> n \<and> n \<le> 122) \<or> (224 \<le> n \<and> n \<le> 254 \<and> n \<noteq> 247) then char_of (n - 32) else c)"

definition is_upper :: "char \<Rightarrow> bool" where
  "is_upper c = (let n = of_char c :: nat in
     (65 \<le> n \<and> n \<le> 90) \<or> (192 \<le> n \<and> n \<le> 222 \<and> n \<noteq> 215))"

definition is_alpha :: "char \<Rightarrow> bool" where
  "is_alpha c = (let n = of_char c :: nat in
     (65 \<le> n \<and> n \<le> 90) \<or> (97 \<le> n \<and> n \<le> 122) \<or> n = 170 \<or> n = 181 \<or> n = 186
     \<or> (192 \<le> n \<and> n \<noteq> 215 \<and> n \<noteq> 247))"

text \<open>\<open>s.split()\<close>: the maximal runs of characters that are not white space.\<close>

function words :: "string \<Rightarrow> string list" where
  "words s = (let t = dropWhile py_space s in
     if t = [] then [] else takeWhile (\<lambda>c. \<not> py_space c) t # words (dropWhile (\<lambda>c. \<not> py_space c) t))"
  by pat_completeness auto

lemma words_decreases:
  assumes "dropWhile py_space s \<noteq> []"
  shows "length (dropWhile (\<lambda>c. \<not> py_space c) (dropWhile py_space s)) < length s"
proof -
  obtain c t where t: "dropWhile py_space s = c # t" using assms by (cases "dropWhile py_space s") auto
  then have "\<not> py_space c" using hd_dropWhile [of py_space s] by simp
  then have "length (dropWhile (\<lambda>c. \<not> py_space c) (c # t)) \<le> length t"
    by (simp add: length_dropWhile_le)
  also have "\<dots> < length s" using t length_dropWhile_le [of py_space s] by simp
  finally show ?thesis by (simp only: t)
qed

termination words
  by (relation "measure length") (auto intro: words_decreases)

declare words.simps [simp del]

text \<open>\<open>int\<close> of a text: a sign, then decimal digits with single underscores between them, blanks around.\<close>

definition is_digit :: "char \<Rightarrow> bool" where
  "is_digit c = (let n = of_char c :: nat in 48 \<le> n \<and> n \<le> 57)"

fun digits_value :: "nat \<Rightarrow> string \<Rightarrow> nat option" where
  "digits_value acc [] = None"
| "digits_value acc [c] = (if is_digit c then Some (10 * acc + (of_char c - 48)) else None)"
| "digits_value acc (c # d # cs) =
     (if \<not> is_digit c then None
      else if d = CHR ''_'' then digits_value (10 * acc + (of_char c - 48)) cs
      else digits_value (10 * acc + (of_char c - 48)) (d # cs))"

definition int_of_text :: "string \<Rightarrow> int option" where
  "int_of_text t = (case strip t of
      [] \<Rightarrow> None
    | c # s \<Rightarrow> if c = CHR ''-'' then map_option (\<lambda>n. - int n) (digits_value 0 s)
        else if c = CHR ''+'' then map_option int (digits_value 0 s)
        else map_option int (digits_value 0 (c # s)))"

text \<open>The line breaks of \<open>str.splitlines\<close> in Latin-1.\<close>

definition is_break :: "char \<Rightarrow> bool" where
  "is_break c = (let n = of_char c :: nat in (10 \<le> n \<and> n \<le> 13) \<or> (28 \<le> n \<and> n \<le> 30) \<or> n = 133)"

definition after_break :: "string \<Rightarrow> string" where
  "after_break s = (case s of
      [] \<Rightarrow> []
    | c # t \<Rightarrow> if of_char c = (13::nat) \<and> t \<noteq> [] \<and> of_char (hd t) = (10::nat) then tl t else t)"

lemma length_after_break: "length (after_break s) \<le> length s - 1"
  by (cases s) (auto simp: after_break_def)

function splitlines :: "string \<Rightarrow> string list" where
  "splitlines s = (if s = [] then []
     else takeWhile (\<lambda>c. \<not> is_break c) s # splitlines (after_break (dropWhile (\<lambda>c. \<not> is_break c) s)))"
  by pat_completeness auto

termination splitlines
proof (relation "measure length")
  fix s :: string assume "s \<noteq> []"
  then have "length (dropWhile (\<lambda>c. \<not> is_break c) s) - 1 < length s"
    using length_dropWhile_le [of "\<lambda>c. \<not> is_break c" s] by (cases s) (simp_all add: less_Suc_eq_le)
  with length_after_break [of "dropWhile (\<lambda>c. \<not> is_break c) s"]
  show "(after_break (dropWhile (\<lambda>c. \<not> is_break c) s), s) \<in> measure length" by simp
qed simp

declare splitlines.simps [simp del]

text \<open>\<open>p in s\<close> on strings.\<close>

fun is_prefix :: "'a list \<Rightarrow> 'a list \<Rightarrow> bool" where
  "is_prefix [] s = True"
| "is_prefix (x # p) [] = False"
| "is_prefix (x # p) (y # s) = (x = y \<and> is_prefix p s)"

fun contains :: "'a list \<Rightarrow> 'a list \<Rightarrow> bool" where
  "contains p [] = (p = [])"
| "contains p (y # s) = (is_prefix p (y # s) \<or> contains p s)"

lemma is_prefix_iff: "is_prefix p s \<longleftrightarrow> (\<exists>t. s = p @ t)"
  by (induction p s rule: is_prefix.induct) auto

lemma contains_Cons_iff: "(\<exists>a b. y # s = a @ p @ b) \<longleftrightarrow> (\<exists>t. y # s = p @ t) \<or> (\<exists>a b. s = a @ p @ b)"
proof
  assume "\<exists>a b. y # s = a @ p @ b"
  then obtain a b where "y # s = a @ p @ b" by blast
  then show "(\<exists>t. y # s = p @ t) \<or> (\<exists>a b. s = a @ p @ b)" by (cases a) auto
next
  assume "(\<exists>t. y # s = p @ t) \<or> (\<exists>a b. s = a @ p @ b)"
  then show "\<exists>a b. y # s = a @ p @ b"
  proof
    assume "\<exists>t. y # s = p @ t"
    then have "\<exists>t. y # s = [] @ p @ t" by simp
    then show ?thesis by blast
  next
    assume "\<exists>a b. s = a @ p @ b"
    then obtain a b where "s = a @ p @ b" by blast
    then have "y # s = (y # a) @ p @ b" by simp
    then show ?thesis by blast
  qed
qed

lemma contains_iff: "contains p s \<longleftrightarrow> (\<exists>a b. s = a @ p @ b)"
  by (induction p s rule: contains.induct) (auto simp: is_prefix_iff contains_Cons_iff)

fun join :: "string \<Rightarrow> string list \<Rightarrow> string" where
  "join sep [] = ''''"
| "join sep [x] = x"
| "join sep (x # y # xs) = x @ sep @ join sep (y # xs)"

text \<open>Decimal digits of a number, as \<open>str(int)\<close>.\<close>

fun show_nat :: "nat \<Rightarrow> string" where
  "show_nat n = (if n < 10 then [char_of (48 + n)]
     else show_nat (n div 10) @ [char_of (48 + n mod 10)])"

declare show_nat.simps [simp del]

definition show_int :: "int \<Rightarrow> string" where
  "show_int i = (if i < 0 then CHR ''-'' # show_nat (nat (- i)) else show_nat (nat i))"

text \<open>\<open>repr\<close> of a string: single quotes unless it holds a single and no double quote.\<close>

definition hex_digit :: "nat \<Rightarrow> char" where
  "hex_digit n = (if n < 10 then char_of (48 + n) else char_of (87 + n))"

definition repr_char :: "char \<Rightarrow> char \<Rightarrow> string" where
  "repr_char q c = (let n = of_char c :: nat in
     if c = q \<or> n = 92 then [char_of (92::nat), c]
     else if n = 9 then [char_of (92::nat), CHR ''t'']
     else if n = 10 then [char_of (92::nat), CHR ''n'']
     else if n = 13 then [char_of (92::nat), CHR ''r'']
     else if n < 32 \<or> (127 \<le> n \<and> n \<le> 160) \<or> n = 173
       then [char_of (92::nat), CHR ''x'', hex_digit (n div 16), hex_digit (n mod 16)]
     else [c])"

definition py_repr :: "string \<Rightarrow> string" where
  "py_repr s = (let sq = char_of (39::nat); dq = char_of (34::nat);
      q = (if sq \<in> set s \<and> dq \<notin> set s then dq else sq)
    in q # concat (map (repr_char q) s) @ [q])"

section \<open>Tables of rows\<close>

text \<open>
  A table is the list of its rows in insertion order. \<open>row_with key k\<close> is
  \<open>SELECT ... WHERE key = k\<close> with \<open>fetchone\<close>, \<open>update_rows\<close> is \<open>UPDATE ... WHERE\<close> and
  \<open>row_count\<close> its \<open>rowcount\<close>.
\<close>

definition row_with :: "('r \<Rightarrow> 'k) \<Rightarrow> 'k \<Rightarrow> 'r list \<Rightarrow> 'r option" where
  "row_with key k rows = find (\<lambda>r. key r = k) rows"

definition update_rows :: "('r \<Rightarrow> bool) \<Rightarrow> ('r \<Rightarrow> 'r) \<Rightarrow> 'r list \<Rightarrow> 'r list" where
  "update_rows P f rows = map (\<lambda>r. if P r then f r else r) rows"

definition row_count :: "('r \<Rightarrow> bool) \<Rightarrow> 'r list \<Rightarrow> nat" where
  "row_count P rows = length (filter P rows)"

lemma row_with_simps [table_simps]:
  "row_with key k [] = None"
  "row_with key k (r # rs) = (if key r = k then Some r else row_with key k rs)"
  by (simp_all add: row_with_def)

lemma update_rows_simps [table_simps]:
  "update_rows P f [] = []"
  "update_rows P f (r # rs) = (if P r then f r else r) # update_rows P f rs"
  by (simp_all add: update_rows_def)

lemma row_with_SomeD: "row_with key k rows = Some r \<Longrightarrow> r \<in> set rows \<and> key r = k"
  unfolding row_with_def by (auto simp: find_Some_iff)

lemma row_with_None_iff: "row_with key k rows = None \<longleftrightarrow> k \<notin> key ` set rows"
  unfolding row_with_def by (auto simp: find_None_iff)

lemma row_with_eqI:
  "distinct (map key rows) \<Longrightarrow> r \<in> set rows \<Longrightarrow> key r = k \<Longrightarrow> row_with key k rows = Some r"
  by (induction rows) (auto simp: table_simps)

lemma row_with_append:
  "row_with key k (xs @ ys) =
     (case row_with key k xs of None \<Rightarrow> row_with key k ys | Some r \<Rightarrow> Some r)"
  by (induction xs) (auto simp: table_simps)

lemma set_update_rows: "set (update_rows P f rows) = (\<lambda>r. if P r then f r else r) ` set rows"
  by (simp add: update_rows_def)

text \<open>The row an update leaves in the place of \<open>r\<close>.\<close>

abbreviation updated :: "('r \<Rightarrow> bool) \<Rightarrow> ('r \<Rightarrow> 'r) \<Rightarrow> 'r \<Rightarrow> 'r" where
  "updated P f r \<equiv> if P r then f r else r"

lemma ball_update_rows:
  "(\<forall>r \<in> set (update_rows P f rows). Q r) \<longleftrightarrow> (\<forall>r \<in> set rows. Q (updated P f r))"
  by (simp only: set_update_rows ball_simps)

lemma bex_update_rows:
  "(\<exists>r \<in> set (update_rows P f rows). Q r) \<longleftrightarrow> (\<exists>r \<in> set rows. Q (updated P f r))"
  by (simp only: set_update_rows bex_simps)

lemma in_update_rowsE:
  assumes "r \<in> set (update_rows P f rows)"
  obtains (same) "r \<in> set rows" "\<not> P r" | (changed) r0 where "r0 \<in> set rows" "P r0" "r = f r0"
  using assms by (auto simp: set_update_rows split: if_splits)

lemma map_key_update_rows:
  "(\<And>r. P r \<Longrightarrow> key (f r) = key r) \<Longrightarrow> map key (update_rows P f rows) = map key rows"
  by (simp add: update_rows_def)

lemma row_with_update_rows:
  assumes "\<And>r. P r \<Longrightarrow> key (f r) = key r"
  shows "row_with key k (update_rows P f rows) =
    map_option (\<lambda>r. if P r then f r else r) (row_with key k rows)"
  using assms by (induction rows) (auto simp: table_simps)

lemma length_update_rows [simp]: "length (update_rows P f rows) = length rows"
  by (simp add: update_rows_def)

lemma update_rows_id: "(\<And>r. r \<in> set rows \<Longrightarrow> \<not> P r) \<Longrightarrow> update_rows P f rows = rows"
  by (induction rows) (auto simp: table_simps)

lemma row_count_pos: "0 < row_count P rows \<longleftrightarrow> (\<exists>r \<in> set rows. P r)"
  by (auto simp: row_count_def filter_empty_conv)

lemma length_filter_mono: "(\<And>x. P x \<Longrightarrow> Q x) \<Longrightarrow> length (filter P xs) \<le> length (filter Q xs)"
  by (induction xs) (auto simp: le_SucI)

lemma length_filter_self: "distinct rows \<Longrightarrow> r \<in> set rows \<Longrightarrow> length (filter (\<lambda>x. x = r) rows) = 1"
  by (induction rows) (auto simp: filter_empty_conv)

lemma row_count_unique:
  assumes "distinct rows" "r \<in> set rows" "\<And>x. x \<in> set rows \<Longrightarrow> P x \<longleftrightarrow> x = r"
  shows "row_count P rows = 1"
proof -
  have "filter P rows = filter (\<lambda>x. x = r) rows"
    by (rule filter_cong) (simp_all add: assms(3))
  with assms(1,2) show ?thesis by (simp add: row_count_def length_filter_self)
qed

section \<open>Keyed stores\<close>

text \<open>
  The contract of a registry of records with a key: what a lookup returns after a write. A
  component that keeps its records in such a registry changes them by \<open>edit\<close>; what every edit
  keeps of a record is kept of every record.
\<close>

locale keyed_store =
  fixes key :: "'v \<Rightarrow> 'k"
    and get :: "'s \<Rightarrow> 'k \<Rightarrow> 'v option"
    and put :: "'v \<Rightarrow> 's \<Rightarrow> 's"
  assumes get_put: "get (put v s) k = (if k = key v then Some v else get s k)"
    and get_key: "get s k = Some v \<Longrightarrow> key v = k"
begin

definition keeps :: "('v \<Rightarrow> 'v \<Rightarrow> bool) \<Rightarrow> 's \<Rightarrow> 's \<Rightarrow> bool" where
  "keeps R s t \<longleftrightarrow> (\<forall>k v. get s k = Some v \<longrightarrow> (\<exists>w. get t k = Some w \<and> (w = v \<or> R v w)))"

lemma keeps_refl: "keeps R s s"
  by (simp add: keeps_def)

lemma keeps_trans:
  assumes trans: "\<And>u v w. R u v \<Longrightarrow> R v w \<Longrightarrow> R u w" and "keeps R s t" "keeps R t u"
  shows "keeps R s u"
  unfolding keeps_def
proof (intro allI impI)
  fix k v assume "get s k = Some v"
  with assms(2) obtain w where w: "get t k = Some w" "w = v \<or> R v w" unfolding keeps_def by blast
  with assms(3) obtain x where "get u k = Some x" "x = w \<or> R w x" unfolding keeps_def by blast
  with w trans show "\<exists>w. get u k = Some w \<and> (w = v \<or> R v w)" by blast
qed

lemma keeps_put: "(\<And>w. get s (key v) = Some w \<Longrightarrow> w = v \<or> R w v) \<Longrightarrow> keeps R s (put v s)"
  by (auto simp: keeps_def get_put)

lemma all_put: "(\<And>k w. get s k = Some w \<Longrightarrow> P w) \<Longrightarrow> P v \<Longrightarrow> get (put v s) k = Some w \<Longrightarrow> P w"
  by (auto simp: get_put split: if_splits)

end

text \<open>A dict of records as the list of its values in insertion order: assignment replaces the
  record of the same key in place, or appends.\<close>

definition put_row :: "('r \<Rightarrow> 'k) \<Rightarrow> 'r \<Rightarrow> 'r list \<Rightarrow> 'r list" where
  "put_row key v rows =
     (if key v \<in> key ` set rows then map (\<lambda>r. if key r = key v then v else r) rows else rows @ [v])"

lemma row_with_replace:
  "row_with key k (map (\<lambda>r. if key r = key v then v else r) rows) =
     (if k = key v then if key v \<in> key ` set rows then Some v else None else row_with key k rows)"
proof (induction rows)
  case (Cons r rows)
  then show ?case by (cases "key r = key v"; cases "k = key v") (simp_all add: table_simps)
qed (simp add: table_simps)

lemma row_with_put_row: "row_with key k (put_row key v rows) = (if k = key v then Some v else row_with key k rows)"
proof (cases "key v \<in> key ` set rows")
  case True
  then show ?thesis by (simp only: put_row_def row_with_replace if_True)
next
  case False
  then have "row_with key (key v) rows = None" by (simp only: row_with_None_iff not_False_eq_True)
  with False show ?thesis
    by (cases "k = key v") (simp_all add: put_row_def row_with_append table_simps option.case_eq_if)
qed

lemma put_row_keys: "distinct (map key rows) \<Longrightarrow> distinct (map key (put_row key v rows))"
proof (cases "key v \<in> key ` set rows")
  case True
  have "map key (map (\<lambda>r. if key r = key v then v else r) rows) = map key rows" by auto
  moreover assume "distinct (map key rows)"
  ultimately show ?thesis using True by (simp only: put_row_def if_True)
qed (auto simp: put_row_def)

lemma set_put_row: "set (put_row key v rows) \<subseteq> insert v (set rows)"
  by (auto simp: put_row_def)

lemma in_put_row: "r \<in> set rows \<Longrightarrow> key r \<noteq> key v \<Longrightarrow> r \<in> set (put_row key v rows)"
  by (auto simp: put_row_def)

lemma in_put_rowD:
  assumes "r \<in> set (put_row key v rows)"
  shows "r = v \<or> r \<in> set rows \<and> key r \<noteq> key v"
proof (cases "key v \<in> key ` set rows")
  case True
  then have "r \<in> (\<lambda>r. if key r = key v then v else r) ` set rows" using assms by (simp only: put_row_def if_True set_map)
  then show ?thesis by (auto split: if_splits)
next
  case False
  then have "\<And>x. x \<in> set rows \<Longrightarrow> key x \<noteq> key v" by (metis imageI)
  with False assms show ?thesis by (auto simp: put_row_def)
qed

lemma put_row_mem: "v \<in> set (put_row key v rows)"
  by (auto simp: put_row_def)

section \<open>Results\<close>

text \<open>The outcome of an operation that may raise: \<open>Inl\<close> the exception, \<open>Inr\<close> the value.\<close>

fun is_ok :: "'e + 'a \<Rightarrow> bool" where
  "is_ok (Inl _) = False"
| "is_ok (Inr _) = True"

fun on_ok :: "'e + 'a \<Rightarrow> ('a \<Rightarrow> 'e + 'b) \<Rightarrow> 'e + 'b" where
  "on_ok (Inl e) f = Inl e"
| "on_ok (Inr x) f = f x"

lemma on_ok_Inr_iff: "on_ok m f = Inr y \<longleftrightarrow> (\<exists>x. m = Inr x \<and> f x = Inr y)"
  by (cases m) auto

text \<open>Evaluate the first computation before touching the rest.\<close>

lemma on_ok_first_cong: "m = m' \<Longrightarrow> on_ok m f = on_ok m' f"
  by simp

lemma guard_Inr_iff: "(if p then Inl e else m) = Inr y \<longleftrightarrow> \<not> p \<and> m = Inr y"
  by simp

lemma found_Inr_iff:
  "(case v of None \<Rightarrow> Inl e | Some x \<Rightarrow> f x) = Inr y \<longleftrightarrow> (\<exists>x. v = Some x \<and> f x = Inr y)"
  by (cases v) simp_all

lemmas ok_iffs = on_ok_Inr_iff guard_Inr_iff found_Inr_iff

section \<open>Transition systems with an invariant\<close>

text \<open>
  The contract shared by every stateful component: a start condition, a step relation and a
  predicate every step keeps. The client obtains it in every reachable state and along every
  sequence of steps.
\<close>

locale guarded_system =
  fixes start :: "'s \<Rightarrow> bool"
    and step :: "'s \<Rightarrow> 's \<Rightarrow> bool"
    and good :: "'s \<Rightarrow> bool"
  assumes start_good: "start s \<Longrightarrow> good s"
    and step_good: "good s \<Longrightarrow> step s t \<Longrightarrow> good t"
begin

lemma run_good: "step\<^sup>*\<^sup>* s t \<Longrightarrow> good s \<Longrightarrow> good t"
  by (induction rule: rtranclp_induct) (auto intro: step_good)

lemma reachable_good: "start s \<Longrightarrow> step\<^sup>*\<^sup>* s t \<Longrightarrow> good t"
  using run_good start_good by blast

end

text \<open>
  A measure that no step lowers (a revision counter, an attempt counter, an event log) never
  falls along a run.
\<close>

locale ratchet =
  fixes step :: "'s \<Rightarrow> 's \<Rightarrow> bool"
    and level :: "'s \<Rightarrow> 'a::preorder"
  assumes step_up: "step s t \<Longrightarrow> level s \<le> level t"
begin

lemma run_up: "step\<^sup>*\<^sup>* s t \<Longrightarrow> level s \<le> level t"
  by (induction rule: rtranclp_induct) (auto intro: order_trans step_up)

end

end
