(* ===== verification/Board_Types.thy ===== *)
theory Board_Types
  imports Prelude
begin

text \<open>
  The data of the shared task board (\<open>flowly/board/store.py\<close>): statuses, the rows of its six
  SQLite tables, request owners and row visibility, the statements the store runs on the tables
  (with the schema's uniqueness rules, cascades and claim trigger) and the shared private helpers
  of \<open>BoardStore\<close>. An operation takes the database and returns an error, or the new database with
  its result; on an error the transaction leaves the database as it was.
\<close>

section \<open>Statuses\<close>

datatype status = STATUS_TODO | STATUS_READY | STATUS_IN_PROGRESS | STATUS_WAITING
  | STATUS_REVIEW | STATUS_BLOCKED | STATUS_DONE | STATUS_CANCELLED | STATUS_ARCHIVED

fun status_text :: "status \<Rightarrow> string" where
  "status_text STATUS_TODO = ''todo''"
| "status_text STATUS_READY = ''ready''"
| "status_text STATUS_IN_PROGRESS = ''in_progress''"
| "status_text STATUS_WAITING = ''waiting''"
| "status_text STATUS_REVIEW = ''review''"
| "status_text STATUS_BLOCKED = ''blocked''"
| "status_text STATUS_DONE = ''done''"
| "status_text STATUS_CANCELLED = ''cancelled''"
| "status_text STATUS_ARCHIVED = ''archived''"

definition VALID_STATUSES :: "status list" where
  "VALID_STATUSES = [STATUS_TODO, STATUS_READY, STATUS_IN_PROGRESS, STATUS_WAITING,
     STATUS_REVIEW, STATUS_BLOCKED, STATUS_DONE, STATUS_CANCELLED, STATUS_ARCHIVED]"

text \<open>\<open>None\<close> when the text is not in \<open>VALID_STATUSES\<close>.\<close>

definition parse_status :: "string \<Rightarrow> status option" where
  "parse_status s = find (\<lambda>v. status_text v = s) VALID_STATUSES"

definition TERMINAL_STATUSES :: "status set" where
  "TERMINAL_STATUSES = {STATUS_DONE, STATUS_CANCELLED, STATUS_ARCHIVED}"

definition COLUMN_ORDER :: "status list" where
  "COLUMN_ORDER = [STATUS_TODO, STATUS_READY, STATUS_IN_PROGRESS, STATUS_WAITING,
     STATUS_REVIEW, STATUS_BLOCKED, STATUS_DONE]"

definition MAX_TITLE_CHARS :: nat where "MAX_TITLE_CHARS = 500"
definition MAX_BODY_CHARS :: nat where "MAX_BODY_CHARS = 30000"
definition MAX_NOTE_CHARS :: nat where "MAX_NOTE_CHARS = 20000"
definition MAX_RESULT_CHARS :: nat where "MAX_RESULT_CHARS = 200000"
definition MAX_ERROR_CHARS :: nat where "MAX_ERROR_CHARS = 8000"

lemma VALID_STATUSES_all: "set VALID_STATUSES = UNIV"
proof -
  have "v \<in> set VALID_STATUSES" for v :: status
    by (cases v) (simp_all add: VALID_STATUSES_def)
  then show ?thesis by blast
qed

lemma parse_status_text [simp]: "parse_status (status_text v) = Some v"
  by (cases v) (simp_all add: parse_status_def VALID_STATUSES_def)

lemma parse_status_Some_iff: "parse_status s = Some v \<longleftrightarrow> s = status_text v"
proof
  assume "parse_status s = Some v"
  then show "s = status_text v" by (auto simp: parse_status_def find_Some_iff)
qed simp

section \<open>Rows\<close>

datatype execution_mode = Background | Voice

record card =
  c_id :: string
  c_title :: string
  c_body :: string
  c_status :: status
  c_origin_channel :: string
  c_origin_chat_id :: string
  c_created_by :: string
  c_assignee_profile :: string
  c_assignee_bot_id :: string
  c_priority :: int
  c_scheduled_at :: "real option"
  c_idempotency_key :: string
  c_revision :: int
  c_run_id :: "string option"
  c_claim_token :: "string option"
  c_lease_expires_at :: "real option"
  c_heartbeat_at :: "real option"
  c_attempt_count :: int
  c_max_attempts :: int
  c_parent_id :: "string option"
  c_result :: "string option"
  c_error :: "string option"
  c_created_at :: real
  c_updated_at :: real
  c_execution_mode :: execution_mode
  c_voice_conversation_id :: string
  c_session_key :: string
  c_request_fingerprint :: string
  c_voice_owner_uid :: string

record card_note =
  n_id :: int
  n_card_id :: string
  n_author :: string
  n_text :: string
  n_created_at :: real

text \<open>Outcomes of a claimed run; \<open>card_runs.status\<close> adds the states only the store writes.\<close>

datatype outcome = O_done | O_failed | O_cancelled | O_review | O_blocked

datatype run_status = Run_running | Run_finished outcome | Run_expired | Run_interrupted

record card_run =
  r_id :: string
  r_card_id :: string
  r_attempt :: int
  r_profile :: string
  r_claim_token :: string
  r_worker_run_id :: "string option"
  r_status :: run_status
  r_started_at :: real
  r_completed_at :: "real option"
  r_error :: "string option"

record card_event =
  e_id :: int
  e_card_id :: string
  e_kind :: string
  e_actor :: string
  e_payload :: "(string \<times> json) list"
  e_created_at :: real

record card_link =
  l_parent_id :: string
  l_child_id :: string
  l_created_at :: real

datatype command_kind = K_initial | K_steer | K_respond | K_cancel

datatype command_status = Q_queued_for_next_turn | Q_delivering | Q_applied | Q_completed
  | Q_failed | Q_cancelled | Q_review | Q_blocked | Q_status_unknown | Q_held
  | Q_stopping | Q_stopped | Q_rejected

record card_command =
  q_seq :: int
  q_command_id :: string
  q_card_id :: string
  q_kind :: command_kind
  q_fingerprint :: string
  q_text :: json
  q_status :: command_status
  q_claim_token :: "string option"
  q_worker_run_id :: "string option"
  q_created_at :: real
  q_updated_at :: real
  q_response_owner :: string

text \<open>The database: the tables and the three \<open>AUTOINCREMENT\<close> counters (last value given out).\<close>

record board =
  cards :: "card list"
  card_notes :: "card_note list"
  card_runs :: "card_run list"
  card_events :: "card_event list"
  card_links :: "card_link list"
  card_commands :: "card_command list"
  note_seq :: int
  event_seq :: int
  command_seq :: int

definition empty_board :: board where
  "empty_board = \<lparr>cards = [], card_notes = [], card_runs = [], card_events = [], card_links = [],
     card_commands = [], note_seq = 0, event_seq = 0, command_seq = 0\<rparr>"

datatype board_error = BoardError string | SqliteError string | AssertionError
  | VoiceError string string | KeyError string | ValueError

fun outcome_text :: "outcome \<Rightarrow> string" where
  "outcome_text O_done = ''done''"
| "outcome_text O_failed = ''failed''"
| "outcome_text O_cancelled = ''cancelled''"
| "outcome_text O_review = ''review''"
| "outcome_text O_blocked = ''blocked''"

definition parse_outcome :: "string \<Rightarrow> outcome option" where
  "parse_outcome s =
     find (\<lambda>v. outcome_text v = s) [O_done, O_failed, O_cancelled, O_review, O_blocked]"

fun mode_text :: "execution_mode \<Rightarrow> string" where
  "mode_text Background = ''background''"
| "mode_text Voice = ''voice''"

section \<open>Request owners and visibility\<close>

text \<open>
  \<open>live_voice/authority.py\<close>: no owner is trusted in-process work, \<open>RequestOwner None\<close> the host,
  \<open>RequestOwner (Some uid)\<close> a verified account.
\<close>

datatype request_owner = RequestOwner (uid: "string option")

text \<open>\<open>BoardStore._visibility_sql\<close>, the \<open>WHERE\<close> clause the listing queries add.\<close>

definition visibility_sql :: "request_owner option \<Rightarrow> card \<Rightarrow> bool" where
  "visibility_sql owner c =
     (case owner of
        None \<Rightarrow> True
      | Some w \<Rightarrow>
          (case uid w of
             None \<Rightarrow> c_voice_owner_uid c = ''''
           | Some u \<Rightarrow> c_voice_owner_uid c = u
               \<or> (c_voice_owner_uid c = '''' \<and> c_execution_mode c \<noteq> Voice)))"

text \<open>\<open>BoardStore._row_visible\<close>, the check on a row already fetched.\<close>

definition row_visible :: "request_owner option \<Rightarrow> card \<Rightarrow> bool" where
  "row_visible owner c =
     (if owner = None then True
      else (let w = the owner; u = c_voice_owner_uid c in
        if uid w = None then u = ''''
        else Some u = uid w \<or> (u = '''' \<and> c_execution_mode c \<noteq> Voice)))"

lemma row_visible_sql: "row_visible owner c = visibility_sql owner c"
  by (auto simp: row_visible_def visibility_sql_def Let_def split: option.splits)

lemma visible_internal [simp]: "row_visible None c"
  by (simp add: row_visible_def)

section \<open>Statements on the tables\<close>

definition card_row :: "board \<Rightarrow> string \<Rightarrow> card option" where
  "card_row b cid = row_with c_id cid (cards b)"

text \<open>\<open>UPDATE cards SET ... WHERE P\<close> for a statement that does not set \<open>status\<close>.\<close>

definition update_cards :: "(card \<Rightarrow> bool) \<Rightarrow> (card \<Rightarrow> card) \<Rightarrow> board \<Rightarrow> board" where
  "update_cards P f b = b\<lparr>cards := update_rows P f (cards b)\<rparr>"

text \<open>
  A statement that sets \<open>status\<close> runs the trigger \<open>trg_cards_preserve_active_claim\<close>: it raises
  when a row keeps its claim token and leaves \<open>in_progress\<close>.
\<close>

definition claim_trigger :: "card \<Rightarrow> card \<Rightarrow> bool" where
  "claim_trigger old new \<longleftrightarrow> c_claim_token old \<noteq> None \<and> c_claim_token new = c_claim_token old
     \<and> c_status new \<noteq> STATUS_IN_PROGRESS"

definition update_cards_status ::
    "(card \<Rightarrow> bool) \<Rightarrow> (card \<Rightarrow> card) \<Rightarrow> board \<Rightarrow> board_error + board" where
  "update_cards_status P f b =
     (if list_ex (\<lambda>c. P c \<and> claim_trigger c (f c)) (cards b)
      then Inl (SqliteError ''active board claim must be finished by its token owner'')
      else Inr (update_cards P f b))"

text \<open>\<open>INSERT INTO cards\<close> under the primary key and the partial unique index on
  \<open>idempotency_key\<close>.\<close>

definition insert_card :: "card \<Rightarrow> board \<Rightarrow> board_error + board" where
  "insert_card c b =
     (if c_id c \<in> c_id ` set (cards b)
      then Inl (SqliteError ''UNIQUE constraint failed: cards.id'')
      else if c_idempotency_key c \<noteq> '''' \<and> c_idempotency_key c \<in> c_idempotency_key ` set (cards b)
      then Inl (SqliteError ''UNIQUE constraint failed: cards.idempotency_key'')
      else Inr (b\<lparr>cards := cards b @ [c]\<rparr>))"

definition insert_note :: "string \<Rightarrow> string \<Rightarrow> string \<Rightarrow> real \<Rightarrow> board \<Rightarrow> board" where
  "insert_note cid author txt now b =
     b\<lparr>card_notes := card_notes b @
          [\<lparr>n_id = note_seq b + 1, n_card_id = cid, n_author = author, n_text = txt,
            n_created_at = now\<rparr>],
        note_seq := note_seq b + 1\<rparr>"

definition insert_command :: "card_command \<Rightarrow> board \<Rightarrow> board_error + board" where
  "insert_command q b =
     (if q_command_id q \<in> q_command_id ` set (card_commands b)
      then Inl (SqliteError ''UNIQUE constraint failed: card_commands.command_id'')
      else Inr (b\<lparr>card_commands := card_commands b @ [q\<lparr>q_seq := command_seq b + 1\<rparr>],
                  command_seq := command_seq b + 1\<rparr>))"

definition update_commands ::
    "(card_command \<Rightarrow> bool) \<Rightarrow> (card_command \<Rightarrow> card_command) \<Rightarrow> board \<Rightarrow> board" where
  "update_commands P f b = b\<lparr>card_commands := update_rows P f (card_commands b)\<rparr>"

definition update_runs :: "(card_run \<Rightarrow> bool) \<Rightarrow> (card_run \<Rightarrow> card_run) \<Rightarrow> board \<Rightarrow> board" where
  "update_runs P f b = b\<lparr>card_runs := update_rows P f (card_runs b)\<rparr>"

text \<open>\<open>DELETE FROM cards WHERE P\<close> with the \<open>ON DELETE CASCADE\<close> of the other five tables.\<close>

definition delete_cards :: "(card \<Rightarrow> bool) \<Rightarrow> board \<Rightarrow> board" where
  "delete_cards P b =
     (let gone = c_id ` set (filter P (cards b)) in
      b\<lparr>cards := filter (\<lambda>c. \<not> P c) (cards b),
        card_notes := filter (\<lambda>n. n_card_id n \<notin> gone) (card_notes b),
        card_runs := filter (\<lambda>r. r_card_id r \<notin> gone) (card_runs b),
        card_events := filter (\<lambda>e. e_card_id e \<notin> gone) (card_events b),
        card_links := filter (\<lambda>l. l_parent_id l \<notin> gone \<and> l_child_id l \<notin> gone) (card_links b),
        card_commands := filter (\<lambda>q. q_card_id q \<notin> gone) (card_commands b)\<rparr>)"

section \<open>Private helpers of the store\<close>

text \<open>\<open>_id_visible_locked\<close> and \<open>_require_card_locked\<close>.\<close>

definition id_visible :: "request_owner option \<Rightarrow> board \<Rightarrow> string \<Rightarrow> bool" where
  "id_visible owner b cid =
     (case card_row b cid of None \<Rightarrow> False | Some c \<Rightarrow> row_visible owner c)"

definition require_card :: "request_owner option \<Rightarrow> board \<Rightarrow> string \<Rightarrow> board_error + unit" where
  "require_card owner b cid =
     (if id_visible owner b cid then Inr () else Inl (BoardError ''card not found''))"

text \<open>
  \<open>_row_to_card\<close>: the public view of a row. A hidden parent is dropped, an empty creator reads
  \<open>user\<close>, a missing attempt budget reads 2.
\<close>

definition row_view :: "request_owner option \<Rightarrow> board \<Rightarrow> card \<Rightarrow> card" where
  "row_view owner b row =
     row\<lparr>c_created_by := (if c_created_by row = '''' then ''user'' else c_created_by row),
         c_max_attempts := max 1 (if c_max_attempts row = 0 then 2 else c_max_attempts row),
         c_parent_id := (case c_parent_id row of
            None \<Rightarrow> None
          | Some p \<Rightarrow> if p = '''' \<or> id_visible owner b p then Some p else None)\<rparr>"

definition row_to_card :: "request_owner option \<Rightarrow> board \<Rightarrow> card \<Rightarrow> board_error + card" where
  "row_to_card owner b row =
     (if row_visible owner row then Inr (row_view owner b row)
      else Inl (BoardError ''card not found''))"

text \<open>\<open>_get_card_locked\<close>.\<close>

definition get_card :: "request_owner option \<Rightarrow> board \<Rightarrow> string \<Rightarrow> card option" where
  "get_card owner b cid =
     (case card_row b cid of
        None \<Rightarrow> None
      | Some row \<Rightarrow> if row_visible owner row then Some (row_view owner b row) else None)"

text \<open>\<open>_get_notes_locked\<close>: by creation time, then id.\<close>

definition get_notes :: "request_owner option \<Rightarrow> board \<Rightarrow> string \<Rightarrow> card_note list" where
  "get_notes owner b cid =
     (if id_visible owner b cid
      then sort_key (\<lambda>n. n_created_at n) (sort_key n_id
             (filter (\<lambda>n. n_card_id n = cid) (card_notes b)))
      else [])"

text \<open>\<open>_record_event_locked\<close>.\<close>

definition record_event ::
    "string \<Rightarrow> string \<Rightarrow> string \<Rightarrow> (string \<times> json) list \<Rightarrow> real \<Rightarrow> board \<Rightarrow> board" where
  "record_event cid kind actor payload now b =
     b\<lparr>card_events := card_events b @
          [\<lparr>e_id = event_seq b + 1, e_card_id = cid, e_kind = kind,
            e_actor = take 128 (if actor = '''' then ''system'' else actor),
            e_payload = payload, e_created_at = now\<rparr>],
        event_seq := event_seq b + 1\<rparr>"

end
