(* ===== verification/Voice_Commands.thy ===== *)
theory Voice_Commands
  imports Board_Types
begin

text \<open>
  Turn instructions of voice tasks (\<open>flowly/board/voice_commands.py\<close>, class \<open>VoiceCommands\<close>):
  the durable queue \<open>card_commands\<close>, the operations that share the store's claim transaction
  (\<open>*_locked\<close>) and the public operations on instructions, responses, reconciliations and
  cancellations. \<open>pid\<close> is the module's \<open>_PROCESS_ID\<close>; \<open>digest\<close> is the SHA-256 hex digest of the
  JSON text of an object, \<open>dumps\<close> is \<open>json.dumps\<close> with sorted keys and compact separators
  (\<open>None\<close> when it raises).
\<close>

section \<open>Queue queries\<close>

definition turn_kind :: "command_kind \<Rightarrow> bool" where
  "turn_kind k = (k = K_initial \<or> k = K_steer)"

fun kind_text :: "command_kind \<Rightarrow> string" where
  "kind_text K_initial = ''initial''"
| "kind_text K_steer = ''steer''"
| "kind_text K_respond = ''respond''"
| "kind_text K_cancel = ''cancel''"

fun command_status_text :: "command_status \<Rightarrow> string" where
  "command_status_text Q_queued_for_next_turn = ''queued_for_next_turn''"
| "command_status_text Q_delivering = ''delivering''"
| "command_status_text Q_applied = ''applied''"
| "command_status_text Q_completed = ''completed''"
| "command_status_text Q_failed = ''failed''"
| "command_status_text Q_cancelled = ''cancelled''"
| "command_status_text Q_review = ''review''"
| "command_status_text Q_blocked = ''blocked''"
| "command_status_text Q_status_unknown = ''status_unknown''"
| "command_status_text Q_held = ''held''"
| "command_status_text Q_stopping = ''stopping''"
| "command_status_text Q_stopped = ''stopped''"
| "command_status_text Q_rejected = ''rejected''"

text \<open>\<open>SELECT ... ORDER BY seq LIMIT 1\<close>, and the same with \<open>DESC\<close>.\<close>

definition first_by_seq :: "(card_command \<Rightarrow> bool) \<Rightarrow> board \<Rightarrow> card_command option" where
  "first_by_seq P b = find P (sort_key q_seq (card_commands b))"

definition last_by_seq :: "(card_command \<Rightarrow> bool) \<Rightarrow> board \<Rightarrow> card_command option" where
  "last_by_seq P b = find P (rev (sort_key q_seq (card_commands b)))"

definition some_command :: "(card_command \<Rightarrow> bool) \<Rightarrow> board \<Rightarrow> bool" where
  "some_command P b = list_ex P (card_commands b)"

definition command_row :: "board \<Rightarrow> string \<Rightarrow> card_command option" where
  "command_row b k = row_with q_command_id k (card_commands b)"

section \<open>The wire form\<close>

record command_view =
  v_commandId :: string
  v_cardId :: string
  v_kind :: command_kind
  v_text :: json
  v_status :: command_status
  v_workerRunId :: "string option"
  v_createdAt :: real
  v_updatedAt :: real

text \<open>\<open>_wire\<close>: a response being delivered by another process reads \<open>status_unknown\<close>.\<close>

definition wire :: "string \<Rightarrow> card_command \<Rightarrow> command_view" where
  "wire pid row =
     \<lparr>v_commandId = q_command_id row, v_cardId = q_card_id row, v_kind = q_kind row,
      v_text = q_text row,
      v_status = (if q_kind row = K_respond \<and> q_status row = Q_delivering
                     \<and> q_response_owner row \<noteq> pid
                  then Q_status_unknown else q_status row),
      v_workerRunId = q_worker_run_id row, v_createdAt = q_created_at row,
      v_updatedAt = q_updated_at row\<rparr>"

text \<open>The final \<open>SELECT * ... fetchone()\<close> of a writing operation; a missing row would be an
  error of \<open>_wire(None)\<close>.\<close>

definition wire_of :: "string \<Rightarrow> board \<Rightarrow> string \<Rightarrow> board_error + command_view" where
  "wire_of pid b k =
     (case command_row b k of None \<Rightarrow> Inl AssertionError | Some row \<Rightarrow> Inr (wire pid row))"

section \<open>Operations in the caller's transaction\<close>

definition new_command ::
    "string \<Rightarrow> string \<Rightarrow> command_kind \<Rightarrow> string \<Rightarrow> json \<Rightarrow> command_status \<Rightarrow> string \<Rightarrow> real \<Rightarrow> card_command"
where
  "new_command k cid kind fp txt st rowner now =
     \<lparr>q_seq = 0, q_command_id = k, q_card_id = cid, q_kind = kind, q_fingerprint = fp,
      q_text = txt, q_status = st, q_claim_token = None, q_worker_run_id = None,
      q_created_at = now, q_updated_at = now, q_response_owner = rowner\<rparr>"

definition seed_locked ::
    "request_owner option \<Rightarrow> string \<Rightarrow> string \<Rightarrow> real \<Rightarrow> board \<Rightarrow> board_error + board" where
  "seed_locked owner cid txt now b =
     on_ok (require_card owner b cid) (\<lambda>_.
       insert_command (new_command (''voice:'' @ cid @ '':initial'') cid K_initial '''' (JStr txt)
         Q_queued_for_next_turn '''' now) b)"

text \<open>\<open>_card_locked\<close>.\<close>

definition card_locked ::
    "request_owner option \<Rightarrow> board \<Rightarrow> string \<Rightarrow> string \<Rightarrow> board_error + card" where
  "card_locked owner b conversation_id cid =
     (case get_card owner b cid of
        None \<Rightarrow> Inl (BoardError ''task not found in this voice conversation'')
      | Some c \<Rightarrow>
          if c_execution_mode c \<noteq> Voice \<or> c_voice_conversation_id c \<noteq> conversation_id
          then Inl (BoardError ''task not found in this voice conversation'')
          else Inr c)"

definition require_command_card ::
    "request_owner option \<Rightarrow> board \<Rightarrow> string \<Rightarrow> board_error + unit" where
  "require_command_card owner b k =
     (case command_row b k of
        None \<Rightarrow> Inr ()
      | Some row \<Rightarrow> require_card owner b (q_card_id row))"

definition is_pending_stop :: "string \<Rightarrow> card_command \<Rightarrow> bool" where
  "is_pending_stop cid q \<longleftrightarrow> q_card_id q = cid \<and> q_kind q = K_cancel
     \<and> (q_status q = Q_stopping \<or> q_status q = Q_status_unknown)"

definition pending_stop_locked ::
    "request_owner option \<Rightarrow> board \<Rightarrow> string \<Rightarrow> board_error + card_command option" where
  "pending_stop_locked owner b cid =
     on_ok (require_card owner b cid) (\<lambda>_. Inr (first_by_seq (is_pending_stop cid) b))"

text \<open>An instruction whose worker is under way or whose outcome is unverified.\<close>

definition is_unsettled :: "string \<Rightarrow> card_command \<Rightarrow> bool" where
  "is_unsettled cid q \<longleftrightarrow> q_card_id q = cid \<and> turn_kind (q_kind q)
     \<and> (q_status q = Q_status_unknown \<or> q_status q = Q_delivering \<or> q_status q = Q_applied)"

definition is_queued :: "string \<Rightarrow> card_command \<Rightarrow> bool" where
  "is_queued cid q \<longleftrightarrow> q_card_id q = cid \<and> q_status q = Q_queued_for_next_turn"

definition next_locked ::
    "request_owner option \<Rightarrow> board \<Rightarrow> string \<Rightarrow> board_error + card_command option" where
  "next_locked owner b cid =
     on_ok (require_card owner b cid) (\<lambda>_.
     on_ok (pending_stop_locked owner b cid) (\<lambda>stop.
       if stop \<noteq> None then Inr None
       else if some_command (is_unsettled cid) b then Inr None
       else Inr (first_by_seq (is_queued cid) b)))"

definition deliver :: "string \<Rightarrow> real \<Rightarrow> card_command \<Rightarrow> card_command" where
  "deliver token now q =
     q\<lparr>q_status := Q_delivering, q_claim_token := Some token, q_updated_at := now\<rparr>"

definition claim_locked ::
    "request_owner option \<Rightarrow> string \<Rightarrow> string \<Rightarrow> real \<Rightarrow> board \<Rightarrow> board_error + board" where
  "claim_locked owner k token now b =
     on_ok (require_command_card owner b k) (\<lambda>_.
       Inr (update_commands (\<lambda>q. q_command_id q = k \<and> q_status q = Q_queued_for_next_turn)
              (deliver token now) b))"

definition apply_to :: "string \<Rightarrow> real \<Rightarrow> card_command \<Rightarrow> card_command" where
  "apply_to worker_run_id now q =
     q\<lparr>q_status := Q_applied, q_worker_run_id := Some worker_run_id, q_updated_at := now\<rparr>"

definition applied_locked ::
    "request_owner option \<Rightarrow> string \<Rightarrow> string \<Rightarrow> string \<Rightarrow> real \<Rightarrow> board \<Rightarrow> board_error + board" where
  "applied_locked owner cid token worker_run_id now b =
     on_ok (require_card owner b cid) (\<lambda>_.
       case find (\<lambda>q. q_card_id q = cid \<and> q_claim_token q = Some token \<and> q_status q = Q_delivering)
              (card_commands b) of
         None \<Rightarrow> Inr b
       | Some row \<Rightarrow>
           Inr (record_event cid ''command_applied'' ''worker''
             [(''commandId'', JStr (q_command_id row)), (''workerRunId'', JStr worker_run_id)] now
             (update_commands (\<lambda>q. q_command_id q = q_command_id row)
               (apply_to worker_run_id now) b)))"

text \<open>The command status of a finished claim (\<open>done\<close> reads \<open>completed\<close>).\<close>

fun command_outcome :: "outcome \<Rightarrow> command_status" where
  "command_outcome O_done = Q_completed"
| "command_outcome O_failed = Q_failed"
| "command_outcome O_cancelled = Q_cancelled"
| "command_outcome O_review = Q_review"
| "command_outcome O_blocked = Q_blocked"

text \<open>\<open>claim_token = ?\<close> is never true of a NULL on either side.\<close>

definition token_matches :: "string option \<Rightarrow> string option \<Rightarrow> bool" where
  "token_matches column arg \<longleftrightarrow> arg \<noteq> None \<and> column = arg"

definition in_flight :: "card \<Rightarrow> card_command \<Rightarrow> bool" where
  "in_flight c q \<longleftrightarrow> q_card_id q = c_id c \<and> token_matches (q_claim_token q) (c_claim_token c)
     \<and> (q_status q = Q_delivering \<or> q_status q = Q_applied)"

definition verified_turn :: "card \<Rightarrow> card_command \<Rightarrow> bool" where
  "verified_turn c q \<longleftrightarrow> q_card_id q = c_id c
     \<and> token_matches (q_claim_token q) (c_claim_token c)
     \<and> turn_kind (q_kind q) \<and> q_status q = Q_completed"

text \<open>The three statements of \<open>finish_locked\<close>: settle what was in flight, keep the gate when the
  last verified turn's goal became unreachable, hold what is queued.\<close>

definition set_command_status :: "command_status \<Rightarrow> real \<Rightarrow> card_command \<Rightarrow> card_command" where
  "set_command_status st now q = q\<lparr>q_status := st, q_updated_at := now\<rparr>"

definition settle_in_flight :: "card \<Rightarrow> command_status \<Rightarrow> real \<Rightarrow> board \<Rightarrow> board" where
  "settle_in_flight c st now b = update_commands (in_flight c) (set_command_status st now) b"

definition mark_unverified :: "card \<Rightarrow> real \<Rightarrow> board \<Rightarrow> board" where
  "mark_unverified c now b =
     (case last_by_seq (verified_turn c) b of
        None \<Rightarrow> b
      | Some m \<Rightarrow> update_commands (\<lambda>q. q_seq q = q_seq m) (set_command_status Q_status_unknown now) b)"

definition hold_queue :: "string \<Rightarrow> real \<Rightarrow> board \<Rightarrow> board" where
  "hold_queue cid now b = update_commands (is_queued cid) (set_command_status Q_held now) b"

definition finish_locked ::
    "request_owner option \<Rightarrow> card \<Rightarrow> outcome \<Rightarrow> real \<Rightarrow> bool \<Rightarrow> board \<Rightarrow> board_error + (board \<times> bool)"
where
  "finish_locked owner c outcome now uncertain b =
     on_ok (require_card owner b (c_id c)) (\<lambda>_.
       let st = (if uncertain then Q_status_unknown else command_outcome outcome);
           updated = row_count (in_flight c) (card_commands b);
           b1 = settle_in_flight c st now b;
           b2 = (if uncertain \<and> updated = 0 then mark_unverified c now b1 else b1)
       in if outcome \<noteq> O_done \<or> uncertain then Inr (hold_queue (c_id c) now b2, False)
          else on_ok (next_locked owner b2 (c_id c)) (\<lambda>nxt. Inr (b2, nxt \<noteq> None)))"

section \<open>Public operations\<close>

text \<open>\<open>list\<close> and \<open>latest_instructions\<close>.\<close>

definition list_commands ::
    "string \<Rightarrow> request_owner option \<Rightarrow> board \<Rightarrow> string \<Rightarrow> string \<Rightarrow> board_error + command_view list" where
  "list_commands pid owner b conversation_id cid =
     on_ok (card_locked owner b conversation_id cid) (\<lambda>_.
       Inr (map (wire pid) (sort_key q_seq (filter (\<lambda>q. q_card_id q = cid) (card_commands b)))))"

definition steers_of :: "request_owner option \<Rightarrow> board \<Rightarrow> string \<Rightarrow> string \<Rightarrow> card_command list" where
  "steers_of owner b conversation_id cid =
     filter (\<lambda>q. q_card_id q = cid \<and> q_kind q = K_steer
       \<and> (case card_row b cid of None \<Rightarrow> False
          | Some c \<Rightarrow> c_voice_conversation_id c = conversation_id \<and> visibility_sql owner c))
       (card_commands b)"

definition latest_instructions ::
    "request_owner option \<Rightarrow> board \<Rightarrow> string \<Rightarrow> string \<rightharpoonup> string \<times> command_status" where
  "latest_instructions owner b conversation_id cid =
     (case rev (sort_key q_seq (steers_of owner b conversation_id cid)) of
        [] \<Rightarrow> None
      | q # _ \<Rightarrow> Some (q_command_id q, q_status q))"

text \<open>The identity checks of \<open>enqueue\<close>, and \<open>identity\<close> and \<open>integer\<close> of
  \<open>live_voice/sessions.py\<close>.\<close>

definition ascii_alnum :: "char \<Rightarrow> bool" where
  "ascii_alnum ch = (let n = of_char ch :: nat in
     (48 \<le> n \<and> n \<le> 57) \<or> (65 \<le> n \<and> n \<le> 90) \<or> (97 \<le> n \<and> n \<le> 122))"

definition id_char :: "char \<Rightarrow> bool" where
  "id_char ch = (ascii_alnum ch \<or> ch = CHR ''.'' \<or> ch = CHR ''-'')"

definition enqueue_id_ok :: "pyval \<Rightarrow> bool" where
  "enqueue_id_ok v = (is_str v \<and> 1 \<le> length (the_str v) \<and> length (the_str v) \<le> 128
     \<and> list_all id_char (the_str v))"

definition identity :: "pyval \<Rightarrow> string \<Rightarrow> board_error + string" where
  "identity v field =
     (case v of
        PStr (h # t) \<Rightarrow>
          if ascii_alnum h \<and> length t \<le> 127 \<and> list_all id_char t then Inr (h # t)
          else Inl (VoiceError ''INVALID_PARAMS'' (field @ '' must be a valid bounded identity.''))
      | _ \<Rightarrow> Inl (VoiceError ''INVALID_PARAMS'' (field @ '' must be a valid bounded identity.'')))"

definition integer :: "pyval \<Rightarrow> string \<Rightarrow> board_error + int" where
  "integer v field =
     (case v of
        PInt i \<Rightarrow>
          if 0 \<le> i \<and> i \<le> 2 ^ 53 - 1 then Inr i
          else Inl (VoiceError ''INVALID_PARAMS'' (field @ '' is outside its supported range.''))
      | _ \<Rightarrow> Inl (VoiceError ''INVALID_PARAMS'' (field @ '' is outside its supported range.'')))"

definition command_count :: "string \<Rightarrow> board \<Rightarrow> nat" where
  "command_count cid b = row_count (\<lambda>q. q_card_id q = cid) (card_commands b)"

definition command_limit :: nat where "command_limit = 200"

definition resume_row :: "real \<Rightarrow> status \<Rightarrow> card \<Rightarrow> card" where
  "resume_row now st r =
     r\<lparr>c_status := st, c_scheduled_at := None, c_revision := c_revision r + 1, c_updated_at := now\<rparr>"

definition enqueue ::
    "string \<Rightarrow> (json \<Rightarrow> string) \<Rightarrow> request_owner option \<Rightarrow> real \<Rightarrow> string \<Rightarrow> string \<Rightarrow> pyval \<Rightarrow> pyval \<Rightarrow> pyval
      \<Rightarrow> board \<Rightarrow> board_error + (board \<times> command_view)" where
  "enqueue pid digest owner now conversation_id cid command_id expected_revision txt b =
     (if \<not> enqueue_id_ok command_id then Inl (BoardError ''command identity is invalid'')
      else if \<not> plain_int expected_revision \<or> the_int_of expected_revision < 0
      then Inl (BoardError ''task revision is invalid'')
      else if \<not> is_str txt \<or> strip (the_str txt) = '''' \<or> 30000 < length (the_str txt)
      then Inl (BoardError (''instruction must contain 1'' @ [en_dash] @ ''30,000 characters''))
      else let k = the_str command_id; rev = the_int_of expected_revision;
               t = strip (the_str txt);
               fp = digest (JObj [(''conversation'', JStr conversation_id), (''card'', JStr cid),
                      (''text'', JStr t), (''revision'', JInt rev), (''kind'', JStr ''steer'')])
      in on_ok (card_locked owner b conversation_id cid) (\<lambda>c.
        case command_row b k of
          Some old \<Rightarrow>
            if q_fingerprint old \<noteq> fp
            then Inl (BoardError ''command identity already belongs to a different request'')
            else Inr (b, wire pid old)
        | None \<Rightarrow>
            if c_revision c \<noteq> rev
            then Inl (BoardError ''task revision has changed; refresh the task before continuing'')
            else if c_status c = STATUS_ARCHIVED
            then Inl (BoardError ''archived task cannot receive instructions'')
            else on_ok (pending_stop_locked owner b cid) (\<lambda>stop.
              if stop \<noteq> None then Inl (BoardError ''task cancellation is still being verified'')
              else if some_command (\<lambda>q. q_card_id q = cid \<and> turn_kind (q_kind q)
                     \<and> q_status q = Q_status_unknown) b
              then Inl (BoardError
                ''task has an unverified worker outcome; reconcile it before continuing'')
              else if command_limit \<le> command_count cid b
              then Inl (BoardError
                ''this task has reached its instruction limit; start a new task'')
              else
                on_ok (insert_command (new_command k cid K_steer fp (JStr t)
                         Q_queued_for_next_turn '''' now) b) (\<lambda>b1.
                on_ok (update_cards_status (\<lambda>r. c_id r = cid)
                         (resume_row now (if truthy (c_claim_token c) then STATUS_IN_PROGRESS
                                          else STATUS_READY)) b1) (\<lambda>b2.
                let b3 = record_event cid ''command_queued'' ''user''
                       [(''commandId'', JStr k), (''kind'', JStr ''steer''),
                        (''status'', JStr ''queued_for_next_turn'')] now b2
                in on_ok (wire_of pid b3 k) (\<lambda>w. Inr (b3, w)))))))"

definition claimed ::
    "string \<Rightarrow> request_owner option \<Rightarrow> board \<Rightarrow> string \<Rightarrow> string \<Rightarrow> board_error + command_view" where
  "claimed pid owner b cid token =
     on_ok (require_card owner b cid) (\<lambda>_.
       case find (\<lambda>q. q_card_id q = cid \<and> q_claim_token q = Some token
                   \<and> (q_status q = Q_delivering \<or> q_status q = Q_applied)) (card_commands b) of
         None \<Rightarrow> Inl (BoardError ''task instruction claim is stale'')
       | Some row \<Rightarrow> Inr (wire pid row))"

definition complete_turn :: "string \<Rightarrow> card_command \<Rightarrow> real \<Rightarrow> board \<Rightarrow> board" where
  "complete_turn cid row now b =
     (if q_status row = Q_applied
      then record_event cid ''command_completed'' ''worker''
             [(''commandId'', JStr (q_command_id row)), (''workerRunId'', jopt (q_worker_run_id row))] now
             (update_commands (\<lambda>q. q_command_id q = q_command_id row)
               (set_command_status Q_completed now) b)
      else b)"

definition deliver_next ::
    "string \<Rightarrow> request_owner option \<Rightarrow> string \<Rightarrow> real \<Rightarrow> card_command option \<Rightarrow> board
      \<Rightarrow> board_error + (board \<times> command_view option)" where
  "deliver_next pid owner token now nxt b =
     (case nxt of
        None \<Rightarrow> Inr (b, None)
      | Some q \<Rightarrow>
          on_ok (claim_locked owner (q_command_id q) token now b) (\<lambda>b1.
          on_ok (wire_of pid b1 (q_command_id q)) (\<lambda>w. Inr (b1, Some w))))"

definition advance_boundary ::
    "string \<Rightarrow> request_owner option \<Rightarrow> real \<Rightarrow> string \<Rightarrow> string \<Rightarrow> string \<Rightarrow> board
      \<Rightarrow> board_error + (board \<times> command_view option)" where
  "advance_boundary pid owner now cid token completed b =
     (case get_card owner b cid of
        None \<Rightarrow> Inl (BoardError ''task instruction claim is stale'')
      | Some c \<Rightarrow>
          if c_execution_mode c \<noteq> Voice \<or> c_claim_token c \<noteq> Some token
          then Inl (BoardError ''task instruction claim is stale'')
          else (case find (\<lambda>q. q_card_id q = cid \<and> q_claim_token q = Some token
                        \<and> q_command_id q = completed \<and> turn_kind (q_kind q)) (card_commands b) of
            None \<Rightarrow> Inl (BoardError ''the worker turn has not completed'')
          | Some row \<Rightarrow>
              if q_status row \<noteq> Q_applied \<and> q_status row \<noteq> Q_completed
              then Inl (BoardError ''the worker turn has not completed'')
              else on_ok (pending_stop_locked owner b cid) (\<lambda>stop.
                if stop \<noteq> None then Inr (b, None)
                else let b1 = complete_turn cid row now b
                in on_ok (next_locked owner b1 cid) (\<lambda>nxt. deliver_next pid owner token now nxt b1))))"

section \<open>Reconciliation of unverified turns\<close>

record reconciliation =
  x_seq :: int
  x_commandId :: string
  x_cardId :: string
  x_claimToken :: "string option"
  x_runId :: string
  x_revision :: int
  x_attempt :: int
  x_profile :: string
  x_expectedBotId :: string
  x_sessionKey :: string

definition or_else :: "string option \<Rightarrow> string \<Rightarrow> string" where
  "or_else v d = (if truthy v then the v else d)"

text \<open>The \<open>WHERE\<close> clause on a joined row (command, card, run).\<close>

definition reconcilable ::
    "request_owner option \<Rightarrow> board \<Rightarrow> int \<Rightarrow> card_command \<Rightarrow> card \<Rightarrow> card_run \<Rightarrow> bool" where
  "reconcilable owner b after q c r \<longleftrightarrow>
     c_id c = q_card_id q
     \<and> r_card_id r = c_id c \<and> q_claim_token q = Some (r_claim_token r)
     \<and> r_attempt r = c_attempt_count c \<and> r_profile r = c_assignee_profile c
     \<and> turn_kind (q_kind q) \<and> q_status q = Q_status_unknown
     \<and> after < q_seq q \<and> visibility_sql owner c \<and> c_execution_mode c = Voice
     \<and> c_claim_token c = None
     \<and> c_session_key c = ''desktop:voice-work:'' @ c_id c
     \<and> (c_status c = STATUS_BLOCKED \<or> c_status c = STATUS_READY)
     \<and> (r_status r = Run_expired \<or> r_status r = Run_finished O_failed
        \<or> r_status r = Run_finished O_cancelled)
     \<and> \<not> some_command (is_pending_stop (c_id c)) b
     \<and> \<not> some_command (\<lambda>n. q_card_id n = c_id c \<and> turn_kind (q_kind n)
            \<and> q_claim_token n \<noteq> None \<and> q_seq q < q_seq n) b"

definition pending_reconciliations ::
    "request_owner option \<Rightarrow> board \<Rightarrow> int \<Rightarrow> int \<Rightarrow> reconciliation list" where
  "pending_reconciliations owner b after limit =
     take (nat (max 1 (min limit 100)))
       (concat (map (\<lambda>q. concat (map (\<lambda>c. map (\<lambda>r.
            \<lparr>x_seq = q_seq q, x_commandId = q_command_id q, x_cardId = q_card_id q,
             x_claimToken = q_claim_token q,
             x_runId = or_else (q_worker_run_id q) (q_command_id q),
             x_revision = c_revision c, x_attempt = c_attempt_count c,
             x_profile = c_assignee_profile c, x_expectedBotId = c_assignee_bot_id c,
             x_sessionKey = c_session_key c\<rparr>)
          (filter (reconcilable owner b after q c) (card_runs b))) (cards b)))
        (sort_key q_seq (card_commands b))))"

text \<open>The verified statuses a worker may report, with the outcome, card status and error text
  each is committed as.\<close>

datatype worker_result = W_completed | W_aborted | W_error | W_paused

fun parse_worker_result :: "pyval option \<Rightarrow> worker_result option" where
  "parse_worker_result (Some (PStr s)) =
     (if s = ''completed'' then Some W_completed else if s = ''aborted'' then Some W_aborted
      else if s = ''error'' then Some W_error else if s = ''paused'' then Some W_paused else None)"
| "parse_worker_result _ = None"

fun result_outcome :: "worker_result \<Rightarrow> outcome" where
  "result_outcome W_completed = O_done"
| "result_outcome W_aborted = O_cancelled"
| "result_outcome W_error = O_failed"
| "result_outcome W_paused = O_failed"

fun result_card_status :: "worker_result \<Rightarrow> status" where
  "result_card_status W_completed = STATUS_DONE"
| "result_card_status W_aborted = STATUS_CANCELLED"
| "result_card_status W_error = STATUS_BLOCKED"
| "result_card_status W_paused = STATUS_BLOCKED"

fun result_error :: "worker_result \<Rightarrow> string option" where
  "result_error W_completed = None"
| "result_error W_aborted = Some ''The task was stopped.''"
| "result_error W_error =
     Some ''The worker turn failed. Review the work conversation before continuing.''"
| "result_error W_paused =
     Some ''The task goal is paused. Review the work conversation before continuing.''"

text \<open>What a worker reported, checked against the candidate: its status, the response of a
  completed turn and the completed run id. \<open>None\<close> where the source returns early.\<close>

definition checked_result ::
    "reconciliation \<Rightarrow> (string \<times> pyval) list option \<Rightarrow> (worker_result \<times> string option \<times> string) option"
where
  "checked_result candidate result =
     (case result of
        None \<Rightarrow> None
      | Some d \<Rightarrow>
          if map_of d ''runId'' \<noteq> Some (PStr (x_runId candidate)) then None
          else (case parse_worker_result (map_of d ''status'') of
            None \<Rightarrow> None
          | Some w \<Rightarrow>
              let response = (case map_of d ''response'' of None \<Rightarrow> PNone | Some v \<Rightarrow> v);
                  completed_run = (case map_of d ''completedRunId'' of
                    None \<Rightarrow> PStr (x_runId candidate) | Some v \<Rightarrow> v)
              in if w = W_completed \<and> (\<not> is_str response \<or> strip (the_str response) = '''')
                 then None
                 else if \<not> is_str completed_run \<or> length (the_str completed_run) < 1
                      \<or> 512 < length (the_str completed_run) then None
                 else Some (w, if w = W_completed then Some (the_str response) else None,
                            the_str completed_run)))"

definition settle_row :: "real \<Rightarrow> status \<Rightarrow> string option \<Rightarrow> string option \<Rightarrow> card \<Rightarrow> card" where
  "settle_row now st result error r =
     r\<lparr>c_status := st, c_result := result, c_error := error, c_scheduled_at := None,
       c_revision := c_revision r + 1, c_updated_at := now\<rparr>"

definition settle_command :: "command_status \<Rightarrow> string \<Rightarrow> real \<Rightarrow> card_command \<Rightarrow> card_command" where
  "settle_command st run now q =
     q\<lparr>q_status := st, q_worker_run_id := Some run, q_updated_at := now\<rparr>"

definition settle_run :: "outcome \<Rightarrow> string \<Rightarrow> string option \<Rightarrow> real \<Rightarrow> card_run \<Rightarrow> card_run" where
  "settle_run outcome run error now r =
     r\<lparr>r_status := Run_finished outcome, r_worker_run_id := Some run, r_completed_at := Some now,
       r_error := error\<rparr>"

text \<open>The transaction that commits a verified result. Held instructions stay held.\<close>

definition commit_result ::
    "real \<Rightarrow> reconciliation \<Rightarrow> worker_result \<Rightarrow> string option \<Rightarrow> string \<Rightarrow> board \<Rightarrow> board_error + board"
where
  "commit_result now candidate w response completed_run_id b =
     on_ok (update_cards_status (\<lambda>r. c_id r = x_cardId candidate)
              (settle_row now (result_card_status w)
                 (map_option (take MAX_RESULT_CHARS) response) (result_error w))
              (update_commands (\<lambda>q. q_command_id q = x_commandId candidate)
                 (settle_command (command_outcome (result_outcome w)) (x_runId candidate) now) b)) (\<lambda>b1.
     Inr (record_event (x_cardId candidate) ''run_finished'' (x_profile candidate)
            [(''outcome'', JStr (outcome_text (result_outcome w))),
             (''status'', JStr (status_text (result_card_status w))),
             (''attempt'', JInt (x_attempt candidate)),
             (''commandId'', JStr (x_commandId candidate)),
             (''workerRunId'', JStr (x_runId candidate)),
             (''completedRunId'', JStr completed_run_id),
             (''reconciled'', JBool True)] now
            (update_runs (\<lambda>r. r_card_id r = x_cardId candidate
                 \<and> token_matches (Some (r_claim_token r)) (x_claimToken candidate)
                 \<and> r_attempt r = x_attempt candidate)
               (settle_run (result_outcome w) (x_runId candidate) (result_error w) now) b1)))"

definition settle_reconciliation ::
    "request_owner option \<Rightarrow> real \<Rightarrow> reconciliation \<Rightarrow> (string \<times> pyval) list option \<Rightarrow> board
      \<Rightarrow> board_error + (board \<times> card option)" where
  "settle_reconciliation owner now candidate result b =
     (case checked_result candidate result of
        None \<Rightarrow> Inr (b, None)
      | Some (w, response, completed_run_id) \<Rightarrow>
          (case pending_reconciliations owner b (x_seq candidate - 1) 1 of
             [] \<Rightarrow> Inr (b, None)
           | fresh # _ \<Rightarrow>
               if fresh \<noteq> candidate then Inr (b, None)
               else on_ok (commit_result now candidate w response completed_run_id b) (\<lambda>b1.
                 Inr (b1, get_card owner b1 (x_cardId candidate)))))"

section \<open>Responses to requests\<close>

definition answer_row :: "real \<Rightarrow> card \<Rightarrow> card" where
  "answer_row now r = r\<lparr>c_revision := c_revision r + 1, c_updated_at := now\<rparr>"

definition response_intent ::
    "string \<Rightarrow> (json \<Rightarrow> string) \<Rightarrow> (json \<Rightarrow> string option) \<Rightarrow> request_owner option \<Rightarrow> real
      \<Rightarrow> string \<Rightarrow> string \<Rightarrow> pyval \<Rightarrow> pyval \<Rightarrow> (string \<times> json) list \<Rightarrow> board
      \<Rightarrow> board_error + (board \<times> bool \<times> command_view)" where
  "response_intent pid digest dumps owner now conversation_id cid command_id expected_revision
      payload b =
     on_ok (identity command_id ''commandId'') (\<lambda>k.
     on_ok (integer expected_revision ''expectedRevision'') (\<lambda>rev.
     case dumps (JObj payload) of
       None \<Rightarrow> Inl ValueError
     | Some encoded \<Rightarrow>
        if 8000 < length encoded then Inl (BoardError ''request response is too large'')
        else let fp = digest (JObj [(''conversation'', JStr conversation_id), (''card'', JStr cid),
                        (''revision'', JInt rev), (''kind'', JStr ''respond''),
                        (''payload'', JStr encoded)])
        in on_ok (card_locked owner b conversation_id cid) (\<lambda>c.
          case command_row b k of
            Some old \<Rightarrow>
              if q_fingerprint old \<noteq> fp
              then Inl (BoardError ''command identity already belongs to a different request'')
              else Inr (b, False, wire pid old)
          | None \<Rightarrow>
              if c_revision c \<noteq> rev
              then Inl (BoardError ''task revision has changed; refresh its requests before answering'')
              else on_ok (pending_stop_locked owner b cid) (\<lambda>stop.
                if stop \<noteq> None \<or> c_status c = STATUS_CANCELLED \<or> c_status c = STATUS_ARCHIVED
                then Inl (BoardError ''task is stopping or closed'')
                else if command_limit \<le> command_count cid b
                then Inl (BoardError
                  ''this task has reached its instruction limit; start a new task'')
                else
                  on_ok (insert_command (new_command k cid K_respond fp (JStr encoded)
                           Q_delivering pid now) b) (\<lambda>b1.
                  let b2 = update_cards (\<lambda>r. c_id r = cid) (answer_row now) b1
                  in case map_of payload ''requestId'' of
                       None \<Rightarrow> Inl (KeyError ''requestId'')
                     | Some request \<Rightarrow>
                        let b3 = record_event cid ''response_recorded'' ''user''
                               [(''commandId'', JStr k), (''requestId'', request)] now b2
                        in on_ok (wire_of pid b3 k) (\<lambda>w. Inr (b3, True, w)))))))"

text \<open>The statuses \<open>settle_response\<close> accepts.\<close>

definition response_outcome :: "string \<Rightarrow> command_status option" where
  "response_outcome s =
     (if s = ''applied'' then Some Q_applied else if s = ''rejected'' then Some Q_rejected
      else if s = ''status_unknown'' then Some Q_status_unknown else None)"

definition settle_response ::
    "string \<Rightarrow> request_owner option \<Rightarrow> real \<Rightarrow> string \<Rightarrow> string \<Rightarrow> board
      \<Rightarrow> board_error + (board \<times> command_view)" where
  "settle_response pid owner now k status b =
     (case response_outcome status of
        None \<Rightarrow> Inl (BoardError ''invalid response outcome'')
      | Some st \<Rightarrow>
          (case find (\<lambda>q. q_command_id q = k \<and> q_kind q = K_respond) (card_commands b) of
             None \<Rightarrow> Inl (BoardError ''response command not found'')
           | Some row \<Rightarrow>
               on_ok (require_card owner b (q_card_id row)) (\<lambda>_.
                 let b1 = (if q_status row = Q_delivering \<and> q_response_owner row = pid
                    then record_event (q_card_id row) ''response_updated'' ''worker''
                           [(''commandId'', JStr k), (''status'', JStr status)] now
                           (update_commands (\<lambda>q. q_command_id q = k)
                             (set_command_status st now) b)
                    else b)
                 in on_ok (wire_of pid b1 k) (\<lambda>w. Inr (b1, w)))))"

section \<open>Cancellation\<close>

definition stop_row :: "real \<Rightarrow> status \<Rightarrow> card \<Rightarrow> card" where
  "stop_row now st r = r\<lparr>c_status := st, c_revision := c_revision r + 1, c_updated_at := now\<rparr>"

definition undelivered :: "string \<Rightarrow> card_command \<Rightarrow> bool" where
  "undelivered cid q \<longleftrightarrow> q_card_id q = cid \<and> turn_kind (q_kind q)
     \<and> (q_status q = Q_queued_for_next_turn \<or> q_status q = Q_held)"

text \<open>The payload of a stop names the last run that was ever claimed.\<close>

definition stop_payload :: "board \<Rightarrow> string \<Rightarrow> json" where
  "stop_payload b cid =
     JObj [(''runId'',
       case last_by_seq (\<lambda>q. q_card_id q = cid \<and> turn_kind (q_kind q) \<and> q_claim_token q \<noteq> None) b of
         None \<Rightarrow> JNull
       | Some q \<Rightarrow> JStr (or_else (q_worker_run_id q) (q_command_id q)))]"

definition cancel ::
    "string \<Rightarrow> (json \<Rightarrow> string) \<Rightarrow> request_owner option \<Rightarrow> real \<Rightarrow> string \<Rightarrow> string \<Rightarrow> pyval \<Rightarrow> pyval
      \<Rightarrow> board \<Rightarrow> board_error + (board \<times> command_view)" where
  "cancel pid digest owner now conversation_id cid command_id expected_revision b =
     on_ok (identity command_id ''commandId'') (\<lambda>k.
     on_ok (integer expected_revision ''expectedRevision'') (\<lambda>rev.
     let fp = digest (JObj [(''conversation'', JStr conversation_id), (''card'', JStr cid),
                (''revision'', JInt rev), (''kind'', JStr ''cancel'')])
     in on_ok (card_locked owner b conversation_id cid) (\<lambda>c.
       case command_row b k of
         Some old \<Rightarrow>
           if q_fingerprint old \<noteq> fp
           then Inl (BoardError ''command identity already belongs to a different request'')
           else Inr (b, wire pid old)
       | None \<Rightarrow>
           if c_revision c \<noteq> rev
           then Inl (BoardError ''task revision has changed; refresh the task before cancelling'')
           else on_ok (pending_stop_locked owner b cid) (\<lambda>pending.
             if pending \<noteq> None
             then Inl (BoardError ''task cancellation is already being verified'')
             else if c_status c = STATUS_ARCHIVED
             then Inl (BoardError ''archived task cannot be cancelled'')
             else
               let st = (if c_attempt_count c = 0 \<and> \<not> truthy (c_claim_token c)
                         then Q_stopped else Q_stopping)
               in on_ok (insert_command (new_command k cid K_cancel fp (stop_payload b cid) st '''' now) b) (\<lambda>b1.
                  on_ok (update_cards_status (\<lambda>r. c_id r = cid)
                       (stop_row now (if st = Q_stopped then STATUS_CANCELLED else c_status c))
                       (update_commands (undelivered cid) (set_command_status Q_cancelled now) b1)) (\<lambda>b3.
                  let b4 = record_event cid ''cancellation_requested'' ''user''
                         [(''commandId'', JStr k), (''status'', JStr (command_status_text st))] now b3
                  in on_ok (wire_of pid b4 k) (\<lambda>w. Inr (b4, w))))))))"

definition is_active_stop :: "card_command \<Rightarrow> bool" where
  "is_active_stop q \<longleftrightarrow> q_kind q = K_cancel
     \<and> (q_status q = Q_stopping \<or> q_status q = Q_status_unknown)"

definition pending_stops ::
    "string \<Rightarrow> request_owner option \<Rightarrow> board \<Rightarrow> command_view list" where
  "pending_stops pid owner b =
     map (wire pid) (take 5 (sort_key q_updated_at (sort_key q_seq
       (filter (\<lambda>q. is_active_stop q
          \<and> (case card_row b (q_card_id q) of None \<Rightarrow> False | Some c \<Rightarrow> visibility_sql owner c))
        (card_commands b)))))"

text \<open>\<open>bind_stop_goal\<close>: the first observed goal is kept. \<open>goal_id\<close> and \<open>status\<close> are the two
  fields of the binding, \<open>PNone\<close> when absent.\<close>

definition goal_id_ok :: "pyval \<Rightarrow> bool" where
  "goal_id_ok v = (v = PNone \<or> (is_str v \<and> the_str v \<noteq> '''' \<and> length (the_str v) \<le> 512))"

definition goal_status_ok :: "pyval \<Rightarrow> bool" where
  "goal_status_ok v =
     (v \<in> {PNone, PStr ''active'', PStr ''paused'', PStr ''done'', PStr ''cleared''})"

fun json_of_opt :: "pyval \<Rightarrow> json" where
  "json_of_opt (PStr s) = JStr s"
| "json_of_opt _ = JNull"

definition set_text :: "json \<Rightarrow> real \<Rightarrow> card_command \<Rightarrow> card_command" where
  "set_text js now q = q\<lparr>q_text := js, q_updated_at := now\<rparr>"

definition bind_first ::
    "string \<Rightarrow> json \<Rightarrow> real \<Rightarrow> json \<Rightarrow> board \<Rightarrow> board_error + (board \<times> json)" where
  "bind_first k binding now txt b =
     (case txt of
        JObj payload \<Rightarrow>
          (case map_of payload ''goalBinding'' of
             Some old \<Rightarrow> Inr (b, old)
           | None \<Rightarrow>
               Inr (update_commands (\<lambda>q. q_command_id q = k)
                      (set_text (JObj (payload @ [(''goalBinding'', binding)])) now) b, binding))
      | _ \<Rightarrow> Inl ValueError)"

definition bind_stop_goal ::
    "request_owner option \<Rightarrow> real \<Rightarrow> string \<Rightarrow> pyval \<Rightarrow> pyval \<Rightarrow> board \<Rightarrow> board_error + (board \<times> json)"
where
  "bind_stop_goal owner now k goal_id status b =
     (if \<not> goal_id_ok goal_id then Inl (BoardError ''invalid cancellation goal binding'')
      else if \<not> goal_status_ok status \<or> (goal_id = PNone) \<noteq> (status = PNone)
      then Inl (BoardError ''invalid cancellation goal binding'')
      else case find (\<lambda>q. q_command_id q = k \<and> is_active_stop q) (card_commands b) of
           None \<Rightarrow> Inl (BoardError ''cancellation intent is no longer active'')
         | Some row \<Rightarrow>
             on_ok (require_card owner b (q_card_id row)) (\<lambda>_.
               bind_first k (JObj [(''goalId'', json_of_opt goal_id),
                                   (''statusAtRequest'', json_of_opt status)]) now (q_text row) b))"

text \<open>The verified outcome of the run a stop names, if its task observer settled it.\<close>

definition settled_run :: "board \<Rightarrow> string \<Rightarrow> string \<Rightarrow> card_run option" where
  "settled_run b cid run =
     find (\<lambda>r. r_card_id r = cid \<and> r_worker_run_id r = Some run
         \<and> r_status r \<in> {Run_finished O_done, Run_finished O_failed, Run_finished O_cancelled}
         \<and> some_command (\<lambda>q. q_card_id q = r_card_id r \<and> q_claim_token q = Some (r_claim_token r)
              \<and> q_worker_run_id q = Some run \<and> turn_kind (q_kind q)
              \<and> q_status q \<in> {Q_completed, Q_failed, Q_cancelled}) b)
       (sort_key (\<lambda>r. - r_attempt r) (card_runs b))"

fun run_worker_status :: "run_status \<Rightarrow> string option" where
  "run_worker_status (Run_finished O_done) = Some ''completed''"
| "run_worker_status (Run_finished O_failed) = Some ''error''"
| "run_worker_status (Run_finished O_cancelled) = Some ''aborted''"
| "run_worker_status _ = None"

text \<open>The card status and the instruction status of a verified stop.\<close>

definition stop_result :: "string option \<Rightarrow> (status \<times> command_status) option" where
  "stop_result worker_status =
     (if worker_status = Some ''completed'' then Some (STATUS_DONE, Q_completed)
      else if worker_status = Some ''error'' then Some (STATUS_BLOCKED, Q_failed)
      else if worker_status = Some ''aborted'' then Some (STATUS_CANCELLED, Q_cancelled)
      else None)"

definition stop_status :: "string \<Rightarrow> command_status option" where
  "stop_status s =
     (if s = ''stopping'' then Some Q_stopping else if s = ''status_unknown'' then Some Q_status_unknown
      else if s = ''stopped'' then Some Q_stopped else None)"

text \<open>The worker status a stop settles with: the observer's verified outcome outranks the
  reported one.\<close>

definition settled_status :: "board \<Rightarrow> string \<Rightarrow> card_command \<Rightarrow> string option \<Rightarrow> string option" where
  "settled_status b cid row reported =
     (case q_text row of
        JObj payload \<Rightarrow>
          (case map_of payload ''runId'' of
             Some (JStr run) \<Rightarrow>
               (case settled_run b cid run of
                  Some r \<Rightarrow> run_worker_status (r_status r)
                | None \<Rightarrow> reported)
           | _ \<Rightarrow> reported)
      | _ \<Rightarrow> reported)"

definition unverified_turn :: "string \<Rightarrow> card_command \<Rightarrow> bool" where
  "unverified_turn cid q \<longleftrightarrow> q_card_id q = cid \<and> turn_kind (q_kind q) \<and> q_status q = Q_status_unknown"

definition stop_event :: "string \<Rightarrow> string \<Rightarrow> command_status \<Rightarrow> string option \<Rightarrow> real \<Rightarrow> board \<Rightarrow> board" where
  "stop_event cid k st ws now b =
     record_event cid ''cancellation_updated'' ''worker''
       [(''commandId'', JStr k), (''status'', JStr (command_status_text st)),
        (''workerStatus'', jopt ws)] now b"

definition touch_command :: "real \<Rightarrow> card_command \<Rightarrow> card_command" where
  "touch_command now q = q\<lparr>q_updated_at := now\<rparr>"

text \<open>The commit of a verified stop: the card's final status and the outcome of an orphaned
  attempt.\<close>

definition commit_stop ::
    "string \<Rightarrow> string \<Rightarrow> string option \<Rightarrow> real \<Rightarrow> board \<Rightarrow> board_error + board" where
  "commit_stop cid k ws now b =
     (case stop_result ws of
        None \<Rightarrow> Inl (BoardError ''a verified terminal worker outcome is required'')
      | Some (next_status, turn_status) \<Rightarrow>
          on_ok (update_cards_status (\<lambda>r. c_id r = cid) (stop_row now next_status) b) (\<lambda>b1.
          Inr (stop_event cid k Q_stopped ws now
                (update_commands (unverified_turn cid) (set_command_status turn_status now) b1))))"

definition settle_stop ::
    "request_owner option \<Rightarrow> real \<Rightarrow> string \<Rightarrow> string \<Rightarrow> string option \<Rightarrow> board \<Rightarrow> board_error + board"
where
  "settle_stop owner now k status worker_status b =
     (case stop_status status of
        None \<Rightarrow> Inl (BoardError ''invalid cancellation outcome'')
      | Some st0 \<Rightarrow>
          (case find (\<lambda>q. q_command_id q = k \<and> is_active_stop q) (card_commands b) of
             None \<Rightarrow> Inr b
           | Some row \<Rightarrow>
               on_ok (require_card owner b (q_card_id row)) (\<lambda>_.
               case get_card owner b (q_card_id row) of
                 None \<Rightarrow> Inl AssertionError
               | Some c \<Rightarrow>
                   let st = (if st0 = Q_stopped \<and> truthy (c_claim_token c) then Q_stopping else st0);
                       ws = (if st = Q_stopped then settled_status b (c_id c) row worker_status
                             else worker_status)
                   in if q_status row = st
                      then Inr (update_commands (\<lambda>q. q_command_id q = k) (touch_command now) b)
                      else let b1 = update_commands (\<lambda>q. q_command_id q = k)
                                      (set_command_status st now) b
                      in if st = Q_stopped then commit_stop (c_id c) k ws now b1
                         else Inr (stop_event (c_id c) k st ws now b1))))"

end
