(* ===== verification/Board_Store.thy ===== *)
theory Board_Store
  imports Voice_Commands
begin

text \<open>
  The operations of \<open>BoardStore\<close> (\<open>flowly/board/store.py\<close>), in the order of the source: the
  writes, the claim protocol of the dispatcher (\<open>claim_card\<close>, \<open>heartbeat_claim\<close>,
  \<open>set_worker_run_id\<close>, \<open>finish_claim\<close>, \<open>recover_expired_claims\<close>), deletion, crash recovery and
  the reads. The clock, the identifiers \<open>uuid4\<close> gives and the request owner are arguments; an
  operation runs in one transaction under the store's lock. The log lines and
  \<open>_observe_voice_task\<close> (diagnostics that read the tables and swallow every exception) have no
  effect on the tables and are left out.
\<close>

section \<open>Arguments and results\<close>

text \<open>A time argument after \<open>float(...)\<close>: absent, rejected by \<open>float\<close>, or a float.\<close>

datatype time_arg = TNone | TBad | TVal pyfloat

definition check_time :: "time_arg \<Rightarrow> board_error + real option" where
  "check_time t =
     (case t of
        TNone \<Rightarrow> Inr None
      | TBad \<Rightarrow> Inl (BoardError ''scheduled time is invalid'')
      | TVal (Finite x) \<Rightarrow> Inr (Some x)
      | TVal NotFinite \<Rightarrow> Inl (BoardError ''scheduled time is invalid''))"

definition check_priority :: "pyval \<Rightarrow> board_error + int" where
  "check_priority v =
     (if \<not> plain_int v then Inl (BoardError ''priority must be an integer'')
      else if the_int_of v < -100 \<or> 100 < the_int_of v
      then Inl (BoardError ''priority must be between -100 and 100'')
      else Inr (the_int_of v))"

definition check_max_attempts :: "pyval \<Rightarrow> board_error + int" where
  "check_max_attempts v =
     (if \<not> plain_int v then Inl (BoardError ''max attempts must be an integer'')
      else if the_int_of v < 1 \<or> 10 < the_int_of v
      then Inl (BoardError ''max attempts must be between 1 and 10'')
      else Inr (the_int_of v))"

definition check_title :: "pyval \<Rightarrow> board_error + string" where
  "check_title v =
     (if \<not> is_str v then Inl (BoardError ''card title must be a string'')
      else if strip (the_str v) = '''' then Inl (BoardError ''card title cannot be empty'')
      else if MAX_TITLE_CHARS < length (strip (the_str v))
      then Inl (BoardError ''card title is too long'')
      else Inr (strip (the_str v)))"

definition check_body :: "pyval \<Rightarrow> board_error + string" where
  "check_body v =
     (if \<not> is_str v \<or> MAX_BODY_CHARS < length (the_str v)
      then Inl (BoardError ''card body is too long'')
      else Inr (the_str v))"

definition check_status :: "string \<Rightarrow> board_error + status" where
  "check_status s =
     (case parse_status s of
        None \<Rightarrow> Inl (BoardError (''invalid status: '' @ py_repr s))
      | Some st \<Rightarrow> Inr st)"

definition check_mode :: "string \<Rightarrow> board_error + execution_mode" where
  "check_mode s =
     (if s = ''background'' then Inr Background else if s = ''voice'' then Inr Voice
      else Inl (BoardError ''execution mode is invalid''))"

text \<open>A card as the operations return it, with its notes (\<open>with_notes=True\<close>).\<close>

type_synonym full_card = "card \<times> card_note list"

definition get_card_full :: "request_owner option \<Rightarrow> board \<Rightarrow> string \<Rightarrow> full_card option" where
  "get_card_full owner b cid = map_option (\<lambda>c. (c, get_notes owner b cid)) (get_card owner b cid)"

text \<open>\<open>card = self._get_card_locked(...); assert card is not None; return card\<close>.\<close>

definition returning :: "request_owner option \<Rightarrow> string \<Rightarrow> board \<Rightarrow> board_error + (board \<times> full_card)" where
  "returning owner cid b =
     (case get_card_full owner b cid of None \<Rightarrow> Inl AssertionError | Some x \<Rightarrow> Inr (b, x))"

definition not_found :: "string \<Rightarrow> board_error" where
  "not_found cid = BoardError (''card not found: '' @ py_repr cid)"

definition changed_error :: board_error where
  "changed_error = BoardError ''card changed; refresh and try again''"

text \<open>\<open>UPDATE cards SET ... WHERE id = ? AND revision = ?\<close> with its \<open>rowcount\<close> check, for a
  statement that sets \<open>status\<close> and for one that does not.\<close>

definition at_revision :: "string \<Rightarrow> int \<Rightarrow> card \<Rightarrow> bool" where
  "at_revision cid rv r \<longleftrightarrow> c_id r = cid \<and> c_revision r = rv"

definition update_status_at ::
    "string \<Rightarrow> int \<Rightarrow> (card \<Rightarrow> card) \<Rightarrow> board \<Rightarrow> board_error + board" where
  "update_status_at cid rv f b =
     on_ok (update_cards_status (at_revision cid rv) f b) (\<lambda>b1.
       if row_count (at_revision cid rv) (cards b) \<noteq> 1 then Inl changed_error else Inr b1)"

definition update_fields_at ::
    "string \<Rightarrow> int \<Rightarrow> (card \<Rightarrow> card) \<Rightarrow> board \<Rightarrow> board_error + board" where
  "update_fields_at cid rv f b =
     (if row_count (at_revision cid rv) (cards b) \<noteq> 1 then Inl changed_error
      else Inr (update_cards (at_revision cid rv) f b))"

definition stale_revision :: "int option \<Rightarrow> card \<Rightarrow> bool" where
  "stale_revision expected c =
     (case expected of None \<Rightarrow> False | Some rv \<Rightarrow> c_revision c \<noteq> rv)"

section \<open>Creating cards\<close>

record add_args =
  a_title :: pyval
  a_body :: pyval
  a_status :: string
  a_origin_channel :: pyval
  a_origin_chat_id :: pyval
  a_created_by :: pyval
  a_assignee_profile :: pyval
  a_assignee_bot_id :: pyval
  a_priority :: pyval
  a_scheduled_at :: time_arg
  a_idempotency_key :: pyval
  a_max_attempts :: pyval
  a_parent_id :: "string option"
  a_execution_mode :: string
  a_voice_conversation_id :: pyval
  a_voice_open_only :: pyval

text \<open>The identity checks, in the order of the source.\<close>

definition check_identities :: "add_args \<Rightarrow> board_error + unit" where
  "check_identities a =
     (let profile = strip (the_str (a_assignee_profile a));
          bot = strip (the_str (a_assignee_bot_id a));
          key = strip (the_str (a_idempotency_key a))
      in if \<not> list_all is_str [a_origin_channel a, a_origin_chat_id a, a_created_by a,
               a_assignee_profile a, a_assignee_bot_id a, a_idempotency_key a]
         then Inl (BoardError ''card identity fields must be strings'')
         else if 64 < length profile \<or> 128 < length bot
         then Inl (BoardError ''assignee identity is invalid'')
         else if 128 < length key then Inl (BoardError ''idempotency key is too long'')
         else if list_ex (\<lambda>ch. of_char ch < (32::nat)) key
         then Inl (BoardError ''idempotency key contains invalid characters'')
         else if 64 < length (the_str (a_origin_channel a))
              \<or> 512 < length (the_str (a_origin_chat_id a))
         then Inl (BoardError ''origin identity is too long'')
         else if 128 < length (the_str (a_created_by a))
         then Inl (BoardError ''creator identity is too long'')
         else Inr ())"

definition check_conversation :: "pyval \<Rightarrow> board_error + string" where
  "check_conversation v =
     (if \<not> is_str v \<or> 128 < length (the_str v)
      then Inl (BoardError ''voice conversation identity is invalid'')
      else if list_ex (\<lambda>ch. of_char ch < (32::nat) \<or> of_char ch = (127::nat)) (the_str v)
      then Inl (BoardError ''voice conversation identity is invalid'')
      else Inr (the_str v))"

definition owner_uid :: "request_owner option \<Rightarrow> execution_mode \<Rightarrow> string" where
  "owner_uid owner mode =
     (if mode = Voice then (case owner of None \<Rightarrow> '''' | Some w \<Rightarrow>
        (case uid w of None \<Rightarrow> '''' | Some u \<Rightarrow> u)) else '''')"

text \<open>Every argument check of \<open>add_card\<close>; the row it will insert (with the fresh id), and whether
  the card opens without an instruction.\<close>

definition new_card ::
    "(json \<Rightarrow> string) \<Rightarrow> request_owner option \<Rightarrow> real \<Rightarrow> string \<Rightarrow> add_args \<Rightarrow> board_error + (card \<times> bool)"
where
  "new_card digest owner now hex a =
     on_ok (check_title (a_title a)) (\<lambda>title.
     on_ok (check_body (a_body a)) (\<lambda>body.
     on_ok (check_status (a_status a)) (\<lambda>st.
     on_ok (check_identities a) (\<lambda>_.
     on_ok (check_priority (a_priority a)) (\<lambda>prio.
     on_ok (check_max_attempts (a_max_attempts a)) (\<lambda>attempts.
     on_ok (check_time (a_scheduled_at a)) (\<lambda>sched.
     on_ok (check_mode (a_execution_mode a)) (\<lambda>mode.
     on_ok (check_conversation (a_voice_conversation_id a)) (\<lambda>conv.
       let profile = strip (the_str (a_assignee_profile a));
           bot = strip (the_str (a_assignee_bot_id a));
           key = strip (the_str (a_idempotency_key a));
           open_only = (a_voice_open_only a = PBool True);
           ouid = owner_uid owner mode;
           cid = ''c_'' @ take 8 hex
       in if mode = Voice \<and> (conv = '''' \<or> key = '''' \<or> profile = '''')
          then Inl (BoardError
            ''voice dispatch requires conversation, command and profile identities'')
          else if a_voice_open_only a \<notin> {PBool True, PBool False}
               \<or> (open_only \<and> (mode \<noteq> Voice \<or> st \<noteq> STATUS_TODO \<or> body \<noteq> ''''))
          then Inl (BoardError ''an empty voice chat must be parked without an instruction'')
          else Inr (
            \<lparr>c_id = cid, c_title = title, c_body = body, c_status = st,
             c_origin_channel = the_str (a_origin_channel a),
             c_origin_chat_id = the_str (a_origin_chat_id a),
             c_created_by = the_str (a_created_by a), c_assignee_profile = profile,
             c_assignee_bot_id = bot, c_priority = prio, c_scheduled_at = sched,
             c_idempotency_key = key, c_revision = 0, c_run_id = None, c_claim_token = None,
             c_lease_expires_at = None, c_heartbeat_at = None, c_attempt_count = 0,
             c_max_attempts = attempts, c_parent_id = a_parent_id a, c_result = None,
             c_error = None, c_created_at = now, c_updated_at = now, c_execution_mode = mode,
             c_voice_conversation_id = conv,
             c_session_key = (if mode = Voice then ''desktop:voice-work:'' @ cid else ''''),
             c_request_fingerprint = (if mode = Voice then digest (JObj (
                 [(''title'', JStr title), (''body'', JStr body), (''profile'', JStr profile),
                  (''botId'', JStr bot), (''conversationId'', JStr conv), (''mode'', JStr ''voice'')]
                 @ (if open_only then [(''openOnly'', JBool True)] else [])
                 @ (if ouid \<noteq> '''' then [(''ownerUid'', JStr ouid)] else []))) else ''''),
             c_voice_owner_uid = ouid\<rparr>, open_only))))))))))"

text \<open>A repeated idempotency key returns the card it made before, or an error when the request
  differs.\<close>

definition replay_card ::
    "request_owner option \<Rightarrow> card \<Rightarrow> card \<Rightarrow> board \<Rightarrow> board_error + (board \<times> full_card)" where
  "replay_card owner c old b =
     (if (c_request_fingerprint c \<noteq> '''' \<or> c_request_fingerprint old \<noteq> '''')
         \<and> c_request_fingerprint old \<noteq> c_request_fingerprint c
      then Inl (BoardError ''command identity already belongs to a different request'')
      else on_ok (row_to_card owner b old) (\<lambda>v. Inr (b, v, get_notes owner b (c_id old))))"

definition check_parent ::
    "request_owner option \<Rightarrow> card \<Rightarrow> board \<Rightarrow> board_error + unit" where
  "check_parent owner c b =
     (case c_parent_id c of
        None \<Rightarrow> Inr ()
      | Some p \<Rightarrow>
          (case get_card owner b p of
             None \<Rightarrow> Inl (BoardError ''parent card not found'')
           | Some parent \<Rightarrow>
               if c_voice_owner_uid parent \<noteq> c_voice_owner_uid c
               then Inl (BoardError ''cards with different owners cannot be linked'')
               else Inr ()))"

text \<open>A voice card starts with its first instruction queued, unless it only opens the chat.\<close>

definition seed_first ::
    "request_owner option \<Rightarrow> real \<Rightarrow> card \<Rightarrow> bool \<Rightarrow> board \<Rightarrow> board_error + board" where
  "seed_first owner now c open_only b =
     (if c_execution_mode c = Voice \<and> \<not> open_only
      then seed_locked owner (c_id c) (if c_body c \<noteq> '''' then c_body c else c_title c) now b
      else Inr b)"

definition create_card ::
    "request_owner option \<Rightarrow> real \<Rightarrow> card \<Rightarrow> bool \<Rightarrow> board \<Rightarrow> board_error + (board \<times> full_card)" where
  "create_card owner now c open_only b =
     on_ok (check_parent owner c b) (\<lambda>_.
     on_ok (insert_card c b) (\<lambda>b1.
     on_ok (seed_first owner now c open_only
              (record_event (c_id c) ''created'' (c_created_by c)
                [(''status'', JStr (status_text (c_status c))),
                 (''assigneeProfile'', JStr (c_assignee_profile c))] now b1))
       (returning owner (c_id c))))"

definition add_card ::
    "(json \<Rightarrow> string) \<Rightarrow> request_owner option \<Rightarrow> real \<Rightarrow> string \<Rightarrow> add_args \<Rightarrow> board
      \<Rightarrow> board_error + (board \<times> full_card)" where
  "add_card digest owner now hex a b =
     on_ok (new_card digest owner now hex a) (\<lambda>(c, open_only).
       case (if c_idempotency_key c \<noteq> ''''
             then row_with c_idempotency_key (c_idempotency_key c) (cards b) else None) of
         Some old \<Rightarrow> replay_card owner c old b
       | None \<Rightarrow> create_card owner now c open_only b)"

section \<open>Editing cards\<close>

definition check_text :: "string \<Rightarrow> nat \<Rightarrow> pyval \<Rightarrow> board_error + string option" where
  "check_text what bound v =
     (if v = PNone then Inr None
      else if \<not> is_str v then Inl (BoardError (''card '' @ what @ '' must be a string''))
      else if bound < length (the_str v) then Inl (BoardError (''card '' @ what @ '' is too long''))
      else Inr (Some (the_str v)))"

definition status_row ::
    "real \<Rightarrow> status \<Rightarrow> string option \<Rightarrow> string option \<Rightarrow> bool \<Rightarrow> bool \<Rightarrow> card \<Rightarrow> card" where
  "status_row now st res err clear_run_id clear_schedule r =
     (let closing = st \<in> TERMINAL_STATUSES in
      r\<lparr>c_status := st, c_updated_at := now, c_revision := c_revision r + 1,
        c_result := (if res \<noteq> None then res else c_result r),
        c_error := (if err \<noteq> None then err else c_error r),
        c_run_id := (if clear_run_id \<or> closing then None else c_run_id r),
        c_scheduled_at := (if clear_schedule \<or> closing then None else c_scheduled_at r),
        c_claim_token := (if closing then None else c_claim_token r),
        c_lease_expires_at := (if closing then None else c_lease_expires_at r),
        c_heartbeat_at := (if closing then None else c_heartbeat_at r)\<rparr>)"

definition set_status ::
    "request_owner option \<Rightarrow> real \<Rightarrow> string \<Rightarrow> string \<Rightarrow> pyval \<Rightarrow> pyval \<Rightarrow> bool \<Rightarrow> bool \<Rightarrow> int option
      \<Rightarrow> string \<Rightarrow> board \<Rightarrow> board_error + (board \<times> full_card)" where
  "set_status owner now cid status result error clear_run_id clear_schedule expected actor b =
     on_ok (check_status status) (\<lambda>st.
     on_ok (check_text ''result'' MAX_RESULT_CHARS result) (\<lambda>res.
     on_ok (check_text ''error'' MAX_ERROR_CHARS error) (\<lambda>err.
     case get_card owner b cid of
       None \<Rightarrow> Inl (not_found cid)
     | Some old \<Rightarrow>
         if truthy (c_claim_token old)
         then Inl (BoardError ''a claimed card must be controlled by its worker run'')
         else if stale_revision expected old then Inl changed_error
         else on_ok (update_status_at cid (c_revision old)
                (status_row now st res err clear_run_id clear_schedule) b) (\<lambda>b1.
            returning owner cid (record_event cid ''status_changed'' actor
              [(''from'', JStr (status_text (c_status old))), (''to'', JStr (status_text st))] now b1)))))"

definition run_id_row :: "real \<Rightarrow> string option \<Rightarrow> card \<Rightarrow> card" where
  "run_id_row now run r =
     r\<lparr>c_run_id := run, c_updated_at := now, c_revision := c_revision r + 1\<rparr>"

definition set_run_id ::
    "request_owner option \<Rightarrow> real \<Rightarrow> string \<Rightarrow> string option \<Rightarrow> board \<Rightarrow> board_error + (board \<times> full_card)"
where
  "set_run_id owner now cid run b =
     (if get_card owner b cid = None then Inl (not_found cid)
      else returning owner cid (update_cards (\<lambda>r. c_id r = cid) (run_id_row now run) b))"

text \<open>An optional update: absent leaves the column, present is checked. \<open>scheduled_at\<close> is
  absent when it is \<open>_UNSET\<close>.\<close>

record update_args =
  u_title :: pyval
  u_body :: pyval
  u_priority :: pyval
  u_scheduled_at :: "time_arg option"
  u_max_attempts :: pyval

fun optional :: "pyval \<Rightarrow> (pyval \<Rightarrow> board_error + 'a) \<Rightarrow> board_error + 'a option" where
  "optional PNone f = Inr None"
| "optional v f = on_ok (f v) (\<lambda>x. Inr (Some x))"

definition set_opt :: "'a option \<Rightarrow> 'a \<Rightarrow> 'a" where
  "set_opt v old = (case v of None \<Rightarrow> old | Some x \<Rightarrow> x)"

definition edit_row ::
    "real \<Rightarrow> string option \<Rightarrow> string option \<Rightarrow> int option \<Rightarrow> real option option \<Rightarrow> int option \<Rightarrow> card \<Rightarrow> card"
where
  "edit_row now title body prio sched attempts r =
     r\<lparr>c_updated_at := now, c_revision := c_revision r + 1,
       c_title := set_opt title (c_title r), c_body := set_opt body (c_body r),
       c_priority := set_opt prio (c_priority r),
       c_scheduled_at := set_opt sched (c_scheduled_at r),
       c_max_attempts := set_opt attempts (c_max_attempts r)\<rparr>"

definition update_card ::
    "request_owner option \<Rightarrow> real \<Rightarrow> string \<Rightarrow> update_args \<Rightarrow> int option \<Rightarrow> string \<Rightarrow> board
      \<Rightarrow> board_error + (board \<times> full_card)" where
  "update_card owner now cid u expected actor b =
     (case get_card owner b cid of
        None \<Rightarrow> Inl (not_found cid)
      | Some old \<Rightarrow>
          if truthy (c_claim_token old) then Inl (BoardError ''a running card cannot be edited'')
          else if stale_revision expected old then Inl changed_error
          else if u_title u = PNone \<and> u_body u = PNone \<and> u_priority u = PNone
                  \<and> u_scheduled_at u = None \<and> u_max_attempts u = PNone
          then Inl (BoardError ''no card updates were provided'')
          else
            on_ok (optional (u_title u) check_title) (\<lambda>title.
            on_ok (optional (u_body u) check_body) (\<lambda>body.
            on_ok (optional (u_priority u) check_priority) (\<lambda>prio.
            on_ok (case u_scheduled_at u of None \<Rightarrow> Inr None
                   | Some t \<Rightarrow> on_ok (check_time t) (\<lambda>x. Inr (Some x))) (\<lambda>sched.
            on_ok (optional (u_max_attempts u) (\<lambda>v. on_ok (check_max_attempts v) (\<lambda>m.
                     if m < c_attempt_count old
                     then Inl (BoardError ''max attempts cannot be below completed attempts'')
                     else Inr m))) (\<lambda>attempts.
            on_ok (update_fields_at cid (c_revision old)
                     (edit_row now title body prio sched attempts) b) (\<lambda>b1.
            returning owner cid (record_event cid ''updated'' actor
              [(''title'', JBool (title \<noteq> None)), (''body'', JBool (body \<noteq> None)),
               (''priority'', JBool (prio \<noteq> None)), (''scheduledAt'', JBool (sched \<noteq> None)),
               (''maxAttempts'', JBool (attempts \<noteq> None))] now b1))))))))"

definition touch_row :: "real \<Rightarrow> card \<Rightarrow> card" where
  "touch_row now r = r\<lparr>c_updated_at := now, c_revision := c_revision r + 1\<rparr>"

definition add_note ::
    "request_owner option \<Rightarrow> real \<Rightarrow> string \<Rightarrow> pyval \<Rightarrow> pyval \<Rightarrow> int option \<Rightarrow> board
      \<Rightarrow> board_error + (board \<times> card_note)" where
  "add_note owner now cid author txt expected b =
     (if \<not> is_str txt \<or> \<not> is_str author then Inl (BoardError ''note fields must be strings'')
      else let t = strip (the_str txt);
               w = (let s = strip (if the_str author = '''' then ''user'' else the_str author)
                    in if s = '''' then ''user'' else s)
      in if t = '''' then Inl (BoardError ''note text cannot be empty'')
         else if MAX_NOTE_CHARS < length t then Inl (BoardError ''note text is too long'')
         else if 128 < length w then Inl (BoardError ''note author is too long'')
         else (case get_card owner b cid of
             None \<Rightarrow> Inl (not_found cid)
           | Some old \<Rightarrow>
               if stale_revision expected old then Inl changed_error
               else on_ok (update_fields_at cid (c_revision old) (touch_row now)
                        (insert_note cid w t now b)) (\<lambda>b1.
                  Inr (record_event cid ''comment_added'' w [(''noteId'', JInt (note_seq b1))] now b1,
                       \<lparr>n_id = note_seq b1, n_card_id = cid, n_author = w, n_text = t,
                        n_created_at = now\<rparr>))))"

definition assign_row :: "real \<Rightarrow> string \<Rightarrow> string \<Rightarrow> status \<Rightarrow> card \<Rightarrow> card" where
  "assign_row now profile bot_id st r =
     r\<lparr>c_assignee_profile := profile, c_assignee_bot_id := bot_id, c_status := st,
       c_updated_at := now, c_revision := c_revision r + 1\<rparr>"

definition assign_card ::
    "request_owner option \<Rightarrow> real \<Rightarrow> string \<Rightarrow> string \<Rightarrow> string \<Rightarrow> string \<Rightarrow> bool \<Rightarrow> int option \<Rightarrow> board
      \<Rightarrow> board_error + (board \<times> full_card)" where
  "assign_card owner now cid profile0 bot0 actor ready expected b =
     (let profile = strip profile0; bot = strip bot0 in
      if profile = '''' \<or> 64 < length profile \<or> bot = '''' \<or> 128 < length bot
      then Inl (BoardError ''assignee identity is invalid'')
      else (case get_card owner b cid of
          None \<Rightarrow> Inl (not_found cid)
        | Some old \<Rightarrow>
            if truthy (c_claim_token old) \<or> c_status old = STATUS_IN_PROGRESS
            then Inl (BoardError ''a running card cannot be reassigned'')
            else if stale_revision expected old then Inl changed_error
            else let st = (if ready \<and> c_status old \<in> {STATUS_TODO, STATUS_WAITING, STATUS_BLOCKED}
                           then STATUS_READY else c_status old)
            in on_ok (update_status_at cid (c_revision old) (assign_row now profile bot st) b) (\<lambda>b1.
               returning owner cid (record_event cid ''assigned'' actor
                 [(''profile'', JStr profile), (''botId'', JStr bot),
                  (''status'', JStr (status_text st))] now b1))))"

definition unassign_card ::
    "request_owner option \<Rightarrow> real \<Rightarrow> string \<Rightarrow> string \<Rightarrow> int option \<Rightarrow> board
      \<Rightarrow> board_error + (board \<times> full_card)" where
  "unassign_card owner now cid actor expected b =
     (case get_card owner b cid of
        None \<Rightarrow> Inl (not_found cid)
      | Some old \<Rightarrow>
          if truthy (c_claim_token old) \<or> c_status old = STATUS_IN_PROGRESS
          then Inl (BoardError ''a running card cannot be unassigned'')
          else if stale_revision expected old then Inl changed_error
          else let st = (if c_status old = STATUS_READY then STATUS_TODO else c_status old)
          in on_ok (update_status_at cid (c_revision old) (assign_row now '''' '''' st) b) (\<lambda>b1.
             returning owner cid (record_event cid ''unassigned'' actor
               [(''previousProfile'', JStr (c_assignee_profile old))] now b1)))"

section \<open>Dependencies\<close>

text \<open>
  The recursive query of \<open>link_cards\<close>: rows enter \<open>seen\<close> once (\<open>UNION\<close>) and are expanded in
  the order they were found.
\<close>

definition children_of :: "card_link list \<Rightarrow> string \<Rightarrow> string list" where
  "children_of links p = map l_child_id (filter (\<lambda>l. l_parent_id l = p) links)"

function expand :: "card_link list \<Rightarrow> string list \<Rightarrow> string list \<Rightarrow> string list" where
  "expand links seen [] = seen"
| "expand links seen (x # queue) =
     (let new = remdups (filter (\<lambda>y. y \<notin> set seen) (children_of links x))
      in expand links (seen @ new) (queue @ new))"
  by pat_completeness auto

termination
proof (relation "measure (\<lambda>(links, seen, queue).
    2 * card (set (map l_child_id links) - set seen) + length queue)", simp)
  fix links :: "card_link list" and seen queue :: "string list" and x new
  assume new: "new = remdups (filter (\<lambda>y. y \<notin> set seen) (children_of links x))"
  let ?U = "set (map l_child_id links)"
  have sub: "set new \<subseteq> ?U - set seen" by (auto simp: new children_of_def)
  have split: "?U - set (seen @ new) = (?U - set seen) - set new" by auto
  have "card (set new) = length new" by (simp only: new distinct_card distinct_remdups)
  then have "card (?U - set (seen @ new)) = card (?U - set seen) - length new"
    using sub by (simp only: split card_Diff_subset finite_set)
  moreover have "length new \<le> card (?U - set seen)"
    using card_mono [OF _ sub] \<open>card (set new) = length new\<close> by simp
  ultimately show "((links, seen @ new, queue @ new), links, seen, x # queue)
      \<in> measure (\<lambda>(links, seen, queue).
          2 * card (set (map l_child_id links) - set seen) + length queue)"
    by simp
qed

definition descendants :: "card_link list \<Rightarrow> string \<Rightarrow> string list" where
  "descendants links p0 =
     (let first = remdups (children_of links p0) in expand links first first)"

definition link_cards ::
    "request_owner option \<Rightarrow> real \<Rightarrow> string \<Rightarrow> string \<Rightarrow> string \<Rightarrow> board \<Rightarrow> board_error + board" where
  "link_cards owner now parent_id child_id actor b =
     (if parent_id = child_id then Inl (BoardError ''a card cannot depend on itself'')
      else (case (get_card owner b parent_id, get_card owner b child_id) of
          (None, _) \<Rightarrow> Inl (BoardError (''parent card not found: '' @ py_repr parent_id))
        | (Some parent, None) \<Rightarrow> Inl (BoardError (''child card not found: '' @ py_repr child_id))
        | (Some parent, Some child) \<Rightarrow>
            if c_voice_owner_uid parent \<noteq> c_voice_owner_uid child
            then Inl (BoardError ''cards with different owners cannot be linked'')
            else if parent_id \<in> set (descendants (card_links b) child_id)
            then Inl (BoardError ''dependency would create a cycle'')
            else if (parent_id, child_id)
                      \<in> (\<lambda>l. (l_parent_id l, l_child_id l)) ` set (card_links b)
            then Inr b
            else Inr (record_event child_id ''dependency_added'' actor
                   [(''parentId'', JStr parent_id)] now
                   (b\<lparr>card_links := card_links b @
                        [\<lparr>l_parent_id = parent_id, l_child_id = child_id, l_created_at = now\<rparr>]\<rparr>))))"

section \<open>The claim protocol\<close>

definition blocked_by_parent :: "board \<Rightarrow> string \<Rightarrow> bool" where
  "blocked_by_parent b cid =
     list_ex (\<lambda>l. l_child_id l = cid
       \<and> list_ex (\<lambda>p. c_id p = l_parent_id l \<and> c_status p \<noteq> STATUS_DONE) (cards b)) (card_links b)"

definition insert_run :: "card_run \<Rightarrow> board \<Rightarrow> board_error + board" where
  "insert_run r b =
     (if r_id r \<in> r_id ` set (card_runs b)
      then Inl (SqliteError ''UNIQUE constraint failed: card_runs.id'')
      else Inr (b\<lparr>card_runs := card_runs b @ [r]\<rparr>))"

text \<open>The statement that takes the claim, and what it writes.\<close>

definition claim_guard :: "string \<Rightarrow> card \<Rightarrow> card \<Rightarrow> bool" where
  "claim_guard cid old r \<longleftrightarrow> c_id r = cid \<and> c_revision r = c_revision old
     \<and> c_status r = c_status old \<and> c_claim_token r = None"

definition take_claim :: "real \<Rightarrow> real \<Rightarrow> string \<Rightarrow> string \<Rightarrow> int \<Rightarrow> card \<Rightarrow> card" where
  "take_claim now lease run token attempt r =
     r\<lparr>c_status := STATUS_IN_PROGRESS, c_run_id := Some run, c_claim_token := Some token,
       c_lease_expires_at := Some (now + lease), c_heartbeat_at := Some now,
       c_attempt_count := attempt, c_updated_at := now, c_revision := c_revision r + 1\<rparr>"

definition claimable_status :: "status \<Rightarrow> bool" where
  "claimable_status st = (st \<in> {STATUS_TODO, STATUS_READY, STATUS_WAITING})"

definition claim_card ::
    "request_owner option \<Rightarrow> real \<Rightarrow> string \<Rightarrow> string \<Rightarrow> string \<Rightarrow> string \<Rightarrow> real \<Rightarrow> bool \<Rightarrow> board
      \<Rightarrow> board_error + (board \<times> full_card option)" where
  "claim_card owner now hex1 hex2 cid worker0 lease ignore_schedule b =
     (let worker = strip worker0; token = ''claim_'' @ hex1; run = ''board_run_'' @ hex2 in
      if worker = '''' \<or> 128 < length worker then Inl (BoardError ''worker identity is invalid'')
      else if lease < 15 \<or> 600 < lease
      then Inl (BoardError ''lease must be between 15 and 600 seconds'')
      else (case get_card owner b cid of
          None \<Rightarrow> Inl (not_found cid)
        | Some old \<Rightarrow>
            if truthy (c_claim_token old) then Inr (b, None)
            else if \<not> claimable_status (c_status old) then Inr (b, None)
            else if \<not> ignore_schedule
                 \<and> (case c_scheduled_at old of None \<Rightarrow> False | Some t \<Rightarrow> now < t) then Inr (b, None)
            else if blocked_by_parent b cid then Inr (b, None)
            else on_ok (if c_execution_mode old = Voice then next_locked owner b (c_id old)
                        else Inr None) (\<lambda>command.
              if c_execution_mode old = Voice \<and> command = None then Inr (b, None)
              else let attempt = c_attempt_count old + 1
              in on_ok (update_cards_status (claim_guard cid old)
                          (take_claim now lease run token attempt) b) (\<lambda>b1.
                 if row_count (claim_guard cid old) (cards b) \<noteq> 1 then Inr (b1, None)
                 else on_ok (insert_run \<lparr>r_id = run, r_card_id = cid, r_attempt = attempt,
                          r_profile = worker, r_claim_token = token, r_worker_run_id = None,
                          r_status = Run_running, r_started_at = now, r_completed_at = None,
                          r_error = None\<rparr> b1) (\<lambda>b2.
                 on_ok (case command of None \<Rightarrow> Inr b2
                        | Some q \<Rightarrow> claim_locked owner (q_command_id q) token now b2) (\<lambda>b3.
                 let b4 = record_event cid ''claimed'' worker
                        [(''runId'', JStr run), (''attempt'', JInt attempt)] now b3
                 in Inr (b4, get_card_full owner b4 cid)))))))"

definition holds_claim :: "string \<Rightarrow> string \<Rightarrow> card \<Rightarrow> bool" where
  "holds_claim cid token r \<longleftrightarrow> c_id r = cid \<and> c_claim_token r = Some token"

definition repaired_event :: "string \<Rightarrow> string \<Rightarrow> status \<Rightarrow> real \<Rightarrow> board \<Rightarrow> board" where
  "repaired_event cid actor from now b =
     record_event cid ''claim_state_repaired'' actor
       [(''from'', JStr (status_text from)), (''to'', JStr ''in_progress'')] now b"

definition beat_row :: "real \<Rightarrow> real \<Rightarrow> bool \<Rightarrow> card \<Rightarrow> card" where
  "beat_row now lease repaired r =
     r\<lparr>c_status := STATUS_IN_PROGRESS, c_heartbeat_at := Some now,
       c_lease_expires_at := Some (now + lease), c_updated_at := now,
       c_revision := c_revision r + (if repaired then 1 else 0)\<rparr>"

definition heartbeat_claim ::
    "request_owner option \<Rightarrow> real \<Rightarrow> string \<Rightarrow> string \<Rightarrow> real \<Rightarrow> board \<Rightarrow> board_error + (board \<times> bool)"
where
  "heartbeat_claim owner now cid token lease b =
     (case get_card owner b cid of
        None \<Rightarrow> Inr (b, False)
      | Some old \<Rightarrow>
          if c_claim_token old \<noteq> Some token then Inr (b, False)
          else let repaired = (c_status old \<noteq> STATUS_IN_PROGRESS);
                   n = row_count (holds_claim cid token) (cards b)
          in on_ok (update_cards_status (holds_claim cid token) (beat_row now lease repaired) b) (\<lambda>b1.
             Inr (if repaired \<and> n = 1 then repaired_event cid ''worker'' (c_status old) now b1
                  else b1, n = 1)))"

definition worker_row :: "real \<Rightarrow> string \<Rightarrow> bool \<Rightarrow> card \<Rightarrow> card" where
  "worker_row now wid repaired r =
     r\<lparr>c_status := STATUS_IN_PROGRESS, c_run_id := Some wid, c_updated_at := now,
       c_revision := c_revision r + (if repaired then 1 else 0)\<rparr>"

definition set_worker_run_id ::
    "request_owner option \<Rightarrow> real \<Rightarrow> string \<Rightarrow> string \<Rightarrow> string \<Rightarrow> board \<Rightarrow> board_error + (board \<times> bool)"
where
  "set_worker_run_id owner now cid token worker_run_id0 b =
     (let wid = strip worker_run_id0 in
      if wid = '''' \<or> 256 < length wid then Inl (BoardError ''worker run identity is invalid'')
      else (case get_card owner b cid of
          None \<Rightarrow> Inr (b, False)
        | Some old \<Rightarrow>
            if c_claim_token old \<noteq> Some token then Inr (b, False)
            else let repaired = (c_status old \<noteq> STATUS_IN_PROGRESS)
            in on_ok (update_cards_status (holds_claim cid token) (worker_row now wid repaired) b) (\<lambda>b1.
               if row_count (holds_claim cid token) (cards b) \<noteq> 1 then Inr (b1, False)
               else let b2 = update_runs (\<lambda>r. r_card_id r = cid \<and> r_claim_token r = token)
                          (\<lambda>r. r\<lparr>r_worker_run_id := Some wid\<rparr>) b1
               in on_ok (if c_execution_mode old = Voice
                         then applied_locked owner cid token wid now b2 else Inr b2) (\<lambda>b3.
                  Inr (if repaired then repaired_event cid ''worker'' (c_status old) now b3 else b3,
                       True)))))"

text \<open>The status a finished claim moves to before the voice queue is consulted.\<close>

definition base_status :: "outcome \<Rightarrow> card \<Rightarrow> status" where
  "base_status outcome old =
     (case outcome of
        O_done \<Rightarrow> STATUS_DONE
      | O_cancelled \<Rightarrow> STATUS_CANCELLED
      | O_review \<Rightarrow> STATUS_REVIEW
      | O_blocked \<Rightarrow> STATUS_BLOCKED
      | O_failed \<Rightarrow>
          if c_max_attempts old \<le> c_attempt_count old then STATUS_BLOCKED
          else if c_assignee_profile old \<noteq> '''' then STATUS_READY else STATUS_TODO)"

definition release_claim ::
    "status \<Rightarrow> string option \<Rightarrow> string option \<Rightarrow> real option \<Rightarrow> real \<Rightarrow> card \<Rightarrow> card" where
  "release_claim st result error sched now r =
     r\<lparr>c_status := st, c_result := result, c_error := error, c_scheduled_at := sched,
       c_run_id := None, c_claim_token := None, c_lease_expires_at := None,
       c_heartbeat_at := None, c_updated_at := now, c_revision := c_revision r + 1\<rparr>"

text \<open>The voice queue is settled first; it may hold the card or queue its next turn.\<close>

definition finish_turns ::
    "request_owner option \<Rightarrow> card \<Rightarrow> outcome \<Rightarrow> real \<Rightarrow> bool \<Rightarrow> board \<Rightarrow> board_error + (board \<times> status)"
where
  "finish_turns owner old outcome now uncertain b =
     (if c_execution_mode old = Voice
      then on_ok (finish_locked owner old outcome now uncertain b) (\<lambda>(b1, has_next).
        Inr (b1, if uncertain \<or> outcome = O_failed then STATUS_BLOCKED
                 else if has_next then STATUS_READY else base_status outcome old))
      else Inr (b, base_status outcome old))"

definition retry_time :: "outcome \<Rightarrow> status \<Rightarrow> real \<Rightarrow> real \<Rightarrow> real option" where
  "retry_time outcome st now retry_delay =
     (if outcome = O_failed \<and> st \<in> {STATUS_READY, STATUS_TODO}
      then Some (now + max 0 retry_delay) else None)"

definition close_run :: "run_status \<Rightarrow> string option \<Rightarrow> real \<Rightarrow> card_run \<Rightarrow> card_run" where
  "close_run st error now r = r\<lparr>r_status := st, r_completed_at := Some now, r_error := error\<rparr>"

definition failure_note :: "string \<Rightarrow> outcome \<Rightarrow> string option \<Rightarrow> real \<Rightarrow> board \<Rightarrow> board" where
  "failure_note cid outcome error now b =
     (if outcome = O_failed
      then insert_note cid ''system'' (''run failed: '' @ or_else error ''unknown error'') now b
      else b)"

definition finish_claim ::
    "request_owner option \<Rightarrow> real \<Rightarrow> string \<Rightarrow> string \<Rightarrow> string \<Rightarrow> string option \<Rightarrow> string option \<Rightarrow> real
      \<Rightarrow> string \<Rightarrow> bool \<Rightarrow> board \<Rightarrow> board_error + (board \<times> full_card)" where
  "finish_claim owner now cid token outcome0 result0 error0 retry_delay actor uncertain b =
     (case parse_outcome outcome0 of
        None \<Rightarrow> Inl (BoardError ''claim outcome is invalid'')
      | Some outcome \<Rightarrow>
          let result = map_option (take MAX_RESULT_CHARS) result0;
              error = map_option (take MAX_ERROR_CHARS) error0
          in (case get_card owner b cid of
             None \<Rightarrow> Inl (not_found cid)
           | Some old \<Rightarrow>
               if c_claim_token old \<noteq> Some token then Inl (BoardError ''task claim is stale'')
               else on_ok (finish_turns owner old outcome now uncertain b) (\<lambda>(b1, st).
                 on_ok (update_cards_status (holds_claim cid token)
                          (release_claim st result error (retry_time outcome st now retry_delay) now)
                          b1) (\<lambda>b2.
                 returning owner cid (failure_note cid outcome error now
                   (record_event cid ''run_finished'' actor
                      [(''outcome'', JStr (outcome_text outcome)),
                       (''status'', JStr (status_text st)),
                       (''attempt'', JInt (c_attempt_count old))] now
                      (update_runs (\<lambda>r. r_card_id r = cid \<and> r_claim_token r = token)
                        (close_run (Run_finished outcome) error now) b2)))))))"

section \<open>Recovery of expired claims\<close>

text \<open>One row of the loop of \<open>recover_expired_claims\<close>: a claim whose lease is live is put back
  to \<open>in_progress\<close>, any other is released.\<close>

definition lease_live :: "real \<Rightarrow> card \<Rightarrow> bool" where
  "lease_live current c = (case c_lease_expires_at c of None \<Rightarrow> False | Some t \<Rightarrow> current < t)"

definition restored_run :: "board \<Rightarrow> card \<Rightarrow> string option" where
  "restored_run b c =
     (case find (\<lambda>r. r_card_id r = c_id c \<and> token_matches (Some (r_claim_token r)) (c_claim_token c))
             (sort_key (\<lambda>r. - r_attempt r) (card_runs b)) of
        None \<Rightarrow> c_run_id c
      | Some r \<Rightarrow> Some (or_else (r_worker_run_id r) (r_id r)))"

definition same_claim :: "card \<Rightarrow> card \<Rightarrow> bool" where
  "same_claim c r \<longleftrightarrow> c_id r = c_id c \<and> token_matches (c_claim_token r) (c_claim_token c)"

definition expired_status :: "card \<Rightarrow> status" where
  "expired_status c =
     (if c_execution_mode c = Voice \<or> c_max_attempts c \<le> c_attempt_count c then STATUS_BLOCKED
      else if c_assignee_profile c \<noteq> '''' then STATUS_READY else STATUS_TODO)"

definition restore_row :: "real \<Rightarrow> string option \<Rightarrow> card \<Rightarrow> card" where
  "restore_row current run r =
     r\<lparr>c_status := STATUS_IN_PROGRESS, c_run_id := run, c_updated_at := current,
       c_revision := c_revision r + 1\<rparr>"

definition expire_row :: "real \<Rightarrow> status \<Rightarrow> card \<Rightarrow> card" where
  "expire_row current st r =
     r\<lparr>c_status := st, c_run_id := None, c_claim_token := None, c_lease_expires_at := None,
       c_heartbeat_at := None, c_error := Some ''worker lease expired'',
       c_updated_at := current, c_revision := c_revision r + 1\<rparr>"

definition recover_one ::
    "request_owner option \<Rightarrow> real \<Rightarrow> card \<Rightarrow> board \<Rightarrow> board_error + board" where
  "recover_one owner current row b =
     on_ok (row_to_card owner b row) (\<lambda>c.
       if lease_live current c
       then on_ok (update_cards_status (same_claim c) (restore_row current (restored_run b c)) b) (\<lambda>b1.
            Inr (repaired_event (c_id c) ''system'' (c_status c) current b1))
       else on_ok (if c_execution_mode c = Voice
                   then on_ok (finish_locked owner c O_failed current True b) (\<lambda>(b1, _). Inr b1)
                   else Inr b) (\<lambda>b1.
            on_ok (update_cards_status (same_claim c) (expire_row current (expired_status c)) b1) (\<lambda>b2.
            Inr (record_event (c_id c) ''lease_expired'' ''system''
                  [(''status'', JStr (status_text (expired_status c))),
                   (''attempt'', JInt (c_attempt_count c))] current
                  (update_runs (\<lambda>r. r_card_id r = c_id c
                      \<and> token_matches (Some (r_claim_token r)) (c_claim_token c))
                    (close_run Run_expired (Some ''worker lease expired'') current) b2)))))"

fun recover_rows ::
    "request_owner option \<Rightarrow> real \<Rightarrow> card list \<Rightarrow> board \<Rightarrow> board_error + board" where
  "recover_rows owner current [] b = Inr b"
| "recover_rows owner current (row # rows) b =
     on_ok (recover_one owner current row b) (recover_rows owner current rows)"

definition needs_recovery :: "request_owner option \<Rightarrow> real \<Rightarrow> card \<Rightarrow> bool" where
  "needs_recovery owner current c \<longleftrightarrow> c_claim_token c \<noteq> None
     \<and> (c_status c \<noteq> STATUS_IN_PROGRESS \<or> c_lease_expires_at c = None
        \<or> the (c_lease_expires_at c) \<le> current)
     \<and> visibility_sql owner c"

definition recover_expired_claims ::
    "request_owner option \<Rightarrow> real \<Rightarrow> board \<Rightarrow> board_error + (board \<times> nat)" where
  "recover_expired_claims owner current b =
     (let rows = filter (needs_recovery owner current) (cards b)
      in on_ok (recover_rows owner current rows b) (\<lambda>b1. Inr (b1, length rows)))"

section \<open>Deletion and crash recovery\<close>

definition delete_card ::
    "request_owner option \<Rightarrow> string \<Rightarrow> board \<Rightarrow> board_error + (board \<times> bool)" where
  "delete_card owner cid b =
     (case get_card owner b cid of
        None \<Rightarrow> Inr (b, False)
      | Some old \<Rightarrow>
          if truthy (c_claim_token old) \<or> c_status old = STATUS_IN_PROGRESS
          then Inl (BoardError ''cancel a running card before deleting it'')
          else Inr (delete_cards (\<lambda>c. c_id c = cid) b,
                    0 < row_count (\<lambda>c. c_id c = cid) (cards b)))"

definition delete_by_status ::
    "request_owner option \<Rightarrow> string \<Rightarrow> board \<Rightarrow> board_error + (board \<times> nat)" where
  "delete_by_status owner status b =
     on_ok (check_status status) (\<lambda>st.
       if st = STATUS_IN_PROGRESS then Inl (BoardError ''running cards cannot be cleared'')
       else if list_ex (\<lambda>c. c_status c = st \<and> c_claim_token c \<noteq> None \<and> visibility_sql owner c)
                 (cards b)
       then Inl (BoardError ''running cards cannot be cleared'')
       else let P = (\<lambda>c. c_status c = st \<and> c_claim_token c = None \<and> visibility_sql owner c)
       in Inr (delete_cards P b, row_count P (cards b)))"

definition orphaned :: "real \<Rightarrow> string set \<Rightarrow> card \<Rightarrow> bool" where
  "orphaned now live c \<longleftrightarrow> \<not> (truthy (c_run_id c) \<and> the (c_run_id c) \<in> live)
     \<and> \<not> (truthy (c_claim_token c) \<and> lease_live now c)"

definition orphan_status :: "card \<Rightarrow> status" where
  "orphan_status c =
     (if truthy (c_claim_token c) \<and> c_max_attempts c \<le> c_attempt_count c then STATUS_BLOCKED
      else if c_assignee_profile c \<noteq> '''' then STATUS_READY else STATUS_TODO)"

definition reset_row :: "real \<Rightarrow> status \<Rightarrow> card \<Rightarrow> card" where
  "reset_row now st r =
     r\<lparr>c_status := st, c_run_id := None, c_claim_token := None, c_lease_expires_at := None,
       c_heartbeat_at := None, c_updated_at := now, c_revision := c_revision r + 1\<rparr>"

definition reset_one ::
    "request_owner option \<Rightarrow> real \<Rightarrow> string set \<Rightarrow> card \<Rightarrow> board \<Rightarrow> board_error + (board \<times> nat)" where
  "reset_one owner now live row b =
     on_ok (row_to_card owner b row) (\<lambda>c.
       if \<not> orphaned now live c then Inr (b, 0)
       else on_ok (update_cards_status (\<lambda>r. c_id r = c_id c) (reset_row now (orphan_status c)) b) (\<lambda>b1.
            let b2 = insert_note (c_id c) ''system''
                   (''reset to '' @ status_text (orphan_status c) @ '' after restart (worker gone)'')
                   now b1;
                b3 = (if truthy (c_claim_token c)
                      then update_runs (\<lambda>r. r_card_id r = c_id c
                               \<and> token_matches (Some (r_claim_token r)) (c_claim_token c))
                             (close_run Run_interrupted (Some ''primary runtime restarted'') now) b2
                      else b2)
            in Inr (record_event (c_id c) ''recovered_after_restart'' ''system''
                     [(''status'', JStr (status_text (orphan_status c)))] now b3, 1)))"

fun reset_rows ::
    "request_owner option \<Rightarrow> real \<Rightarrow> string set \<Rightarrow> card list \<Rightarrow> board \<Rightarrow> board_error + (board \<times> nat)" where
  "reset_rows owner now live [] b = Inr (b, 0)"
| "reset_rows owner now live (row # rows) b =
     on_ok (reset_one owner now live row b) (\<lambda>(b1, n).
     on_ok (reset_rows owner now live rows b1) (\<lambda>(b2, m). Inr (b2, n + m)))"

definition reset_orphaned ::
    "request_owner option \<Rightarrow> real \<Rightarrow> string set \<Rightarrow> board \<Rightarrow> board_error + (board \<times> nat)" where
  "reset_orphaned owner now live b =
     reset_rows owner now live
       (filter (\<lambda>c. c_status c = STATUS_IN_PROGRESS \<and> visibility_sql owner c) (cards b)) b"

end
