(* ===== verification/Board_Reads.thy ===== *)
theory Board_Reads
  imports Board_Store
begin

text \<open>
  The reads of \<open>BoardStore\<close>: single cards, listings, the dispatcher's queue, runs, events,
  the voice conversation feed, dependencies and the board snapshot.
\<close>

section \<open>Ordering and paging\<close>

text \<open>\<open>LIMIT n\<close> (a negative limit is no limit) and \<open>ORDER BY created_at ASC, id ASC\<close>.\<close>

definition sql_limit :: "int \<Rightarrow> 'a list \<Rightarrow> 'a list" where
  "sql_limit n xs = (if n < 0 then xs else take (nat n) xs)"

definition sql_offset :: "int \<Rightarrow> 'a list \<Rightarrow> 'a list" where
  "sql_offset n xs = drop (nat n) xs"

definition by_creation :: "card list \<Rightarrow> card list" where
  "by_creation cs = sort_key c_created_at (sort_key c_id cs)"

section \<open>Cards\<close>

definition get_card_by_idempotency_key ::
    "request_owner option \<Rightarrow> board \<Rightarrow> pyval \<Rightarrow> card option" where
  "get_card_by_idempotency_key owner b v =
     (let key = (if is_str v then strip (the_str v) else '''') in
      if key = '''' then None
      else (case row_with c_idempotency_key key (cards b) of
          None \<Rightarrow> None
        | Some row \<Rightarrow> if row_visible owner row then Some (row_view owner b row) else None))"

definition list_cards ::
    "request_owner option \<Rightarrow> board \<Rightarrow> string option \<Rightarrow> string option \<Rightarrow> string option \<Rightarrow> int
      \<Rightarrow> board_error + card list" where
  "list_cards owner b status parent_id profile limit =
     on_ok (case status of None \<Rightarrow> Inr None | Some s \<Rightarrow> on_ok (check_status s) (\<lambda>st. Inr (Some st)))
     (\<lambda>st.
       if parent_id \<noteq> None \<and> \<not> id_visible owner b (the parent_id) then Inr []
       else Inr (map (row_view owner b) (sql_limit limit (by_creation
         (filter (\<lambda>c. visibility_sql owner c
             \<and> (st = None \<or> Some (c_status c) = st)
             \<and> (parent_id = None \<or> c_parent_id c = parent_id)
             \<and> (profile = None \<or> Some (c_assignee_profile c) = profile)) (cards b))))))"

definition list_voice_work ::
    "request_owner option \<Rightarrow> board \<Rightarrow> int \<Rightarrow> int \<Rightarrow> card list" where
  "list_voice_work owner b offset limit =
     map (row_view owner b) (sql_limit limit (sql_offset offset
       (rev (sort_key c_updated_at (sort_key c_id
         (filter (\<lambda>c. c_execution_mode c = Voice \<and> visibility_sql owner c) (cards b)))))))"

section \<open>The dispatch queue\<close>

definition dispatch_order :: "card list \<Rightarrow> card list" where
  "dispatch_order cs = sort_key (\<lambda>c. - c_priority c) (by_creation cs)"

text \<open>The partition of \<open>ROW_NUMBER()\<close>: one per profile, and one per card for voice work.\<close>

definition partition_key :: "card \<Rightarrow> string \<times> string" where
  "partition_key c = (c_assignee_profile c, if c_execution_mode c = Voice then c_id c else '''')"

text \<open>The rows of rank 1: the first of each partition.\<close>

fun first_ranked :: "card list \<Rightarrow> card list" where
  "first_ranked [] = []"
| "first_ranked (c # cs) =
     c # first_ranked (filter (\<lambda>d. partition_key d \<noteq> partition_key c) cs)"

definition excluded_profiles :: "pyval list \<Rightarrow> string list" where
  "excluded_profiles xs =
     filter (\<lambda>p. p \<noteq> '''') (map (\<lambda>v. strip (the_str v)) (filter is_str xs))"

definition dispatchable ::
    "request_owner option \<Rightarrow> board \<Rightarrow> real \<Rightarrow> string list \<Rightarrow> card \<Rightarrow> bool" where
  "dispatchable owner b current excluded c \<longleftrightarrow>
     c_status c = STATUS_READY \<and> c_assignee_profile c \<noteq> ''''
     \<and> (case c_scheduled_at c of None \<Rightarrow> True | Some t \<Rightarrow> t \<le> current)
     \<and> \<not> blocked_by_parent b (c_id c)
     \<and> (excluded = [] \<or> c_execution_mode c = Voice \<or> c_assignee_profile c \<notin> set excluded)
     \<and> visibility_sql owner c"

definition list_dispatchable ::
    "request_owner option \<Rightarrow> board \<Rightarrow> int \<Rightarrow> real \<Rightarrow> pyval list \<Rightarrow> card list" where
  "list_dispatchable owner b limit current exclude_profiles =
     map (row_view owner b) (take (nat (max 1 limit)) (first_ranked (dispatch_order
       (filter (dispatchable owner b current (excluded_profiles exclude_profiles)) (cards b)))))"

section \<open>Runs, events and dependencies\<close>

definition get_runs :: "request_owner option \<Rightarrow> board \<Rightarrow> string \<Rightarrow> card_run list" where
  "get_runs owner b cid =
     (if \<not> id_visible owner b cid then []
      else sort_key r_attempt (sort_key r_started_at
             (filter (\<lambda>r. r_card_id r = cid) (card_runs b))))"

definition get_events :: "request_owner option \<Rightarrow> board \<Rightarrow> string \<Rightarrow> int \<Rightarrow> card_event list" where
  "get_events owner b cid limit =
     (if \<not> id_visible owner b cid then []
      else rev (take (nat (max 1 (min limit 1000)))
             (rev (sort_key e_id (filter (\<lambda>e. e_card_id e = cid) (card_events b))))))"

definition event_card :: "board \<Rightarrow> card_event \<Rightarrow> card option" where
  "event_card b e = card_row b (e_card_id e)"

definition in_conversation :: "request_owner option \<Rightarrow> string \<Rightarrow> card option \<Rightarrow> bool" where
  "in_conversation owner conversation_id row =
     (case row of None \<Rightarrow> False
      | Some c \<Rightarrow> c_voice_conversation_id c = conversation_id \<and> visibility_sql owner c)"

definition voice_event ::
    "request_owner option \<Rightarrow> board \<Rightarrow> string \<Rightarrow> int \<Rightarrow> card_event option" where
  "voice_event owner b conversation_id event_id =
     find (\<lambda>e. e_id e = event_id \<and> in_conversation owner conversation_id (event_card b e))
       (card_events b)"

definition get_dependencies ::
    "request_owner option \<Rightarrow> board \<Rightarrow> string \<Rightarrow> string list \<times> string list" where
  "get_dependencies owner b cid =
     (if \<not> id_visible owner b cid then ([], [])
      else (map l_parent_id (sort_key l_created_at (sort_key l_parent_id
              (filter (\<lambda>l. l_child_id l = cid \<and> id_visible owner b (l_parent_id l)) (card_links b)))),
            map l_child_id (sort_key l_created_at (sort_key l_child_id
              (filter (\<lambda>l. l_parent_id l = cid \<and> id_visible owner b (l_child_id l)) (card_links b))))))"

section \<open>The voice conversation feed\<close>

text \<open>The latest \<open>run_finished\<close> event of a settled card, when it describes the card's current
  attempt and status.\<close>

definition completion_event :: "board \<Rightarrow> card \<Rightarrow> (int \<times> int) option" where
  "completion_event b c =
     (if c_status c \<notin> {STATUS_DONE, STATUS_CANCELLED, STATUS_BLOCKED, STATUS_REVIEW} then None
      else (case rev (sort_key e_id (filter (\<lambda>e. e_card_id e = c_id c \<and> e_kind e = ''run_finished'')
                  (card_events b))) of
          [] \<Rightarrow> None
        | e # _ \<Rightarrow>
            if map_of (e_payload e) ''attempt'' = Some (JInt (c_attempt_count c))
               \<and> map_of (e_payload e) ''status'' = Some (JStr (status_text (c_status c)))
            then Some (e_id e, c_attempt_count c) else None))"

record feed_card =
  f_card :: card
  f_latestInstruction :: "(string \<times> command_status) option"
  f_completionEvent :: "(int \<times> int) option"

record voice_feed =
  f_events :: "card_event list"
  f_cursor :: int
  f_hasMore :: bool
  f_cards :: "feed_card list"

definition voice_events ::
    "request_owner option \<Rightarrow> board \<Rightarrow> pyval \<Rightarrow> pyval \<Rightarrow> pyval \<Rightarrow> board_error + voice_feed" where
  "voice_events owner b conversation_id after limit =
     (if \<not> is_str conversation_id \<or> the_str conversation_id = ''''
         \<or> 128 < length (the_str conversation_id)
      then Inl (BoardError ''voice conversation identity is invalid'')
      else if \<not> plain_int after \<or> the_int_of after < 0
      then Inl (BoardError ''event cursor is invalid'')
      else if \<not> plain_int limit \<or> the_int_of limit < 1 \<or> 200 < the_int_of limit
      then Inl (BoardError ''event limit must be between 1 and 200'')
      else let conv = the_str conversation_id; n = nat (the_int_of limit);
               rows = take (n + 1) (sort_key e_id (filter (\<lambda>e.
                 in_conversation owner conv (event_card b e) \<and> the_int_of after < e_id e)
                 (card_events b)));
               events = take n rows;
               cs = by_creation (filter (\<lambda>c. in_conversation owner conv (Some c)) (cards b))
      in Inr \<lparr>f_events = events,
              f_cursor = (if events \<noteq> [] then e_id (last events) else the_int_of after),
              f_hasMore = (n < length rows),
              f_cards = map (\<lambda>c. \<lparr>f_card = row_view owner b c,
                 f_latestInstruction = latest_instructions owner b conv (c_id c),
                 f_completionEvent = completion_event b c\<rparr>) cs\<rparr>)"

section \<open>The snapshot\<close>

record board_snapshot =
  s_columns :: "(status \<times> card list) list"
  s_counts :: "(status \<times> nat) list"
  s_total :: nat
  s_revision :: int

definition snapshot :: "request_owner option \<Rightarrow> board \<Rightarrow> board_snapshot" where
  "snapshot owner b =
     (let all_cards = map (row_view owner b) (by_creation (filter (visibility_sql owner) (cards b)))
      in \<lparr>s_columns = map (\<lambda>s. (s, filter (\<lambda>c. c_status c = s) all_cards)) COLUMN_ORDER,
          s_counts = map (\<lambda>s. (s, length (filter (\<lambda>c. c_status c = s) all_cards))) VALID_STATUSES,
          s_total = length all_cards,
          s_revision = (case map c_revision all_cards of [] \<Rightarrow> 0 | r # rs \<Rightarrow> fold max rs r)\<rparr>)"

end
