(* ===== verification/Board_Invariant.thy ===== *)
theory Board_Invariant
  imports Board_Reads
begin

text \<open>
  What every operation of the board keeps. The invariant has four parts: the structure of the
  tables (keys, references, acyclic links), the bounds of the card fields, the claims (a card with
  a token is running, leased and has exactly one running attempt) and the voice queue (at most one
  unsettled instruction per card, owned by the live claim). The first two hold between the
  statements of a transaction and are proved statement by statement; the last two are proved per
  operation.
\<close>

section \<open>Statements and the tables they leave alone\<close>

lemma record_event_fields [simp]:
  "cards (record_event cid k a p now b) = cards b"
  "card_notes (record_event cid k a p now b) = card_notes b"
  "card_runs (record_event cid k a p now b) = card_runs b"
  "card_links (record_event cid k a p now b) = card_links b"
  "card_commands (record_event cid k a p now b) = card_commands b"
  "note_seq (record_event cid k a p now b) = note_seq b"
  "event_seq (record_event cid k a p now b) = event_seq b + 1"
  "command_seq (record_event cid k a p now b) = command_seq b"
  by (simp_all add: record_event_def)

lemma repaired_event_fields [simp]:
  "cards (repaired_event cid a st now b) = cards b"
  "card_runs (repaired_event cid a st now b) = card_runs b"
  "card_links (repaired_event cid a st now b) = card_links b"
  "card_commands (repaired_event cid a st now b) = card_commands b"
  "event_seq (repaired_event cid a st now b) = event_seq b + 1"
  "command_seq (repaired_event cid a st now b) = command_seq b"
  by (simp_all add: repaired_event_def)

lemma update_cards_fields [simp]:
  "cards (update_cards P f b) = update_rows P f (cards b)"
  "card_notes (update_cards P f b) = card_notes b"
  "card_runs (update_cards P f b) = card_runs b"
  "card_events (update_cards P f b) = card_events b"
  "card_links (update_cards P f b) = card_links b"
  "card_commands (update_cards P f b) = card_commands b"
  "note_seq (update_cards P f b) = note_seq b"
  "event_seq (update_cards P f b) = event_seq b"
  "command_seq (update_cards P f b) = command_seq b"
  by (simp_all add: update_cards_def)

lemma update_commands_fields [simp]:
  "cards (update_commands P g b) = cards b"
  "card_notes (update_commands P g b) = card_notes b"
  "card_runs (update_commands P g b) = card_runs b"
  "card_events (update_commands P g b) = card_events b"
  "card_links (update_commands P g b) = card_links b"
  "card_commands (update_commands P g b) = update_rows P g (card_commands b)"
  "note_seq (update_commands P g b) = note_seq b"
  "event_seq (update_commands P g b) = event_seq b"
  "command_seq (update_commands P g b) = command_seq b"
  by (simp_all add: update_commands_def)

lemma update_runs_fields [simp]:
  "cards (update_runs P h b) = cards b"
  "card_notes (update_runs P h b) = card_notes b"
  "card_runs (update_runs P h b) = update_rows P h (card_runs b)"
  "card_events (update_runs P h b) = card_events b"
  "card_links (update_runs P h b) = card_links b"
  "card_commands (update_runs P h b) = card_commands b"
  "note_seq (update_runs P h b) = note_seq b"
  "event_seq (update_runs P h b) = event_seq b"
  "command_seq (update_runs P h b) = command_seq b"
  by (simp_all add: update_runs_def)

lemma insert_note_fields [simp]:
  "cards (insert_note cid a t now b) = cards b"
  "card_runs (insert_note cid a t now b) = card_runs b"
  "card_events (insert_note cid a t now b) = card_events b"
  "card_links (insert_note cid a t now b) = card_links b"
  "card_commands (insert_note cid a t now b) = card_commands b"
  "note_seq (insert_note cid a t now b) = note_seq b + 1"
  "event_seq (insert_note cid a t now b) = event_seq b"
  "command_seq (insert_note cid a t now b) = command_seq b"
  by (simp_all add: insert_note_def)

lemma insert_run_Inr_iff:
  "insert_run r b = Inr b' \<longleftrightarrow>
     r_id r \<notin> r_id ` set (card_runs b) \<and> b' = b\<lparr>card_runs := card_runs b @ [r]\<rparr>"
  by (auto simp: insert_run_def)

lemma insert_command_Inr_iff:
  "insert_command q b = Inr b' \<longleftrightarrow>
     q_command_id q \<notin> q_command_id ` set (card_commands b)
     \<and> b' = b\<lparr>card_commands := card_commands b @ [q\<lparr>q_seq := command_seq b + 1\<rparr>],
             command_seq := command_seq b + 1\<rparr>"
  by (auto simp: insert_command_def)

lemma insert_card_Inr_iff:
  "insert_card c b = Inr b' \<longleftrightarrow>
     c_id c \<notin> c_id ` set (cards b)
     \<and> (c_idempotency_key c \<noteq> '''' \<longrightarrow> c_idempotency_key c \<notin> c_idempotency_key ` set (cards b))
     \<and> b' = b\<lparr>cards := cards b @ [c]\<rparr>"
  by (auto simp: insert_card_def)

lemma update_cards_status_Inr_iff:
  "update_cards_status P f b = Inr b' \<longleftrightarrow>
     (\<forall>c \<in> set (cards b). P c \<longrightarrow> \<not> claim_trigger c (f c)) \<and> b' = update_cards P f b"
  by (auto simp: update_cards_status_def list_ex_iff)

lemmas statement_iffs = insert_run_Inr_iff insert_command_Inr_iff insert_card_Inr_iff
  update_cards_status_Inr_iff ok_iffs

section \<open>Structure\<close>

definition card_ids :: "board \<Rightarrow> string set" where
  "card_ids b = c_id ` set (cards b)"

definition link_pairs :: "card_link list \<Rightarrow> (string \<times> string) set" where
  "link_pairs ls = (\<lambda>l. (l_parent_id l, l_child_id l)) ` set ls"

definition keys_ok :: "board \<Rightarrow> bool" where
  "keys_ok b \<longleftrightarrow> distinct (map c_id (cards b))
     \<and> distinct (filter (\<lambda>k. k \<noteq> '''') (map c_idempotency_key (cards b)))
     \<and> distinct (map r_id (card_runs b))
     \<and> distinct (map q_command_id (card_commands b))"

definition seqs_ok :: "board \<Rightarrow> bool" where
  "seqs_ok b \<longleftrightarrow> sorted_wrt (<) (map q_seq (card_commands b))
     \<and> q_seq ` set (card_commands b) \<subseteq> {..command_seq b}
     \<and> sorted_wrt (<) (map e_id (card_events b))
     \<and> (\<forall>e \<in> set (card_events b). e_id e \<le> event_seq b)
     \<and> sorted_wrt (<) (map n_id (card_notes b))
     \<and> (\<forall>n \<in> set (card_notes b). n_id n \<le> note_seq b)"

definition refs_ok :: "board \<Rightarrow> bool" where
  "refs_ok b \<longleftrightarrow> n_card_id ` set (card_notes b) \<subseteq> card_ids b
     \<and> r_card_id ` set (card_runs b) \<subseteq> card_ids b
     \<and> e_card_id ` set (card_events b) \<subseteq> card_ids b
     \<and> q_card_id ` set (card_commands b) \<subseteq> card_ids b
     \<and> Field (link_pairs (card_links b)) \<subseteq> card_ids b"

definition links_ok :: "board \<Rightarrow> bool" where
  "links_ok b \<longleftrightarrow> distinct (map (\<lambda>l. (l_parent_id l, l_child_id l)) (card_links b))
     \<and> acyclic (link_pairs (card_links b))"

definition struct_ok :: "board \<Rightarrow> bool" where
  "struct_ok b \<longleftrightarrow> keys_ok b \<and> seqs_ok b \<and> refs_ok b \<and> links_ok b"

lemmas struct_defs = struct_ok_def keys_ok_def seqs_ok_def refs_ok_def links_ok_def card_ids_def

lemma image_update_rows:
  "(\<And>r. P r \<Longrightarrow> key (f r) = key r) \<Longrightarrow> key ` set (update_rows P f rows) = key ` set rows"
  by (metis map_key_update_rows set_map)

lemma struct_update_cards:
  assumes "\<And>c. P c \<Longrightarrow> c_id (f c) = c_id c \<and> c_idempotency_key (f c) = c_idempotency_key c"
  shows "struct_ok (update_cards P f b) = struct_ok b"
  using assms by (simp add: struct_defs map_key_update_rows image_update_rows)

lemma struct_update_commands:
  assumes "\<And>q. P q \<Longrightarrow> q_command_id (g q) = q_command_id q \<and> q_card_id (g q) = q_card_id q
      \<and> q_seq (g q) = q_seq q"
  shows "struct_ok (update_commands P g b) = struct_ok b"
  using assms by (simp add: struct_defs map_key_update_rows image_update_rows)

lemma struct_update_runs:
  assumes "\<And>r. P r \<Longrightarrow> r_id (h r) = r_id r \<and> r_card_id (h r) = r_card_id r"
  shows "struct_ok (update_runs P h b) = struct_ok b"
  using assms by (simp add: struct_defs map_key_update_rows image_update_rows)

lemma struct_record_event:
  "struct_ok b \<Longrightarrow> cid \<in> card_ids b \<Longrightarrow> struct_ok (record_event cid k a p now b)"
  by (fastforce simp: struct_defs record_event_def sorted_wrt_append)

lemma struct_insert_note:
  "struct_ok b \<Longrightarrow> cid \<in> card_ids b \<Longrightarrow> struct_ok (insert_note cid a t now b)"
  by (fastforce simp: struct_defs insert_note_def sorted_wrt_append)

lemma struct_insert_run:
  "struct_ok b \<Longrightarrow> r_card_id r \<in> card_ids b \<Longrightarrow> r_id r \<notin> r_id ` set (card_runs b)
    \<Longrightarrow> struct_ok (b\<lparr>card_runs := card_runs b @ [r]\<rparr>)"
  by (simp add: struct_defs)

lemma struct_insert_command:
  "struct_ok b \<Longrightarrow> q_card_id q \<in> card_ids b \<Longrightarrow> q_command_id q \<notin> q_command_id ` set (card_commands b)
    \<Longrightarrow> struct_ok (b\<lparr>card_commands := card_commands b @ [q\<lparr>q_seq := command_seq b + 1\<rparr>],
         command_seq := command_seq b + 1\<rparr>)"
  by (fastforce simp: struct_defs sorted_wrt_append)

lemma struct_insert_card:
  assumes "struct_ok b" "c_id c \<notin> card_ids b"
    "c_idempotency_key c \<noteq> '''' \<longrightarrow> c_idempotency_key c \<notin> c_idempotency_key ` set (cards b)"
  shows "struct_ok (b\<lparr>cards := cards b @ [c]\<rparr>)"
  using assms by (auto simp: struct_defs)

lemma struct_add_link:
  assumes "struct_ok b" "p \<in> card_ids b" "c \<in> card_ids b"
    "(p, c) \<notin> link_pairs (card_links b)" "(c, p) \<notin> (link_pairs (card_links b))\<^sup>*"
  shows "struct_ok (b\<lparr>card_links := card_links b @ [\<lparr>l_parent_id = p, l_child_id = c, l_created_at = t\<rparr>]\<rparr>)"
proof -
  have pairs: "link_pairs (card_links b @ [\<lparr>l_parent_id = p, l_child_id = c, l_created_at = t\<rparr>])
      = insert (p, c) (link_pairs (card_links b))"
    by (simp add: link_pairs_def)
  have "Field (insert (p, c) (link_pairs (card_links b))) = {p, c} \<union> Field (link_pairs (card_links b))"
    by auto
  with assms pairs show ?thesis
    by (simp add: struct_ok_def keys_ok_def seqs_ok_def refs_ok_def links_ok_def card_ids_def)
       (simp add: link_pairs_def)
qed

lemma Field_link_pairs: "Field (link_pairs ls) = l_parent_id ` set ls \<union> l_child_id ` set ls"
  by (simp add: link_pairs_def Field_def Domain_fst Range_snd image_image)

lemma link_pairs_filter: "link_pairs (filter P ls) \<subseteq> link_pairs ls"
  by (auto simp: link_pairs_def)

lemma distinct_filter_map: "distinct (filter Q (map f xs)) \<Longrightarrow> distinct (filter Q (map f (filter P xs)))"
  by (induction xs) auto

lemma delete_cards_fields:
  "cards (delete_cards P b) = filter (\<lambda>c. \<not> P c) (cards b)"
  "card_notes (delete_cards P b) =
     filter (\<lambda>n. n_card_id n \<notin> c_id ` set (filter P (cards b))) (card_notes b)"
  "card_runs (delete_cards P b) =
     filter (\<lambda>r. r_card_id r \<notin> c_id ` set (filter P (cards b))) (card_runs b)"
  "card_events (delete_cards P b) =
     filter (\<lambda>e. e_card_id e \<notin> c_id ` set (filter P (cards b))) (card_events b)"
  "card_links (delete_cards P b) =
     filter (\<lambda>l. l_parent_id l \<notin> c_id ` set (filter P (cards b))
       \<and> l_child_id l \<notin> c_id ` set (filter P (cards b))) (card_links b)"
  "card_commands (delete_cards P b) =
     filter (\<lambda>q. q_card_id q \<notin> c_id ` set (filter P (cards b))) (card_commands b)"
  by (simp_all add: delete_cards_def Let_def)

lemma struct_delete_cards:
  assumes "struct_ok b" shows "struct_ok (delete_cards P b)"
proof -
  have k: "keys_ok (delete_cards P b)" "seqs_ok (delete_cards P b)"
    using assms
    by (auto simp: struct_ok_def keys_ok_def seqs_ok_def delete_cards_def Let_def
        distinct_filter_map distinct_map_filter sorted_wrt_map sorted_wrt_filter)
  let ?gone = "c_id ` set (filter P (cards b))"
  have left: "card_ids (delete_cards P b) = c_id ` set (filter (\<lambda>c. \<not> P c) (cards b))"
    by (simp add: card_ids_def delete_cards_def Let_def)
  have base: "card_ids b - ?gone \<subseteq> card_ids (delete_cards P b)"
    by (simp only: left) (auto simp: card_ids_def)
  have sub: "key ` set (filter (\<lambda>x. key x \<notin> ?gone) xs) \<subseteq> card_ids (delete_cards P b)"
    if "key ` set xs \<subseteq> card_ids b" for key :: "'z \<Rightarrow> string" and xs
    using that base by auto
  have links: "Field (link_pairs (filter (\<lambda>l. l_parent_id l \<notin> ?gone \<and> l_child_id l \<notin> ?gone)
      (card_links b))) \<subseteq> card_ids b - ?gone"
    using assms by (auto simp: struct_ok_def refs_ok_def Field_link_pairs)
  have r: "refs_ok (delete_cards P b)"
    unfolding refs_ok_def delete_cards_fields
    using assms unfolding struct_ok_def refs_ok_def
    by (intro conjI sub order_trans [OF links base]) simp_all
  have "links_ok (delete_cards P b)"
    using assms acyclic_subset [OF _ link_pairs_filter]
    by (auto simp: struct_ok_def links_ok_def delete_cards_def Let_def distinct_map_filter)
  with k r show ?thesis by (simp add: struct_ok_def)
qed

lemma card_ids_simps [simp]:
  "card_ids (record_event cid k a p now b) = card_ids b"
  "card_ids (repaired_event cid a st now b) = card_ids b"
  "card_ids (update_commands P g b) = card_ids b"
  "card_ids (update_runs Q h b) = card_ids b"
  "card_ids (insert_note cid a t now b) = card_ids b"
  by (simp_all add: card_ids_def)

lemma card_ids_update_cards:
  "(\<And>c. P c \<Longrightarrow> c_id (f c) = c_id c) \<Longrightarrow> card_ids (update_cards P f b) = card_ids b"
  by (simp add: card_ids_def image_update_rows)

end
