(* ===== verification/Board_Claims.thy ===== *)
theory Board_Claims
  imports Board_Invariant
begin

text \<open>
  Claims and the voice queue: their invariants as predicates on the tables, and how each kind of
  statement group (an edit, taking a claim, releasing it, delivering an instruction) keeps them.
\<close>

section \<open>Fields\<close>

definition fields_ok :: "card \<Rightarrow> bool" where
  "fields_ok c \<longleftrightarrow> c_title c \<noteq> '''' \<and> length (c_title c) \<le> MAX_TITLE_CHARS
     \<and> length (c_body c) \<le> MAX_BODY_CHARS
     \<and> -100 \<le> c_priority c \<and> c_priority c \<le> 100
     \<and> 1 \<le> c_max_attempts c \<and> c_max_attempts c \<le> 10
     \<and> 0 \<le> c_revision c \<and> 0 \<le> c_attempt_count c
     \<and> (\<forall>s. c_result c = Some s \<longrightarrow> length s \<le> MAX_RESULT_CHARS)
     \<and> (\<forall>s. c_error c = Some s \<longrightarrow> length s \<le> MAX_ERROR_CHARS)"

definition all_fields_ok :: "board \<Rightarrow> bool" where
  "all_fields_ok b \<longleftrightarrow> (\<forall>c \<in> set (cards b). fields_ok c)"

lemma all_fields_update_cards:
  "all_fields_ok b \<Longrightarrow> (\<And>c. c \<in> set (cards b) \<Longrightarrow> P c \<Longrightarrow> fields_ok c \<Longrightarrow> fields_ok (f c))
    \<Longrightarrow> all_fields_ok (update_cards P f b)"
  by (auto simp: all_fields_ok_def set_update_rows)

section \<open>Claims\<close>

definition running_for :: "string \<Rightarrow> string \<Rightarrow> card_run \<Rightarrow> bool" where
  "running_for cid token r \<longleftrightarrow> r_card_id r = cid \<and> r_claim_token r = token \<and> r_status r = Run_running"

definition claim_ok :: "card_run list \<Rightarrow> card \<Rightarrow> bool" where
  "claim_ok runs c =
     (case c_claim_token c of
        None \<Rightarrow> c_lease_expires_at c = None \<and> c_heartbeat_at c = None
      | Some t \<Rightarrow> t \<noteq> '''' \<and> c_status c = STATUS_IN_PROGRESS \<and> c_lease_expires_at c \<noteq> None
          \<and> c_heartbeat_at c \<noteq> None \<and> (\<exists>r \<in> set runs. running_for (c_id c) t r))"

definition claims_ok :: "card list \<Rightarrow> card_run list \<Rightarrow> bool" where
  "claims_ok cs runs \<longleftrightarrow> (\<forall>c \<in> set cs. claim_ok runs c)
     \<and> (\<forall>r \<in> set runs. r_status r = Run_running \<longrightarrow>
          (\<exists>c \<in> set cs. c_id c = r_card_id r \<and> c_claim_token c = Some (r_claim_token r)))
     \<and> (\<forall>r \<in> set runs. \<forall>r' \<in> set runs. r_status r = Run_running \<longrightarrow> r_status r' = Run_running
          \<longrightarrow> r_card_id r = r_card_id r' \<longrightarrow> r = r')"

text \<open>A card change that leaves the claim as it is.\<close>

definition keeps_claim :: "card \<Rightarrow> card \<Rightarrow> bool" where
  "keeps_claim c c' \<longleftrightarrow> c_id c' = c_id c \<and> c_execution_mode c' = c_execution_mode c
     \<and> c_claim_token c' = c_claim_token c
     \<and> (c_lease_expires_at c' = None) = (c_lease_expires_at c = None)
     \<and> (c_heartbeat_at c' = None) = (c_heartbeat_at c = None)
     \<and> (c_claim_token c \<noteq> None \<longrightarrow> c_status c' = c_status c)"

lemma keeps_claim_refl [simp]: "keeps_claim c c"
  by (simp add: keeps_claim_def)

lemma keeps_claim_claim_ok: "keeps_claim c c' \<Longrightarrow> claim_ok runs c \<Longrightarrow> claim_ok runs c'"
  by (auto simp: keeps_claim_def claim_ok_def split: option.splits)

lemma claims_keep:
  assumes ok: "claims_ok cs runs" and keep: "\<And>c. c \<in> set cs \<Longrightarrow> P c \<Longrightarrow> keeps_claim c (f c)"
  shows "claims_ok (update_rows P f cs) runs"
proof -
  have g: "keeps_claim c (updated P f c)" if "c \<in> set cs" for c using keep that by simp
  have "claim_ok runs (updated P f c)" if "c \<in> set cs" for c
    using keeps_claim_claim_ok [OF g [OF that]] ok that by (simp add: claims_ok_def)
  then have "\<forall>c \<in> set (update_rows P f cs). claim_ok runs c" unfolding ball_update_rows by blast
  moreover have "\<exists>c \<in> set (update_rows P f cs). c_id c = r_card_id r \<and> c_claim_token c = Some (r_claim_token r)"
    if r: "r \<in> set runs" "r_status r = Run_running" for r
  proof -
    from ok r obtain c where "c \<in> set cs" "c_id c = r_card_id r" "c_claim_token c = Some (r_claim_token r)"
      unfolding claims_ok_def by blast
    then show ?thesis
      using g [of c] unfolding bex_update_rows keeps_claim_def by (intro bexI [of _ c]) simp_all
  qed
  ultimately show ?thesis using ok unfolding claims_ok_def by simp
qed

lemma claims_runs_same:
  assumes "\<And>r. P r \<Longrightarrow> r_card_id (h r) = r_card_id r \<and> r_claim_token (h r) = r_claim_token r
      \<and> r_status (h r) = r_status r"
    and "claims_ok cs runs"
  shows "claims_ok cs (update_rows P h runs)"
proof -
  have g: "running_for i t (updated P h r) = running_for i t r"
      "r_status (updated P h r) = r_status r" "r_card_id (updated P h r) = r_card_id r"
      "r_claim_token (updated P h r) = r_claim_token r" for i t r
    using assms(1) [of r] by (simp_all add: running_for_def)
  have eq: "claim_ok (update_rows P h runs) c = claim_ok runs c" for c
    unfolding claim_ok_def bex_update_rows g by (rule refl)
  have uniq: "updated P h r = updated P h r'"
    if "r \<in> set runs" "r' \<in> set runs" "r_status r = Run_running"
      "r_status r' = Run_running" "r_card_id r = r_card_id r'" for r r'
  proof -
    have "r = r'" using that assms(2) unfolding claims_ok_def by blast
    then show ?thesis by simp
  qed
  show ?thesis
    unfolding claims_ok_def eq ball_update_rows g
    using assms(2) uniq unfolding claims_ok_def by blast
qed

text \<open>Taking a claim: one unclaimed card gets the token and a new running attempt.\<close>

lemma claims_take:
  assumes ok: "claims_ok cs runs" and ids: "distinct (map c_id cs)"
    and c: "c \<in> set cs" "c_claim_token c = None" and P: "\<And>x. x \<in> set cs \<Longrightarrow> P x \<longleftrightarrow> x = c"
    and f: "c_id (f c) = c_id c" "c_claim_token (f c) = Some t" "t \<noteq> ''''"
      "c_status (f c) = STATUS_IN_PROGRESS" "c_lease_expires_at (f c) \<noteq> None" "c_heartbeat_at (f c) \<noteq> None"
    and r: "running_for (c_id c) t r"
  shows "claims_ok (update_rows P f cs) (runs @ [r])"
proof -
  have up: "updated P f x = (if x = c then f c else x)" if "x \<in> set cs" for x using P that by simp
  have none: "r_card_id r' \<noteq> c_id c" if "r' \<in> set runs" "r_status r' = Run_running" for r'
  proof
    assume "r_card_id r' = c_id c"
    with ok that obtain x where "x \<in> set cs" "c_id x = c_id c" "c_claim_token x \<noteq> None"
      unfolding claims_ok_def by (metis option.distinct(1))
    with ids c show False by (metis distinct_map inj_onD)
  qed
  have 1: "claim_ok (runs @ [r]) (updated P f x)" if "x \<in> set cs" for x
  proof (cases "x = c")
    case True
    with f r up [OF that] show ?thesis by (simp add: claim_ok_def)
  next
    case False
    have "claim_ok runs x" using ok that by (simp add: claims_ok_def)
    with False up [OF that] show ?thesis by (auto simp: claim_ok_def split: option.splits)
  qed
  have 2: "\<exists>x \<in> set cs. c_id (updated P f x) = r_card_id r' \<and> c_claim_token (updated P f x) = Some (r_claim_token r')"
    if r': "r' \<in> set (runs @ [r])" "r_status r' = Run_running" for r'
  proof (cases "r' = r")
    case True
    with r c f up show ?thesis by (intro bexI [of _ c]) (simp_all add: running_for_def)
  next
    case False
    with r' ok obtain x where x: "x \<in> set cs" "c_id x = r_card_id r'" "c_claim_token x = Some (r_claim_token r')"
      unfolding claims_ok_def by auto
    with c have "x \<noteq> c" by auto
    with x up [of x] show ?thesis by (intro bexI [of _ x]) simp_all
  qed
  have 3: "r1 = r2" if mem: "r1 \<in> set (runs @ [r])" "r2 \<in> set (runs @ [r])" and run: "r_status r1 = Run_running"
      "r_status r2 = Run_running" "r_card_id r1 = r_card_id r2" for r1 r2
  proof -
    consider "r1 \<in> set runs" "r2 \<in> set runs" | "r1 = r" "r2 = r" | "r1 = r" "r2 \<in> set runs" | "r1 \<in> set runs" "r2 = r"
      using mem by auto
    then show ?thesis
      using none r run ok unfolding running_for_def claims_ok_def by cases metis+
  qed
  show ?thesis unfolding claims_ok_def ball_update_rows bex_update_rows
    using 1 2 3 by blast
qed

text \<open>Releasing a claim: the holder loses its token and its attempts stop running.\<close>

lemma claims_release:
  assumes ok: "claims_ok cs runs"
    and P: "\<And>x. x \<in> set cs \<Longrightarrow> P x \<longleftrightarrow> holds_claim cid t x"
    and Q: "\<And>r. r \<in> set runs \<Longrightarrow> Q r \<longleftrightarrow> r_card_id r = cid \<and> r_claim_token r = t"
    and f: "\<And>x. c_id (f x) = c_id x \<and> c_claim_token (f x) = None \<and> c_lease_expires_at (f x) = None
        \<and> c_heartbeat_at (f x) = None"
    and h: "\<And>r. r_status (h r) \<noteq> Run_running"
  shows "claims_ok (update_rows P f cs) (update_rows Q h runs)"
proof -
  have run: "updated Q h r = r \<and> \<not> (r_card_id r = cid \<and> r_claim_token r = t)"
    if "r \<in> set runs" "r_status (updated Q h r) = Run_running" for r
    using that h Q by (auto split: if_splits)
  have 1: "claim_ok (update_rows Q h runs) (updated P f x)" if x: "x \<in> set cs" for x
  proof (cases "P x")
    case True
    with f [of x] show ?thesis by (simp add: claim_ok_def)
  next
    case False
    have okx: "claim_ok runs x" using ok x by (simp add: claims_ok_def)
    show ?thesis
    proof (cases "c_claim_token x")
      case None
      with okx False show ?thesis by (simp add: claim_ok_def)
    next
      case (Some s)
      with okx obtain r where r: "r \<in> set runs" "running_for (c_id x) s r"
        by (auto simp: claim_ok_def)
      with False Some P [OF x] Q [of r] have "updated Q h r = r"
        by (auto simp: holds_claim_def running_for_def)
      with r have "\<exists>r \<in> set runs. running_for (c_id x) s (updated Q h r)" by metis
      with okx False Some show ?thesis by (simp add: claim_ok_def bex_update_rows)
    qed
  qed
  have 2: "\<exists>x \<in> set cs. c_id (updated P f x) = r_card_id (updated Q h r)
      \<and> c_claim_token (updated P f x) = Some (r_claim_token (updated Q h r))"
    if r: "r \<in> set runs" "r_status (updated Q h r) = Run_running" for r
  proof -
    note same = run [OF r]
    then have "r_status r = Run_running" using r(2) by (auto split: if_splits)
    with r(1) ok obtain x where x: "x \<in> set cs" "c_id x = r_card_id r" "c_claim_token x = Some (r_claim_token r)"
      unfolding claims_ok_def by blast
    with same P [of x] have "\<not> P x" by (auto simp: holds_claim_def)
    with x same show ?thesis by (intro bexI [of _ x]) simp_all
  qed
  have 3: "updated Q h r1 = updated Q h r2"
    if "r1 \<in> set runs" "r2 \<in> set runs" "r_status (updated Q h r1) = Run_running"
      "r_status (updated Q h r2) = Run_running" "r_card_id (updated Q h r1) = r_card_id (updated Q h r2)" for r1 r2
    using that run [of r1] run [of r2] ok unfolding claims_ok_def by metis
  show ?thesis unfolding claims_ok_def ball_update_rows bex_update_rows
    using 1 2 3 by blast
qed

lemma claims_add_card:
  "claims_ok cs runs \<Longrightarrow> c_claim_token c = None \<Longrightarrow> c_lease_expires_at c = None
    \<Longrightarrow> c_heartbeat_at c = None \<Longrightarrow> claims_ok (cs @ [c]) runs"
  by (auto simp: claims_ok_def claim_ok_def)

lemma claims_delete:
  assumes ok: "claims_ok cs runs" and ids: "distinct (map c_id cs)"
    and P: "\<And>c. c \<in> set cs \<Longrightarrow> P c \<Longrightarrow> c_claim_token c = None"
  shows "claims_ok (filter (\<lambda>c. \<not> P c) cs)
    (filter (\<lambda>r. r_card_id r \<notin> c_id ` set (filter P cs)) runs)" (is "claims_ok ?cs ?runs")
proof -
  have 1: "claim_ok ?runs c" if "c \<in> set ?cs" for c
  proof -
    have "c_id c \<notin> c_id ` set (filter P cs)"
      using that ids by (auto dest: inj_onD simp: distinct_map)
    moreover have "claim_ok runs c" using ok that by (simp add: claims_ok_def)
    ultimately show ?thesis
      by (auto simp: claim_ok_def running_for_def split: option.splits) metis
  qed
  have 2: "\<exists>c \<in> set ?cs. c_id c = r_card_id r \<and> c_claim_token c = Some (r_claim_token r)"
    if "r \<in> set ?runs" "r_status r = Run_running" for r
    using that ok P unfolding claims_ok_def by fastforce
  show ?thesis using 1 2 ok unfolding claims_ok_def by auto
qed

section \<open>The voice queue\<close>

definition unsettled_turn :: "card_command \<Rightarrow> bool" where
  "unsettled_turn q \<longleftrightarrow> turn_kind (q_kind q) \<and> q_status q \<in> {Q_status_unknown, Q_delivering, Q_applied}"

definition live_turn :: "card_command \<Rightarrow> bool" where
  "live_turn q \<longleftrightarrow> turn_kind (q_kind q) \<and> q_status q \<in> {Q_delivering, Q_applied}"

lemma is_unsettled_iff: "is_unsettled cid q \<longleftrightarrow> q_card_id q = cid \<and> unsettled_turn q"
  by (auto simp: is_unsettled_def unsettled_turn_def)

lemma live_unsettled: "live_turn q \<Longrightarrow> unsettled_turn q"
  by (auto simp: live_turn_def unsettled_turn_def)

definition queue_core :: "card list \<Rightarrow> card_command list \<Rightarrow> bool" where
  "queue_core cs qs \<longleftrightarrow>
     (\<forall>q \<in> set qs. q_status q = Q_queued_for_next_turn \<or> q_claim_token q \<noteq> None \<longrightarrow> turn_kind (q_kind q))
     \<and> (\<forall>q \<in> set qs. turn_kind (q_kind q) \<longrightarrow>
          (\<exists>c \<in> set cs. c_id c = q_card_id q \<and> c_execution_mode c = Voice))
     \<and> (\<forall>q \<in> set qs. \<forall>q' \<in> set qs. unsettled_turn q \<longrightarrow> unsettled_turn q'
          \<longrightarrow> q_card_id q = q_card_id q' \<longrightarrow> q = q')"

definition queue_claims :: "card list \<Rightarrow> card_command list \<Rightarrow> bool" where
  "queue_claims cs qs \<longleftrightarrow>
     (\<forall>c \<in> set cs. c_claim_token c \<noteq> None \<longrightarrow>
        (\<forall>q \<in> set qs. q_card_id q = c_id c \<longrightarrow> unsettled_turn q
           \<longrightarrow> live_turn q \<and> q_claim_token q = c_claim_token c))"

definition queue_ok :: "board \<Rightarrow> bool" where
  "queue_ok b \<longleftrightarrow> queue_core (cards b) (card_commands b) \<and> queue_claims (cards b) (card_commands b)"

text \<open>A live instruction is one some card's claim delivers.\<close>

definition attended :: "board \<Rightarrow> bool" where
  "attended b \<longleftrightarrow> (\<forall>q \<in> set (card_commands b). live_turn q \<longrightarrow>
     (\<exists>c \<in> set (cards b). c_id c = q_card_id q \<and> c_claim_token c \<noteq> None
        \<and> c_claim_token c = q_claim_token q))"

text \<open>A change of an instruction that starts nothing.\<close>

definition calms :: "card_command \<Rightarrow> card_command \<Rightarrow> bool" where
  "calms q q' \<longleftrightarrow> q_card_id q' = q_card_id q \<and> q_kind q' = q_kind q
     \<and> (unsettled_turn q' \<longrightarrow> unsettled_turn q)
     \<and> (q_status q' = Q_queued_for_next_turn \<longrightarrow> q_status q = Q_queued_for_next_turn)
     \<and> (q_claim_token q' = q_claim_token q)"

lemma calms_refl [simp]: "calms q q"
  by (simp add: calms_def)

lemma queue_core_cards:
  assumes "queue_core cs qs"
    and "\<And>c. c \<in> set cs \<Longrightarrow> c_execution_mode c = Voice \<Longrightarrow>
      \<exists>c' \<in> set cs'. c_id c' = c_id c \<and> c_execution_mode c' = Voice"
  shows "queue_core cs' qs"
  using assms unfolding queue_core_def by metis

lemma queue_core_calm:
  assumes core: "queue_core cs qs" and calm: "\<And>q. q \<in> set qs \<Longrightarrow> P q \<Longrightarrow> calms q (g q)"
  shows "queue_core cs (update_rows P g qs)"
proof -
  have c: "calms q (updated P g q)" if "q \<in> set qs" for q using calm that by simp
  have 1: "turn_kind (q_kind (updated P g q))"
    if "q \<in> set qs" "q_status (updated P g q) = Q_queued_for_next_turn \<or> q_claim_token (updated P g q) \<noteq> None" for q
    using core c [of q] that unfolding queue_core_def calms_def by metis
  have 2: "\<exists>x \<in> set cs. c_id x = q_card_id (updated P g q) \<and> c_execution_mode x = Voice"
    if "q \<in> set qs" "turn_kind (q_kind (updated P g q))" for q
    using core c [of q] that unfolding queue_core_def calms_def by metis
  have 3: "updated P g q = updated P g q'"
    if "q \<in> set qs" "q' \<in> set qs" "unsettled_turn (updated P g q)" "unsettled_turn (updated P g q')"
      "q_card_id (updated P g q) = q_card_id (updated P g q')" for q q'
  proof -
    have "q = q'" using core c [of q] c [of q'] that unfolding queue_core_def calms_def by metis
    then show ?thesis by simp
  qed
  show ?thesis unfolding queue_core_def ball_update_rows using 1 2 3 by blast
qed

lemma queue_claims_calm:
  assumes "queue_claims cs qs" "\<And>q. q \<in> set qs \<Longrightarrow> P q \<Longrightarrow> calms q (g q)"
    and "\<And>q. q \<in> set qs \<Longrightarrow> P q \<Longrightarrow> live_turn q \<Longrightarrow> unsettled_turn (g q) \<Longrightarrow> live_turn (g q)"
  shows "queue_claims cs (update_rows P g qs)"
  unfolding queue_claims_def ball_update_rows
  using assms unfolding queue_claims_def calms_def by (auto split: if_splits)

lemma queue_claims_cards:
  assumes "queue_claims cs qs" "\<And>c. c \<in> set cs \<Longrightarrow> P c \<Longrightarrow>
      c_id (f c) = c_id c \<and> (c_claim_token (f c) = None \<or> c_claim_token (f c) = c_claim_token c)"
  shows "queue_claims (update_rows P f cs) qs"
  unfolding queue_claims_def ball_update_rows
  using assms unfolding queue_claims_def by (metis (full_types))

text \<open>Marking one instruction of a card that has nothing unsettled.\<close>

lemma queue_core_mark:
  assumes core: "queue_core cs qs" and q: "q \<in> set qs" "turn_kind (q_kind q)"
    and P: "\<And>x. x \<in> set qs \<Longrightarrow> P x \<longleftrightarrow> x = q"
    and idle: "\<And>x. x \<in> set qs \<Longrightarrow> unsettled_turn x \<Longrightarrow> q_card_id x \<noteq> q_card_id q"
    and g: "q_card_id (g q) = q_card_id q" "q_kind (g q) = q_kind q"
  shows "queue_core cs (update_rows P g qs)"
proof -
  have up: "updated P g x = (if x = q then g q else x)" if "x \<in> set qs" for x using P that by simp
  have 1: "turn_kind (q_kind (updated P g x))"
    if "x \<in> set qs" "q_status (updated P g x) = Q_queued_for_next_turn \<or> q_claim_token (updated P g x) \<noteq> None" for x
    using core that q g unfolding up [OF that(1)] queue_core_def by (auto split: if_splits)
  have 2: "\<exists>y \<in> set cs. c_id y = q_card_id (updated P g x) \<and> c_execution_mode y = Voice"
    if "x \<in> set qs" "turn_kind (q_kind (updated P g x))" for x
    using core that q g unfolding up [OF that(1)] queue_core_def by (auto split: if_splits)
  have 3: "updated P g x = updated P g y"
    if "x \<in> set qs" "y \<in> set qs" "unsettled_turn (updated P g x)" "unsettled_turn (updated P g y)"
      "q_card_id (updated P g x) = q_card_id (updated P g y)" for x y
    using core that idle g unfolding up [OF that(1)] up [OF that(2)] queue_core_def
    by (metis (full_types))
  show ?thesis unfolding queue_core_def ball_update_rows using 1 2 3 by blast
qed

end
