(* ===== verification/Board_Steps.thy ===== *)
theory Board_Steps
  imports Board_Claims
begin

text \<open>
  The board invariant and its preservation by every operation of \<open>BoardStore\<close> and
  \<open>VoiceCommands\<close> that changes the database.
\<close>

section \<open>The invariant\<close>

definition board_inv :: "board \<Rightarrow> bool" where
  "board_inv b \<longleftrightarrow> struct_ok b \<and> all_fields_ok b \<and> claims_ok (cards b) (card_runs b) \<and> queue_ok b"

lemma board_inv_empty: "board_inv empty_board"
  by (simp add: board_inv_def struct_defs all_fields_ok_def claims_ok_def queue_ok_def
      queue_core_def queue_claims_def empty_board_def link_pairs_def acyclic_def)

lemma row_view_simps [simp]:
  "c_id (row_view owner b r) = c_id r"
  "c_status (row_view owner b r) = c_status r"
  "c_claim_token (row_view owner b r) = c_claim_token r"
  "c_revision (row_view owner b r) = c_revision r"
  "c_execution_mode (row_view owner b r) = c_execution_mode r"
  "c_attempt_count (row_view owner b r) = c_attempt_count r"
  "c_assignee_profile (row_view owner b r) = c_assignee_profile r"
  "c_scheduled_at (row_view owner b r) = c_scheduled_at r"
  "c_lease_expires_at (row_view owner b r) = c_lease_expires_at r"
  "c_run_id (row_view owner b r) = c_run_id r"
  "c_voice_conversation_id (row_view owner b r) = c_voice_conversation_id r"
  "c_voice_owner_uid (row_view owner b r) = c_voice_owner_uid r"
  "c_priority (row_view owner b r) = c_priority r"
  "c_created_at (row_view owner b r) = c_created_at r"
  by (simp_all add: row_view_def)

lemma get_card_SomeE:
  assumes "get_card owner b cid = Some old"
  obtains row where "row \<in> set (cards b)" "c_id row = cid" "card_row b cid = Some row"
    "row_visible owner row" "old = row_view owner b row"
  using assms row_with_SomeD [of c_id cid "cards b"]
  by (auto simp: get_card_def card_row_def split: option.splits if_splits)

lemma get_card_id: "get_card owner b cid = Some old \<Longrightarrow> cid \<in> card_ids b"
  by (auto simp: card_ids_def elim: get_card_SomeE)

lemma same_id: "board_inv b \<Longrightarrow> x \<in> set (cards b) \<Longrightarrow> y \<in> set (cards b) \<Longrightarrow> c_id x = c_id y \<Longrightarrow> x = y"
  by (auto simp: board_inv_def struct_ok_def keys_ok_def distinct_map dest: inj_onD)

lemma card_row_eq: "board_inv b \<Longrightarrow> x \<in> set (cards b) \<Longrightarrow> card_row b (c_id x) = Some x"
  by (auto simp: board_inv_def struct_ok_def keys_ok_def card_row_def intro: row_with_eqI)

lemma inv_claim_ok: "board_inv b \<Longrightarrow> c \<in> set (cards b) \<Longrightarrow> claim_ok (card_runs b) c"
  by (simp add: board_inv_def claims_ok_def)

lemma no_token: "board_inv b \<Longrightarrow> c \<in> set (cards b) \<Longrightarrow> \<not> truthy (c_claim_token c) \<Longrightarrow>
    c_claim_token c = None \<and> c_lease_expires_at c = None \<and> c_heartbeat_at c = None"
  by (drule (1) inv_claim_ok) (auto simp: claim_ok_def truthy_iff split: option.splits)

lemma token_running: "board_inv b \<Longrightarrow> c \<in> set (cards b) \<Longrightarrow> c_claim_token c = Some t \<Longrightarrow>
    t \<noteq> '''' \<and> c_status c = STATUS_IN_PROGRESS \<and> c_lease_expires_at c \<noteq> None \<and> c_heartbeat_at c \<noteq> None"
  by (drule (1) inv_claim_ok) (auto simp: claim_ok_def)

section \<open>Statements that keep the invariant\<close>

lemma inv_record_event:
  "board_inv b \<Longrightarrow> cid \<in> card_ids b \<Longrightarrow> board_inv (record_event cid k a p now b)"
  by (simp add: board_inv_def struct_record_event all_fields_ok_def queue_ok_def)

lemma inv_repaired_event:
  "board_inv b \<Longrightarrow> cid \<in> card_ids b \<Longrightarrow> board_inv (repaired_event cid a st now b)"
  by (simp add: repaired_event_def inv_record_event)

lemma inv_insert_note:
  "board_inv b \<Longrightarrow> cid \<in> card_ids b \<Longrightarrow> board_inv (insert_note cid a t now b)"
  by (simp add: board_inv_def struct_insert_note all_fields_ok_def queue_ok_def)

lemma inv_edit:
  assumes inv: "board_inv b"
    and keys: "\<And>c. P c \<Longrightarrow> c_id (f c) = c_id c \<and> c_idempotency_key (f c) = c_idempotency_key c"
    and keep: "\<And>c. c \<in> set (cards b) \<Longrightarrow> P c \<Longrightarrow> keeps_claim c (f c)"
    and fields: "\<And>c. c \<in> set (cards b) \<Longrightarrow> P c \<Longrightarrow> fields_ok c \<Longrightarrow> fields_ok (f c)"
  shows "board_inv (update_cards P f b)"
proof -
  have "queue_core (update_rows P f (cards b)) (card_commands b)"
  proof (rule queue_core_cards)
    show "queue_core (cards b) (card_commands b)" using inv by (simp add: board_inv_def queue_ok_def)
    show "\<exists>c' \<in> set (update_rows P f (cards b)). c_id c' = c_id c \<and> c_execution_mode c' = Voice"
      if "c \<in> set (cards b)" "c_execution_mode c = Voice" for c
      using keep [of c] that unfolding bex_update_rows keeps_claim_def by (intro bexI [of _ c]) auto
  qed
  moreover have "queue_claims (update_rows P f (cards b)) (card_commands b)"
    using inv keep unfolding board_inv_def queue_ok_def keeps_claim_def
    by (intro queue_claims_cards) simp_all
  ultimately show ?thesis
    using assms claims_keep [of "cards b" "card_runs b" P f]
    by (simp add: board_inv_def struct_update_cards all_fields_update_cards queue_ok_def)
qed

lemma inv_calm:
  assumes "board_inv b"
    and "\<And>q. P q \<Longrightarrow> q_command_id (g q) = q_command_id q \<and> q_seq (g q) = q_seq q"
    and "\<And>q. q \<in> set (card_commands b) \<Longrightarrow> P q \<Longrightarrow> calms q (g q)"
    and "\<And>q. P q \<Longrightarrow> q_card_id (g q) = q_card_id q"
    and "\<And>q. q \<in> set (card_commands b) \<Longrightarrow> P q \<Longrightarrow> live_turn q \<Longrightarrow> unsettled_turn (g q) \<Longrightarrow> live_turn (g q)"
  shows "board_inv (update_commands P g b)"
  using assms queue_core_calm [of "cards b" "card_commands b" P g]
    queue_claims_calm [of "cards b" "card_commands b" P g]
  by (simp add: board_inv_def struct_update_commands all_fields_ok_def queue_ok_def)

lemma inv_run_note:
  assumes "board_inv b" "\<And>r. P r \<Longrightarrow> r_card_id (h r) = r_card_id r \<and> r_claim_token (h r) = r_claim_token r
      \<and> r_status (h r) = r_status r \<and> r_id (h r) = r_id r"
  shows "board_inv (update_runs P h b)"
  using assms claims_runs_same [of P h "cards b" "card_runs b"]
  by (simp add: board_inv_def struct_update_runs all_fields_ok_def queue_ok_def)

text \<open>A new command that is no unsettled turn.\<close>

lemma inv_insert_command:
  assumes inv: "board_inv b" and new: "insert_command q b = Inr b'"
    and q: "c \<in> set (cards b)" "c_id c = q_card_id q" "\<not> unsettled_turn q" "q_claim_token q = None"
      "q_status q = Q_queued_for_next_turn \<longrightarrow> turn_kind (q_kind q)"
      "turn_kind (q_kind q) \<longrightarrow> c_execution_mode c = Voice"
  shows "board_inv b'"
proof -
  let ?q = "q\<lparr>q_seq := command_seq b + 1\<rparr>"
  have u: "\<not> unsettled_turn ?q" using q(3) by (simp add: unsettled_turn_def)
  have "queue_core (cards b) (card_commands b @ [?q])"
    using inv q u unfolding board_inv_def queue_ok_def queue_core_def by auto
  moreover have "queue_claims (cards b) (card_commands b @ [?q])"
    using inv u unfolding board_inv_def queue_ok_def queue_claims_def by auto
  moreover have "q_card_id q \<in> card_ids b"
    using q(1,2) unfolding card_ids_def by (metis image_eqI)
  then have "struct_ok b'"
    using new inv struct_insert_command [of b q] by (auto simp: board_inv_def insert_command_Inr_iff)
  ultimately show ?thesis
    using inv new by (auto simp: board_inv_def insert_command_Inr_iff all_fields_ok_def queue_ok_def)
qed

section \<open>Edits\<close>

lemma returning_Inr_iff:
  "returning owner cid b = Inr (b', x) \<longleftrightarrow> b' = b \<and> get_card_full owner b cid = Some x"
  by (auto simp: returning_def split: option.split)

lemmas edit_defs = returning_Inr_iff update_status_at_def update_fields_at_def check_status_def
  statement_iffs Let_def

lemma check_text_bound: "check_text what n v = Inr (Some s) \<Longrightarrow> length s \<le> n"
  by (auto simp: check_text_def split: if_splits)

lemmas row_defs = status_row_def run_id_row_def edit_row_def touch_row_def assign_row_def beat_row_def
  worker_row_def restore_row_def expire_row_def reset_row_def resume_row_def settle_row_def
  stop_row_def answer_row_def take_claim_def release_claim_def Let_def

lemma row_ids [simp]:
  "c_id (status_row now st res err cr cs r) = c_id r" "c_id (run_id_row now run r) = c_id r"
  "c_id (edit_row now ti bo pr sc ma r) = c_id r" "c_id (touch_row now r) = c_id r"
  "c_id (assign_row now pf bt st r) = c_id r" "c_id (beat_row now l rp r) = c_id r"
  "c_id (worker_row now w rp r) = c_id r" "c_id (restore_row now run r) = c_id r"
  "c_id (expire_row now st r) = c_id r" "c_id (reset_row now st r) = c_id r"
  "c_id (resume_row now st r) = c_id r" "c_id (settle_row now st res err r) = c_id r"
  "c_id (stop_row now st r) = c_id r" "c_id (answer_row now r) = c_id r"
  "c_id (take_claim now l rn t n r) = c_id r" "c_id (release_claim st res err sd now r) = c_id r"
  by (simp_all add: row_defs)

lemma row_keys [simp]:
  "c_idempotency_key (status_row now st res err cr cs r) = c_idempotency_key r"
  "c_idempotency_key (run_id_row now run r) = c_idempotency_key r"
  "c_idempotency_key (edit_row now ti bo pr sc ma r) = c_idempotency_key r"
  "c_idempotency_key (touch_row now r) = c_idempotency_key r"
  "c_idempotency_key (assign_row now pf bt st r) = c_idempotency_key r"
  "c_idempotency_key (beat_row now l rp r) = c_idempotency_key r"
  "c_idempotency_key (worker_row now w rp r) = c_idempotency_key r"
  "c_idempotency_key (restore_row now run r) = c_idempotency_key r"
  "c_idempotency_key (expire_row now st r) = c_idempotency_key r"
  "c_idempotency_key (reset_row now st r) = c_idempotency_key r"
  "c_idempotency_key (resume_row now st r) = c_idempotency_key r"
  "c_idempotency_key (settle_row now st res err r) = c_idempotency_key r"
  "c_idempotency_key (stop_row now st r) = c_idempotency_key r"
  "c_idempotency_key (answer_row now r) = c_idempotency_key r"
  "c_idempotency_key (take_claim now l rn t n r) = c_idempotency_key r"
  "c_idempotency_key (release_claim st res err sd now r) = c_idempotency_key r"
  by (simp_all add: row_defs)

lemma set_status_effect:
  assumes "set_status owner now cid st res err cr cs ex actor b = Inr (b', x)"
  obtains old v r e p where "get_card owner b cid = Some old" "\<not> truthy (c_claim_token old)"
    "check_text ''result'' MAX_RESULT_CHARS res = Inr r"
    "check_text ''error'' MAX_ERROR_CHARS err = Inr e" "parse_status st = Some v"
    "\<not> stale_revision ex old"
    "b' = record_event cid ''status_changed'' actor p now
        (update_cards (at_revision cid (c_revision old)) (status_row now v r e cr cs) b)"
  using assms by (auto simp: set_status_def edit_defs)

text \<open>The row an operation found, when it holds no claim.\<close>

lemma unclaimed_row:
  assumes "board_inv b" "get_card owner b cid = Some old" "\<not> truthy (c_claim_token old)"
    "c \<in> set (cards b)" "c_id c = cid"
  shows "c_claim_token c = None \<and> c_lease_expires_at c = None \<and> c_heartbeat_at c = None"
  using assms(2) by (rule get_card_SomeE) (use assms same_id no_token in \<open>metis row_view_simps(3)\<close>)

lemma found_row: "board_inv b \<Longrightarrow> get_card owner b cid = Some old \<Longrightarrow> c \<in> set (cards b) \<Longrightarrow> c_id c = cid
    \<Longrightarrow> old = row_view owner b c \<and> row_visible owner c"
  by (erule get_card_SomeE) (metis same_id)

lemma set_status_inv:
  assumes inv: "board_inv b"
    and op: "set_status owner now cid st res err cr cs ex actor b = Inr (b', x)"
  shows "board_inv b'"
  using op
proof (rule set_status_effect)
  fix old v r e p
  assume old: "get_card owner b cid = Some old" "\<not> truthy (c_claim_token old)"
    and r: "check_text ''result'' MAX_RESULT_CHARS res = Inr r"
      "check_text ''error'' MAX_ERROR_CHARS err = Inr e"
    and b': "b' = record_event cid ''status_changed'' actor p now
        (update_cards (at_revision cid (c_revision old)) (status_row now v r e cr cs) b)"
  have keep: "keeps_claim c (status_row now v r e cr cs c)"
    if "c \<in> set (cards b)" "at_revision cid (c_revision old) c" for c
    using unclaimed_row [OF inv old that(1)] that(2)
    by (auto simp: keeps_claim_def row_defs at_revision_def)
  have fields: "fields_ok c \<Longrightarrow> fields_ok (status_row now v r e cr cs c)" for c
    using r by (auto simp: fields_ok_def row_defs dest: check_text_bound)
  show ?thesis unfolding b'
    using inv old keep fields by (intro inv_record_event inv_edit) (auto simp: card_ids_update_cards get_card_id)
qed

lemma set_run_id_inv:
  assumes "board_inv b" "set_run_id owner now cid run b = Inr (b', x)"
  shows "board_inv b'"
  using assms
  by (auto simp: set_run_id_def edit_defs keeps_claim_def fields_ok_def run_id_row_def
      intro!: inv_edit)

lemma check_title_ok: "check_title v = Inr t \<Longrightarrow> t \<noteq> '''' \<and> length t \<le> MAX_TITLE_CHARS"
  by (auto simp: check_title_def split: if_splits)

lemma check_body_ok: "check_body v = Inr t \<Longrightarrow> length t \<le> MAX_BODY_CHARS"
  by (auto simp: check_body_def split: if_splits)

lemma check_priority_ok: "check_priority v = Inr p \<Longrightarrow> -100 \<le> p \<and> p \<le> 100"
  by (auto simp: check_priority_def split: if_splits)

lemma check_max_attempts_ok: "check_max_attempts v = Inr m \<Longrightarrow> 1 \<le> m \<and> m \<le> 10"
  by (auto simp: check_max_attempts_def split: if_splits)

lemma optional_Some: "optional v f = Inr (Some y) \<Longrightarrow> f v = Inr y"
  by (cases v) (auto simp: on_ok_Inr_iff)

lemma set_opt_ok: "(\<And>y. v = Some y \<Longrightarrow> Q y) \<Longrightarrow> Q z \<Longrightarrow> Q (set_opt v z)"
  by (auto simp: set_opt_def split: option.splits)

lemma update_card_effect:
  assumes "update_card owner now cid u ex actor b = Inr (b', x)"
  obtains old ti bo pr sc ma p where "get_card owner b cid = Some old" "\<not> truthy (c_claim_token old)"
    "\<not> stale_revision ex old"
    "optional (u_title u) check_title = Inr ti" "optional (u_body u) check_body = Inr bo"
    "optional (u_priority u) check_priority = Inr pr"
    "optional (u_max_attempts u) (\<lambda>v. on_ok (check_max_attempts v) (\<lambda>m.
        if m < c_attempt_count old
        then Inl (BoardError ''max attempts cannot be below completed attempts'') else Inr m)) = Inr ma"
    "b' = record_event cid ''updated'' actor p now
        (update_cards (at_revision cid (c_revision old)) (edit_row now ti bo pr sc ma) b)"
  using assms
  by (auto simp: update_card_def edit_defs)

lemma update_card_inv:
  assumes inv: "board_inv b" and op: "update_card owner now cid u ex actor b = Inr (b', x)"
  shows "board_inv b'"
  using op
proof (rule update_card_effect)
  fix old ti bo pr sc ma p
  assume old: "get_card owner b cid = Some old"
    and t: "optional (u_title u) check_title = Inr ti" "optional (u_body u) check_body = Inr bo"
      "optional (u_priority u) check_priority = Inr pr"
    and m0: "optional (u_max_attempts u) (\<lambda>v. on_ok (check_max_attempts v) (\<lambda>m.
        if m < c_attempt_count old
        then Inl (BoardError ''max attempts cannot be below completed attempts'') else Inr m)) = Inr ma"
    and b': "b' = record_event cid ''updated'' actor p now
        (update_cards (at_revision cid (c_revision old)) (edit_row now ti bo pr sc ma) b)"
  have m: "1 \<le> n \<and> n \<le> 10" if "ma = Some n" for n
    using m0 that by (auto simp: ok_iffs dest!: optional_Some check_max_attempts_ok)
  have "fields_ok (edit_row now ti bo pr sc ma c)" if "fields_ok c" for c
    using that t m by (cases ti; cases bo; cases pr; cases ma)
      (auto simp: fields_ok_def row_defs set_opt_def
        dest!: optional_Some check_title_ok check_body_ok check_priority_ok)
  then show ?thesis unfolding b'
    using inv old by (intro inv_record_event inv_edit)
      (auto simp: card_ids_update_cards get_card_id keeps_claim_def edit_row_def)
qed

lemma add_note_inv:
  assumes "board_inv b" "add_note owner now cid author txt ex b = Inr (b', x)"
  shows "board_inv b'"
  using assms
  by (auto simp: add_note_def edit_defs keeps_claim_def fields_ok_def card_ids_update_cards get_card_id
      touch_row_def intro!: inv_record_event inv_edit inv_insert_note)

lemma assign_edit:
  assumes "board_inv b" "get_card owner b cid = Some old" "\<not> truthy (c_claim_token old)"
  shows "board_inv (record_event cid k a p now
    (update_cards (at_revision cid (c_revision old)) (assign_row now pf bt st) b))"
  using assms unclaimed_row [OF assms]
  by (intro inv_record_event inv_edit)
    (auto simp: card_ids_update_cards get_card_id keeps_claim_def fields_ok_def assign_row_def at_revision_def)

lemma assign_card_effect:
  assumes "assign_card owner now cid pf bt actor ready ex b = Inr (b', x)"
  obtains old st p where "get_card owner b cid = Some old" "\<not> truthy (c_claim_token old)"
    "\<not> stale_revision ex old"
    "b' = record_event cid ''assigned'' actor p now
        (update_cards (at_revision cid (c_revision old)) (assign_row now (strip pf) (strip bt) st) b)"
  using assms by (auto simp: assign_card_def edit_defs)

lemma unassign_card_effect:
  assumes "unassign_card owner now cid actor ex b = Inr (b', x)"
  obtains old st p where "get_card owner b cid = Some old" "\<not> truthy (c_claim_token old)"
    "\<not> stale_revision ex old"
    "b' = record_event cid ''unassigned'' actor p now
        (update_cards (at_revision cid (c_revision old)) (assign_row now [] [] st) b)"
  using assms by (auto simp: unassign_card_def edit_defs)

lemma assign_card_inv:
  "board_inv b \<Longrightarrow> assign_card owner now cid pf bt actor ready ex b = Inr (b', x) \<Longrightarrow> board_inv b'"
  by (erule assign_card_effect) (simp add: assign_edit)

lemma unassign_card_inv:
  "board_inv b \<Longrightarrow> unassign_card owner now cid actor ex b = Inr (b', x) \<Longrightarrow> board_inv b'"
  by (erule unassign_card_effect) (simp add: assign_edit)

section \<open>Dependencies\<close>

text \<open>The worklist of the recursive query computes the transitive closure of the links.\<close>

lemma set_children_of: "set (children_of links p) = link_pairs links `` {p}"
  by (auto simp: children_of_def link_pairs_def)

lemma set_expand:
  assumes "set queue \<subseteq> set seen"
    and "\<And>x. x \<in> set seen \<Longrightarrow> x \<notin> set queue \<Longrightarrow> link_pairs links `` {x} \<subseteq> set seen"
  shows "set (expand links seen queue) = (link_pairs links)\<^sup>* `` set seen"
  using assms
proof (induction links seen queue rule: expand.induct)
  case (1 links seen)
  then have "link_pairs links `` set seen \<subseteq> set seen" by auto
  then show ?case by (simp add: Image_closed_trancl)
next
  case (2 links seen x queue)
  let ?R = "link_pairs links"
  define new where "new = remdups (filter (\<lambda>y. y \<notin> set seen) (children_of links x))"
  have set_new: "set seen \<union> set new = set seen \<union> ?R `` {x}"
    by (auto simp: new_def set_children_of)
  have "set (expand links (seen @ new) (queue @ new)) = ?R\<^sup>* `` set (seen @ new)"
    unfolding new_def
  proof (rule "2.IH" [OF refl], unfold new_def [symmetric])
    show "set (queue @ new) \<subseteq> set (seen @ new)" using "2.prems" by auto
    show "?R `` {y} \<subseteq> set (seen @ new)" if "y \<in> set (seen @ new)" "y \<notin> set (queue @ new)" for y
      using that "2.prems"(2) [of y] set_new by (cases "y = x") auto
  qed
  also have "\<dots> = ?R\<^sup>* `` (set seen \<union> ?R `` {x})" by (simp add: set_new)
  also have "\<dots> = ?R\<^sup>* `` set seen"
    using "2.prems"(1) by (auto intro: converse_rtrancl_into_rtrancl)
  finally show ?case by (simp add: new_def Let_def)
qed

lemma set_descendants: "set (descendants links p) = {y. (p, y) \<in> (link_pairs links)\<^sup>+}"
proof -
  have "set (descendants links p) = (link_pairs links)\<^sup>* `` (link_pairs links `` {p})"
    unfolding descendants_def Let_def by (subst set_expand) (auto simp: set_children_of)
  then show ?thesis by (auto dest: tranclD intro: rtrancl_into_trancl2)
qed

lemma link_cards_inv:
  assumes inv: "board_inv b" and op: "link_cards owner now p c actor b = Inr b'"
  shows "board_inv b'"
proof (cases "b' = b")
  case False
  with op have ne: "p \<noteq> c" "p \<in> card_ids b" "c \<in> card_ids b" "p \<notin> set (descendants (card_links b) c)"
    "(p, c) \<notin> link_pairs (card_links b)"
    and b': "b' = record_event c ''dependency_added'' actor [(''parentId'', JStr p)] now
      (b\<lparr>card_links := card_links b @ [\<lparr>l_parent_id = p, l_child_id = c, l_created_at = now\<rparr>]\<rparr>)"
    by (auto simp: link_cards_def link_pairs_def ok_iffs split: option.splits if_splits
        dest: get_card_id)
  from ne(1,4) have "(c, p) \<notin> (link_pairs (card_links b))\<^sup>*"
    by (auto simp: set_descendants dest: rtranclD)
  with ne inv have "struct_ok (b\<lparr>card_links := card_links b @ [\<lparr>l_parent_id = p, l_child_id = c, l_created_at = now\<rparr>]\<rparr>)"
    by (intro struct_add_link) (simp_all add: board_inv_def)
  with inv ne(3) show ?thesis unfolding b'
    by (intro inv_record_event) (simp_all add: board_inv_def all_fields_ok_def queue_ok_def card_ids_def)
qed (use inv in simp)

section \<open>Creation and deletion\<close>

lemma inv_delete:
  assumes inv: "board_inv b" and P: "\<And>c. c \<in> set (cards b) \<Longrightarrow> P c \<Longrightarrow> c_claim_token c = None"
  shows "board_inv (delete_cards P b)"
proof -
  have s: "struct_ok b" "all_fields_ok b" "claims_ok (cards b) (card_runs b)"
    "queue_core (cards b) (card_commands b)" "queue_claims (cards b) (card_commands b)"
    "distinct (map c_id (cards b))"
    using inv by (auto simp: board_inv_def queue_ok_def struct_ok_def keys_ok_def)
  have "queue_core (cards (delete_cards P b)) (card_commands (delete_cards P b))"
    unfolding queue_core_def delete_cards_fields
  proof (intro conjI ballI impI)
    fix q assume q: "q \<in> set (filter (\<lambda>q. q_card_id q \<notin> c_id ` set (filter P (cards b))) (card_commands b))"
    then have q': "q \<in> set (card_commands b)" "q_card_id q \<notin> c_id ` set (filter P (cards b))" by auto
    show "turn_kind (q_kind q)" if "q_status q = Q_queued_for_next_turn \<or> q_claim_token q \<noteq> None"
      using s(4) q'(1) that unfolding queue_core_def by blast
    show "\<exists>c \<in> set (filter (\<lambda>c. \<not> P c) (cards b)). c_id c = q_card_id q \<and> c_execution_mode c = Voice"
      if t: "turn_kind (q_kind q)"
    proof -
      obtain c where c: "c \<in> set (cards b)" "c_id c = q_card_id q" "c_execution_mode c = Voice"
        using s(4) q'(1) t unfolding queue_core_def by blast
      with q'(2) have "\<not> P c" by force
      with c show ?thesis by auto
    qed
    show "q = q'" if "q' \<in> set (filter (\<lambda>q. q_card_id q \<notin> c_id ` set (filter P (cards b))) (card_commands b))"
      "unsettled_turn q" "unsettled_turn q'" "q_card_id q = q_card_id q'" for q'
      using s(4) q'(1) that unfolding queue_core_def by simp
  qed
  moreover have "queue_claims (cards (delete_cards P b)) (card_commands (delete_cards P b))"
    using s(5) unfolding queue_claims_def delete_cards_fields by auto
  moreover have "claims_ok (cards (delete_cards P b)) (card_runs (delete_cards P b))"
    unfolding delete_cards_fields using s(3,6) P by (rule claims_delete)
  ultimately show ?thesis
    using s struct_delete_cards [OF s(1)]
    by (simp add: board_inv_def queue_ok_def all_fields_ok_def delete_cards_fields)
qed

lemma delete_card_inv:
  assumes inv: "board_inv b" and op: "delete_card owner cid b = Inr (b', x)"
  shows "board_inv b'"
proof (cases "get_card owner b cid")
  case None
  with inv op show ?thesis by (simp add: delete_card_def)
next
  case (Some old)
  with op have u: "\<not> truthy (c_claim_token old)" and b': "b' = delete_cards (\<lambda>c. c_id c = cid) b"
    by (auto simp: delete_card_def ok_iffs)
  show ?thesis unfolding b' by (rule inv_delete [OF inv]) (use unclaimed_row [OF inv Some u] in blast)
qed

lemma delete_by_status_inv:
  assumes "board_inv b" "delete_by_status owner st b = Inr (b', x)"
  shows "board_inv b'"
  using assms by (auto simp: delete_by_status_def ok_iffs Let_def intro: inv_delete)

lemma new_card_ok:
  assumes "new_card digest owner now hex a = Inr (c, open_only)"
  shows "fields_ok c \<and> c_claim_token c = None \<and> c_lease_expires_at c = None \<and> c_heartbeat_at c = None
    \<and> c_voice_owner_uid c = owner_uid owner (c_execution_mode c)"
  using assms
  by (auto simp: new_card_def fields_ok_def ok_iffs Let_def
      dest: check_title_ok check_body_ok check_priority_ok check_max_attempts_ok)

lemma inv_insert_card:
  assumes inv: "board_inv b" and new: "insert_card c b = Inr b'"
    and c: "fields_ok c" "c_claim_token c = None" "c_lease_expires_at c = None" "c_heartbeat_at c = None"
  shows "board_inv b'"
proof -
  have b': "b' = b\<lparr>cards := cards b @ [c]\<rparr>" using new by (simp add: insert_card_Inr_iff)
  have "struct_ok b'" unfolding b'
    by (rule struct_insert_card) (use inv new in \<open>simp_all add: board_inv_def insert_card_Inr_iff card_ids_def\<close>)
  moreover have "queue_core (cards b @ [c]) (card_commands b)"
  proof (rule queue_core_cards [of "cards b"])
    show "queue_core (cards b) (card_commands b)" using inv by (simp add: board_inv_def queue_ok_def)
    show "\<exists>c' \<in> set (cards b @ [c]). c_id c' = c_id x \<and> c_execution_mode c' = Voice"
      if "x \<in> set (cards b)" "c_execution_mode x = Voice" for x
      using that by (intro bexI [of _ x]) simp_all
  qed
  moreover have "queue_claims (cards b @ [c]) (card_commands b)"
    using inv c(2) by (auto simp: board_inv_def queue_ok_def queue_claims_def)
  ultimately show ?thesis
    using inv c claims_add_card [of "cards b" "card_runs b" c]
    by (simp add: board_inv_def b' queue_ok_def all_fields_ok_def)
qed

lemma seed_inv:
  assumes inv: "board_inv b" and "seed_locked owner cid txt now b = Inr b'"
    and c: "c \<in> set (cards b)" "c_id c = cid" "c_execution_mode c = Voice"
  shows "board_inv b'"
  using assms
  by (auto simp: seed_locked_def ok_iffs new_command_def turn_kind_def unsettled_turn_def
      intro: inv_insert_command [where c = c])

lemma create_card_inv:
  assumes inv: "board_inv b" and c: "new_card digest owner now hex a = Inr (c, oo)"
    and op: "create_card owner now c oo b = Inr (b', x)"
  shows "board_inv b'"
proof -
  from op obtain b1 p where b1: "insert_card c b = Inr b1"
    and b': "seed_first owner now c oo (record_event (c_id c) ''created'' (c_created_by c) p now b1) = Inr b'"
    by (auto simp: create_card_def on_ok_Inr_iff returning_Inr_iff)
  have "board_inv b1" using inv_insert_card [OF inv b1] new_card_ok [OF c] by simp
  moreover have c1: "c \<in> set (cards b1)" using b1 by (auto simp: insert_card_Inr_iff)
  ultimately have "board_inv (record_event (c_id c) ''created'' (c_created_by c) p now b1)"
    by (intro inv_record_event) (auto simp: card_ids_def)
  with b' c1 show ?thesis by (auto simp: seed_first_def split: if_splits intro: seed_inv)
qed

lemma replay_card_same: "replay_card owner c old b = Inr (b', x) \<Longrightarrow> b' = b"
  by (auto simp: replay_card_def ok_iffs)

lemma add_card_cases:
  assumes "add_card digest owner now hex a b = Inr (b', x)"
  obtains (made) c oo where "new_card digest owner now hex a = Inr (c, oo)"
      "create_card owner now c oo b = Inr (b', x)"
      "c_idempotency_key c = [] \<or> row_with c_idempotency_key (c_idempotency_key c) (cards b) = None"
    | (replayed) c oo old where "new_card digest owner now hex a = Inr (c, oo)" "c_idempotency_key c \<noteq> []"
      "row_with c_idempotency_key (c_idempotency_key c) (cards b) = Some old"
      "replay_card owner c old b = Inr (b', x)"
proof -
  from assms obtain c oo where c: "new_card digest owner now hex a = Inr (c, oo)"
    and op: "(case (if c_idempotency_key c \<noteq> []
       then row_with c_idempotency_key (c_idempotency_key c) (cards b) else None) of
      Some old \<Rightarrow> replay_card owner c old b | None \<Rightarrow> create_card owner now c oo b) = Inr (b', x)"
    by (auto simp: add_card_def on_ok_Inr_iff)
  show thesis
  proof (cases "if c_idempotency_key c \<noteq> []
      then row_with c_idempotency_key (c_idempotency_key c) (cards b) else None")
    case None
    with op c show ?thesis by (intro made [of c oo]) (auto split: if_splits)
  next
    case (Some old)
    with op c show ?thesis by (intro replayed [of c oo old]) (auto split: if_splits)
  qed
qed

lemma add_card_inv:
  "board_inv b \<Longrightarrow> add_card digest owner now hex a b = Inr (b', x) \<Longrightarrow> board_inv b'"
  by (erule add_card_cases) (auto dest: create_card_inv replay_card_same)

end
