(* ===== verification/Board_Runs.thy ===== *)
theory Board_Runs
  imports Board_Steps
begin

text \<open>
  The claim protocol keeps the invariant: taking, renewing, finishing and recovering claims, with
  the delivery of the voice instruction a claim takes along.
\<close>

section \<open>The next instruction\<close>

lemma first_by_seq_None_iff: "first_by_seq P b = None \<longleftrightarrow> (\<forall>q \<in> set (card_commands b). \<not> P q)"
  by (auto simp: first_by_seq_def find_None_iff)

lemma first_by_seq_SomeD: "first_by_seq P b = Some q \<Longrightarrow> q \<in> set (card_commands b) \<and> P q"
  unfolding first_by_seq_def find_Some_iff by (metis nth_mem set_sort)

lemma last_by_seq_SomeD: "last_by_seq P b = Some q \<Longrightarrow> q \<in> set (card_commands b) \<and> P q"
  unfolding last_by_seq_def find_Some_iff by (metis nth_mem set_rev set_sort)

lemma require_card_Inr_iff [simp]: "require_card owner b cid = Inr u \<longleftrightarrow> id_visible owner b cid"
  by (simp add: require_card_def)

lemma get_card_visible: "get_card owner b cid = Some old \<Longrightarrow> id_visible owner b cid"
  by (auto simp: get_card_def id_visible_def split: option.splits if_splits)

lemma next_locked_iff:
  "next_locked owner b cid = Inr n \<longleftrightarrow> id_visible owner b cid
     \<and> n = (if (\<exists>q \<in> set (card_commands b). is_pending_stop cid q \<or> is_unsettled cid q) then None
            else first_by_seq (is_queued cid) b)"
  by (auto simp: next_locked_def pending_stop_locked_def on_ok_Inr_iff first_by_seq_None_iff
      some_command_def list_ex_iff split: if_splits dest!: first_by_seq_SomeD)

lemma next_lockedD:
  assumes "next_locked owner b cid = Inr (Some q)"
  shows "q \<in> set (card_commands b)" "is_queued cid q"
    "\<And>x. x \<in> set (card_commands b) \<Longrightarrow> unsettled_turn x \<Longrightarrow> q_card_id x \<noteq> cid"
    "\<And>x. x \<in> set (card_commands b) \<Longrightarrow> \<not> is_pending_stop cid x"
  using assms first_by_seq_SomeD [of "is_queued cid" b q]
  by (auto simp: next_locked_iff is_unsettled_iff split: if_splits)

section \<open>Taking a claim\<close>

lemma same_command: "struct_ok b \<Longrightarrow> x \<in> set (card_commands b) \<Longrightarrow> y \<in> set (card_commands b)
    \<Longrightarrow> q_command_id x = q_command_id y \<Longrightarrow> x = y"
  by (auto simp: struct_ok_def keys_ok_def distinct_map dest: inj_onD)

lemma queue_claims_take:
  assumes "queue_claims cs qs" "distinct (map c_id cs)" "c \<in> set cs"
    and P: "\<And>x. x \<in> set cs \<Longrightarrow> P x \<longleftrightarrow> x = c" and f: "c_id (f c) = c_id c" "c_claim_token (f c) = Some t"
    and old: "\<And>q. q \<in> set qs' \<Longrightarrow> q_card_id q \<noteq> c_id c \<Longrightarrow> q \<in> set qs"
    and new: "\<And>q. q \<in> set qs' \<Longrightarrow> q_card_id q = c_id c \<Longrightarrow> unsettled_turn q
      \<Longrightarrow> live_turn q \<and> q_claim_token q = Some t"
  shows "queue_claims (update_rows P f cs) qs'"
  unfolding queue_claims_def ball_update_rows
proof (intro ballI impI)
  fix x q
  assume x: "x \<in> set cs" "c_claim_token (updated P f x) \<noteq> None"
    and q: "q \<in> set qs'" "q_card_id q = c_id (updated P f x)" "unsettled_turn q"
  show "live_turn q \<and> q_claim_token q = c_claim_token (updated P f x)"
  proof (cases "x = c")
    case True
    with q P [OF x(1)] f new [OF q(1)] show ?thesis by simp
  next
    case False
    with x(1) assms(2,3) have "c_id x \<noteq> c_id c" by (metis distinct_map inj_onD)
    with False x q P [OF x(1)] old [OF q(1)] assms(1) show ?thesis unfolding queue_claims_def by simp
  qed
qed

text \<open>The board after a claim, with the instruction delivered along (if any).\<close>

definition claimed_board ::
    "card \<Rightarrow> (card \<Rightarrow> bool) \<Rightarrow> (card \<Rightarrow> card) \<Rightarrow> card_run \<Rightarrow> (card_command \<Rightarrow> bool)
      \<Rightarrow> (card_command \<Rightarrow> card_command) \<Rightarrow> board \<Rightarrow> board" where
  "claimed_board c P f r Q g b =
     update_commands Q g ((update_cards P f b)\<lparr>card_runs := card_runs b @ [r]\<rparr>)"

lemma claimed_board_struct:
  assumes inv: "board_inv b" and c: "c \<in> set (cards b)" and r: "r_card_id r = c_id c" "r_id r \<notin> r_id ` set (card_runs b)"
    and keys: "\<And>x. P x \<Longrightarrow> c_id (f x) = c_id x \<and> c_idempotency_key (f x) = c_idempotency_key x"
    and g: "\<And>q. Q q \<Longrightarrow> q_command_id (g q) = q_command_id q \<and> q_card_id (g q) = q_card_id q \<and> q_seq (g q) = q_seq q"
  shows "struct_ok (claimed_board c P f r Q g b)"
proof -
  have ids: "card_ids (update_cards P f b) = card_ids b" by (rule card_ids_update_cards) (simp add: keys)
  have "struct_ok (update_cards P f b)" using inv keys by (simp add: board_inv_def struct_update_cards)
  then have "struct_ok ((update_cards P f b)\<lparr>card_runs := card_runs (update_cards P f b) @ [r]\<rparr>)"
    by (rule struct_insert_run) (use c r ids in \<open>simp_all add: card_ids_def\<close>)
  then show ?thesis unfolding claimed_board_def using g by (simp add: struct_update_commands)
qed

lemma claimed_board_inv:
  assumes inv: "board_inv b" and c: "c \<in> set (cards b)" "c_claim_token c = None"
    and P: "\<And>x. x \<in> set (cards b) \<Longrightarrow> P x \<longleftrightarrow> x = c"
    and keys: "\<And>x. P x \<Longrightarrow> c_id (f x) = c_id x \<and> c_idempotency_key (f x) = c_idempotency_key x"
    and f: "c_claim_token (f c) = Some t" "t \<noteq> []" "c_status (f c) = STATUS_IN_PROGRESS"
      "c_lease_expires_at (f c) \<noteq> None" "c_heartbeat_at (f c) \<noteq> None" "c_execution_mode (f c) = c_execution_mode c"
      "fields_ok c \<longrightarrow> fields_ok (f c)"
    and r: "running_for (c_id c) t r" "r_id r \<notin> r_id ` set (card_runs b)"
    and g: "\<And>q. Q q \<Longrightarrow> q_command_id (g q) = q_command_id q \<and> q_card_id (g q) = q_card_id q \<and> q_seq (g q) = q_seq q"
    and core: "queue_core (cards b) (update_rows Q g (card_commands b))"
    and old: "\<And>q. q \<in> set (update_rows Q g (card_commands b)) \<Longrightarrow> q_card_id q \<noteq> c_id c \<Longrightarrow> q \<in> set (card_commands b)"
    and new: "\<And>q. q \<in> set (update_rows Q g (card_commands b)) \<Longrightarrow> q_card_id q = c_id c \<Longrightarrow> unsettled_turn q
      \<Longrightarrow> live_turn q \<and> q_claim_token q = Some t"
  shows "board_inv (claimed_board c P f r Q g b)"
proof -
  have parts: "claims_ok (cards b) (card_runs b)" "distinct (map c_id (cards b))" "all_fields_ok b"
      "queue_claims (cards b) (card_commands b)"
    using inv by (auto simp: board_inv_def struct_ok_def keys_ok_def queue_ok_def)
  have fc: "c_id (f c) = c_id c" using keys [of c] P [OF c(1)] by simp
  have "claims_ok (update_rows P f (cards b)) (card_runs b @ [r])"
    using parts(1,2) c P fc f(1-5) r(1) by (rule claims_take)
  moreover have "queue_claims (update_rows P f (cards b)) (update_rows Q g (card_commands b))"
    using parts(4,2) c(1) P fc f(1) old new by (rule queue_claims_take)
  moreover have "queue_core (update_rows P f (cards b)) (update_rows Q g (card_commands b))"
  proof (rule queue_core_cards [OF core])
    show "\<exists>c' \<in> set (update_rows P f (cards b)). c_id c' = c_id x \<and> c_execution_mode c' = Voice"
      if "x \<in> set (cards b)" "c_execution_mode x = Voice" for x
      using that P [of x] f(6) fc unfolding bex_update_rows by (intro bexI [of _ x]) auto
  qed
  moreover have "all_fields_ok (update_cards P f b)"
    using parts(3) by (rule all_fields_update_cards) (use P f(7) in blast)
  moreover have "r_card_id r = c_id c" using r(1) by (simp add: running_for_def)
  with inv c(1) have "struct_ok (claimed_board c P f r Q g b)"
    using r(2) keys g by (intro claimed_board_struct) auto
  ultimately show ?thesis
    by (simp add: board_inv_def queue_ok_def all_fields_ok_def claimed_board_def)
qed

definition delivers :: "card_command option \<Rightarrow> card_command \<Rightarrow> bool" where
  "delivers cmd x = (case cmd of None \<Rightarrow> False
     | Some q \<Rightarrow> q_command_id x = q_command_id q \<and> q_status x = Q_queued_for_next_turn)"

lemma update_commands_none: "update_commands (delivers None) g b = b"
  by (simp add: update_commands_def delivers_def update_rows_id)

lemma deliver_claim:
  "(case cmd of None \<Rightarrow> Inr b | Some q \<Rightarrow> claim_locked owner (q_command_id q) token now b) = Inr b'
    \<Longrightarrow> b' = update_commands (delivers cmd) (deliver token now) b"
proof (cases cmd)
  case (Some q)
  then show "?thesis" if "(case cmd of None \<Rightarrow> Inr b | Some q \<Rightarrow> claim_locked owner (q_command_id q) token now b) = Inr b'"
    using that by (auto simp: claim_locked_def on_ok_Inr_iff delivers_def [abs_def] )
qed (simp add: update_commands_none)

definition run_row :: "string \<Rightarrow> string \<Rightarrow> int \<Rightarrow> string \<Rightarrow> string \<Rightarrow> real \<Rightarrow> card_run" where
  "run_row run cid attempt worker token now =
     \<lparr>r_id = run, r_card_id = cid, r_attempt = attempt, r_profile = worker, r_claim_token = token,
      r_worker_run_id = None, r_status = Run_running, r_started_at = now, r_completed_at = None,
      r_error = None\<rparr>"

lemma guard_unique:
  assumes inv: "board_inv b" and row: "row \<in> set (cards b)" "c_id row = cid" "c_claim_token row = None"
    and x: "x \<in> set (cards b)"
  shows "claim_guard cid (row_view owner b row) x \<longleftrightarrow> x = row"
  using same_id [OF inv x row(1)] row by (auto simp: claim_guard_def)

lemma guard_count:
  assumes inv: "board_inv b" and row: "row \<in> set (cards b)" "c_id row = cid" "c_claim_token row = None"
  shows "row_count (claim_guard cid (row_view owner b row)) (cards b) = 1"
proof (rule row_count_unique)
  show "distinct (cards b)" using inv by (auto simp: board_inv_def struct_ok_def keys_ok_def distinct_map)
qed (use assms guard_unique in auto)

lemma claim_card_effect:
  assumes inv: "board_inv b" and op: "claim_card owner now h1 h2 cid w l ign b = Inr (b', x)"
  obtains (refused) "b' = b" "x = None"
    | (taken) row cmd p where "row \<in> set (cards b)" "c_id row = cid" "row_visible owner row"
      "c_claim_token row = None" "claimable_status (c_status row)" "\<not> blocked_by_parent b cid"
      "if c_execution_mode row = Voice then cmd \<noteq> None \<and> next_locked owner b cid = Inr cmd else cmd = None"
      "\<not> ign \<Longrightarrow> c_scheduled_at row = None \<or> the (c_scheduled_at row) \<le> now"
      "''board_run_'' @ h2 \<notin> r_id ` set (card_runs b)"
      "b' = record_event cid ''claimed'' (strip w) p now
         (claimed_board row (claim_guard cid (row_view owner b row))
           (take_claim now l (''board_run_'' @ h2) (''claim_'' @ h1) (c_attempt_count row + 1))
           (run_row (''board_run_'' @ h2) cid (c_attempt_count row + 1) (strip w) (''claim_'' @ h1) now)
           (delivers cmd) (deliver (''claim_'' @ h1) now) b)"
      "x = get_card_full owner b' cid"
proof (cases "get_card owner b cid")
  case None
  with op show ?thesis by (simp add: claim_card_def Let_def ok_iffs)
next
  case (Some old)
  from Some obtain row where row: "row \<in> set (cards b)" "c_id row = cid" "row_visible owner row"
    "old = row_view owner b row" by (rule get_card_SomeE)
  show ?thesis
  proof (cases "b' = b \<and> x = None")
    case True
    then show ?thesis by (intro refused) simp_all
  next
    case False
    from op Some False row(4) have r: "\<not> truthy (c_claim_token row)" "claimable_status (c_status row)"
      "\<not> (\<not> ign \<and> (case c_scheduled_at row of None \<Rightarrow> False | Some t \<Rightarrow> now < t))" "\<not> blocked_by_parent b cid"
      by (auto simp: claim_card_def Let_def ok_iffs simp del: truthy.simps split: if_splits)
    have none: "c_claim_token row = None" using no_token [OF inv row(1) r(1)] by simp
    note count = guard_count [OF inv row(1,2) none, of owner]
    from op Some False row(4) r obtain cmd b1 where
      cmd: "(if c_execution_mode row = Voice then next_locked owner b (c_id row) else Inr None) = Inr cmd"
      and voice: "\<not> (c_execution_mode row = Voice \<and> cmd = None)"
      and b1: "''board_run_'' @ h2 \<notin> r_id ` set (card_runs b)"
      and b': "(case cmd of None \<Rightarrow> Inr ((update_cards (claim_guard cid (row_view owner b row))
            (take_claim now l (''board_run_'' @ h2) (''claim_'' @ h1) (c_attempt_count row + 1)) b)
            \<lparr>card_runs := card_runs b @ [run_row (''board_run_'' @ h2) cid (c_attempt_count row + 1) (strip w) (''claim_'' @ h1) now]\<rparr>)
         | Some q \<Rightarrow> claim_locked owner (q_command_id q) (''claim_'' @ h1) now ((update_cards (claim_guard cid (row_view owner b row))
            (take_claim now l (''board_run_'' @ h2) (''claim_'' @ h1) (c_attempt_count row + 1)) b)
            \<lparr>card_runs := card_runs b @ [run_row (''board_run_'' @ h2) cid (c_attempt_count row + 1) (strip w) (''claim_'' @ h1) now]\<rparr>)) = Inr b1"
        "b' = record_event cid ''claimed'' (strip w) [(''runId'', JStr (''board_run_'' @ h2)), (''attempt'', JInt (c_attempt_count row + 1))] now b1"
        "x = get_card_full owner b' cid"
      by (auto simp: claim_card_def Let_def on_ok_Inr_iff update_cards_status_Inr_iff insert_run_Inr_iff
          run_row_def count simp del: truthy.simps split: if_splits)
    show ?thesis
    proof (rule taken [of row cmd "[(''runId'', JStr (''board_run_'' @ h2)), (''attempt'', JInt (c_attempt_count row + 1))]"])
      show "if c_execution_mode row = Voice then cmd \<noteq> None \<and> next_locked owner b cid = Inr cmd else cmd = None"
        using cmd voice row(2) by (auto split: if_splits)
      show "\<not> ign \<Longrightarrow> c_scheduled_at row = None \<or> the (c_scheduled_at row) \<le> now"
        using r(3) by (auto split: option.splits)
    qed (use row r none b1 b' deliver_claim [OF b'(1)] in \<open>simp_all add: claimed_board_def\<close>)
  qed
qed

lemma no_turns_of_background:
  assumes inv: "board_inv b" and c: "c \<in> set (cards b)" "c_execution_mode c \<noteq> Voice"
    and q: "q \<in> set (card_commands b)" "q_card_id q = c_id c"
  shows "\<not> turn_kind (q_kind q)"
proof
  assume "turn_kind (q_kind q)"
  with inv q obtain x where "x \<in> set (cards b)" "c_id x = c_id c" "c_execution_mode x = Voice"
    unfolding board_inv_def queue_ok_def queue_core_def by metis
  with c same_id [OF inv] show False by metis
qed

lemma delivers_unique:
  assumes "struct_ok b" "q \<in> set (card_commands b)" "is_queued cid q" "x \<in> set (card_commands b)"
  shows "delivers (Some q) x \<longleftrightarrow> x = q"
  using assms same_command [of b x q] by (auto simp: delivers_def is_queued_def)

lemma delivery_core:
  assumes inv: "board_inv b" and nx: "next_locked owner b cid = Inr (Some q)"
  shows "queue_core (cards b) (update_rows (delivers (Some q)) (deliver t now) (card_commands b))"
proof (rule queue_core_mark [where q = q])
  note d = next_lockedD [OF nx]
  show core: "queue_core (cards b) (card_commands b)" using inv by (simp add: board_inv_def queue_ok_def)
  show "q \<in> set (card_commands b)" by (rule d)
  then show "turn_kind (q_kind q)" using core d(2) unfolding queue_core_def is_queued_def by blast
  show "x \<in> set (card_commands b) \<Longrightarrow> delivers (Some q) x = (x = q)" for x
    using inv d(1,2) by (intro delivers_unique) (auto simp: board_inv_def)
  show "x \<in> set (card_commands b) \<Longrightarrow> unsettled_turn x \<Longrightarrow> q_card_id x \<noteq> q_card_id q" for x
    using d(2,3) by (simp add: is_queued_def)
qed (simp_all add: deliver_def)

lemma delivery_old:
  assumes inv: "board_inv b" and nx: "next_locked owner b cid = Inr (Some q)"
    and y: "y \<in> set (update_rows (delivers (Some q)) (deliver t now) (card_commands b))"
  shows "y \<in> set (card_commands b) \<and> y \<noteq> q \<or> y = deliver t now q"
proof -
  note d = next_lockedD [OF nx]
  have "struct_ok b" using inv by (simp add: board_inv_def)
  with y d(1,2) show ?thesis
    by (elim in_update_rowsE) (auto simp: delivers_unique)
qed

lemma delivery_new:
  assumes inv: "board_inv b" and nx: "next_locked owner b cid = Inr (Some q)"
    and y: "y \<in> set (update_rows (delivers (Some q)) (deliver t now) (card_commands b))"
      "q_card_id y = cid" "unsettled_turn y"
  shows "live_turn y \<and> q_claim_token y = Some t"
  using delivery_old [OF inv nx y(1)] next_lockedD(3) [OF nx] y(2,3)
  by (auto simp: deliver_def live_turn_def unsettled_turn_def)

lemma claim_card_inv:
  assumes inv: "board_inv b" and op: "claim_card owner now h1 h2 cid w l ign b = Inr (b', x)"
  shows "board_inv b'"
  using inv op
proof (cases rule: claim_card_effect)
  case (taken row cmd p)
  have "board_inv (claimed_board row (claim_guard cid (row_view owner b row))
           (take_claim now l (''board_run_'' @ h2) (''claim_'' @ h1) (c_attempt_count row + 1))
           (run_row (''board_run_'' @ h2) cid (c_attempt_count row + 1) (strip w) (''claim_'' @ h1) now)
           (delivers cmd) (deliver (''claim_'' @ h1) now) b)" (is "board_inv (claimed_board row ?P ?f ?r ?Q ?g b)")
  proof (rule claimed_board_inv [where t = "''claim_'' @ h1"])
    show "?P x \<longleftrightarrow> x = row" if "x \<in> set (cards b)" for x
      using guard_unique [OF inv taken(1,2,4) that] by simp
    show "queue_core (cards b) (update_rows ?Q ?g (card_commands b))"
    proof (cases cmd)
      case None
      then show ?thesis using inv by (simp add: update_rows_id delivers_def board_inv_def queue_ok_def)
    qed (use taken(7) in \<open>auto intro: delivery_core [OF inv] split: if_splits\<close>)
    show "y \<in> set (card_commands b)"
      if "y \<in> set (update_rows ?Q ?g (card_commands b))" "q_card_id y \<noteq> c_id row" for y
    proof (cases cmd)
      case None
      then show ?thesis using that(1) by (simp add: update_rows_id delivers_def)
    next
      case (Some q)
      with taken(7) have n: "next_locked owner b cid = Inr (Some q)" by (auto split: if_splits)
      then show ?thesis
        using delivery_old [OF inv n that(1) [unfolded Some]] next_lockedD(2) [OF n] that(2) taken(2)
        by (auto simp: deliver_def is_queued_def)
    qed
    show "live_turn y \<and> q_claim_token y = Some (''claim_'' @ h1)"
      if "y \<in> set (update_rows ?Q ?g (card_commands b))" "q_card_id y = c_id row" "unsettled_turn y" for y
    proof (cases cmd)
      case None
      then have "y \<in> set (card_commands b)" using that(1) by (simp add: update_rows_id delivers_def)
      with None taken(1,7) that have False
        using no_turns_of_background [OF inv, of row y] by (auto simp: unsettled_turn_def split: if_splits)
      then show ?thesis ..
    next
      case (Some q)
      with taken(7) have n: "next_locked owner b cid = Inr (Some q)" by (auto split: if_splits)
      show ?thesis
        by (rule delivery_new [OF inv n that(1) [unfolded Some]]) (use that taken(2) in simp_all)
    qed
  qed (use inv taken in \<open>auto simp: take_claim_def fields_ok_def run_row_def running_for_def deliver_def\<close>)
  then show ?thesis unfolding taken(10) using taken(1,2)
    by (intro inv_record_event) (auto simp: card_ids_def claimed_board_def image_update_rows)
qed (use inv in simp)

section \<open>Renewing a claim\<close>

lemma heartbeat_claim_inv:
  assumes inv: "board_inv b" and op: "heartbeat_claim owner now cid t l b = Inr (b', x)"
  shows "board_inv b'"
proof (cases "b' = b")
  case False
  with op obtain old rp st where old: "get_card owner b cid = Some old"
    and b': "b' = update_cards (holds_claim cid t) (beat_row now l rp) b
      \<or> b' = repaired_event cid ''worker'' st now (update_cards (holds_claim cid t) (beat_row now l rp) b)"
    by (auto simp: heartbeat_claim_def Let_def statement_iffs split: option.splits if_splits)
  have "board_inv (update_cards (holds_claim cid t) (beat_row now l rp) b)"
    using token_running [OF inv]
    by (intro inv_edit inv) (auto simp: keeps_claim_def beat_row_def fields_ok_def holds_claim_def)
  with b' get_card_id [OF old] show ?thesis by (auto intro: inv_repaired_event simp: card_ids_update_cards)
qed (use inv in simp)

lemma applied_locked_inv:
  assumes inv: "board_inv b" and op: "applied_locked owner cid t wid now b = Inr b'"
  shows "board_inv b'"
proof (cases "b' = b")
  case False
  with op obtain q p where q: "find (\<lambda>q. q_card_id q = cid \<and> q_claim_token q = Some t \<and> q_status q = Q_delivering)
      (card_commands b) = Some q" and vis: "id_visible owner b cid"
    and b': "b' = record_event cid ''command_applied'' ''worker'' p now
      (update_commands (\<lambda>x. q_command_id x = q_command_id q) (apply_to wid now) b)"
    by (auto simp: applied_locked_def on_ok_Inr_iff split: option.splits)
  from q have q': "q \<in> set (card_commands b)" "q_claim_token q = Some t" "q_status q = Q_delivering"
    by (auto simp: find_Some_iff)
  then have "turn_kind (q_kind q)" using inv unfolding board_inv_def queue_ok_def queue_core_def by auto
  with q' have u: "unsettled_turn q" by (simp add: unsettled_turn_def)
  have one: "x = q" if "x \<in> set (card_commands b)" "q_command_id x = q_command_id q" for x
    using inv that q'(1) same_command by (auto simp: board_inv_def)
  have "board_inv (update_commands (\<lambda>x. q_command_id x = q_command_id q) (apply_to wid now) b)"
    using u by (intro inv_calm inv)
      (auto simp: apply_to_def calms_def live_turn_def unsettled_turn_def dest!: one)
  moreover have "cid \<in> card_ids b" using vis row_with_SomeD [of c_id cid "cards b"]
    by (auto simp: id_visible_def card_row_def card_ids_def split: option.splits)
  ultimately show ?thesis unfolding b' by (intro inv_record_event) simp_all
qed (use inv in simp)

lemma set_worker_run_id_inv:
  assumes inv: "board_inv b" and op: "set_worker_run_id owner now cid t w b = Inr (b', x)"
  shows "board_inv b'"
proof (cases "get_card owner b cid")
  case None
  with op inv show ?thesis by (auto simp: set_worker_run_id_def Let_def ok_iffs)
next
  case (Some old)
  let ?b1 = "update_cards (holds_claim cid t) (worker_row now (strip w) (c_status old \<noteq> STATUS_IN_PROGRESS)) b"
  let ?b2 = "update_runs (\<lambda>r. r_card_id r = cid \<and> r_claim_token r = t) (\<lambda>r. r\<lparr>r_worker_run_id := Some (strip w)\<rparr>) ?b1"
  have i1: "board_inv ?b1" using token_running [OF inv]
    by (intro inv_edit inv) (auto simp: keeps_claim_def worker_row_def fields_ok_def holds_claim_def)
  then have i2: "board_inv ?b2" by (intro inv_run_note) auto
  have ids: "cid \<in> card_ids ?b1" using get_card_id [OF Some] by (simp add: card_ids_update_cards)
  have keep: "card_ids b3 = card_ids b2" if "applied_locked owner cid t (strip w) now b2 = Inr b3" for b2 b3
    using that by (auto simp: applied_locked_def on_ok_Inr_iff split: option.splits)
  from op Some consider "b' = b" | "b' = ?b1"
    | b3 where "(if c_execution_mode old = Voice then applied_locked owner cid t (strip w) now ?b2 else Inr ?b2) = Inr b3"
        "b' = b3 \<or> (\<exists>st. b' = repaired_event cid ''worker'' st now b3)"
    by (auto simp: set_worker_run_id_def Let_def statement_iffs split: if_splits)
  then show ?thesis
  proof cases
    case 3
    then have "board_inv b3" "cid \<in> card_ids b3"
      using applied_locked_inv [OF i2] i2 ids keep [of ?b2 b3] by (auto split: if_splits)
    with 3(2) show ?thesis by (auto intro: inv_repaired_event)
  qed (use inv i1 in simp_all)
qed

section \<open>Settling the queue of a finished claim\<close>

text \<open>What finishing a claim makes of the commands table: other cards' instructions stay, none of
  this card's turns stays live, and at most one stays unsettled.\<close>

definition settles :: "card \<Rightarrow> board \<Rightarrow> board \<Rightarrow> bool" where
  "settles c b b' \<longleftrightarrow> b' = b\<lparr>card_commands := card_commands b'\<rparr> \<and> struct_ok b'
     \<and> queue_core (cards b) (card_commands b')
     \<and> (\<forall>q \<in> set (card_commands b'). q_card_id q \<noteq> c_id c \<longrightarrow> q \<in> set (card_commands b))
     \<and> (\<forall>q \<in> set (card_commands b'). q_card_id q = c_id c \<longrightarrow> \<not> live_turn q)"

lemma command_outcome_settled [simp]:
  "command_outcome x \<noteq> Q_queued_for_next_turn" "command_outcome x \<noteq> Q_delivering"
  "command_outcome x \<noteq> Q_applied" "command_outcome x \<noteq> Q_status_unknown"
  "Q_queued_for_next_turn \<noteq> command_outcome x" "Q_delivering \<noteq> command_outcome x"
  "Q_applied \<noteq> command_outcome x" "Q_status_unknown \<noteq> command_outcome x"
  by (cases x; simp)+

lemma unsettled_in_flight:
  assumes inv: "board_inv b" and c: "row \<in> set (cards b)" "c_id c = c_id row" "c_claim_token c = c_claim_token row"
      "c_claim_token row \<noteq> None"
    and q: "q \<in> set (card_commands b)" "q_card_id q = c_id c"
  shows "unsettled_turn q \<longleftrightarrow> in_flight c q"
proof
  assume u: "unsettled_turn q"
  then have "live_turn q \<and> q_claim_token q = c_claim_token row"
    using inv c q unfolding board_inv_def queue_ok_def queue_claims_def by simp
  with c q show "in_flight c q" by (auto simp: in_flight_def token_matches_def live_turn_def)
next
  assume f: "in_flight c q"
  then have "q_claim_token q \<noteq> None" using c by (auto simp: in_flight_def token_matches_def)
  then have "turn_kind (q_kind q)" using inv q(1) unfolding board_inv_def queue_ok_def queue_core_def by blast
  with f show "unsettled_turn q" by (auto simp: in_flight_def unsettled_turn_def)
qed

lemma settle_in_flight_settles:
  assumes inv: "board_inv b" and c: "row \<in> set (cards b)" "c_id c = c_id row" "c_claim_token c = c_claim_token row"
      "c_claim_token row \<noteq> None"
    and st: "st = Q_status_unknown \<or> st = command_outcome oc"
  shows "settles c b (settle_in_flight c st now b)"
proof -
  let ?b = "settle_in_flight c st now b"
  have flight: "q_card_id q = c_id c" if "in_flight c q" for q using that by (simp add: in_flight_def)
  have turn: "unsettled_turn q" if "q \<in> set (card_commands b)" "in_flight c q" for q
    using unsettled_in_flight [OF inv c that(1) flight [OF that(2)]] that(2) by simp
  have "struct_ok ?b" using inv
    by (simp add: settle_in_flight_def set_command_status_def struct_update_commands board_inv_def)
  moreover have "queue_core (cards b) (card_commands ?b)"
    unfolding settle_in_flight_def update_commands_fields
    using inv turn st by (intro queue_core_calm)
      (auto simp: board_inv_def queue_ok_def calms_def set_command_status_def)
  moreover have "\<not> live_turn q" if "q \<in> set (card_commands ?b)" "q_card_id q = c_id c" for q
    using that st unsettled_in_flight [OF inv c] live_unsettled
    by (auto simp: settle_in_flight_def set_command_status_def live_turn_def elim!: in_update_rowsE)
  moreover have "q \<in> set (card_commands b)" if "q \<in> set (card_commands ?b)" "q_card_id q \<noteq> c_id c" for q
    using that by (auto simp: settle_in_flight_def set_command_status_def in_flight_def elim!: in_update_rowsE)
  moreover have "?b = b\<lparr>card_commands := card_commands ?b\<rparr>"
    by (simp add: settle_in_flight_def update_commands_def)
  ultimately show ?thesis unfolding settles_def by blast
qed

lemma settles_calm:
  assumes s: "settles c b b1" and P: "\<And>q. q \<in> set (card_commands b1) \<Longrightarrow> P q \<Longrightarrow> q_card_id q = c_id c"
    and calm: "\<And>q. P q \<Longrightarrow> calms q (g q) \<and> q_command_id (g q) = q_command_id q \<and> q_seq (g q) = q_seq q"
    and dead: "\<And>q. P q \<Longrightarrow> \<not> live_turn (g q)"
  shows "settles c b (update_commands P g b1)"
proof -
  have "queue_core (cards b) (update_rows P g (card_commands b1))"
    using s calm by (intro queue_core_calm) (auto simp: settles_def)
  moreover have "struct_ok (update_commands P g b1)"
    using s calm by (simp add: settles_def struct_update_commands calms_def)
  moreover have "q \<in> set (card_commands b)"
    if "q \<in> set (update_rows P g (card_commands b1))" "q_card_id q \<noteq> c_id c" for q
    using that s P calm by (elim in_update_rowsE) (auto simp: settles_def calms_def)
  moreover have "\<not> live_turn q"
    if "q \<in> set (update_rows P g (card_commands b1))" "q_card_id q = c_id c" for q
    using that s dead by (elim in_update_rowsE) (auto simp: settles_def)
  moreover have "update_commands P g b1 = b\<lparr>card_commands := card_commands (update_commands P g b1)\<rparr>"
    using s unfolding settles_def update_commands_def by (metis (no_types, lifting) board.update_convs(6) board.select_convs(6) board.surjective)
  ultimately show ?thesis unfolding settles_def by simp
qed

lemma seq_unique: "struct_ok b \<Longrightarrow> x \<in> set (card_commands b) \<Longrightarrow> y \<in> set (card_commands b)
    \<Longrightarrow> q_seq x = q_seq y \<Longrightarrow> x = y"
proof -
  assume "struct_ok b" "x \<in> set (card_commands b)" "y \<in> set (card_commands b)" "q_seq x = q_seq y"
  moreover from this have "distinct (map q_seq (card_commands b))"
    by (auto simp: struct_ok_def seqs_ok_def strict_sorted_iff)
  ultimately show "x = y" by (auto simp: distinct_map dest: inj_onD)
qed

lemma mark_unverified_settles:
  assumes inv: "board_inv b" and s: "settles c b b1"
    and idle: "\<And>q. q \<in> set (card_commands b1) \<Longrightarrow> q_card_id q = c_id c \<Longrightarrow> \<not> unsettled_turn q"
  shows "settles c b (mark_unverified c now b1)"
proof (cases "last_by_seq (verified_turn c) b1")
  case None
  with s show ?thesis by (simp add: mark_unverified_def)
next
  case (Some m)
  let ?P = "\<lambda>q. q_seq q = q_seq m" and ?g = "set_command_status Q_status_unknown now"
  have m: "m \<in> set (card_commands b1)" "q_card_id m = c_id c" "turn_kind (q_kind m)"
    using last_by_seq_SomeD [OF Some] by (auto simp: verified_turn_def)
  have st: "struct_ok b1" using s by (simp add: settles_def)
  have one: "?P x \<longleftrightarrow> x = m" if "x \<in> set (card_commands b1)" for x
    using seq_unique [OF st that m(1)] by blast
  have "queue_core (cards b) (update_rows ?P ?g (card_commands b1))"
    by (rule queue_core_mark [where q = m]) (use s m one idle in \<open>auto simp: settles_def set_command_status_def\<close>)
  moreover have "struct_ok (update_commands ?P ?g b1)"
    using st by (simp add: struct_update_commands set_command_status_def)
  moreover have "q \<in> set (card_commands b)"
    if "q \<in> set (update_rows ?P ?g (card_commands b1))" "q_card_id q \<noteq> c_id c" for q
    using that s m one by (elim in_update_rowsE) (auto simp: settles_def set_command_status_def)
  moreover have "\<not> live_turn q"
    if "q \<in> set (update_rows ?P ?g (card_commands b1))" "q_card_id q = c_id c" for q
    using that s by (elim in_update_rowsE) (auto simp: settles_def set_command_status_def live_turn_def)
  moreover have "update_commands ?P ?g b1 = b\<lparr>card_commands := card_commands (update_commands ?P ?g b1)\<rparr>"
    using s unfolding settles_def update_commands_def by (metis (no_types, lifting) board.update_convs(6) board.select_convs(6) board.surjective)
  ultimately show ?thesis unfolding settles_def mark_unverified_def Some by simp
qed

lemma finish_locked_settles:
  assumes inv: "board_inv b" and c: "row \<in> set (cards b)" "c_id c = c_id row" "c_claim_token c = c_claim_token row"
      "c_claim_token row \<noteq> None"
    and op: "finish_locked owner c oc now unc b = Inr (b', h)"
  shows "settles c b b'"
proof -
  let ?st = "if unc then Q_status_unknown else command_outcome oc"
  let ?b1 = "settle_in_flight c ?st now b"
  let ?b2 = "if unc \<and> row_count (in_flight c) (card_commands b) = 0 then mark_unverified c now ?b1 else ?b1"
  have s1: "settles c b ?b1" by (rule settle_in_flight_settles [OF inv c]) auto
  have idle: "\<not> unsettled_turn q"
    if "row_count (in_flight c) (card_commands b) = 0" "q \<in> set (card_commands ?b1)" "q_card_id q = c_id c" for q
  proof -
    have none: "\<not> in_flight c x" if "x \<in> set (card_commands b)" for x
      using \<open>row_count _ _ = 0\<close> that row_count_pos [of "in_flight c" "card_commands b"] by auto
    then have "card_commands ?b1 = card_commands b" by (simp add: settle_in_flight_def update_rows_id)
    with none that(2,3) unsettled_in_flight [OF inv c] show ?thesis by auto
  qed
  have s2: "settles c b ?b2"
  proof (cases "unc \<and> row_count (in_flight c) (card_commands b) = 0")
    case True
    then have "settles c b (mark_unverified c now ?b1)"
      by (intro mark_unverified_settles [OF inv s1] idle) blast+
    with True show ?thesis by simp
  qed (use s1 in auto)
  have "settles c b (hold_queue (c_id c) now ?b2)" unfolding hold_queue_def
    by (rule settles_calm [OF s2])
      (auto simp: is_queued_def calms_def set_command_status_def unsettled_turn_def live_turn_def)
  with s2 op show ?thesis
    by (auto simp: finish_locked_def Let_def on_ok_Inr_iff split: if_splits)
qed

section \<open>Releasing a claim\<close>

lemma queue_claims_release:
  assumes "queue_claims cs qs" "distinct (map c_id cs)" "c \<in> set cs"
    and P: "\<And>x. x \<in> set cs \<Longrightarrow> P x \<longleftrightarrow> x = c" and f: "c_id (f c) = c_id c" "c_claim_token (f c) = None"
    and old: "\<And>q. q \<in> set qs' \<Longrightarrow> q_card_id q \<noteq> c_id c \<Longrightarrow> q \<in> set qs"
  shows "queue_claims (update_rows P f cs) qs'"
  unfolding queue_claims_def ball_update_rows
proof (intro ballI impI)
  fix x q
  assume x: "x \<in> set cs" "c_claim_token (updated P f x) \<noteq> None"
    and q: "q \<in> set qs'" "q_card_id q = c_id (updated P f x)" "unsettled_turn q"
  then have ne: "x \<noteq> c" using P f by auto
  with x(1) assms(2,3) have "c_id x \<noteq> c_id c" by (metis distinct_map inj_onD)
  with ne x q P [OF x(1)] old [OF q(1)] assms(1) show "live_turn q \<and> q_claim_token q = c_claim_token (updated P f x)"
    unfolding queue_claims_def by simp
qed

text \<open>A card row \<open>row\<close> holding the claim \<open>t\<close> is released by \<open>f\<close> and its attempts are closed by
  \<open>h\<close>; \<open>b1\<close> is the board with its instructions settled, or the board itself.\<close>

lemma release_inv:
  assumes inv: "board_inv b" and row: "row \<in> set (cards b)" "c_claim_token row = Some t"
    and b1: "settles row b b1 \<or> b1 = b"
    and P: "\<And>x. x \<in> set (cards b) \<Longrightarrow> P x \<longleftrightarrow> x = row"
    and f: "\<And>x. c_id (f x) = c_id x \<and> c_idempotency_key (f x) = c_idempotency_key x
        \<and> c_execution_mode (f x) = c_execution_mode x
        \<and> c_claim_token (f x) = None \<and> c_lease_expires_at (f x) = None \<and> c_heartbeat_at (f x) = None"
      "fields_ok row \<longrightarrow> fields_ok (f row)"
    and Q: "\<And>r. r \<in> set (card_runs b) \<Longrightarrow> Q r \<longleftrightarrow> r_card_id r = c_id row \<and> r_claim_token r = t"
    and h: "\<And>r. r_status (h r) \<noteq> Run_running \<and> r_id (h r) = r_id r \<and> r_card_id (h r) = r_card_id r"
  shows "board_inv (update_runs Q h (update_cards P f b1))"
proof -
  have p: "claims_ok (cards b) (card_runs b)" "distinct (map c_id (cards b))" "all_fields_ok b"
      "queue_claims (cards b) (card_commands b)" "queue_core (cards b) (card_commands b)" "struct_ok b"
    using inv by (auto simp: board_inv_def struct_ok_def keys_ok_def queue_ok_def)
  have b1': "cards b1 = cards b" "card_runs b1 = card_runs b" "struct_ok b1"
      "queue_core (cards b) (card_commands b1)"
      "\<And>q. q \<in> set (card_commands b1) \<Longrightarrow> q_card_id q \<noteq> c_id row \<Longrightarrow> q \<in> set (card_commands b)"
    using b1 p unfolding settles_def by (auto elim: ssubst)
  have P': "P x \<longleftrightarrow> holds_claim (c_id row) t x" if "x \<in> set (cards b)" for x
    using P [OF that] row that same_id [OF inv that row(1)] by (auto simp: holds_claim_def)
  have "claims_ok (update_rows P f (cards b)) (update_rows Q h (card_runs b))"
    using p(1) P' Q f(1) h by (intro claims_release) auto
  moreover have "queue_claims (update_rows P f (cards b)) (card_commands b1)"
    by (rule queue_claims_release [OF p(4) p(2) row(1) P]) (use f b1'(5) in auto)
  moreover have "queue_core (update_rows P f (cards b)) (card_commands b1)"
  proof (rule queue_core_cards [OF b1'(4)])
    show "\<exists>c' \<in> set (update_rows P f (cards b)). c_id c' = c_id x \<and> c_execution_mode c' = Voice"
      if "x \<in> set (cards b)" "c_execution_mode x = Voice" for x
      using that f(1) [of x] unfolding bex_update_rows by (intro bexI [of _ x]) auto
  qed
  moreover have "struct_ok (update_runs Q h (update_cards P f b1))"
    using b1'(3) f(1) h by (simp add: struct_update_runs struct_update_cards)
  moreover have "\<forall>x \<in> set (update_rows P f (cards b)). fields_ok x"
    unfolding ball_update_rows using p(3) P f(2) row(1) by (auto simp: all_fields_ok_def)
  ultimately show ?thesis
    by (simp add: board_inv_def queue_ok_def all_fields_ok_def b1')
qed

lemma settles_view: "settles (row_view owner b c) b b' = settles c b b'"
  by (simp add: settles_def)

lemma finish_claim_effect:
  assumes "finish_claim owner now cid t oc res err delay actor unc b = Inr (b', x)"
  obtains row outcome b1 st p where "row \<in> set (cards b)" "c_id row = cid" "row_visible owner row"
    "c_claim_token row = Some t" "parse_outcome oc = Some outcome"
    "finish_turns owner (row_view owner b row) outcome now unc b = Inr (b1, st)"
    "b' = failure_note cid outcome (map_option (take MAX_ERROR_CHARS) err) now
         (record_event cid ''run_finished'' actor p now
           (update_runs (\<lambda>r. r_card_id r = cid \<and> r_claim_token r = t)
             (close_run (Run_finished outcome) (map_option (take MAX_ERROR_CHARS) err) now)
             (update_cards (holds_claim cid t) (release_claim st (map_option (take MAX_RESULT_CHARS) res)
                (map_option (take MAX_ERROR_CHARS) err) (retry_time outcome st now delay) now) b1)))"
    "get_card_full owner b' cid = Some x"
proof -
  from assms obtain old outcome b1 st where old: "get_card owner b cid = Some old" "c_claim_token old = Some t"
    and oc: "parse_outcome oc = Some outcome" "finish_turns owner old outcome now unc b = Inr (b1, st)"
    and op: "on_ok (update_cards_status (holds_claim cid t) (release_claim st (map_option (take MAX_RESULT_CHARS) res)
                (map_option (take MAX_ERROR_CHARS) err) (retry_time outcome st now delay) now) b1) (\<lambda>b2.
      returning owner cid (failure_note cid outcome (map_option (take MAX_ERROR_CHARS) err) now
        (record_event cid ''run_finished'' actor
           [(''outcome'', JStr (outcome_text outcome)), (''status'', JStr (status_text st)),
            (''attempt'', JInt (c_attempt_count old))] now
           (update_runs (\<lambda>r. r_card_id r = cid \<and> r_claim_token r = t)
             (close_run (Run_finished outcome) (map_option (take MAX_ERROR_CHARS) err) now) b2)))) = Inr (b', x)"
    by (auto simp: finish_claim_def ok_iffs Let_def)
  from old(1) obtain row where "row \<in> set (cards b)" "c_id row = cid" "row_visible owner row"
    "old = row_view owner b row" by (rule get_card_SomeE)
  with that [of row outcome b1 st] old oc op show thesis
    by (simp add: statement_iffs returning_Inr_iff)
qed

lemma finish_turns_settles:
  assumes inv: "board_inv b" and row: "row \<in> set (cards b)" "c_claim_token row = Some t"
    and op: "finish_turns owner (row_view owner b row) oc now unc b = Inr (b1, st)"
  shows "settles row b b1 \<or> b1 = b"
  using op finish_locked_settles [OF inv row(1), of "row_view owner b row" owner oc now unc b1] row(2)
  by (auto simp: finish_turns_def on_ok_Inr_iff settles_view split: if_splits)

lemma finish_claim_inv:
  assumes inv: "board_inv b" and op: "finish_claim owner now cid t oc res err delay actor unc b = Inr (b', x)"
  shows "board_inv b'"
  using op
proof (rule finish_claim_effect)
  fix row outcome b1 st p
  assume row: "row \<in> set (cards b)" "c_id row = cid" "c_claim_token row = Some t"
    and turns: "finish_turns owner (row_view owner b row) outcome now unc b = Inr (b1, st)"
    and b': "b' = failure_note cid outcome (map_option (take MAX_ERROR_CHARS) err) now
         (record_event cid ''run_finished'' actor p now
           (update_runs (\<lambda>r. r_card_id r = cid \<and> r_claim_token r = t)
             (close_run (Run_finished outcome) (map_option (take MAX_ERROR_CHARS) err) now)
             (update_cards (holds_claim cid t) (release_claim st (map_option (take MAX_RESULT_CHARS) res)
                (map_option (take MAX_ERROR_CHARS) err) (retry_time outcome st now delay) now) b1)))"
      (is "b' = failure_note _ _ _ _ (record_event _ _ _ _ _ ?b2)")
  have "board_inv ?b2"
    by (rule release_inv [OF inv row(1,3) finish_turns_settles [OF inv row(1,3) turns]])
      (use row same_id [OF inv] in \<open>auto simp: holds_claim_def release_claim_def close_run_def fields_ok_def\<close>)
  moreover have "cid \<in> card_ids ?b2"
    using finish_turns_settles [OF inv row(1,3) turns] row
    by (auto simp: card_ids_update_cards settles_def card_ids_def image_update_rows elim: ssubst)
  ultimately show ?thesis unfolding b' failure_note_def
    by (auto intro!: inv_insert_note inv_record_event)
qed

section \<open>Recovery\<close>

text \<open>A row the recovery loops fetched is still the table's row when its turn comes: the loop
  has changed other cards only.\<close>

lemma row_to_card_Inr_iff: "row_to_card owner b row = Inr c \<longleftrightarrow> row_visible owner row \<and> c = row_view owner b row"
  by (auto simp: row_to_card_def)

lemma recover_one_inv:
  assumes inv: "board_inv b" and row: "row \<in> set (cards b)" "c_claim_token row = Some t"
    and op: "recover_one owner now row b = Inr b'"
  shows "board_inv b'"
proof -
  let ?c = "row_view owner b row"
  have same: "same_claim ?c x \<longleftrightarrow> x = row" if "x \<in> set (cards b)" for x
    using same_id [OF inv that row(1)] row by (auto simp: same_claim_def token_matches_def)
  show ?thesis
  proof (cases "lease_live now ?c")
    case True
    with op obtain run st where b': "b' = repaired_event (c_id row) ''system'' st now
        (update_cards (same_claim ?c) (restore_row now run) b)"
      by (auto simp: recover_one_def statement_iffs row_to_card_Inr_iff)
    have "board_inv (update_cards (same_claim ?c) (restore_row now run) b)"
      using token_running [OF inv row] same
      by (intro inv_edit inv) (auto simp: keeps_claim_def restore_row_def fields_ok_def)
    then show ?thesis unfolding b'
      by (rule inv_repaired_event) (use row in \<open>simp add: card_ids_def image_update_rows\<close>)
  next
    case False
    with op obtain b1 p where fin: "(if c_execution_mode row = Voice
          then on_ok (finish_locked owner ?c O_failed now True b) (\<lambda>(b1, _). Inr b1) else Inr b) = Inr b1"
      and b': "b' = record_event (c_id row) ''lease_expired'' ''system'' p now
        (update_runs (\<lambda>r. r_card_id r = c_id row \<and> token_matches (Some (r_claim_token r)) (c_claim_token row))
          (close_run Run_expired (Some ''worker lease expired'') now)
          (update_cards (same_claim ?c) (expire_row now (expired_status ?c)) b1))" (is "b' = record_event _ _ _ _ _ ?b2")
      by (auto simp: recover_one_def statement_iffs row_to_card_Inr_iff)
    have s: "settles row b b1 \<or> b1 = b"
      using fin finish_locked_settles [OF inv row(1), of ?c owner O_failed now True b1] row(2)
      by (auto simp: on_ok_Inr_iff settles_view split: if_splits)
    have "board_inv ?b2"
      by (rule release_inv [OF inv row s same])
        (use row in \<open>auto simp: expire_row_def close_run_def fields_ok_def token_matches_def MAX_ERROR_CHARS_def\<close>)
    moreover have "c_id row \<in> card_ids ?b2" using s row
      by (auto simp: settles_def card_ids_def image_update_rows elim: ssubst)
    ultimately show ?thesis unfolding b' by (rule inv_record_event)
  qed
qed

lemma finish_locked_cards: "finish_locked owner c oc now unc b = Inr (b1, h) \<Longrightarrow> cards b1 = cards b"
  by (auto simp: finish_locked_def settle_in_flight_def mark_unverified_def hold_queue_def Let_def
      on_ok_Inr_iff split: if_splits option.splits)

lemma recover_one_others:
  assumes op: "recover_one owner now row b = Inr b'" and x: "x \<in> set (cards b)" "c_id x \<noteq> c_id row"
  shows "x \<in> set (cards b')"
proof -
  let ?P = "same_claim (row_view owner b row)"
  from op have "\<exists>f. cards b' = update_rows ?P f (cards b)"
  proof (cases "lease_live now (row_view owner b row)")
    case False
    with op show ?thesis
      by (fastforce simp: recover_one_def statement_iffs row_to_card_Inr_iff split: if_splits
          dest!: finish_locked_cards)
  qed (fastforce simp: recover_one_def statement_iffs row_to_card_Inr_iff)
  then obtain f where "cards b' = update_rows ?P f (cards b)" ..
  moreover have "\<not> ?P x" using x(2) by (simp add: same_claim_def)
  ultimately show ?thesis using x(1) by (simp add: set_update_rows)
qed

lemma recover_rest:
  assumes op: "recover_one owner now row b = Inr b1" and d: "distinct (map c_id (row # rows))"
    and sub: "set (row # rows) \<subseteq> set (cards b)"
  shows "set rows \<subseteq> set (cards b1)"
proof
  fix x assume x: "x \<in> set rows"
  then have "c_id x \<in> c_id ` set rows" by (rule imageI)
  with d have "c_id x \<noteq> c_id row" by auto
  with x sub show "x \<in> set (cards b1)" by (intro recover_one_others [OF op]) auto
qed

lemma recover_rows_inv:
  "board_inv b \<Longrightarrow> recover_rows owner now rows b = Inr b' \<Longrightarrow> distinct (map c_id rows)
    \<Longrightarrow> set rows \<subseteq> set (cards b) \<Longrightarrow> (\<And>r. r \<in> set rows \<Longrightarrow> c_claim_token r \<noteq> None) \<Longrightarrow> board_inv b'"
proof (induction rows arbitrary: b)
  case (Cons row rows)
  from Cons.prems(2) obtain b1 where b1: "recover_one owner now row b = Inr b1" "recover_rows owner now rows b1 = Inr b'"
    by (auto simp: on_ok_Inr_iff)
  from Cons.prems(4) Cons.prems(5) [of row] obtain t where t: "row \<in> set (cards b)" "c_claim_token row = Some t"
    by auto
  have "board_inv b1" using recover_one_inv [OF Cons.prems(1) t b1(1)] .
  moreover have "set rows \<subseteq> set (cards b1)" using recover_rest [OF b1(1) Cons.prems(3,4)] .
  ultimately show ?case using Cons b1(2) by simp
qed simp

lemma recover_expired_claims_inv:
  assumes inv: "board_inv b" and op: "recover_expired_claims owner now b = Inr (b', n)"
  shows "board_inv b'"
proof -
  have "distinct (map c_id (cards b))" using inv by (simp add: board_inv_def struct_ok_def keys_ok_def)
  then have "distinct (map c_id (filter (needs_recovery owner now) (cards b)))" by (rule distinct_map_filter)
  with op show ?thesis
    by (auto simp: recover_expired_claims_def Let_def on_ok_Inr_iff needs_recovery_def intro: recover_rows_inv [OF inv])
qed

lemma same_id_row: "board_inv b \<Longrightarrow> row \<in> set (cards b) \<Longrightarrow> x \<in> set (cards b) \<Longrightarrow> c_id x = c_id row \<longleftrightarrow> x = row"
  using same_id by blast

lemma reset_one_effect:
  assumes "reset_one owner now live row b = Inr (b', n)"
  obtains "b' = b" | c p tx where "c = row_view owner b row" "orphaned now live c"
    "b' = record_event (c_id row) ''recovered_after_restart'' ''system'' p now
       ((if truthy (c_claim_token row)
         then update_runs (\<lambda>r. r_card_id r = c_id row \<and> token_matches (Some (r_claim_token r)) (c_claim_token row))
                (close_run Run_interrupted (Some ''primary runtime restarted'') now)
         else (\<lambda>b. b))
        (insert_note (c_id row) ''system'' tx now
          (update_cards (\<lambda>r. c_id r = c_id row) (reset_row now (orphan_status c)) b)))"
  using assms by (auto simp: reset_one_def statement_iffs row_to_card_Inr_iff Let_def split: if_splits)

lemma insert_note_commute:
  "update_runs Q h (insert_note cid a t now b) = insert_note cid a t now (update_runs Q h b)"
  by (simp add: update_runs_def insert_note_def)

lemma reset_one_inv:
  assumes inv: "board_inv b" and row: "row \<in> set (cards b)" and op: "reset_one owner now live row b = Inr (b', n)"
  shows "board_inv b'"
  using op
proof (cases rule: reset_one_effect)
  case (2 c p tx)
  let ?f = "reset_row now (orphan_status c)" and ?P = "\<lambda>r. c_id r = c_id row"
  have id: "c_id row \<in> card_ids (update_cards ?P ?f b)"
    using row by (simp add: card_ids_def image_update_rows)
  show ?thesis
  proof (cases "truthy (c_claim_token row)")
    case True
    then obtain t where t: "c_claim_token row = Some t" by (auto simp: truthy_iff)
    have "board_inv (update_runs (\<lambda>r. r_card_id r = c_id row \<and> token_matches (Some (r_claim_token r)) (c_claim_token row))
        (close_run Run_interrupted (Some ''primary runtime restarted'') now) (update_cards ?P ?f b))"
      by (rule release_inv [OF inv row t disjI2 [OF refl] same_id_row [OF inv row]])
        (auto simp: reset_row_def close_run_def fields_ok_def token_matches_def t)
    with True id show ?thesis unfolding 2(3)
      by (auto simp: insert_note_commute intro!: inv_record_event inv_insert_note)
  next
    case False
    have "board_inv (update_cards ?P ?f b)"
      using no_token [OF inv row False] same_id_row [OF inv row]
      by (intro inv_edit inv) (auto simp: keeps_claim_def reset_row_def fields_ok_def)
    with False id show ?thesis unfolding 2(3) by (auto intro!: inv_record_event inv_insert_note)
  qed
qed (use inv in simp)

lemma reset_one_others:
  assumes op: "reset_one owner now live row b = Inr (b', n)" and x: "x \<in> set (cards b)" "c_id x \<noteq> c_id row"
  shows "x \<in> set (cards b')"
  using op by (cases rule: reset_one_effect) (use x in \<open>auto simp: set_update_rows\<close>)

lemma reset_rest:
  assumes op: "reset_one owner now live row b = Inr (b1, n)" and d: "distinct (map c_id (row # rows))"
    and sub: "set (row # rows) \<subseteq> set (cards b)"
  shows "set rows \<subseteq> set (cards b1)"
proof
  fix x assume x: "x \<in> set rows"
  then have "c_id x \<in> c_id ` set rows" by (rule imageI)
  with d have "c_id x \<noteq> c_id row" by auto
  with x sub show "x \<in> set (cards b1)" by (intro reset_one_others [OF op]) auto
qed

lemma reset_rows_inv:
  "board_inv b \<Longrightarrow> reset_rows owner now live rows b = Inr (b', n) \<Longrightarrow> distinct (map c_id rows)
    \<Longrightarrow> set rows \<subseteq> set (cards b) \<Longrightarrow> board_inv b'"
proof (induction rows arbitrary: b n)
  case (Cons row rows)
  from Cons.prems(2) obtain b1 k m where b1: "reset_one owner now live row b = Inr (b1, k)"
    "reset_rows owner now live rows b1 = Inr (b', m)"
    by (auto simp: on_ok_Inr_iff)
  have "board_inv b1" using reset_one_inv [OF Cons.prems(1) _ b1(1)] Cons.prems(4) by simp
  moreover have "set rows \<subseteq> set (cards b1)" using reset_rest [OF b1(1) Cons.prems(3,4)] .
  ultimately show ?case using Cons b1(2) by simp
qed simp

lemma reset_orphaned_inv:
  assumes inv: "board_inv b" and op: "reset_orphaned owner now live b = Inr (b', n)"
  shows "board_inv b'"
proof -
  have "distinct (map c_id (cards b))" using inv by (simp add: board_inv_def struct_ok_def keys_ok_def)
  with op show ?thesis
    by (auto simp: reset_orphaned_def intro!: reset_rows_inv [OF inv] distinct_map_filter)
qed

end
