(* ===== verification/Board_Turns.thy ===== *)
theory Board_Turns
  imports Board_Runs
begin

text \<open>
  The operations of \<open>VoiceCommands\<close> keep the invariant: new instructions, the turn boundary,
  responses, reconciliations and cancellations.
\<close>

section \<open>New instructions\<close>

lemma card_locked_Inr_iff:
  "card_locked owner b conv cid = Inr c \<longleftrightarrow> get_card owner b cid = Some c
     \<and> c_execution_mode c = Voice \<and> c_voice_conversation_id c = conv"
  by (auto simp: card_locked_def split: option.splits)

lemma wire_of_Inr_iff: "wire_of pid b k = Inr w \<longleftrightarrow> (\<exists>q. command_row b k = Some q \<and> w = wire pid q)"
  by (auto simp: wire_of_def split: option.splits)

lemma pending_stop_Inr_iff: "pending_stop_locked owner b cid = Inr s \<longleftrightarrow>
    id_visible owner b cid \<and> s = first_by_seq (is_pending_stop cid) b"
  by (auto simp: pending_stop_locked_def on_ok_Inr_iff)

lemmas turn_iffs = card_locked_Inr_iff wire_of_Inr_iff pending_stop_Inr_iff ok_iffs

lemma enqueue_effect:
  assumes "enqueue pid digest owner now conv cid k rv tx b = Inr (b', w)"
  obtains (replayed) q where "b' = b" "command_row b (the_str k) = Some q" "w = wire pid q"
    | (queued) c b1 p q fp where "get_card owner b cid = Some c" "c_execution_mode c = Voice"
      "c_voice_conversation_id c = conv"
      "c_revision c = the_int_of rv" "command_row b (the_str k) = None" "c_status c \<noteq> STATUS_ARCHIVED"
      "\<forall>q \<in> set (card_commands b). \<not> is_pending_stop cid q"
      "command_count cid b < command_limit"
      "insert_command (new_command (the_str k) cid K_steer fp (JStr (strip (the_str tx))) Q_queued_for_next_turn [] now) b = Inr b1"
      "b' = record_event cid ''command_queued'' ''user'' p now
         (update_cards (\<lambda>r. c_id r = cid)
           (resume_row now (if truthy (c_claim_token c) then STATUS_IN_PROGRESS else STATUS_READY)) b1)"
      "command_row b' (the_str k) = Some q" "w = wire pid q"
proof (cases "command_row b (the_str k)")
  case (Some q)
  with assms show ?thesis by (intro replayed [of q]) (auto simp: enqueue_def turn_iffs Let_def split: if_splits)
next
  case None
  from assms None obtain c b1 q where "get_card owner b cid = Some c" "c_execution_mode c = Voice"
      "c_voice_conversation_id c = conv"
      "c_revision c = the_int_of rv" "c_status c \<noteq> STATUS_ARCHIVED"
      "\<forall>q \<in> set (card_commands b). \<not> is_pending_stop cid q" "command_count cid b < command_limit"
      "insert_command (new_command (the_str k) cid K_steer
         (digest (JObj [(''conversation'', JStr conv), (''card'', JStr cid),
            (''text'', JStr (strip (the_str tx))), (''revision'', JInt (the_int_of rv)), (''kind'', JStr ''steer'')]))
         (JStr (strip (the_str tx))) Q_queued_for_next_turn [] now) b = Inr b1"
      "b' = record_event cid ''command_queued'' ''user''
          [(''commandId'', JStr (the_str k)), (''kind'', JStr ''steer''), (''status'', JStr ''queued_for_next_turn'')] now
         (update_cards (\<lambda>r. c_id r = cid)
           (resume_row now (if truthy (c_claim_token c) then STATUS_IN_PROGRESS else STATUS_READY)) b1)"
      "command_row b' (the_str k) = Some q" "w = wire pid q"
    by (auto simp: enqueue_def turn_iffs Let_def update_cards_status_Inr_iff first_by_seq_None_iff simp del: truthy.simps)
  then show ?thesis using None by (intro queued) auto
qed

lemma enqueue_inv:
  assumes inv: "board_inv b" and op: "enqueue pid digest owner now conv cid k rv tx b = Inr (b', w)"
  shows "board_inv b'"
  using op
proof (cases rule: enqueue_effect)
  case (queued c b1 p q fp)
  from queued(1) obtain row where row: "row \<in> set (cards b)" "c_id row = cid" "c = row_view owner b row"
    by (rule get_card_SomeE)
  have b1: "board_inv b1" using inv queued(9)
    by (rule inv_insert_command [where c = row])
      (use row queued(2) in \<open>auto simp: new_command_def unsettled_turn_def turn_kind_def\<close>)
  have cs: "cards b1 = cards b" using queued(9) by (auto simp: insert_command_Inr_iff)
  have keep: "keeps_claim x (resume_row now (if truthy (c_claim_token c) then STATUS_IN_PROGRESS else STATUS_READY) x)"
    if "x \<in> set (cards b1)" "c_id x = cid" for x
  proof (cases "c_claim_token x")
    case (Some t)
    have "x = row" using same_id [OF inv] that row cs by simp
    with row Some token_running [OF inv row(1)] show ?thesis
      by (auto simp: keeps_claim_def resume_row_def)
  qed (simp add: keeps_claim_def resume_row_def)
  show ?thesis unfolding queued(10) using row cs
    by (intro inv_record_event inv_edit b1 keep) (auto simp: fields_ok_def resume_row_def card_ids_def image_update_rows)
qed (use inv in simp)

section \<open>The turn boundary\<close>

lemma deliver_next_effect:
  "deliver_next pid owner t now nx b = Inr (b', w) \<Longrightarrow> b' = update_commands (delivers nx) (deliver t now) b
     \<and> (case nx of None \<Rightarrow> w = None
        | Some y \<Rightarrow> (\<exists>z. command_row b' (q_command_id y) = Some z \<and> w = Some (wire pid z)))"
  using deliver_claim [where cmd = nx and b = b and owner = owner and token = t and now = now and b' = b']
  by (auto simp: deliver_next_def turn_iffs split: option.splits)

lemma advance_boundary_effect:
  assumes "advance_boundary pid owner now cid t done b = Inr (b', w)"
  obtains (waiting) "b' = b" "w = None"
    | (moved) c q b1 nx where "get_card owner b cid = Some c" "c_claim_token c = Some t" "c_execution_mode c = Voice"
      "q \<in> set (card_commands b)" "q_card_id q = cid" "q_claim_token q = Some t" "q_command_id q = done" "turn_kind (q_kind q)"
      "q_status q = Q_applied \<or> q_status q = Q_completed"
      "b1 = complete_turn cid q now b"
      "next_locked owner b1 cid = Inr nx" "deliver_next pid owner t now nx b1 = Inr (b', w)"
proof -
  from assms obtain c q where c: "get_card owner b cid = Some c" "c_claim_token c = Some t" "c_execution_mode c = Voice"
    and find: "find (\<lambda>q. q_card_id q = cid \<and> q_claim_token q = Some t \<and> q_command_id q = done
        \<and> turn_kind (q_kind q)) (card_commands b) = Some q"
    and st: "q_status q = Q_applied \<or> q_status q = Q_completed"
    by (auto simp: advance_boundary_def turn_iffs)
  from find have q: "q \<in> set (card_commands b)" "q_card_id q = cid" "q_claim_token q = Some t"
    "q_command_id q = done" "turn_kind (q_kind q)" by (auto simp: find_Some_iff)
  show ?thesis
  proof (cases "first_by_seq (is_pending_stop cid) b")
    case (Some s)
    with assms c find have "b' = b" "w = None" by (auto simp: advance_boundary_def turn_iffs)
    then show ?thesis by (rule waiting)
  next
    case None
    with assms c find obtain nx where "next_locked owner (complete_turn cid q now b) cid = Inr nx"
      "deliver_next pid owner t now nx (complete_turn cid q now b) = Inr (b', w)"
      by (auto simp: advance_boundary_def turn_iffs Let_def)
    then show ?thesis using c q st by (intro moved [of c q _ nx]) auto
  qed
qed

lemma complete_turn_inv:
  assumes inv: "board_inv b" and q: "q \<in> set (card_commands b)" "q_card_id q = cid"
  shows "board_inv (complete_turn cid q now b)"
proof -
  have one: "x = q" if "x \<in> set (card_commands b)" "q_command_id x = q_command_id q" for x
    using inv that q(1) same_command by (auto simp: board_inv_def)
  have "cid \<in> card_ids b" using inv q by (auto simp: board_inv_def struct_ok_def refs_ok_def)
  then show ?thesis unfolding complete_turn_def using inv one
    by (auto simp: set_command_status_def calms_def unsettled_turn_def live_turn_def
        intro!: inv_record_event inv_calm)
qed

text \<open>Delivering the next instruction to the claim that is already held.\<close>

lemma deliver_inv:
  assumes inv: "board_inv b" and c: "c \<in> set (cards b)" "c_id c = cid" "c_claim_token c = Some t"
    and nx: "next_locked owner b cid = Inr nx"
  shows "board_inv (update_commands (delivers nx) (deliver t now) b)"
proof (cases nx)
  case None
  with inv show ?thesis by (simp add: update_commands_none)
next
  case (Some q)
  note n = nx [unfolded Some]
  have "queue_claims (cards b) (update_rows (delivers (Some q)) (deliver t now) (card_commands b))"
    unfolding queue_claims_def
  proof (intro ballI impI)
    fix x y
    assume x: "x \<in> set (cards b)" "c_claim_token x \<noteq> None"
      and y: "y \<in> set (update_rows (delivers (Some q)) (deliver t now) (card_commands b))"
        "q_card_id y = c_id x" "unsettled_turn y"
    show "live_turn y \<and> q_claim_token y = c_claim_token x"
    proof (cases "x = c")
      case True
      with delivery_new [OF inv n y(1)] y c show ?thesis by simp
    next
      case False
      then have "c_id x \<noteq> cid" using same_id [OF inv x(1) c(1)] c(2) by auto
      with y(2) delivery_old [OF inv n y(1)] next_lockedD(2) [OF n] have "y \<in> set (card_commands b)"
        by (auto simp: deliver_def is_queued_def)
      with inv x y show ?thesis unfolding board_inv_def queue_ok_def queue_claims_def by blast
    qed
  qed
  with delivery_core [OF inv n, of t now] inv Some show ?thesis
    by (simp add: board_inv_def queue_ok_def all_fields_ok_def struct_update_commands deliver_def)
qed

lemma advance_boundary_inv:
  assumes inv: "board_inv b" and op: "advance_boundary pid owner now cid t done b = Inr (b', w)"
  shows "board_inv b'"
  using op
proof (cases rule: advance_boundary_effect)
  case (moved c q b1 nx)
  from moved(1) obtain row where row: "row \<in> set (cards b)" "c_id row = cid" "c = row_view owner b row"
    by (rule get_card_SomeE)
  have "board_inv b1" unfolding moved(10) using inv moved(4,5) by (rule complete_turn_inv)
  moreover have "cards b1 = cards b" by (simp add: moved(10) complete_turn_def)
  ultimately have "board_inv (update_commands (delivers nx) (deliver t now) b1)"
    using row moved(2,11) by (intro deliver_inv) auto
  then show ?thesis using deliver_next_effect [OF moved(12)] by simp
qed (use inv in simp)

section \<open>Reconciliation\<close>

lemma reconciliation_row:
  assumes "pending_reconciliations owner b after n = x # xs"
  obtains q c r where "q \<in> set (card_commands b)" "c \<in> set (cards b)" "r \<in> set (card_runs b)"
    "reconcilable owner b after q c r" "x_seq x = q_seq q" "x_commandId x = q_command_id q" "x_cardId x = c_id c"
    "x_claimToken x = q_claim_token q" "x_attempt x = c_attempt_count c" "x_revision x = c_revision c"
proof -
  from assms have "x \<in> set (pending_reconciliations owner b after n)" by simp
  then have "x \<in> set (concat (map (\<lambda>q. concat (map (\<lambda>c. map (\<lambda>r.
            \<lparr>x_seq = q_seq q, x_commandId = q_command_id q, x_cardId = q_card_id q,
             x_claimToken = q_claim_token q, x_runId = or_else (q_worker_run_id q) (q_command_id q),
             x_revision = c_revision c, x_attempt = c_attempt_count c,
             x_profile = c_assignee_profile c, x_expectedBotId = c_assignee_bot_id c,
             x_sessionKey = c_session_key c\<rparr>)
          (filter (reconcilable owner b after q c) (card_runs b))) (cards b)))
        (sort_key q_seq (card_commands b))))"
    unfolding pending_reconciliations_def by (rule in_set_takeD)
  then show thesis by (auto simp: reconcilable_def intro: that)
qed

lemma claims_close_idle:
  assumes ok: "claims_ok cs runs" and idle: "\<And>r. r \<in> set runs \<Longrightarrow> P r \<Longrightarrow> r_status r \<noteq> Run_running"
    and h: "\<And>r. r_status (h r) \<noteq> Run_running"
  shows "claims_ok cs (update_rows P h runs)"
proof -
  have same: "updated P h r = r" if "r \<in> set runs" "r_status r = Run_running" for r
    using idle that by auto
  have run: "updated P h r = r \<and> r_status r = Run_running" if "r_status (updated P h r) = Run_running" for r
    using h that by (auto split: if_splits)
  have 1: "claim_ok (update_rows P h runs) c" if "claim_ok runs c" for c
    using that same by (auto simp: claim_ok_def bex_update_rows running_for_def split: option.splits) metis+
  have 2: "\<exists>c \<in> set cs. c_id c = r_card_id (updated P h r) \<and> c_claim_token c = Some (r_claim_token (updated P h r))"
    if "r \<in> set runs" "r_status (updated P h r) = Run_running" for r
    unfolding conjunct1 [OF run [OF that(2)]]
    using ok that(1) run [OF that(2)] unfolding claims_ok_def by blast
  have 3: "updated P h r = updated P h r'"
    if "r \<in> set runs" "r' \<in> set runs" "r_status (updated P h r) = Run_running"
      "r_status (updated P h r') = Run_running" "r_card_id (updated P h r) = r_card_id (updated P h r')" for r r'
    using ok that(1,2,5) run [OF that(3)] run [OF that(4)] unfolding claims_ok_def by metis
  show ?thesis using ok 1 2 3 unfolding claims_ok_def ball_update_rows by blast
qed

lemma commit_result_inv:
  assumes inv: "board_inv b" and c: "c \<in> set (cards b)" "c_id c = x_cardId x" "c_claim_token c = None"
    and op: "commit_result now x w resp run b = Inr b'"
  shows "board_inv b'"
proof -
  let ?b1 = "update_commands (\<lambda>q. q_command_id q = x_commandId x)
      (settle_command (command_outcome (result_outcome w)) (x_runId x) now) b"
  let ?b2 = "update_cards (\<lambda>r. c_id r = x_cardId x)
      (settle_row now (result_card_status w) (map_option (take MAX_RESULT_CHARS) resp) (result_error w)) ?b1"
  let ?b3 = "update_runs (\<lambda>r. r_card_id r = x_cardId x \<and> token_matches (Some (r_claim_token r)) (x_claimToken x)
        \<and> r_attempt r = x_attempt x) (settle_run (result_outcome w) (x_runId x) (result_error w) now) ?b2"
  have 1: "board_inv ?b1"
    by (intro inv_calm inv) (auto simp: settle_command_def calms_def unsettled_turn_def live_turn_def)
  have err: "length s \<le> MAX_ERROR_CHARS" if "result_error w = Some s" for s
    using that by (cases w) (auto simp: MAX_ERROR_CHARS_def)
  have none: "c_claim_token y = None" if "y \<in> set (cards b)" "c_id y = x_cardId x" for y
    using same_id [OF inv that(1) c(1)] that(2) c by simp
  have 2: "board_inv ?b2"
    using none err by (intro inv_edit 1) (auto simp: keeps_claim_def settle_row_def fields_ok_def)
  have idle: "r_status r \<noteq> Run_running" if "r \<in> set (card_runs b)" "r_card_id r = x_cardId x" for r
    using inv that none unfolding board_inv_def claims_ok_def by fastforce
  have "claims_ok (cards ?b2) (card_runs ?b3)"
    using 2 idle unfolding update_runs_fields
    by (intro claims_close_idle) (auto simp: board_inv_def settle_run_def)
  moreover have "struct_ok ?b3" using 2 by (simp add: board_inv_def struct_update_runs settle_run_def)
  ultimately have "board_inv ?b3" using 2 by (simp add: board_inv_def all_fields_ok_def queue_ok_def)
  moreover have "x_cardId x \<in> card_ids ?b3"
    unfolding c(2) [symmetric] using c(1) by (simp add: card_ids_def image_update_rows)
  ultimately show ?thesis
    using op by (auto simp: commit_result_def statement_iffs intro: inv_record_event)
qed

lemma settle_reconciliation_inv:
  assumes inv: "board_inv b" and op: "settle_reconciliation owner now x res b = Inr (b', y)"
  shows "board_inv b'"
proof (cases "b' = b")
  case False
  obtain w resp run where "checked_result x res = Some (w, resp, run)"
    using op False by (cases "checked_result x res") (auto simp: settle_reconciliation_def)
  moreover obtain y rest where "pending_reconciliations owner b (x_seq x - 1) 1 = y # rest"
    using op False calculation
    by (cases "pending_reconciliations owner b (x_seq x - 1) 1") (auto simp: settle_reconciliation_def)
  ultimately have fresh: "pending_reconciliations owner b (x_seq x - 1) 1 = x # rest"
    and c: "commit_result now x w resp run b = Inr b'"
    using op False by (auto simp: settle_reconciliation_def on_ok_Inr_iff split: if_splits)
  from fresh show ?thesis
  proof (rule reconciliation_row)
    fix q k r assume k: "k \<in> set (cards b)" "reconcilable owner b (x_seq x - 1) q k r" "x_cardId x = c_id k"
    then have "c_claim_token k = None" by (simp add: reconcilable_def)
    with inv k(1) k(3) [symmetric] show ?thesis using c by (rule commit_result_inv)
  qed
qed (use inv in simp)

section \<open>Responses\<close>

lemma response_intent_effect:
  assumes "response_intent pid digest dumps owner now conv cid k rv payload b = Inr (b', new, w)"
  obtains (replayed) "b' = b"
    | (recorded) c b1 p key fp tx where "get_card owner b cid = Some c"
      "insert_command (new_command key cid K_respond fp tx Q_delivering pid now) b = Inr b1"
      "b' = record_event cid ''response_recorded'' ''user'' p now (update_cards (\<lambda>r. c_id r = cid) (answer_row now) b1)"
proof (cases "b' = b")
  case False
  from assms obtain key rev enc where k: "identity k ''commandId'' = Inr key" "integer rv ''expectedRevision'' = Inr rev"
    "dumps (JObj payload) = Some enc"
    by (auto simp: response_intent_def ok_iffs)
  with assms False show ?thesis
    by (cases "command_row b key")
      (auto simp: response_intent_def turn_iffs Let_def split: if_splits intro: recorded)
qed (auto intro: replayed)

lemma response_intent_inv:
  assumes inv: "board_inv b" and op: "response_intent pid digest dumps owner now conv cid k rv payload b = Inr (b', new, w)"
  shows "board_inv b'"
  using op
proof (cases rule: response_intent_effect)
  case (recorded c b1 p key fp tx)
  from recorded(1) obtain row where row: "row \<in> set (cards b)" "c_id row = cid" by (rule get_card_SomeE)
  have b1: "board_inv b1" using inv recorded(2)
    by (rule inv_insert_command [where c = row])
      (use row in \<open>auto simp: new_command_def unsettled_turn_def turn_kind_def\<close>)
  have cs: "cards b1 = cards b" using recorded(2) by (auto simp: insert_command_Inr_iff)
  show ?thesis unfolding recorded(3) using row cs
    by (intro inv_record_event inv_edit b1)
      (auto simp: fields_ok_def answer_row_def keeps_claim_def card_ids_def image_update_rows)
qed (use inv in simp)

lemma command_card: "board_inv b \<Longrightarrow> q \<in> set (card_commands b) \<Longrightarrow> q_card_id q \<in> card_ids b"
  by (auto simp: board_inv_def struct_ok_def refs_ok_def)

lemma not_turn_calm:
  assumes "\<not> turn_kind (q_kind q)" "st \<noteq> Q_queued_for_next_turn"
  shows "calms q (set_command_status st now q)"
  using assms by (simp add: calms_def set_command_status_def unsettled_turn_def)

lemma settle_response_inv:
  assumes inv: "board_inv b" and op: "settle_response pid owner now k st b = Inr (b', w)"
  shows "board_inv b'"
proof (cases "b' = b")
  case False
  with op obtain q v p where find: "find (\<lambda>q. q_command_id q = k \<and> q_kind q = K_respond) (card_commands b) = Some q"
    and v: "response_outcome st = Some v"
    and b': "b' = record_event (q_card_id q) ''response_updated'' ''worker'' p now
        (update_commands (\<lambda>q. q_command_id q = k) (set_command_status v now) b)"
    by (auto simp: settle_response_def turn_iffs Let_def split: if_splits)
  from find have q: "q \<in> set (card_commands b)" "q_command_id q = k" "q_kind q = K_respond"
    by (auto simp: find_Some_iff)
  have one: "x = q" if "x \<in> set (card_commands b)" "q_command_id x = k" for x
    using inv that q same_command by (auto simp: board_inv_def)
  from v have "v \<noteq> Q_queued_for_next_turn" by (auto simp: response_outcome_def split: if_splits)
  then have "board_inv (update_commands (\<lambda>q. q_command_id q = k) (set_command_status v now) b)"
    using q(3) one not_turn_calm [of q v now]
    by (intro inv_calm inv) (auto simp: set_command_status_def turn_kind_def live_turn_def dest!: one)
  with b' command_card [OF inv q(1)] show ?thesis by (auto intro: inv_record_event)
qed (use inv in simp)

section \<open>Cancellation\<close>

lemma cancel_effect:
  assumes "cancel pid digest owner now conv cid k rv b = Inr (b', w)"
  obtains (replayed) "b' = b"
    | (requested) c b1 p key fp st where "get_card owner b cid = Some c" "c_execution_mode c = Voice"
      "st = (if c_attempt_count c = 0 \<and> \<not> truthy (c_claim_token c) then Q_stopped else Q_stopping)"
      "insert_command (new_command key cid K_cancel fp (stop_payload b cid) st [] now) b = Inr b1"
      "b' = record_event cid ''cancellation_requested'' ''user'' p now
         (update_cards (\<lambda>r. c_id r = cid) (stop_row now (if st = Q_stopped then STATUS_CANCELLED else c_status c))
           (update_commands (undelivered cid) (set_command_status Q_cancelled now) b1))"
proof (cases "b' = b")
  case False
  from assms obtain key rev where k: "identity k ''commandId'' = Inr key" "integer rv ''expectedRevision'' = Inr rev"
    by (auto simp: cancel_def ok_iffs)
  show ?thesis
  proof (cases "command_row b key")
    case None
    from assms k None obtain c b1 p where "get_card owner b cid = Some c" "c_execution_mode c = Voice"
      "insert_command (new_command key cid K_cancel
          (digest (JObj [(''conversation'', JStr conv), (''card'', JStr cid), (''revision'', JInt rev), (''kind'', JStr ''cancel'')]))
          (stop_payload b cid)
          (if c_attempt_count c = 0 \<and> \<not> truthy (c_claim_token c) then Q_stopped else Q_stopping) [] now) b = Inr b1"
      "b' = record_event cid ''cancellation_requested'' ''user'' p now
         (update_cards (\<lambda>r. c_id r = cid)
           (stop_row now (if (if c_attempt_count c = 0 \<and> \<not> truthy (c_claim_token c) then Q_stopped else Q_stopping) = Q_stopped
              then STATUS_CANCELLED else c_status c))
           (update_commands (undelivered cid) (set_command_status Q_cancelled now) b1))"
      by (simp add: cancel_def turn_iffs Let_def update_cards_status_Inr_iff del: truthy.simps) blast
    then show ?thesis by (intro requested) (auto simp del: truthy.simps)
  qed (use assms k False in \<open>auto simp: cancel_def turn_iffs Let_def split: if_splits\<close>)
qed (auto intro: replayed)

lemma cancel_inv:
  assumes inv: "board_inv b" and op: "cancel pid digest owner now conv cid k rv b = Inr (b', w)"
  shows "board_inv b'"
  using op
proof (cases rule: cancel_effect)
  case (requested c b1 p key fp st)
  from requested(1) obtain row where row: "row \<in> set (cards b)" "c_id row = cid" "c = row_view owner b row"
    by (rule get_card_SomeE)
  have b1: "board_inv b1" using inv requested(4)
    by (rule inv_insert_command [where c = row])
      (use row requested(3) in \<open>auto simp: new_command_def unsettled_turn_def turn_kind_def split: if_splits\<close>)
  let ?b2 = "update_commands (undelivered cid) (set_command_status Q_cancelled now) b1"
  have b2: "board_inv ?b2"
    by (intro inv_calm b1) (auto simp: calms_def set_command_status_def unsettled_turn_def live_turn_def undelivered_def)
  have cs: "cards ?b2 = cards b" using requested(4) by (auto simp: insert_command_Inr_iff)
  have "keeps_claim x (stop_row now (if st = Q_stopped then STATUS_CANCELLED else c_status c) x)"
    if "x \<in> set (cards ?b2)" "c_id x = cid" for x
  proof -
    have "x = row" using same_id [OF inv] that row cs by simp
    with requested(3) row token_running [OF inv row(1)] show ?thesis
      by (auto simp: keeps_claim_def stop_row_def split: if_splits)
  qed
  then show ?thesis unfolding requested(5) using row cs
    by (intro inv_record_event inv_edit b2) (auto simp: fields_ok_def stop_row_def card_ids_def image_update_rows)
qed (use inv in simp)

lemma find_command:
  assumes "find (\<lambda>q. q_command_id q = k \<and> is_active_stop q) (card_commands b) = Some q"
  shows "q \<in> set (card_commands b)" "q_command_id q = k" "is_active_stop q" "\<not> turn_kind (q_kind q)"
  using assms by (auto simp: find_Some_iff is_active_stop_def turn_kind_def)

lemma bind_first_effect:
  assumes "bind_first k binding now t b = Inr (b', w)"
  obtains "b' = b" | js where "b' = update_commands (\<lambda>q. q_command_id q = k) (set_text js now) b"
  using assms by (cases t) (auto simp: bind_first_def split: option.splits)

lemma bind_stop_goal_inv:
  assumes inv: "board_inv b" and op: "bind_stop_goal owner now k g st b = Inr (b', w)"
  shows "board_inv b'"
proof -
  from op obtain binding t where "bind_first k binding now t b = Inr (b', w)"
    by (auto simp: bind_stop_goal_def ok_iffs simp del: json_of_opt.simps)
  then show ?thesis
  proof (cases rule: bind_first_effect)
    case (2 js)
    show ?thesis unfolding 2
      by (intro inv_calm inv) (auto simp: set_text_def calms_def unsettled_turn_def live_turn_def)
  qed (use inv in simp)
qed

lemma commit_stop_inv:
  assumes inv: "board_inv b" and c: "c \<in> set (cards b)" "c_id c = cid" "c_claim_token c = None"
    and op: "commit_stop cid k ws now b = Inr b'"
  shows "board_inv b'"
proof -
  from op obtain st ts where r: "stop_result ws = Some (st, ts)"
    and b': "b' = stop_event cid k Q_stopped ws now (update_commands (unverified_turn cid) (set_command_status ts now)
        (update_cards (\<lambda>r. c_id r = cid) (stop_row now st) b))"
    by (auto simp: commit_stop_def statement_iffs)
  have none: "c_claim_token y = None" if "y \<in> set (cards b)" "c_id y = cid" for y
    using same_id [OF inv that(1) c(1)] that(2) c by simp
  have 1: "board_inv (update_cards (\<lambda>r. c_id r = cid) (stop_row now st) b)"
    using none by (intro inv_edit inv) (auto simp: keeps_claim_def stop_row_def fields_ok_def)
  have ts: "ts \<in> {Q_completed, Q_failed, Q_cancelled}"
    using r by (auto simp: stop_result_def split: if_splits)
  have "board_inv (update_commands (unverified_turn cid) (set_command_status ts now)
        (update_cards (\<lambda>r. c_id r = cid) (stop_row now st) b))"
    using ts by (intro inv_calm 1) (auto simp: calms_def set_command_status_def unsettled_turn_def live_turn_def)
  moreover have "cid \<in> card_ids b" using c by (auto simp: card_ids_def)
  ultimately show ?thesis unfolding b' stop_event_def
    by (intro inv_record_event) (simp_all add: card_ids_update_cards)
qed

lemma settle_stop_effect:
  assumes "settle_stop owner now k s ws b = Inr b'"
  obtains (gone) "b' = b"
    | (touched) "b' = update_commands (\<lambda>q. q_command_id q = k) (touch_command now) b"
    | (pending) q st where "find (\<lambda>q. q_command_id q = k \<and> is_active_stop q) (card_commands b) = Some q"
      "st = Q_stopping \<or> st = Q_status_unknown"
      "b' = stop_event (q_card_id q) k st ws now (update_commands (\<lambda>q. q_command_id q = k) (set_command_status st now) b)"
    | (settled) q c where "find (\<lambda>q. q_command_id q = k \<and> is_active_stop q) (card_commands b) = Some q"
      "get_card owner b (q_card_id q) = Some c" "\<not> truthy (c_claim_token c)"
      "commit_stop (c_id c) k (settled_status b (c_id c) q ws) now
         (update_commands (\<lambda>q. q_command_id q = k) (set_command_status Q_stopped now) b) = Inr b'"
proof (cases "find (\<lambda>q. q_command_id q = k \<and> is_active_stop q) (card_commands b)")
  case None
  with assms show ?thesis by (intro gone) (auto simp: settle_stop_def ok_iffs)
next
  case (Some q)
  from assms Some obtain st0 c where st0: "stop_status s = Some st0" and c: "get_card owner b (q_card_id q) = Some c"
    by (auto simp: settle_stop_def ok_iffs)
  have id: "c_id c = q_card_id q" using c by (auto elim: get_card_SomeE)
  have st: "st0 \<in> {Q_stopping, Q_status_unknown, Q_stopped}" using st0 by (auto simp: stop_status_def split: if_splits)
  define v where "v = (if st0 = Q_stopped \<and> truthy (c_claim_token c) then Q_stopping else st0)"
  show ?thesis
  proof (cases "q_status q = v")
    case True
    with assms Some st0 c show ?thesis
      by (intro touched) (auto simp: settle_stop_def ok_iffs Let_def v_def simp del: truthy.simps)
  next
    case False
    show ?thesis
    proof (cases "v = Q_stopped")
      case True
      then have "\<not> truthy (c_claim_token c)" "st0 = Q_stopped" by (auto simp: v_def simp del: truthy.simps split: if_splits)
      with assms Some st0 c False True show ?thesis
        by (intro settled [OF Some c]) (auto simp: settle_stop_def ok_iffs Let_def v_def simp del: truthy.simps)
    next
      case ns: False
      have "v = Q_stopping \<or> v = Q_status_unknown" using ns st by (auto simp: v_def split: if_splits)
      moreover have "b' = stop_event (q_card_id q) k v ws now (update_commands (\<lambda>q. q_command_id q = k) (set_command_status v now) b)"
        using assms Some st0 c False ns id unfolding settle_stop_def
        by (simp add: ok_iffs Let_def v_def [symmetric] del: truthy.simps)
      ultimately show ?thesis by (rule pending [OF Some])
    qed
  qed
qed

lemma settle_stop_inv:
  assumes inv: "board_inv b" and op: "settle_stop owner now k s ws b = Inr b'"
  shows "board_inv b'"
proof -
  have calm: "board_inv (update_commands (\<lambda>q. q_command_id q = k) (set_command_status st now) b)"
    if "find (\<lambda>q. q_command_id q = k \<and> is_active_stop q) (card_commands b) = Some q" "st \<noteq> Q_queued_for_next_turn" for st q
  proof -
    note q = find_command [OF that(1)]
    have one: "x = q" if "x \<in> set (card_commands b)" "q_command_id x = k" for x
      using inv that q same_command by (auto simp: board_inv_def)
    show ?thesis using q(4) that(2)
      by (intro inv_calm inv) (auto simp: set_command_status_def calms_def unsettled_turn_def live_turn_def dest!: one)
  qed
  from op show ?thesis
  proof (cases rule: settle_stop_effect)
    case touched
    then show ?thesis
      by (auto simp: touch_command_def calms_def unsettled_turn_def live_turn_def intro!: inv_calm inv)
  next
    case (pending q st)
    with calm [OF pending(1)] command_card [OF inv find_command(1) [OF pending(1)]] show ?thesis
      by (auto simp: stop_event_def intro: inv_record_event)
  next
    case (settled q c)
    from settled(2) obtain row where row: "row \<in> set (cards b)" "c_id row = q_card_id q" "c = row_view owner b row"
      by (rule get_card_SomeE)
    have none: "c_claim_token row = None" using settled(3) no_token [OF inv row(1)] row(3) by simp
    show ?thesis
      by (rule commit_stop_inv [OF calm [OF settled(1)] _ _ none settled(4)]) (use row in simp_all)
  qed (use inv in simp)
qed

end
