(* ===== verification/Board_Changes.thy ===== *)
theory Board_Changes
  imports Board_Turns
begin

text \<open>
  What one operation may do to the rows of the cards table: it changes only rows its owner sees,
  never the identity or the owner of a row, and it raises the revision of a row whenever it
  changes more than the claim's bookkeeping.
\<close>

section \<open>Row changes\<close>

text \<open>Equal but for the run id, the lease, the heartbeat and the time of the last change.\<close>

definition content :: "card \<Rightarrow> card" where
  "content c = c\<lparr>c_run_id := None, c_lease_expires_at := None, c_heartbeat_at := None, c_updated_at := 0\<rparr>"

definition same_content :: "card \<Rightarrow> card \<Rightarrow> bool" where
  "same_content c c' \<longleftrightarrow> content c' = content c"

definition bump :: "card \<Rightarrow> card \<Rightarrow> bool" where
  "bump c c' \<longleftrightarrow> c_id c' = c_id c \<and> c_execution_mode c' = c_execution_mode c
     \<and> c_voice_owner_uid c' = c_voice_owner_uid c \<and> c_created_at c' = c_created_at c
     \<and> c_idempotency_key c' = c_idempotency_key c
     \<and> (c_revision c < c_revision c' \<or> c_revision c' = c_revision c \<and> same_content c c')"

lemma same_content_refl [simp]: "same_content c c"
  by (simp add: same_content_def)

lemma same_content_trans: "same_content a b \<Longrightarrow> same_content b c \<Longrightarrow> same_content a c"
  by (simp add: same_content_def)

lemma bump_refl [simp]: "bump c c"
  by (simp add: bump_def)

lemma bump_trans: "bump a b \<Longrightarrow> bump b c \<Longrightarrow> bump a c"
proof -
  assume ab: "bump a b" and bc: "bump b c"
  have "c_revision a < c_revision c \<or> c_revision c = c_revision a \<and> same_content a c"
    using ab bc same_content_trans [of a b c] unfolding bump_def by linarith
  with ab bc show "bump a c" unfolding bump_def by simp
qed

lemma bump_visible: "bump c c' \<Longrightarrow> row_visible owner c' = row_visible owner c"
  by (simp add: bump_def row_visible_def Let_def)

lemma row_bumps:
  "bump c (status_row now st res err cr cs c)" "bump c (run_id_row now run c)"
  "bump c (edit_row now ti bo pr sc ma c)" "bump c (touch_row now c)" "bump c (assign_row now pf bt st c)"
  "bump c (restore_row now run c)" "bump c (expire_row now st c)" "bump c (reset_row now st c)"
  "bump c (resume_row now st c)" "bump c (settle_row now st res err c)" "bump c (stop_row now st c)"
  "bump c (answer_row now c)" "bump c (take_claim now l rn t n c)" "bump c (release_claim st res err sd now c)"
  by (simp_all add: bump_def row_defs)

lemma beat_bump: "c_status c = STATUS_IN_PROGRESS \<or> rp \<Longrightarrow> bump c (beat_row now l rp c)"
  by (auto simp: bump_def same_content_def content_def beat_row_def)

lemma worker_bump: "c_status c = STATUS_IN_PROGRESS \<or> rp \<Longrightarrow> bump c (worker_row now w rp c)"
  by (auto simp: bump_def same_content_def content_def worker_row_def)

section \<open>Board changes\<close>

definition edits :: "request_owner option \<Rightarrow> board \<Rightarrow> board \<Rightarrow> bool" where
  "edits owner b b' \<longleftrightarrow> (\<exists>g. cards b' = map g (cards b)
     \<and> (\<forall>c \<in> set (cards b). bump c (g c) \<and> (g c \<noteq> c \<longrightarrow> row_visible owner c)))"

lemma edits_refl: "cards b' = cards b \<Longrightarrow> edits owner b b'"
  unfolding edits_def by (intro exI [of _ "\<lambda>c. c"]) simp

lemma edits_trans: "edits owner a b \<Longrightarrow> edits owner b c \<Longrightarrow> edits owner a c"
proof -
  assume ab: "edits owner a b" and bc: "edits owner b c"
  from ab obtain g where g: "cards b = map g (cards a)"
    "\<forall>x \<in> set (cards a). bump x (g x) \<and> (g x \<noteq> x \<longrightarrow> row_visible owner x)" unfolding edits_def by blast
  from bc obtain h where h: "cards c = map h (cards b)"
    "\<forall>x \<in> set (cards b). bump x (h x) \<and> (h x \<noteq> x \<longrightarrow> row_visible owner x)" unfolding edits_def by blast
  have "bump x (h (g x)) \<and> (h (g x) \<noteq> x \<longrightarrow> row_visible owner x)" if "x \<in> set (cards a)" for x
  proof -
    have m: "g x \<in> set (cards b)" using that g(1) by simp
    have "bump x (h (g x))" using bspec [OF g(2) that] bspec [OF h(2) m] bump_trans by blast
    moreover have "row_visible owner x" if "h (g x) \<noteq> x"
      using bspec [OF g(2) \<open>x \<in> set (cards a)\<close>] bspec [OF h(2) m] bump_visible [of x "g x" owner] that by (cases "g x = x") simp_all
    ultimately show ?thesis by blast
  qed
  then show ?thesis unfolding edits_def using g(1) h(1) by (intro exI [of _ "h \<circ> g"]) simp
qed

lemma edits_update:
  assumes "cards b' = update_rows P f (cards b)"
    and "\<And>c. c \<in> set (cards b) \<Longrightarrow> P c \<Longrightarrow> bump c (f c) \<and> row_visible owner c"
  shows "edits owner b b'"
  unfolding edits_def using assms by (intro exI [of _ "updated P f"]) (simp add: update_rows_def)

text \<open>The usual case: one card, found for the owner.\<close>

lemma edits_found:
  assumes inv: "board_inv b" and found: "get_card owner b cid = Some old"
    and cs: "cards b' = update_rows P f (cards b)" and P: "\<And>c. P c \<Longrightarrow> c_id c = cid"
    and f: "\<And>c. c \<in> set (cards b) \<Longrightarrow> c_id c = cid \<Longrightarrow> bump c (f c)"
  shows "edits owner b b'"
  using cs
proof (rule edits_update)
  fix c assume c: "c \<in> set (cards b)" "P c"
  then show "bump c (f c) \<and> row_visible owner c"
    using found_row [OF inv found c(1) P [OF c(2)]] f [OF c(1) P [OF c(2)]] by simp
qed

lemma edits_revision:
  assumes inv: "board_inv b" and e: "edits owner b b'" and c: "c \<in> set (cards b)" "c' \<in> set (cards b')" "c_id c' = c_id c"
  shows "bump c c'"
proof -
  from e c(2) obtain g x where g: "c' = g x" "x \<in> set (cards b)" "bump x (g x)"
    unfolding edits_def by auto
  then have "c_id x = c_id c" using c(3) by (simp add: bump_def)
  with same_id [OF inv g(2) c(1)] g show ?thesis by simp
qed

lemma edits_hidden: "edits owner b b' \<Longrightarrow> c \<in> set (cards b) \<Longrightarrow> \<not> row_visible owner c \<Longrightarrow> c \<in> set (cards b')"
  unfolding edits_def by (metis imageI image_set)

section \<open>The operations\<close>

lemma edits_at:
  assumes "board_inv b" "get_card owner b cid = Some old"
    and "cards b' = update_rows (at_revision cid rv) f (cards b)" "\<And>c. bump c (f c)"
  shows "edits owner b b'"
  using assms(1-3) by (rule edits_found) (simp_all add: assms(4) at_revision_def)

lemma set_status_edits:
  assumes "board_inv b" "set_status owner now cid st res err cr cs ex actor b = Inr (b', x)"
  shows "edits owner b b'"
  using assms(2) by (rule set_status_effect) (rule edits_at [OF assms(1)], assumption, simp, rule row_bumps)

lemma set_run_id_edits:
  assumes "board_inv b" "set_run_id owner now cid run b = Inr (b', x)"
  shows "edits owner b b'"
proof -
  from assms(2) obtain old where "get_card owner b cid = Some old"
    "cards b' = update_rows (\<lambda>r. c_id r = cid) (run_id_row now run) (cards b)"
    by (auto simp: set_run_id_def edit_defs)
  with assms(1) show ?thesis by (rule edits_found) (simp_all add: row_bumps)
qed

lemma update_card_edits:
  assumes "board_inv b" "update_card owner now cid u ex actor b = Inr (b', x)"
  shows "edits owner b b'"
  using assms(2) by (rule update_card_effect) (rule edits_at [OF assms(1)], assumption, simp, rule row_bumps)

lemma add_note_edits:
  assumes "board_inv b" "add_note owner now cid author t ex b = Inr (b', x)"
  shows "edits owner b b'"
proof -
  from assms(2) obtain old where "get_card owner b cid = Some old"
    "cards b' = update_rows (at_revision cid (c_revision old)) (touch_row now) (cards b)"
    by (auto simp: add_note_def edit_defs)
  with assms(1) show ?thesis by (rule edits_at) (rule row_bumps)
qed

lemma assign_card_edits:
  assumes "board_inv b" "assign_card owner now cid pf bt actor ready ex b = Inr (b', x)"
  shows "edits owner b b'"
  using assms(2) by (rule assign_card_effect) (rule edits_at [OF assms(1)], assumption, simp, rule row_bumps)

lemma unassign_card_edits:
  assumes "board_inv b" "unassign_card owner now cid actor ex b = Inr (b', x)"
  shows "edits owner b b'"
  using assms(2) by (rule unassign_card_effect) (rule edits_at [OF assms(1)], assumption, simp, rule row_bumps)

lemma link_cards_edits: "link_cards owner now p c actor b = Inr b' \<Longrightarrow> edits owner b b'"
  by (rule edits_refl) (auto simp: link_cards_def ok_iffs split: option.splits if_splits)

lemma claim_card_edits:
  assumes inv: "board_inv b" and op: "claim_card owner now h1 h2 cid w l ign b = Inr (b', x)"
  shows "edits owner b b'"
  using inv op
proof (cases rule: claim_card_effect)
  case (taken row cmd p)
  show ?thesis
    by (rule edits_update [where P = "claim_guard cid (row_view owner b row)"])
      (use guard_unique [OF inv taken(1,2,4)] taken(3) in \<open>auto simp: taken(10) claimed_board_def row_bumps\<close>)
qed (auto intro: edits_refl)

lemma heartbeat_claim_edits:
  assumes inv: "board_inv b" and op: "heartbeat_claim owner now cid t l b = Inr (b', x)"
  shows "edits owner b b'"
proof (cases "b' = b")
  case False
  with op obtain old rp where old: "get_card owner b cid = Some old" "rp = (c_status old \<noteq> STATUS_IN_PROGRESS)"
    and b': "cards b' = update_rows (holds_claim cid t) (beat_row now l rp) (cards b)"
    by (auto simp: heartbeat_claim_def Let_def statement_iffs split: option.splits if_splits)
  show ?thesis using inv old(1) b'
    by (rule edits_found) (use found_row [OF inv old(1)] old(2) in \<open>auto simp: holds_claim_def intro!: beat_bump\<close>)
qed (auto intro: edits_refl)

lemma applied_locked_cards: "applied_locked owner cid t wid now b = Inr b' \<Longrightarrow> cards b' = cards b"
  by (auto simp: applied_locked_def on_ok_Inr_iff split: option.splits)

lemma set_worker_run_id_edits:
  assumes inv: "board_inv b" and op: "set_worker_run_id owner now cid t w b = Inr (b', x)"
  shows "edits owner b b'"
proof (cases "b' = b")
  case False
  with op obtain old rp where old: "get_card owner b cid = Some old" "rp = (c_status old \<noteq> STATUS_IN_PROGRESS)"
    and b': "cards b' = update_rows (holds_claim cid t) (worker_row now (strip w) rp) (cards b)"
    by (auto simp: set_worker_run_id_def Let_def statement_iffs split: option.splits if_splits
        dest!: applied_locked_cards)
  show ?thesis using inv old(1) b'
    by (rule edits_found) (use found_row [OF inv old(1)] old(2) in \<open>auto simp: holds_claim_def intro!: worker_bump\<close>)
qed (auto intro: edits_refl)

lemma finish_turns_cards: "finish_turns owner old oc now unc b = Inr (b1, st) \<Longrightarrow> cards b1 = cards b"
  by (auto simp: finish_turns_def on_ok_Inr_iff split: if_splits dest: finish_locked_cards)

lemma failure_note_cards [simp]: "cards (failure_note cid oc err now b) = cards b"
  by (simp add: failure_note_def)

lemma finish_claim_edits:
  assumes inv: "board_inv b" and op: "finish_claim owner now cid t oc res err delay actor unc b = Inr (b', x)"
  shows "edits owner b b'"
  using op
proof (rule finish_claim_effect)
  fix row outcome b1 st p
  assume row: "row \<in> set (cards b)" "c_id row = cid" "row_visible owner row"
    and turns: "finish_turns owner (row_view owner b row) outcome now unc b = Inr (b1, st)"
    and b': "b' = failure_note cid outcome (map_option (take MAX_ERROR_CHARS) err) now
         (record_event cid ''run_finished'' actor p now
           (update_runs (\<lambda>r. r_card_id r = cid \<and> r_claim_token r = t)
             (close_run (Run_finished outcome) (map_option (take MAX_ERROR_CHARS) err) now)
             (update_cards (holds_claim cid t) (release_claim st (map_option (take MAX_RESULT_CHARS) res)
                (map_option (take MAX_ERROR_CHARS) err) (retry_time outcome st now delay) now) b1)))"
  show ?thesis
    by (rule edits_update [where P = "holds_claim cid t"])
      (use same_id_row [OF inv row(1)] row in \<open>auto simp: b' finish_turns_cards [OF turns] row_bumps holds_claim_def\<close>)
qed

lemma recover_one_edits:
  assumes inv: "board_inv b" and row: "row \<in> set (cards b)"
    and op: "recover_one owner now row b = Inr b'"
  shows "edits owner b b'"
proof -
  let ?c = "row_view owner b row"
  have vis: "row_visible owner row" using op by (auto simp: recover_one_def on_ok_Inr_iff row_to_card_Inr_iff)
  have P: "row_visible owner x" if "x \<in> set (cards b)" "same_claim ?c x" for x
    using same_id [OF inv that(1) row] that(2) vis by (simp add: same_claim_def)
  show ?thesis
  proof (cases "lease_live now ?c")
    case True
    with op have "cards b' = update_rows (same_claim ?c) (restore_row now (restored_run b ?c)) (cards b)"
      by (auto simp: recover_one_def statement_iffs row_to_card_Inr_iff)
    then show ?thesis by (rule edits_update) (simp add: P row_bumps)
  next
    case False
    with op have "cards b' = update_rows (same_claim ?c) (expire_row now (expired_status ?c)) (cards b)"
      by (auto simp: recover_one_def statement_iffs row_to_card_Inr_iff split: if_splits dest!: finish_locked_cards)
    then show ?thesis by (rule edits_update) (simp add: P row_bumps)
  qed
qed

lemma recover_rows_edits:
  "board_inv b \<Longrightarrow> recover_rows owner now rows b = Inr b' \<Longrightarrow> distinct (map c_id rows)
    \<Longrightarrow> set rows \<subseteq> set (cards b) \<Longrightarrow> (\<And>r. r \<in> set rows \<Longrightarrow> c_claim_token r \<noteq> None) \<Longrightarrow> edits owner b b'"
proof (induction rows arbitrary: b)
  case (Cons row rows)
  from Cons.prems(2) obtain b1 where b1: "recover_one owner now row b = Inr b1" "recover_rows owner now rows b1 = Inr b'"
    by (auto simp: on_ok_Inr_iff)
  from Cons.prems(4) Cons.prems(5) [of row] obtain t where t: "row \<in> set (cards b)" "c_claim_token row = Some t"
    by auto
  have "edits owner b1 b'"
  proof (rule Cons.IH [OF recover_one_inv [OF Cons.prems(1) t b1(1)] b1(2)])
    show "set rows \<subseteq> set (cards b1)"
      using recover_rest [OF b1(1) Cons.prems(3,4)] .
  qed (use Cons.prems in auto)
  with recover_one_edits [OF Cons.prems(1) t(1) b1(1)] show ?case by (rule edits_trans)
qed (simp add: edits_refl)

lemma recover_expired_claims_edits:
  assumes inv: "board_inv b" and op: "recover_expired_claims owner now b = Inr (b', n)"
  shows "edits owner b b'"
proof -
  have "distinct (map c_id (cards b))" using inv by (simp add: board_inv_def struct_ok_def keys_ok_def)
  then have "distinct (map c_id (filter (needs_recovery owner now) (cards b)))" by (rule distinct_map_filter)
  with op show ?thesis
    by (auto simp: recover_expired_claims_def Let_def on_ok_Inr_iff needs_recovery_def intro: recover_rows_edits [OF inv])
qed

lemma reset_one_edits:
  assumes inv: "board_inv b" and row: "row \<in> set (cards b)" "row_visible owner row"
    and op: "reset_one owner now live row b = Inr (b', n)"
  shows "edits owner b b'"
  using op
proof (cases rule: reset_one_effect)
  case (2 c p tx)
  show ?thesis
    by (rule edits_update [where P = "\<lambda>r. c_id r = c_id row" and f = "reset_row now (orphan_status c)"])
      (use same_id [OF inv _ row(1)] row in \<open>auto simp: 2(3) row_bumps\<close>)
qed (simp add: edits_refl)

lemma reset_rows_edits:
  "board_inv b \<Longrightarrow> reset_rows owner now live rows b = Inr (b', n) \<Longrightarrow> distinct (map c_id rows)
    \<Longrightarrow> set rows \<subseteq> set (cards b) \<Longrightarrow> (\<And>r. r \<in> set rows \<Longrightarrow> row_visible owner r) \<Longrightarrow> edits owner b b'"
proof (induction rows arbitrary: b n)
  case (Cons row rows)
  from Cons.prems(2) obtain b1 k m where b1: "reset_one owner now live row b = Inr (b1, k)"
    "reset_rows owner now live rows b1 = Inr (b', m)"
    by (auto simp: on_ok_Inr_iff)
  have row: "row \<in> set (cards b)" "row_visible owner row" using Cons.prems(4,5) by auto
  have "edits owner b1 b'"
    by (rule Cons.IH [OF reset_one_inv [OF Cons.prems(1) row(1) b1(1)] b1(2) _ reset_rest [OF b1(1) Cons.prems(3,4)]])
      (use Cons.prems(3,5) in auto)
  with reset_one_edits [OF Cons.prems(1) row b1(1)] show ?case by (rule edits_trans)
qed (simp add: edits_refl)

lemma reset_orphaned_edits:
  assumes inv: "board_inv b" and op: "reset_orphaned owner now live b = Inr (b', n)"
  shows "edits owner b b'"
proof -
  have "distinct (map c_id (cards b))" using inv by (simp add: board_inv_def struct_ok_def keys_ok_def)
  with op show ?thesis
    by (auto simp: reset_orphaned_def row_visible_sql intro!: reset_rows_edits [OF inv] distinct_map_filter)
qed

lemma enqueue_edits:
  assumes inv: "board_inv b" and op: "enqueue pid digest owner now conv cid k rv tx b = Inr (b', w)"
  shows "edits owner b b'"
  using op
proof (cases rule: enqueue_effect)
  case (queued c b1 p q fp)
  have "cards b' = update_rows (\<lambda>r. c_id r = cid)
      (resume_row now (if truthy (c_claim_token c) then STATUS_IN_PROGRESS else STATUS_READY)) (cards b)"
    using queued(9,10) by (auto simp: insert_command_Inr_iff)
  with inv queued(1) show ?thesis by (rule edits_found) (simp_all add: row_bumps)
qed (simp add: edits_refl)

lemma advance_boundary_edits:
  assumes "advance_boundary pid owner now cid t done b = Inr (b', w)" shows "edits owner b b'"
  using assms
proof (cases rule: advance_boundary_effect)
  case (moved c q b1 nx)
  then show ?thesis using deliver_next_effect [OF moved(12)] by (intro edits_refl) (simp add: complete_turn_def)
qed (simp add: edits_refl)

lemma settle_reconciliation_effect:
  assumes "settle_reconciliation owner now x res b = Inr (b', y)"
  obtains (idle) "b' = b" "y = None"
    | (committed) w resp run rest where "checked_result x res = Some (w, resp, run)"
      "pending_reconciliations owner b (x_seq x - 1) 1 = x # rest"
      "commit_result now x w resp run b = Inr b'" "y = get_card owner b' (x_cardId x)"
proof (cases "checked_result x res")
  case None
  with assms show ?thesis by (intro idle) (auto simp: settle_reconciliation_def)
next
  case (Some a)
  obtain w resp run where a: "a = (w, resp, run)" by (cases a)
  show ?thesis
  proof (cases "pending_reconciliations owner b (x_seq x - 1) 1")
    case Nil
    with assms Some a show ?thesis by (intro idle) (auto simp: settle_reconciliation_def)
  next
    case (Cons z rest)
    with assms Some a show ?thesis
      by (cases "z = x")
        (auto simp: settle_reconciliation_def on_ok_Inr_iff intro: idle committed [of w resp run rest])
  qed
qed

lemma settle_reconciliation_edits:
  assumes inv: "board_inv b" and op: "settle_reconciliation owner now x res b = Inr (b', y)"
  shows "edits owner b b'"
  using op
proof (cases rule: settle_reconciliation_effect)
  case (committed w resp run rest)
  from committed(2) show ?thesis
  proof (rule reconciliation_row)
    fix q k r assume k: "k \<in> set (cards b)" "reconcilable owner b (x_seq x - 1) q k r" "x_cardId x = c_id k"
    then have vis: "row_visible owner k" by (simp add: reconcilable_def row_visible_sql)
    have "cards b' = update_rows (\<lambda>r. c_id r = x_cardId x)
        (settle_row now (result_card_status w) (map_option (take MAX_RESULT_CHARS) resp) (result_error w)) (cards b)"
      using committed(3) by (auto simp: commit_result_def statement_iffs)
    then show ?thesis
      by (rule edits_update) (use vis same_id [OF inv _ k(1)] k(3) in \<open>auto simp: row_bumps\<close>)
  qed
qed (simp add: edits_refl)

lemma response_intent_edits:
  assumes inv: "board_inv b" and op: "response_intent pid digest dumps owner now conv cid k rv payload b = Inr (b', new, w)"
  shows "edits owner b b'"
  using op
proof (cases rule: response_intent_effect)
  case (recorded c b1 p key fp tx)
  have "cards b' = update_rows (\<lambda>r. c_id r = cid) (answer_row now) (cards b)"
    using recorded(2,3) by (auto simp: insert_command_Inr_iff)
  with inv recorded(1) show ?thesis by (rule edits_found) (simp_all add: row_bumps)
qed (simp add: edits_refl)

lemma settle_response_edits: "settle_response pid owner now k st b = Inr (b', w) \<Longrightarrow> edits owner b b'"
  by (rule edits_refl) (auto simp: settle_response_def turn_iffs Let_def split: if_splits)

lemma cancel_edits:
  assumes inv: "board_inv b" and op: "cancel pid digest owner now conv cid k rv b = Inr (b', w)"
  shows "edits owner b b'"
  using op
proof (cases rule: cancel_effect)
  case (requested c b1 p key fp st)
  have "cards b' = update_rows (\<lambda>r. c_id r = cid) (stop_row now (if st = Q_stopped then STATUS_CANCELLED else c_status c)) (cards b)"
    using requested(4,5) by (auto simp: insert_command_Inr_iff)
  with inv requested(1) show ?thesis by (rule edits_found) (simp_all add: row_bumps)
qed (simp add: edits_refl)

lemma bind_stop_goal_edits: "bind_stop_goal owner now k g st b = Inr (b', w) \<Longrightarrow> edits owner b b'"
  by (rule edits_refl) (auto simp: bind_stop_goal_def ok_iffs simp del: json_of_opt.simps elim: bind_first_effect)

lemma settle_stop_edits:
  assumes inv: "board_inv b" and op: "settle_stop owner now k s ws b = Inr b'"
  shows "edits owner b b'"
  using op
proof (cases rule: settle_stop_effect)
  case (settled q c)
  have id: "c_id c = q_card_id q" using settled(2) by (rule get_card_SomeE) simp
  obtain st where "cards b' = update_rows (\<lambda>r. c_id r = q_card_id q) (stop_row now st) (cards b)"
    using settled(4) id by (auto simp: commit_stop_def statement_iffs stop_event_def)
  with inv settled(2) show ?thesis by (rule edits_found) (simp_all add: row_bumps)
qed (simp_all add: edits_refl stop_event_def)

section \<open>Creation and deletion\<close>

definition appends :: "request_owner option \<Rightarrow> board \<Rightarrow> board \<Rightarrow> bool" where
  "appends owner b b' \<longleftrightarrow> (\<exists>c. cards b' = cards b @ [c] \<and> c_id c \<notin> card_ids b \<and> row_visible owner c)"

definition removes :: "request_owner option \<Rightarrow> board \<Rightarrow> board \<Rightarrow> bool" where
  "removes owner b b' \<longleftrightarrow> (\<exists>P. cards b' = filter (\<lambda>c. \<not> P c) (cards b)
     \<and> (\<forall>c \<in> set (cards b). P c \<longrightarrow> row_visible owner c \<and> c_claim_token c = None))"

lemma new_card_visible:
  "new_card digest owner now hex a = Inr (c, oo) \<Longrightarrow> row_visible owner c"
  by (cases "c_execution_mode c")
    (auto dest!: new_card_ok simp: row_visible_def owner_uid_def Let_def split: option.splits)

lemma seed_first_cards: "seed_first owner now c oo b = Inr b' \<Longrightarrow> cards b' = cards b"
  by (auto simp: seed_first_def seed_locked_def on_ok_Inr_iff insert_command_Inr_iff split: if_splits)

lemma add_card_appends:
  assumes "add_card digest owner now hex a b = Inr (b', x)"
  shows "b' = b \<or> appends owner b b'"
  using assms
proof (cases rule: add_card_cases)
  case (made c oo)
  from made(2) obtain b1 p where "insert_card c b = Inr b1"
    "seed_first owner now c oo (record_event (c_id c) ''created'' (c_created_by c) p now b1) = Inr b'"
    by (auto simp: create_card_def on_ok_Inr_iff returning_Inr_iff)
  then have "cards b' = cards b @ [c]" "c_id c \<notin> card_ids b"
    by (auto simp: insert_card_Inr_iff card_ids_def dest!: seed_first_cards)
  with new_card_visible [OF made(1)] show ?thesis unfolding appends_def by blast
qed (auto dest: replay_card_same)

lemma delete_card_removes:
  assumes inv: "board_inv b" and op: "delete_card owner cid b = Inr (b', x)"
  shows "b' = b \<or> removes owner b b'"
proof (cases "get_card owner b cid")
  case (Some old)
  with op have u: "\<not> truthy (c_claim_token old)" and b': "b' = delete_cards (\<lambda>c. c_id c = cid) b"
    by (auto simp: delete_card_def ok_iffs)
  have "row_visible owner c \<and> c_claim_token c = None" if "c \<in> set (cards b)" "c_id c = cid" for c
    using found_row [OF inv Some that] unclaimed_row [OF inv Some u that] by simp
  then show ?thesis unfolding removes_def b' delete_cards_fields by (intro disjI2 exI [of _ "\<lambda>c. c_id c = cid"]) simp
qed (use op in \<open>simp add: delete_card_def\<close>)

lemma delete_by_status_removes:
  assumes "delete_by_status owner st b = Inr (b', n)"
  shows "removes owner b b'"
proof -
  from assms obtain v where b': "b' = delete_cards (\<lambda>c. c_status c = v \<and> c_claim_token c = None \<and> visibility_sql owner c) b"
    by (auto simp: delete_by_status_def ok_iffs Let_def)
  show ?thesis unfolding removes_def b' delete_cards_fields
    by (intro exI [of _ "\<lambda>c. c_status c = v \<and> c_claim_token c = None \<and> visibility_sql owner c"])
      (simp add: row_visible_sql)
qed

end
