(* ===== verification/Board_Machine.thy ===== *)
theory Board_Machine
  imports Board_Changes
begin

text \<open>
  The board as a transition system: one step is one successful operation under some request
  owner. The invariant holds in every state reached from an empty board, and a step is bounded by
  the visibility of its owner and by the revision counter.
\<close>

section \<open>Steps\<close>

inductive board_op :: "request_owner option \<Rightarrow> board \<Rightarrow> board \<Rightarrow> bool" for owner where
  op_add: "add_card digest owner now hex a b = Inr (b', x) \<Longrightarrow> board_op owner b b'"
| op_status: "set_status owner now cid st res err cr cs ex actor b = Inr (b', x) \<Longrightarrow> board_op owner b b'"
| op_run_id: "set_run_id owner now cid run b = Inr (b', x) \<Longrightarrow> board_op owner b b'"
| op_update: "update_card owner now cid u ex actor b = Inr (b', x) \<Longrightarrow> board_op owner b b'"
| op_note: "add_note owner now cid author t ex b = Inr (b', n) \<Longrightarrow> board_op owner b b'"
| op_assign: "assign_card owner now cid pf bt actor ready ex b = Inr (b', x) \<Longrightarrow> board_op owner b b'"
| op_unassign: "unassign_card owner now cid actor ex b = Inr (b', x) \<Longrightarrow> board_op owner b b'"
| op_link: "link_cards owner now p c actor b = Inr b' \<Longrightarrow> board_op owner b b'"
| op_claim: "claim_card owner now h1 h2 cid w l ign b = Inr (b', y) \<Longrightarrow> board_op owner b b'"
| op_heartbeat: "heartbeat_claim owner now cid tok l b = Inr (b', ok) \<Longrightarrow> board_op owner b b'"
| op_worker: "set_worker_run_id owner now cid tok w b = Inr (b', ok) \<Longrightarrow> board_op owner b b'"
| op_finish: "finish_claim owner now cid tok oc rs er delay actor unc b = Inr (b', x) \<Longrightarrow> board_op owner b b'"
| op_recover: "recover_expired_claims owner now b = Inr (b', k) \<Longrightarrow> board_op owner b b'"
| op_delete: "delete_card owner cid b = Inr (b', ok) \<Longrightarrow> board_op owner b b'"
| op_clear: "delete_by_status owner st b = Inr (b', k) \<Longrightarrow> board_op owner b b'"
| op_reset: "reset_orphaned owner now live b = Inr (b', k) \<Longrightarrow> board_op owner b b'"
| op_enqueue: "enqueue pid digest owner now conv cid v1 v2 v3 b = Inr (b', w2) \<Longrightarrow> board_op owner b b'"
| op_boundary: "advance_boundary pid owner now cid tok fin b = Inr (b', w3) \<Longrightarrow> board_op owner b b'"
| op_reconcile: "settle_reconciliation owner now cand rep b = Inr (b', c0) \<Longrightarrow> board_op owner b b'"
| op_respond: "response_intent pid digest dumps owner now conv cid v1 v2 pl b = Inr (b', ok, w2) \<Longrightarrow> board_op owner b b'"
| op_settle_response: "settle_response pid owner now k1 st b = Inr (b', w2) \<Longrightarrow> board_op owner b b'"
| op_cancel: "cancel pid digest owner now conv cid v1 v2 b = Inr (b', w2) \<Longrightarrow> board_op owner b b'"
| op_bind: "bind_stop_goal owner now k1 v1 v2 b = Inr (b', js) \<Longrightarrow> board_op owner b b'"
| op_settle_stop: "settle_stop owner now k1 st ws b = Inr b' \<Longrightarrow> board_op owner b b'"

definition board_step :: "board \<Rightarrow> board \<Rightarrow> bool" where
  "board_step b b' \<longleftrightarrow> (\<exists>owner. board_op owner b b')"

lemma board_op_inv:
  assumes "board_op owner b b'" "board_inv b"
  shows "board_inv b'"
  using assms
  by (induction rule: board_op.induct)
    (blast intro: add_card_inv set_status_inv set_run_id_inv update_card_inv add_note_inv assign_card_inv
      unassign_card_inv link_cards_inv claim_card_inv heartbeat_claim_inv set_worker_run_id_inv
      finish_claim_inv recover_expired_claims_inv delete_card_inv delete_by_status_inv
      reset_orphaned_inv enqueue_inv advance_boundary_inv settle_reconciliation_inv
      response_intent_inv settle_response_inv cancel_inv bind_stop_goal_inv settle_stop_inv)+

interpretation board: guarded_system "\<lambda>b. b = empty_board" board_step board_inv
proof
  show "s = empty_board \<Longrightarrow> board_inv s" for s by (simp add: board_inv_empty)
  show "board_inv s \<Longrightarrow> board_step s t \<Longrightarrow> board_inv t" for s t
    by (auto simp: board_step_def intro: board_op_inv)
qed

lemma board_op_shape:
  assumes "board_op owner b b'" "board_inv b"
  shows "edits owner b b' \<or> appends owner b b' \<or> removes owner b b'"
  using assms
proof (induction rule: board_op.induct)
  case (op_add digest now hex a b b' x)
  then show ?case using add_card_appends edits_refl by metis
next
  case (op_delete cid b b' ok)
  then show ?case using delete_card_removes edits_refl by metis
qed (blast intro: set_status_edits set_run_id_edits update_card_edits add_note_edits assign_card_edits
      unassign_card_edits link_cards_edits claim_card_edits heartbeat_claim_edits set_worker_run_id_edits
      finish_claim_edits recover_expired_claims_edits delete_by_status_removes reset_orphaned_edits
      enqueue_edits advance_boundary_edits settle_reconciliation_edits response_intent_edits
      settle_response_edits cancel_edits bind_stop_goal_edits settle_stop_edits)+

lemma appends_old: "appends owner b b' \<Longrightarrow> c \<in> set (cards b) \<Longrightarrow> c \<in> set (cards b')"
  by (auto simp: appends_def)

lemma removes_old: "removes owner b b' \<Longrightarrow> c \<in> set (cards b') \<Longrightarrow> c \<in> set (cards b)"
  by (auto simp: removes_def)

end
