(* ===== verification/Board_Protocol.thy ===== *)
theory Board_Protocol
  imports Board_Machine
begin

text \<open>
  What the claim protocol promises its callers: when a claim is granted and what it writes, that
  a claim is exclusive and is finished exactly once, the retry rule, the recovery of expired
  claims and the dependency check.
\<close>

section \<open>Granting claims\<close>

text \<open>The abstract rule a claim is granted by.\<close>

definition due :: "bool \<Rightarrow> real \<Rightarrow> card \<Rightarrow> bool" where
  "due ignore_schedule now c \<longleftrightarrow> ignore_schedule \<or> c_scheduled_at c = None \<or> the (c_scheduled_at c) \<le> now"

definition parents_done :: "board \<Rightarrow> string \<Rightarrow> bool" where
  "parents_done b cid \<longleftrightarrow> (\<forall>p \<in> set (cards b). (c_id p, cid) \<in> link_pairs (card_links b) \<longrightarrow> c_status p = STATUS_DONE)"

definition has_turn :: "board \<Rightarrow> card \<Rightarrow> bool" where
  "has_turn b c \<longleftrightarrow> c_execution_mode c = Voice \<longrightarrow>
     (\<exists>q \<in> set (card_commands b). is_queued (c_id c) q)
     \<and> (\<forall>q \<in> set (card_commands b). \<not> is_unsettled (c_id c) q \<and> \<not> is_pending_stop (c_id c) q)"

definition grantable :: "bool \<Rightarrow> real \<Rightarrow> board \<Rightarrow> card \<Rightarrow> bool" where
  "grantable ign now b c \<longleftrightarrow> c_claim_token c = None
     \<and> c_status c \<in> {STATUS_TODO, STATUS_READY, STATUS_WAITING}
     \<and> due ign now c \<and> parents_done b (c_id c) \<and> has_turn b c"

lemma blocked_iff: "blocked_by_parent b cid \<longleftrightarrow> \<not> parents_done b cid"
  by (auto simp: blocked_by_parent_def parents_done_def link_pairs_def list_ex_iff)

lemma next_exists:
  "id_visible owner b (c_id c) \<Longrightarrow> c_execution_mode c = Voice \<Longrightarrow>
    has_turn b c \<longleftrightarrow> (\<exists>q. next_locked owner b (c_id c) = Inr (Some q))"
  using first_by_seq_None_iff [of "is_queued (c_id c)" b]
  by (auto simp: has_turn_def next_locked_iff split: if_splits)

lemma row_get_card:
  "board_inv b \<Longrightarrow> c \<in> set (cards b) \<Longrightarrow> row_visible owner c \<Longrightarrow> get_card owner b (c_id c) = Some (row_view owner b c)"
  using card_row_eq by (simp add: get_card_def)

lemma row_id_visible: "board_inv b \<Longrightarrow> c \<in> set (cards b) \<Longrightarrow> id_visible owner b (c_id c) = row_visible owner c"
  using card_row_eq by (simp add: id_visible_def)

text \<open>The row a granted claim leaves.\<close>

definition granted_row :: "real \<Rightarrow> real \<Rightarrow> string \<Rightarrow> string \<Rightarrow> card \<Rightarrow> card" where
  "granted_row now lease run token c = take_claim now lease run token (c_attempt_count c + 1) c"

lemma claim_refused:
  assumes inv: "board_inv b" and c: "c \<in> set (cards b)" and no: "\<not> grantable ign now b c"
    and op: "claim_card owner now h1 h2 (c_id c) w l ign b = Inr (b', x)"
  shows "b' = b \<and> x = None"
  using inv op
proof (cases rule: claim_card_effect)
  case (taken row cmd p)
  have row: "row = c" using same_id [OF inv taken(1) c] taken(2) by simp
  have "id_visible owner b (c_id c)" using row_id_visible [OF inv c] taken(3) row by simp
  then have "has_turn b c"
    using taken(7) row next_exists [of owner b c] by (auto simp: has_turn_def split: if_splits)
  with taken row no show ?thesis
    by (auto simp: grantable_def claimable_status_def due_def blocked_iff)
qed simp

lemma take_claim_visible [simp]: "row_visible owner (take_claim now l run t n c) = row_visible owner c"
  by (simp add: take_claim_def row_visible_def Let_def)

lemma guarded_row:
  assumes inv: "board_inv b" and c: "c \<in> set (cards b)" "c_claim_token c = None" and f: "\<And>x. c_id (f x) = c_id x"
  shows "card_row (update_cards (claim_guard (c_id c) (row_view owner b c)) f b) (c_id c) = Some (f c)"
  unfolding card_row_def update_cards_fields
  using card_row_eq [OF inv c(1)] guard_unique [OF inv c(1) refl c(2) c(1)]
  by (subst row_with_update_rows) (simp_all add: card_row_def f)

lemma delivery_ok:
  assumes inv: "board_inv b" and n: "next_locked owner b cid = Inr (Some q)"
    and b2: "card_commands b2 = card_commands b" "id_visible owner b2 cid"
  shows "\<exists>b3. claim_locked owner (q_command_id q) t now b2 = Inr b3"
proof -
  have "command_row b2 (q_command_id q) = Some q"
    using inv next_lockedD(1) [OF n] b2(1) unfolding command_row_def
    by (intro row_with_eqI) (auto simp: board_inv_def struct_ok_def keys_ok_def)
  moreover have "q_card_id q = cid" using next_lockedD(2) [OF n] by (simp add: is_queued_def)
  ultimately show ?thesis using b2(2) by (simp add: claim_locked_def require_command_card_def require_card_def)
qed

lemma claim_granted:
  assumes inv: "board_inv b" and c: "c \<in> set (cards b)" "row_visible owner c" and yes: "grantable ign now b c"
    and w: "strip w \<noteq> []" "length (strip w) \<le> 128" "15 \<le> l" "l \<le> 600"
    and fresh: "''board_run_'' @ h2 \<notin> r_id ` set (card_runs b)"
  obtains b' y where "claim_card owner now h1 h2 (c_id c) w l ign b = Inr (b', Some y)"
    "card_row b' (c_id c) = Some (granted_row now l (''board_run_'' @ h2) (''claim_'' @ h1) c)"
proof -
  let ?cid = "c_id c" and ?old = "row_view owner b c"
  let ?f = "take_claim now l (''board_run_'' @ h2) (''claim_'' @ h1) (c_attempt_count c + 1)"
  have none: "c_claim_token c = None" and st: "claimable_status (c_status c)" and pd: "parents_done b ?cid"
    and dd: "due ign now c" and ht: "has_turn b c"
    using yes by (auto simp: grantable_def claimable_status_def)
  have vis: "id_visible owner b ?cid" using row_id_visible [OF inv c(1)] c(2) by simp
  obtain cmd where cmd: "(if c_execution_mode c = Voice then next_locked owner b ?cid else Inr None) = Inr cmd"
    "\<not> (c_execution_mode c = Voice \<and> cmd = None)"
    using next_exists [OF vis] ht by (cases "c_execution_mode c = Voice") auto
  let ?b1 = "update_cards (claim_guard ?cid ?old) ?f b"
  have trig: "update_cards_status (claim_guard ?cid ?old) ?f b = Inr ?b1"
    by (auto simp: update_cards_status_Inr_iff claim_guard_def claim_trigger_def)
  let ?r = "run_row (''board_run_'' @ h2) ?cid (c_attempt_count c + 1) (strip w) (''claim_'' @ h1) now"
  let ?b2 = "?b1\<lparr>card_runs := card_runs b @ [?r]\<rparr>"
  have ins: "insert_run ?r ?b1 = Inr ?b2" using fresh by (simp add: insert_run_Inr_iff run_row_def)
  have row1: "card_row ?b1 ?cid = Some (?f c)" using inv c(1) none by (rule guarded_row) simp
  have "id_visible owner ?b2 ?cid" using row1 c(2) by (simp add: id_visible_def card_row_def)
  then have "\<exists>b3. (case cmd of None \<Rightarrow> Inr ?b2 | Some q \<Rightarrow> claim_locked owner (q_command_id q) (''claim_'' @ h1) now ?b2) = Inr b3"
    using cmd(1) delivery_ok [OF inv, of owner ?cid _ ?b2] by (cases cmd) (auto split: if_splits)
  then obtain b3 where b3: "(case cmd of None \<Rightarrow> Inr ?b2 | Some q \<Rightarrow> claim_locked owner (q_command_id q) (''claim_'' @ h1) now ?b2) = Inr b3"
    by blast
  let ?b4 = "record_event ?cid ''claimed'' (strip w) [(''runId'', JStr (''board_run_'' @ h2)), (''attempt'', JInt (c_attempt_count c + 1))] now b3"
  have cs3: "cards b3 = cards ?b1" using deliver_claim [OF b3] by simp
  then have row4: "card_row ?b4 ?cid = Some (?f c)" using row1 by (simp add: card_row_def)
  then obtain y where y: "get_card_full owner ?b4 ?cid = Some y"
    using c(2) by (simp add: get_card_full_def get_card_def)
  have "claim_card owner now h1 h2 ?cid w l ign b = Inr (?b4, Some y)"
    using w none st pd dd cmd trig ins b3 y guard_count [OF inv c(1) refl none, of owner]
    by (auto simp: claim_card_def Let_def row_get_card [OF inv c] blocked_iff due_def run_row_def
        split: option.splits)
  then show thesis using row4 by (rule that [unfolded granted_row_def])
qed

lemma claim_row_after:
  assumes inv: "board_inv b" and op: "claim_card owner now h1 h2 cid w l ign b = Inr (b', Some x)"
  obtains c where "c \<in> set (cards b)" "c_id c = cid" "grantable ign now b c"
    "granted_row now l (''board_run_'' @ h2) (''claim_'' @ h1) c \<in> set (cards b')"
  using inv op
proof (cases rule: claim_card_effect)
  case (taken row cmd p)
  have "grantable ign now b row"
    using claim_refused [OF inv taken(1)] op taken(2) by blast
  moreover have "granted_row now l (''board_run_'' @ h2) (''claim_'' @ h1) row \<in> set (cards b')"
    using guard_unique [OF inv taken(1,2,4) taken(1)] taken(1)
    by (auto simp: taken(10) claimed_board_def granted_row_def set_update_rows)
  ultimately show ?thesis using taken(1,2) by (intro that)
qed simp

section \<open>Finishing claims\<close>

lemma release_visible [simp]: "row_visible owner (release_claim st res err sd now c) = row_visible owner c"
  by (simp add: release_claim_def row_visible_def Let_def)

lemma finish_locked_ok:
  assumes "id_visible owner b (c_id c)" shows "\<exists>r. finish_locked owner c oc now unc b = Inr r"
proof -
  have keep: "id_visible owner b2 (c_id c)" if "cards b2 = cards b" for b2
    using assms that by (simp add: id_visible_def card_row_def)
  have "cards (mark_unverified c now (settle_in_flight c st now b)) = cards b" for st
    by (simp add: mark_unverified_def settle_in_flight_def split: option.split)
  moreover have "cards (settle_in_flight c st now b) = cards b" for st by (simp add: settle_in_flight_def)
  ultimately show ?thesis
    using assms keep by (auto simp: finish_locked_def Let_def require_card_def on_ok_Inr_iff next_locked_iff
        intro!: exI split: if_splits)
qed

text \<open>A worker that holds the claim can always finish it.\<close>

lemma finish_claim_ok:
  assumes inv: "board_inv b" and c: "c \<in> set (cards b)" "row_visible owner c" "c_claim_token c = Some t"
    and oc: "parse_outcome oc = Some outcome"
  obtains b' y b1 st where "finish_claim owner now (c_id c) t oc res err delay actor unc b = Inr (b', y)"
    "finish_turns owner (row_view owner b c) outcome now unc b = Inr (b1, st)"
    "card_row b' (c_id c) = Some (release_claim st (map_option (take MAX_RESULT_CHARS) res)
       (map_option (take MAX_ERROR_CHARS) err) (retry_time outcome st now delay) now c)"
proof -
  have vis: "id_visible owner b (c_id c)" using row_id_visible [OF inv c(1)] c(2) by simp
  obtain b1 st where turns: "finish_turns owner (row_view owner b c) outcome now unc b = Inr (b1, st)"
    using finish_locked_ok [of owner b "row_view owner b c" outcome now unc] vis
    by (cases "c_execution_mode c = Voice") (auto simp: finish_turns_def on_ok_Inr_iff split: prod.splits)
  let ?f = "release_claim st (map_option (take MAX_RESULT_CHARS) res)
       (map_option (take MAX_ERROR_CHARS) err) (retry_time outcome st now delay) now"
  have cs: "cards b1 = cards b" using turns by (rule finish_turns_cards)
  have upd: "update_cards_status (holds_claim (c_id c) t) ?f b1 = Inr (update_cards (holds_claim (c_id c) t) ?f b1)"
    by (auto simp: update_cards_status_Inr_iff claim_trigger_def release_claim_def)
  have row: "row_with c_id (c_id c) (update_rows (holds_claim (c_id c) t) ?f (cards b)) = Some (?f c)"
    using card_row_eq [OF inv c(1)] c(3) by (subst row_with_update_rows) (simp_all add: card_row_def holds_claim_def)
  define b' where "b' = failure_note (c_id c) outcome (map_option (take MAX_ERROR_CHARS) err) now
         (record_event (c_id c) ''run_finished'' actor
           [(''outcome'', JStr (outcome_text outcome)), (''status'', JStr (status_text st)),
            (''attempt'', JInt (c_attempt_count c))] now
           (update_runs (\<lambda>r. r_card_id r = c_id c \<and> r_claim_token r = t)
             (close_run (Run_finished outcome) (map_option (take MAX_ERROR_CHARS) err) now)
             (update_cards (holds_claim (c_id c) t) ?f b1)))"
  have row': "card_row b' (c_id c) = Some (?f c)" using row by (simp add: b'_def card_row_def cs)
  then obtain y where "get_card_full owner b' (c_id c) = Some y"
    using c(2) by (simp add: get_card_full_def get_card_def)
  then have "finish_claim owner now (c_id c) t oc res err delay actor unc b = Inr (b', y)"
    using c oc turns upd unfolding b'_def
    by (simp add: finish_claim_def Let_def row_get_card [OF inv c(1,2)] returning_def)
  then show thesis using turns row' by (rule that)
qed

lemma parse_outcome_text [simp]: "parse_outcome (outcome_text v) = Some v"
  by (cases v) (simp_all add: parse_outcome_def)

text \<open>Once finished, the token is dead.\<close>

lemma finish_claim_stale:
  assumes inv: "board_inv b" and op: "finish_claim owner now cid t oc res err delay actor unc b = Inr (b', x)"
  shows "finish_claim owner' now' cid t oc' res' err' delay' actor' unc' b' \<noteq> Inr y"
proof
  assume again: "finish_claim owner' now' cid t oc' res' err' delay' actor' unc' b' = Inr y"
  obtain b2 z where y: "y = (b2, z)" by (cases y)
  have inv': "board_inv b'" using inv op by (rule finish_claim_inv)
  from again [unfolded y] obtain row' where row': "row' \<in> set (cards b')" "c_id row' = cid" "c_claim_token row' = Some t"
    by (rule finish_claim_effect)
  from op show False
  proof (rule finish_claim_effect)
    fix row outcome b1 st p
    assume row: "row \<in> set (cards b)" "c_id row = cid" "c_claim_token row = Some t"
      and turns: "finish_turns owner (row_view owner b row) outcome now unc b = Inr (b1, st)"
      and b': "b' = failure_note cid outcome (map_option (take MAX_ERROR_CHARS) err) now
         (record_event cid ''run_finished'' actor p now
           (update_runs (\<lambda>r. r_card_id r = cid \<and> r_claim_token r = t)
             (close_run (Run_finished outcome) (map_option (take MAX_ERROR_CHARS) err) now)
             (update_cards (holds_claim cid t) (release_claim st (map_option (take MAX_RESULT_CHARS) res)
                (map_option (take MAX_ERROR_CHARS) err) (retry_time outcome st now delay) now) b1)))"
    let ?f = "release_claim st (map_option (take MAX_RESULT_CHARS) res)
                (map_option (take MAX_ERROR_CHARS) err) (retry_time outcome st now delay) now"
    have "?f row \<in> set (cards b')"
      using row finish_turns_cards [OF turns] by (auto simp: b' set_update_rows holds_claim_def)
    moreover have "c_id (?f row) = cid" "c_claim_token (?f row) = None" using row by (simp_all add: release_claim_def)
    ultimately show False using same_id [OF inv' row'(1)] row' by (metis option.distinct(1))
  qed
qed

section \<open>Recovery of expired claims\<close>

lemma row_view_fields: "fields_ok c \<Longrightarrow> c_max_attempts (row_view owner b c) = c_max_attempts c"
  by (auto simp: row_view_def fields_ok_def)

lemma expired_status_view: "fields_ok c \<Longrightarrow> expired_status (row_view owner b c) = expired_status c"
  by (simp add: expired_status_def row_view_fields)

lemma inv_fields: "board_inv b \<Longrightarrow> c \<in> set (cards b) \<Longrightarrow> fields_ok c"
  by (simp add: board_inv_def all_fields_ok_def)

text \<open>Under the invariant a row that needs recovery has an expired lease, so the loop releases it.\<close>

lemma needs_recovery_expired:
  assumes "board_inv b" "c \<in> set (cards b)" "needs_recovery owner now c"
  shows "\<not> lease_live now c"
proof -
  obtain t where "c_claim_token c = Some t" using assms(3) by (auto simp: needs_recovery_def)
  with token_running [OF assms(1,2)] have "c_status c = STATUS_IN_PROGRESS" "c_lease_expires_at c \<noteq> None" by blast+
  with assms(3) show ?thesis by (auto simp: needs_recovery_def lease_live_def)
qed

lemma recover_one_expired:
  assumes inv: "board_inv b" and c: "c \<in> set (cards b)" "c_claim_token c \<noteq> None" "row_visible owner c"
    and ex: "\<not> lease_live now c"
  obtains b' where "recover_one owner now c b = Inr b'"
    "cards b' = map (\<lambda>x. if x = c then expire_row now (expired_status c) c else x) (cards b)"
proof -
  let ?v = "row_view owner b c"
  have ll: "\<not> lease_live now ?v" using ex by (simp add: lease_live_def)
  have vis: "id_visible owner b (c_id ?v)" using row_id_visible [OF inv c(1)] c(3) by simp
  obtain b1 where b1: "(if c_execution_mode c = Voice then on_ok (finish_locked owner ?v O_failed now True b) (\<lambda>(b1, _). Inr b1)
      else Inr b) = Inr b1" "cards b1 = cards b"
    using finish_locked_ok [OF vis, of O_failed now True] finish_locked_cards
    by (cases "c_execution_mode c = Voice") (fastforce simp: on_ok_Inr_iff)+
  have P: "same_claim ?v x \<longleftrightarrow> x = c" if "x \<in> set (cards b)" for x
    using same_id [OF inv that c(1)] c(2) by (auto simp: same_claim_def token_matches_def)
  let ?f = "expire_row now (expired_status ?v)"
  have upd: "update_cards_status (same_claim ?v) ?f b1 = Inr (update_cards (same_claim ?v) ?f b1)"
    by (auto simp: update_cards_status_Inr_iff claim_trigger_def expire_row_def)
  have "update_rows (same_claim ?v) ?f (cards b) = map (\<lambda>x. if x = c then expire_row now (expired_status c) c else x) (cards b)"
    using P expired_status_view [OF inv_fields [OF inv c(1)]] by (auto simp: update_rows_def)
  then show thesis
    using that b1 upd ll c(3) by (simp add: recover_one_def row_to_card_def)
qed

lemma recover_rows_expired:
  "board_inv b \<Longrightarrow> set rows \<subseteq> set (cards b) \<Longrightarrow> distinct (map c_id rows)
    \<Longrightarrow> (\<And>r. r \<in> set rows \<Longrightarrow> c_claim_token r \<noteq> None \<and> row_visible owner r \<and> \<not> lease_live now r)
    \<Longrightarrow> \<exists>b'. recover_rows owner now rows b = Inr b'
      \<and> cards b' = map (\<lambda>x. if x \<in> set rows then expire_row now (expired_status x) x else x) (cards b)"
proof (induction rows arbitrary: b)
  case (Cons r rows)
  have r: "r \<in> set (cards b)" "c_claim_token r \<noteq> None" "row_visible owner r" "\<not> lease_live now r"
    using Cons.prems(2,4) by auto
  obtain b1 where b1: "recover_one owner now r b = Inr b1"
    "cards b1 = map (\<lambda>x. if x = r then expire_row now (expired_status r) r else x) (cards b)"
    using recover_one_expired [OF Cons.prems(1) r] .
  obtain t where t: "c_claim_token r = Some t" using r(2) by auto
  have inv1: "board_inv b1" using recover_one_inv [OF Cons.prems(1) r(1) t b1(1)] .
  have sub: "set rows \<subseteq> set (cards b1)" using recover_rest [OF b1(1) Cons.prems(3,2)] .
  obtain b' where b': "recover_rows owner now rows b1 = Inr b'"
    "cards b' = map (\<lambda>x. if x \<in> set rows then expire_row now (expired_status x) x else x) (cards b1)"
    using Cons.IH [OF inv1 sub] Cons.prems(3,4) by auto
  have new: "expire_row now (expired_status r) r \<notin> set rows"
    using Cons.prems(4) [of "expire_row now (expired_status r) r"] by (auto simp: expire_row_def)
  have "r \<notin> set rows" using Cons.prems(3) by auto
  then have "cards b' = map (\<lambda>x. if x \<in> set (r # rows) then expire_row now (expired_status x) x else x) (cards b)"
    using new by (auto simp: b'(2) b1(2))
  then show ?case using b1(1) b'(1) by (simp add: on_ok_Inr_iff)
qed simp

lemma recover_expired_claims_ok:
  assumes inv: "board_inv b"
  obtains b' where "recover_expired_claims owner now b
      = Inr (b', length (filter (needs_recovery owner now) (cards b)))"
    "cards b' = map (\<lambda>c. if needs_recovery owner now c then expire_row now (expired_status c) c else c) (cards b)"
proof -
  let ?rows = "filter (needs_recovery owner now) (cards b)"
  have d: "distinct (map c_id ?rows)"
    using inv by (auto simp: board_inv_def struct_ok_def keys_ok_def distinct_map_filter)
  have rows: "c_claim_token r \<noteq> None \<and> row_visible owner r \<and> \<not> lease_live now r" if "r \<in> set ?rows" for r
    using that needs_recovery_expired [OF inv, of r owner now] by (simp add: needs_recovery_def row_visible_sql)
  obtain b' where b': "recover_rows owner now ?rows b = Inr b'"
    "cards b' = map (\<lambda>x. if x \<in> set ?rows then expire_row now (expired_status x) x else x) (cards b)"
    using recover_rows_expired [OF inv filter_is_subset d rows] by blast
  have "cards b' = map (\<lambda>c. if needs_recovery owner now c then expire_row now (expired_status c) c else c) (cards b)"
    unfolding b'(2) by (rule map_cong) simp_all
  with b'(1) show thesis by (intro that) (simp_all add: recover_expired_claims_def Let_def)
qed

section \<open>Dependencies\<close>

lemma link_cards_decides:
  assumes inv: "board_inv b" and p: "p \<in> set (cards b)" "row_visible owner p" and c: "c \<in> set (cards b)" "row_visible owner c"
    and o: "c_voice_owner_uid p = c_voice_owner_uid c" and ne: "c_id p \<noteq> c_id c"
  shows "link_cards owner now (c_id p) (c_id c) actor b =
    (if (c_id c, c_id p) \<in> (link_pairs (card_links b))\<^sup>+
     then Inl (BoardError ''dependency would create a cycle'')
     else if (c_id p, c_id c) \<in> link_pairs (card_links b) then Inr b
     else Inr (record_event (c_id c) ''dependency_added'' actor [(''parentId'', JStr (c_id p))] now
       (b\<lparr>card_links := card_links b @ [\<lparr>l_parent_id = c_id p, l_child_id = c_id c, l_created_at = now\<rparr>]\<rparr>)))"
  using ne o
  by (simp add: link_cards_def row_get_card [OF inv p] row_get_card [OF inv c] set_descendants link_pairs_def)

end
