(* ===== verification/Board_Queries.thy ===== *)
theory Board_Queries
  imports Board_Protocol
begin

text \<open>
  The dispatch queue and the snapshot meet their specifications, creation is idempotent, and an
  unverified voice turn is never run again on its own.
\<close>

section \<open>Stable sorting by several keys\<close>

definition then_by :: "('a \<Rightarrow> 'b::linorder) \<Rightarrow> ('a \<Rightarrow> 'a \<Rightarrow> bool) \<Rightarrow> 'a \<Rightarrow> 'a \<Rightarrow> bool" where
  "then_by f R x y \<longleftrightarrow> f x < f y \<or> f x = f y \<and> R x y"

lemma insort_then_by:
  "sorted_wrt (then_by f R) ys \<Longrightarrow> (\<And>y. y \<in> set ys \<Longrightarrow> R x y) \<Longrightarrow> sorted_wrt (then_by f R) (insort_key f x ys)"
proof (induction ys)
  case (Cons y ys)
  have le: "f y \<le> f z" if "z \<in> set ys" for z
    using Cons.prems(1) that by (auto simp: then_by_def)
  show ?case
  proof (cases "f x \<le> f y")
    case True
    then have "then_by f R x z" if "z \<in> set (y # ys)" for z
      using that le [of z] Cons.prems(2) [of z] by (auto simp: then_by_def)
    with True Cons.prems(1) show ?thesis by simp
  next
    case False
    then have "then_by f R y z" if "z \<in> set (insort_key f x ys)" for z
      using that Cons.prems(1) by (auto simp: set_insort_key then_by_def)
    with False Cons show ?thesis by simp
  qed
qed simp

lemma sort_then_by: "sorted_wrt R xs \<Longrightarrow> sorted_wrt (then_by f R) (sort_key f xs)"
  by (induction xs) (auto intro!: insort_then_by)

lemma sorted_sort_by_key: "sorted_wrt (\<lambda>x y. f x \<le> f y) (sort_key f xs)"
  using sorted_sort_key [of f xs] by (simp add: sorted_map)

section \<open>The dispatch queue\<close>

text \<open>Higher priority first, then older, then by id.\<close>

definition dispatch_le :: "card \<Rightarrow> card \<Rightarrow> bool" where
  "dispatch_le x y \<longleftrightarrow> c_priority y < c_priority x \<or> c_priority x = c_priority y
     \<and> (c_created_at x < c_created_at y \<or> c_created_at x = c_created_at y \<and> c_id x \<le> c_id y)"

lemma dispatch_le_refl [simp]: "dispatch_le x x"
  by (simp add: dispatch_le_def)

lemma dispatch_le_trans: "dispatch_le x y \<Longrightarrow> dispatch_le y z \<Longrightarrow> dispatch_le x z"
  unfolding dispatch_le_def by (elim disjE conjE) (auto intro: order_trans)

lemma dispatch_order_sorted: "sorted_wrt dispatch_le (dispatch_order cs)"
proof -
  have "sorted_wrt (then_by (\<lambda>c. - c_priority c) (then_by c_created_at (\<lambda>x y. c_id x \<le> c_id y))) (dispatch_order cs)"
    unfolding dispatch_order_def by_creation_def by (intro sort_then_by sorted_sort_by_key)
  then show ?thesis by (rule sorted_wrt_mono_rel [rotated]) (auto simp: then_by_def dispatch_le_def)
qed

lemma set_dispatch_order [simp]: "set (dispatch_order cs) = set cs"
  by (simp add: dispatch_order_def by_creation_def)

lemma set_first_ranked: "set (first_ranked cs) \<subseteq> set cs"
  by (induction cs rule: first_ranked.induct) auto

lemma first_ranked_keys: "distinct (map partition_key (first_ranked cs))"
proof (induction cs rule: first_ranked.induct)
  case (2 c cs)
  have "partition_key c \<notin> partition_key ` set (first_ranked (filter (\<lambda>d. partition_key d \<noteq> partition_key c) cs))"
    using set_first_ranked [of "filter (\<lambda>d. partition_key d \<noteq> partition_key c) cs"] by auto
  with 2 show ?case by simp
qed simp

lemma first_ranked_sorted: "sorted_wrt R cs \<Longrightarrow> sorted_wrt R (first_ranked cs)"
proof (induction cs rule: first_ranked.induct)
  case (2 c cs)
  have "sorted_wrt R (filter (\<lambda>d. partition_key d \<noteq> partition_key c) cs)"
    using 2 by (simp add: sorted_wrt_filter)
  moreover have "R c x" if "x \<in> set (first_ranked (filter (\<lambda>d. partition_key d \<noteq> partition_key c) cs))" for x
    using that 2(2) set_first_ranked [of "filter (\<lambda>d. partition_key d \<noteq> partition_key c) cs"] by auto
  ultimately show ?case using 2(1) by simp
qed simp

lemma first_ranked_best:
  "sorted_wrt dispatch_le cs \<Longrightarrow> c \<in> set cs \<Longrightarrow>
    \<exists>d \<in> set (first_ranked cs). partition_key d = partition_key c \<and> dispatch_le d c"
proof (induction cs rule: first_ranked.induct)
  case (2 x cs)
  show ?case
  proof (cases "partition_key c = partition_key x")
    case True
    with 2(2,3) show ?thesis by auto
  next
    case False
    with 2 have "\<exists>d \<in> set (first_ranked (filter (\<lambda>d. partition_key d \<noteq> partition_key x) cs)).
        partition_key d = partition_key c \<and> dispatch_le d c"
      by (intro 2(1)) (auto simp: sorted_wrt_filter)
    then show ?thesis by simp
  qed
qed simp

definition dispatch_rows :: "request_owner option \<Rightarrow> board \<Rightarrow> int \<Rightarrow> real \<Rightarrow> pyval list \<Rightarrow> card list" where
  "dispatch_rows owner b limit current excl = take (nat (max 1 limit)) (first_ranked (dispatch_order
     (filter (dispatchable owner b current (excluded_profiles excl)) (cards b))))"

lemma list_dispatchable_rows: "list_dispatchable owner b limit current excl = map (row_view owner b) (dispatch_rows owner b limit current excl)"
  by (simp add: list_dispatchable_def dispatch_rows_def)

lemma dispatch_rows_best:
  assumes c: "c \<in> set (cards b)" "dispatchable owner b current (excluded_profiles excl) c"
  shows "(\<exists>d \<in> set (dispatch_rows owner b limit current excl). partition_key d = partition_key c \<and> dispatch_le d c)
    \<or> (length (dispatch_rows owner b limit current excl) = nat (max 1 limit)
       \<and> (\<forall>d \<in> set (dispatch_rows owner b limit current excl). dispatch_le d c))"
proof -
  let ?L = "filter (dispatchable owner b current (excluded_profiles excl)) (cards b)"
  let ?F = "first_ranked (dispatch_order ?L)" and ?n = "nat (max 1 limit)"
  obtain d where d: "d \<in> set ?F" "partition_key d = partition_key c" "dispatch_le d c"
    using first_ranked_best [OF dispatch_order_sorted, of c ?L] c by auto
  have s: "sorted_wrt dispatch_le (take ?n ?F @ drop ?n ?F)"
    using first_ranked_sorted [OF dispatch_order_sorted] by simp
  show ?thesis
  proof (cases "d \<in> set (take ?n ?F)")
    case True
    with d show ?thesis unfolding dispatch_rows_def by blast
  next
    case False
    then have dr: "d \<in> set (drop ?n ?F)" using d(1) by (metis Un_iff append_take_drop_id set_append)
    then have "?n \<le> length ?F" by (cases "?n \<le> length ?F") auto
    moreover have "dispatch_le e c" if "e \<in> set (take ?n ?F)" for e
      using s that dr d(3) dispatch_le_trans [of e d c] unfolding sorted_wrt_append by blast
    ultimately show ?thesis unfolding dispatch_rows_def by simp
  qed
qed

lemma dispatch_rows_sound:
  "c \<in> set (dispatch_rows owner b limit current excl) \<Longrightarrow>
    c \<in> set (cards b) \<and> dispatchable owner b current (excluded_profiles excl) c"
  unfolding dispatch_rows_def using set_first_ranked by (fastforce dest: in_set_takeD)

lemma dispatch_rows_order:
  "sorted_wrt dispatch_le (dispatch_rows owner b limit current excl)"
  "distinct (map partition_key (dispatch_rows owner b limit current excl))"
  "length (dispatch_rows owner b limit current excl) \<le> nat (max 1 limit)"
  unfolding dispatch_rows_def
  by (simp_all add: sorted_wrt_take first_ranked_sorted dispatch_order_sorted first_ranked_keys flip: take_map)

section \<open>Idempotent creation\<close>

lemma new_card_stable:
  assumes "new_card digest owner now hex a = Inr (c, oo)" "new_card digest owner now' hex' a = Inr (c', oo')"
  shows "c_idempotency_key c' = c_idempotency_key c \<and> c_request_fingerprint c' = c_request_fingerprint c"
  using assms by (auto simp: new_card_def ok_iffs Let_def)

lemma new_card_again:
  assumes "new_card digest owner now hex a = Inr (c, oo)"
  obtains c' where "new_card digest owner now' hex' a = Inr (c', oo)"
  using assms by (auto simp: new_card_def ok_iffs Let_def)

lemma new_card_key: "new_card digest owner now hex a = Inr (c, oo) \<Longrightarrow> c_idempotency_key c = strip (the_str (a_idempotency_key a))"
  by (auto simp: new_card_def ok_iffs Let_def)

lemma keyed_row_after:
  assumes op: "add_card digest owner now hex a b = Inr (b1, x)" and c: "new_card digest owner now hex a = Inr (c, oo)"
    and key: "c_idempotency_key c \<noteq> []"
  obtains row where "row_with c_idempotency_key (c_idempotency_key c) (cards b1) = Some row"
    "c_request_fingerprint row = c_request_fingerprint c" "row_visible owner row" "c_id (fst x) = c_id row"
  using op
proof (cases rule: add_card_cases)
  case (made c1 oo1)
  then have eq: "c1 = c" "oo1 = oo" using c by simp_all
  from made(2) obtain b2 p where ins: "insert_card c b = Inr b2"
    and b1: "seed_first owner now c oo (record_event (c_id c) ''created'' (c_created_by c) p now b2) = Inr b1"
    and x: "get_card_full owner b1 (c_id c) = Some x"
    by (auto simp: eq create_card_def on_ok_Inr_iff returning_Inr_iff)
  have cs: "cards b1 = cards b @ [c]" using seed_first_cards [OF b1] ins by (simp add: insert_card_Inr_iff)
  have "row_with c_idempotency_key (c_idempotency_key c) (cards b1) = Some c"
    using made(3) key by (simp add: eq cs row_with_append table_simps)
  moreover have "c_id (fst x) = c_id c" using x by (auto simp: get_card_full_def elim: get_card_SomeE)
  ultimately show ?thesis using new_card_visible [OF c] by (intro that) simp_all
next
  case (replayed c1 oo1 old)
  then have "c1 = c" using c by simp
  with replayed show ?thesis
    by (intro that [of old]) (auto simp: replay_card_def ok_iffs row_to_card_Inr_iff)
qed

lemma add_card_replay:
  assumes op: "add_card digest owner now hex a b = Inr (b1, x)" and key: "strip (the_str (a_idempotency_key a)) \<noteq> []"
  shows "\<exists>y. add_card digest owner now' hex' a b1 = Inr (b1, y) \<and> c_id (fst y) = c_id (fst x)"
proof -
  from op obtain c oo where c: "new_card digest owner now hex a = Inr (c, oo)"
    by (auto simp: add_card_def on_ok_Inr_iff)
  from c obtain c' where c': "new_card digest owner now' hex' a = Inr (c', oo)" by (rule new_card_again)
  have k: "c_idempotency_key c \<noteq> []" using key new_card_key [OF c] by simp
  from op c k obtain row where row: "row_with c_idempotency_key (c_idempotency_key c) (cards b1) = Some row"
    "c_request_fingerprint row = c_request_fingerprint c" "row_visible owner row" "c_id (fst x) = c_id row"
    by (rule keyed_row_after)
  have "c_idempotency_key c' = c_idempotency_key c" "c_request_fingerprint c' = c_request_fingerprint c"
    using new_card_stable [OF c c'] by simp_all
  with row k c' show ?thesis by (simp add: add_card_def replay_card_def row_to_card_def)
qed

section \<open>Unverified turns\<close>

lemma uncertain_finish_keeps_gate:
  assumes inv: "board_inv b" and row: "row \<in> set (cards b)" "c_execution_mode row = Voice" "c_claim_token row = Some t"
    and q: "q \<in> set (card_commands b)" "q_card_id q = c_id row" "live_turn q"
    and op: "finish_claim owner now (c_id row) t oc res err delay actor True b = Inr (b', x)"
  shows "set_command_status Q_status_unknown now q \<in> set (card_commands b')"
  using op
proof (rule finish_claim_effect)
  fix r outcome b1 st p
  assume r: "r \<in> set (cards b)" "c_id r = c_id row"
    and turns: "finish_turns owner (row_view owner b r) outcome now True b = Inr (b1, st)"
    and b': "b' = failure_note (c_id row) outcome (map_option (take MAX_ERROR_CHARS) err) now
         (record_event (c_id row) ''run_finished'' actor p now
           (update_runs (\<lambda>r. r_card_id r = c_id row \<and> r_claim_token r = t)
             (close_run (Run_finished outcome) (map_option (take MAX_ERROR_CHARS) err) now)
             (update_cards (holds_claim (c_id row) t) (release_claim st (map_option (take MAX_RESULT_CHARS) res)
                (map_option (take MAX_ERROR_CHARS) err) (retry_time outcome st now delay) now) b1)))"
  let ?c = "row_view owner b row"
  have "r = row" using same_id [OF inv r(1) row(1)] r(2) by simp
  then obtain h where fin: "finish_locked owner ?c outcome now True b = Inr (b1, h)"
    using turns row(2) by (auto simp: finish_turns_def on_ok_Inr_iff)
  have fl: "in_flight ?c q"
    using unsettled_in_flight [OF inv row(1), of ?c q] row(3) q live_unsettled by simp
  then have pos: "row_count (in_flight ?c) (card_commands b) \<noteq> 0"
    using row_count_pos [of "in_flight ?c" "card_commands b"] q(1) by auto
  let ?q = "set_command_status Q_status_unknown now q"
  have "?q \<in> set (card_commands (settle_in_flight ?c Q_status_unknown now b))"
    using q(1) fl by (auto simp: settle_in_flight_def set_update_rows)
  moreover have "\<not> is_queued (c_id row) ?q" by (simp add: is_queued_def set_command_status_def)
  ultimately have "?q \<in> set (card_commands (hold_queue (c_id row) now (settle_in_flight ?c Q_status_unknown now b)))"
    by (simp add: hold_queue_def set_update_rows)
  then have "?q \<in> set (card_commands b1)"
    using fin pos by (auto simp: finish_locked_def on_ok_Inr_iff Let_def)
  then show ?thesis by (simp add: b' failure_note_def)
qed

lemma gate_refuses_claims:
  assumes inv: "board_inv b" and c: "c \<in> set (cards b)" "c_execution_mode c = Voice"
    and q: "q \<in> set (card_commands b)" "is_unsettled (c_id c) q"
    and op: "claim_card owner now h1 h2 (c_id c) w l ign b = Inr (b', x)"
  shows "b' = b \<and> x = None"
  using inv c(1) _ op by (rule claim_refused) (use c(2) q in \<open>auto simp: grantable_def has_turn_def\<close>)

lemma gate_refuses_instructions:
  assumes q: "q \<in> set (card_commands b)" "q_card_id q = cid" "turn_kind (q_kind q)" "q_status q = Q_status_unknown"
    and op: "enqueue pid digest owner now conv cid k rv tx b = Inr (b', v)"
  shows "b' = b"
  using op
proof (cases rule: enqueue_effect)
  case (queued c b1 p q' fp)
  have "some_command (\<lambda>q. q_card_id q = cid \<and> turn_kind (q_kind q) \<and> q_status q = Q_status_unknown) b"
    using q by (auto simp: some_command_def list_ex_iff)
  with op queued(5) have False by (auto simp: enqueue_def turn_iffs Let_def)
  then show ?thesis ..
qed simp

section \<open>The snapshot\<close>

lemma count_statuses:
  "sum_list (map (\<lambda>s. length (filter (\<lambda>c. c_status c = s) cs)) VALID_STATUSES) = length cs"
proof (induction cs)
  case (Cons c cs)
  then show ?case by (cases "c_status c") (simp_all add: VALID_STATUSES_def)
qed (simp add: VALID_STATUSES_def)

end
