(* ===== verification/Board_Properties.thy ===== *)
theory Board_Properties
  imports Board_Queries
begin

text \<open>
  The properties of the task board, over the definitions of the store, each with the concrete
  boards it is exercised on: a background card that is created, claimed, finished and recovered,
  and a voice card whose turn is being delivered.
\<close>

section \<open>Concrete boards\<close>

definition demo_digest :: "json \<Rightarrow> string" where
  "demo_digest _ = ''d''"

definition demo_args :: add_args where
  "demo_args = \<lparr>a_title = PStr ''fix ci'', a_body = PStr '''', a_status = ''ready'',
     a_origin_channel = PStr '''', a_origin_chat_id = PStr '''', a_created_by = PStr ''user'',
     a_assignee_profile = PStr ''ops'', a_assignee_bot_id = PStr ''b1'', a_priority = PInt 5,
     a_scheduled_at = TNone, a_idempotency_key = PStr ''k1'', a_max_attempts = PInt 2,
     a_parent_id = None, a_execution_mode = ''background'', a_voice_conversation_id = PStr '''',
     a_voice_open_only = PBool False\<rparr>"

definition demo_card :: card where
  "demo_card = \<lparr>c_id = ''c_aaaaaaaa'', c_title = ''fix ci'', c_body = '''', c_status = STATUS_READY,
     c_origin_channel = '''', c_origin_chat_id = '''', c_created_by = ''user'',
     c_assignee_profile = ''ops'', c_assignee_bot_id = ''b1'', c_priority = 5, c_scheduled_at = None,
     c_idempotency_key = ''k1'', c_revision = 0, c_run_id = None, c_claim_token = None,
     c_lease_expires_at = None, c_heartbeat_at = None, c_attempt_count = 0, c_max_attempts = 2,
     c_parent_id = None, c_result = None, c_error = None, c_created_at = 10, c_updated_at = 10,
     c_execution_mode = Background, c_voice_conversation_id = '''', c_session_key = '''',
     c_request_fingerprint = '''', c_voice_owner_uid = ''''\<rparr>"

definition demo_board :: board where
  "demo_board = record_event ''c_aaaaaaaa'' ''created'' ''user''
     [(''status'', JStr ''ready''), (''assigneeProfile'', JStr ''ops'')] 10
     (empty_board\<lparr>cards := [demo_card]\<rparr>)"

text \<open>A voice card of the account \<open>ann\<close>, claimed, with its first instruction being delivered.\<close>

definition demo_owner :: "request_owner option" where
  "demo_owner = Some (RequestOwner (Some ''ann''))"

definition live_card :: card where
  "live_card = demo_card\<lparr>c_id := ''c_bbbbbbbb'', c_idempotency_key := ''k2'', c_execution_mode := Voice,
     c_voice_conversation_id := ''conv'', c_voice_owner_uid := ''ann'', c_status := STATUS_IN_PROGRESS,
     c_claim_token := Some ''claim_t'', c_lease_expires_at := Some 80, c_heartbeat_at := Some 20,
     c_attempt_count := 1, c_revision := 1, c_run_id := Some ''board_run_r''\<rparr>"

definition live_run :: card_run where
  "live_run = run_row ''board_run_r'' ''c_bbbbbbbb'' 1 ''w'' ''claim_t'' 20"

definition live_command :: card_command where
  "live_command = (new_command ''voice:c_bbbbbbbb:initial'' ''c_bbbbbbbb'' K_initial [] (JStr ''fix ci'')
     Q_delivering [] 10)\<lparr>q_seq := 1, q_claim_token := Some ''claim_t''\<rparr>"

definition live_board :: board where
  "live_board = empty_board\<lparr>cards := [demo_card, live_card], card_runs := [live_run],
     card_commands := [live_command], command_seq := 1\<rparr>"

lemma demo_strips: "strip ''fix ci'' = ''fix ci''" "strip ''ops'' = ''ops''" "strip ''b1'' = ''b1''"
    "strip ''k1'' = ''k1''" "strip ''w'' = ''w''"
  by (auto intro!: strip_id simp: py_space_def)

lemma demo_new: "new_card demo_digest None 10 ''aaaaaaaa'' demo_args = Inr (demo_card, False)"
  unfolding new_card_def demo_args_def
  by (simp add: demo_card_def check_title_def check_body_def check_status_def demo_strips
    check_identities_def check_priority_def check_max_attempts_def check_time_def check_mode_def check_conversation_def
    parse_status_def VALID_STATUSES_def MAX_TITLE_CHARS_def MAX_BODY_CHARS_def owner_uid_def cong: on_ok_first_cong)

lemma demo_add: "\<exists>x. add_card demo_digest None 10 ''aaaaaaaa'' demo_args empty_board = Inr (demo_board, x)"
proof -
  have "add_card demo_digest None 10 ''aaaaaaaa'' demo_args empty_board = create_card None 10 demo_card False empty_board"
    by (simp add: add_card_def demo_new row_with_def empty_board_def)
  also have "\<dots> = returning None ''c_aaaaaaaa'' demo_board"
    by (simp add: create_card_def check_parent_def insert_card_def seed_first_def demo_board_def
        demo_card_def empty_board_def)
  also have "\<exists>x. \<dots> = Inr (demo_board, x)"
    by (simp add: returning_def get_card_full_def get_card_def card_row_def row_with_def demo_board_def demo_card_def)
  finally show ?thesis .
qed

lemma demo_board_inv: "board_inv demo_board"
  using demo_add add_card_inv [OF board_inv_empty] by blast

lemma live_board_inv: "board_inv live_board"
  by (simp add: board_inv_def struct_defs all_fields_ok_def claims_ok_def queue_ok_def
      queue_core_def queue_claims_def live_board_def empty_board_def link_pairs_def acyclic_def
      fields_ok_def claim_ok_def running_for_def demo_card_def live_card_def live_run_def run_row_def
      live_command_def new_command_def unsettled_turn_def live_turn_def turn_kind_def
      MAX_TITLE_CHARS_def MAX_BODY_CHARS_def)

lemma demo_cards: "demo_card \<in> set (cards demo_board)" "demo_card \<in> set (cards live_board)" "live_card \<in> set (cards live_board)"
  by (simp_all add: demo_board_def live_board_def)

lemma demo_visible: "row_visible None c" "\<not> row_visible demo_owner (demo_card\<lparr>c_voice_owner_uid := ''bob''\<rparr>)"
  "row_visible demo_owner live_card" "\<not> row_visible (Some (RequestOwner None)) live_card"
  by (simp_all add: row_visible_def demo_owner_def live_card_def demo_card_def)

lemma demo_grantable: "grantable False 20 demo_board demo_card"
  by (simp add: grantable_def due_def parents_done_def has_turn_def demo_card_def demo_board_def
      link_pairs_def empty_board_def)

lemma demo_id: "c_id demo_card = ''c_aaaaaaaa''" "c_id live_card = ''c_bbbbbbbb''"
  by (simp_all add: demo_card_def live_card_def)

lemma demo_claim: "\<exists>b' y. claim_card None 20 ''t'' ''r'' ''c_aaaaaaaa'' ''w'' 60 False demo_board = Inr (b', Some y)"
proof -
  have w: "strip ''w'' \<noteq> []" "length (strip ''w'') \<le> 128" by (simp_all add: demo_strips)
  have "''board_run_'' @ ''r'' \<notin> r_id ` set (card_runs demo_board)" by (simp add: demo_board_def empty_board_def)
  moreover have "(15::real) \<le> 60" "(60::real) \<le> 600" by simp_all
  ultimately obtain b' y where "claim_card None 20 ''t'' ''r'' (c_id demo_card) ''w'' 60 False demo_board = Inr (b', Some y)"
    using claim_granted [of demo_board demo_card None False 20 "''w''" 60 "''r''" "''t''",
        OF demo_board_inv demo_cards(1) demo_visible(1) demo_grantable w] by blast
  then show ?thesis by (simp add: demo_id)
qed

lemma demo_step: "board_step empty_board demo_board"
  using demo_add unfolding board_step_def by (blast intro: op_add)

section \<open>Reachable boards\<close>

text \<open>C1. Every board reached from the empty board by successful operations satisfies the board
  invariant: keys are unique, every reference names a card, the links are acyclic, the card fields
  are within their bounds, claims and running attempts correspond one to one, and each card has
  at most one unsettled instruction.\<close>

theorem board_invariant: "board_step\<^sup>*\<^sup>* empty_board b \<Longrightarrow> board_inv b"
  by (rule board.reachable_good [OF refl])

theorem board_invariant_witness:
  "board_step\<^sup>*\<^sup>* empty_board demo_board \<and> board_inv demo_board"
  using board_invariant [of demo_board] demo_step by blast

lemma running_count:
  assumes inv: "board_inv b" and c: "c \<in> set (cards b)" "c_claim_token c = Some t"
  shows "row_count (\<lambda>r. r_card_id r = c_id c \<and> r_status r = Run_running) (card_runs b) = 1
    \<and> (\<exists>r \<in> set (card_runs b). running_for (c_id c) t r)"
proof -
  obtain r where r: "r \<in> set (card_runs b)" "running_for (c_id c) t r"
    using inv_claim_ok [OF inv c(1)] c(2) by (auto simp: claim_ok_def)
  have "x = r" if "x \<in> set (card_runs b)" "r_card_id x = c_id c" "r_status x = Run_running" for x
    using inv that r unfolding board_inv_def claims_ok_def running_for_def by metis
  moreover have "r_card_id r = c_id c" "r_status r = Run_running" using r(2) by (simp_all add: running_for_def)
  ultimately have iff: "r_card_id x = c_id c \<and> r_status x = Run_running \<longleftrightarrow> x = r" if "x \<in> set (card_runs b)" for x
    using that by blast
  have "distinct (card_runs b)"
    using inv by (auto simp: board_inv_def struct_ok_def keys_ok_def distinct_map)
  then have "row_count (\<lambda>r. r_card_id r = c_id c \<and> r_status r = Run_running) (card_runs b) = 1"
    using r(1) iff by (rule row_count_unique)
  with r show ?thesis by blast
qed

text \<open>C2. In every reachable board a card that holds a claim token is in progress, has a lease and a
  heartbeat, and has exactly one running attempt, which carries that token.\<close>

theorem claimed_card_runs:
  assumes "board_step\<^sup>*\<^sup>* empty_board b" "c \<in> set (cards b)" "c_claim_token c = Some t"
  shows "c_status c = STATUS_IN_PROGRESS \<and> c_lease_expires_at c \<noteq> None \<and> c_heartbeat_at c \<noteq> None
    \<and> row_count (\<lambda>r. r_card_id r = c_id c \<and> r_status r = Run_running) (card_runs b) = 1
    \<and> (\<exists>r \<in> set (card_runs b). running_for (c_id c) t r)"
proof -
  have "board_inv b" using assms(1) by (rule board.reachable_good [OF refl])
  then show ?thesis using token_running running_count assms(2,3) by blast
qed

theorem claimed_card_runs_witness:
  "\<exists>b c. board_step\<^sup>*\<^sup>* empty_board b \<and> c \<in> set (cards b) \<and> c_claim_token c = Some ''claim_t''
     \<and> c_status c = STATUS_IN_PROGRESS
     \<and> row_count (\<lambda>r. r_card_id r = c_id c \<and> r_status r = Run_running) (card_runs b) = 1"
proof -
  obtain b y where op: "claim_card None 20 ''t'' ''r'' ''c_aaaaaaaa'' ''w'' 60 False demo_board = Inr (b, Some y)"
    using demo_claim by blast
  then have reach: "board_step\<^sup>*\<^sup>* empty_board b"
    using demo_step by (meson board_step_def op_claim converse_rtranclp_into_rtranclp rtranclp.rtrancl_refl)
  obtain c where c: "granted_row 20 60 (''board_run_'' @ ''r'') (''claim_'' @ ''t'') c \<in> set (cards b)"
    using claim_row_after [OF demo_board_inv op] by blast
  have t: "c_claim_token (granted_row 20 60 (''board_run_'' @ ''r'') (''claim_'' @ ''t'') c) = Some ''claim_t''"
    by (simp add: granted_row_def take_claim_def)
  from claimed_card_runs [OF reach c t] reach c t show ?thesis by blast
qed

text \<open>C3. In every board reached from one that satisfies the invariant, a card has at most one unsettled instruction (being delivered,
  applied or of unknown outcome), and while the card is claimed that instruction is live and
  carries the card's claim token.\<close>

theorem single_unsettled_turn:
  assumes "board_inv b0" "board_step\<^sup>*\<^sup>* b0 b"
    and "q \<in> set (card_commands b)" "is_unsettled cid q" "q' \<in> set (card_commands b)" "is_unsettled cid q'"
  shows "q = q' \<and> (\<forall>c \<in> set (cards b). c_id c = cid \<longrightarrow> c_claim_token c \<noteq> None
    \<longrightarrow> q_claim_token q = c_claim_token c \<and> q_status q \<noteq> Q_status_unknown)"
proof -
  have inv: "board_inv b" using assms(2,1) by (rule board.run_good)
  have "q = q'" using inv assms(3-6) unfolding board_inv_def queue_ok_def queue_core_def is_unsettled_iff by metis
  moreover have "q_claim_token q = c_claim_token c \<and> q_status q \<noteq> Q_status_unknown"
    if "c \<in> set (cards b)" "c_id c = cid" "c_claim_token c \<noteq> None" for c
  proof -
    have u: "q_card_id q = c_id c" "unsettled_turn q" using assms(4) that(2) by (simp_all add: is_unsettled_iff)
    have "live_turn q \<and> q_claim_token q = c_claim_token c"
      using inv that(1,3) assms(3) u unfolding board_inv_def queue_ok_def queue_claims_def by blast
    then show ?thesis by (auto simp: live_turn_def)
  qed
  ultimately show ?thesis by blast
qed

theorem single_unsettled_turn_witness:
  "board_inv live_board \<and> is_unsettled ''c_bbbbbbbb'' live_command
     \<and> q_claim_token live_command = c_claim_token live_card"
proof -
  have u: "is_unsettled ''c_bbbbbbbb'' live_command" "live_command \<in> set (card_commands live_board)"
    by (simp_all add: is_unsettled_def turn_kind_def live_command_def new_command_def live_board_def)
  have c: "c_claim_token live_card \<noteq> None" by (simp add: live_card_def)
  from single_unsettled_turn [OF live_board_inv rtranclp.rtrancl_refl u(2,1) u(2,1)] c demo_cards(3) demo_id(2) u live_board_inv
  show ?thesis by blast
qed

section \<open>Claims\<close>

text \<open>C4. A claim is granted exactly to a card that is unclaimed, in todo, ready or waiting, due,
  with every parent done and (for voice work) a queued instruction and nothing unsettled. Granting
  it opens a fresh lease and the next attempt; refusing it changes nothing.\<close>

theorem claim_card_decides:
  assumes "board_inv b" "c \<in> set (cards b)" "row_visible owner c"
    and "strip w \<noteq> []" "length (strip w) \<le> 128" "15 \<le> l" "l \<le> 600"
    and "''board_run_'' @ h2 \<notin> r_id ` set (card_runs b)"
  shows "if grantable ign now b c
    then \<exists>b' y. claim_card owner now h1 h2 (c_id c) w l ign b = Inr (b', Some y)
       \<and> card_row b' (c_id c) = Some (c\<lparr>c_status := STATUS_IN_PROGRESS, c_run_id := Some (''board_run_'' @ h2),
           c_claim_token := Some (''claim_'' @ h1), c_lease_expires_at := Some (now + l),
           c_heartbeat_at := Some now, c_attempt_count := c_attempt_count c + 1, c_updated_at := now,
           c_revision := c_revision c + 1\<rparr>)
    else \<forall>b' y. claim_card owner now h1 h2 (c_id c) w l ign b = Inr (b', y) \<longrightarrow> b' = b \<and> y = None"
proof (cases "grantable ign now b c")
  case True
  with assms obtain b' y where "claim_card owner now h1 h2 (c_id c) w l ign b = Inr (b', Some y)"
    "card_row b' (c_id c) = Some (granted_row now l (''board_run_'' @ h2) (''claim_'' @ h1) c)"
    using claim_granted by blast
  with True show ?thesis by (auto simp: granted_row_def take_claim_def)
next
  case False
  with claim_refused [OF assms(1,2)] show ?thesis by auto
qed

theorem claim_card_decides_witness:
  "\<exists>b' y. claim_card None 20 ''t'' ''r'' (c_id demo_card) ''w'' 60 False demo_board = Inr (b', Some y)
     \<and> map_option c_lease_expires_at (card_row b' (c_id demo_card)) = Some (Some 80)"
proof -
  have f: "''board_run_'' @ ''r'' \<notin> r_id ` set (card_runs demo_board)" by (simp add: demo_board_def empty_board_def)
  show ?thesis
    using claim_card_decides [OF demo_board_inv demo_cards(1) demo_visible(1) _ _ _ _ f, of "''w''" 60 False 20 "''t''"]
      demo_grantable by (auto simp: demo_strips)
qed

text \<open>A claim is exclusive: once a claim of a card has been granted, another claim of the same
  card, by any worker under any owner at any time, is refused and changes nothing.\<close>

theorem claim_exclusive:
  assumes "board_inv b" "claim_card owner now h1 h2 cid w l ign b = Inr (b1, Some x)"
    and "claim_card owner' now' h1' h2' cid w' l' ign' b1 = Inr (b2, y)"
  shows "b2 = b1 \<and> y = None"
proof -
  have inv1: "board_inv b1" using assms(1,2) by (rule claim_card_inv)
  from assms(1,2) obtain c where "c_id c = cid"
    and g: "granted_row now l (''board_run_'' @ h2) (''claim_'' @ h1) c \<in> set (cards b1)" (is "?g \<in> _")
    by (rule claim_row_after)
  then have id: "c_id ?g = cid" by (simp add: granted_row_def)
  have "\<not> grantable ign' now' b1 ?g" by (simp add: grantable_def granted_row_def take_claim_def)
  from claim_refused [OF inv1 g this] assms(3) id show ?thesis by simp
qed

theorem claim_exclusive_witness:
  "\<exists>b1 x. claim_card None 20 ''t'' ''r'' ''c_aaaaaaaa'' ''w'' 60 False demo_board = Inr (b1, Some x)
     \<and> (\<forall>b2 y. claim_card None 21 ''u'' ''s'' ''c_aaaaaaaa'' ''v'' 60 True b1 = Inr (b2, y) \<longrightarrow> y = None)"
proof -
  obtain b1 x where op: "claim_card None 20 ''t'' ''r'' ''c_aaaaaaaa'' ''w'' 60 False demo_board = Inr (b1, Some x)"
    using demo_claim by blast
  with claim_exclusive [OF demo_board_inv op] show ?thesis by blast
qed

text \<open>The worker that holds a claim can always finish it, with any valid outcome: the card is
  released with the result and error cut to their bounds.\<close>

theorem finish_claim_releases:
  assumes "board_inv b" "c \<in> set (cards b)" "row_visible owner c" "c_claim_token c = Some t"
  shows "\<exists>b' y c'. finish_claim owner now (c_id c) t (outcome_text oc) res err delay actor unc b = Inr (b', y)
    \<and> card_row b' (c_id c) = Some c' \<and> c_claim_token c' = None \<and> c_lease_expires_at c' = None
    \<and> c_run_id c' = None \<and> c_revision c' = c_revision c + 1
    \<and> c_result c' = map_option (take MAX_RESULT_CHARS) res \<and> c_error c' = map_option (take MAX_ERROR_CHARS) err"
proof -
  from assms obtain b' y b1 st where "finish_claim owner now (c_id c) t (outcome_text oc) res err delay actor unc b = Inr (b', y)"
    "card_row b' (c_id c) = Some (release_claim st (map_option (take MAX_RESULT_CHARS) res)
       (map_option (take MAX_ERROR_CHARS) err) (retry_time oc st now delay) now c)"
    by (rule finish_claim_ok [OF _ _ _ _ parse_outcome_text])
  then show ?thesis by (auto simp: release_claim_def)
qed

theorem finish_claim_releases_witness:
  "\<exists>b' y. finish_claim demo_owner 30 ''c_bbbbbbbb'' ''claim_t'' ''done'' (Some ''ok'') None 0 ''w'' False live_board = Inr (b', y)
     \<and> map_option c_claim_token (card_row b' ''c_bbbbbbbb'') = Some None"
proof -
  have t: "c_claim_token live_card = Some ''claim_t''" by (simp add: live_card_def)
  from finish_claim_releases [OF live_board_inv demo_cards(3) demo_visible(3) t, of 30 O_done "Some ''ok''" None 0 "''w''" False]
  show ?thesis by (auto simp: demo_id)
qed

text \<open>A claim is finished exactly once: after it has been finished, its token finishes nothing,
  whoever presents it.\<close>

theorem finish_claim_once:
  assumes "board_inv b" "finish_claim owner now cid t oc res err delay actor unc b = Inr (b', x)"
  shows "\<not> is_ok (finish_claim owner' now' cid t oc' res' err' delay' actor' unc' b')"
  using finish_claim_stale [OF assms] by (metis is_ok.elims(2))

theorem finish_claim_once_witness:
  "\<exists>b' y. finish_claim demo_owner 30 ''c_bbbbbbbb'' ''claim_t'' ''done'' (Some ''ok'') None 0 ''w'' False live_board = Inr (b', y)
     \<and> \<not> is_ok (finish_claim demo_owner 31 ''c_bbbbbbbb'' ''claim_t'' ''failed'' None None 0 ''w'' False b')"
proof -
  have t: "c_claim_token live_card = Some ''claim_t''" by (simp add: live_card_def)
  have oc: "parse_outcome ''done'' = Some O_done" using parse_outcome_text [of O_done] by simp
  obtain b' y where "finish_claim demo_owner 30 (c_id live_card) ''claim_t'' ''done'' (Some ''ok'') None 0 ''w'' False live_board = Inr (b', y)"
    using finish_claim_ok [OF live_board_inv demo_cards(3) demo_visible(3) t oc] by blast
  then have op: "finish_claim demo_owner 30 ''c_bbbbbbbb'' ''claim_t'' ''done'' (Some ''ok'') None 0 ''w'' False live_board = Inr (b', y)"
    by (simp add: demo_id)
  with finish_claim_once [OF live_board_inv op] show ?thesis by blast
qed

text \<open>A background card on its first of two attempts.\<close>

definition busy_card :: card where
  "busy_card = demo_card\<lparr>c_status := STATUS_IN_PROGRESS, c_claim_token := Some ''claim_t'',
     c_lease_expires_at := Some 80, c_heartbeat_at := Some 20, c_attempt_count := 1, c_revision := 1,
     c_run_id := Some ''board_run_r''\<rparr>"

definition busy_board :: board where
  "busy_board = empty_board\<lparr>cards := [busy_card],
     card_runs := [run_row ''board_run_r'' ''c_aaaaaaaa'' 1 ''w'' ''claim_t'' 20]\<rparr>"

lemma busy_board_inv: "board_inv busy_board"
  by (simp add: board_inv_def struct_defs all_fields_ok_def claims_ok_def queue_ok_def
      queue_core_def queue_claims_def busy_board_def empty_board_def link_pairs_def acyclic_def
      fields_ok_def claim_ok_def running_for_def demo_card_def busy_card_def run_row_def
      MAX_TITLE_CHARS_def MAX_BODY_CHARS_def)

lemma busy_facts: "busy_card \<in> set (cards busy_board)" "c_claim_token busy_card = Some ''claim_t''"
    "c_execution_mode busy_card = Background" "c_id busy_card = ''c_aaaaaaaa''"
  by (simp_all add: busy_board_def busy_card_def demo_card_def)

text \<open>A background run that failed is retried within the card's attempt budget: with attempts
  left the card goes back to ready (todo without an assignee), scheduled after the retry delay;
  with none left it is blocked and unscheduled.\<close>

theorem failed_run_retried:
  assumes "board_inv b" "c \<in> set (cards b)" "row_visible owner c" "c_claim_token c = Some t"
    "c_execution_mode c = Background"
  shows "\<exists>b' y c'. finish_claim owner now (c_id c) t ''failed'' res err delay actor unc b = Inr (b', y)
    \<and> card_row b' (c_id c) = Some c' \<and> c_attempt_count c' = c_attempt_count c
    \<and> (if c_attempt_count c < c_max_attempts c
       then c_status c' = (if c_assignee_profile c = '''' then STATUS_TODO else STATUS_READY)
         \<and> c_scheduled_at c' = Some (now + max 0 delay)
       else c_status c' = STATUS_BLOCKED \<and> c_scheduled_at c' = None)"
proof -
  have oc: "parse_outcome ''failed'' = Some O_failed" using parse_outcome_text [of O_failed] by simp
  from assms(1-4) obtain b' y b1 st where fin: "finish_claim owner now (c_id c) t ''failed'' res err delay actor unc b = Inr (b', y)"
    and turns: "finish_turns owner (row_view owner b c) O_failed now unc b = Inr (b1, st)"
    and row: "card_row b' (c_id c) = Some (release_claim st (map_option (take MAX_RESULT_CHARS) res)
       (map_option (take MAX_ERROR_CHARS) err) (retry_time O_failed st now delay) now c)"
    by (rule finish_claim_ok [OF _ _ _ _ oc])
  have "base_status O_failed (row_view owner b c) = base_status O_failed c" "c_execution_mode (row_view owner b c) = Background"
    using assms(5) row_view_fields [OF inv_fields [OF assms(1,2)], of owner b] by (simp_all add: base_status_def row_view_def)
  with turns have "st = base_status O_failed c" by (simp add: finish_turns_def)
  with fin row show ?thesis
    by (auto simp: release_claim_def base_status_def retry_time_def not_less)
qed

theorem failed_run_retried_witness:
  "\<exists>b' y c'. finish_claim None 30 ''c_aaaaaaaa'' ''claim_t'' ''failed'' None (Some ''boom'') 5 ''w'' False busy_board = Inr (b', y)
     \<and> card_row b' ''c_aaaaaaaa'' = Some c' \<and> c_status c' = STATUS_READY \<and> c_scheduled_at c' = Some 35"
  using failed_run_retried [OF busy_board_inv busy_facts(1) demo_visible(1) busy_facts(2,3), of 30 None "Some ''boom''" 5 "''w''" False]
  by (auto simp: busy_card_def demo_card_def)

text \<open>C5. Recovery always succeeds and is exact: it releases precisely the claims its owner sees
  whose lease has run out, leaves every other card unchanged, and reports their number. A released
  card is blocked when it is voice work or out of attempts, and otherwise back in the queue.\<close>

theorem recovery_exact:
  assumes "board_inv b"
  shows "\<exists>b'. recover_expired_claims owner now b
      = Inr (b', length (filter (\<lambda>c. c_claim_token c \<noteq> None \<and> \<not> lease_live now c \<and> row_visible owner c) (cards b)))
    \<and> cards b' = map (\<lambda>c. if c_claim_token c \<noteq> None \<and> \<not> lease_live now c \<and> row_visible owner c
        then c\<lparr>c_status := (if c_execution_mode c = Voice \<or> c_max_attempts c \<le> c_attempt_count c then STATUS_BLOCKED
                    else if c_assignee_profile c \<noteq> '''' then STATUS_READY else STATUS_TODO),
               c_run_id := None, c_claim_token := None, c_lease_expires_at := None, c_heartbeat_at := None,
               c_error := Some ''worker lease expired'', c_updated_at := now, c_revision := c_revision c + 1\<rparr>
        else c) (cards b)"
proof -
  have eq: "needs_recovery owner now c \<longleftrightarrow> c_claim_token c \<noteq> None \<and> \<not> lease_live now c \<and> row_visible owner c"
    if "c \<in> set (cards b)" for c
    using needs_recovery_expired [OF assms that, of owner now]
    by (auto simp: needs_recovery_def lease_live_def row_visible_sql split: option.splits)
  from assms obtain b' where b': "recover_expired_claims owner now b
      = Inr (b', length (filter (needs_recovery owner now) (cards b)))"
    "cards b' = map (\<lambda>c. if needs_recovery owner now c then expire_row now (expired_status c) c else c) (cards b)"
    by (rule recover_expired_claims_ok)
  show ?thesis
  proof (intro exI conjI)
    show "recover_expired_claims owner now b
      = Inr (b', length (filter (\<lambda>c. c_claim_token c \<noteq> None \<and> \<not> lease_live now c \<and> row_visible owner c) (cards b)))"
      unfolding b'(1) using eq by (metis (mono_tags, lifting) filter_cong)
    show "cards b' = map (\<lambda>c. if c_claim_token c \<noteq> None \<and> \<not> lease_live now c \<and> row_visible owner c
        then c\<lparr>c_status := (if c_execution_mode c = Voice \<or> c_max_attempts c \<le> c_attempt_count c then STATUS_BLOCKED
                    else if c_assignee_profile c \<noteq> '''' then STATUS_READY else STATUS_TODO),
               c_run_id := None, c_claim_token := None, c_lease_expires_at := None, c_heartbeat_at := None,
               c_error := Some ''worker lease expired'', c_updated_at := now, c_revision := c_revision c + 1\<rparr>
        else c) (cards b)"
      unfolding b'(2) by (rule map_cong [OF refl]) (simp only: eq expire_row_def expired_status_def)
  qed
qed

theorem recovery_exact_witness:
  "\<exists>b'. recover_expired_claims None 100 busy_board = Inr (b', 1) \<and> map c_status (cards b') = [STATUS_READY]"
  using recovery_exact [OF busy_board_inv, of None 100]
  by (auto simp: busy_board_def busy_card_def demo_card_def lease_live_def)

section \<open>Dependencies\<close>

text \<open>C6. Between two visible cards of one owner, a dependency is refused exactly when the child
  already leads to the parent along the links; otherwise the link is present afterwards and no
  cycle exists.\<close>

theorem dependency_acyclic:
  assumes "board_inv b" "p \<in> set (cards b)" "row_visible owner p" "c \<in> set (cards b)" "row_visible owner c"
    and "c_voice_owner_uid p = c_voice_owner_uid c" "c_id p \<noteq> c_id c"
  shows "if (c_id c, c_id p) \<in> (link_pairs (card_links b))\<^sup>+
    then link_cards owner now (c_id p) (c_id c) actor b = Inl (BoardError ''dependency would create a cycle'')
    else \<exists>b'. link_cards owner now (c_id p) (c_id c) actor b = Inr b'
      \<and> link_pairs (card_links b') = insert (c_id p, c_id c) (link_pairs (card_links b))
      \<and> acyclic (link_pairs (card_links b'))"
proof -
  note d = link_cards_decides [OF assms]
  have "acyclic (link_pairs (card_links b'))" if "link_cards owner now (c_id p) (c_id c) actor b = Inr b'" for b'
    using link_cards_inv [OF assms(1) that] by (simp add: board_inv_def struct_ok_def links_ok_def)
  then show ?thesis by (auto simp: d link_pairs_def)
qed

theorem dependency_acyclic_witness:
  "\<exists>b'. link_cards None 30 ''c_aaaaaaaa'' ''c_cccccccc'' ''user''
      (demo_board\<lparr>cards := [demo_card, demo_card\<lparr>c_id := ''c_cccccccc'', c_idempotency_key := []\<rparr>]\<rparr>) = Inr b'
    \<and> link_pairs (card_links b') = {(''c_aaaaaaaa'', ''c_cccccccc'')}"
proof -
  let ?d = "demo_card\<lparr>c_id := ''c_cccccccc'', c_idempotency_key := []\<rparr>"
  let ?b = "demo_board\<lparr>cards := [demo_card, ?d]\<rparr>"
  have inv: "board_inv ?b"
    by (simp add: board_inv_def struct_defs all_fields_ok_def claims_ok_def queue_ok_def record_event_def
      queue_core_def queue_claims_def demo_board_def empty_board_def link_pairs_def acyclic_def
      fields_ok_def claim_ok_def demo_card_def MAX_TITLE_CHARS_def MAX_BODY_CHARS_def)
  have none: "link_pairs (card_links ?b) = {}" by (simp add: demo_board_def empty_board_def link_pairs_def)
  from dependency_acyclic [OF inv _ demo_visible(1) _ demo_visible(1), of demo_card ?d 30 "''user''"] none
  show ?thesis by (auto simp: demo_card_def)
qed

section \<open>The dispatch queue\<close>

text \<open>C7. The dispatcher's queue holds at most the asked number of dispatchable cards of its owner,
  by priority, then age, then id, and at most one per profile (voice work: one per card). It misses
  no work: for every dispatchable card it offers one of the same partition that is at least as urgent,
  unless the queue is full of cards at least as urgent.\<close>

theorem dispatch_queue:
  "\<exists>rows. list_dispatchable owner b limit current excl = map (row_view owner b) rows
    \<and> sorted_wrt dispatch_le rows \<and> distinct (map partition_key rows) \<and> length rows \<le> nat (max 1 limit)
    \<and> (\<forall>c \<in> set rows. c \<in> set (cards b) \<and> dispatchable owner b current (excluded_profiles excl) c)
    \<and> (\<forall>c \<in> set (cards b). dispatchable owner b current (excluded_profiles excl) c \<longrightarrow>
        (\<exists>d \<in> set rows. partition_key d = partition_key c \<and> dispatch_le d c)
        \<or> (length rows = nat (max 1 limit) \<and> (\<forall>d \<in> set rows. dispatch_le d c)))"
proof (rule exI [of _ "dispatch_rows owner b limit current excl"], intro conjI)
  show "\<forall>c \<in> set (dispatch_rows owner b limit current excl). c \<in> set (cards b) \<and> dispatchable owner b current (excluded_profiles excl) c"
    using dispatch_rows_sound by blast
  show "\<forall>c \<in> set (cards b). dispatchable owner b current (excluded_profiles excl) c \<longrightarrow>
        (\<exists>d \<in> set (dispatch_rows owner b limit current excl). partition_key d = partition_key c \<and> dispatch_le d c)
        \<or> (length (dispatch_rows owner b limit current excl) = nat (max 1 limit)
            \<and> (\<forall>d \<in> set (dispatch_rows owner b limit current excl). dispatch_le d c))"
    by (intro ballI impI) (rule dispatch_rows_best)
qed (rule list_dispatchable_rows dispatch_rows_order)+

theorem dispatch_queue_witness:
  "\<exists>rows. list_dispatchable None demo_board 5 20 [] = map (row_view None demo_board) rows
     \<and> (\<exists>d \<in> set rows. partition_key d = (''ops'', ''''))
     \<and> dispatchable None demo_board 20 [] demo_card"
proof -
  have d: "dispatchable None demo_board 20 (excluded_profiles []) demo_card"
    by (simp add: dispatchable_def demo_card_def excluded_profiles_def blocked_by_parent_def demo_board_def
        empty_board_def visibility_sql_def)
  from dispatch_queue [of None demo_board 5 20 "[]"] obtain rows where rows:
    "list_dispatchable None demo_board 5 20 [] = map (row_view None demo_board) rows"
    "\<forall>c \<in> set rows. c \<in> set (cards demo_board)"
    "(\<exists>d \<in> set rows. partition_key d = partition_key demo_card \<and> dispatch_le d demo_card)
        \<or> length rows = nat (max 1 5)" using d demo_cards(1) by blast
  have k: "partition_key demo_card = (''ops'', '''')" by (simp add: partition_key_def demo_card_def)
  from rows(3) have "rows \<noteq> []" by auto
  then obtain d where "d \<in> set rows" by (cases rows) auto
  with rows(2) have "d = demo_card" by (auto simp: demo_board_def)
  with \<open>d \<in> set rows\<close> rows(1) k d show ?thesis by (auto simp: excluded_profiles_def)
qed

section \<open>Concurrent writers\<close>

lemma edits_keeps: "edits owner b b' \<Longrightarrow> c \<in> set (cards b) \<Longrightarrow> \<exists>c' \<in> set (cards b'). bump c c'"
  unfolding edits_def by auto

lemma edits_others:
  assumes "edits owner b b'"
  shows "filter (\<lambda>c. \<not> row_visible owner c) (cards b') = filter (\<lambda>c. \<not> row_visible owner c) (cards b)"
proof -
  from assms obtain g where g: "cards b' = map g (cards b)"
    "\<forall>c \<in> set (cards b). bump c (g c) \<and> (g c \<noteq> c \<longrightarrow> row_visible owner c)" unfolding edits_def by blast
  have "filter (\<lambda>c. \<not> row_visible owner c) (map g cs) = filter (\<lambda>c. \<not> row_visible owner c) cs"
    if "\<forall>c \<in> set cs. bump c (g c) \<and> (g c \<noteq> c \<longrightarrow> row_visible owner c)" for cs
    using that by (induction cs) (auto simp: bump_visible)
  with g show ?thesis by simp
qed

lemma appends_others:
  "appends owner b b' \<Longrightarrow> filter (\<lambda>c. \<not> row_visible owner c) (cards b') = filter (\<lambda>c. \<not> row_visible owner c) (cards b)"
  by (auto simp: appends_def)

lemma removes_others:
  "removes owner b b' \<Longrightarrow> filter (\<lambda>c. \<not> row_visible owner c) (cards b') = filter (\<lambda>c. \<not> row_visible owner c) (cards b)"
proof -
  assume "removes owner b b'"
  then obtain P where P: "cards b' = filter (\<lambda>c. \<not> P c) (cards b)" "\<And>c. c \<in> set (cards b) \<Longrightarrow> P c \<Longrightarrow> row_visible owner c"
    unfolding removes_def by blast
  show ?thesis unfolding P(1) filter_filter using P(2) by (intro filter_cong) auto
qed

text \<open>The revision of a card never falls, and two states of a card with the same revision
  differ in no more than the lease, the heartbeat, the run id and the time of the last change, so a
  writer that presents the revision it has read changes what it has read.\<close>

theorem revision_guards_content:
  assumes "board_inv b" "board_step b b'" "c \<in> set (cards b)" "c' \<in> set (cards b')" "c_id c' = c_id c"
  shows "c_revision c \<le> c_revision c' \<and> (c_revision c' = c_revision c \<longrightarrow> content c' = content c)"
proof -
  from assms(2) obtain owner where op: "board_op owner b b'" by (auto simp: board_step_def)
  have "bump c c'" using board_op_shape [OF op assms(1)]
  proof (elim disjE)
    assume "edits owner b b'"
    with assms show ?thesis by (blast intro: edits_revision)
  next
    assume "appends owner b b'"
    then have "c \<in> set (cards b')" using assms(3) by (rule appends_old)
    with same_id [OF board_op_inv [OF op assms(1)] assms(4) _ assms(5)] show ?thesis by simp
  next
    assume "removes owner b b'"
    then have "c' \<in> set (cards b)" using assms(4) by (rule removes_old)
    with same_id [OF assms(1) _ assms(3,5)] show ?thesis by simp
  qed
  then show ?thesis by (auto simp: bump_def same_content_def)
qed

theorem revision_guards_content_witness:
  "\<exists>b' c'. board_step demo_board b' \<and> c' \<in> set (cards b') \<and> c_id c' = c_id demo_card
     \<and> c_revision demo_card \<le> c_revision c' \<and> c_claim_token c' \<noteq> c_claim_token demo_card"
proof -
  obtain b' y where op: "claim_card None 20 ''t'' ''r'' ''c_aaaaaaaa'' ''w'' 60 False demo_board = Inr (b', Some y)"
    using demo_claim by blast
  then have step: "board_step demo_board b'" unfolding board_step_def by (blast intro: op_claim)
  obtain c where c: "c_id c = ''c_aaaaaaaa''" "granted_row 20 60 (''board_run_'' @ ''r'') (''claim_'' @ ''t'') c \<in> set (cards b')" (is "?g \<in> _")
    using claim_row_after [OF demo_board_inv op] by blast
  have id: "c_id ?g = c_id demo_card" using c(1) by (simp add: granted_row_def demo_id)
  have "c_claim_token ?g \<noteq> c_claim_token demo_card" by (simp add: granted_row_def take_claim_def demo_card_def)
  with revision_guards_content [OF demo_board_inv step demo_cards(1) c(2) id] step c(2) id show ?thesis by blast
qed

text \<open>C8. Owners are isolated: an operation of one request owner leaves every card the owner does
  not see exactly as it is, and neither adds nor removes one.\<close>

theorem owners_isolated:
  assumes "board_inv b" "board_op owner b b'"
  shows "filter (\<lambda>c. \<not> row_visible owner c) (cards b') = filter (\<lambda>c. \<not> row_visible owner c) (cards b)"
  using board_op_shape [OF assms(2,1)]
  by (elim disjE) (simp_all add: edits_others appends_others removes_others)

theorem owners_isolated_witness:
  "\<exists>b'. board_op (Some (RequestOwner None)) live_board b'
     \<and> filter (\<lambda>c. \<not> row_visible (Some (RequestOwner None)) c) (cards b') = [live_card]"
proof -
  from recover_expired_claims_ok [OF live_board_inv] obtain b' k
    where "recover_expired_claims (Some (RequestOwner None)) 100 live_board = Inr (b', k)" by metis
  then have op: "board_op (Some (RequestOwner None)) live_board b'" by (rule op_recover)
  with owners_isolated [OF live_board_inv op] show ?thesis
    by (auto simp: live_board_def row_visible_def live_card_def demo_card_def)
qed

section \<open>Idempotence\<close>

text \<open>Creating a card with an idempotency key is idempotent: repeating the request under the
  same owner, at any later time, creates nothing and returns the card it made.\<close>

theorem add_card_idempotent:
  assumes "add_card digest owner now hex a b = Inr (b1, x)" "strip (the_str (a_idempotency_key a)) \<noteq> []"
  shows "\<exists>y. add_card digest owner now' hex' a b1 = Inr (b1, y) \<and> c_id (fst y) = c_id (fst x)"
  using assms by (rule add_card_replay)

theorem add_card_idempotent_witness:
  "\<exists>y. add_card demo_digest None 30 ''bbbbbbbb'' demo_args demo_board = Inr (demo_board, y)"
proof -
  obtain x where "add_card demo_digest None 10 ''aaaaaaaa'' demo_args empty_board = Inr (demo_board, x)"
    using demo_add by blast
  moreover have "strip (the_str (a_idempotency_key demo_args)) \<noteq> []" by (simp add: demo_args_def demo_strips)
  ultimately show ?thesis using add_card_idempotent [of demo_digest None 10 _ demo_args empty_board demo_board x 30] by blast
qed

section \<open>Unverified voice turns\<close>

text \<open>A voice turn of uncertain outcome is not run again on its own: after a worker has finished
  its claim as uncertain, the instruction is recorded as of unknown status, every later claim of the
  card is refused without effect and a new instruction changes nothing.\<close>

theorem unverified_turn_held:
  assumes "board_inv b" "c \<in> set (cards b)" "c_execution_mode c = Voice" "c_claim_token c = Some t"
    and "q \<in> set (card_commands b)" "q_card_id q = c_id c" "live_turn q"
    and "finish_claim owner now (c_id c) t oc res err delay actor True b = Inr (b', x)"
  shows "set_command_status Q_status_unknown now q \<in> set (card_commands b')
    \<and> (\<forall>owner' now' h1 h2 w l ign b2 y. claim_card owner' now' h1 h2 (c_id c) w l ign b' = Inr (b2, y)
        \<longrightarrow> b2 = b' \<and> y = None)
    \<and> (\<forall>pid digest owner' now' conv k rv tx b2 v. enqueue pid digest owner' now' conv (c_id c) k rv tx b' = Inr (b2, v)
        \<longrightarrow> b2 = b')"
proof -
  let ?q = "set_command_status Q_status_unknown now q"
  have inv: "board_inv b'" using assms(1,8) by (rule finish_claim_inv)
  have q: "?q \<in> set (card_commands b')" using assms by (rule uncertain_finish_keeps_gate)
  have f: "q_card_id ?q = c_id c" "turn_kind (q_kind ?q)" "q_status ?q = Q_status_unknown"
    using assms(6,7) by (simp_all add: set_command_status_def live_turn_def)
  then have u: "is_unsettled (c_id c) ?q" by (simp add: is_unsettled_def)
  obtain c' where c': "c' \<in> set (cards b')" "c_id c' = c_id c" "c_execution_mode c' = Voice"
    using edits_keeps [OF finish_claim_edits [OF assms(1,8)] assms(2)] assms(3) by (auto simp: bump_def)
  show ?thesis
    using q gate_refuses_claims [OF inv c'(1,3) q] c'(2) u gate_refuses_instructions [OF q f] by metis
qed

theorem unverified_turn_held_witness:
  "\<exists>b' x. finish_claim demo_owner 30 ''c_bbbbbbbb'' ''claim_t'' ''failed'' None None 0 ''w'' True live_board = Inr (b', x)
     \<and> set_command_status Q_status_unknown 30 live_command \<in> set (card_commands b')"
proof -
  have t: "c_claim_token live_card = Some ''claim_t''" "c_execution_mode live_card = Voice"
    by (simp_all add: live_card_def demo_card_def)
  have q: "live_command \<in> set (card_commands live_board)" "q_card_id live_command = c_id live_card" "live_turn live_command"
    by (simp_all add: live_board_def live_command_def new_command_def live_turn_def turn_kind_def demo_id)
  have oc: "parse_outcome ''failed'' = Some O_failed" using parse_outcome_text [of O_failed] by simp
  obtain b' x where "finish_claim demo_owner 30 (c_id live_card) ''claim_t'' ''failed'' None None 0 ''w'' True live_board = Inr (b', x)"
    using finish_claim_ok [OF live_board_inv demo_cards(3) demo_visible(3) t(1) oc] by blast
  with unverified_turn_held [OF live_board_inv demo_cards(3) t(2,1) q] show ?thesis by (metis demo_id(2))
qed

section \<open>The snapshot\<close>

text \<open>The snapshot accounts for exactly the cards its owner sees: the counts per status sum to
  the total, which is their number, and every column holds as many cards as its count says, all of
  the column's status.\<close>

theorem snapshot_accounts:
  "s_total (snapshot owner b) = length (filter (row_visible owner) (cards b))
    \<and> sum_list (map snd (s_counts (snapshot owner b))) = s_total (snapshot owner b)
    \<and> list_all (\<lambda>(s, cs). map_of (s_counts (snapshot owner b)) s = Some (length cs) \<and> list_all (\<lambda>c. c_status c = s) cs)
        (s_columns (snapshot owner b))"
proof -
  let ?all = "map (row_view owner b) (by_creation (filter (visibility_sql owner) (cards b)))"
  have counts: "s_counts (snapshot owner b) = map (\<lambda>s. (s, length (filter (\<lambda>c. c_status c = s) ?all))) VALID_STATUSES"
    and total: "s_total (snapshot owner b) = length ?all"
    and cols: "s_columns (snapshot owner b) = map (\<lambda>s. (s, filter (\<lambda>c. c_status c = s) ?all)) COLUMN_ORDER"
    by (simp_all add: snapshot_def Let_def)
  have "length ?all = length (filter (row_visible owner) (cards b))"
    by (simp add: by_creation_def row_visible_sql [abs_def] length_filter_conv_card)
  moreover have "sum_list (map snd (s_counts (snapshot owner b))) = length ?all"
    using count_statuses [of ?all] by (simp only: counts map_map comp_def snd_conv)
  moreover have "map_of (s_counts (snapshot owner b)) s = Some (length (filter (\<lambda>c. c_status c = s) ?all))"
    if "s \<in> set COLUMN_ORDER" for s
  proof -
    have "s \<in> set VALID_STATUSES" using that by (auto simp: COLUMN_ORDER_def VALID_STATUSES_def)
    then show ?thesis by (simp only: counts map_of_map_restrict restrict_in comp_apply)
  qed
  ultimately show ?thesis unfolding total cols by (auto simp: list_all_iff)
qed

end
