(* ===== verification/Plan_Models.thy ===== *)
theory Plan_Models
  imports Prelude
begin

text \<open>
  The data of plan mode (\<open>plans/models.py\<close>): plans, steps, approvals and the revision history,
  the mutation helpers of \<open>GeneralPlan\<close>, its wire and disk forms and the step texts. The bounds on
  model-authored content and \<open>build_steps\<close> are those of \<open>plans/manager.py\<close>.
\<close>

section \<open>Data\<close>

datatype plan_status = Draft | Awaiting_approval | Approved | Executing | Paused | Completed
  | Blocked | Rejected | Aborted

fun plan_status_text :: "plan_status \<Rightarrow> string" where
  "plan_status_text Draft = ''draft''"
| "plan_status_text Awaiting_approval = ''awaiting_approval''"
| "plan_status_text Approved = ''approved''"
| "plan_status_text Executing = ''executing''"
| "plan_status_text Paused = ''paused''"
| "plan_status_text Completed = ''completed''"
| "plan_status_text Blocked = ''blocked''"
| "plan_status_text Rejected = ''rejected''"
| "plan_status_text Aborted = ''aborted''"

datatype step_status = S_pending | S_in_progress | S_completed | S_blocked | S_skipped

fun step_status_text :: "step_status \<Rightarrow> string" where
  "step_status_text S_pending = ''pending''"
| "step_status_text S_in_progress = ''in_progress''"
| "step_status_text S_completed = ''completed''"
| "step_status_text S_blocked = ''blocked''"
| "step_status_text S_skipped = ''skipped''"

definition plan_terminal :: "plan_status \<Rightarrow> bool" where
  "plan_terminal s \<longleftrightarrow> s \<in> {Completed, Blocked, Rejected, Aborted}"

datatype decision = Approve | Reject | Revise | Timeout

fun decision_text :: "decision \<Rightarrow> string" where
  "decision_text Approve = ''approve''"
| "decision_text Reject = ''reject''"
| "decision_text Revise = ''revise''"
| "decision_text Timeout = ''timeout''"

datatype plan_kind = General | Browser
datatype plan_mode = Auto | Forced

record revision_entry =
  rv_revision :: int
  rv_timestamp :: real
  rv_reason :: string
  rv_status :: plan_status

record plan_step =
  s_id :: int
  s_content :: string
  s_activeForm :: string
  s_status :: step_status
  s_note :: "string option"
  s_startedAt :: "real option"
  s_completedAt :: "real option"

record plan_approval =
  ap_id :: string
  ap_revision :: int
  ap_createdAt :: real
  ap_expiresAt :: real
  ap_decisionId :: "string option"
  ap_resolved :: bool
  ap_decision :: "decision option"

record general_plan =
  p_id :: string
  p_sessionKey :: string
  p_goal :: string
  p_title :: string
  p_steps :: "plan_step list"
  p_kind :: plan_kind
  p_mode :: plan_mode
  p_status :: plan_status
  p_revision :: int
  p_runId :: "string option"
  p_detailsMd :: "string option"
  p_approval :: "plan_approval option"
  p_completionSummary :: "string option"
  p_createdAt :: real
  p_updatedAt :: real
  p_revisions :: "revision_entry list"

section \<open>Mutation helpers\<close>

definition record_revision :: "string \<Rightarrow> general_plan \<Rightarrow> general_plan" where
  "record_revision reason p = p\<lparr>p_revisions := p_revisions p @
     [\<lparr>rv_revision = p_revision p, rv_timestamp = p_updatedAt p,
       rv_reason = (if reason \<noteq> '''' then reason else plan_status_text (p_status p)),
       rv_status = p_status p\<rparr>]\<rparr>"

definition touch :: "real \<Rightarrow> string \<Rightarrow> general_plan \<Rightarrow> general_plan" where
  "touch now reason p = record_revision reason (p\<lparr>p_revision := p_revision p + 1, p_updatedAt := now\<rparr>)"

definition new_plan ::
    "real \<Rightarrow> string \<Rightarrow> string \<Rightarrow> string \<Rightarrow> plan_step list \<Rightarrow> string \<Rightarrow> plan_mode \<Rightarrow> string option \<Rightarrow> string option
      \<Rightarrow> plan_kind \<Rightarrow> general_plan" where
  "new_plan now hex session_key goal steps title mode run_id details_md kind =
     record_revision ''created''
       \<lparr>p_id = ''plan_'' @ take 12 hex, p_sessionKey = session_key, p_goal = strip goal,
        p_title = take 200 (if strip title \<noteq> '''' then strip title else strip goal), p_steps = steps,
        p_kind = kind, p_mode = mode, p_status = Draft, p_revision = 0, p_runId = run_id,
        p_detailsMd = details_md, p_approval = None, p_completionSummary = None,
        p_createdAt = now, p_updatedAt = now, p_revisions = []\<rparr>"

definition get_step :: "general_plan \<Rightarrow> int \<Rightarrow> plan_step option" where
  "get_step p i = find (\<lambda>s. s_id s = i) (p_steps p)"

definition count_steps :: "step_status \<Rightarrow> general_plan \<Rightarrow> nat" where
  "count_steps st p = length (filter (\<lambda>s. s_status s = st) (p_steps p))"

definition progress_summary :: "general_plan \<Rightarrow> (string \<times> nat) list" where
  "progress_summary p =
     [(''pending'', count_steps S_pending p), (''in_progress'', count_steps S_in_progress p),
      (''completed'', count_steps S_completed p), (''blocked'', count_steps S_blocked p),
      (''skipped'', count_steps S_skipped p), (''total'', length (p_steps p))]"

definition current_step :: "general_plan \<Rightarrow> plan_step option" where
  "current_step p =
     (case find (\<lambda>s. s_status s = S_in_progress) (p_steps p) of
        Some s \<Rightarrow> Some s
      | None \<Rightarrow> find (\<lambda>s. s_status s = S_pending) (p_steps p))"

definition all_settled :: "general_plan \<Rightarrow> bool" where
  "all_settled p = list_all (\<lambda>s. s_status s \<in> {S_completed, S_skipped}) (p_steps p)"

definition is_terminal :: "general_plan \<Rightarrow> bool" where
  "is_terminal p = plan_terminal (p_status p)"

section \<open>The wire form\<close>

definition approval_view :: "plan_approval \<Rightarrow> json" where
  "approval_view a = JObj [(''id'', JStr (ap_id a)), (''revision'', JInt (ap_revision a)),
     (''expiresAt'', JReal (ap_expiresAt a))]"

definition step_view :: "plan_step \<Rightarrow> json" where
  "step_view s = JObj [(''id'', JInt (s_id s)), (''content'', JStr (s_content s)),
     (''activeForm'', JStr (if s_activeForm s \<noteq> '''' then s_activeForm s else s_content s)),
     (''status'', JStr (step_status_text (s_status s))), (''note'', jopt (s_note s))]"

fun kind_name :: "plan_kind \<Rightarrow> string" where
  "kind_name General = ''general''"
| "kind_name Browser = ''browser''"

fun mode_name :: "plan_mode \<Rightarrow> string" where
  "mode_name Auto = ''auto''"
| "mode_name Forced = ''forced''"

definition public_view :: "general_plan \<Rightarrow> json" where
  "public_view p = JObj [(''id'', JStr (p_id p)), (''sessionKey'', JStr (p_sessionKey p)),
     (''runId'', jopt (p_runId p)), (''kind'', JStr (kind_name (p_kind p))),
     (''mode'', JStr (mode_name (p_mode p))), (''status'', JStr (plan_status_text (p_status p))),
     (''revision'', JInt (p_revision p)), (''title'', JStr (p_title p)), (''goal'', JStr (p_goal p)),
     (''detailsMd'', jopt (p_detailsMd p)), (''steps'', JArr (map step_view (p_steps p))),
     (''progress'', JObj (map (\<lambda>(k, n). (k, JInt (int n))) (progress_summary p))),
     (''approval'', (case p_approval p of
        Some a \<Rightarrow> if ap_resolved a then JNull else approval_view a | None \<Rightarrow> JNull)),
     (''completionSummary'', jopt (p_completionSummary p)),
     (''createdAt'', JReal (p_createdAt p)), (''updatedAt'', JReal (p_updatedAt p))]"

section \<open>Bounds on model-authored content\<close>

definition MAX_PLAN_STEPS :: nat where "MAX_PLAN_STEPS = 64"
definition MAX_STEP_CHARS :: nat where "MAX_STEP_CHARS = 2000"
definition MAX_GOAL_CHARS :: nat where "MAX_GOAL_CHARS = 2000"
definition MAX_PLAN_NOTE :: nat where "MAX_PLAN_NOTE = 2000"
definition MAX_DETAILS_CHARS :: nat where "MAX_DETAILS_CHARS = 20000"

definition truncation_marker :: string where
  "truncation_marker = [ellipsis] @ '' [truncated]''"

definition cap :: "string \<Rightarrow> nat \<Rightarrow> string" where
  "cap s limit = (if length s \<le> limit then s
     else take (limit - length truncation_marker) s @ truncation_marker)"

lemmas plan_limits = MAX_PLAN_STEPS_def MAX_STEP_CHARS_def MAX_GOAL_CHARS_def MAX_PLAN_NOTE_def
  MAX_DETAILS_CHARS_def

section \<open>Step texts\<close>

definition ends_with :: "string \<Rightarrow> string \<Rightarrow> bool" where
  "ends_with suf s = is_prefix (rev suf) (rev s)"

text \<open>The verb without its trailing non-letters, and those.\<close>

definition verb_of :: "string \<Rightarrow> string" where
  "verb_of w = rev (dropWhile (\<lambda>c. \<not> is_alpha c) (rev w))"

definition verb_suffix :: "string \<Rightarrow> string" where
  "verb_suffix w = rev (takeWhile (\<lambda>c. \<not> is_alpha c) (rev w))"

definition gerund :: "string \<Rightarrow> string" where
  "gerund verb =
     (let low = str_lower verb;
          g = (if ends_with ''e'' low \<and> \<not> ends_with ''ee'' low then butlast verb @ ''ing''
               else if ends_with ''ie'' low then take (length verb - 2) verb @ ''ying''
               else verb @ ''ing'')
      in if is_upper (hd verb) then char_upper (hd g) # tl g else g)"

definition imperative_to_gerund :: "string \<Rightarrow> string" where
  "imperative_to_gerund s =
     (if s = '''' then ''''
      else case words s of
          [] \<Rightarrow> s
        | w # ws \<Rightarrow> if verb_of w = '''' then s
            else strip (join '' '' ((gerund (verb_of w) @ verb_suffix w) # ws)))"

text \<open>One entry of the tool's step list: \<open>None\<close> for an entry that is no object; the texts are the
  \<open>str(...)\<close> of what the object holds, with \<open>raw_note\<close> \<open>None\<close> when that is falsy.\<close>

record raw_step =
  raw_id :: pyval
  raw_content :: string
  raw_activeForm :: string
  raw_note :: "string option"

text \<open>\<open>isinstance(sid, int)\<close> holds of the two booleans as well.\<close>

fun step_number :: "pyval \<Rightarrow> int option" where
  "step_number (PInt i) = Some i"
| "step_number (PBool True) = Some 1"
| "step_number (PBool False) = Some 0"
| "step_number _ = None"

definition choose_id :: "nat \<Rightarrow> pyval \<Rightarrow> int list \<Rightarrow> int" where
  "choose_id i v seen =
     (let sid = (case step_number v of Some n \<Rightarrow> if n < 1 then int i else n | None \<Rightarrow> int i)
      in if sid \<in> set seen then fold max seen (hd seen) + 1 else sid)"

definition make_step :: "int \<Rightarrow> string \<Rightarrow> raw_step \<Rightarrow> plan_step" where
  "make_step sid content r =
     \<lparr>s_id = sid, s_content = content,
      s_activeForm = cap (if strip (raw_activeForm r) \<noteq> '''' then strip (raw_activeForm r)
        else imperative_to_gerund content) MAX_STEP_CHARS,
      s_status = S_pending,
      s_note = map_option (\<lambda>n. cap (strip n) MAX_PLAN_NOTE) (raw_note r),
      s_startedAt = None, s_completedAt = None\<rparr>"

fun build_from :: "nat \<Rightarrow> int list \<Rightarrow> plan_step list \<Rightarrow> raw_step option list \<Rightarrow> plan_step list" where
  "build_from i seen acc [] = acc"
| "build_from i seen acc (raw # raws) =
     (if MAX_PLAN_STEPS \<le> length acc then acc
      else case raw of
          None \<Rightarrow> build_from (i + 1) seen acc raws
        | Some r \<Rightarrow>
            let sid = choose_id i (raw_id r) seen; seen' = sid # seen;
                content = cap (strip (raw_content r)) MAX_STEP_CHARS
            in if content = '''' then build_from (i + 1) seen' acc raws
               else build_from (i + 1) seen' (acc @ [make_step sid content r]) raws)"

definition build_steps :: "raw_step option list \<Rightarrow> plan_step list" where
  "build_steps raws = build_from 1 [] [] raws"

end
