(* ===== verification/Plan_Manager.thy ===== *)
theory Plan_Manager
  imports Plan_Models
begin

text \<open>
  The plan registry (\<open>plans/store.py\<close>), the approvals that proposing turns wait on
  (\<open>plans/approval.py\<close>), the operations of \<open>PlanManager\<close> (\<open>plans/manager.py\<close>) and the handlers of the
  plan tool (\<open>agent/tools/plan.py\<close>).

  A plan object is shared by the registry and its readers, and every mutation ends with a save of
  the same object, so the registry holds the current state of every plan. An operation reads the
  clock once. A proposing turn suspends while it waits for a decision: \<open>propose\<close> is the part up to
  the wait, \<open>propose_wakes\<close> the part after it. \<open>sent\<close> lists the plans whose \<open>public_view\<close> has been
  handed to the broadcast callback.
\<close>

section \<open>State\<close>

record plan_decision =
  d_decision :: decision
  d_feedback :: "string option"
  d_decision_id :: "string option"
  d_via :: string

text \<open>The future a proposing turn waits on: \<open>Lapsed\<close> is cancelled by the timeout, not yet noticed
  by the turn.\<close>

datatype plan_future = Waiting | Settled plan_decision | Lapsed

record waiter =
  w_approval :: string
  w_plan :: string
  w_future :: plan_future

record plan_state =
  plans :: "general_plan list"
  forced_pending :: "string set"
  sticky :: "string set"
  futures :: "waiter list"
  on_change :: bool
  sent :: "(string \<times> general_plan) list"

definition fresh_plans :: "bool \<Rightarrow> plan_state" where
  "fresh_plans wired = \<lparr>plans = [], forced_pending = {}, sticky = {}, futures = [], on_change = wired, sent = []\<rparr>"

section \<open>The registry\<close>

definition get_plan :: "plan_state \<Rightarrow> string \<Rightarrow> general_plan option" where
  "get_plan s k = row_with p_id k (plans s)"

definition save_plan :: "general_plan \<Rightarrow> plan_state \<Rightarrow> plan_state" where
  "save_plan p s = s\<lparr>plans := put_row p_id p (plans s)\<rparr>"

text \<open>\<open>max(candidates, key=updatedAt)\<close>: the first of the greatest.\<close>

fun newest :: "general_plan \<Rightarrow> general_plan list \<Rightarrow> general_plan" where
  "newest p [] = p"
| "newest p (q # qs) = newest (if p_updatedAt p < p_updatedAt q then q else p) qs"

definition current_for_session :: "plan_state \<Rightarrow> string \<Rightarrow> general_plan option" where
  "current_for_session s k =
     (case filter (\<lambda>p. p_sessionKey p = k \<and> \<not> is_terminal p) (plans s) of
        [] \<Rightarrow> None
      | p # ps \<Rightarrow> Some (newest p ps))"

text \<open>\<open>sorted(..., reverse=True)\<close> keeps the order of equal elements.\<close>

definition all_for_session :: "plan_state \<Rightarrow> string \<Rightarrow> general_plan list" where
  "all_for_session s k =
     sort_key (\<lambda>p. - p_updatedAt p) (filter (\<lambda>p. p_sessionKey p = k) (plans s))"

definition safe_char :: "char \<Rightarrow> bool" where
  "safe_char c = (let n = of_char c :: nat in
     is_alpha c \<or> (48 \<le> n \<and> n \<le> 57) \<or> n \<in> {178, 179, 185, 188, 189, 190} \<or> c \<in> set ''-_.'')"

definition strip_dots :: "string \<Rightarrow> string" where
  "strip_dots s = rev (dropWhile (\<lambda>c. c = CHR ''.'') (rev (dropWhile (\<lambda>c. c = CHR ''.'') s)))"

definition safe_filename :: "string \<Rightarrow> string" where
  "safe_filename name =
     (if name = '''' then ''_unknown''
      else let out = take 80 (strip_dots (map (\<lambda>c. if safe_char c then c else CHR ''_'') name))
           in if out = '''' then ''_unknown'' else out)"

section \<open>Broadcast\<close>

definition broadcast :: "general_plan \<Rightarrow> bool \<Rightarrow> plan_state \<Rightarrow> plan_state" where
  "broadcast p approval_requested s =
     (if on_change s
      then s\<lparr>sent := sent s @ (''plan.updated'', p) #
             (if approval_requested then [(''plan.approval.requested'', p)] else [])\<rparr>
      else s)"

text \<open>The common end of a mutation: save, then broadcast.\<close>

definition publish :: "general_plan \<Rightarrow> plan_state \<Rightarrow> plan_state" where
  "publish p s = broadcast p False (save_plan p s)"

section \<open>The standing mode\<close>

definition arm_forced :: "string \<Rightarrow> plan_state \<Rightarrow> plan_state" where
  "arm_forced k s = s\<lparr>forced_pending := insert k (forced_pending s)\<rparr>"

definition disarm_forced :: "string \<Rightarrow> plan_state \<Rightarrow> plan_state" where
  "disarm_forced k s = s\<lparr>forced_pending := forced_pending s - {k}\<rparr>"

definition set_sticky :: "string \<Rightarrow> bool \<Rightarrow> plan_state \<Rightarrow> plan_state" where
  "set_sticky k on s =
     (if on then s\<lparr>sticky := insert k (sticky s)\<rparr>
      else s\<lparr>sticky := sticky s - {k}, forced_pending := forced_pending s - {k}\<rparr>)"

definition is_sticky :: "string \<Rightarrow> plan_state \<Rightarrow> bool" where
  "is_sticky k s \<longleftrightarrow> k \<in> sticky s"

definition is_forced_pending :: "string \<Rightarrow> plan_state \<Rightarrow> bool" where
  "is_forced_pending k s \<longleftrightarrow> k \<in> forced_pending s"

definition SIDE_EFFECT_TOOLS :: "string list" where
  "SIDE_EFFECT_TOOLS = [''exec'', ''process'', ''shell'', ''write_file'', ''edit_file'', ''memory_append'',
     ''docker'', ''email'', ''message'', ''voice_call'', ''google_calendar'', ''google_drive'', ''google_tasks'',
     ''google_contacts'', ''linear'', ''github'', ''sentry'', ''trello'', ''homeassistant'', ''board'', ''cron'',
     ''flowlet'', ''artifact'', ''image_generate'', ''knowledge_graph'', ''spawn'', ''agent_followup'', ''delegate'']"

definition under_review :: "plan_status \<Rightarrow> bool" where
  "under_review st \<longleftrightarrow> st \<in> {Draft, Awaiting_approval}"

definition is_gate_active :: "string \<Rightarrow> plan_state \<Rightarrow> bool" where
  "is_gate_active k s \<longleftrightarrow> k \<in> forced_pending s
     \<or> (case current_for_session s k of None \<Rightarrow> False | Some p \<Rightarrow> under_review (p_status p))"

definition gate_blocks :: "string \<Rightarrow> string \<Rightarrow> plan_state \<Rightarrow> bool" where
  "gate_blocks k tool s \<longleftrightarrow> tool \<in> set SIDE_EFFECT_TOOLS \<and> is_gate_active k s"

definition gate_reason :: "string \<Rightarrow> plan_state \<Rightarrow> string" where
  "gate_reason k s =
     (case current_for_session s k of
        Some p \<Rightarrow> if p_status p = Awaiting_approval
          then ''A plan is waiting for the user's approval. You can't take side-effecting actions until they approve it. Wait for the decision, or revise the plan.''
          else ''Plan mode is on for this task: propose a plan with plan(action='propose', ...) and get the user's approval BEFORE any side-effecting action. You may still read files and search while planning.''
      | None \<Rightarrow> ''Plan mode is on for this task: propose a plan with plan(action='propose', ...) and get the user's approval BEFORE any side-effecting action. You may still read files and search while planning.'')"

section \<open>Decisions\<close>

text \<open>\<open>_start_next_step\<close>: the first pending step starts, unless one is in progress.\<close>

fun start_first :: "real \<Rightarrow> plan_step list \<Rightarrow> plan_step list" where
  "start_first now [] = []"
| "start_first now (s # ss) =
     (if s_status s = S_pending
      then s\<lparr>s_status := S_in_progress,
             s_startedAt := (case s_startedAt s of None \<Rightarrow> Some now | Some t \<Rightarrow> Some t)\<rparr> # ss
      else s # start_first now ss)"

definition start_next_step :: "real \<Rightarrow> general_plan \<Rightarrow> general_plan" where
  "start_next_step now p =
     (if list_ex (\<lambda>s. s_status s = S_in_progress) (p_steps p) then p
      else p\<lparr>p_steps := start_first now (p_steps p)\<rparr>)"

definition resolve_record :: "plan_decision \<Rightarrow> plan_approval \<Rightarrow> plan_approval" where
  "resolve_record d a = a\<lparr>ap_resolved := True,
     ap_decision := (if d_decision d = Timeout then None else Some (d_decision d)),
     ap_decisionId := d_decision_id d\<rparr>"

definition decided_plan :: "real \<Rightarrow> plan_decision \<Rightarrow> bool \<Rightarrow> general_plan \<Rightarrow> general_plan" where
  "decided_plan now d live p =
     (let q = p\<lparr>p_approval := map_option (resolve_record d) (p_approval p)\<rparr>
      in case d_decision d of
        Approve \<Rightarrow> touch now ''approved''
          (if live then start_next_step now (q\<lparr>p_status := Executing\<rparr>) else q\<lparr>p_status := Approved\<rparr>)
      | Reject \<Rightarrow> touch now ''rejected'' (q\<lparr>p_status := Rejected\<rparr>)
      | Revise \<Rightarrow> touch now ''revise requested'' (q\<lparr>p_status := Awaiting_approval\<rparr>)
      | Timeout \<Rightarrow> touch now (''approval timed out '' @ [em_dash] @ '' not approved'') (q\<lparr>p_status := Aborted\<rparr>))"

definition apply_decision :: "real \<Rightarrow> plan_decision \<Rightarrow> bool \<Rightarrow> general_plan \<Rightarrow> plan_state \<Rightarrow> plan_state" where
  "apply_decision now d live p s =
     publish (decided_plan now d live p)
       (if d_decision d = Approve then set_sticky (p_sessionKey p) False s else s)"

section \<open>Waiting turns\<close>

definition has_live_future :: "plan_state \<Rightarrow> string \<Rightarrow> bool" where
  "has_live_future s aid =
     (case row_with w_approval aid (futures s) of None \<Rightarrow> False | Some w \<Rightarrow> w_future w = Waiting)"

definition resolve_future :: "string \<Rightarrow> plan_decision \<Rightarrow> plan_state \<Rightarrow> plan_state" where
  "resolve_future aid d s =
     (if has_live_future s aid
      then s\<lparr>futures := update_rows (\<lambda>w. w_approval w = aid) (\<lambda>w. w\<lparr>w_future := Settled d\<rparr>) (futures s)\<rparr>
      else s)"

text \<open>The wait's timeout cancels the future; the turn notices when it next runs.\<close>

definition lapse_future :: "string \<Rightarrow> plan_state \<Rightarrow> plan_state" where
  "lapse_future aid s =
     (if has_live_future s aid
      then s\<lparr>futures := update_rows (\<lambda>w. w_approval w = aid) (\<lambda>w. w\<lparr>w_future := Lapsed\<rparr>) (futures s)\<rparr>
      else s)"

definition drop_future :: "string \<Rightarrow> plan_state \<Rightarrow> plan_state" where
  "drop_future aid s = s\<lparr>futures := filter (\<lambda>w. w_approval w \<noteq> aid) (futures s)\<rparr>"

section \<open>Proposing\<close>

record proposal =
  pr_goal :: string
  pr_steps :: "plan_step list"
  pr_title :: string
  pr_mode :: plan_mode
  pr_runId :: "string option"
  pr_detailsMd :: "string option"
  pr_timeout :: real

definition auto_start :: "bool \<Rightarrow> string \<Rightarrow> proposal \<Rightarrow> plan_state \<Rightarrow> bool" where
  "auto_start cron k r s \<longleftrightarrow> pr_mode r = Auto \<and> \<not> is_forced_pending k s \<and> \<not> is_sticky k s \<and> \<not> cron
     \<and> \<not> (case current_for_session s k of None \<Rightarrow> False | Some p \<Rightarrow> under_review (p_status p))"

definition revised_plan :: "real \<Rightarrow> string \<Rightarrow> proposal \<Rightarrow> general_plan \<Rightarrow> general_plan" where
  "revised_plan now goal r p = touch now ''revised''
     (p\<lparr>p_mode := Forced,
        p_goal := (if strip goal \<noteq> '''' then strip goal else p_goal p),
        p_title := (if strip (pr_title r) \<noteq> '''' then take 200 (strip (pr_title r)) else p_title p),
        p_detailsMd := (case pr_detailsMd r of None \<Rightarrow> p_detailsMd p | Some d \<Rightarrow> Some (cap d MAX_DETAILS_CHARS)),
        p_runId := (if truthy (pr_runId r) then pr_runId r else p_runId p),
        p_steps := pr_steps r, p_status := Awaiting_approval\<rparr>)"

definition proposed_plan :: "real \<Rightarrow> string \<Rightarrow> string \<Rightarrow> string \<Rightarrow> proposal \<Rightarrow> bool \<Rightarrow> general_plan" where
  "proposed_plan now hex k goal r started =
     touch now (if started then ''auto-started by YOLO policy'' else ''proposed'')
       ((new_plan now hex k goal (pr_steps r) (pr_title r) (if started then Auto else Forced) (pr_runId r)
           (map_option (\<lambda>d. cap d MAX_DETAILS_CHARS) (pr_detailsMd r)) General)
         \<lparr>p_status := (if started then Executing else Awaiting_approval)\<rparr>)"

definition superseded_plan :: "real \<Rightarrow> general_plan \<Rightarrow> general_plan" where
  "superseded_plan now p = touch now ''superseded by a new plan'' (p\<lparr>p_status := Aborted\<rparr>)"

definition pending_approval :: "real \<Rightarrow> string \<Rightarrow> real \<Rightarrow> general_plan \<Rightarrow> plan_approval" where
  "pending_approval now hex timeout p =
     \<lparr>ap_id = ''pa_'' @ hex, ap_revision = p_revision p, ap_createdAt = now, ap_expiresAt = now + timeout,
      ap_decisionId = None, ap_resolved = False, ap_decision = None\<rparr>"

text \<open>Put the plan up for review. A cron run has no approver and is rejected at once; any other
  turn starts to wait.\<close>

definition request_approval :: "bool \<Rightarrow> real \<Rightarrow> string \<Rightarrow> real \<Rightarrow> general_plan \<Rightarrow> plan_state
    \<Rightarrow> plan_state \<times> plan_decision option" where
  "request_approval cron now hex timeout p s =
     (let a = pending_approval now hex timeout p; q = p\<lparr>p_approval := Some a\<rparr>;
          s1 = broadcast q True (save_plan q s)
      in if cron
         then let d = \<lparr>d_decision = Reject, d_feedback = None, d_decision_id = None, d_via = ''cron''\<rparr>
              in (apply_decision now d True q s1, Some d)
         else (s1\<lparr>futures := filter (\<lambda>w. w_approval w \<noteq> ap_id a) (futures s1)
                   @ [\<lparr>w_approval = ap_id a, w_plan = p_id p, w_future = Waiting\<rparr>]\<rparr>, None))"

text \<open>\<open>propose\<close> up to the wait: the plan's id and, when it is already known, the decision.\<close>

definition propose :: "bool \<Rightarrow> real \<Rightarrow> string \<Rightarrow> string \<Rightarrow> string \<Rightarrow> proposal \<Rightarrow> plan_state
    \<Rightarrow> plan_state \<times> string \<times> plan_decision option" where
  "propose cron now hex1 hex2 k r s =
     (let goal = cap (strip (pr_goal r)) MAX_GOAL_CHARS; started = auto_start cron k r s
      in case current_for_session s k of
        Some e \<Rightarrow>
          if under_review (p_status e)
          then let p = revised_plan now goal r e; (s2, d) = request_approval cron now hex2 (pr_timeout r) p s
               in (s2, p_id p, d)
          else let s1 = publish (superseded_plan now e) s; p = proposed_plan now hex1 k goal r started
               in if started
                  then (publish (start_next_step now (p\<lparr>p_approval := None\<rparr>)) s1, p_id p,
                        Some \<lparr>d_decision = Approve, d_feedback = None, d_decision_id = None, d_via = ''policy''\<rparr>)
                  else let (s2, d) = request_approval cron now hex2 (pr_timeout r) p s1 in (s2, p_id p, d)
      | None \<Rightarrow>
          let p = proposed_plan now hex1 k goal r started
          in if started
             then (publish (start_next_step now (p\<lparr>p_approval := None\<rparr>)) s, p_id p,
                   Some \<lparr>d_decision = Approve, d_feedback = None, d_decision_id = None, d_via = ''policy''\<rparr>)
             else let (s2, d) = request_approval cron now hex2 (pr_timeout r) p s in (s2, p_id p, d))"

text \<open>The rest of \<open>propose\<close>, when the future has settled or lapsed. Only a timeout is still to be
  applied; a surface's decision has been applied by \<open>resolve_approval\<close>.\<close>

definition propose_wakes :: "real \<Rightarrow> string \<Rightarrow> plan_state \<Rightarrow> plan_state \<times> plan_decision option" where
  "propose_wakes now aid s =
     (case row_with w_approval aid (futures s) of
        None \<Rightarrow> (s, None)
      | Some w \<Rightarrow>
          (case w_future w of
             Waiting \<Rightarrow> (s, None)
           | Settled d \<Rightarrow> (drop_future aid s, Some d)
           | Lapsed \<Rightarrow>
               let d = \<lparr>d_decision = Timeout, d_feedback = None, d_decision_id = None, d_via = ''timeout''\<rparr>;
                   s1 = drop_future aid s
               in (case get_plan s1 (w_plan w) of
                     None \<Rightarrow> (s1, Some d)
                   | Some p \<Rightarrow> (apply_decision now d True p s1, Some d))))"

section \<open>Resolving\<close>

datatype resolve_result = Resolved | Idempotent_replay | Already_resolved | Revision_conflict
  | Not_found | Invalid_decision

definition parse_decision :: "string \<Rightarrow> decision option" where
  "parse_decision t = (if t = ''approve'' then Some Approve else if t = ''reject'' then Some Reject
     else if t = ''revise'' then Some Revise else None)"

definition resolve_approval ::
    "real \<Rightarrow> string \<Rightarrow> string \<Rightarrow> string option \<Rightarrow> int option \<Rightarrow> string option \<Rightarrow> plan_state
      \<Rightarrow> plan_state \<times> resolve_result" where
  "resolve_approval now pid decision_txt feedback expected_revision decision_id s =
     (case get_plan s pid of
        None \<Rightarrow> (s, Not_found)
      | Some p \<Rightarrow>
          (case p_approval p of
             None \<Rightarrow> (s, Not_found)
           | Some a \<Rightarrow>
               if ap_resolved a
               then (s, if truthy decision_id \<and> ap_decisionId a = decision_id
                        then Idempotent_replay else Already_resolved)
               else if expected_revision \<noteq> None \<and> Some (ap_revision a) \<noteq> expected_revision
               then (s, Revision_conflict)
               else (case parse_decision decision_txt of
                  None \<Rightarrow> (s, Invalid_decision)
                | Some dc \<Rightarrow>
                    let live = has_live_future s (ap_id a);
                        d = \<lparr>d_decision = dc, d_feedback = feedback, d_decision_id = decision_id, d_via = ''surface''\<rparr>;
                        s1 = apply_decision now d live p s
                    in (if live then resolve_future (ap_id a) d s1 else s1, Resolved))))"

section \<open>Execution\<close>

record step_update =
  u_id :: int
  u_status :: "step_status option"
  u_note :: "string option"

definition update_status :: "step_update \<Rightarrow> step_status" where
  "update_status u = (case u_status u of None \<Rightarrow> S_in_progress | Some st \<Rightarrow> st)"

definition or_now :: "real \<Rightarrow> real option \<Rightarrow> real option" where
  "or_now now t = (case t of None \<Rightarrow> Some now | Some r \<Rightarrow> Some r)"

definition updated_step :: "real \<Rightarrow> step_update \<Rightarrow> plan_step \<Rightarrow> plan_step" where
  "updated_step now u s =
     (let st = update_status u; ends = st \<in> {S_completed, S_blocked, S_skipped}
      in s\<lparr>s_startedAt := (if st = S_in_progress \<or> ends then or_now now (s_startedAt s) else s_startedAt s),
           s_completedAt := (if ends then or_now now (s_completedAt s) else s_completedAt s),
           s_status := st,
           s_note := (case u_note u of None \<Rightarrow> s_note s | Some n \<Rightarrow> Some (cap n MAX_PLAN_NOTE))\<rparr>)"

text \<open>\<open>get_step\<close> finds the first step with the id.\<close>

fun update_first :: "(plan_step \<Rightarrow> plan_step) \<Rightarrow> int \<Rightarrow> plan_step list \<Rightarrow> plan_step list" where
  "update_first f i [] = []"
| "update_first f i (s # ss) = (if s_id s = i then f s # ss else s # update_first f i ss)"

definition apply_updates :: "real \<Rightarrow> step_update list \<Rightarrow> plan_step list \<Rightarrow> plan_step list" where
  "apply_updates now us steps = fold (\<lambda>u. update_first (updated_step now u) (u_id u)) us steps"

definition finished_any :: "step_update list \<Rightarrow> bool" where
  "finished_any us = list_ex (\<lambda>u. update_status u \<in> {S_completed, S_skipped}) us"

definition updates_label :: "step_update list \<Rightarrow> string" where
  "updates_label us = join '', '' (map (\<lambda>u. ''step '' @ show_int (u_id u) @ '' '' @ [arrow_sign] @ '' ''
     @ step_status_text (update_status u)) us)"

definition advanced_plan :: "real \<Rightarrow> step_update list \<Rightarrow> general_plan \<Rightarrow> general_plan" where
  "advanced_plan now us p =
     (let p1 = p\<lparr>p_steps := apply_updates now us (p_steps p)\<rparr>;
          p2 = (if p_status p1 \<in> {Approved, Paused} then p1\<lparr>p_status := Executing\<rparr> else p1);
          p3 = (if finished_any us then start_next_step now p2 else p2)
      in if p_status p3 = Executing \<and> p_steps p3 \<noteq> [] \<and> all_settled p3
         then touch now (updates_label us @ ''; all steps done'') (p3\<lparr>p_status := Completed\<rparr>)
         else touch now (updates_label us) p3)"

definition update_steps :: "real \<Rightarrow> string \<Rightarrow> step_update list \<Rightarrow> plan_state \<Rightarrow> plan_state \<times> general_plan option" where
  "update_steps now pid us s =
     (case get_plan s pid of
        None \<Rightarrow> (s, None)
      | Some p \<Rightarrow>
          if list_ex (\<lambda>u. get_step p (u_id u) = None) us then (s, None)
          else let q = advanced_plan now us p in (publish q s, Some q))"

definition update_step :: "real \<Rightarrow> string \<Rightarrow> int \<Rightarrow> step_status option \<Rightarrow> string option \<Rightarrow> plan_state
    \<Rightarrow> plan_state \<times> general_plan option" where
  "update_step now pid i st note s = update_steps now pid [\<lparr>u_id = i, u_status = st, u_note = note\<rparr>] s"

text \<open>A mutation of one plan found by its id.\<close>

definition mutate_plan :: "string \<Rightarrow> (general_plan \<Rightarrow> general_plan) \<Rightarrow> plan_state \<Rightarrow> plan_state \<times> general_plan option" where
  "mutate_plan pid f s =
     (case get_plan s pid of None \<Rightarrow> (s, None) | Some p \<Rightarrow> (publish (f p) s, Some (f p)))"

definition closed_plan :: "real \<Rightarrow> plan_status \<Rightarrow> string \<Rightarrow> string \<Rightarrow> general_plan \<Rightarrow> general_plan" where
  "closed_plan now st reason summary p = touch now reason
     (p\<lparr>p_completionSummary := or_none (cap (strip summary) MAX_PLAN_NOTE), p_status := st\<rparr>)"

definition aborted_plan :: "real \<Rightarrow> string \<Rightarrow> general_plan \<Rightarrow> general_plan" where
  "aborted_plan now reason p = touch now reason (p\<lparr>p_status := Aborted\<rparr>)"

definition complete_plan :: "real \<Rightarrow> string \<Rightarrow> string \<Rightarrow> plan_state \<Rightarrow> plan_state \<times> general_plan option" where
  "complete_plan now pid summary = mutate_plan pid (closed_plan now Completed ''completed'' summary)"

definition mark_blocked :: "real \<Rightarrow> string \<Rightarrow> string \<Rightarrow> plan_state \<Rightarrow> plan_state \<times> general_plan option" where
  "mark_blocked now pid reason = mutate_plan pid (closed_plan now Blocked ''blocked'' reason)"

definition cancel_plan :: "real \<Rightarrow> string \<Rightarrow> plan_state \<Rightarrow> plan_state \<times> general_plan option" where
  "cancel_plan now pid = mutate_plan pid (aborted_plan now ''cancelled'')"

definition abort_active_for_session :: "real \<Rightarrow> string \<Rightarrow> string \<Rightarrow> plan_state \<Rightarrow> plan_state" where
  "abort_active_for_session now k reason s =
     (case current_for_session s k of
        None \<Rightarrow> s
      | Some p \<Rightarrow> publish (aborted_plan now (''aborted: '' @ reason) p) s)"

definition resumed_plan :: "real \<Rightarrow> general_plan \<Rightarrow> general_plan" where
  "resumed_plan now p = touch now ''resumed'' (start_next_step now (p\<lparr>p_status := Executing\<rparr>))"

definition resume_plan :: "real \<Rightarrow> string \<Rightarrow> plan_state \<Rightarrow> plan_state \<times> general_plan option" where
  "resume_plan now pid s =
     (case get_plan s pid of
        None \<Rightarrow> (s, None)
      | Some p \<Rightarrow>
          if p_status p \<notin> {Paused, Approved} then (s, None)
          else (publish (resumed_plan now p) s, Some (resumed_plan now p)))"

section \<open>Restart\<close>

definition paused_plan :: "real \<Rightarrow> general_plan \<Rightarrow> general_plan" where
  "paused_plan now p = (if p_status p = Executing
     then touch now ''paused: bot restarted'' (p\<lparr>p_status := Paused\<rparr>) else p)"

definition recover_on_start :: "real \<Rightarrow> plan_state \<Rightarrow> plan_state \<times> nat" where
  "recover_on_start now s =
     (s\<lparr>plans := map (paused_plan now) (plans s)\<rparr>,
      length (filter (\<lambda>p. p_status p = Executing) (plans s)))"

text \<open>A new process: the plans and the standing modes come back from disk, the waiting turns and
  the armed one-shot gates do not.\<close>

definition restart :: "real \<Rightarrow> plan_state \<Rightarrow> plan_state" where
  "restart now s = fst (recover_on_start now (s\<lparr>futures := [], forced_pending := {}, sent := []\<rparr>))"

section \<open>The note after a compaction\<close>

definition step_line :: "plan_step \<Rightarrow> string" where
  "step_line s = ''- '' @ (if s_status s = S_in_progress then ''[>]'' else ''[ ]'') @ '' '' @ show_int (s_id s)
     @ ''. '' @ s_content s"

definition newline :: string where "newline = [char_of (10::nat)]"

definition compaction_note :: "string \<Rightarrow> plan_state \<Rightarrow> string option" where
  "compaction_note k s =
     (case current_for_session s k of
        None \<Rightarrow> None
      | Some p \<Rightarrow>
          if p_status p \<notin> {Approved, Executing, Paused} then None
          else let unfinished = filter (\<lambda>x. s_status x \<in> {S_pending, S_in_progress}) (p_steps p);
                   finished = count_steps S_completed p + count_steps S_skipped p
          in if unfinished = [] then None
             else Some (join newline (
               [''[Active plan preserved across context compaction '' @ [em_dash]
                  @ '' already approved, do NOT re-propose it]'',
                ''Plan: '' @ p_title p @ '' (status: '' @ plan_status_text (p_status p) @ '')'']
               @ (if finished = 0 then []
                  else [show_nat finished @ ''/'' @ show_nat (length (p_steps p))
                        @ '' steps are already finished '' @ [em_dash] @ '' do not redo them.''])
               @ map step_line unfinished
               @ [''Continue the remaining steps. Report finished ones with plan(action='update') alongside your next real tool call; the plan completes itself when every step is done.''])))"

end
