(* ===== verification/Plan_Tool.thy ===== *)
theory Plan_Tool
  imports Plan_Manager
begin

text \<open>
  The handlers of the plan tool (\<open>agent/tools/plan.py\<close>), the agent's surface of plan mode. A reply
  is the JSON document the tool returns. Whether the exec policy runs unattended and the id of the
  active run are inputs.
\<close>

section \<open>Replies\<close>

definition error_reply :: "string \<Rightarrow> json" where
  "error_reply msg = JObj [(''error'', JStr msg)]"

definition progress_reply :: "general_plan \<Rightarrow> json" where
  "progress_reply p =
     (let finished = length (filter (\<lambda>s. s_status s \<in> {S_completed, S_skipped}) (p_steps p))
      in JObj ([(''ok'', JBool True), (''status'', JStr (plan_status_text (p_status p))),
          (''progress'', JStr (show_nat finished @ ''/'' @ show_nat (length (p_steps p))))]
        @ (case find (\<lambda>s. s_status s = S_in_progress) (p_steps p) of
             None \<Rightarrow> []
           | Some s \<Rightarrow> [(''current'', JObj [(''id'', JInt (s_id s)), (''content'', JStr (s_content s))])])))"

definition success_reply :: "general_plan option \<Rightarrow> json" where
  "success_reply p = JObj [(''success'', JBool True), (''plan'', case p of None \<Rightarrow> JNull | Some q \<Rightarrow> public_view q)]"

section \<open>Propose\<close>

record propose_args =
  pa_goal :: string
  pa_steps :: "raw_step option list option"
  pa_review :: bool
  pa_title :: string
  pa_detailsMd :: "string option"

definition requires_review :: "string \<Rightarrow> propose_args \<Rightarrow> plan_state \<Rightarrow> bool" where
  "requires_review k a s \<longleftrightarrow> pa_review a \<or> is_forced_pending k s \<or> is_sticky k s"

definition tool_proposal :: "bool \<Rightarrow> string option \<Rightarrow> string \<Rightarrow> propose_args \<Rightarrow> plan_step list \<Rightarrow> plan_state \<Rightarrow> proposal" where
  "tool_proposal unattended run_id k a steps s =
     \<lparr>pr_goal = strip (pa_goal a), pr_steps = steps, pr_title = strip (pa_title a),
      pr_mode = (if \<not> requires_review k a s \<and> unattended then Auto else Forced),
      pr_runId = run_id, pr_detailsMd = pa_detailsMd a, pr_timeout = 600\<rparr>"

text \<open>The handler up to the wait for a decision.\<close>

definition tool_propose ::
    "bool \<Rightarrow> bool \<Rightarrow> string option \<Rightarrow> real \<Rightarrow> string \<Rightarrow> string \<Rightarrow> string \<Rightarrow> propose_args \<Rightarrow> plan_state
      \<Rightarrow> json + (plan_state \<times> string \<times> plan_decision option)" where
  "tool_propose cron unattended run_id now hex1 hex2 k a s =
     (if strip (pa_goal a) = '''' then Inl (error_reply ''propose: goal is required.'')
      else case pa_steps a of
          None \<Rightarrow> Inl (error_reply ''propose: steps must be a non-empty array.'')
        | Some raws \<Rightarrow>
            if raws = [] then Inl (error_reply ''propose: steps must be a non-empty array.'')
            else let steps = build_steps raws
              in if steps = [] then Inl (error_reply ''propose: no valid steps (each needs a non-empty content).'')
                 else Inr (propose cron now hex1 hex2 k (tool_proposal unattended run_id k a steps s) s))"

text \<open>The rest of the handler: the gate lifts on an approval; any other answer but a request to
  revise disarms the one-shot gate of a session that is not in the standing mode.\<close>

definition tool_proposed :: "string \<Rightarrow> plan_decision \<Rightarrow> plan_state \<Rightarrow> plan_state" where
  "tool_proposed k d s =
     (let s1 = (if d_decision d = Approve then disarm_forced k s else s)
      in case d_decision d of
           Approve \<Rightarrow> s1
         | Revise \<Rightarrow> s1
         | _ \<Rightarrow> if is_sticky k s1 then s1 else disarm_forced k s1)"

definition propose_reply :: "general_plan \<Rightarrow> plan_decision \<Rightarrow> json" where
  "propose_reply p d =
     (let base = [(''planId'', JStr (p_id p)), (''revision'', JInt (p_revision p)),
                  (''status'', JStr (plan_status_text (p_status p))), (''via'', JStr (d_via d))]
      in case d_decision d of
        Approve \<Rightarrow> JObj (base @ [(''decision'', JStr ''approved''),
          (''note'', JStr ((if d_via d = ''policy'' then ''Plan auto-started under YOLO.'' else ''Plan approved.'')
             @ '' Step 1 is in progress. Do the work now; report finished steps with update in the same response as your next real tool call. The plan completes itself when every step is done.'')),
          (''plan'', public_view p)])
      | Revise \<Rightarrow> JObj (base @ [(''decision'', JStr ''revise''),
          (''feedback'', JStr (case d_feedback d of None \<Rightarrow> '''' | Some f \<Rightarrow> f)),
          (''note'', JStr (''The user wants changes. Call propose again with updated steps '' @ [em_dash]
             @ '' it continues THIS plan (same id).''))])
      | Reject \<Rightarrow> JObj (base @ [(''decision'', JStr ''rejected''),
          (''note'', JStr ''The user rejected the plan. Do NOT do the task. Acknowledge briefly and stop.'')])
      | Timeout \<Rightarrow> JObj (base @ [(''decision'', JStr ''not_approved''),
          (''note'', JStr ''No approval received (timed out or no approver). The task was not executed.'')]))"

section \<open>View and update\<close>

definition tool_view :: "string \<Rightarrow> plan_state \<Rightarrow> json" where
  "tool_view k s =
     (case current_for_session s k of
        None \<Rightarrow> JObj [(''plan'', JNull), (''note'', JStr ''No active plan for this session.'')]
      | Some p \<Rightarrow> JObj [(''plan'', public_view p)])"

text \<open>One entry of the update list: \<open>None\<close> for an entry that is no object. A missing or empty
  status is the empty string.\<close>

record raw_update =
  ru_id :: pyval
  ru_status :: string
  ru_note :: "string option"

definition parse_step_status :: "string \<Rightarrow> step_status option" where
  "parse_step_status t = find (\<lambda>st. step_status_text st = t) [S_completed, S_skipped, S_blocked, S_in_progress, S_pending]"

definition check_update :: "general_plan \<Rightarrow> raw_update option \<Rightarrow> json + step_update" where
  "check_update p item =
     (case item of
        None \<Rightarrow> Inl (error_reply ''update: every step needs an integer id.'')
      | Some r \<Rightarrow>
          (case step_number (ru_id r) of
             None \<Rightarrow> Inl (error_reply ''update: every step needs an integer id.'')
           | Some i \<Rightarrow>
               let t = (if ru_status r = '''' then ''completed'' else ru_status r)
               in case parse_step_status t of
                    None \<Rightarrow> Inl (error_reply (''update: invalid status '' @ py_repr t @ ''.''))
                  | Some st \<Rightarrow>
                      if get_step p i = None
                      then Inl (error_reply (''update: no step '' @ show_int i @ ''. Valid: [''
                        @ join '', '' (map (\<lambda>x. show_int (s_id x)) (p_steps p)) @ '']''))
                      else Inr \<lparr>u_id = i, u_status = Some st, u_note = ru_note r\<rparr>))"

fun check_updates :: "general_plan \<Rightarrow> raw_update option list \<Rightarrow> json + step_update list" where
  "check_updates p [] = Inr []"
| "check_updates p (r # rs) = on_ok (check_update p r) (\<lambda>u. on_ok (check_updates p rs) (\<lambda>us. Inr (u # us)))"

definition tool_update :: "real \<Rightarrow> string \<Rightarrow> raw_update option list option \<Rightarrow> plan_state \<Rightarrow> plan_state \<times> json" where
  "tool_update now k raw s =
     (case current_for_session s k of
        None \<Rightarrow> (s, error_reply ''update: no active plan. Call propose first.'')
      | Some p \<Rightarrow>
          (case raw of
             None \<Rightarrow> (s, error_reply ''update: steps must be a non-empty array of {id, status}.'')
           | Some rs \<Rightarrow>
               if rs = [] then (s, error_reply ''update: steps must be a non-empty array of {id, status}.'')
               else (case check_updates p rs of
                  Inl e \<Rightarrow> (s, e)
                | Inr us \<Rightarrow>
                    (case update_steps now (p_id p) us s of
                       (s1, None) \<Rightarrow> (s1, error_reply ''update: failed.'')
                     | (s1, Some q) \<Rightarrow> (s1, progress_reply q)))))"

section \<open>Complete, block and abort\<close>

definition tool_complete :: "real \<Rightarrow> string \<Rightarrow> string \<Rightarrow> plan_state \<Rightarrow> plan_state \<times> json" where
  "tool_complete now k summary s =
     (case current_for_session s k of
        None \<Rightarrow>
          (case all_for_session s k of
             q # _ \<Rightarrow>
               if p_status q = Completed
               then (if summary \<noteq> '''' then fst (complete_plan now (p_id q) summary s) else s,
                     JObj [(''ok'', JBool True), (''status'', JStr ''completed'')])
               else (s, error_reply ''complete: no active plan.'')
           | [] \<Rightarrow> (s, error_reply ''complete: no active plan.''))
      | Some p \<Rightarrow>
          let (s1, q) = complete_plan now (p_id p) summary s
          in (disarm_forced k s1, success_reply q))"

definition tool_block :: "real \<Rightarrow> string \<Rightarrow> string \<Rightarrow> plan_state \<Rightarrow> plan_state \<times> json" where
  "tool_block now k summary s =
     (case current_for_session s k of
        None \<Rightarrow> (s, error_reply ''block: no active plan.'')
      | Some p \<Rightarrow> let (s1, q) = mark_blocked now (p_id p) summary s in (s1, success_reply q))"

definition tool_abort :: "real \<Rightarrow> string \<Rightarrow> plan_state \<Rightarrow> plan_state \<times> json" where
  "tool_abort now k s =
     (case current_for_session s k of
        None \<Rightarrow> (s, error_reply ''abort: no active plan.'')
      | Some p \<Rightarrow>
          let (s1, q) = cancel_plan now (p_id p) s
          in (disarm_forced k s1, success_reply q))"

end
