(* ===== verification/Plan_Invariant.thy ===== *)
theory Plan_Invariant
  imports Plan_Tool
begin

text \<open>
  What every operation of plan mode keeps: the bounds on a plan's content, the gapless revision
  history, the growth of the revision, and the agreement of the broadcast snapshots with the
  registry.
\<close>

section \<open>Bounds\<close>

lemma length_cap [text_bounds]: "length truncation_marker \<le> limit \<Longrightarrow> length (cap s limit) \<le> limit"
  by (simp add: cap_def)

lemma cap_bounds [simp]:
  "length (cap s MAX_STEP_CHARS) \<le> MAX_STEP_CHARS" "length (cap s MAX_GOAL_CHARS) \<le> MAX_GOAL_CHARS"
  "length (cap s MAX_PLAN_NOTE) \<le> MAX_PLAN_NOTE" "length (cap s MAX_DETAILS_CHARS) \<le> MAX_DETAILS_CHARS"
  by (rule length_cap, simp add: truncation_marker_def plan_limits)+

definition step_ok :: "plan_step \<Rightarrow> bool" where
  "step_ok s \<longleftrightarrow> 1 \<le> s_id s \<and> s_content s \<noteq> '''' \<and> length (s_content s) \<le> MAX_STEP_CHARS
     \<and> length (s_activeForm s) \<le> MAX_STEP_CHARS
     \<and> (\<forall>n. s_note s = Some n \<longrightarrow> length n \<le> MAX_PLAN_NOTE)"

definition steps_ok :: "plan_step list \<Rightarrow> bool" where
  "steps_ok ss \<longleftrightarrow> length ss \<le> MAX_PLAN_STEPS \<and> distinct (map s_id ss) \<and> (\<forall>s \<in> set ss. step_ok s)"

lemma fold_max_ge: "x \<in> set xs \<Longrightarrow> (x::int) \<le> fold max xs y"
proof (induction xs arbitrary: y)
  case (Cons a xs)
  have up: "z \<le> fold max xs z" for z :: int
    by (induction xs arbitrary: z) (auto intro: order_trans [OF max.cobounded2])
  from Cons show ?case using up [of "max a y"] by (auto intro: order_trans [OF max.cobounded1])
qed simp

lemma choose_id_fresh: "choose_id i v seen \<notin> set seen"
proof (cases "(case step_number v of Some n \<Rightarrow> if n < 1 then int i else n | None \<Rightarrow> int i) \<in> set seen")
  case True
  have "fold max seen (hd seen) + 1 \<notin> set seen" using fold_max_ge [of _ seen "hd seen"] by fastforce
  with True show ?thesis by (simp only: choose_id_def Let_def if_True not_False_eq_True)
qed (simp add: choose_id_def Let_def)

lemma choose_id_pos:
  assumes "1 \<le> i" "\<forall>n \<in> set seen. 1 \<le> n"
  shows "1 \<le> choose_id i v seen"
proof (cases seen)
  case Nil
  then show ?thesis using assms(1) by (simp add: choose_id_def split: option.splits)
next
  case (Cons a xs)
  then have "1 \<le> fold max seen (hd seen)" using assms(2) fold_max_ge [of a seen "hd seen"] by force
  then show ?thesis using assms(1) by (simp add: choose_id_def Let_def split: option.splits)
qed

lemma make_step_ok:
  "1 \<le> sid \<Longrightarrow> content \<noteq> '''' \<Longrightarrow> length content \<le> MAX_STEP_CHARS \<Longrightarrow> step_ok (make_step sid content r)"
  by (auto simp: step_ok_def make_step_def)

lemma make_step_id [simp]: "s_id (make_step sid content r) = sid"
  by (simp add: make_step_def)

lemma build_from_ok:
  "1 \<le> i \<Longrightarrow> steps_ok acc \<Longrightarrow> s_id ` set acc \<subseteq> set seen \<Longrightarrow> \<forall>n \<in> set seen. 1 \<le> n \<Longrightarrow> steps_ok (build_from i seen acc raws)"
proof (induction i seen acc raws rule: build_from.induct)
  case (2 i seen acc raw raws)
  show ?case
  proof (cases "MAX_PLAN_STEPS \<le> length acc \<or> raw = None")
    case True
    with 2 show ?thesis by auto
  next
    case False
    then obtain r where r: "raw = Some r" and short: "length acc < MAX_PLAN_STEPS" by auto
    let ?sid = "choose_id i (raw_id r) seen" and ?c = "cap (strip (raw_content r)) MAX_STEP_CHARS"
    have fresh: "?sid \<notin> s_id ` set acc" using choose_id_fresh 2(6) by blast
    have pos: "1 \<le> ?sid" using 2(4,7) by (rule choose_id_pos)
    have acc: "steps_ok (acc @ [make_step ?sid ?c r])" if "?c \<noteq> ''''"
      using 2(5) fresh short make_step_ok [OF pos that, of r] by (auto simp: steps_ok_def)
    show ?thesis
    proof (cases "?c = ''''")
      case True
      with r short 2(2) [OF _ r refl refl refl True] 2(4-7) pos show ?thesis by (auto simp: Let_def)
    next
      case False
      with r short 2(3) [OF _ r refl refl refl False] acc 2(4-7) pos show ?thesis by (auto simp: Let_def)
    qed
  qed
qed simp

lemma build_steps_ok: "steps_ok (build_steps raws)"
  unfolding build_steps_def by (rule build_from_ok) (simp_all add: steps_ok_def)

section \<open>Steps under the operations\<close>

lemma start_first_ids: "map s_id (start_first now ss) = map s_id ss"
  by (induction ss) simp_all

lemma step_ok_started: "step_ok (s\<lparr>s_status := st, s_startedAt := t\<rparr>) = step_ok s"
  by (simp add: step_ok_def)

lemma start_first_each: "\<forall>s \<in> set ss. step_ok s \<Longrightarrow> \<forall>s \<in> set (start_first now ss). step_ok s"
  by (induction ss) (simp_all add: step_ok_started)

lemma steps_ok_ids:
  assumes "map s_id ts = map s_id ss" "\<forall>s \<in> set ts. step_ok s" "steps_ok ss"
  shows "steps_ok ts"
proof -
  have "length ts = length ss" using assms(1) by (rule map_eq_imp_length_eq)
  with assms show ?thesis by (simp only: steps_ok_def simp_thms)
qed

lemma start_first_ok:
  assumes "steps_ok ss"
  shows "steps_ok (start_first now ss)"
proof -
  have "\<forall>s \<in> set ss. step_ok s" using assms by (simp add: steps_ok_def)
  then have "\<forall>s \<in> set (start_first now ss). step_ok s" by (rule start_first_each)
  with start_first_ids show ?thesis using assms by (rule steps_ok_ids)
qed

lemma update_first_ids: "(\<And>s. s_id (f s) = s_id s) \<Longrightarrow> map s_id (update_first f i ss) = map s_id ss"
  by (induction ss) simp_all

lemma update_first_each:
  "(\<And>s. step_ok s \<Longrightarrow> step_ok (f s)) \<Longrightarrow> \<forall>s \<in> set ss. step_ok s \<Longrightarrow> \<forall>s \<in> set (update_first f i ss). step_ok s"
  by (induction ss) simp_all

lemma updated_step_ok: "step_ok s \<Longrightarrow> step_ok (updated_step now u s)"
  by (cases "u_note u") (simp_all add: step_ok_def updated_step_def Let_def)

lemma updated_step_id [simp]: "s_id (updated_step now u s) = s_id s"
  by (simp add: updated_step_def Let_def)

lemma update_first_ok:
  assumes "steps_ok ss"
  shows "steps_ok (update_first (updated_step now u) i ss)"
proof -
  have "\<forall>s \<in> set ss. step_ok s" using assms by (simp add: steps_ok_def)
  then have "\<forall>s \<in> set (update_first (updated_step now u) i ss). step_ok s"
    by (rule update_first_each [rotated]) (rule updated_step_ok)
  with update_first_ids [OF updated_step_id] show ?thesis using assms by (rule steps_ok_ids)
qed

lemma apply_updates_ok: "steps_ok ss \<Longrightarrow> steps_ok (apply_updates now us ss)"
  unfolding apply_updates_def by (induction us arbitrary: ss) (simp_all add: update_first_ok)

lemma apply_updates_ids: "map s_id (apply_updates now us ss) = map s_id ss"
  unfolding apply_updates_def by (induction us arbitrary: ss) (simp_all add: update_first_ids)

section \<open>The revision history\<close>

definition log_ok :: "general_plan \<Rightarrow> bool" where
  "log_ok p \<longleftrightarrow> 0 \<le> p_revision p \<and> map rv_revision (p_revisions p) = [0..p_revision p]
     \<and> rv_status (last (p_revisions p)) = p_status p \<and> rv_timestamp (last (p_revisions p)) = p_updatedAt p"

lemma touch_log:
  assumes "0 \<le> p_revision p" "map rv_revision (p_revisions p) = [0..p_revision p]"
  shows "log_ok (touch now reason p)"
proof -
  have "[0..p_revision p] @ [p_revision p + 1] = [0..p_revision p + 1]"
    using assms(1) upto_rec2 [of 0 "p_revision p + 1"] by simp
  with assms show ?thesis by (simp add: log_ok_def touch_def record_revision_def)
qed

definition texts_ok :: "general_plan \<Rightarrow> bool" where
  "texts_ok p \<longleftrightarrow> length (p_title p) \<le> 200 \<and> length (p_goal p) \<le> MAX_GOAL_CHARS
     \<and> (\<forall>d. p_detailsMd p = Some d \<longrightarrow> length d \<le> MAX_DETAILS_CHARS)
     \<and> (\<forall>d. p_completionSummary p = Some d \<longrightarrow> length d \<le> MAX_PLAN_NOTE)"

definition approval_ok :: "general_plan \<Rightarrow> bool" where
  "approval_ok p \<longleftrightarrow> (\<forall>a. p_approval p = Some a \<longrightarrow> ap_revision a \<le> p_revision p)"

definition plan_ok :: "general_plan \<Rightarrow> bool" where
  "plan_ok p \<longleftrightarrow> steps_ok (p_steps p) \<and> log_ok p \<and> texts_ok p \<and> approval_ok p"

text \<open>One mutation: the same plan, one revision later.\<close>

definition succ_plan :: "general_plan \<Rightarrow> general_plan \<Rightarrow> bool" where
  "succ_plan p q \<longleftrightarrow> p_id q = p_id p \<and> p_sessionKey q = p_sessionKey p \<and> p_createdAt q = p_createdAt p
     \<and> p_revision q = p_revision p + 1"

lemma touch_fields [simp]:
  "p_id (touch now r p) = p_id p" "p_sessionKey (touch now r p) = p_sessionKey p" "p_steps (touch now r p) = p_steps p"
  "p_status (touch now r p) = p_status p" "p_revision (touch now r p) = p_revision p + 1"
  "p_approval (touch now r p) = p_approval p" "p_title (touch now r p) = p_title p" "p_goal (touch now r p) = p_goal p"
  "p_detailsMd (touch now r p) = p_detailsMd p" "p_completionSummary (touch now r p) = p_completionSummary p"
  "p_createdAt (touch now r p) = p_createdAt p" "p_updatedAt (touch now r p) = now" "p_mode (touch now r p) = p_mode p"
  "p_runId (touch now r p) = p_runId p" "p_kind (touch now r p) = p_kind p"
  by (simp_all add: touch_def record_revision_def)

lemma start_next_fields [simp]:
  "p_id (start_next_step now p) = p_id p" "p_sessionKey (start_next_step now p) = p_sessionKey p"
  "p_status (start_next_step now p) = p_status p" "p_revision (start_next_step now p) = p_revision p"
  "p_approval (start_next_step now p) = p_approval p" "p_title (start_next_step now p) = p_title p"
  "p_goal (start_next_step now p) = p_goal p" "p_detailsMd (start_next_step now p) = p_detailsMd p"
  "p_completionSummary (start_next_step now p) = p_completionSummary p" "p_createdAt (start_next_step now p) = p_createdAt p"
  "p_updatedAt (start_next_step now p) = p_updatedAt p" "p_revisions (start_next_step now p) = p_revisions p"
  by (simp_all add: start_next_step_def)

lemma start_next_steps_ok: "steps_ok (p_steps p) \<Longrightarrow> steps_ok (p_steps (start_next_step now p))"
  by (simp add: start_next_step_def start_first_ok)

lemma touch_ok:
  assumes "0 \<le> p_revision p" "map rv_revision (p_revisions p) = [0..p_revision p]"
    and "steps_ok (p_steps p)" "texts_ok p" "approval_ok p"
  shows "plan_ok (touch now r p)"
  using assms touch_log [OF assms(1,2), of now r]
  by (auto simp: plan_ok_def texts_ok_def approval_ok_def split: option.splits)

lemma plan_okD:
  assumes "plan_ok p"
  shows "0 \<le> p_revision p" "map rv_revision (p_revisions p) = [0..p_revision p]" "steps_ok (p_steps p)"
    "texts_ok p" "approval_ok p" "log_ok p"
  using assms by (simp_all add: plan_ok_def log_ok_def)

lemmas plan_edit_defs = texts_ok_def approval_ok_def

lemma decided_plan_ok:
  assumes "plan_ok p"
  shows "plan_ok (decided_plan now d live p) \<and> succ_plan p (decided_plan now d live p)"
  using plan_okD [OF assms]
  by (cases "d_decision d"; cases live; cases "p_approval p")
    (auto simp: decided_plan_def Let_def succ_plan_def plan_edit_defs resolve_record_def
      intro!: touch_ok start_next_steps_ok)

lemma closed_plan_ok:
  assumes "plan_ok p"
  shows "plan_ok (closed_plan now st r sm p) \<and> succ_plan p (closed_plan now st r sm p)"
  using plan_okD [OF assms]
  by (auto simp: closed_plan_def succ_plan_def plan_edit_defs or_none_def intro!: touch_ok)

lemma aborted_plan_ok:
  assumes "plan_ok p"
  shows "plan_ok (aborted_plan now r p) \<and> succ_plan p (aborted_plan now r p)"
  using plan_okD [OF assms] by (auto simp: aborted_plan_def succ_plan_def plan_edit_defs intro!: touch_ok)

lemma superseded_plan_ok:
  assumes "plan_ok p"
  shows "plan_ok (superseded_plan now p) \<and> succ_plan p (superseded_plan now p)"
  using plan_okD [OF assms] by (auto simp: superseded_plan_def succ_plan_def plan_edit_defs intro!: touch_ok)

lemma resumed_plan_ok:
  assumes "plan_ok p"
  shows "plan_ok (resumed_plan now p) \<and> succ_plan p (resumed_plan now p)"
  using plan_okD [OF assms]
  by (auto simp: resumed_plan_def succ_plan_def plan_edit_defs intro!: touch_ok start_next_steps_ok)

lemma revised_plan_ok:
  assumes "plan_ok p" "steps_ok (pr_steps r)" "length goal \<le> MAX_GOAL_CHARS"
  shows "plan_ok (revised_plan now goal r p) \<and> succ_plan p (revised_plan now goal r p)"
  using plan_okD [OF assms(1)] assms(2,3) le_trans [OF length_strip assms(3)]
  by (auto simp: revised_plan_def succ_plan_def plan_edit_defs split: option.splits intro!: touch_ok)

lemma proposed_plan_ok:
  assumes "steps_ok (pr_steps r)" "length goal \<le> MAX_GOAL_CHARS"
  shows "plan_ok (proposed_plan now hex k goal r st)"
  using assms le_trans [OF length_strip assms(2)]
  by (auto simp: proposed_plan_def new_plan_def record_revision_def plan_edit_defs split: option.splits
      intro!: touch_ok)

lemma advanced_plan_ok:
  assumes "plan_ok p"
  shows "plan_ok (advanced_plan now us p) \<and> succ_plan p (advanced_plan now us p)"
  using plan_okD [OF assms] apply_updates_ok [of "p_steps p" now us]
  by (auto simp: advanced_plan_def Let_def succ_plan_def plan_edit_defs intro!: touch_ok start_next_steps_ok)

lemma paused_plan_ok:
  assumes "plan_ok p"
  shows "plan_ok (paused_plan now p) \<and> (paused_plan now p = p \<or> succ_plan p (paused_plan now p))"
  using assms plan_okD [OF assms] by (auto simp: paused_plan_def succ_plan_def plan_edit_defs intro!: touch_ok)

lemma waiting_plan_ok:
  "plan_ok p \<Longrightarrow> plan_ok (p\<lparr>p_approval := Some (pending_approval now hex t p)\<rparr>)"
  by (auto simp: plan_ok_def log_ok_def plan_edit_defs pending_approval_def)

lemma started_plan_ok:
  "plan_ok p \<Longrightarrow> plan_ok (start_next_step now (p\<lparr>p_approval := None\<rparr>))"
  by (auto simp: plan_ok_def log_ok_def plan_edit_defs intro!: start_next_steps_ok)

end
