(* ===== verification/Plan_Machine.thy ===== *)
theory Plan_Machine
  imports Plan_Invariant
begin

text \<open>
  Plan mode as a transition system. Every operation is a sequence of primitive steps, each of which
  posts one plan one revision later, pauses the plans of a dead process, or leaves the plans alone;
  the invariant and the growth of revisions are proved for these.
\<close>

section \<open>The registry as a keyed store\<close>

lemma get_save_plan: "get_plan (save_plan p s) k = (if k = p_id p then Some p else get_plan s k)"
  by (simp add: get_plan_def save_plan_def row_with_put_row)

interpretation registry: keyed_store p_id get_plan save_plan
proof
  show "get_plan (save_plan v s) k = (if k = p_id v then Some v else get_plan s k)" for v s k
    by (rule get_save_plan)
  show "get_plan s k = Some v \<Longrightarrow> p_id v = k" for s k v
    unfolding get_plan_def by (blast dest: row_with_SomeD)
qed

lemma broadcast_fields [simp]:
  "plans (broadcast p a s) = plans s" "forced_pending (broadcast p a s) = forced_pending s"
  "sticky (broadcast p a s) = sticky s" "futures (broadcast p a s) = futures s" "on_change (broadcast p a s) = on_change s"
  by (simp_all add: broadcast_def)

lemma save_fields [simp]:
  "forced_pending (save_plan p s) = forced_pending s" "sticky (save_plan p s) = sticky s"
  "futures (save_plan p s) = futures s" "on_change (save_plan p s) = on_change s" "sent (save_plan p s) = sent s"
  by (simp_all add: save_plan_def)

lemma mode_fields [simp]:
  "plans (set_sticky k b s) = plans s" "sent (set_sticky k b s) = sent s" "on_change (set_sticky k b s) = on_change s"
  "plans (disarm_forced k s) = plans s" "sent (disarm_forced k s) = sent s" "on_change (disarm_forced k s) = on_change s"
  "plans (arm_forced k s) = plans s" "sent (arm_forced k s) = sent s" "on_change (arm_forced k s) = on_change s"
  "plans (resolve_future aid d s) = plans s" "sent (resolve_future aid d s) = sent s" "on_change (resolve_future aid d s) = on_change s"
  "plans (lapse_future aid s) = plans s" "sent (lapse_future aid s) = sent s" "on_change (lapse_future aid s) = on_change s"
  "plans (drop_future aid s) = plans s" "sent (drop_future aid s) = sent s" "on_change (drop_future aid s) = on_change s"
  "futures (set_sticky k b s) = futures s" "futures (disarm_forced k s) = futures s"
  by (simp_all add: set_sticky_def disarm_forced_def arm_forced_def resolve_future_def lapse_future_def drop_future_def)

lemma get_plan_cong: "plans t = plans s \<Longrightarrow> get_plan t k = get_plan s k"
  by (simp add: get_plan_def)

lemma get_broadcast [simp]: "get_plan (broadcast p a s) k = get_plan s k"
  by (simp add: get_plan_def)

lemma get_plan_mem: "get_plan s k = Some p \<Longrightarrow> p \<in> set (plans s) \<and> p_id p = k"
  unfolding get_plan_def by (rule row_with_SomeD)

lemma newest_mem: "newest p ps \<in> insert p (set ps)"
  by (induction p ps rule: newest.induct) auto

lemma current_mem:
  assumes "current_for_session s k = Some p"
  shows "p \<in> set (plans s)" "p_sessionKey p = k" "\<not> is_terminal p"
proof -
  obtain q qs where f: "filter (\<lambda>p. p_sessionKey p = k \<and> \<not> is_terminal p) (plans s) = q # qs" "p = newest q qs"
    using assms by (auto simp: current_for_session_def split: list.splits)
  then have "p \<in> set (filter (\<lambda>p. p_sessionKey p = k \<and> \<not> is_terminal p) (plans s))"
    using newest_mem [of q qs] by simp
  then show "p \<in> set (plans s)" "p_sessionKey p = k" "\<not> is_terminal p" by auto
qed

section \<open>The invariant\<close>

definition updates_of :: "string \<Rightarrow> plan_state \<Rightarrow> general_plan list" where
  "updates_of k s = filter (\<lambda>q. p_id q = k) (map snd (filter (\<lambda>e. fst e = ''plan.updated'') (sent s)))"

definition in_sync :: "string \<Rightarrow> plan_state \<Rightarrow> bool" where
  "in_sync k s \<longleftrightarrow> sorted_wrt (\<lambda>q q'. p_revision q < p_revision q') (updates_of k s)
     \<and> (updates_of k s \<noteq> [] \<longrightarrow> get_plan s k = Some (last (updates_of k s)))"

definition plan_inv :: "plan_state \<Rightarrow> bool" where
  "plan_inv s \<longleftrightarrow> distinct (map p_id (plans s)) \<and> (\<forall>p \<in> set (plans s). plan_ok p)
     \<and> (\<not> on_change s \<longrightarrow> sent s = []) \<and> (\<forall>k. in_sync k s)"

lemma plan_inv_fresh: "plan_inv (fresh_plans wired)"
  by (simp add: plan_inv_def fresh_plans_def in_sync_def updates_of_def)

lemma inv_get: "plan_inv s \<Longrightarrow> p \<in> set (plans s) \<Longrightarrow> get_plan s (p_id p) = Some p"
  by (simp add: plan_inv_def get_plan_def row_with_eqI)

lemma inv_ok: "plan_inv s \<Longrightarrow> get_plan s k = Some p \<Longrightarrow> plan_ok p"
  using get_plan_mem [of s k p] by (simp add: plan_inv_def)

lemma inv_current:
  assumes "plan_inv s" "current_for_session s k = Some p"
  shows "get_plan s (p_id p) = Some p"
  using current_mem(1) [OF assms(2)] by (rule inv_get [OF assms(1)])

lemma updates_post:
  "updates_of k (broadcast q a (save_plan q s)) =
     (if on_change s \<and> p_id q = k then updates_of k s @ [q] else updates_of k s)"
  by (simp add: updates_of_def broadcast_def)

text \<open>Posting: a later revision of a plan is saved and broadcast.\<close>

lemma post_sync:
  assumes sync: "in_sync k s" and wired: "\<not> on_change s \<longrightarrow> sent s = []"
    and later: "\<And>p. get_plan s (p_id q) = Some p \<Longrightarrow> p_revision p < p_revision q"
  shows "in_sync k (broadcast q a (save_plan q s))"
proof (cases "on_change s \<and> p_id q = k")
  case True
  have "p_revision x < p_revision q" if x: "x \<in> set (updates_of k s)" for x
  proof -
    have ne: "updates_of k s \<noteq> []" using x by auto
    then have l: "p_revision (last (updates_of k s)) < p_revision q"
      using sync later True by (auto simp: in_sync_def)
    obtain ys y where ys: "updates_of k s = ys @ [y]" using ne by (metis rev_exhaust)
    then have "x = y \<or> p_revision x < p_revision y"
      using sync x by (auto simp: in_sync_def sorted_wrt_append)
    with l ys show ?thesis by auto
  qed
  with True sync show ?thesis
    by (simp add: in_sync_def updates_post sorted_wrt_append registry.get_put)
next
  case False
  have "updates_of k s = []" if "p_id q = k" using False that wired by (simp add: updates_of_def)
  with False sync show ?thesis by (auto simp: in_sync_def updates_post registry.get_put)
qed

lemma post_inv:
  assumes inv: "plan_inv s" and ok: "plan_ok q"
    and later: "\<And>p. get_plan s (p_id q) = Some p \<Longrightarrow> p_revision p < p_revision q"
  shows "plan_inv (broadcast q a (save_plan q s))"
proof -
  have "distinct (map p_id (plans (save_plan q s)))"
    using inv put_row_keys [of p_id "plans s" q] by (simp add: plan_inv_def save_plan_def)
  moreover have "\<forall>p \<in> set (plans (save_plan q s)). plan_ok p"
    using inv ok set_put_row [of p_id q "plans s"] by (auto simp: plan_inv_def save_plan_def)
  moreover have "in_sync k (broadcast q a (save_plan q s))" for k
    using inv later by (intro post_sync) (simp_all add: plan_inv_def)
  moreover have "\<not> on_change s \<longrightarrow> sent (broadcast q a (save_plan q s)) = []"
    using inv by (simp add: plan_inv_def broadcast_def)
  ultimately show ?thesis by (simp add: plan_inv_def)
qed

lemma plan_inv_cong:
  "plans t = plans s \<Longrightarrow> on_change t = on_change s \<Longrightarrow> sent t = sent s \<Longrightarrow> plan_inv t = plan_inv s"
  by (simp add: plan_inv_def in_sync_def updates_of_def get_plan_def)

section \<open>Primitive steps\<close>

inductive plan_tick :: "plan_state \<Rightarrow> plan_state \<Rightarrow> bool" where
  tick_mode: "plans t = plans s \<Longrightarrow> on_change t = on_change s \<Longrightarrow> sent t = sent s \<Longrightarrow> plan_tick s t"
| tick_post: "plan_ok q \<Longrightarrow> (\<And>p. get_plan s (p_id q) = Some p \<Longrightarrow> succ_plan p q)
    \<Longrightarrow> plan_tick s (broadcast q a (save_plan q s))"
| tick_restart: "plan_tick s (restart now s)"

definition advance :: "general_plan \<Rightarrow> general_plan \<Rightarrow> bool" where
  "advance p q \<longleftrightarrow> p_id q = p_id p \<and> p_sessionKey q = p_sessionKey p \<and> p_createdAt q = p_createdAt p
     \<and> p_revision p < p_revision q"

lemma advance_trans: "advance p q \<Longrightarrow> advance q r \<Longrightarrow> advance p r"
  by (simp add: advance_def)

lemma succ_advance: "succ_plan p q \<Longrightarrow> advance p q"
  by (simp add: succ_plan_def advance_def)

lemma paused_plan_id [simp]: "p_id (paused_plan now p) = p_id p"
  by (simp add: paused_plan_def)

lemma get_restart: "get_plan (restart now s) k = map_option (paused_plan now) (get_plan s k)"
proof -
  have "row_with p_id k (map (paused_plan now) ps) = map_option (paused_plan now) (row_with p_id k ps)" for ps
    by (induction ps) (simp_all add: table_simps)
  then show ?thesis by (simp add: restart_def recover_on_start_def get_plan_def)
qed

lemma tick_inv: "plan_tick s t \<Longrightarrow> plan_inv s \<Longrightarrow> plan_inv t"
proof (induction rule: plan_tick.induct)
  case (tick_mode t s)
  then show ?case using plan_inv_cong [of t s] by simp
next
  case (tick_post q s a)
  then show ?case by (intro post_inv) (simp_all add: succ_plan_def)
next
  case (tick_restart s now)
  have "map p_id (map (paused_plan now) (plans s)) = map p_id (plans s)" by simp
  with tick_restart show ?case
    by (auto simp: plan_inv_def restart_def recover_on_start_def in_sync_def updates_of_def paused_plan_ok simp del: map_map)
qed

lemma tick_keeps:
  assumes "plan_tick s t" "plan_inv s"
  shows "registry.keeps advance s t"
  using assms
proof (induction rule: plan_tick.induct)
  case (tick_mode t s)
  then show ?case by (simp add: registry.keeps_def get_plan_cong [of t s])
next
  case (tick_post q s a)
  have "registry.keeps advance s (save_plan q s)"
    by (rule registry.keeps_put) (blast intro: succ_advance tick_post(2))
  then show ?case by (simp add: registry.keeps_def)
next
  case (tick_restart s now)
  then show ?case
    using paused_plan_ok inv_ok succ_advance by (fastforce simp: registry.keeps_def get_restart)
qed

lemma ticks_inv: "plan_tick\<^sup>*\<^sup>* s t \<Longrightarrow> plan_inv s \<Longrightarrow> plan_inv t"
  by (induction rule: rtranclp_induct) (auto intro: tick_inv)

lemma ticks_keep:
  assumes "plan_tick\<^sup>*\<^sup>* s t" "plan_inv s"
  shows "registry.keeps advance s t"
  using assms
proof (induction rule: rtranclp_induct)
  case base
  show ?case by (rule registry.keeps_refl)
next
  case (step t u)
  have "registry.keeps advance t u" using step(2) ticks_inv [OF step(1,4)] by (rule tick_keeps)
  with step(3) [OF step(4)] show ?case
    by (rule registry.keeps_trans [rotated]) (rule advance_trans)
qed

section \<open>Operations as primitive steps\<close>

lemma tick1: "plan_tick s t \<Longrightarrow> plan_tick\<^sup>*\<^sup>* s t"
  by (rule r_into_rtranclp)

lemma mode_ticks: "plans t = plans s \<Longrightarrow> on_change t = on_change s \<Longrightarrow> sent t = sent s \<Longrightarrow> plan_tick\<^sup>*\<^sup>* s t"
  by (intro tick1 tick_mode)

lemma post_ticks:
  assumes "get_plan s (p_id p) = Some p" "plan_ok q \<and> succ_plan p q"
  shows "plan_tick\<^sup>*\<^sup>* s (broadcast q a (save_plan q s))"
proof -
  have "p_id q = p_id p" using assms(2) by (simp add: succ_plan_def)
  with assms show ?thesis by (intro tick1 tick_post) simp_all
qed

lemma new_ticks:
  assumes "get_plan s (p_id q) = None" "plan_ok q"
  shows "plan_tick\<^sup>*\<^sup>* s (broadcast q a (save_plan q s))"
  using assms by (intro tick1 tick_post) simp_all

lemma publish_ticks: "get_plan s (p_id p) = Some p \<Longrightarrow> plan_ok q \<and> succ_plan p q \<Longrightarrow> plan_tick\<^sup>*\<^sup>* s (publish q s)"
  unfolding publish_def by (rule post_ticks)

lemma apply_decision_ticks:
  assumes "get_plan s (p_id p) = Some p" "plan_ok p"
  shows "plan_tick\<^sup>*\<^sup>* s (apply_decision now d live p s)"
proof -
  let ?s = "if d_decision d = Approve then set_sticky (p_sessionKey p) False s else s"
  have "plan_tick\<^sup>*\<^sup>* s ?s" by (rule mode_ticks) simp_all
  moreover have "get_plan ?s (p_id p) = Some p" using assms(1) get_plan_cong [of ?s s] by simp
  then have "plan_tick\<^sup>*\<^sup>* ?s (apply_decision now d live p s)"
    unfolding apply_decision_def using decided_plan_ok [OF assms(2)] by (rule publish_ticks)
  ultimately show ?thesis by simp
qed

lemma mutate_ticks:
  assumes "plan_inv s" "\<And>p. plan_ok p \<Longrightarrow> plan_ok (f p) \<and> succ_plan p (f p)"
  shows "plan_tick\<^sup>*\<^sup>* s (fst (mutate_plan pid f s))"
proof (cases "get_plan s pid")
  case None
  then show ?thesis by (simp add: mutate_plan_def)
next
  case (Some p)
  then have "get_plan s (p_id p) = Some p" using registry.get_key [OF Some] by simp
  then have "plan_tick\<^sup>*\<^sup>* s (publish (f p) s)" using assms(2) inv_ok [OF assms(1) Some] by (blast intro: publish_ticks)
  with Some show ?thesis by (simp add: mutate_plan_def)
qed

lemma request_ticks:
  assumes ok: "plan_ok q" and new: "\<And>p. get_plan s (p_id q) = Some p \<Longrightarrow> succ_plan p q"
  shows "plan_tick\<^sup>*\<^sup>* s (fst (request_approval cron now hex t q s))"
proof -
  let ?q = "q\<lparr>p_approval := Some (pending_approval now hex t q)\<rparr>"
  let ?s = "broadcast ?q True (save_plan ?q s)"
  have q: "plan_ok ?q" using ok by (rule waiting_plan_ok)
  have "plan_tick s ?s" using q by (rule tick_post) (use new in \<open>simp add: succ_plan_def\<close>)
  then have 1: "plan_tick\<^sup>*\<^sup>* s ?s" by (rule tick1)
  have 2: "get_plan ?s (p_id ?q) = Some ?q" by (simp add: registry.get_put)
  have "plan_tick\<^sup>*\<^sup>* ?s (fst (request_approval cron now hex t q s))"
  proof (cases cron)
    case True
    then show ?thesis using apply_decision_ticks [OF 2 q] by (simp add: request_approval_def Let_def)
  next
    case False
    then show ?thesis by (intro mode_ticks) (simp_all add: request_approval_def Let_def)
  qed
  with 1 show ?thesis by simp
qed

lemma proposed_plan_id [simp]: "p_id (proposed_plan now hex k goal r st) = ''plan_'' @ take 12 hex"
  by (simp add: proposed_plan_def new_plan_def record_revision_def)

text \<open>A new proposal, on a registry that does not hold its id.\<close>

lemma fresh_ticks:
  fixes hex1 k goal r started now
  defines "p \<equiv> proposed_plan now hex1 k goal r started"
  assumes ok: "plan_ok p" and new: "get_plan s (p_id p) = None"
  shows "plan_tick\<^sup>*\<^sup>* s (publish (start_next_step now (p\<lparr>p_approval := None\<rparr>)) s)"
    "plan_tick\<^sup>*\<^sup>* s (fst (request_approval cron now hex2 t p s))"
proof -
  show "plan_tick\<^sup>*\<^sup>* s (publish (start_next_step now (p\<lparr>p_approval := None\<rparr>)) s)"
    unfolding publish_def using new started_plan_ok [OF ok] by (intro new_ticks) simp_all
  show "plan_tick\<^sup>*\<^sup>* s (fst (request_approval cron now hex2 t p s))"
    using ok new by (intro request_ticks) simp_all
qed

lemma propose_ticks:
  assumes inv: "plan_inv s" and steps: "steps_ok (pr_steps r)" and fresh: "get_plan s (''plan_'' @ take 12 hex1) = None"
  shows "plan_tick\<^sup>*\<^sup>* s (fst (propose cron now hex1 hex2 k r s))"
proof -
  let ?goal = "cap (strip (pr_goal r)) MAX_GOAL_CHARS" and ?st = "auto_start cron k r s"
  let ?p = "proposed_plan now hex1 k ?goal r ?st"
  have ok: "plan_ok ?p" using steps by (rule proposed_plan_ok) simp
  show ?thesis
  proof (cases "current_for_session s k")
    case None
    have new: "get_plan s (p_id ?p) = None" using fresh by simp
    from None fresh_ticks [OF ok new] show ?thesis
      by (cases ?st) (simp_all add: propose_def Let_def split_beta)
  next
    case (Some e)
    have e: "get_plan s (p_id e) = Some e" using inv Some by (rule inv_current)
    have oke: "plan_ok e" using inv e by (rule inv_ok)
    show ?thesis
    proof (cases "under_review (p_status e)")
      case True
      have rev: "plan_ok (revised_plan now ?goal r e) \<and> succ_plan e (revised_plan now ?goal r e)"
        using oke steps by (rule revised_plan_ok) simp
      then have "p_id (revised_plan now ?goal r e) = p_id e" by (simp add: succ_plan_def)
      with rev e have "plan_tick\<^sup>*\<^sup>* s (fst (request_approval cron now hex2 (pr_timeout r) (revised_plan now ?goal r e) s))"
        by (intro request_ticks) simp_all
      with Some True show ?thesis by (simp add: propose_def Let_def split_beta)
    next
      case False
      let ?s = "publish (superseded_plan now e) s"
      have t: "plan_tick\<^sup>*\<^sup>* s ?s" using e superseded_plan_ok [OF oke] by (rule publish_ticks)
      have id: "p_id (superseded_plan now e) = p_id e" by (simp add: superseded_plan_def)
      have "p_id ?p \<noteq> p_id e" using e fresh by auto
      then have new: "get_plan ?s (p_id ?p) = None" using fresh id by (simp add: publish_def registry.get_put)
      from fresh_ticks [OF ok new] t have "plan_tick\<^sup>*\<^sup>* s (publish (start_next_step now (?p\<lparr>p_approval := None\<rparr>)) ?s)"
        "plan_tick\<^sup>*\<^sup>* s (fst (request_approval cron now hex2 (pr_timeout r) ?p ?s))"
        by (blast intro: rtranclp_trans)+
      with Some False show ?thesis by (cases ?st) (simp_all add: propose_def Let_def split_beta)
    qed
  qed
qed

lemma resolve_ticks:
  assumes inv: "plan_inv s"
  shows "plan_tick\<^sup>*\<^sup>* s (fst (resolve_approval now pid dt fb er did s))"
proof (cases "snd (resolve_approval now pid dt fb er did s) = Resolved")
  case True
  then obtain p a dc where p: "get_plan s pid = Some p" "p_approval p = Some a" "parse_decision dt = Some dc" "\<not> ap_resolved a"
      "\<not> (er \<noteq> None \<and> Some (ap_revision a) \<noteq> er)"
    by (auto simp: resolve_approval_def Let_def split: option.splits if_splits)
  let ?d = "\<lparr>d_decision = dc, d_feedback = fb, d_decision_id = did, d_via = ''surface''\<rparr>"
  have id: "p_id p = pid" using p(1) by (rule registry.get_key)
  have "plan_tick\<^sup>*\<^sup>* s (apply_decision now ?d (has_live_future s (ap_id a)) p s)" (is "plan_tick\<^sup>*\<^sup>* s ?t")
    using p(1) id inv_ok [OF inv p(1)] by (intro apply_decision_ticks) simp_all
  moreover have "plan_tick\<^sup>*\<^sup>* ?t (resolve_future (ap_id a) ?d ?t)" by (intro mode_ticks) simp_all
  ultimately show ?thesis using p by (auto simp: resolve_approval_def Let_def)
next
  case False
  then have "fst (resolve_approval now pid dt fb er did s) = s"
    by (auto simp: resolve_approval_def Let_def split: option.splits if_splits)
  then show ?thesis by simp
qed

lemma wake_ticks:
  assumes inv: "plan_inv s"
  shows "plan_tick\<^sup>*\<^sup>* s (fst (propose_wakes now aid s))"
proof (cases "row_with w_approval aid (futures s)")
  case None
  then show ?thesis by (simp add: propose_wakes_def)
next
  case (Some w)
  let ?s = "drop_future aid s"
  have t: "plan_tick\<^sup>*\<^sup>* s ?s" by (rule mode_ticks) simp_all
  show ?thesis
  proof (cases "w_future w = Lapsed \<and> get_plan ?s (w_plan w) \<noteq> None")
    case True
    then obtain p where p: "get_plan ?s (w_plan w) = Some p" by auto
    have "plan_ok p" using inv p by (simp add: inv_ok get_plan_cong [of ?s s])
    moreover have "get_plan ?s (p_id p) = Some p" using p registry.get_key [OF p] by simp
    ultimately have "plan_tick\<^sup>*\<^sup>* ?s (apply_decision now
        \<lparr>d_decision = Timeout, d_feedback = None, d_decision_id = None, d_via = ''timeout''\<rparr> True p ?s)"
      by (intro apply_decision_ticks)
    with t Some True p show ?thesis by (auto simp: propose_wakes_def Let_def)
  next
    case False
    with t Some show ?thesis by (cases "w_future w") (auto simp: propose_wakes_def Let_def split: option.splits)
  qed
qed

lemma update_ticks:
  assumes "plan_inv s"
  shows "plan_tick\<^sup>*\<^sup>* s (fst (update_steps now pid us s))"
proof -
  have "fst (update_steps now pid us s) = s \<or> fst (update_steps now pid us s) = fst (mutate_plan pid (advanced_plan now us) s)"
    by (auto simp: update_steps_def mutate_plan_def Let_def split: option.splits)
  then show ?thesis using mutate_ticks [of s "advanced_plan now us" pid, OF assms advanced_plan_ok] by auto
qed

lemma resume_ticks:
  assumes "plan_inv s"
  shows "plan_tick\<^sup>*\<^sup>* s (fst (resume_plan now pid s))"
proof -
  have "fst (resume_plan now pid s) = s \<or> fst (resume_plan now pid s) = fst (mutate_plan pid (resumed_plan now) s)"
    by (auto simp: resume_plan_def mutate_plan_def split: option.splits)
  then show ?thesis using mutate_ticks [of s "resumed_plan now" pid, OF assms resumed_plan_ok] by auto
qed

lemma abort_ticks:
  assumes "plan_inv s"
  shows "plan_tick\<^sup>*\<^sup>* s (abort_active_for_session now k reason s)"
proof (cases "current_for_session s k")
  case (Some p)
  have g: "get_plan s (p_id p) = Some p" using assms Some by (rule inv_current)
  have "plan_tick\<^sup>*\<^sup>* s (publish (aborted_plan now (''aborted: '' @ reason) p) s)"
    using g aborted_plan_ok [OF inv_ok [OF assms g]] by (rule publish_ticks)
  with Some show ?thesis by (simp add: abort_active_for_session_def)
qed (simp add: abort_active_for_session_def)

section \<open>Operations\<close>

datatype plan_action = Propose_plan bool string proposal | Wake_turn string | Lapse_wait string | End_turn string
  | Resolve_plan string string | Update_plan string | Close_plan string | Abort_session string
  | Resume_plan string | Restart_process | Set_mode

inductive plan_op :: "plan_action \<Rightarrow> plan_state \<Rightarrow> plan_state \<Rightarrow> bool" where
  do_propose: "pr_steps r = build_steps raws \<Longrightarrow> get_plan s (''plan_'' @ take 12 hex1) = None \<Longrightarrow>
     plan_op (Propose_plan cron k r) s (fst (propose cron now hex1 hex2 k r s))"
| do_wake: "plan_op (Wake_turn aid) s (fst (propose_wakes now aid s))"
| do_lapse: "plan_op (Lapse_wait aid) s (lapse_future aid s)"
| do_end: "plan_op (End_turn aid) s (drop_future aid s)"
| do_resolve: "plan_op (Resolve_plan pid dt) s (fst (resolve_approval now pid dt fb er did s))"
| do_update: "plan_op (Update_plan pid) s (fst (update_steps now pid us s))"
| do_complete: "plan_op (Close_plan pid) s (fst (complete_plan now pid summary s))"
| do_block: "plan_op (Close_plan pid) s (fst (mark_blocked now pid summary s))"
| do_cancel: "plan_op (Close_plan pid) s (fst (cancel_plan now pid s))"
| do_abort: "plan_op (Abort_session k) s (abort_active_for_session now k reason s)"
| do_resume: "plan_op (Resume_plan pid) s (fst (resume_plan now pid s))"
| do_restart: "plan_op Restart_process s (restart now s)"
| do_arm: "plan_op Set_mode s (arm_forced k s)"
| do_disarm: "plan_op Set_mode s (disarm_forced k s)"
| do_sticky: "plan_op Set_mode s (set_sticky k b s)"

definition plan_move :: "plan_state \<Rightarrow> plan_state \<Rightarrow> bool" where
  "plan_move s t \<longleftrightarrow> (\<exists>a. plan_op a s t)"

lemma plan_op_ticks:
  assumes "plan_op a s t" "plan_inv s"
  shows "plan_tick\<^sup>*\<^sup>* s t"
  using assms
proof (induction rule: plan_op.induct)
  case (do_propose r raws s hex1 cron k now hex2)
  then show ?case using build_steps_ok by (intro propose_ticks) simp_all
next
  case (do_complete pid s now summary)
  then show ?case unfolding complete_plan_def using closed_plan_ok by (intro mutate_ticks)
next
  case (do_block pid s now summary)
  then show ?case unfolding mark_blocked_def using closed_plan_ok by (intro mutate_ticks)
next
  case (do_cancel pid s now)
  then show ?case unfolding cancel_plan_def using aborted_plan_ok by (intro mutate_ticks)
next
  case (do_restart s now)
  show ?case by (rule tick1) (rule tick_restart)
qed (auto intro: wake_ticks resolve_ticks update_ticks abort_ticks resume_ticks mode_ticks)

interpretation plan_system: guarded_system "\<lambda>s. \<exists>wired. s = fresh_plans wired" plan_move plan_inv
proof
  show "\<exists>wired. s = fresh_plans wired \<Longrightarrow> plan_inv s" for s using plan_inv_fresh by auto
  show "plan_inv s \<Longrightarrow> plan_move s t \<Longrightarrow> plan_inv t" for s t
    unfolding plan_move_def using plan_op_ticks ticks_inv by blast
qed

lemma move_keeps: "plan_inv s \<Longrightarrow> plan_move s t \<Longrightarrow> registry.keeps advance s t"
  unfolding plan_move_def using plan_op_ticks ticks_keep by blast

definition revision_of :: "string \<Rightarrow> plan_state \<Rightarrow> int" where
  "revision_of k s = (case get_plan s k of None \<Rightarrow> -1 | Some p \<Rightarrow> p_revision p)"

lemma revision_up:
  assumes "plan_inv s" "plan_move s t"
  shows "revision_of k s \<le> revision_of k t"
proof (cases "get_plan s k")
  case None
  have "plan_inv t" using assms by (rule plan_system.step_good)
  then have "0 \<le> p_revision q" if "get_plan t k = Some q" for q
    using that plan_okD(1) inv_ok by blast
  with None show ?thesis by (force simp: revision_of_def split: option.splits)
next
  case (Some p)
  then obtain q where "get_plan t k = Some q" "q = p \<or> advance p q"
    using move_keeps [OF assms] unfolding registry.keeps_def by blast
  with Some show ?thesis by (auto simp: revision_of_def advance_def)
qed

interpretation plan_revision: ratchet "\<lambda>s t. plan_inv s \<and> plan_move s t" "revision_of k" for k
  by unfold_locales (blast intro: revision_up)

section \<open>One active plan per session\<close>

definition one_active :: "plan_state \<Rightarrow> bool" where
  "one_active s \<longleftrightarrow> (\<forall>p \<in> set (plans s). \<forall>q \<in> set (plans s).
     p_sessionKey p = p_sessionKey q \<longrightarrow> \<not> is_terminal p \<longrightarrow> \<not> is_terminal q \<longrightarrow> p_id p = p_id q)"

lemma one_activeD:
  "one_active s \<Longrightarrow> p \<in> set (plans s) \<Longrightarrow> q \<in> set (plans s) \<Longrightarrow> p_sessionKey p = p_sessionKey q \<Longrightarrow>
    \<not> is_terminal p \<Longrightarrow> \<not> is_terminal q \<Longrightarrow> p_id p = p_id q"
  by (simp only: one_active_def) blast

text \<open>A post that adds no second active plan: it closes its plan, continues an active one, or opens
  one in a session without.\<close>

definition calm_post :: "plan_state \<Rightarrow> general_plan \<Rightarrow> bool" where
  "calm_post s q \<longleftrightarrow> is_terminal q
     \<or> (\<exists>p. get_plan s (p_id q) = Some p \<and> \<not> is_terminal p \<and> p_sessionKey p = p_sessionKey q)
     \<or> current_for_session s (p_sessionKey q) = None"

lemma current_None_iff: "current_for_session s k = None \<longleftrightarrow> (\<forall>p \<in> set (plans s). p_sessionKey p = k \<longrightarrow> is_terminal p)"
proof -
  have "current_for_session s k = None \<longleftrightarrow> filter (\<lambda>p. p_sessionKey p = k \<and> \<not> is_terminal p) (plans s) = []"
    by (simp add: current_for_session_def split: list.split)
  then show ?thesis by (auto simp: filter_empty_conv)
qed

lemma post_one_active:
  assumes one: "one_active s" and calm: "calm_post s q"
  shows "one_active (broadcast q a (save_plan q s))"
proof -
  have others: "p_id x = p_id q"
    if x: "x \<in> set (plans s)" "p_sessionKey x = p_sessionKey q" "\<not> is_terminal x" and q: "\<not> is_terminal q" for x
  proof -
    have "current_for_session s (p_sessionKey q) \<noteq> None" using x by (auto simp: current_None_iff)
    with calm q obtain p where "get_plan s (p_id q) = Some p" "\<not> is_terminal p" "p_sessionKey p = p_sessionKey q"
      by (auto simp: calm_post_def)
    with get_plan_mem one_activeD [OF one x(1)] x show ?thesis by metis
  qed
  show ?thesis
    unfolding one_active_def broadcast_fields
  proof (intro ballI impI)
    fix x y assume xy: "x \<in> set (plans (save_plan q s))" "y \<in> set (plans (save_plan q s))"
      "p_sessionKey x = p_sessionKey y" "\<not> is_terminal x" "\<not> is_terminal y"
    have "z = q \<or> z \<in> set (plans s)" if "z \<in> set (plans (save_plan q s))" for z
      using that set_put_row [of p_id q "plans s"] by (auto simp: save_plan_def)
    with xy others one_activeD [OF one] show "p_id x = p_id y" by metis
  qed
qed

lemma one_active_cong: "plans t = plans s \<Longrightarrow> one_active t = one_active s"
  by (simp add: one_active_def)

lemma publish_one_active: "one_active s \<Longrightarrow> calm_post s q \<Longrightarrow> one_active (publish q s)"
  unfolding publish_def by (rule post_one_active)

lemma current_posted:
  assumes one: "one_active s" and e: "current_for_session s k = Some e" "get_plan s (p_id e) = Some e"
    and q: "p_id q = p_id e" "is_terminal q"
  shows "current_for_session (publish q s) k = None"
  unfolding current_None_iff
proof (intro ballI impI)
  fix x assume x: "x \<in> set (plans (publish q s))" "p_sessionKey x = k"
  show "is_terminal x"
  proof (rule ccontr)
    assume live: "\<not> is_terminal x"
    have "x \<in> set (plans s)" and ne: "p_id x \<noteq> p_id q"
    proof -
      have "x = q \<or> x \<in> set (plans s) \<and> p_id x \<noteq> p_id q"
        using x(1) in_put_rowD [of x p_id q "plans s"] by (simp add: publish_def save_plan_def)
      with live q(2) show "x \<in> set (plans s)" "p_id x \<noteq> p_id q" by auto
    qed
    with one_activeD [OF one _ current_mem(1) [OF e(1)]] current_mem [OF e(1)] x(2) live q(1) show False by metis
  qed
qed

end
