(* ===== verification/Plan_Protocol.thy ===== *)
theory Plan_Protocol
  imports Plan_Machine
begin

text \<open>
  What one operation of plan mode does to a plan's status: which operations start execution, that a
  session keeps one active plan, how a decision is taken once, and how a clerk of steps advances a
  plan.
\<close>

section \<open>Lookups after an operation\<close>

lemma get_publish: "get_plan (publish q s) k = (if k = p_id q then Some q else get_plan s k)"
  by (simp add: publish_def registry.get_put)

lemma get_mode [simp]:
  "get_plan (set_sticky k' b s) k = get_plan s k" "get_plan (disarm_forced k' s) k = get_plan s k"
  "get_plan (arm_forced k' s) k = get_plan s k" "get_plan (resolve_future aid d s) k = get_plan s k"
  "get_plan (lapse_future aid s) k = get_plan s k" "get_plan (drop_future aid s) k = get_plan s k"
  by (simp_all add: get_plan_def)

lemma get_apply: "get_plan (apply_decision now d live p s) k =
    (if k = p_id (decided_plan now d live p) then Some (decided_plan now d live p) else get_plan s k)"
  by (simp add: apply_decision_def get_publish)

lemma decided_fields [simp]:
  "p_id (decided_plan now d live p) = p_id p" "p_sessionKey (decided_plan now d live p) = p_sessionKey p"
  by (cases "d_decision d"; simp add: decided_plan_def Let_def)+

lemma decided_status:
  "p_status (decided_plan now d live p) = (case d_decision d of
     Approve \<Rightarrow> if live then Executing else Approved | Reject \<Rightarrow> Rejected | Revise \<Rightarrow> Awaiting_approval | Timeout \<Rightarrow> Aborted)"
  by (cases "d_decision d") (simp_all add: decided_plan_def Let_def)

lemma decided_approval:
  "p_approval (decided_plan now d live p) = map_option (resolve_record d) (p_approval p)"
  by (cases "d_decision d") (simp_all add: decided_plan_def Let_def)

definition running :: "general_plan \<Rightarrow> bool" where
  "running p \<longleftrightarrow> p_status p \<in> {Approved, Executing}"

lemma get_request:
  obtains q where "get_plan (fst (request_approval cron now hex t p s)) = (get_plan s)(p_id p \<mapsto> q)"
    "p_status q = (if cron then Rejected else p_status p)" "p_id q = p_id p" "p_sessionKey q = p_sessionKey p"
    "\<exists>a. p_approval q = Some a \<and> ap_resolved a = cron"
proof -
  let ?q = "p\<lparr>p_approval := Some (pending_approval now hex t p)\<rparr>"
  let ?d = "\<lparr>d_decision = Reject, d_feedback = None, d_decision_id = None, d_via = ''cron''\<rparr>"
  let ?r = "if cron then decided_plan now ?d True ?q else ?q"
  have "get_plan (fst (request_approval cron now hex t p s)) k = ((get_plan s)(p_id p \<mapsto> ?r)) k" for k
  proof (cases cron)
    case True
    then show ?thesis by (simp add: request_approval_def Let_def get_apply registry.get_put)
  next
    case False
    then show ?thesis by (simp add: request_approval_def Let_def get_plan_def save_plan_def row_with_put_row)
  qed
  then have "get_plan (fst (request_approval cron now hex t p s)) = (get_plan s)(p_id p \<mapsto> ?r)" by blast
  moreover have "p_status ?r = (if cron then Rejected else p_status p)" by (simp add: decided_status)
  ultimately show ?thesis by (rule that) (simp_all add: decided_approval resolve_record_def pending_approval_def)
qed

text \<open>\<open>propose\<close> leaves a plan of the registry alone, puts it (back) up for review, rejects or
  aborts it.\<close>

lemma proposed_status [simp]:
  "p_status (proposed_plan now hex k goal r st) = (if st then Executing else Awaiting_approval)"
  "p_sessionKey (proposed_plan now hex k goal r st) = k"
  by (simp_all add: proposed_plan_def new_plan_def record_revision_def)

lemma revised_fields [simp]:
  "p_status (revised_plan now goal r p) = Awaiting_approval" "p_id (revised_plan now goal r p) = p_id p"
  "p_sessionKey (revised_plan now goal r p) = p_sessionKey p"
  by (simp_all add: revised_plan_def)

lemma superseded_fields [simp]:
  "p_status (superseded_plan now p) = Aborted" "p_id (superseded_plan now p) = p_id p"
  "p_sessionKey (superseded_plan now p) = p_sessionKey p"
  by (simp_all add: superseded_plan_def)

lemma propose_cases [consumes 1, case_names revised fresh]:
  assumes "t = fst (propose cron now hex1 hex2 k r s)"
  obtains (revised) e goal where "current_for_session s k = Some e" "under_review (p_status e)"
      "t = fst (request_approval cron now hex2 (pr_timeout r) (revised_plan now goal r e) s)"
  | (fresh) s1 goal p where "s1 = s \<and> current_for_session s k = None \<or>
        (\<exists>e. current_for_session s k = Some e \<and> \<not> under_review (p_status e) \<and> s1 = publish (superseded_plan now e) s)"
      "p = proposed_plan now hex1 k goal r (auto_start cron k r s)"
      "t = (if auto_start cron k r s then publish (start_next_step now (p\<lparr>p_approval := None\<rparr>)) s1
            else fst (request_approval cron now hex2 (pr_timeout r) p s1))"
proof (cases "current_for_session s k")
  case None
  show ?thesis by (rule fresh [of s]) (use None assms in \<open>auto simp: propose_def Let_def split_beta\<close>)
next
  case (Some e)
  show ?thesis
  proof (cases "under_review (p_status e)")
    case True
    show ?thesis by (rule revised) (use Some True assms in \<open>auto simp: propose_def Let_def split_beta\<close>)
  next
    case False
    show ?thesis by (rule fresh [of "publish (superseded_plan now e) s"])
      (use Some False assms in \<open>auto simp: propose_def Let_def split_beta\<close>)
  qed
qed

lemma propose_waits:
  assumes "\<not> auto_start False k r s"
  obtains p s1 where "propose False now hex1 hex2 k r s = (fst (request_approval False now hex2 (pr_timeout r) p s1), p_id p, None)"
    "p_status p = Awaiting_approval" "p_sessionKey p = k"
proof -
  have d: "snd (request_approval False now hex2 t p s1) = None" for p s1 t by (simp add: request_approval_def Let_def)
  let ?goal = "cap (strip (pr_goal r)) MAX_GOAL_CHARS"
  let ?p = "proposed_plan now hex1 k ?goal r False"
  show ?thesis
  proof (cases "current_for_session s k")
    case None
    then show ?thesis using assms d by (intro that [of ?p s]) (simp_all add: propose_def Let_def split_beta)
  next
    case (Some e)
    show ?thesis
    proof (cases "under_review (p_status e)")
      case True
      then show ?thesis using Some d current_mem(2) [OF Some]
        by (intro that [of "revised_plan now ?goal r e" s]) (simp_all add: propose_def Let_def split_beta)
    next
      case False
      then show ?thesis using assms Some d
        by (intro that [of ?p "publish (superseded_plan now e) s"]) (simp_all add: propose_def Let_def split_beta)
    qed
  qed
qed

lemma propose_old:
  assumes "get_plan s (''plan_'' @ take 12 hex1) = None" "get_plan s j = Some p"
    and "get_plan (fst (propose cron now hex1 hex2 k r s)) j = Some p'"
  shows "p' = p \<or> p_status p' \<in> {Awaiting_approval, Rejected, Aborted}"
  using refl [of "fst (propose cron now hex1 hex2 k r s)"]
proof (cases rule: propose_cases)
  case (revised e goal)
  obtain q where "get_plan (fst (propose cron now hex1 hex2 k r s)) = (get_plan s)(p_id e \<mapsto> q)"
    "p_status q = (if cron then Rejected else Awaiting_approval)"
    by (rule get_request [of cron now hex2 "pr_timeout r" "revised_plan now goal r e" s])
      (simp only: revised(3) revised_fields)
  with assms(2,3) show ?thesis by (cases "j = p_id e"; cases cron) simp_all
next
  case (fresh s1 goal q)
  have id: "p_id q = ''plan_'' @ take 12 hex1" using fresh(2) by simp
  then have ne: "j \<noteq> p_id q" using assms(1,2) by auto
  have "get_plan (fst (propose cron now hex1 hex2 k r s)) j = get_plan s1 j"
  proof (cases "auto_start cron k r s")
    case True
    with fresh(3) ne show ?thesis by (simp add: get_publish)
  next
    case False
    obtain x where "get_plan (fst (request_approval cron now hex2 (pr_timeout r) q s1)) = (get_plan s1)(p_id q \<mapsto> x)"
      by (rule get_request)
    with False fresh(3) ne show ?thesis by simp
  qed
  with fresh(1) assms show ?thesis by (auto simp: get_publish split: if_splits)
qed

section \<open>Starting execution\<close>

lemma mutate_get:
  "get_plan (fst (mutate_plan pid f s)) k = Some q \<Longrightarrow> (\<And>p. p_id (f p) = p_id p) \<Longrightarrow>
    get_plan s k = Some q \<or> (\<exists>p. get_plan s k = Some p \<and> q = f p)"
  using registry.get_key [of s pid]
  by (auto simp: mutate_plan_def get_publish split: option.splits if_splits)

lemma plan_fields [simp]:
  "p_id (closed_plan now st r sm p) = p_id p" "p_status (closed_plan now st r sm p) = st"
  "p_id (aborted_plan now r p) = p_id p" "p_status (aborted_plan now r p) = Aborted"
  "p_id (resumed_plan now p) = p_id p" "p_status (resumed_plan now p) = Executing"
  "p_sessionKey (closed_plan now st r sm p) = p_sessionKey p" "p_sessionKey (aborted_plan now r p) = p_sessionKey p"
  "p_sessionKey (resumed_plan now p) = p_sessionKey p"
  by (simp_all add: closed_plan_def aborted_plan_def resumed_plan_def)

lemma advanced_fields [simp]:
  "p_id (advanced_plan now us p) = p_id p" "p_sessionKey (advanced_plan now us p) = p_sessionKey p"
  by (simp_all add: advanced_plan_def Let_def)

lemma advanced_status: "p_status (advanced_plan now us p) \<in>
    (if p_status p \<in> {Approved, Paused, Executing} then {Executing, Completed} else {p_status p})"
  by (simp add: advanced_plan_def Let_def)

lemma update_steps_mutates:
  "fst (update_steps now pid us s) = s \<or> fst (update_steps now pid us s) = fst (mutate_plan pid (advanced_plan now us) s)"
  by (auto simp: update_steps_def mutate_plan_def Let_def split: option.splits)

lemma resolve_cases [consumes 1, case_names refused resolved]:
  assumes "t = fst (resolve_approval now pid dt fb er did s)"
  obtains (refused) "t = s"
  | (resolved) p a dc live where "get_plan s pid = Some p" "p_approval p = Some a" "\<not> ap_resolved a"
      "parse_decision dt = Some dc" "live = has_live_future s (ap_id a)"
      "t = (let d = \<lparr>d_decision = dc, d_feedback = fb, d_decision_id = did, d_via = ''surface''\<rparr>;
               s1 = apply_decision now d live p s in if live then resolve_future (ap_id a) d s1 else s1)"
proof (cases "snd (resolve_approval now pid dt fb er did s) = Resolved")
  case True
  then obtain p a dc where p: "get_plan s pid = Some p" "p_approval p = Some a" "parse_decision dt = Some dc" "\<not> ap_resolved a"
      "\<not> (er \<noteq> None \<and> Some (ap_revision a) \<noteq> er)"
    by (auto simp: resolve_approval_def Let_def split: option.splits if_splits)
  show ?thesis
    by (rule resolved [OF p(1,2,4,3) refl]) (use p assms in \<open>auto simp: resolve_approval_def Let_def\<close>)
next
  case False
  then show ?thesis
    using assms by (intro refused) (auto simp: resolve_approval_def Let_def split: option.splits if_splits)
qed

lemma resolve_get:
  assumes "t = fst (resolve_approval now pid dt fb er did s)" "get_plan t k = Some q" "get_plan s k = Some p"
  shows "q = p \<or> k = pid \<and> (\<exists>d live. parse_decision dt = Some (d_decision d) \<and> q = decided_plan now d live p)"
  using assms(1)
proof (cases rule: resolve_cases)
  case refused
  with assms show ?thesis by simp
next
  case (resolved p0 a dc live)
  let ?d = "\<lparr>d_decision = dc, d_feedback = fb, d_decision_id = did, d_via = ''surface''\<rparr>"
  have "get_plan t k = (if k = p_id p0 then Some (decided_plan now ?d live p0) else get_plan s k)"
    using resolved(6) by (simp add: Let_def get_apply)
  moreover have "p_id p0 = pid" using resolved(1) by (rule registry.get_key)
  ultimately show ?thesis using assms(2,3) resolved(1,4) by (cases "k = pid") (auto intro!: exI [of _ ?d])
qed

lemma wake_get:
  assumes "get_plan (fst (propose_wakes now aid s)) k = Some q" "get_plan s k = Some p"
  shows "q = p \<or> p_status q = Aborted"
  using assms
  by (auto simp: propose_wakes_def Let_def get_apply decided_status split: option.splits plan_future.splits if_splits)

text \<open>A plan under review starts only by an approval of a surface.\<close>

lemma review_left_by_approval:
  assumes "plan_op a s t" "plan_inv s" "get_plan s k = Some p" "under_review (p_status p)"
    and "get_plan t k = Some q" "running q"
  shows "a = Resolve_plan k ''approve''"
proof -
  have np: "q \<noteq> p" using assms(4,6) by (auto simp: under_review_def running_def)
  from assms(1,2,3,5) np assms(4,6) show ?thesis
  proof (induction rule: plan_op.induct)
    case (do_propose r raws s hex1 cron sk now hex2)
    from propose_old [OF do_propose(2,4,5)] do_propose(6,8) show ?case by (auto simp: running_def)
  next
    case (do_wake aid s now)
    then show ?case using wake_get by (fastforce simp: running_def)
  next
    case (do_resolve pid dt s now fb er did)
    then obtain d live where d: "k = pid" "parse_decision dt = Some (d_decision d)" "q = decided_plan now d live p"
      using resolve_get [OF refl] by metis
    with do_resolve have "d_decision d = Approve" by (cases "d_decision d") (auto simp: running_def decided_status)
    with d show ?case by (auto simp: parse_decision_def split: if_splits)
  next
    case (do_update pid s now us)
    then have "q = advanced_plan now us p"
      using update_steps_mutates [of now pid us s] mutate_get [of pid "advanced_plan now us" s k q] by auto
    with do_update advanced_status [of now us p] show ?case by (auto simp: running_def under_review_def split: if_splits)
  next
    case (do_complete pid s now summary)
    then show ?case using mutate_get [of pid "closed_plan now Completed ''completed'' summary" s k q]
      by (auto simp: complete_plan_def running_def)
  next
    case (do_block pid s now summary)
    then show ?case using mutate_get [of pid "closed_plan now Blocked ''blocked'' summary" s k q]
      by (auto simp: mark_blocked_def running_def)
  next
    case (do_cancel pid s now)
    then show ?case using mutate_get [of pid "aborted_plan now ''cancelled''" s k q]
      by (auto simp: cancel_plan_def running_def)
  next
    case (do_abort sk s now reason)
    then show ?case by (auto simp: abort_active_for_session_def get_publish running_def split: option.splits if_splits)
  next
    case (do_resume pid s now)
    then have "p_status p \<in> {Paused, Approved}"
      using registry.get_key [of s pid] by (auto simp: resume_plan_def get_publish split: option.splits if_splits)
    with do_resume show ?case by (auto simp: under_review_def)
  next
    case (do_restart s now)
    then show ?case by (auto simp: get_restart paused_plan_def running_def split: if_splits)
  qed simp_all
qed

lemma propose_new:
  assumes "get_plan s j = None" "get_plan (fst (propose cron now hex1 hex2 k r s)) j = Some q" "plan_inv s"
  shows "p_status q \<in> {Awaiting_approval, Rejected} \<or> auto_start cron k r s"
  using refl [of "fst (propose cron now hex1 hex2 k r s)"]
proof (cases rule: propose_cases)
  case (revised e goal)
  have e: "get_plan s (p_id e) = Some e" using assms(3) revised(1) by (rule inv_current)
  obtain x where "get_plan (fst (propose cron now hex1 hex2 k r s)) = (get_plan s)(p_id e \<mapsto> x)"
    by (rule get_request [of cron now hex2 "pr_timeout r" "revised_plan now goal r e" s])
      (simp only: revised(3) revised_fields)
  with assms(1,2) e show ?thesis by (cases "j = p_id e") simp_all
next
  case (fresh s1 goal p)
  show ?thesis
  proof (rule ccontr)
    assume neg: "\<not> ?thesis"
    obtain x where x: "get_plan (fst (propose cron now hex1 hex2 k r s)) = (get_plan s1)(p_id p \<mapsto> x)"
      "p_status x = (if cron then Rejected else Awaiting_approval)"
      by (rule get_request [of cron now hex2 "pr_timeout r" p s1])
        (use fresh(2,3) neg in \<open>simp only: if_False de_Morgan_disj proposed_status\<close>)
    have "get_plan s1 j = None"
    proof (cases "s1 = s")
      case False
      then obtain e where "current_for_session s k = Some e" "s1 = publish (superseded_plan now e) s" using fresh(1) by blast
      with inv_current [OF assms(3)] assms(1) show ?thesis by (simp add: get_publish split: if_splits) auto
    qed (simp add: assms(1))
    with x assms(2) neg show False by (cases "j = p_id p"; cases cron) simp_all
  qed
qed

lemma mutate_None: "get_plan s k = None \<Longrightarrow> (\<And>p. p_id (f p) = p_id p) \<Longrightarrow> get_plan (fst (mutate_plan pid f s)) k = None"
  using mutate_get [of pid f s k] by (cases "get_plan (fst (mutate_plan pid f s)) k") auto

text \<open>A plan enters the registry running only under the auto-start policy.\<close>

lemma new_running:
  assumes "plan_op a s t" "plan_inv s" "get_plan s k = None" "get_plan t k = Some q" "running q"
  shows "\<exists>sk r. a = Propose_plan False sk r \<and> pr_mode r = Auto \<and> sk \<notin> forced_pending s \<and> sk \<notin> sticky s"
  using assms
proof (induction rule: plan_op.induct)
  case (do_propose r raws s hex1 cron sk now hex2)
  from propose_new [OF do_propose(4,5,3)] do_propose(6) have "auto_start cron sk r s" by (auto simp: running_def)
  then show ?case by (auto simp: auto_start_def is_forced_pending_def is_sticky_def)
next
  case (do_wake aid s now)
  then show ?case using registry.get_key by (fastforce simp: propose_wakes_def Let_def get_apply
      split: option.splits plan_future.splits if_splits)
next
  case (do_resolve pid dt s now fb er did)
  from refl [of "fst (resolve_approval now pid dt fb er did s)"] show ?case
  proof (cases rule: resolve_cases)
    case refused
    with do_resolve show ?thesis by simp
  next
    case (resolved p a dc live)
    have "p_id p \<noteq> k" using resolved(1) do_resolve(2) registry.get_key [OF resolved(1)] by auto
    then have "get_plan (fst (resolve_approval now pid dt fb er did s)) k = None"
      unfolding resolved(6) using do_resolve(2) by (simp add: Let_def get_apply)
    with do_resolve show ?thesis by simp
  qed
next
  case (do_update pid s now us)
  then show ?case using update_steps_mutates [of now pid us s] mutate_None [of s k "advanced_plan now us" pid] by auto
next
  case (do_abort sk s now reason)
  then show ?case using inv_current [of s sk]
    by (auto simp: abort_active_for_session_def get_publish split: option.splits if_splits)
next
  case (do_resume pid s now)
  then show ?case using registry.get_key [of s pid]
    by (auto simp: resume_plan_def get_publish split: option.splits if_splits)
next
  case (do_restart s now)
  then show ?case by (simp add: get_restart)
qed (simp_all add: complete_plan_def mark_blocked_def cancel_plan_def mutate_None)

section \<open>One active plan\<close>

text \<open>The decisions of the surfaces are about plans still open.\<close>

definition answers_open :: "plan_action \<Rightarrow> plan_state \<Rightarrow> bool" where
  "answers_open a s \<longleftrightarrow> (\<forall>pid dt p. a = Resolve_plan pid dt \<longrightarrow> get_plan s pid = Some p \<longrightarrow> \<not> is_terminal p)"

lemma terminal_simps [simp]:
  "is_terminal (closed_plan now Completed r sm p)" "is_terminal (closed_plan now Blocked r sm p)"
  "is_terminal (aborted_plan now r p)" "is_terminal (superseded_plan now p)"
  by (simp_all add: is_terminal_def plan_terminal_def)

lemma advanced_terminal: "is_terminal p \<Longrightarrow> is_terminal (advanced_plan now us p)"
  using advanced_status [of now us p] by (auto simp: is_terminal_def plan_terminal_def split: if_splits)

lemma mutate_one_active:
  assumes one: "one_active s" and f: "\<And>p. is_terminal p \<Longrightarrow> is_terminal (f p)"
    and "\<And>p. p_id (f p) = p_id p" "\<And>p. p_sessionKey (f p) = p_sessionKey p"
  shows "one_active (fst (mutate_plan pid f s))"
proof (cases "get_plan s pid")
  case None
  then show ?thesis using one by (simp add: mutate_plan_def)
next
  case (Some p)
  have "calm_post s (f p)"
    using Some registry.get_key [OF Some] f assms(3,4) by (auto simp: calm_post_def)
  then have "one_active (publish (f p) s)" by (rule publish_one_active [OF one])
  with Some show ?thesis by (simp add: mutate_plan_def)
qed

lemma apply_one_active:
  assumes one: "one_active s" and p: "get_plan s (p_id p) = Some p" and "\<not> is_terminal p \<or> d_decision d \<in> {Reject, Timeout}"
  shows "one_active (apply_decision now d live p s)"
proof -
  let ?s = "if d_decision d = Approve then set_sticky (p_sessionKey p) False s else s"
  have "is_terminal (decided_plan now d live p)" if "d_decision d \<in> {Reject, Timeout}"
    using that by (auto simp: is_terminal_def plan_terminal_def decided_status)
  moreover have "get_plan ?s (p_id p) = Some p" using p by simp
  ultimately have "calm_post ?s (decided_plan now d live p)" using assms(3) by (auto simp: calm_post_def)
  moreover have "one_active ?s" using one one_active_cong [of ?s s] by simp
  ultimately show ?thesis unfolding apply_decision_def by (rule publish_one_active [rotated])
qed

lemma request_one_active:
  assumes one: "one_active s" and calm: "calm_post s p"
  shows "one_active (fst (request_approval cron now hex t p s))"
proof -
  let ?q = "p\<lparr>p_approval := Some (pending_approval now hex t p)\<rparr>"
  let ?s = "broadcast ?q True (save_plan ?q s)"
  have q: "calm_post s ?q" using calm by (simp add: calm_post_def is_terminal_def)
  have s: "one_active ?s" using one q by (rule post_one_active)
  have get: "get_plan ?s (p_id ?q) = Some ?q" by (simp add: registry.get_put)
  show ?thesis
  proof (cases cron)
    case True
    then show ?thesis using apply_one_active [OF s get] by (simp add: request_approval_def Let_def)
  next
    case False
    let ?t = "fst (request_approval cron now hex t p s)"
    have "plans ?t = plans ?s" using False by (simp add: request_approval_def Let_def)
    with s show ?thesis using one_active_cong [of ?t ?s] by simp
  qed
qed

lemma propose_one_active:
  assumes inv: "plan_inv s" and one: "one_active s"
  shows "one_active (fst (propose cron now hex1 hex2 k r s))"
  using refl [of "fst (propose cron now hex1 hex2 k r s)"]
proof (cases rule: propose_cases)
  case (revised e goal)
  have "calm_post s (revised_plan now goal r e)"
    using inv_current [OF inv revised(1)] current_mem [OF revised(1)] by (auto simp: calm_post_def)
  then show ?thesis unfolding revised(3) by (rule request_one_active [OF one])
next
  case (fresh s1 goal p)
  have s1: "one_active s1 \<and> current_for_session s1 k = None"
    using fresh(1)
  proof
    assume "\<exists>e. current_for_session s k = Some e \<and> \<not> under_review (p_status e) \<and> s1 = publish (superseded_plan now e) s"
    then obtain e where e: "current_for_session s k = Some e" "s1 = publish (superseded_plan now e) s" by blast
    have g: "get_plan s (p_id e) = Some e" using inv e(1) by (rule inv_current)
    have "one_active s1" unfolding e(2) by (rule publish_one_active [OF one]) (simp add: calm_post_def)
    moreover have "current_for_session s1 k = None"
      unfolding e(2) by (rule current_posted [OF one e(1) g]) simp_all
    ultimately show ?thesis ..
  qed (simp add: one)
  have "p_sessionKey p = k" using fresh(2) by simp
  then have "calm_post s1 p" "calm_post s1 (start_next_step now (p\<lparr>p_approval := None\<rparr>))"
    using s1 by (simp_all add: calm_post_def)
  then show ?thesis unfolding fresh(3) using s1 request_one_active [of s1 p] publish_one_active [of s1] by simp
qed

lemma one_active_map:
  assumes one: "one_active s" and t: "plans t = map f (plans s)"
    and f: "\<And>p. p_id (f p) = p_id p" "\<And>p. p_sessionKey (f p) = p_sessionKey p" "\<And>p. is_terminal (f p) = is_terminal p"
  shows "one_active t"
  unfolding one_active_def t
proof (intro ballI impI)
  fix x y assume "x \<in> set (map f (plans s))" "y \<in> set (map f (plans s))"
    and xy: "p_sessionKey x = p_sessionKey y" "\<not> is_terminal x" "\<not> is_terminal y"
  then obtain p q where p: "x = f p" "p \<in> set (plans s)" "y = f q" "q \<in> set (plans s)" by auto
  have "p_id p = p_id q" using one p(2,4) by (rule one_activeD) (use xy p(1,3) f(2,3) in metis)+
  then show "p_id x = p_id y" by (simp only: p(1,3) f(1))
qed

lemma op_one_active:
  assumes "plan_op a s t" "plan_inv s" "one_active s" "answers_open a s"
  shows "one_active t"
  using assms
proof (induction rule: plan_op.induct)
  case (do_propose r raws s hex1 cron sk now hex2)
  then show ?case by (simp add: propose_one_active)
next
  case (do_wake aid s now)
  show ?case
  proof (cases "\<exists>w p. row_with w_approval aid (futures s) = Some w \<and> w_future w = Lapsed \<and> get_plan s (w_plan w) = Some p")
    case True
    then obtain w p where w: "row_with w_approval aid (futures s) = Some w" "w_future w = Lapsed" "get_plan s (w_plan w) = Some p"
      by blast
    have p: "get_plan (drop_future aid s) (p_id p) = Some p" using w(3) registry.get_key [OF w(3)] by simp
    have "one_active (drop_future aid s)" using do_wake one_active_cong [of "drop_future aid s" s] by simp
    then have "one_active (apply_decision now \<lparr>d_decision = Timeout, d_feedback = None, d_decision_id = None, d_via = ''timeout''\<rparr>
        True p (drop_future aid s))" using p by (rule apply_one_active) simp
    with w show ?thesis by (simp add: propose_wakes_def Let_def)
  next
    case False
    then have "plans (fst (propose_wakes now aid s)) = plans s"
      by (auto simp: propose_wakes_def Let_def split: option.splits plan_future.splits)
    then show ?thesis using do_wake(2) one_active_cong by blast
  qed
next
  case (do_resolve pid dt s now fb er did)
  from refl [of "fst (resolve_approval now pid dt fb er did s)"] show ?case
  proof (cases rule: resolve_cases)
    case refused
    with do_resolve show ?thesis by simp
  next
    case (resolved p a dc live)
    let ?d = "\<lparr>d_decision = dc, d_feedback = fb, d_decision_id = did, d_via = ''surface''\<rparr>"
    let ?t = "apply_decision now ?d live p s"
    have p: "get_plan s (p_id p) = Some p" using resolved(1) registry.get_key [OF resolved(1)] by simp
    have "\<not> is_terminal p" using do_resolve(3) resolved(1) by (simp add: answers_open_def)
    then have "one_active ?t" using do_resolve(2) p by (intro apply_one_active) simp_all
    then show ?thesis unfolding resolved(6) using one_active_cong [of "resolve_future (ap_id a) ?d ?t" ?t]
      by (cases live) (simp_all add: Let_def)
  qed
next
  case (do_update pid s now us)
  then show ?case using update_steps_mutates [of now pid us s]
      mutate_one_active [of s "advanced_plan now us" pid] advanced_terminal by auto
next
  case (do_abort sk s now reason)
  then show ?case by (auto simp: abort_active_for_session_def calm_post_def split: option.splits intro!: publish_one_active)
next
  case (do_resume pid s now)
  show ?case
  proof (cases "\<exists>p. get_plan s pid = Some p \<and> p_status p \<in> {Paused, Approved}")
    case True
    then obtain p where p: "get_plan s pid = Some p" "p_status p \<in> {Paused, Approved}" by blast
    then have "\<not> is_terminal p" by (auto simp: is_terminal_def plan_terminal_def)
    then have "calm_post s (resumed_plan now p)" using p registry.get_key [OF p(1)] by (auto simp: calm_post_def)
    then show ?thesis using p do_resume(2) by (simp add: resume_plan_def publish_one_active)
  next
    case False
    then show ?thesis using do_resume by (auto simp: resume_plan_def split: option.splits)
  qed
next
  case (do_restart s now)
  have "plans (restart now s) = map (paused_plan now) (plans s)" by (simp add: restart_def recover_on_start_def)
  with do_restart(2) show ?case by (rule one_active_map) (simp_all add: paused_plan_def is_terminal_def plan_terminal_def)
qed (simp_all add: complete_plan_def mark_blocked_def cancel_plan_def mutate_one_active
    one_active_def [of "lapse_future _ _"] one_active_def [of "drop_future _ _"] one_active_def [of "arm_forced _ _"]
    one_active_def [of "disarm_forced _ _"] one_active_def [of "set_sticky _ _ _"] flip: one_active_def)

definition open_move :: "plan_state \<Rightarrow> plan_state \<Rightarrow> bool" where
  "open_move s t \<longleftrightarrow> (\<exists>a. plan_op a s t \<and> answers_open a s)"

interpretation open_plans: guarded_system "\<lambda>s. \<exists>wired. s = fresh_plans wired" open_move "\<lambda>s. plan_inv s \<and> one_active s"
proof
  show "\<exists>wired. s = fresh_plans wired \<Longrightarrow> plan_inv s \<and> one_active s" for s
    using plan_inv_fresh by (auto simp: one_active_def fresh_plans_def)
  show "plan_inv s \<and> one_active s \<Longrightarrow> open_move s t \<Longrightarrow> plan_inv t \<and> one_active t" for s t
    unfolding open_move_def using op_one_active plan_op_ticks ticks_inv by blast
qed

lemma current_unique:
  assumes "one_active s" "q \<in> set (plans s)" "p_sessionKey q = k" "\<not> is_terminal q" "plan_inv s"
  shows "current_for_session s k = Some q"
proof (cases "current_for_session s k")
  case None
  with assms(2-4) show ?thesis by (simp add: current_None_iff)
next
  case (Some p)
  note m = current_mem [OF Some]
  have id: "p_id p = p_id q"
    using assms(1) m(1) assms(2) _ m(3) assms(4) by (rule one_activeD) (simp only: m(2) assms(3))
  have "Some p = Some q"
    using inv_get [OF assms(5) m(1)] inv_get [OF assms(5,2)] by (simp only: id)
  with Some show ?thesis by (simp only:)
qed

section \<open>Steps\<close>

definition asked_status :: "step_update list \<Rightarrow> plan_step \<Rightarrow> step_status" where
  "asked_status us s = (case find (\<lambda>u. u_id u = s_id s) (rev us) of Some u \<Rightarrow> update_status u | None \<Rightarrow> s_status s)"

lemma length_update_first [simp]: "length (update_first f i ss) = length ss"
  by (induction ss) auto

lemma update_first_nth:
  "n < length ss \<Longrightarrow> distinct (map s_id ss) \<Longrightarrow>
    update_first f i ss ! n = (if s_id (ss ! n) = i then f (ss ! n) else ss ! n)"
proof (induction ss arbitrary: n)
  case (Cons s ss)
  show ?case
  proof (cases n)
    case (Suc m)
    then have m: "m < length ss" using Cons.prems(1) by simp
    have "s_id (ss ! m) \<noteq> s_id s" using Cons.prems(2) nth_mem [OF m] by (metis distinct.simps(2) image_eqI image_set list.simps(9))
    then show ?thesis using Suc Cons.IH [OF m] Cons.prems(2) by simp
  qed simp
qed simp

lemma updated_step_status [simp]: "s_status (updated_step now u s) = update_status u"
  by (simp add: updated_step_def Let_def)

lemma apply_updates_snoc: "apply_updates now (us @ [u]) ss = update_first (updated_step now u) (u_id u) (apply_updates now us ss)"
  by (simp add: apply_updates_def)

lemma length_apply_updates [simp]: "length (apply_updates now us ss) = length ss"
  by (metis apply_updates_ids length_map)

lemma apply_updates_nth_id: "n < length ss \<Longrightarrow> s_id (apply_updates now us ss ! n) = s_id (ss ! n)"
  by (metis apply_updates_ids length_apply_updates nth_map)

lemma apply_updates_status:
  assumes "n < length ss" "distinct (map s_id ss)"
  shows "s_status (apply_updates now us ss ! n) = asked_status us (ss ! n)"
proof (induction us rule: rev_induct)
  case Nil
  show ?case by (simp add: apply_updates_def asked_status_def)
next
  case (snoc u us)
  have d: "distinct (map s_id (apply_updates now us ss))" using assms(2) by (simp only: apply_updates_ids)
  have n: "n < length (apply_updates now us ss)" using assms(1) by simp
  show ?case
    unfolding apply_updates_snoc update_first_nth [OF n d] apply_updates_nth_id [OF assms(1)]
    using snoc by (auto simp: asked_status_def)
qed

lemma start_first_nth:
  "n < length ss \<Longrightarrow> s_status (start_first now ss ! n) = s_status (ss ! n)
    \<or> s_status (ss ! n) = S_pending \<and> s_status (start_first now ss ! n) = S_in_progress"
proof (induction ss arbitrary: n)
  case (Cons s ss)
  then show ?case by (cases n) auto
qed simp

lemma start_first_progress: "s \<in> set ss \<Longrightarrow> s_status s = S_pending \<Longrightarrow> \<exists>x \<in> set (start_first now ss). s_status x = S_in_progress"
  by (induction ss) auto

lemma start_first_pending: "\<forall>s \<in> set ss. s_status s \<noteq> S_pending \<Longrightarrow> start_first now ss = ss"
  by (induction ss) auto

lemma start_next_progress:
  assumes "\<exists>s \<in> set (p_steps (start_next_step now p)). s_status s = S_pending"
  shows "\<exists>s \<in> set (p_steps (start_next_step now p)). s_status s = S_in_progress"
proof (cases "list_ex (\<lambda>s. s_status s = S_in_progress) (p_steps p)")
  case True
  then show ?thesis by (auto simp: start_next_step_def list_ex_iff)
next
  case False
  then have steps: "p_steps (start_next_step now p) = start_first now (p_steps p)" by (simp add: start_next_step_def)
  have "\<exists>s \<in> set (p_steps p). s_status s = S_pending"
  proof (rule ccontr)
    assume "\<not> ?thesis"
    then have "start_first now (p_steps p) = p_steps p" by (intro start_first_pending) blast
    with assms steps \<open>\<not> ?thesis\<close> show False by simp
  qed
  then show ?thesis unfolding steps using start_first_progress by blast
qed

lemma start_next_nth:
  assumes "n < length (p_steps p)"
  shows "s_status (p_steps (start_next_step now p) ! n) = s_status (p_steps p ! n)
    \<or> s_status (p_steps p ! n) = S_pending \<and> s_status (p_steps (start_next_step now p) ! n) = S_in_progress"
  using start_first_nth [OF assms] by (simp add: start_next_step_def)

lemma start_next_length [simp]: "length (p_steps (start_next_step now p)) = length (p_steps p)"
  using arg_cong [OF start_first_ids, of length now "p_steps p"] by (simp add: start_next_step_def)

text \<open>The steps and the status a batch of updates leaves.\<close>

lemma advanced_plan_spec:
  fixes now us p
  defines "q \<equiv> advanced_plan now us p"
  defines "ps \<equiv> p\<lparr>p_steps := apply_updates now us (p_steps p), p_status := (if p_status p \<in> {Approved, Paused} then Executing else p_status p)\<rparr>"
  shows "p_steps q = p_steps (if finished_any us then start_next_step now ps else ps)"
    "p_status q = (if p_status ps = Executing \<and> p_steps q \<noteq> [] \<and> all_settled q then Completed else p_status ps)"
proof -
  have e: "(if p_status (p\<lparr>p_steps := apply_updates now us (p_steps p)\<rparr>) \<in> {Approved, Paused}
      then p\<lparr>p_steps := apply_updates now us (p_steps p)\<rparr>\<lparr>p_status := Executing\<rparr>
      else p\<lparr>p_steps := apply_updates now us (p_steps p)\<rparr>) = ps"
    by (simp add: ps_def)
  show "p_steps q = p_steps (if finished_any us then start_next_step now ps else ps)"
    unfolding q_def advanced_plan_def Let_def e by simp
  then show "p_status q = (if p_status ps = Executing \<and> p_steps q \<noteq> [] \<and> all_settled q then Completed else p_status ps)"
    unfolding q_def advanced_plan_def Let_def e by (simp add: all_settled_def)
qed

end
