(* ===== verification/Plan_Properties.thy ===== *)
theory Plan_Properties
  imports Plan_Protocol
begin

text \<open>
  The properties of plan mode, with the session they are exercised on: a chat that proposes a plan,
  has it cancelled and proposes another one.
\<close>

section \<open>A concrete session\<close>

definition demo_raw :: "raw_step option list" where
  "demo_raw = [Some \<lparr>raw_id = PInt 1, raw_content = ''Fix'', raw_activeForm = ''Fixing'', raw_note = None\<rparr>]"

definition demo_proposal :: proposal where
  "demo_proposal = \<lparr>pr_goal = ''g'', pr_steps = build_steps demo_raw, pr_title = '''', pr_mode = Forced,
     pr_runId = None, pr_detailsMd = None, pr_timeout = 600\<rparr>"

definition proposed_chat :: plan_state where
  "proposed_chat = fst (propose False 1 ''000000000001'' ''01'' ''chat'' demo_proposal (fresh_plans True))"

definition cancelled_chat :: plan_state where
  "cancelled_chat = fst (cancel_plan 2 ''plan_000000000001'' proposed_chat)"

definition reproposed_chat :: plan_state where
  "reproposed_chat = fst (propose False 3 ''000000000002'' ''02'' ''chat'' demo_proposal cancelled_chat)"

lemma not_auto: "\<not> auto_start cron k demo_proposal s"
  by (simp add: auto_start_def demo_proposal_def)

lemma fresh_get [simp]: "get_plan (fresh_plans w) k = None" "current_for_session (fresh_plans w) k = None"
  by (simp_all add: get_plan_def current_for_session_def fresh_plans_def table_simps)

text \<open>A forced proposal in a session without an active plan.\<close>

lemma forced_proposal:
  assumes "current_for_session s k = None"
  obtains q f where "fst (propose False now h1 h2 k demo_proposal s) = (broadcast q True (save_plan q s))\<lparr>futures := f\<rparr>"
    "p_status q = Awaiting_approval" "p_id q = ''plan_'' @ take 12 h1" "p_sessionKey q = k"
    "\<exists>a. p_approval q = Some a \<and> \<not> ap_resolved a"
proof -
  let ?p = "proposed_plan now h1 k (cap (strip (pr_goal demo_proposal)) MAX_GOAL_CHARS) demo_proposal False"
  let ?q = "?p\<lparr>p_approval := Some (pending_approval now h2 (pr_timeout demo_proposal) ?p)\<rparr>"
  have "fst (propose False now h1 h2 k demo_proposal s) = fst (request_approval False now h2 (pr_timeout demo_proposal) ?p s)"
    using assms not_auto [of False k s] by (simp add: propose_def Let_def split_beta)
  also obtain f where "\<dots> = (broadcast ?q True (save_plan ?q s))\<lparr>futures := f\<rparr>"
    by (simp add: request_approval_def Let_def)
  finally show ?thesis by (rule that) (simp_all add: pending_approval_def)
qed

lemma get_futures [simp]: "get_plan (s\<lparr>futures := f\<rparr>) k = get_plan s k"
  by (simp add: get_plan_def)

lemma demo_fresh: "get_plan s (''plan_'' @ take 12 h) = None \<Longrightarrow>
    plan_op (Propose_plan False k demo_proposal) s (fst (propose False now h h2 k demo_proposal s))"
  by (rule do_propose [of _ demo_raw]) (simp_all add: demo_proposal_def)

lemma proposed_facts:
  obtains q f where "proposed_chat = (broadcast q True (save_plan q (fresh_plans True)))\<lparr>futures := f\<rparr>"
    "get_plan proposed_chat ''plan_000000000001'' = Some q" "p_status q = Awaiting_approval"
    "p_id q = ''plan_000000000001''" "p_sessionKey q = ''chat''" "\<exists>a. p_approval q = Some a \<and> \<not> ap_resolved a"
proof -
  obtain q f where q: "proposed_chat = (broadcast q True (save_plan q (fresh_plans True)))\<lparr>futures := f\<rparr>"
    "p_status q = Awaiting_approval" "p_id q = ''plan_'' @ take 12 ''000000000001''" "p_sessionKey q = ''chat''"
    "\<exists>a. p_approval q = Some a \<and> \<not> ap_resolved a"
    unfolding proposed_chat_def by (rule forced_proposal [OF fresh_get(2)])
  have "get_plan proposed_chat ''plan_000000000001'' = Some q" unfolding q(1) using q(3) by (simp add: registry.get_put)
  with q show ?thesis by (intro that [of f q]) simp_all
qed

lemma proposed_step: "open_move (fresh_plans True) proposed_chat"
  unfolding open_move_def proposed_chat_def answers_open_def
  by (intro exI [of _ "Propose_plan False ''chat'' demo_proposal"] conjI demo_fresh) simp_all

lemma open_move_move: "open_move s t \<Longrightarrow> plan_move s t"
  by (auto simp: open_move_def plan_move_def)

lemma proposed_move: "plan_move (fresh_plans True) proposed_chat"
  using proposed_step by (rule open_move_move)

lemma proposed_inv: "plan_inv proposed_chat \<and> one_active proposed_chat"
  using open_plans.run_good [OF r_into_rtranclp [of open_move, OF proposed_step]] open_plans.start_good by blast

section \<open>Content and history\<close>

text \<open>C9. Whatever the model writes, a plan in the registry stays within its bounds: at most 64 steps,
  with distinct positive ids, each with a text of 1 to 2000 characters and bounded notes, and a
  bounded title, goal, description and summary.\<close>

theorem plan_content_bounded:
  assumes "plan_move\<^sup>*\<^sup>* (fresh_plans wired) s" "p \<in> set (plans s)"
  shows "length (p_steps p) \<le> 64 \<and> distinct (map s_id (p_steps p))
    \<and> (\<forall>x \<in> set (p_steps p). 1 \<le> s_id x \<and> s_content x \<noteq> '''' \<and> length (s_content x) \<le> 2000
        \<and> length (s_activeForm x) \<le> 2000 \<and> (\<forall>n. s_note x = Some n \<longrightarrow> length n \<le> 2000))
    \<and> length (p_title p) \<le> 200 \<and> length (p_goal p) \<le> 2000
    \<and> (\<forall>d. p_detailsMd p = Some d \<longrightarrow> length d \<le> 20000) \<and> (\<forall>d. p_completionSummary p = Some d \<longrightarrow> length d \<le> 2000)"
proof -
  have "plan_inv s" by (rule plan_system.reachable_good [OF _ assms(1)]) blast
  then have "plan_ok p" using assms(2) by (simp add: plan_inv_def)
  then show ?thesis by (simp add: plan_ok_def steps_ok_def step_ok_def texts_ok_def plan_limits)
qed

theorem plan_content_bounded_witness: "\<exists>p \<in> set (plans proposed_chat). length (p_steps p) \<le> 64 \<and> p_status p = Awaiting_approval"
proof -
  obtain q where q: "get_plan proposed_chat ''plan_000000000001'' = Some q" "p_status q = Awaiting_approval" by (rule proposed_facts)
  have "q \<in> set (plans proposed_chat)" using get_plan_mem [OF q(1)] ..
  with plan_content_bounded [OF r_into_rtranclp [of plan_move, OF proposed_move]] q(2) show ?thesis by blast
qed

text \<open>C10. A plan's history is complete: its revisions are 0, 1, ... up to the current one without a
  gap, and the last entry records the current status and time.\<close>

theorem plan_history_complete:
  assumes "plan_move\<^sup>*\<^sup>* (fresh_plans wired) s" "p \<in> set (plans s)"
  shows "map rv_revision (p_revisions p) = [0..p_revision p] \<and> 0 \<le> p_revision p
    \<and> rv_status (last (p_revisions p)) = p_status p \<and> rv_timestamp (last (p_revisions p)) = p_updatedAt p"
proof -
  have "plan_inv s" by (rule plan_system.reachable_good [OF _ assms(1)]) blast
  then have "plan_ok p" using assms(2) by (simp add: plan_inv_def)
  then show ?thesis by (simp add: plan_ok_def log_ok_def)
qed

theorem plan_history_complete_witness:
  "\<exists>p \<in> set (plans proposed_chat). map rv_revision (p_revisions p) = [0..p_revision p] \<and> p_status p = Awaiting_approval"
proof -
  obtain q where q: "get_plan proposed_chat ''plan_000000000001'' = Some q" "p_status q = Awaiting_approval" by (rule proposed_facts)
  have "q \<in> set (plans proposed_chat)" using get_plan_mem [OF q(1)] ..
  with plan_history_complete [OF r_into_rtranclp [of plan_move, OF proposed_move]] q(2) show ?thesis by blast
qed

section \<open>Clients\<close>

text \<open>A client drops a snapshot whose revision does not exceed that of the one it holds.\<close>

definition client_takes :: "general_plan \<Rightarrow> general_plan option \<Rightarrow> general_plan option" where
  "client_takes q held = (case held of None \<Rightarrow> Some q | Some p \<Rightarrow> if p_revision p < p_revision q then Some q else held)"

lemma client_keeps_last:
  assumes "\<And>x. x \<in> set xs \<Longrightarrow> x \<noteq> l \<Longrightarrow> p_revision x < p_revision l"
    and "held = None \<or> (\<exists>h. held = Some h \<and> (h = l \<or> p_revision h < p_revision l))"
    and "l \<in> set xs \<or> held = Some l"
  shows "fold client_takes xs held = Some l"
  using assms
proof (induction xs arbitrary: held)
  case (Cons x xs)
  let ?h = "client_takes x held"
  have x: "x = l \<or> p_revision x < p_revision l" using Cons.prems(1) [of x] by auto
  have h: "?h = Some l \<or> (\<exists>h. ?h = Some h \<and> p_revision h < p_revision l)"
    using x Cons.prems(2) by (cases held) (auto simp: client_takes_def)
  have l: "?h = Some l" if "x = l \<or> held = Some l"
    using that x Cons.prems(2) by (cases held) (auto simp: client_takes_def)
  have "fold client_takes xs ?h = Some l"
  proof (rule Cons.IH)
    show "p_revision y < p_revision l" if "y \<in> set xs" "y \<noteq> l" for y using Cons.prems(1) that by simp
    show "?h = None \<or> (\<exists>h. ?h = Some h \<and> (h = l \<or> p_revision h < p_revision l))" using h by blast
    show "l \<in> set xs \<or> ?h = Some l" using l Cons.prems(3) by auto
  qed
  then show ?case by simp
qed simp

text \<open>C11. Clients converge: however the broadcasts of a plan are reordered, repeated or lost on the
  way, a client that has received the last one shows the plan as the registry holds it.\<close>

theorem clients_converge:
  assumes "plan_move\<^sup>*\<^sup>* (fresh_plans wired) s"
    and "set received \<subseteq> set (updates_of k s)" "last (updates_of k s) \<in> set received"
  shows "fold client_takes received None = get_plan s k"
proof -
  have "plan_inv s" by (rule plan_system.reachable_good [OF _ assms(1)]) blast
  then have sync: "in_sync k s" by (simp add: plan_inv_def)
  have ne: "updates_of k s \<noteq> []" using assms(2,3) by auto
  then obtain ys l where us: "updates_of k s = ys @ [l]" by (metis rev_exhaust)
  have later: "p_revision x < p_revision l" if "x \<in> set received" "x \<noteq> l" for x
    using sync that assms(2) us by (auto simp: in_sync_def sorted_wrt_append)
  have "fold client_takes received None = Some l"
    using later assms(3) us by (intro client_keeps_last) auto
  with sync ne us show ?thesis by (simp add: in_sync_def)
qed

theorem clients_converge_witness:
  "\<exists>q. updates_of ''plan_000000000001'' cancelled_chat = [q, aborted_plan 2 ''cancelled'' q]
     \<and> fold client_takes [aborted_plan 2 ''cancelled'' q, q] None = get_plan cancelled_chat ''plan_000000000001''"
proof -
  obtain q f where q: "proposed_chat = (broadcast q True (save_plan q (fresh_plans True)))\<lparr>futures := f\<rparr>"
    "get_plan proposed_chat ''plan_000000000001'' = Some q" "p_id q = ''plan_000000000001''" by (rule proposed_facts)
  have chat: "on_change proposed_chat" "sent proposed_chat = [(''plan.updated'', q), (''plan.approval.requested'', q)]"
    by (simp_all add: q(1) broadcast_def) (simp_all add: fresh_plans_def)
  have up: "updates_of ''plan_000000000001'' cancelled_chat = [q, aborted_plan 2 ''cancelled'' q]"
    using q(2,3) chat by (simp add: cancelled_chat_def cancel_plan_def mutate_plan_def publish_def updates_post) (simp add: updates_of_def)
  have "plan_move proposed_chat cancelled_chat"
    unfolding plan_move_def cancelled_chat_def by (blast intro: do_cancel)
  with proposed_move have "plan_move\<^sup>*\<^sup>* (fresh_plans True) cancelled_chat" by (meson converse_rtranclp_into_rtranclp r_into_rtranclp)
  from clients_converge [OF this, of "[aborted_plan 2 ''cancelled'' q, q]" "''plan_000000000001''"] up show ?thesis by simp
qed

section \<open>Authority to act\<close>

lemma approval_runs:
  assumes "get_plan s pid = Some p" "p_approval p = Some a" "\<not> ap_resolved a"
  shows "\<exists>t. resolve_approval now pid ''approve'' fb None did s = (t, Resolved)
    \<and> get_plan t pid = Some (decided_plan now \<lparr>d_decision = Approve, d_feedback = fb, d_decision_id = did, d_via = ''surface''\<rparr>
        (has_live_future s (ap_id a)) p)
    \<and> (\<forall>k. k \<noteq> pid \<longrightarrow> get_plan t k = get_plan s k)"
proof -
  have "p_id p = pid" using assms(1) by (rule registry.get_key)
  with assms show ?thesis
    by (cases "has_live_future s (ap_id a)") (simp_all add: resolve_approval_def parse_decision_def Let_def get_apply)
qed

text \<open>C12. Execution is authorised: a plan under review starts only by an approval given through
  \<open>resolve_approval\<close>, and a plan enters the registry running only when it was proposed in auto mode,
  outside cron, by a session that is neither armed nor in the standing plan mode. A timeout, a cron
  run, a step update or a restart never starts one.\<close>

theorem execution_authorised:
  assumes "plan_inv s" "plan_op a s t" "get_plan t k = Some q" "p_status q \<in> {Approved, Executing}"
    and "\<forall>p. get_plan s k = Some p \<longrightarrow> p_status p \<in> {Draft, Awaiting_approval}"
  shows "if get_plan s k = None
    then \<exists>sk r. a = Propose_plan False sk r \<and> pr_mode r = Auto \<and> sk \<notin> forced_pending s \<and> sk \<notin> sticky s
    else a = Resolve_plan k ''approve''"
proof (cases "get_plan s k")
  case None
  with new_running [OF assms(2,1) None assms(3)] assms(4) show ?thesis by (simp add: running_def)
next
  case (Some p)
  with review_left_by_approval [OF assms(2,1) Some _ assms(3)] assms(4,5) show ?thesis
    by (simp add: running_def under_review_def)
qed

theorem execution_authorised_witness:
  "\<exists>a t q. plan_op a proposed_chat t \<and> get_plan t ''plan_000000000001'' = Some q
     \<and> p_status q \<in> {Approved, Executing} \<and> a = Resolve_plan ''plan_000000000001'' ''approve''"
proof -
  let ?k = "''plan_000000000001''" and ?t = "fst (resolve_approval 2 ''plan_000000000001'' ''approve'' None None None proposed_chat)"
  obtain p where p: "get_plan proposed_chat ?k = Some p" "p_status p = Awaiting_approval" "p_id p = ?k"
    "\<exists>a. p_approval p = Some a \<and> \<not> ap_resolved a" by (rule proposed_facts)
  obtain q where q: "get_plan ?t ?k = Some q" "p_status q \<in> {Approved, Executing}"
  proof -
    from p(4) obtain a where a: "p_approval p = Some a" "\<not> ap_resolved a" by blast
    from approval_runs [OF p(1) a, of 2 None None] show ?thesis by (intro that) (auto simp: decided_status)
  qed
  have inv: "plan_inv proposed_chat" using proposed_inv ..
  have "\<forall>x. get_plan proposed_chat ?k = Some x \<longrightarrow> p_status x \<in> {Draft, Awaiting_approval}" using p(1,2) by simp
  from execution_authorised [OF inv do_resolve q this] q p(1) show ?thesis by (auto intro: do_resolve)
qed

text \<open>A decision is taken once: after an answer has been recorded, another answer to the same plan
  changes nothing; repeated with the same decision id it is reported as a replay, otherwise as
  already resolved.\<close>

theorem decision_taken_once:
  assumes "resolve_approval now pid dt fb er did s = (t, Resolved)"
  shows "resolve_approval now' pid dt' fb' er' did' t
    = (t, if truthy did' \<and> did' = did then Idempotent_replay else Already_resolved)"
proof -
  obtain p a dc where p: "get_plan s pid = Some p" "p_approval p = Some a" "parse_decision dt = Some dc" "\<not> ap_resolved a"
      "\<not> (er \<noteq> None \<and> Some (ap_revision a) \<noteq> er)"
    using assms by (auto simp: resolve_approval_def Let_def split: option.splits if_splits)
  let ?d = "\<lparr>d_decision = dc, d_feedback = fb, d_decision_id = did, d_via = ''surface''\<rparr>"
  let ?live = "has_live_future s (ap_id a)"
  have id: "p_id p = pid" using p(1) by (rule registry.get_key)
  have "t = (let s1 = apply_decision now ?d ?live p s in if ?live then resolve_future (ap_id a) ?d s1 else s1)"
    using assms p by (auto simp: resolve_approval_def Let_def)
  then have "get_plan t pid = Some (decided_plan now ?d ?live p)" by (simp add: Let_def get_apply id)
  moreover have "p_approval (decided_plan now ?d ?live p) = Some (resolve_record ?d a)" by (simp add: decided_approval p(2))
  ultimately show ?thesis by (auto simp: resolve_approval_def resolve_record_def)
qed

theorem decision_taken_once_witness:
  "\<exists>t. resolve_approval 2 ''plan_000000000001'' ''reject'' None None (Some ''d1'') proposed_chat = (t, Resolved)
     \<and> resolve_approval 3 ''plan_000000000001'' ''approve'' None None (Some ''d1'') t = (t, Idempotent_replay)"
proof -
  obtain p where p: "get_plan proposed_chat ''plan_000000000001'' = Some p"
    "\<exists>a. p_approval p = Some a \<and> \<not> ap_resolved a" by (rule proposed_facts)
  then obtain t where t: "resolve_approval 2 ''plan_000000000001'' ''reject'' None None (Some ''d1'') proposed_chat = (t, Resolved)"
    by (auto simp: resolve_approval_def parse_decision_def Let_def)
  with decision_taken_once [OF t, of 3 "''approve''" None None "Some ''d1''"] show ?thesis by simp
qed



text \<open>C14. One active plan per session: as long as surfaces answer only plans that are still open, no
  session ever has two plans that are neither completed, blocked, rejected nor aborted.\<close>

theorem one_active_plan:
  assumes "open_move\<^sup>*\<^sup>* (fresh_plans wired) s" "p \<in> set (plans s)" "q \<in> set (plans s)"
    and "p_sessionKey p = p_sessionKey q" "\<not> is_terminal p" "\<not> is_terminal q"
  shows "p = q"
proof -
  have s: "plan_inv s \<and> one_active s" by (rule open_plans.reachable_good [OF _ assms(1)]) blast
  then have "p_id p = p_id q" using assms(2-6) one_activeD by blast
  then have "Some p = Some q" using inv_get [of s p] inv_get [of s q] s assms(2,3) by metis
  then show ?thesis by simp
qed

theorem one_active_plan_witness:
  "\<exists>p \<in> set (plans proposed_chat). \<not> is_terminal p \<and> (\<forall>q \<in> set (plans proposed_chat).
     p_sessionKey q = ''chat'' \<longrightarrow> \<not> is_terminal q \<longrightarrow> p = q)"
proof -
  obtain p where p: "get_plan proposed_chat ''plan_000000000001'' = Some p" "p_status p = Awaiting_approval" "p_sessionKey p = ''chat''"
    by (rule proposed_facts)
  have m: "p \<in> set (plans proposed_chat)" using get_plan_mem [OF p(1)] ..
  have "\<not> is_terminal p" using p(2) by (simp add: is_terminal_def plan_terminal_def)
  with one_active_plan [OF r_into_rtranclp [of open_move, OF proposed_step] m] p(3) m show ?thesis by metis
qed

text \<open>C15. An answer reopens a closed plan: approving the unanswered approval of a plan that has been
  cancelled, aborted or otherwise closed is accepted and puts the plan back into execution.\<close>

theorem stale_answer_reopens:
  assumes "get_plan s pid = Some p" "is_terminal p" "p_approval p = Some a" "\<not> ap_resolved a"
  shows "\<exists>t q. resolve_approval now pid ''approve'' fb None did s = (t, Resolved) \<and> get_plan t pid = Some q
    \<and> p_status q = (if has_live_future s (ap_id a) then Executing else Approved) \<and> \<not> is_terminal q"
proof -
  from approval_runs [OF assms(1,3,4), of now fb did] show ?thesis
    by (auto simp: decided_status is_terminal_def plan_terminal_def)
qed

theorem stale_answer_reopens_witness:
  "\<exists>t p q. resolve_approval 4 ''plan_000000000001'' ''approve'' None None None reproposed_chat = (t, Resolved)
     \<and> get_plan t ''plan_000000000001'' = Some p \<and> get_plan t ''plan_000000000002'' = Some q
     \<and> p_sessionKey p = p_sessionKey q \<and> \<not> is_terminal p \<and> \<not> is_terminal q"
proof -
  let ?k = "''plan_000000000001''" and ?l = "''plan_000000000002''"
  obtain p f where p: "proposed_chat = (broadcast p True (save_plan p (fresh_plans True)))\<lparr>futures := f\<rparr>"
    "get_plan proposed_chat ?k = Some p" "p_id p = ?k" "p_sessionKey p = ''chat''" "\<exists>a. p_approval p = Some a \<and> \<not> ap_resolved a"
    by (rule proposed_facts)
  let ?c = "aborted_plan 2 ''cancelled'' p"
  have c: "cancelled_chat = publish ?c proposed_chat" using p(2) by (simp add: cancelled_chat_def cancel_plan_def mutate_plan_def)
  have "plans cancelled_chat = [?c]"
    unfolding c p(1) using p(3) by (simp add: publish_def save_plan_def put_row_def fresh_plans_def)
  then have none: "current_for_session cancelled_chat ''chat'' = None" by (simp add: current_None_iff)
  obtain q g where q: "reproposed_chat = (broadcast q True (save_plan q cancelled_chat))\<lparr>futures := g\<rparr>"
    "p_status q = Awaiting_approval" "p_id q = ''plan_'' @ take 12 ''000000000002''" "p_sessionKey q = ''chat''"
    unfolding reproposed_chat_def by (rule forced_proposal [OF none])
  have old: "get_plan reproposed_chat ?k = Some ?c" and new: "get_plan reproposed_chat ?l = Some q"
    using p(3) q(3) by (simp_all add: q(1) registry.get_put c get_publish)
  obtain a where a: "p_approval ?c = Some a" "\<not> ap_resolved a" using p(5) by (auto simp: aborted_plan_def)
  from stale_answer_reopens [OF old _ a, of 4 None None] obtain t x where t:
    "resolve_approval 4 ?k ''approve'' None None None reproposed_chat = (t, Resolved)" "get_plan t ?k = Some x" "\<not> is_terminal x" by auto
  from approval_runs [OF old a, of 4 None None] t(1,2)
  have "x = decided_plan 4 \<lparr>d_decision = Approve, d_feedback = None, d_decision_id = None, d_via = ''surface''\<rparr>
        (has_live_future reproposed_chat (ap_id a)) ?c" "get_plan t ?l = Some q"
    using new by auto
  with t q(2,4) p(4) show ?thesis by (auto simp: is_terminal_def plan_terminal_def)
qed

section \<open>Progress\<close>

text \<open>A batch of step updates is applied as one mutation of a running plan: every step gets the last
  status asked for it, but for the next pending step, which starts when a step has finished; a plan
  with pending work after a finished step has a step in progress; and the plan completes exactly when
  every step is completed or skipped.\<close>

theorem update_steps_advances:
  assumes "plan_inv s" "get_plan s pid = Some p" "p_status p \<in> {Approved, Paused, Executing}"
    and "list_all (\<lambda>u. get_step p (u_id u) \<noteq> None) us"
  shows "\<exists>t q. update_steps now pid us s = (t, Some q) \<and> get_plan t pid = Some q \<and> p_revision q = p_revision p + 1
    \<and> map s_id (p_steps q) = map s_id (p_steps p)
    \<and> (\<forall>n < length (p_steps p). s_status (p_steps q ! n) = asked_status us (p_steps p ! n)
        \<or> finished_any us \<and> asked_status us (p_steps p ! n) = S_pending \<and> s_status (p_steps q ! n) = S_in_progress)
    \<and> (finished_any us \<longrightarrow> (\<exists>x \<in> set (p_steps q). s_status x = S_pending) \<longrightarrow> (\<exists>x \<in> set (p_steps q). s_status x = S_in_progress))
    \<and> p_status q = (if p_steps q \<noteq> [] \<and> all_settled q then Completed else Executing)"
proof -
  let ?q = "advanced_plan now us p"
  let ?ps = "p\<lparr>p_steps := apply_updates now us (p_steps p), p_status := (if p_status p \<in> {Approved, Paused} then Executing else p_status p)\<rparr>"
  note spec = advanced_plan_spec [of now us p]
  have id: "p_id p = pid" using assms(2) by (rule registry.get_key)
  have ok: "plan_ok p" using assms(1,2) by (rule inv_ok)
  then have dist: "distinct (map s_id (p_steps p))" by (simp add: plan_ok_def steps_ok_def)
  have op: "update_steps now pid us s = (publish ?q s, Some ?q)"
    using assms(2,4) by (auto simp: update_steps_def Let_def list_all_iff list_ex_iff)
  have "get_plan (publish ?q s) pid = Some ?q" using id by (simp add: get_publish)
  moreover have "p_revision ?q = p_revision p + 1" using advanced_plan_ok [OF ok, of now us] by (simp add: succ_plan_def)
  moreover have "map s_id (p_steps ?q) = map s_id (p_steps p)"
    unfolding spec(1) by (simp add: start_next_step_def start_first_ids apply_updates_ids)
  moreover have "s_status (p_steps ?q ! n) = asked_status us (p_steps p ! n)
        \<or> finished_any us \<and> asked_status us (p_steps p ! n) = S_pending \<and> s_status (p_steps ?q ! n) = S_in_progress"
    if n: "n < length (p_steps p)" for n
  proof -
    have a: "s_status (p_steps ?ps ! n) = asked_status us (p_steps p ! n)" using apply_updates_status [OF n dist] by simp
    show ?thesis
    proof (cases "finished_any us")
      case True
      then have "p_steps ?q = p_steps (start_next_step now ?ps)" using spec(1) by simp
      with start_next_nth [of n ?ps now] n a True show ?thesis by simp
    next
      case False
      then show ?thesis using spec(1) a by simp
    qed
  qed
  moreover have "\<exists>x \<in> set (p_steps ?q). s_status x = S_in_progress"
    if "finished_any us" "\<exists>x \<in> set (p_steps ?q). s_status x = S_pending"
  proof -
    have "p_steps ?q = p_steps (start_next_step now ?ps)" using that(1) spec(1) by simp
    with that(2) start_next_progress [of now ?ps] show ?thesis by simp
  qed
  moreover have "p_status ?q = (if p_steps ?q \<noteq> [] \<and> all_settled ?q then Completed else Executing)"
    using spec(2) assms(3) by auto
  ultimately show ?thesis using op by blast
qed

definition running_chat :: plan_state where
  "running_chat = fst (resolve_approval 2 ''plan_000000000001'' ''approve'' None None None proposed_chat)"

lemma demo_steps: "build_steps demo_raw = [\<lparr>s_id = 1, s_content = ''Fix'', s_activeForm = ''Fixing'', s_status = S_pending,
    s_note = None, s_startedAt = None, s_completedAt = None\<rparr>]"
proof -
  have "strip ''Fix'' = ''Fix''" "strip ''Fixing'' = ''Fixing''" by (auto intro!: strip_id simp: py_space_def)
  then show ?thesis by (simp add: build_steps_def demo_raw_def choose_id_def make_step_def cap_def plan_limits)
qed

lemma proposed_steps: "get_plan proposed_chat ''plan_000000000001'' = Some q \<Longrightarrow> map s_id (p_steps q) = [1]"
  by (simp add: proposed_chat_def propose_def request_approval_def Let_def split_beta not_auto registry.get_put
      proposed_plan_def new_plan_def record_revision_def)
    (auto simp: demo_proposal_def demo_steps)

lemma running_facts:
  obtains q where "plan_inv running_chat" "get_plan running_chat ''plan_000000000001'' = Some q"
    "p_status q \<in> {Approved, Paused, Executing}" "map s_id (p_steps q) = [1]"
proof -
  let ?k = "''plan_000000000001''"
  obtain p where p: "get_plan proposed_chat ?k = Some p" "\<exists>a. p_approval p = Some a \<and> \<not> ap_resolved a" by (rule proposed_facts)
  then obtain a where a: "p_approval p = Some a" "\<not> ap_resolved a" by blast
  let ?q = "decided_plan 2 \<lparr>d_decision = Approve, d_feedback = None, d_decision_id = None, d_via = ''surface''\<rparr>
        (has_live_future proposed_chat (ap_id a)) p"
  have q: "get_plan running_chat ?k = Some ?q"
    unfolding running_chat_def using approval_runs [OF p(1) a, of 2 None None] by auto
  have ids: "map s_id (p_steps ?q) = [1]"
    using proposed_steps [OF p(1)] by (simp add: decided_plan_def Let_def start_next_step_def start_first_ids)
  have "plan_move proposed_chat running_chat" unfolding plan_move_def running_chat_def by (blast intro: do_resolve)
  then have "plan_inv running_chat" using plan_system.step_good proposed_inv by blast
  with q ids show ?thesis by (intro that) (auto simp: decided_status)
qed

theorem update_steps_advances_witness:
  "\<exists>t q. update_steps 3 ''plan_000000000001'' [\<lparr>u_id = 1, u_status = Some S_completed, u_note = None\<rparr>] running_chat = (t, Some q)
     \<and> map s_status (p_steps q) = [S_completed] \<and> p_status q = Completed"
proof -
  let ?us = "[\<lparr>u_id = 1, u_status = Some S_completed, u_note = None\<rparr>]"
  obtain p where p: "plan_inv running_chat" "get_plan running_chat ''plan_000000000001'' = Some p"
    "p_status p \<in> {Approved, Paused, Executing}" "map s_id (p_steps p) = [1]" by (rule running_facts)
  from p(4) obtain x where x: "p_steps p = [x]" "s_id x = 1" by auto
  then have "list_all (\<lambda>u. get_step p (u_id u) \<noteq> None) ?us" by (simp add: get_step_def)
  from update_steps_advances [OF p(1-3) this, of 3] obtain t q where
    q: "update_steps 3 ''plan_000000000001'' ?us running_chat = (t, Some q)" "map s_id (p_steps q) = map s_id (p_steps p)"
    "\<forall>n < length (p_steps p). s_status (p_steps q ! n) = asked_status ?us (p_steps p ! n)
        \<or> finished_any ?us \<and> asked_status ?us (p_steps p ! n) = S_pending \<and> s_status (p_steps q ! n) = S_in_progress"
    "p_status q = (if p_steps q \<noteq> [] \<and> all_settled q then Completed else Executing)" by blast
  have "asked_status ?us x = S_completed" using x(2) by (simp add: asked_status_def update_status_def)
  with q(2,3) x obtain y where y: "p_steps q = [y]" "s_status y = S_completed" by (cases "p_steps q") auto
  with q(1,4) show ?thesis by (auto simp: all_settled_def)
qed

section \<open>Restart\<close>

text \<open>After a restart no plan is executing: every interrupted plan is paused one revision later with
  its steps as they were, every other plan is untouched, and no turn waits and no one-shot gate is
  armed, while the standing mode is kept.\<close>

theorem restart_pauses:
  "get_plan (restart now s) k = map_option (\<lambda>p. if p_status p = Executing
      then touch now ''paused: bot restarted'' (p\<lparr>p_status := Paused\<rparr>) else p) (get_plan s k)
    \<and> (\<forall>p \<in> set (plans (restart now s)). p_status p \<noteq> Executing)
    \<and> futures (restart now s) = [] \<and> forced_pending (restart now s) = {} \<and> sticky (restart now s) = sticky s"
proof -
  have "get_plan (restart now s) k = map_option (\<lambda>p. if p_status p = Executing
      then touch now ''paused: bot restarted'' (p\<lparr>p_status := Paused\<rparr>) else p) (get_plan s k)"
    unfolding get_restart by (simp only: paused_plan_def [abs_def])
  moreover have "\<forall>p \<in> set (plans (restart now s)). p_status p \<noteq> Executing"
    by (auto simp: restart_def recover_on_start_def paused_plan_def)
  moreover have "futures (restart now s) = []" "forced_pending (restart now s) = {}" "sticky (restart now s) = sticky s"
    by (simp_all add: restart_def recover_on_start_def)
  ultimately show ?thesis by blast
qed

theorem restart_pauses_witness:
  "\<exists>q. get_plan (restart 9 running_chat) ''plan_000000000001'' = Some q \<and> p_status q \<in> {Paused, Approved}"
proof -
  obtain p where p: "get_plan running_chat ''plan_000000000001'' = Some p" "p_status p \<in> {Approved, Paused, Executing}"
    by (rule running_facts)
  with restart_pauses [of 9 running_chat "''plan_000000000001''"] show ?thesis by auto
qed

section \<open>Revisions\<close>

text \<open>The revision of a plan never falls along any run, and whenever anything of a plan has changed
  its revision has grown, so a client that compares revisions never misses a change.\<close>

theorem plan_revision_grows:
  assumes "plan_inv s" "plan_move\<^sup>*\<^sup>* s t" "get_plan s k = Some p"
  shows "\<exists>q. get_plan t k = Some q \<and> (q = p \<or> p_revision p < p_revision q)"
  using assms(2)
proof (induction rule: rtranclp_induct)
  case base
  with assms(3) show ?case by simp
next
  case (step u v)
  then obtain q where q: "get_plan u k = Some q" "q = p \<or> p_revision p < p_revision q" by blast
  have "plan_inv u" using step(1) assms(1) by (rule plan_system.run_good)
  with move_keeps step(2) q(1) obtain r where "get_plan v k = Some r" "r = q \<or> advance q r"
    unfolding registry.keeps_def by blast
  with q(2) show ?case by (auto simp: advance_def)
qed

theorem plan_revision_grows_witness:
  "\<exists>p q. get_plan proposed_chat ''plan_000000000001'' = Some p \<and> get_plan running_chat ''plan_000000000001'' = Some q
     \<and> p_status p \<noteq> p_status q \<and> p_revision p < p_revision q"
proof -
  obtain p where p: "get_plan proposed_chat ''plan_000000000001'' = Some p" "p_status p = Awaiting_approval" by (rule proposed_facts)
  obtain q where q: "get_plan running_chat ''plan_000000000001'' = Some q" "p_status q \<in> {Approved, Paused, Executing}" by (rule running_facts)
  have "plan_move\<^sup>*\<^sup>* proposed_chat running_chat"
    unfolding running_chat_def by (rule r_into_rtranclp) (auto simp: plan_move_def intro: do_resolve)
  with plan_revision_grows [OF _ this p(1)] proposed_inv p q show ?thesis by auto
qed

section \<open>Step texts\<close>

text \<open>A verb in \<open>-ie\<close> loses only its last letter: the branch that would turn \<open>-ie\<close> into \<open>-ying\<close> is
  never reached.\<close>

lemma gerund_ie:
  assumes "ends_with ''ie'' (str_lower verb)" "\<not> is_upper (hd verb)"
  shows "gerund verb = butlast verb @ ''ing''"
  using assms
  by (cases "rev (str_lower verb)" rule: list.exhaust; cases "tl (rev (str_lower verb))")
    (auto simp: gerund_def Let_def ends_with_def)

end
