(* ===== verification/Goal_Models.thy ===== *)
theory Goal_Models
  imports Prelude
begin

text \<open>
  The records of standing goals (\<open>goals/models.py\<close>): contracts, quality gates, the goal state with its
  validation, the wait barrier, the client snapshot, and the completion contracts users write as
  headed text. The values of a record have the types of its fields; a document read from disk passes
  the validation \<open>post_init\<close> again. The \<open>uuid4\<close> that stands in for a missing goal id is an input.
\<close>

section \<open>Limits\<close>

definition DEFAULT_MAX_TURNS :: int where "DEFAULT_MAX_TURNS = 20"
definition DEFAULT_GATE_TIMEOUT_SECONDS :: int where "DEFAULT_GATE_TIMEOUT_SECONDS = 300"
definition DEFAULT_GATE_MAX_RETRIES :: int where "DEFAULT_GATE_MAX_RETRIES = 3"
definition MAX_GOAL_TEXT :: nat where "MAX_GOAL_TEXT = 2000"
definition MAX_CONTRACT_FIELD_CHARS :: nat where "MAX_CONTRACT_FIELD_CHARS = 2500"
definition MAX_SUBGOAL_CHARS :: nat where "MAX_SUBGOAL_CHARS = 1000"
definition MAX_SUBGOALS :: nat where "MAX_SUBGOALS = 50"
definition MAX_GATE_COMMAND_CHARS :: nat where "MAX_GATE_COMMAND_CHARS = 4000"
definition MAX_GATES :: nat where "MAX_GATES = 20"
definition MAX_REASON_CHARS :: nat where "MAX_REASON_CHARS = 2000"
definition MAX_GATE_OUTPUT_CHARS :: nat where "MAX_GATE_OUTPUT_CHARS = 3000"

lemmas goal_limits = DEFAULT_MAX_TURNS_def DEFAULT_GATE_TIMEOUT_SECONDS_def DEFAULT_GATE_MAX_RETRIES_def
  MAX_GOAL_TEXT_def MAX_CONTRACT_FIELD_CHARS_def MAX_SUBGOAL_CHARS_def MAX_SUBGOALS_def
  MAX_GATE_COMMAND_CHARS_def MAX_GATES_def MAX_REASON_CHARS_def MAX_GATE_OUTPUT_CHARS_def

datatype goal_error = Conflict string | Corrupt string | Bad_value string | Goal_not_found string
  | Not_active | Bad_index string | Superseded | Judge_parse string

section \<open>Vocabularies\<close>

datatype goal_status = G_active | G_paused | G_done | G_cleared

fun goal_status_text :: "goal_status \<Rightarrow> string" where
  "goal_status_text G_active = ''active''"
| "goal_status_text G_paused = ''paused''"
| "goal_status_text G_done = ''done''"
| "goal_status_text G_cleared = ''cleared''"

datatype goal_verdict = V_done | V_continue | V_needs_input | V_wait | V_inactive | V_skipped
  | V_gate_failed | V_waiting

fun verdict_text :: "goal_verdict \<Rightarrow> string" where
  "verdict_text V_done = ''done''"
| "verdict_text V_continue = ''continue''"
| "verdict_text V_needs_input = ''needs_input''"
| "verdict_text V_wait = ''wait''"
| "verdict_text V_inactive = ''inactive''"
| "verdict_text V_skipped = ''skipped''"
| "verdict_text V_gate_failed = ''gate_failed''"
| "verdict_text V_waiting = ''waiting''"

text \<open>A wait with its target.\<close>

datatype wait_target = Wait_pid int | Wait_session string | Wait_time real

section \<open>Cleaning\<close>

definition too_long :: "string \<Rightarrow> nat \<Rightarrow> goal_error" where
  "too_long field_name limit = Bad_value (field_name @ '' exceeds '' @ show_nat limit @ '' characters'')"

definition clean_text :: "nat \<Rightarrow> string \<Rightarrow> string \<Rightarrow> goal_error + string" where
  "clean_text limit field_name v =
     (let t = strip v in if limit < length t then Inl (too_long field_name limit) else Inr t)"

text \<open>\<open>_clean_text(value) or None\<close> on an optional text.\<close>

definition clean_id :: "nat \<Rightarrow> string \<Rightarrow> string option \<Rightarrow> goal_error + string option" where
  "clean_id limit field_name v =
     on_ok (clean_text limit field_name (case v of None \<Rightarrow> '''' | Some s \<Rightarrow> s)) (\<lambda>t. Inr (or_none t))"

definition clean_optional :: "nat \<Rightarrow> string option \<Rightarrow> string option" where
  "clean_optional limit v = (case v of None \<Rightarrow> None | Some s \<Rightarrow> or_none (take limit (strip s)))"

definition bounded_int :: "int \<Rightarrow> int \<Rightarrow> int \<Rightarrow> int" where
  "bounded_int lo hi v = max lo (min hi v)"

definition bounded_float :: "real \<Rightarrow> real" where
  "bounded_float v = max 0 v"

fun clean_unique_from :: "nat \<Rightarrow> nat \<Rightarrow> string \<Rightarrow> string list \<Rightarrow> string list \<Rightarrow> goal_error + string list" where
  "clean_unique_from limit max_items field_name acc [] = Inr acc"
| "clean_unique_from limit max_items field_name acc (v # vs) =
     on_ok (clean_text limit field_name v) (\<lambda>t.
       let acc' = (if t \<noteq> '''' \<and> casefold t \<notin> casefold ` set acc then acc @ [t] else acc)
       in if max_items < length acc'
          then Inl (Bad_value (''too many '' @ field_name @ ''s (maximum '' @ show_nat max_items @ '')''))
          else clean_unique_from limit max_items field_name acc' vs)"

definition clean_unique_strings :: "nat \<Rightarrow> nat \<Rightarrow> string \<Rightarrow> string list \<Rightarrow> goal_error + string list" where
  "clean_unique_strings limit max_items field_name vs = clean_unique_from limit max_items field_name [] vs"

section \<open>Contracts\<close>

record goal_contract =
  k_outcome :: string
  k_verification :: string
  k_constraints :: string
  k_boundaries :: string
  k_stop_when :: string

definition empty_contract :: goal_contract where
  "empty_contract = \<lparr>k_outcome = '''', k_verification = '''', k_constraints = '''', k_boundaries = '''', k_stop_when = ''''\<rparr>"

definition contract_init :: "goal_contract \<Rightarrow> goal_error + goal_contract" where
  "contract_init k =
     on_ok (clean_text MAX_CONTRACT_FIELD_CHARS ''contract.outcome'' (k_outcome k)) (\<lambda>o1.
     on_ok (clean_text MAX_CONTRACT_FIELD_CHARS ''contract.verification'' (k_verification k)) (\<lambda>v1.
     on_ok (clean_text MAX_CONTRACT_FIELD_CHARS ''contract.constraints'' (k_constraints k)) (\<lambda>c1.
     on_ok (clean_text MAX_CONTRACT_FIELD_CHARS ''contract.boundaries'' (k_boundaries k)) (\<lambda>b1.
     on_ok (clean_text MAX_CONTRACT_FIELD_CHARS ''contract.stop_when'' (k_stop_when k)) (\<lambda>s1.
       Inr \<lparr>k_outcome = o1, k_verification = v1, k_constraints = c1, k_boundaries = b1, k_stop_when = s1\<rparr>)))))"

definition contract_is_empty :: "goal_contract \<Rightarrow> bool" where
  "contract_is_empty k \<longleftrightarrow> k_outcome k = '''' \<and> k_verification k = '''' \<and> k_constraints k = ''''
     \<and> k_boundaries k = '''' \<and> k_stop_when k = ''''"

definition nl :: string where "nl = [char_of (10::nat)]"

definition contract_render :: "goal_contract \<Rightarrow> string" where
  "contract_render k = join nl (map (\<lambda>(label, v). ''- '' @ label @ '': '' @ v) (filter (\<lambda>(label, v). v \<noteq> '''')
     [(''Outcome'', k_outcome k), (''Verification'', k_verification k), (''Constraints'', k_constraints k),
      (''Boundaries'', k_boundaries k), (''Stop when'', k_stop_when k)]))"

section \<open>Gates\<close>

record goal_gate =
  gt_command :: string
  gt_timeout_seconds :: int
  gt_max_retries :: int
  gt_attempts :: int
  gt_last_exit_code :: "int option"
  gt_last_output_tail :: string
  gt_last_failed_fingerprint :: string

definition gate_init :: "goal_gate \<Rightarrow> goal_error + goal_gate" where
  "gate_init g =
     on_ok (clean_text MAX_GATE_COMMAND_CHARS ''gate.command'' (gt_command g)) (\<lambda>c.
       if c = '''' then Inl (Bad_value ''gate command is empty'')
       else Inr \<lparr>gt_command = c, gt_timeout_seconds = bounded_int 1 3600 (gt_timeout_seconds g),
         gt_max_retries = bounded_int 0 100 (gt_max_retries g), gt_attempts = bounded_int 0 1000000 (gt_attempts g),
         gt_last_exit_code = gt_last_exit_code g,
         gt_last_output_tail = last_n MAX_GATE_OUTPUT_CHARS (gt_last_output_tail g),
         gt_last_failed_fingerprint = take 128 (gt_last_failed_fingerprint g)\<rparr>)"

definition new_gate :: "string \<Rightarrow> int \<Rightarrow> int \<Rightarrow> goal_error + goal_gate" where
  "new_gate command timeout_seconds max_retries =
     gate_init \<lparr>gt_command = command, gt_timeout_seconds = timeout_seconds, gt_max_retries = max_retries,
       gt_attempts = 0, gt_last_exit_code = None, gt_last_output_tail = '''', gt_last_failed_fingerprint = ''''\<rparr>"

fun init_all :: "('a \<Rightarrow> goal_error + 'b) \<Rightarrow> 'a list \<Rightarrow> goal_error + 'b list" where
  "init_all f [] = Inr []"
| "init_all f (x # xs) = on_ok (f x) (\<lambda>y. on_ok (init_all f xs) (\<lambda>ys. Inr (y # ys)))"

section \<open>The goal state\<close>

record goal_state =
  g_session_key :: string
  g_goal :: string
  g_status :: goal_status
  g_goal_id :: string
  g_schema_version :: int
  g_revision :: int
  g_conversation_epoch :: int
  g_turns_used :: int
  g_max_turns :: int
  g_created_at :: real
  g_updated_at :: real
  g_last_turn_at :: real
  g_last_run_id :: "string option"
  g_last_failed_run_id :: "string option"
  g_created_by_run_id :: "string option"
  g_last_verdict :: "string option"
  g_last_reason :: "string option"
  g_paused_reason :: "string option"
  g_consecutive_parse_failures :: int
  g_consecutive_transport_failures :: int
  g_consecutive_compaction_failures :: int
  g_subgoals :: "string list"
  g_waiting_on_pid :: "int option"
  g_waiting_on_session :: "string option"
  g_waiting_until :: real
  g_waiting_reason :: "string option"
  g_waiting_since :: real
  g_contract :: goal_contract
  g_gates :: "goal_gate list"

definition pid_set :: "goal_state \<Rightarrow> bool" where
  "pid_set g = (case g_waiting_on_pid g of None \<Rightarrow> False | Some p \<Rightarrow> p \<noteq> 0)"

definition wait_targets :: "goal_state \<Rightarrow> nat" where
  "wait_targets g = (if pid_set g then 1 else 0) + (if truthy (g_waiting_on_session g) then 1 else 0)
     + (if g_waiting_until g \<noteq> 0 then 1 else 0)"

definition has_wait :: "goal_state \<Rightarrow> bool" where
  "has_wait g \<longleftrightarrow> pid_set g \<or> truthy (g_waiting_on_session g) \<or> g_waiting_until g \<noteq> 0"

definition is_active :: "goal_state \<Rightarrow> bool" where
  "is_active g \<longleftrightarrow> g_status g = G_active"

definition positive_pid :: "int option \<Rightarrow> int option" where
  "positive_pid v = (case v of None \<Rightarrow> None | Some p \<Rightarrow> if p \<le> 0 then None else Some p)"

text \<open>The fields \<open>__post_init__\<close> assigns, given the texts it cleaned.\<close>

definition normalised ::
    "string \<Rightarrow> string \<Rightarrow> string \<Rightarrow> string option \<Rightarrow> string option \<Rightarrow> string option \<Rightarrow> string list \<Rightarrow> goal_state \<Rightarrow> goal_state" where
  "normalised fresh key goal run failed_run made_run subgoals g =
     \<lparr>g_session_key = key, g_goal = goal, g_status = g_status g,
     g_goal_id = (if strip (g_goal_id g) = '''' then fresh else strip (g_goal_id g)),
     g_schema_version = bounded_int 1 1 (g_schema_version g),
     g_revision = bounded_int 0 (2 ^ 63 - 1) (g_revision g),
     g_conversation_epoch = bounded_int 0 (2 ^ 63 - 1) (g_conversation_epoch g),
     g_turns_used = bounded_int 0 1000000 (g_turns_used g),
     g_max_turns = bounded_int 1 10000 (g_max_turns g),
     g_created_at = bounded_float (g_created_at g), g_updated_at = bounded_float (g_updated_at g),
     g_last_turn_at = bounded_float (g_last_turn_at g),
     g_last_run_id = run, g_last_failed_run_id = failed_run, g_created_by_run_id = made_run,
     g_last_verdict = clean_optional MAX_REASON_CHARS (g_last_verdict g),
     g_last_reason = clean_optional MAX_REASON_CHARS (g_last_reason g),
     g_paused_reason = clean_optional MAX_REASON_CHARS (g_paused_reason g),
     g_consecutive_parse_failures = bounded_int 0 1000000 (g_consecutive_parse_failures g),
     g_consecutive_transport_failures = bounded_int 0 1000000 (g_consecutive_transport_failures g),
     g_consecutive_compaction_failures = bounded_int 0 1000000 (g_consecutive_compaction_failures g),
     g_subgoals = subgoals, g_waiting_on_pid = positive_pid (g_waiting_on_pid g),
     g_waiting_on_session = clean_optional 1000 (g_waiting_on_session g),
     g_waiting_until = bounded_float (g_waiting_until g),
     g_waiting_reason = clean_optional MAX_REASON_CHARS (g_waiting_reason g),
     g_waiting_since = bounded_float (g_waiting_since g),
     g_contract = g_contract g, g_gates = g_gates g\<rparr>"

text \<open>\<open>__post_init__\<close>, in its order.\<close>

definition post_init :: "string \<Rightarrow> goal_state \<Rightarrow> goal_error + goal_state" where
  "post_init fresh g =
     on_ok (clean_text 1000 ''session_key'' (g_session_key g)) (\<lambda>key.
     if key = '''' then Inl (Bad_value ''session_key is required'')
     else on_ok (clean_text MAX_GOAL_TEXT ''goal'' (g_goal g)) (\<lambda>goal.
     if g_status g \<noteq> G_cleared \<and> goal = '''' then Inl (Bad_value ''goal is required'')
     else on_ok (clean_id 512 ''last_run_id'' (g_last_run_id g)) (\<lambda>run.
     on_ok (clean_id 512 ''lastFailedRunId'' (g_last_failed_run_id g)) (\<lambda>failed_run.
     on_ok (clean_id 512 ''createdByRunId'' (g_created_by_run_id g)) (\<lambda>made_run.
     on_ok (clean_unique_strings MAX_SUBGOAL_CHARS MAX_SUBGOALS ''subgoal'' (g_subgoals g)) (\<lambda>subgoals.
     if MAX_GATES < length (g_gates g)
     then Inl (Bad_value (''goal has more than '' @ show_nat MAX_GATES @ '' gates''))
     else
       let h = normalised fresh key goal run failed_run made_run subgoals g
       in if 1 < wait_targets h then Inl (Bad_value ''goal state contains multiple wait targets'') else Inr h))))))"

text \<open>\<open>GoalState.from_dict(state.to_dict())\<close>: the contract and the gates are validated first.\<close>

definition reload :: "string \<Rightarrow> goal_state \<Rightarrow> goal_error + goal_state" where
  "reload fresh g =
     on_ok (contract_init (g_contract g)) (\<lambda>k.
     on_ok (init_all gate_init (g_gates g)) (\<lambda>gs.
       post_init fresh (g\<lparr>g_contract := k, g_gates := gs\<rparr>)))"

definition new_goal ::
    "real \<Rightarrow> string \<Rightarrow> string \<Rightarrow> string \<Rightarrow> int \<Rightarrow> goal_contract \<Rightarrow> int \<Rightarrow> string option \<Rightarrow> goal_error + goal_state" where
  "new_goal now hex key goal max_turns contract epoch run =
     post_init hex \<lparr>g_session_key = key, g_goal = goal, g_status = G_active, g_goal_id = hex, g_schema_version = 1,
       g_revision = 0, g_conversation_epoch = epoch, g_turns_used = 0, g_max_turns = max_turns,
       g_created_at = now, g_updated_at = now, g_last_turn_at = 0, g_last_run_id = None,
       g_last_failed_run_id = None, g_created_by_run_id = run, g_last_verdict = None, g_last_reason = None,
       g_paused_reason = None, g_consecutive_parse_failures = 0, g_consecutive_transport_failures = 0,
       g_consecutive_compaction_failures = 0, g_subgoals = [], g_waiting_on_pid = None,
       g_waiting_on_session = None, g_waiting_until = 0, g_waiting_reason = None, g_waiting_since = 0,
       g_contract = contract, g_gates = []\<rparr>"

section \<open>The wait barrier\<close>

definition clear_wait :: "goal_state \<Rightarrow> goal_state" where
  "clear_wait g = g\<lparr>g_waiting_on_pid := None, g_waiting_on_session := None, g_waiting_until := 0,
     g_waiting_reason := None, g_waiting_since := 0\<rparr>"

definition set_wait :: "real \<Rightarrow> wait_target \<Rightarrow> string \<Rightarrow> goal_state \<Rightarrow> goal_error + goal_state" where
  "set_wait now target reason g =
     (let h = (clear_wait g)\<lparr>g_waiting_reason := clean_optional MAX_REASON_CHARS (Some reason), g_waiting_since := now\<rparr>
      in case target of
        Wait_pid p \<Rightarrow>
          if p \<le> 0 then Inl (Bad_value ''pid must be a positive integer'') else Inr (h\<lparr>g_waiting_on_pid := Some p\<rparr>)
      | Wait_session t \<Rightarrow>
          on_ok (clean_text 1000 ''wait session'' t) (\<lambda>sid.
            if sid = '''' then Inl (Bad_value ''session id is required'') else Inr (h\<lparr>g_waiting_on_session := Some sid\<rparr>))
      | Wait_time t \<Rightarrow>
          if t \<le> now then Inl (Bad_value ''wait deadline must be in the future'') else Inr (h\<lparr>g_waiting_until := t\<rparr>))"

section \<open>Snapshots\<close>

definition wait_public :: "goal_state \<Rightarrow> json" where
  "wait_public g =
     (if pid_set g then JObj [(''kind'', JStr ''pid''), (''pid'', JInt (the (g_waiting_on_pid g))), (''reason'', jopt (g_waiting_reason g))]
      else if truthy (g_waiting_on_session g)
      then JObj [(''kind'', JStr ''session''), (''sessionId'', jopt (g_waiting_on_session g)), (''reason'', jopt (g_waiting_reason g))]
      else if g_waiting_until g \<noteq> 0
      then JObj [(''kind'', JStr ''time''), (''until'', JReal (g_waiting_until g)), (''reason'', jopt (g_waiting_reason g))]
      else JNull)"

definition contract_json :: "goal_contract \<Rightarrow> json" where
  "contract_json k = JObj [(''outcome'', JStr (k_outcome k)), (''verification'', JStr (k_verification k)),
     (''constraints'', JStr (k_constraints k)), (''boundaries'', JStr (k_boundaries k)), (''stop_when'', JStr (k_stop_when k))]"

definition gate_public :: "goal_gate \<Rightarrow> json" where
  "gate_public g = JObj [(''command'', JStr (gt_command g)), (''timeoutSeconds'', JInt (gt_timeout_seconds g)),
     (''maxRetries'', JInt (gt_max_retries g)), (''attempts'', JInt (gt_attempts g)),
     (''lastExitCode'', case gt_last_exit_code g of None \<Rightarrow> JNull | Some c \<Rightarrow> JInt c)]"

definition goal_public :: "goal_state \<Rightarrow> json" where
  "goal_public g = JObj [(''goalId'', JStr (g_goal_id g)), (''revision'', JInt (g_revision g)),
     (''conversationEpoch'', JInt (g_conversation_epoch g)), (''goal'', JStr (g_goal g)),
     (''status'', JStr (goal_status_text (g_status g))), (''turnsUsed'', JInt (g_turns_used g)),
     (''maxTurns'', JInt (g_max_turns g)), (''createdAt'', JReal (g_created_at g)), (''updatedAt'', JReal (g_updated_at g)),
     (''lastTurnAt'', if g_last_turn_at g = 0 then JNull else JReal (g_last_turn_at g)),
     (''lastRunId'', jopt (g_last_run_id g)), (''lastFailedRunId'', jopt (g_last_failed_run_id g)),
     (''createdByRunId'', jopt (g_created_by_run_id g)), (''lastVerdict'', jopt (g_last_verdict g)),
     (''lastReason'', jopt (g_last_reason g)), (''pausedReason'', jopt (g_paused_reason g)),
     (''consecutiveCompactionFailures'', JInt (g_consecutive_compaction_failures g)),
     (''subgoals'', JArr (map JStr (g_subgoals g))), (''wait'', wait_public g),
     (''contract'', if contract_is_empty (g_contract g) then JNull else contract_json (g_contract g)),
     (''gates'', JArr (map gate_public (g_gates g)))]"

end
