(* ===== verification/Goal_Contracts.thy ===== *)
theory Goal_Contracts
  imports Goal_Models
begin

text \<open>
  Completion contracts written as headed text (\<open>parse_contract\<close> of \<open>goals/models.py\<close>), and that the
  text a contract renders to is read back as that contract.
\<close>

section \<open>Parsing\<close>

datatype contract_field = F_outcome | F_verification | F_constraints | F_boundaries | F_stop_when

definition contract_aliases :: "(string \<times> contract_field) list" where
  "contract_aliases = [(''outcome'', F_outcome), (''goal'', F_outcome), (''done'', F_outcome), (''done when'', F_outcome),
     (''verification'', F_verification), (''verify'', F_verification), (''verified by'', F_verification),
     (''evidence'', F_verification), (''proof'', F_verification), (''constraints'', F_constraints),
     (''constraint'', F_constraints), (''preserve'', F_constraints), (''must not'', F_constraints),
     (''do not change'', F_constraints), (''boundaries'', F_boundaries), (''boundary'', F_boundaries),
     (''scope'', F_boundaries), (''allowed'', F_boundaries), (''files'', F_boundaries), (''stop when'', F_stop_when),
     (''stop_when'', F_stop_when), (''blocked'', F_stop_when), (''stop if blocked'', F_stop_when), (''give up when'', F_stop_when)]"

definition alias_of :: "string \<Rightarrow> contract_field option" where
  "alias_of t = map_of contract_aliases (casefold t)"

type_synonym contract_parts = "(contract_field \<Rightarrow> string list) \<times> contract_field option"

text \<open>\<open>line.lstrip("#*- ").strip()\<close> on a stripped line.\<close>

definition unmarked :: "string \<Rightarrow> string" where
  "unmarked line = strip (dropWhile (\<lambda>c. c \<in> set ''#*- '') line)"

definition parse_line :: "string \<Rightarrow> contract_parts \<Rightarrow> contract_parts" where
  "parse_line raw st =
     (case st of (values, current) \<Rightarrow>
       if strip raw = '''' then st
       else let line = unmarked (strip raw);
                label = takeWhile (\<lambda>c. c \<noteq> CHR '':'') line; rest = dropWhile (\<lambda>c. c \<noteq> CHR '':'') line
       in case (if rest = [] then None else alias_of (strip label)) of
            Some f \<Rightarrow>
              (if strip (tl rest) = '''' then values else values(f := values f @ [strip (tl rest)]), Some f)
          | None \<Rightarrow>
              (case alias_of line of
                 Some f \<Rightarrow> (values, Some f)
               | None \<Rightarrow> (case current of None \<Rightarrow> st | Some f \<Rightarrow> (values(f := values f @ [line]), current))))"

definition parse_contract :: "string \<Rightarrow> goal_error + goal_contract" where
  "parse_contract s =
     (let parts = fst (fold parse_line (splitlines s) ((\<lambda>_. []), None)); v = (\<lambda>f. strip (join nl (parts f)))
      in contract_init \<lparr>k_outcome = v F_outcome, k_verification = v F_verification, k_constraints = v F_constraints,
           k_boundaries = v F_boundaries, k_stop_when = v F_stop_when\<rparr>)"

section \<open>Reading back a rendered contract\<close>

definition plain_line :: "string \<Rightarrow> bool" where
  "plain_line v \<longleftrightarrow> strip v = v \<and> list_all (\<lambda>c. \<not> is_break c) v"

lemma splitlines_plain: "s \<noteq> [] \<Longrightarrow> list_all (\<lambda>c. \<not> is_break c) s \<Longrightarrow> splitlines s = [s]"
proof -
  assume a: "s \<noteq> []" "list_all (\<lambda>c. \<not> is_break c) s"
  then have "takeWhile (\<lambda>c. \<not> is_break c) s = s" "dropWhile (\<lambda>c. \<not> is_break c) s = []"
    by (simp_all add: takeWhile_eq_all_conv dropWhile_eq_Nil_conv list_all_iff)
  then have "splitlines s = s # splitlines (after_break [])"
    using a(1) by (simp only: splitlines.simps [of s] if_False)
  then show ?thesis by (simp add: after_break_def splitlines.simps [of "[]"])
qed

lemma nl_break: "is_break (char_of (10::nat))" "of_char (char_of (10::nat)) = (10::nat)"
  by (simp_all add: is_break_def)

lemma splitlines_cons:
  assumes "list_all (\<lambda>c. \<not> is_break c) s"
  shows "splitlines (s @ nl @ t) = s # splitlines t"
proof -
  have "takeWhile (\<lambda>c. \<not> is_break c) (s @ nl @ t) = s" "dropWhile (\<lambda>c. \<not> is_break c) (s @ nl @ t) = nl @ t"
    using assms nl_break(1) by (simp_all add: nl_def list_all_iff)
  moreover have "after_break (nl @ t) = t" by (simp add: after_break_def nl_def nl_break)
  ultimately show ?thesis by (subst splitlines.simps) (simp add: nl_def)
qed

lemma splitlines_join:
  "\<forall>s \<in> set ls. s \<noteq> [] \<and> list_all (\<lambda>c. \<not> is_break c) s \<Longrightarrow> splitlines (join nl ls) = ls"
proof (induction nl ls rule: join.induct)
  case 1
  show ?case by (simp add: splitlines.simps)
next
  case (2 x)
  then show ?case by (simp add: splitlines_plain)
next
  case (3 x y xs)
  then show ?case by (simp add: splitlines_cons)
qed

section \<open>Fields\<close>

text \<open>A heading as \<open>contract_render\<close> writes it.\<close>

definition heading :: "string \<Rightarrow> contract_field \<Rightarrow> bool" where
  "heading label f \<longleftrightarrow> label \<noteq> '''' \<and> hd label \<notin> set ''#*- '' \<and> \<not> py_space (hd label) \<and> CHR '':'' \<notin> set label
     \<and> strip label = label \<and> alias_of label = Some f"

definition field_line :: "string \<times> string \<Rightarrow> string" where
  "field_line p = ''- '' @ fst p @ '': '' @ snd p"

lemma headings:
  "heading ''Outcome'' F_outcome" "heading ''Verification'' F_verification" "heading ''Constraints'' F_constraints"
  "heading ''Boundaries'' F_boundaries" "heading ''Stop when'' F_stop_when"
  by code_simp+

lemma strip_space_Cons: "strip (CHR '' '' # v) = strip v"
proof -
  have "py_space (CHR '' '')" by code_simp
  then show ?thesis by (simp add: strip_def lstrip_def)
qed

lemma strip_fixed: "strip v = v \<Longrightarrow> v \<noteq> '''' \<Longrightarrow> \<not> py_space (last v)"
  using strip_ends [of v] by simp

lemma parse_field_line:
  assumes h: "heading label f" and v: "strip v = v" "v \<noteq> ''''"
  shows "parse_line (field_line (label, v)) (vals, cur) = (vals(f := vals f @ [v]), Some f)"
proof -
  let ?line = "label @ CHR '':'' # CHR '' '' # v"
  have raw: "strip (field_line (label, v)) = field_line (label, v)"
  proof (rule strip_id)
    have "\<not> py_space (CHR ''-'')" by code_simp
    with strip_fixed [OF v] v(2) show "field_line (label, v) = [] \<or>
        \<not> py_space (hd (field_line (label, v))) \<and> \<not> py_space (last (field_line (label, v)))"
      by (simp add: field_line_def)
  qed
  have "dropWhile (\<lambda>c. c \<in> set ''#*- '') (field_line (label, v)) = ?line"
    using h by (cases label) (auto simp: field_line_def heading_def)
  moreover have "strip ?line = ?line"
    using h strip_fixed [OF v] v(2) by (intro strip_id) (cases label, auto simp: heading_def)
  ultimately have un: "unmarked (field_line (label, v)) = ?line" by (simp add: unmarked_def)
  have tw: "takeWhile (\<lambda>c. c \<noteq> CHR '':'') ?line = label" "dropWhile (\<lambda>c. c \<noteq> CHR '':'') ?line = CHR '':'' # CHR '' '' # v"
    using h by (auto simp: heading_def takeWhile_append dropWhile_append dest: set_takeWhileD)
  have ne: "field_line (label, v) \<noteq> ''''" by (simp add: field_line_def)
  show ?thesis
    unfolding parse_line_def raw un Let_def tw using h v ne by (simp add: heading_def strip_space_Cons)
qed

fun put_part :: "string \<times> contract_field \<times> string \<Rightarrow> (contract_field \<Rightarrow> string list) \<Rightarrow> contract_field \<Rightarrow> string list" where
  "put_part (l, f, v) vals = vals(f := vals f @ [v])"

lemma fold_field_lines:
  assumes "\<forall>(l, f, v) \<in> set ps. heading l f \<and> strip v = v \<and> v \<noteq> ''''"
  shows "fst (fold parse_line (map (\<lambda>(l, f, v). field_line (l, v)) ps) (vals, cur))
    = fold put_part ps vals"
  using assms
proof (induction ps arbitrary: vals cur)
  case (Cons p ps)
  obtain l f v where p: "p = (l, f, v)" by (cases p)
  with Cons.prems have "parse_line (field_line (l, v)) (vals, cur) = (vals(f := vals f @ [v]), Some f)"
    by (intro parse_field_line) auto
  with Cons p show ?case by simp
qed simp

definition contract_fields :: "goal_contract \<Rightarrow> (string \<times> contract_field \<times> string) list" where
  "contract_fields k = [(''Outcome'', F_outcome, k_outcome k), (''Verification'', F_verification, k_verification k),
     (''Constraints'', F_constraints, k_constraints k), (''Boundaries'', F_boundaries, k_boundaries k),
     (''Stop when'', F_stop_when, k_stop_when k)]"

definition written_fields :: "goal_contract \<Rightarrow> (string \<times> contract_field \<times> string) list" where
  "written_fields k = filter (\<lambda>(l, f, v). v \<noteq> '''') (contract_fields k)"

lemma contract_render_fields: "contract_render k = join nl (map (\<lambda>(l, f, v). field_line (l, v)) (written_fields k))"
  by (simp add: contract_render_def written_fields_def contract_fields_def field_line_def)

definition plain_contract :: "goal_contract \<Rightarrow> bool" where
  "plain_contract k \<longleftrightarrow> list_all (\<lambda>(l, f, v). plain_line v \<and> length v \<le> MAX_CONTRACT_FIELD_CHARS) (contract_fields k)"

lemma fold_append_field:
  "fold put_part (filter (\<lambda>(l, f, v). v \<noteq> '''') ps) vals f
    = vals f @ map (snd \<circ> snd) (filter (\<lambda>(l, g, v). g = f \<and> v \<noteq> '''') ps)"
  by (induction ps arbitrary: vals) (auto split: if_splits)

lemma contract_init_plain: "plain_contract k \<Longrightarrow> contract_init k = Inr k"
  by (auto simp: plain_contract_def contract_fields_def plain_line_def contract_init_def clean_text_def)

lemma heading_plain: "list_all (\<lambda>c. \<not> is_break c) ''- ''" "list_all (\<lambda>c. \<not> is_break c) '': ''"
  "\<forall>(l, f, v) \<in> set (contract_fields k). heading l f \<and> list_all (\<lambda>c. \<not> is_break c) l"
proof -
  show "list_all (\<lambda>c. \<not> is_break c) ''- ''" "list_all (\<lambda>c. \<not> is_break c) '': ''" by code_simp+
  have "list_all (\<lambda>c. \<not> is_break c) ''Outcome''" "list_all (\<lambda>c. \<not> is_break c) ''Verification''"
    "list_all (\<lambda>c. \<not> is_break c) ''Constraints''" "list_all (\<lambda>c. \<not> is_break c) ''Boundaries''"
    "list_all (\<lambda>c. \<not> is_break c) ''Stop when''" by code_simp+
  with headings show "\<forall>(l, f, v) \<in> set (contract_fields k). heading l f \<and> list_all (\<lambda>c. \<not> is_break c) l"
    by (simp add: contract_fields_def)
qed

lemma written_plain:
  assumes "plain_contract k" "(l, f, v) \<in> set (written_fields k)"
  shows "heading l f" "strip v = v" "v \<noteq> ''''" "list_all (\<lambda>c. \<not> is_break c) (field_line (l, v))"
proof -
  have m: "(l, f, v) \<in> set (contract_fields k)" and v: "v \<noteq> ''''"
    using assms(2) by (auto simp: written_fields_def)
  from m heading_plain(3) [of k] have l: "heading l f" "list_all (\<lambda>c. \<not> is_break c) l" by auto
  from m assms(1) have p: "plain_line v" by (auto simp: plain_contract_def list_all_iff)
  show "heading l f" "strip v = v" "v \<noteq> ''''" "list_all (\<lambda>c. \<not> is_break c) (field_line (l, v))"
    using l p v heading_plain(1,2) by (simp_all add: plain_line_def field_line_def)
qed

lemma one_part: "strip v = v \<Longrightarrow> strip (join nl (map (snd \<circ> snd) (if v \<noteq> '''' then [(l, f, v)] else []))) = v"
  by simp

lemma parse_rendered:
  assumes "plain_contract k"
  shows "parse_contract (contract_render k) = Inr k"
proof -
  let ?lines = "map (\<lambda>(l, f, v). field_line (l, v)) (written_fields k)"
  have "\<forall>s \<in> set ?lines. s \<noteq> [] \<and> list_all (\<lambda>c. \<not> is_break c) s"
    using written_plain(4) [OF assms] by (force simp: field_line_def)
  then have "splitlines (contract_render k) = ?lines"
    unfolding contract_render_fields by (rule splitlines_join)
  moreover have "\<forall>(l, f, v) \<in> set (written_fields k). heading l f \<and> strip v = v \<and> v \<noteq> ''''"
    using written_plain(1-3) [OF assms] by blast
  ultimately have parts: "fst (fold parse_line (splitlines (contract_render k)) ((\<lambda>_. []), None)) f
      = map (snd \<circ> snd) (filter (\<lambda>(l, g, v). g = f \<and> v \<noteq> '''') (contract_fields k))" for f
    by (simp add: fold_field_lines) (simp add: written_fields_def fold_append_field)
  have "list_all (\<lambda>(l, f, v). strip v = v) (contract_fields k)"
    using assms by (auto simp: plain_contract_def plain_line_def contract_fields_def)
  then have "parse_contract (contract_render k) = contract_init k"
    unfolding parse_contract_def Let_def parts by (cases k) (simp add: contract_fields_def one_part)
  with contract_init_plain [OF assms] show ?thesis by simp
qed

end
