(* ===== verification/Goal_Store.thy ===== *)
theory Goal_Store
  imports Goal_Models
begin

text \<open>
  The durable records of standing goals (\<open>goals/store.py\<close>): one file per conversation, read through
  the validation of \<open>Goal_Models\<close> and written back whole, with the goal id and the revision as the
  preconditions of an optimistic write, and an archive of the generations a new goal replaced.

  The files are a map from conversation keys to the records written last; the archive is a map from
  a conversation and a goal id to a proof. An operation runs under the lock of its conversation, so it
  is one step; its clock reading and the next \<open>uuid4\<close> are fields of the state. The session owner may
  act, and writing a file succeeds.
\<close>

section \<open>State\<close>

record goal_proof =
  pf_session :: string
  pf_goal_id :: string
  pf_revision :: int
  pf_status :: goal_status
  pf_last_run_id :: "string option"
  pf_created_by_run_id :: "string option"

record goal_db =
  goal_clock :: real
  goal_hex :: string
  goal_files :: "string \<rightharpoonup> goal_state"
  goal_history :: "string \<times> string \<rightharpoonup> goal_proof"

type_synonym 'a goal_op = "goal_db \<Rightarrow> goal_db \<times> (goal_error + 'a)"

definition empty_goals :: "real \<Rightarrow> string \<Rightarrow> goal_db" where
  "empty_goals now hex = \<lparr>goal_clock = now, goal_hex = hex, goal_files = Map.empty, goal_history = Map.empty\<rparr>"

section \<open>Sequencing\<close>

definition and_then :: "'a goal_op \<Rightarrow> ('a \<Rightarrow> 'b goal_op) \<Rightarrow> 'b goal_op" where
  "and_then m f db = (case m db of (d, Inl e) \<Rightarrow> (d, Inl e) | (d, Inr x) \<Rightarrow> f x d)"

text \<open>\<open>try: m except GoalStoreConflictError: h\<close>.\<close>

definition on_conflict :: "'a goal_op \<Rightarrow> 'a goal_op \<Rightarrow> 'a goal_op" where
  "on_conflict m h db = (case m db of (d, Inl (Conflict t)) \<Rightarrow> h d | r \<Rightarrow> r)"

definition give :: "'a \<Rightarrow> 'a goal_op" where
  "give x db = (db, Inr x)"

section \<open>Reading\<close>

definition read_goal :: "goal_db \<Rightarrow> string \<Rightarrow> goal_error + goal_state option" where
  "read_goal db k = (case goal_files db k of
      None \<Rightarrow> Inr None
    | Some raw \<Rightarrow> (case reload (goal_hex db) raw of
          Inl e \<Rightarrow> Inl (Corrupt ''invalid goal state'')
        | Inr g \<Rightarrow> if g_session_key g \<noteq> k then Inl (Corrupt ''goal record has a different conversation'')
            else Inr (Some g)))"

definition clone_opt :: "string \<Rightarrow> goal_state option \<Rightarrow> goal_error + goal_state option" where
  "clone_opt fresh cur = (case cur of None \<Rightarrow> Inr None | Some g \<Rightarrow> on_ok (reload fresh g) (\<lambda>h. Inr (Some h)))"

definition get_goal :: "string \<Rightarrow> goal_state option goal_op" where
  "get_goal k db = (db, on_ok (read_goal db k) (clone_opt (goal_hex db)))"

definition check_preconditions :: "goal_state option \<Rightarrow> string option \<Rightarrow> int option \<Rightarrow> goal_error + unit" where
  "check_preconditions cur eid erev =
     (if eid \<noteq> None \<and> map_option g_goal_id cur \<noteq> eid then Inl (Conflict ''goal generation changed'')
      else if erev \<noteq> None \<and> map_option g_revision cur \<noteq> erev then Inl (Conflict ''goal revision changed'')
      else Inr ())"

section \<open>Writing\<close>

definition generation_proof :: "goal_state \<Rightarrow> goal_proof" where
  "generation_proof g = \<lparr>pf_session = g_session_key g, pf_goal_id = g_goal_id g, pf_revision = g_revision g,
     pf_status = g_status g, pf_last_run_id = g_last_run_id g, pf_created_by_run_id = g_created_by_run_id g\<rparr>"

definition archive_replaced :: "goal_state option \<Rightarrow> goal_state \<Rightarrow> goal_db \<Rightarrow> goal_db" where
  "archive_replaced cur upd db = (case cur of
      None \<Rightarrow> db
    | Some g \<Rightarrow> if g_goal_id g = g_goal_id upd then db
        else db\<lparr>goal_history := (goal_history db)((g_session_key g, g_goal_id g) \<mapsto> generation_proof g)\<rparr>)"

definition write_goal :: "string \<Rightarrow> goal_state \<Rightarrow> goal_db \<Rightarrow> goal_db" where
  "write_goal k g db = db\<lparr>goal_files := (goal_files db)(k \<mapsto> g)\<rparr>"

text \<open>The record \<open>update\<close> and \<open>save\<close> write: the next revision, stamped.\<close>

definition stamped :: "goal_db \<Rightarrow> goal_state option \<Rightarrow> goal_state \<Rightarrow> goal_state" where
  "stamped db cur g = g\<lparr>g_revision := (case cur of None \<Rightarrow> 1 | Some c \<Rightarrow> g_revision c + 1), g_updated_at := goal_clock db\<rparr>"

definition commit :: "string \<Rightarrow> goal_state option \<Rightarrow> goal_state \<Rightarrow> goal_state goal_op" where
  "commit k cur g db =
     (let s = stamped db cur g; d = write_goal k s (archive_replaced cur s db) in (d, reload (goal_hex db) s))"

definition save_goal :: "goal_state \<Rightarrow> string option \<Rightarrow> int option \<Rightarrow> goal_state goal_op" where
  "save_goal g eid erev db =
     (case read_goal db (g_session_key g) of
        Inl e \<Rightarrow> (db, Inl e)
      | Inr cur \<Rightarrow> (case reload (goal_hex db) g of
          Inl e \<Rightarrow> (db, Inl e)
        | Inr saved \<Rightarrow> (case check_preconditions cur eid erev of
            Inl e \<Rightarrow> (db, Inl e)
          | Inr _ \<Rightarrow> commit (g_session_key g) cur saved db)))"

text \<open>A mutation may also return what its closure collects.\<close>

definition update_with ::
    "string \<Rightarrow> (goal_state option \<Rightarrow> goal_error + goal_state \<times> 'x) \<Rightarrow> string option \<Rightarrow> int option \<Rightarrow> (goal_state \<times> 'x) goal_op" where
  "update_with k f eid erev db =
     (case read_goal db k of
        Inl e \<Rightarrow> (db, Inl e)
      | Inr cur \<Rightarrow> (case check_preconditions cur eid erev of
          Inl e \<Rightarrow> (db, Inl e)
        | Inr _ \<Rightarrow> (case on_ok (clone_opt (goal_hex db) cur) f of
            Inl e \<Rightarrow> (db, Inl e)
          | Inr (upd, x) \<Rightarrow>
              if g_session_key upd \<noteq> k then (db, Inl (Bad_value ''goal mutation changed session_key''))
              else case commit k cur upd db of (d, r) \<Rightarrow> (d, on_ok r (\<lambda>g. Inr (g, x))))))"

definition update_goal ::
    "string \<Rightarrow> (goal_state option \<Rightarrow> goal_error + goal_state) \<Rightarrow> string option \<Rightarrow> int option \<Rightarrow> goal_state goal_op" where
  "update_goal k f eid erev db =
     (case update_with k (\<lambda>c. on_ok (f c) (\<lambda>g. Inr (g, ()))) eid erev db of
        (d, r) \<Rightarrow> (d, on_ok r (\<lambda>p. Inr (fst p))))"

definition compare_and_update :: "goal_state \<Rightarrow> (goal_state \<Rightarrow> goal_error + goal_state) \<Rightarrow> goal_state goal_op" where
  "compare_and_update snapshot f =
     update_goal (g_session_key snapshot)
       (\<lambda>c. case c of None \<Rightarrow> Inl (Conflict ''goal no longer exists'') | Some g \<Rightarrow> f g)
       (Some (g_goal_id snapshot)) (Some (g_revision snapshot))"

definition get_generation :: "string \<Rightarrow> string \<Rightarrow> goal_proof option goal_op" where
  "get_generation k goal_id db = (db,
     on_ok (read_goal db k) (\<lambda>cur.
       if map_option g_goal_id cur = Some goal_id then Inr (map_option generation_proof cur)
       else case goal_history db (k, goal_id) of
          None \<Rightarrow> Inr None
        | Some p \<Rightarrow> if pf_session p \<noteq> k \<or> pf_goal_id p \<noteq> goal_id \<or> pf_revision p < 1
            then Inl (Corrupt ''invalid goal generation proof'') else Inr (Some p)))"

end
