(* ===== verification/Goal_Facts.thy ===== *)
theory Goal_Facts
  imports Goal_Contracts Goal_Store
begin

text \<open>
  What the validation of a goal record gives: a record that was read is valid, and validating it
  once more changes nothing but blanks at the end of truncated texts. From this, the effect of one
  optimistic write.
\<close>

section \<open>Cleaning\<close>

named_theorems clean_facts \<open>what the cleaning helpers return\<close>

lemma clean_text_Inr [clean_facts]: "clean_text n f v = Inr t \<longleftrightarrow> t = strip v \<and> length t \<le> n"
  by (auto simp: clean_text_def Let_def)

lemma clean_text_again: "clean_text n f v = Inr t \<Longrightarrow> clean_text n f' t = Inr t"
  by (auto simp: clean_facts)

lemma clean_id_Inr [clean_facts]:
  "clean_id n f v = Inr t \<longleftrightarrow> t = or_none (strip (case v of None \<Rightarrow> '''' | Some s \<Rightarrow> s))
     \<and> length (strip (case v of None \<Rightarrow> '''' | Some s \<Rightarrow> s)) \<le> n"
  by (auto simp: clean_id_def ok_iffs clean_facts)

lemma clean_id_again: "clean_id n f v = Inr t \<Longrightarrow> clean_id n f t = Inr t"
  by (auto simp: clean_id_def ok_iffs clean_facts or_none_def split: option.splits if_splits)

lemma bounded_int_again [simp]: "lo \<le> hi \<Longrightarrow> bounded_int lo hi (bounded_int lo hi v) = bounded_int lo hi v"
  by (simp add: bounded_int_def)

lemma bounded_float_again [simp]: "bounded_float (bounded_float v) = bounded_float v"
  by (simp add: bounded_float_def)

lemma positive_pid_again [simp]: "positive_pid (positive_pid v) = positive_pid v"
  by (simp add: positive_pid_def split: option.splits)

lemma bounded_int_range: "lo \<le> hi \<Longrightarrow> lo \<le> bounded_int lo hi v \<and> bounded_int lo hi v \<le> hi"
  by (simp add: bounded_int_def)

lemma clean_unique_Inr:
  assumes "clean_unique_from n m f acc vs = Inr ys" "length acc \<le> m" "distinct (map casefold acc)"
    "\<forall>a \<in> set acc. strip a = a \<and> a \<noteq> '''' \<and> length a \<le> n"
  shows "length ys \<le> m \<and> distinct (map casefold ys) \<and> (\<forall>a \<in> set ys. strip a = a \<and> a \<noteq> '''' \<and> length a \<le> n)"
  using assms
proof (induction vs arbitrary: acc)
  case (Cons v vs)
  then obtain t where t: "t = strip v" "length t \<le> n" by (auto simp: ok_iffs clean_facts)
  let ?acc = "if t \<noteq> '''' \<and> casefold t \<notin> casefold ` set acc then acc @ [t] else acc"
  from Cons.prems t have run: "clean_unique_from n m f ?acc vs = Inr ys" and "length ?acc \<le> m"
    by (auto simp: ok_iffs clean_facts Let_def split: if_splits)
  moreover have "distinct (map casefold ?acc)" "\<forall>a \<in> set ?acc. strip a = a \<and> a \<noteq> '''' \<and> length a \<le> n"
    using Cons.prems(3,4) t by auto
  ultimately show ?case by (rule Cons.IH)
qed simp

lemma clean_unique_again:
  assumes "distinct (map casefold (acc @ vs))" "length (acc @ vs) \<le> m" "\<forall>a \<in> set vs. strip a = a \<and> a \<noteq> '''' \<and> length a \<le> n"
  shows "clean_unique_from n m f acc vs = Inr (acc @ vs)"
  using assms
proof (induction vs arbitrary: acc)
  case (Cons v vs)
  then have "clean_text n f v = Inr v" "casefold v \<notin> casefold ` set acc" "v \<noteq> ''''" by (auto simp: clean_facts)
  with Cons.IH [of "acc @ [v]"] Cons.prems show ?case by simp
qed simp

section \<open>Valid records\<close>

definition valid_contract :: "goal_contract \<Rightarrow> bool" where
  "valid_contract k \<longleftrightarrow> list_all (\<lambda>v. strip v = v \<and> length v \<le> MAX_CONTRACT_FIELD_CHARS)
     [k_outcome k, k_verification k, k_constraints k, k_boundaries k, k_stop_when k]"

definition valid_gate :: "goal_gate \<Rightarrow> bool" where
  "valid_gate g \<longleftrightarrow> strip (gt_command g) = gt_command g \<and> gt_command g \<noteq> '''' \<and> length (gt_command g) \<le> MAX_GATE_COMMAND_CHARS
     \<and> 1 \<le> gt_timeout_seconds g \<and> gt_timeout_seconds g \<le> 3600 \<and> 0 \<le> gt_max_retries g \<and> gt_max_retries g \<le> 100
     \<and> 0 \<le> gt_attempts g \<and> gt_attempts g \<le> 1000000 \<and> length (gt_last_output_tail g) \<le> MAX_GATE_OUTPUT_CHARS
     \<and> length (gt_last_failed_fingerprint g) \<le> 128"

definition text_within :: "nat \<Rightarrow> string option \<Rightarrow> bool" where
  "text_within n v \<longleftrightarrow> (case v of None \<Rightarrow> True | Some s \<Rightarrow> s \<noteq> '''' \<and> length s \<le> n)"

definition valid_texts :: "goal_state \<Rightarrow> bool" where
  "valid_texts g \<longleftrightarrow> strip (g_session_key g) = g_session_key g \<and> length (g_session_key g) \<le> 1000 \<and> strip (g_goal g) = g_goal g
     \<and> (\<forall>a \<in> set (g_subgoals g). strip a = a \<and> a \<noteq> '''' \<and> length a \<le> MAX_SUBGOAL_CHARS)
     \<and> list_all (text_within 512) [g_last_run_id g, g_last_failed_run_id g, g_created_by_run_id g]
     \<and> list_all (text_within MAX_REASON_CHARS) [g_last_verdict g, g_last_reason g, g_paused_reason g, g_waiting_reason g]
     \<and> text_within 1000 (g_waiting_on_session g)"

definition valid_numbers :: "goal_state \<Rightarrow> bool" where
  "valid_numbers g \<longleftrightarrow> g_schema_version g = 1 \<and> 0 \<le> g_conversation_epoch g \<and> g_conversation_epoch g < 2 ^ 63
     \<and> list_all (\<lambda>n. 0 \<le> n \<and> n \<le> 1000000) [g_consecutive_parse_failures g, g_consecutive_transport_failures g]
     \<and> list_all (\<lambda>t. 0 \<le> t) [g_created_at g, g_updated_at g, g_last_turn_at g, g_waiting_until g, g_waiting_since g]
     \<and> (\<forall>p. g_waiting_on_pid g = Some p \<longrightarrow> 0 < p)"

definition valid_goal :: "goal_state \<Rightarrow> bool" where
  "valid_goal g \<longleftrightarrow> g_session_key g \<noteq> '''' \<and> length (g_goal g) \<le> MAX_GOAL_TEXT
     \<and> (g_status g \<noteq> G_cleared \<longrightarrow> g_goal g \<noteq> '''')
     \<and> 0 \<le> g_revision g \<and> g_revision g < 2 ^ 63 \<and> 0 \<le> g_turns_used g \<and> g_turns_used g \<le> 1000000 \<and> 1 \<le> g_max_turns g \<and> g_max_turns g \<le> 10000
     \<and> 0 \<le> g_consecutive_compaction_failures g \<and> g_consecutive_compaction_failures g \<le> 1000000
     \<and> length (g_subgoals g) \<le> MAX_SUBGOALS \<and> distinct (map casefold (g_subgoals g))
     \<and> length (g_gates g) \<le> MAX_GATES \<and> list_all valid_gate (g_gates g) \<and> valid_contract (g_contract g)
     \<and> wait_targets g \<le> 1 \<and> valid_texts g \<and> valid_numbers g"

lemma contract_init_valid: "contract_init k = Inr h \<Longrightarrow> valid_contract h"
  by (auto simp: contract_init_def ok_iffs clean_facts valid_contract_def)

lemma contract_init_again: "valid_contract k \<Longrightarrow> contract_init k = Inr k"
  by (auto simp: contract_init_def valid_contract_def clean_text_def)

lemma gate_init_valid: "gate_init g = Inr h \<Longrightarrow> valid_gate h"
  using bounded_int_range
  by (auto simp: gate_init_def ok_iffs clean_facts valid_gate_def bounded_int_def last_n_def split: if_splits)

lemma gate_init_again: "valid_gate g \<Longrightarrow> gate_init g = Inr g"
  by (auto simp: gate_init_def valid_gate_def clean_text_def bounded_int_def last_n_def)

lemma init_all_valid: "init_all gate_init gs = Inr hs \<Longrightarrow> list_all valid_gate hs \<and> length hs = length gs"
  by (induction gs arbitrary: hs) (auto simp: ok_iffs gate_init_valid)

lemma init_all_again: "list_all valid_gate gs \<Longrightarrow> init_all gate_init gs = Inr gs"
  by (induction gs) (auto simp: gate_init_again)

section \<open>Validating twice\<close>

text \<open>The texts that are truncated after stripping may end in a blank and lose it the next time.\<close>

definition retrim :: "goal_state \<Rightarrow> goal_state" where
  "retrim g = g\<lparr>g_last_verdict := clean_optional MAX_REASON_CHARS (g_last_verdict g),
     g_last_reason := clean_optional MAX_REASON_CHARS (g_last_reason g),
     g_paused_reason := clean_optional MAX_REASON_CHARS (g_paused_reason g),
     g_waiting_on_session := clean_optional 1000 (g_waiting_on_session g),
     g_waiting_reason := clean_optional MAX_REASON_CHARS (g_waiting_reason g)\<rparr>"

definition hex_ok :: "goal_db \<Rightarrow> bool" where
  "hex_ok db \<longleftrightarrow> strip (goal_hex db) = goal_hex db \<and> goal_hex db \<noteq> ''''"

lemma strip_take: "strip v = v \<Longrightarrow> v \<noteq> '''' \<Longrightarrow> 0 < n \<Longrightarrow> strip (take n v) \<noteq> ''''"
proof
  assume v: "strip v = v" "v \<noteq> ''''" "0 < n" and e: "strip (take n v) = ''''"
  then have h: "\<not> py_space (hd v)" using strip_ends [of v] by simp
  from v have "take n v = hd v # take (n - 1) (tl v)" by (cases v; cases n) simp_all
  with h have "lstrip (take n v) = hd v # take (n - 1) (tl v)" by (simp add: lstrip_def)
  with e have "rstrip (hd v # take (n - 1) (tl v)) = []" by (simp add: strip_def)
  with h show False by (simp add: rstrip_def dropWhile_append split: if_splits)
qed

lemma clean_optional_truthy: "0 < n \<Longrightarrow> truthy (clean_optional n (clean_optional n v)) = truthy (clean_optional n v)"
proof (cases v)
  case (Some s)
  assume n: "0 < n"
  show ?thesis
  proof (cases "strip s = ''''")
    case False
    with n strip_take [of "strip s" n] Some show ?thesis by (simp add: clean_optional_def or_none_def)
  qed (simp add: Some clean_optional_def)
qed (simp add: clean_optional_def)

lemma retrim_fields [simp]:
  "g_session_key (retrim g) = g_session_key g" "g_goal (retrim g) = g_goal g" "g_status (retrim g) = g_status g"
  "g_goal_id (retrim g) = g_goal_id g" "g_revision (retrim g) = g_revision g" "g_turns_used (retrim g) = g_turns_used g"
  "g_max_turns (retrim g) = g_max_turns g" "g_gates (retrim g) = g_gates g" "g_contract (retrim g) = g_contract g"
  "g_subgoals (retrim g) = g_subgoals g" "g_conversation_epoch (retrim g) = g_conversation_epoch g"
  "g_consecutive_parse_failures (retrim g) = g_consecutive_parse_failures g"
  "g_consecutive_transport_failures (retrim g) = g_consecutive_transport_failures g"
  "g_consecutive_compaction_failures (retrim g) = g_consecutive_compaction_failures g"
  "is_active (retrim g) = is_active g"
  by (simp_all add: retrim_def is_active_def)

lemma if_Inl_iff: "(if b then Inl e else m) = Inr y \<longleftrightarrow> \<not> b \<and> m = Inr y"
  by simp

lemma post_init_elim:
  assumes "post_init f g = Inr h"
  obtains key goal run failed made sg where "h = normalised f key goal run failed made sg g"
    "key = strip (g_session_key g)" "key \<noteq> ''''" "length key \<le> 1000"
    "goal = strip (g_goal g)" "length goal \<le> MAX_GOAL_TEXT" "g_status g \<noteq> G_cleared \<longrightarrow> goal \<noteq> ''''"
    "clean_id 512 ''last_run_id'' (g_last_run_id g) = Inr run"
    "clean_id 512 ''lastFailedRunId'' (g_last_failed_run_id g) = Inr failed"
    "clean_id 512 ''createdByRunId'' (g_created_by_run_id g) = Inr made"
    "clean_unique_strings MAX_SUBGOAL_CHARS MAX_SUBGOALS ''subgoal'' (g_subgoals g) = Inr sg"
    "length (g_gates g) \<le> MAX_GATES" "wait_targets h \<le> 1"
  using assms unfolding post_init_def Let_def on_ok_Inr_iff if_Inl_iff clean_text_Inr not_less sum.inject de_Morgan_conj not_not
  by (elim exE conjE) (rule that, (assumption | blast)+)

lemma reload_elim:
  assumes "reload f g = Inr h"
  obtains k gs key goal run failed made sg where "h = normalised f key goal run failed made sg (g\<lparr>g_contract := k, g_gates := gs\<rparr>)"
    "contract_init (g_contract g) = Inr k" "init_all gate_init (g_gates g) = Inr gs"
    "key = strip (g_session_key g)" "key \<noteq> ''''" "length key \<le> 1000"
    "goal = strip (g_goal g)" "length goal \<le> MAX_GOAL_TEXT" "g_status g \<noteq> G_cleared \<longrightarrow> goal \<noteq> ''''"
    "clean_id 512 ''last_run_id'' (g_last_run_id g) = Inr run"
    "clean_id 512 ''lastFailedRunId'' (g_last_failed_run_id g) = Inr failed"
    "clean_id 512 ''createdByRunId'' (g_created_by_run_id g) = Inr made"
    "clean_unique_strings MAX_SUBGOAL_CHARS MAX_SUBGOALS ''subgoal'' (g_subgoals g) = Inr sg"
    "length gs \<le> MAX_GATES" "wait_targets h \<le> 1"
proof -
  from assms obtain k gs where k: "contract_init (g_contract g) = Inr k" "init_all gate_init (g_gates g) = Inr gs"
    and p: "post_init f (g\<lparr>g_contract := k, g_gates := gs\<rparr>) = Inr h" by (auto simp only: reload_def on_ok_Inr_iff)
  from p show ?thesis by (rule post_init_elim) (rule that, (simp only: k | simp)+)
qed

lemma reload_Inr:
  assumes "reload f g = Inr h"
  shows "g_session_key h = strip (g_session_key g)" "g_goal h = strip (g_goal g)" "g_status h = g_status g"
    "g_goal_id h = (if strip (g_goal_id g) = '''' then f else strip (g_goal_id g))"
    "g_revision h = bounded_int 0 (2 ^ 63 - 1) (g_revision g)" "g_turns_used h = bounded_int 0 1000000 (g_turns_used g)"
    "g_max_turns h = bounded_int 1 10000 (g_max_turns g)" "length (g_gates h) = length (g_gates g)"
    "g_consecutive_parse_failures h = bounded_int 0 1000000 (g_consecutive_parse_failures g)"
    "g_consecutive_transport_failures h = bounded_int 0 1000000 (g_consecutive_transport_failures g)"
    "g_consecutive_compaction_failures h = bounded_int 0 1000000 (g_consecutive_compaction_failures g)"
    "init_all gate_init (g_gates g) = Inr (g_gates h)" "contract_init (g_contract g) = Inr (g_contract h)"
  using assms by (rule reload_elim, simp add: normalised_def init_all_valid)+

lemma text_within_id: "clean_id n f v = Inr t \<Longrightarrow> text_within n t"
  by (auto simp: clean_facts text_within_def or_none_def)

lemma text_within_optional: "text_within n (clean_optional n v)"
  by (simp add: text_within_def clean_optional_def or_none_def split: option.splits)

lemma normalised_numbers: "valid_numbers (normalised f key goal run failed made sg g)"
proof -
  have "\<And>v. bounded_int 0 (2 ^ 63 - 1) v < 2 ^ 63" by (simp add: bounded_int_def)
  then show ?thesis by (auto simp: valid_numbers_def normalised_def bounded_int_range bounded_float_def positive_pid_def
      bounded_int_def [of 1 1] split: option.splits if_splits)
qed

lemma normalised_texts:
  assumes "strip key = key" "length key \<le> 1000" "strip goal = goal" "\<forall>a \<in> set sg. strip a = a \<and> a \<noteq> '''' \<and> length a \<le> MAX_SUBGOAL_CHARS"
    "list_all (text_within 512) [run, failed, made]"
  shows "valid_texts (normalised f key goal run failed made sg g)"
  using assms by (simp add: valid_texts_def normalised_def text_within_optional)

lemma valid_reload: "reload f g = Inr h \<Longrightarrow> valid_goal h"
proof (erule reload_elim)
  fix k gs key goal run failed made sg
  assume h: "h = normalised f key goal run failed made sg (g\<lparr>g_contract := k, g_gates := gs\<rparr>)"
    and k: "contract_init (g_contract g) = Inr k" "init_all gate_init (g_gates g) = Inr gs"
    and sg: "clean_unique_strings MAX_SUBGOAL_CHARS MAX_SUBGOALS ''subgoal'' (g_subgoals g) = Inr sg"
    and key: "key = strip (g_session_key g)" "length key \<le> 1000" "goal = strip (g_goal g)"
    and run: "clean_id 512 ''last_run_id'' (g_last_run_id g) = Inr run"
      "clean_id 512 ''lastFailedRunId'' (g_last_failed_run_id g) = Inr failed"
      "clean_id 512 ''createdByRunId'' (g_created_by_run_id g) = Inr made"
    and rest: "key \<noteq> ''''" "length goal \<le> MAX_GOAL_TEXT" "g_status g \<noteq> G_cleared \<longrightarrow> goal \<noteq> ''''" "length gs \<le> MAX_GATES" "wait_targets h \<le> 1"
  from clean_unique_Inr [OF sg [unfolded clean_unique_strings_def]]
  have sub: "length sg \<le> MAX_SUBGOALS \<and> distinct (map casefold sg)"
    "\<forall>a \<in> set sg. strip a = a \<and> a \<noteq> '''' \<and> length a \<le> MAX_SUBGOAL_CHARS" by simp_all
  have "valid_texts h" unfolding h using key run [THEN text_within_id] sub(2) by (intro normalised_texts) simp_all
  moreover have "valid_numbers h" unfolding h by (rule normalised_numbers)
  moreover note sub(1)
  moreover have "g_session_key h = key" "g_goal h = goal" "g_status h = g_status g" "g_subgoals h = sg" "g_gates h = gs"
    "g_contract h = k" by (simp_all add: h normalised_def)
  moreover have "0 \<le> g_revision h \<and> g_revision h \<le> 2 ^ 63 - 1" "0 \<le> g_turns_used h \<and> g_turns_used h \<le> 1000000"
    "1 \<le> g_max_turns h \<and> g_max_turns h \<le> 10000"
    "0 \<le> g_consecutive_compaction_failures h \<and> g_consecutive_compaction_failures h \<le> 1000000"
    unfolding h normalised_def goal_state.select_convs by (rule bounded_int_range, simp)+
  ultimately show "valid_goal h"
    using contract_init_valid [OF k(1)] init_all_valid [OF k(2)] rest
    unfolding valid_goal_def by (simp only: simp_thms) linarith
qed

text \<open>A record that was read once validates again, unchanged but for blanks.\<close>

lemma wait_targets_retrim:
  assumes "h = normalised f key goal run failed made sg g"
  shows "wait_targets (retrim h) = wait_targets h" "has_wait (retrim h) = has_wait h" "pid_set (retrim h) = pid_set h"
  using clean_optional_truthy [of 1000 "g_waiting_on_session g"]
  by (simp_all add: assms wait_targets_def has_wait_def retrim_def normalised_def pid_set_def)

lemma reload_again:
  assumes r: "reload f g = Inr h" and f: "strip f = f" "f \<noteq> ''''"
  shows "reload f h = Inr (retrim h)" "has_wait (retrim h) = has_wait h"
proof -
  from r obtain k gs key goal run failed made sg where
    h: "h = normalised f key goal run failed made sg (g\<lparr>g_contract := k, g_gates := gs\<rparr>)"
    and k: "contract_init (g_contract g) = Inr k" "init_all gate_init (g_gates g) = Inr gs"
    and key: "key = strip (g_session_key g)" "key \<noteq> ''''" "length key \<le> 1000"
    and goal: "goal = strip (g_goal g)" "length goal \<le> MAX_GOAL_TEXT" "g_status g \<noteq> G_cleared \<longrightarrow> goal \<noteq> ''''"
    and run: "clean_id 512 ''last_run_id'' (g_last_run_id g) = Inr run"
      "clean_id 512 ''lastFailedRunId'' (g_last_failed_run_id g) = Inr failed"
      "clean_id 512 ''createdByRunId'' (g_created_by_run_id g) = Inr made"
    and sg: "clean_unique_strings MAX_SUBGOAL_CHARS MAX_SUBGOALS ''subgoal'' (g_subgoals g) = Inr sg"
    and gs: "length gs \<le> MAX_GATES" and w: "wait_targets h \<le> 1"
    by (rule reload_elim)
  note wt = wait_targets_retrim [OF h]
  show "has_wait (retrim h) = has_wait h" by (rule wt(2))
  have sg2: "clean_unique_strings MAX_SUBGOAL_CHARS MAX_SUBGOALS ''subgoal'' sg = Inr sg"
    using clean_unique_Inr [OF sg [unfolded clean_unique_strings_def]] clean_unique_again [of "[]" sg]
    by (simp add: clean_unique_strings_def)
  have texts: "clean_text 1000 ''session_key'' key = Inr key" "clean_text MAX_GOAL_TEXT ''goal'' goal = Inr goal"
    using key goal by (simp_all add: clean_text_Inr)
  have v: "contract_init k = Inr k" "init_all gate_init gs = Inr gs"
    using contract_init_valid [OF k(1)] init_all_valid [OF k(2)] by (simp_all add: contract_init_again init_all_again)
  have n: "normalised f key goal run failed made sg h = retrim h"
    using f by (simp add: h normalised_def retrim_def)
  have fields: "g_contract h = k" "g_gates h = gs" "g_session_key h = key" "g_goal h = goal" "g_status h = g_status g"
    "g_last_run_id h = run" "g_last_failed_run_id h = failed" "g_created_by_run_id h = made" "g_subgoals h = sg"
    by (simp_all add: h normalised_def)
  have same: "h\<lparr>g_contract := k, g_gates := gs\<rparr> = h" using fields by (cases h) simp
  show "reload f h = Inr (retrim h)"
    unfolding reload_def fields v on_ok.simps same post_init_def texts clean_id_again [OF run(1)] clean_id_again [OF run(2)]
      clean_id_again [OF run(3)] sg2 n Let_def wt(1)
    using key(2) goal(3) gs w by auto
qed

section \<open>Reading\<close>

lemma read_goal_Some:
  assumes "read_goal db k = Inr (Some g)"
  obtains raw where "goal_files db k = Some raw" "reload (goal_hex db) raw = Inr g" "g_session_key g = k" "strip k = k"
proof -
  from assms obtain raw where raw: "goal_files db k = Some raw" "reload (goal_hex db) raw = Inr g" "g_session_key g = k"
    by (auto simp: read_goal_def split: option.splits sum.splits if_splits)
  with reload_Inr(1) [OF raw(2)] have "strip k = k" by (metis strip_strip)
  with raw show ?thesis by (rule that)
qed

lemma read_goal_valid: "read_goal db k = Inr (Some g) \<Longrightarrow> valid_goal g"
  by (erule read_goal_Some) (rule valid_reload)

lemma get_goal_read:
  assumes "hex_ok db" "read_goal db k = Inr cur"
  shows "get_goal k db = (db, Inr (map_option retrim cur))"
proof (cases cur)
  case (Some g)
  with assms(2) have "read_goal db k = Inr (Some g)" by simp
  then obtain raw where "reload (goal_hex db) raw = Inr g" by (rule read_goal_Some)
  from reload_again(1) [OF this] assms Some show ?thesis by (simp add: get_goal_def clone_opt_def hex_ok_def)
qed (simp add: get_goal_def clone_opt_def assms(2))

lemma get_goal_db: "fst (get_goal k db) = db"
  by (simp add: get_goal_def)

lemma get_goal_Some:
  assumes "hex_ok db" "get_goal k db = (d, Inr (Some s))"
  obtains c where "d = db" "read_goal db k = Inr (Some c)" "s = retrim c" "reload (goal_hex db) c = Inr s"
    "has_wait s = has_wait c" "g_session_key s = k"
proof -
  from assms(2) have db: "d = db" and r: "on_ok (read_goal db k) (clone_opt (goal_hex db)) = Inr (Some s)" by (auto simp: get_goal_def)
  then obtain c where c: "read_goal db k = Inr (Some c)" by (auto simp: ok_iffs clone_opt_def split: option.splits)
  with get_goal_read [OF assms(1) c] assms(2) have s: "s = retrim c" by simp
  from c obtain raw where raw: "reload (goal_hex db) raw = Inr c" "g_session_key c = k" by (rule read_goal_Some)
  from reload_again [OF raw(1)] assms(1) s c db raw(2) show ?thesis by (intro that) (simp_all add: hex_ok_def)
qed

section \<open>Writing\<close>

text \<open>Validation fails with a \<open>ValueError\<close> only.\<close>

definition bad_value :: "goal_error \<Rightarrow> bool" where
  "bad_value e \<longleftrightarrow> (\<exists>t. e = Bad_value t)"

lemma on_ok_Inl_iff: "on_ok m f = Inl e \<longleftrightarrow> m = Inl e \<or> (\<exists>x. m = Inr x \<and> f x = Inl e)"
  by (cases m) auto

lemma if_Inl_Inl_iff: "(if b then Inl e else m) = Inl e' \<longleftrightarrow> (b \<and> e' = e) \<or> (\<not> b \<and> m = Inl e')"
  by auto

lemma if_Inl_Inr_iff: "(if b then Inl e else Inr x) = Inl e' \<longleftrightarrow> b \<and> e' = e"
  by auto

lemma bad_value_Bad [simp]: "bad_value (Bad_value t)"
  by (simp add: bad_value_def)

lemma clean_bad_value: "clean_text n f v = Inl e \<Longrightarrow> bad_value e" "clean_id n f w = Inl e \<Longrightarrow> bad_value e"
  by (auto simp: clean_text_def clean_id_def too_long_def bad_value_def Let_def on_ok_Inl_iff split: if_splits)

lemma clean_unique_bad_value: "clean_unique_from n m f acc vs = Inl e \<Longrightarrow> bad_value e"
proof (induction vs arbitrary: acc)
  case (Cons v vs)
  then show ?case
    by (simp only: clean_unique_from.simps on_ok_Inl_iff Let_def if_Inl_Inl_iff) (auto dest: clean_bad_value)
qed simp

lemma gate_bad_value: "gate_init g = Inl e \<Longrightarrow> bad_value e"
  by (auto simp: gate_init_def on_ok_Inl_iff bad_value_def dest: clean_bad_value [unfolded bad_value_def] split: if_splits)

lemma init_all_bad_value: "init_all gate_init gs = Inl e \<Longrightarrow> bad_value e"
  by (induction gs) (auto simp: on_ok_Inl_iff dest: gate_bad_value)

lemma post_init_bad_value: "post_init f g = Inl e \<Longrightarrow> bad_value e"
  unfolding post_init_def on_ok_Inl_iff if_Inl_Inl_iff if_Inl_Inr_iff Let_def clean_unique_strings_def
  by (elim exE conjE disjE) (simp_all only: bad_value_Bad clean_bad_value clean_unique_bad_value Inr_Inl_False sum.distinct)

lemma reload_bad_value: "reload f g = Inl e \<Longrightarrow> bad_value e"
  unfolding reload_def contract_init_def on_ok_Inl_iff
  by (auto dest: clean_bad_value init_all_bad_value post_init_bad_value)

lemma reload_no_conflict: "reload f g \<noteq> Inl (Conflict t)"
  using reload_bad_value [of f g "Conflict t"] by (auto simp: bad_value_def)

text \<open>The effect of a control on the conversation \<open>k\<close>: nothing, or one committed record.\<close>

definition goal_write :: "string \<Rightarrow> goal_db \<Rightarrow> goal_db \<Rightarrow> bool" where
  "goal_write k db d \<longleftrightarrow> d = db \<or> (\<exists>cur u. read_goal db k = Inr cur \<and> g_session_key u = k
     \<and> d = write_goal k (stamped db cur u) (archive_replaced cur (stamped db cur u) db))"

lemma goal_write_refl [simp]: "goal_write k db db"
  by (simp add: goal_write_def)

lemma fst_commit: "fst (commit k cur u db) = write_goal k (stamped db cur u) (archive_replaced cur (stamped db cur u) db)"
  by (simp add: commit_def Let_def)

lemma commit_write: "read_goal db k = Inr cur \<Longrightarrow> g_session_key u = k \<Longrightarrow> goal_write k db (fst (commit k cur u db))"
  unfolding goal_write_def fst_commit by blast

lemma update_with_write: "goal_write k db (fst (update_with k f eid erev db))"
  unfolding update_with_def by (simp add: case_prod_beta commit_write split: sum.split)

lemma update_goal_write: "goal_write k db (fst (update_goal k f eid erev db))"
  by (simp add: update_goal_def case_prod_beta update_with_write)

lemma cas_write: "goal_write (g_session_key s) db (fst (compare_and_update s f db))"
  by (simp add: compare_and_update_def update_goal_write)

lemma goal_write_frame:
  assumes "goal_write k db d"
  shows "goal_clock d = goal_clock db" "goal_hex d = goal_hex db" "k' \<noteq> k \<Longrightarrow> goal_files d k' = goal_files db k'"
  using assms by (auto simp: goal_write_def write_goal_def archive_replaced_def split: option.splits)

lemma read_frame:
  assumes "goal_write k db d" "k' \<noteq> k"
  shows "read_goal d k' = read_goal db k'" "get_goal k' d = (d, snd (get_goal k' db))"
proof -
  note f = goal_write_frame(2) [OF assms(1)] goal_write_frame(3) [OF assms]
  show r: "read_goal d k' = read_goal db k'" unfolding read_goal_def f ..
  show "get_goal k' d = (d, snd (get_goal k' db))" unfolding get_goal_def r f snd_conv ..
qed

section \<open>One update\<close>

lemma on_ok_unit [simp]: "on_ok (on_ok m (\<lambda>g. Inr (g, ()))) (\<lambda>p. Inr (fst p)) = m"
  by (cases m) simp_all

lemma update_goal_run:
  assumes "hex_ok db" "read_goal db k = Inr cur" "check_preconditions cur eid erev = Inr ()"
  shows "update_goal k f eid erev db = (case f (map_option retrim cur) of
      Inl e \<Rightarrow> (db, Inl e)
    | Inr u \<Rightarrow> if g_session_key u \<noteq> k then (db, Inl (Bad_value ''goal mutation changed session_key'')) else commit k cur u db)"
proof -
  have "on_ok (read_goal db k) (clone_opt (goal_hex db)) = Inr (map_option retrim cur)"
    using get_goal_read [OF assms(1,2)] by (simp add: get_goal_def)
  then have "clone_opt (goal_hex db) cur = Inr (map_option retrim cur)" by (simp add: assms(2))
  then show ?thesis
    by (simp add: update_goal_def update_with_def assms(2,3) case_prod_beta split: sum.split)
qed

lemma update_goal_refused:
  assumes "read_goal db k = Inr cur" "check_preconditions cur eid erev = Inl e"
  shows "update_goal k f eid erev db = (db, Inl e)"
  by (simp add: update_goal_def update_with_def assms)

section \<open>One optimistic write\<close>

text \<open>\<open>s\<close> names the generation and revision of \<open>c\<close>.\<close>

definition same_version :: "goal_state \<Rightarrow> goal_state \<Rightarrow> bool" where
  "same_version s c \<longleftrightarrow> g_goal_id s = g_goal_id c \<and> g_revision s = g_revision c"

lemma same_version_retrim [simp]: "same_version (retrim c) c" "same_version s (retrim c) = same_version s c"
  by (simp_all add: same_version_def)

lemma check_version:
  "check_preconditions (Some c) (Some (g_goal_id s)) (Some (g_revision s)) = Inr () \<longleftrightarrow> same_version s c"
  by (auto simp: check_preconditions_def same_version_def)

lemma cas_run:
  assumes "hex_ok db" "read_goal db k = Inr (Some c)" "same_version s c" "g_session_key s = k"
  shows "compare_and_update s f db = (case f (retrim c) of
      Inl e \<Rightarrow> (db, Inl e)
    | Inr u \<Rightarrow> if g_session_key u \<noteq> k then (db, Inl (Bad_value ''goal mutation changed session_key'')) else commit k (Some c) u db)"
  using assms(3,4) by (simp add: compare_and_update_def update_goal_run [OF assms(1,2)] check_version)

lemma cas_stale:
  assumes "read_goal db (g_session_key s) = Inr cur" "\<forall>c. cur = Some c \<longrightarrow> \<not> same_version s c"
  obtains t where "compare_and_update s f db = (db, Inl (Conflict t))"
proof -
  have "\<exists>t. check_preconditions cur (Some (g_goal_id s)) (Some (g_revision s)) = Inl (Conflict t)"
    using assms(2) by (cases cur) (auto simp: check_preconditions_def same_version_def)
  then obtain t where "check_preconditions cur (Some (g_goal_id s)) (Some (g_revision s)) = Inl (Conflict t)" ..
  then have "compare_and_update s f db = (db, Inl (Conflict t))"
    unfolding compare_and_update_def by (rule update_goal_refused [OF assms(1)])
  then show ?thesis by (rule that)
qed

lemma commit_result:
  assumes "commit k cur u db = (d, r)" "g_session_key u = k" "strip k = k"
  shows "goal_hex d = goal_hex db" "goal_files d k = Some (stamped db cur u)" "r = reload (goal_hex db) (stamped db cur u)"
    "r = Inr g \<Longrightarrow> read_goal d k = Inr (Some g)"
proof -
  from assms(1) have d: "d = write_goal k (stamped db cur u) (archive_replaced cur (stamped db cur u) db)"
    and r: "r = reload (goal_hex db) (stamped db cur u)" by (auto simp: commit_def Let_def)
  show h: "goal_hex d = goal_hex db" by (simp add: d write_goal_def archive_replaced_def split: option.split)
  show f: "goal_files d k = Some (stamped db cur u)" by (simp add: d write_goal_def)
  show "r = reload (goal_hex db) (stamped db cur u)" by (rule r)
  show "read_goal d k = Inr (Some g)" if "r = Inr g"
    using reload_Inr(1) [of "goal_hex db" "stamped db cur u" g] that assms(2,3) by (simp add: read_goal_def f h r stamped_def)
qed

text \<open>What a successful optimistic write says.\<close>

lemma cas_ok:
  assumes "hex_ok db" "compare_and_update s f db = (d, Inr g)"
  obtains c u where "read_goal db (g_session_key s) = Inr (Some c)" "same_version s c" "f (retrim c) = Inr u"
    "g_session_key u = g_session_key s" "reload (goal_hex db) (stamped db (Some c) u) = Inr g"
    "read_goal d (g_session_key s) = Inr (Some g)" "goal_hex d = goal_hex db" "hex_ok d" "g_session_key g = g_session_key s"
    "valid_goal c"
proof -
  let ?k = "g_session_key s"
  obtain cur where cur: "read_goal db ?k = Inr cur"
    using assms(2) by (cases "read_goal db ?k") (auto simp: compare_and_update_def update_goal_def update_with_def)
  obtain c where c: "read_goal db ?k = Inr (Some c)" "same_version s c"
    by (metis assms(2) cas_stale cur Inl_Inr_False snd_conv)
  from cas_run [OF assms(1) c(1,2) refl] assms(2) obtain u where u: "f (retrim c) = Inr u" "g_session_key u = ?k"
    "commit ?k (Some c) u db = (d, Inr g)" by (auto split: sum.splits if_splits)
  from c(1) have "strip ?k = ?k" by (rule read_goal_Some)
  from commit_result [OF u(3,2) this] have r: "goal_hex d = goal_hex db" "reload (goal_hex db) (stamped db (Some c) u) = Inr g"
    "read_goal d ?k = Inr (Some g)" by simp_all
  from r(3) have "g_session_key g = ?k" by (rule read_goal_Some)
  with c u r assms(1) read_goal_valid [OF c(1)] show ?thesis by (intro that) (simp_all add: hex_ok_def)
qed

lemma cas_conflict:
  assumes "hex_ok db" "compare_and_update s f db = (d, Inl (Conflict t))"
  shows "d = db"
proof (cases "read_goal db (g_session_key s)")
  case (Inr cur)
  show ?thesis
  proof (cases "\<forall>c. cur = Some c \<longrightarrow> \<not> same_version s c")
    case True
    with Inr obtain t' where "compare_and_update s f db = (db, Inl (Conflict t'))" by (rule cas_stale)
    with assms(2) show ?thesis by simp
  next
    case False
    with Inr obtain c where c: "read_goal db (g_session_key s) = Inr (Some c)" "same_version s c" by auto
    from cas_run [OF assms(1) c refl] assms(2) reload_no_conflict show ?thesis
      by (auto simp: commit_def Let_def split: sum.splits if_splits)
  qed
qed (use assms(2) in \<open>simp add: compare_and_update_def update_goal_def update_with_def\<close>)

end
