(* ===== verification/Goal_Manager.thy ===== *)
theory Goal_Manager
  imports Goal_Store
begin

text \<open>
  The controls of a standing goal (\<open>goals/manager.py\<close>, \<open>goals/provenance.py\<close>): setting, pausing,
  resuming and clearing it, its contract, criteria and quality gates, and its wait barrier. Each
  control is one mutation committed by \<open>update\<close> of the store.
\<close>

section \<open>Limits and provenance\<close>

definition MAX_PARSE_FAILURES :: int where "MAX_PARSE_FAILURES = 3"
definition MAX_TRANSPORT_FAILURES :: int where "MAX_TRANSPORT_FAILURES = 5"
definition MAX_COMPACTION_FAILURES :: int where "MAX_COMPACTION_FAILURES = 2"

definition GOAL_CONTINUATION_MARKER :: string where
  "GOAL_CONTINUATION_MARKER = ''[Continuing toward the explicitly set standing goal]''"

record turn_scope =
  ts_session_key :: string
  ts_run_id :: string
  ts_active :: bool

definition creating_run_id :: "turn_scope option \<Rightarrow> string \<Rightarrow> string option" where
  "creating_run_id turn k = (case turn of
      None \<Rightarrow> None
    | Some t \<Rightarrow> if ts_active t \<and> ts_session_key t = k then or_none (ts_run_id t) else None)"

section \<open>Guards\<close>

definition require_goal :: "goal_state option \<Rightarrow> goal_error + goal_state" where
  "require_goal g = (case g of None \<Rightarrow> Inl (Goal_not_found ''no goal is set'') | Some s \<Rightarrow> Inr s)"

definition require_live_goal :: "goal_state option \<Rightarrow> goal_error + goal_state" where
  "require_live_goal g = on_ok (require_goal g) (\<lambda>s.
     if g_status s = G_cleared then Inl (Goal_not_found ''no goal is set'') else Inr s)"

definition require_active_goal :: "goal_state option \<Rightarrow> goal_error + goal_state" where
  "require_active_goal g = on_ok (require_live_goal g) (\<lambda>s. if is_active s then Inr s else Inl Not_active)"

section \<open>Lifecycle\<close>

definition default_turns :: "int \<Rightarrow> int" where
  "default_turns configured = max 1 (min 10000 configured)"

definition set_goal ::
    "turn_scope option \<Rightarrow> int \<Rightarrow> string \<Rightarrow> string \<Rightarrow> int option \<Rightarrow> goal_contract option \<Rightarrow> int \<Rightarrow> goal_state goal_op" where
  "set_goal turn configured k goal max_turns contract epoch db =
     update_goal k (\<lambda>_. new_goal (goal_clock db) (goal_hex db) k goal
       (case max_turns of Some n \<Rightarrow> if n = 0 then default_turns configured else n | None \<Rightarrow> default_turns configured)
       (case contract of None \<Rightarrow> empty_contract | Some c \<Rightarrow> c) epoch (creating_run_id turn k)) None None db"

definition pause_goal :: "string \<Rightarrow> goal_state \<Rightarrow> goal_state" where
  "pause_goal reason g = clear_wait (g\<lparr>g_status := G_paused, g_paused_reason := Some reason\<rparr>)"

definition pause :: "string \<Rightarrow> string \<Rightarrow> string option \<Rightarrow> int option \<Rightarrow> goal_state goal_op" where
  "pause k reason eid erev = update_goal k (\<lambda>c. on_ok (require_goal c) (\<lambda>s.
     if g_status s = G_cleared then Inl (Goal_not_found ''no goal to pause'')
     else Inr (clear_wait (s\<lparr>g_status := G_paused, g_paused_reason := Some reason\<rparr>)))) eid erev"

definition resume :: "string \<Rightarrow> string option \<Rightarrow> int option \<Rightarrow> goal_state goal_op" where
  "resume k eid erev = update_goal k (\<lambda>c. on_ok (require_goal c) (\<lambda>s.
     if g_status s = G_cleared then Inl (Goal_not_found ''no goal to resume'')
     else Inr (clear_wait (s\<lparr>g_status := G_active, g_turns_used := 0, g_paused_reason := None,
       g_consecutive_parse_failures := 0, g_consecutive_transport_failures := 0,
       g_consecutive_compaction_failures := 0\<rparr>)))) eid erev"

text \<open>A goal the judge parked until the user replies.\<close>

definition awaits_input :: "goal_state \<Rightarrow> bool" where
  "awaits_input g \<longleftrightarrow> g_status g = G_paused \<and> g_last_verdict g = Some (verdict_text V_needs_input)"

definition unpark :: "goal_state \<Rightarrow> goal_error + goal_state" where
  "unpark g = (if \<not> awaits_input g then Inl (Conflict ''goal is no longer waiting for user input'')
     else Inr (g\<lparr>g_status := G_active, g_paused_reason := None\<rparr>))"

definition resume_for_user_input :: "string \<Rightarrow> goal_state option goal_op" where
  "resume_for_user_input k = and_then (get_goal k) (\<lambda>snapshot.
     case snapshot of
       None \<Rightarrow> give None
     | Some s \<Rightarrow> if \<not> awaits_input s then give snapshot
         else on_conflict (and_then (compare_and_update s unpark) (\<lambda>g. give (Some g))) (get_goal k))"

definition cleared_goal :: "int option \<Rightarrow> goal_state \<Rightarrow> goal_state" where
  "cleared_goal epoch s =
     (let c = clear_wait (s\<lparr>g_status := G_cleared, g_goal := '''', g_subgoals := [], g_gates := [], g_contract := empty_contract,
        g_last_verdict := Some (verdict_text V_inactive), g_last_reason := Some ''goal cleared'', g_paused_reason := None,
        g_consecutive_parse_failures := 0, g_consecutive_transport_failures := 0, g_consecutive_compaction_failures := 0\<rparr>)
      in case epoch of None \<Rightarrow> c | Some n \<Rightarrow> c\<lparr>g_conversation_epoch := max 0 n\<rparr>)"

definition clear_goal :: "string \<Rightarrow> int option \<Rightarrow> string option \<Rightarrow> int option \<Rightarrow> goal_state option goal_op" where
  "clear_goal k epoch eid erev = and_then (get_goal k) (\<lambda>current.
     if current = None \<and> eid = None \<and> erev = None then give None
     else and_then (update_goal k (\<lambda>c. on_ok (require_goal c) (\<lambda>s. Inr (cleared_goal epoch s))) eid erev) (\<lambda>g. give (Some g)))"

definition is_generation_active :: "string \<Rightarrow> string \<Rightarrow> bool goal_op" where
  "is_generation_active k goal_id = and_then (get_goal k) (\<lambda>st.
     give (case st of None \<Rightarrow> False | Some s \<Rightarrow> is_active s \<and> g_goal_id s = goal_id))"

section \<open>Prompts\<close>

definition numbered :: "string list \<Rightarrow> string" where
  "numbered xs = join nl (map (\<lambda>(i, c). show_nat (i + 1) @ ''. '' @ c) (enumerate 0 xs))"

definition continuation_prompt :: "goal_state \<Rightarrow> string" where
  "continuation_prompt g = join (nl @ nl)
     ([GOAL_CONTINUATION_MARKER, ''Goal: '' @ g_goal g]
      @ (if contract_is_empty (g_contract g) then [] else [''Completion contract:'' @ nl @ contract_render (g_contract g)])
      @ (if g_subgoals g = [] then [] else [''Additional criteria:'' @ nl @ numbered (g_subgoals g)])
      @ [''Continue with the next concrete step. Stay within the constraints and '' @
         ''verify completion with concrete evidence before claiming success. If '' @
         ''progress requires user input, explain exactly what is needed without '' @
         ''discarding the standing goal.''])"

section \<open>Contract, criteria, gates\<close>

definition attach_contract :: "string \<Rightarrow> string \<Rightarrow> goal_contract option \<Rightarrow> goal_state option goal_op" where
  "attach_contract k goal_id contract db =
     (case contract of
        None \<Rightarrow> (db, Inr None)
      | Some con \<Rightarrow> if contract_is_empty con then (db, Inr None)
          else case update_goal k (\<lambda>c. on_ok (require_live_goal c) (\<lambda>s.
              if g_goal_id s \<noteq> goal_id \<or> \<not> contract_is_empty (g_contract s) then Inl Superseded
              else Inr (s\<lparr>g_contract := con\<rparr>))) None None db of
            (d, Inl e) \<Rightarrow> (d, Inr None)
          | (d, Inr g) \<Rightarrow> (d, Inr (Some g)))"

definition add_subgoal :: "string \<Rightarrow> string \<Rightarrow> goal_state goal_op" where
  "add_subgoal k criterion db =
     update_goal k (\<lambda>c. on_ok (require_live_goal c) (\<lambda>s.
       if MAX_SUBGOALS \<le> length (g_subgoals s)
       then Inl (Bad_value (''a goal may have at most '' @ show_nat MAX_SUBGOALS @ '' subgoals''))
       else on_ok (reload (goal_hex db) (s\<lparr>g_subgoals := g_subgoals s @ [criterion]\<rparr>)) (\<lambda>probe.
         Inr (s\<lparr>g_subgoals := g_subgoals probe\<rparr>)))) None None db"

text \<open>\<open>pop(index)\<close> of a list, for an index in range.\<close>

definition without :: "nat \<Rightarrow> 'a list \<Rightarrow> 'a list" where
  "without i xs = take i xs @ drop (Suc i) xs"

definition bad_index :: "string \<Rightarrow> nat \<Rightarrow> goal_error" where
  "bad_index what n = Bad_index (what @ '' index out of range (1..'' @ show_nat n @ '')'')"

definition remove_subgoal :: "string \<Rightarrow> int \<Rightarrow> (goal_state \<times> string) goal_op" where
  "remove_subgoal k index_1based = update_with k (\<lambda>c. on_ok (require_live_goal c) (\<lambda>s.
     let i = index_1based - 1 in
     if i < 0 \<or> int (length (g_subgoals s)) \<le> i then Inl (bad_index ''subgoal'' (length (g_subgoals s)))
     else Inr (s\<lparr>g_subgoals := without (nat i) (g_subgoals s)\<rparr>, g_subgoals s ! nat i))) None None"

definition clear_subgoals :: "string \<Rightarrow> (goal_state \<times> nat) goal_op" where
  "clear_subgoals k = update_with k (\<lambda>c. on_ok (require_live_goal c) (\<lambda>s.
     Inr (s\<lparr>g_subgoals := []\<rparr>, length (g_subgoals s)))) None None"

definition add_gate :: "string \<Rightarrow> string \<Rightarrow> int \<Rightarrow> int \<Rightarrow> goal_state goal_op" where
  "add_gate k command timeout_seconds max_retries db =
     (case new_gate command timeout_seconds max_retries of
        Inl e \<Rightarrow> (db, Inl e)
      | Inr gate \<Rightarrow> update_goal k (\<lambda>c. on_ok (require_live_goal c) (\<lambda>s.
          if MAX_GATES \<le> length (g_gates s)
          then Inl (Bad_value (''a goal may have at most '' @ show_nat MAX_GATES @ '' gates''))
          else Inr (s\<lparr>g_gates := g_gates s @ [gate]\<rparr>))) None None db)"

definition remove_gate :: "string \<Rightarrow> int \<Rightarrow> (goal_state \<times> string) goal_op" where
  "remove_gate k index_1based = update_with k (\<lambda>c. on_ok (require_live_goal c) (\<lambda>s.
     let i = index_1based - 1 in
     if i < 0 \<or> int (length (g_gates s)) \<le> i then Inl (bad_index ''gate'' (length (g_gates s)))
     else Inr (s\<lparr>g_gates := without (nat i) (g_gates s)\<rparr>, gt_command (g_gates s ! nat i)))) None None"

definition clear_gates :: "string \<Rightarrow> (goal_state \<times> nat) goal_op" where
  "clear_gates k = update_with k (\<lambda>c. on_ok (require_live_goal c) (\<lambda>s.
     Inr (s\<lparr>g_gates := []\<rparr>, length (g_gates s)))) None None"

section \<open>Waiting\<close>

definition wait_on :: "string \<Rightarrow> wait_target \<Rightarrow> string \<Rightarrow> goal_state goal_op" where
  "wait_on k target reason db =
     update_goal k (\<lambda>c. on_ok (require_active_goal c) (set_wait (goal_clock db) target reason)) None None db"

definition wait_on_pid :: "string \<Rightarrow> int \<Rightarrow> string \<Rightarrow> goal_state goal_op" where
  "wait_on_pid k pid reason = wait_on k (Wait_pid pid) reason"

definition wait_on_session :: "string \<Rightarrow> string \<Rightarrow> string \<Rightarrow> goal_state goal_op" where
  "wait_on_session k process_session reason = wait_on k (Wait_session process_session) reason"

definition wait_for_seconds :: "string \<Rightarrow> int \<Rightarrow> string \<Rightarrow> goal_state goal_op" where
  "wait_for_seconds k seconds reason db =
     (if seconds \<le> 0 \<or> 7 * 24 * 60 * 60 < seconds
      then (db, Inl (Bad_value ''wait duration is outside the supported range''))
      else wait_on k (Wait_time (goal_clock db + of_int seconds)) reason db)"

definition stop_waiting :: "string \<Rightarrow> (goal_state \<times> bool) goal_op" where
  "stop_waiting k = update_with k (\<lambda>c. on_ok (require_live_goal c) (\<lambda>s. Inr (clear_wait s, has_wait s))) None None"

definition still_waiting :: "(int \<Rightarrow> bool) \<Rightarrow> (string \<Rightarrow> bool) \<Rightarrow> real \<Rightarrow> goal_state \<Rightarrow> bool" where
  "still_waiting alive busy now g =
     (if pid_set g then alive (the (g_waiting_on_pid g))
      else if truthy (g_waiting_on_session g) then busy (the (g_waiting_on_session g))
      else now < g_waiting_until g)"

definition waiting_state :: "(int \<Rightarrow> bool) \<Rightarrow> (string \<Rightarrow> bool) \<Rightarrow> string \<Rightarrow> goal_state option goal_op" where
  "waiting_state alive busy k = and_then (get_goal k) (\<lambda>st.
     case st of
       None \<Rightarrow> give None
     | Some s \<Rightarrow> if \<not> is_active s \<or> \<not> has_wait s then give None
         else (\<lambda>db. if still_waiting alive busy (goal_clock db) s then (db, Inr (Some s))
           else on_conflict (and_then (compare_and_update s (\<lambda>c. Inr (clear_wait c))) (\<lambda>g. give (Some g))) (get_goal k) db))"

end
