(* ===== verification/Goal_Judge.thy ===== *)
theory Goal_Judge
  imports Goal_Models
begin

text \<open>
  The verdict of the completion judge (\<open>goals/judge.py\<close>) and the outcome of a quality gate
  (\<open>goals/gates.py\<close>). A judge's reply arrives as the JSON object found in it; \<open>repr\<close> stands for
  Python's \<open>str\<close> of numbers, lists and objects. A gate is run in a workspace, which reports its
  fingerprint and how the command ended.
\<close>

section \<open>Values of a reply\<close>

definition json_get :: "(string \<times> json) list \<Rightarrow> string \<Rightarrow> json" where
  "json_get data key = (case map_of data key of None \<Rightarrow> JNull | Some v \<Rightarrow> v)"

fun falsy :: "json \<Rightarrow> bool" where
  "falsy JNull = True"
| "falsy (JBool b) = (\<not> b)"
| "falsy (JInt i) = (i = 0)"
| "falsy (JReal r) = (r = 0)"
| "falsy (JStr s) = (s = '''')"
| "falsy (JArr xs) = (xs = [])"
| "falsy (JObj xs) = (xs = [])"

text \<open>\<open>str(value or "")\<close>.\<close>

definition text_or_empty :: "(json \<Rightarrow> string) \<Rightarrow> json \<Rightarrow> string" where
  "text_or_empty repr v = (if falsy v then ''''
     else case v of JStr s \<Rightarrow> s | JBool b \<Rightarrow> ''True'' | _ \<Rightarrow> repr v)"

text \<open>\<open>int(value)\<close>, \<open>None\<close> where it raises.\<close>

fun int_of_json :: "json \<Rightarrow> int option" where
  "int_of_json (JInt i) = Some i"
| "int_of_json (JBool b) = Some (if b then 1 else 0)"
| "int_of_json (JReal r) = Some (if r < 0 then \<lceil>r\<rceil> else \<lfloor>r\<rfloor>)"
| "int_of_json (JStr s) = int_of_text s"
| "int_of_json _ = None"

section \<open>Verdicts\<close>

record judge_result =
  jr_verdict :: goal_verdict
  jr_reason :: string
  jr_wait :: "wait_target option"

definition all_verdicts :: "goal_verdict list" where
  "all_verdicts = [V_done, V_continue, V_needs_input, V_wait, V_inactive, V_skipped, V_gate_failed, V_waiting]"

definition verdict_of :: "string \<Rightarrow> goal_verdict option" where
  "verdict_of t = find (\<lambda>v. verdict_text v = t) all_verdicts"

definition bad_verdict :: goal_error where
  "bad_verdict = Judge_parse ''judge verdict must be done, continue, needs_input, or wait''"

definition raw_verdict :: "(string \<times> json) list \<Rightarrow> json" where
  "raw_verdict data = (case (json_get data ''verdict'', json_get data ''done'') of
      (JNull, JBool b) \<Rightarrow> JStr (if b then ''done'' else ''continue'')
    | (v, _) \<Rightarrow> v)"

definition session_targets :: "(json \<Rightarrow> string) \<Rightarrow> json \<Rightarrow> wait_target list" where
  "session_targets repr v = (let t = strip (text_or_empty repr v) in if t = '''' then [] else [Wait_session (take 1000 t)])"

definition pid_targets :: "json \<Rightarrow> goal_error + wait_target list" where
  "pid_targets v = (if v = JNull then Inr [] else case int_of_json v of
      None \<Rightarrow> Inl (Judge_parse ''wait_on_pid must be a positive integer'')
    | Some p \<Rightarrow> if p \<le> 0 then Inl (Judge_parse ''wait_on_pid must be a positive integer'') else Inr [Wait_pid p])"

definition time_targets :: "json \<Rightarrow> goal_error + wait_target list" where
  "time_targets v = (if v = JNull then Inr [] else case int_of_json v of
      None \<Rightarrow> Inl (Judge_parse ''wait_for_seconds must be a positive integer'')
    | Some s \<Rightarrow> if s \<le> 0 \<or> 7 * 24 * 60 * 60 < s
        then Inl (Judge_parse ''wait_for_seconds is outside the supported range'') else Inr [Wait_time (of_int s)])"

definition parse_judge_result :: "(json \<Rightarrow> string) \<Rightarrow> (string \<times> json) list \<Rightarrow> goal_error + judge_result" where
  "parse_judge_result repr data =
     (case verdict_of (casefold (strip (text_or_empty repr (raw_verdict data)))) of
        None \<Rightarrow> Inl bad_verdict
      | Some v \<Rightarrow>
          if v \<notin> {V_done, V_continue, V_needs_input, V_wait} then Inl bad_verdict
          else let r = take MAX_REASON_CHARS (strip (text_or_empty repr (json_get data ''reason'')));
                   reason = (if r = '''' then ''judge returned '' @ verdict_text v else r)
          in if v \<noteq> V_wait then Inr \<lparr>jr_verdict = v, jr_reason = reason, jr_wait = None\<rparr>
             else on_ok (pid_targets (json_get data ''wait_on_pid'')) (\<lambda>ps.
                  on_ok (time_targets (json_get data ''wait_for_seconds'')) (\<lambda>ts.
                  case session_targets repr (json_get data ''wait_on_session'') @ ps @ ts of
                    [t] \<Rightarrow> Inr \<lparr>jr_verdict = v, jr_reason = reason, jr_wait = Some t\<rparr>
                  | _ \<Rightarrow> Inl (Judge_parse ''wait verdict must contain exactly one wait target''))))"

section \<open>Drafted contracts\<close>

definition META_CONTRACT_MARKERS :: "string list" where
  "META_CONTRACT_MARKERS = [''json object'', ''json completion'', ''completion contract'', ''string fields'',
     ''non-empty string'', ''trailing comma'', ''code block'', ''markdown'', ''closing brace'']"

definition is_meta_contract :: "goal_contract \<Rightarrow> bool" where
  "is_meta_contract k =
     (let t = str_lower (join '' '' [k_outcome k, k_verification k, k_constraints k, k_boundaries k, k_stop_when k])
      in 2 \<le> length (filter (\<lambda>m. contains m t) META_CONTRACT_MARKERS))"

section \<open>Quality gates\<close>

record gate_result =
  gr_passed :: bool
  gr_exit_code :: int
  gr_output_tail :: string
  gr_fingerprint :: string
  gr_skipped_unchanged :: bool

datatype gate_end = Exited int string | Timed_out string | Could_not_run string

record workspace =
  ws_cwd :: string
  ws_is_dir :: bool
  ws_fingerprint :: string
  ws_end :: gate_end

definition failed_gate :: "int \<Rightarrow> string \<Rightarrow> string \<Rightarrow> gate_result" where
  "failed_gate code tail fingerprint = \<lparr>gr_passed = False, gr_exit_code = code, gr_output_tail = tail,
     gr_fingerprint = fingerprint, gr_skipped_unchanged = False\<rparr>"

text \<open>\<open>GateRunner.run\<close>. The tail of an exited or timed-out command is what \<open>_read_tail\<close> returns.\<close>

definition run_gate :: "goal_gate \<Rightarrow> workspace \<Rightarrow> gate_result" where
  "run_gate g w =
     (if \<not> ws_is_dir w then failed_gate (- 1) (''[gate cwd does not exist: '' @ ws_cwd w @ '']'') ''''
      else if ws_fingerprint w \<noteq> '''' \<and> gt_last_exit_code g \<notin> {None, Some 0}
        \<and> gt_last_failed_fingerprint g = ws_fingerprint w
      then \<lparr>gr_passed = False, gr_exit_code = the (gt_last_exit_code g), gr_output_tail = gt_last_output_tail g,
            gr_fingerprint = ws_fingerprint w, gr_skipped_unchanged = True\<rparr>
      else case ws_end w of
        Timed_out tail \<Rightarrow> failed_gate (- 1)
          (last_n MAX_GATE_OUTPUT_CHARS (tail @ nl @ ''[gate timed out after '' @ show_int (gt_timeout_seconds g) @ ''s]''))
          (ws_fingerprint w)
      | Exited code tail \<Rightarrow> \<lparr>gr_passed = (code = 0), gr_exit_code = code, gr_output_tail = tail,
            gr_fingerprint = ws_fingerprint w, gr_skipped_unchanged = False\<rparr>
      | Could_not_run what \<Rightarrow> failed_gate (- 1) (last_n MAX_GATE_OUTPUT_CHARS (''[gate could not run: '' @ what @ '']'')) (ws_fingerprint w))"

end
