(* ===== verification/Goal_Evaluate.thy ===== *)
theory Goal_Evaluate
  imports Goal_Manager Goal_Judge
begin

text \<open>
  What happens to a standing goal after an agent turn (\<open>evaluate_after_turn\<close> of \<open>goals/manager.py\<close>):
  the early exits, the wait barrier, the quality gates and the judge, each followed by an optimistic
  write.

  The two \<open>await\<close>s are parameters: running a gate and asking the judge take the state of the store
  when they begin and return the one they end in, so that any other control may run meanwhile.
\<close>

section \<open>Decisions\<close>

record goal_decision =
  dc_status :: "goal_status option"
  dc_verdict :: goal_verdict
  dc_should_continue :: bool
  dc_continuation_prompt :: "string option"
  dc_reason :: string
  dc_message :: string
  dc_goal_id :: "string option"
  dc_revision :: "int option"

definition decision :: "goal_state option \<Rightarrow> goal_verdict \<Rightarrow> string option \<Rightarrow> string \<Rightarrow> string \<Rightarrow> goal_decision" where
  "decision g v prompt reason message =
     \<lparr>dc_status = map_option g_status g, dc_verdict = v, dc_should_continue = (prompt \<noteq> None),
      dc_continuation_prompt = prompt, dc_reason = reason, dc_message = message,
      dc_goal_id = map_option g_goal_id g, dc_revision = map_option g_revision g\<rparr>"

definition skipped :: "goal_state option \<Rightarrow> string \<Rightarrow> goal_decision" where
  "skipped g reason = decision g V_skipped None reason ''''"

text \<open>\<open>try: x = m except GoalStoreConflictError: return skipped(get(k))\<close>, then the rest.\<close>

definition or_skipped ::
    "string \<Rightarrow> string \<Rightarrow> 'a goal_op \<Rightarrow> ('a \<Rightarrow> goal_decision goal_op) \<Rightarrow> goal_decision goal_op" where
  "or_skipped k reason m rest db = (case m db of
      (d, Inl (Conflict t)) \<Rightarrow> and_then (get_goal k) (\<lambda>g. give (skipped g reason)) d
    | (d, Inl e) \<Rightarrow> (d, Inl e)
    | (d, Inr x) \<Rightarrow> rest x d)"

section \<open>Mutations after a turn\<close>

definition goal_inactive :: goal_error where
  "goal_inactive = Conflict ''goal is no longer active''"

definition consume_turn :: "real \<Rightarrow> string option \<Rightarrow> goal_state \<Rightarrow> goal_error + goal_state" where
  "consume_turn now run g = (if \<not> is_active g then Inl goal_inactive
     else Inr (g\<lparr>g_turns_used := g_turns_used g + 1, g_last_turn_at := now, g_last_run_id := run,
       g_consecutive_compaction_failures := 0\<rparr>))"

definition record_turn_failure :: "string \<Rightarrow> string option \<Rightarrow> goal_state \<Rightarrow> goal_error + goal_state" where
  "record_turn_failure reason run g = (if \<not> is_active g then Inl goal_inactive
     else Inr ((pause_goal reason g)\<lparr>g_last_verdict := Some (verdict_text V_needs_input), g_last_reason := Some reason,
       g_last_failed_run_id := run\<rparr>))"

definition record_compaction_failure :: "goal_state \<Rightarrow> goal_error + goal_state" where
  "record_compaction_failure g = (if \<not> is_active g then Inl goal_inactive
     else let n = g_consecutive_compaction_failures g + 1;
              h = g\<lparr>g_consecutive_compaction_failures := n, g_last_verdict := Some (verdict_text V_skipped),
                g_last_reason := Some ''context recovery failed''\<rparr>
     in Inr (if MAX_COMPACTION_FAILURES \<le> n
       then pause_goal ''context recovery failed twice; conversation history preserved'' h else h))"

definition budget_text :: "goal_state \<Rightarrow> string" where
  "budget_text g = ''turn budget exhausted ('' @ show_int (g_turns_used g) @ ''/'' @ show_int (g_max_turns g) @ '')''"

definition apply_judge_result :: "real \<Rightarrow> judge_result \<Rightarrow> bool \<Rightarrow> bool \<Rightarrow> goal_state \<Rightarrow> goal_error + goal_state" where
  "apply_judge_result now result parse_failed transport_failed g =
     (if \<not> is_active g then Inl goal_inactive
      else let h = g\<lparr>g_last_verdict := Some (verdict_text (jr_verdict result)), g_last_reason := Some (jr_reason result),
          g_consecutive_parse_failures := (if parse_failed then g_consecutive_parse_failures g + 1 else 0),
          g_consecutive_transport_failures := (if transport_failed then g_consecutive_transport_failures g + 1 else 0)\<rparr>
      in if jr_verdict result = V_done then Inr (clear_wait (h\<lparr>g_status := G_done\<rparr>))
      else if jr_verdict result = V_wait then
        (case jr_wait result of
           None \<Rightarrow> Inl (Judge_parse ''wait verdict has no target'')
         | Some (Wait_time seconds) \<Rightarrow> set_wait now (Wait_time (now + seconds)) (jr_reason result) h
         | Some target \<Rightarrow> set_wait now target (jr_reason result) h)
      else if jr_verdict result = V_needs_input then Inr (pause_goal (''waiting for user input: '' @ jr_reason result) h)
      else if MAX_TRANSPORT_FAILURES \<le> g_consecutive_transport_failures h
      then Inr (pause_goal ''goal judge was unreachable for five consecutive turns'' h)
      else if MAX_PARSE_FAILURES \<le> g_consecutive_parse_failures h
      then Inr (pause_goal ''goal judge returned invalid output for three consecutive turns'' h)
      else if g_max_turns h \<le> g_turns_used h then Inr (pause_goal (budget_text h) h)
      else Inr h)"

section \<open>Quality gates\<close>

definition gate_continuation :: "goal_state \<Rightarrow> goal_gate \<Rightarrow> bool \<Rightarrow> string" where
  "gate_continuation g gate was_skipped =
     GOAL_CONTINUATION_MARKER @ nl @ nl @ ''Goal: '' @ g_goal g @ nl @ nl
     @ ''Quality gate failed (attempt '' @ show_int (gt_attempts gate) @ ''/'' @ show_int (gt_max_retries gate) @ ''):'' @ nl
     @ ''$ '' @ gt_command gate @ nl @ ''Exit code: ''
     @ (case gt_last_exit_code gate of None \<Rightarrow> ''None'' | Some c \<Rightarrow> show_int c)
     @ (if was_skipped then nl @ ''The workspace was unchanged since the previous failure, so the command was not run again.'' else '''')
     @ nl @ nl @ ''Output tail:'' @ nl @ ''```'' @ nl
     @ (if gt_last_output_tail gate = '''' then ''(no output)'' else gt_last_output_tail gate) @ nl @ ''```'' @ nl @ nl
     @ ''Fix the underlying issue and verify the gate. Do not claim completion while this gate fails.''"

definition apply_gate :: "nat \<Rightarrow> goal_gate \<Rightarrow> gate_result \<Rightarrow> goal_state \<Rightarrow> goal_error + goal_state" where
  "apply_gate i gate r g =
     (if length (g_gates g) \<le> i \<or> gt_command (g_gates g ! i) \<noteq> gt_command gate
      then Inl (Conflict ''goal gate list changed'')
      else let t = (g_gates g ! i)\<lparr>gt_last_exit_code := Some (gr_exit_code r), gt_last_output_tail := gr_output_tail r\<rparr>
      in if gr_passed r
         then Inr (g\<lparr>g_gates := (g_gates g)[i := t\<lparr>gt_attempts := 0, gt_last_failed_fingerprint := ''''\<rparr>]\<rparr>)
         else let u = t\<lparr>gt_attempts := gt_attempts t + 1, gt_last_failed_fingerprint := gr_fingerprint r\<rparr>;
                  h = g\<lparr>g_gates := (g_gates g)[i := u]\<rparr>
              in Inr (if gt_max_retries u < gt_attempts u
                then pause_goal (''quality gate exhausted '' @ show_int (gt_max_retries u) @ '' retries: $ '' @ gt_command u) h
                else h))"

text \<open>What the loop returns for a gate that failed.\<close>

definition gate_failure :: "nat \<Rightarrow> gate_result \<Rightarrow> goal_state \<Rightarrow> goal_decision goal_op" where
  "gate_failure i r g =
     (let gate = g_gates g ! i in
      if g_status g = G_paused then give (decision (Some g) V_gate_failed None
          (''gate exhausted retries: $ '' @ gt_command gate)
          ([pause_sign] @ '' Goal paused '' @ [em_dash] @ '' quality gate is still failing: $ '' @ gt_command gate))
      else if g_max_turns g \<le> g_turns_used g then
        or_skipped (g_session_key g) ''goal changed'' (compare_and_update g (\<lambda>c. Inr (pause_goal (budget_text c) c)))
          (\<lambda>h. give (decision (Some h) V_gate_failed None (''gate failed: $ '' @ gt_command gate)
            ([pause_sign] @ '' Goal paused '' @ [em_dash] @ '' the turn budget ended while a quality gate was failing.'')))
      else give (decision (Some g) V_gate_failed (Some (gate_continuation g gate (gr_skipped_unchanged r)))
          (''gate failed (exit '' @ show_int (gr_exit_code r) @ ''): $ '' @ gt_command gate)
          ([cross_sign] @ '' Quality gate failed: $ '' @ gt_command gate)))"

fun evaluate_gates ::
    "(goal_gate \<Rightarrow> goal_db \<Rightarrow> goal_db \<times> workspace) \<Rightarrow> nat list \<Rightarrow> goal_state \<Rightarrow> goal_decision option goal_op" where
  "evaluate_gates run [] g db = (db, Inr None)"
| "evaluate_gates run (i # is) g db =
     (if length (g_gates g) \<le> i then (db, Inl (Bad_index ''list index out of range''))
      else let gate = g_gates g ! i; (d, w) = run gate db; r = run_gate gate w
      in case compare_and_update g (apply_gate i gate r) d of
           (d', Inl (Conflict t)) \<Rightarrow> and_then (get_goal (g_session_key g)) (\<lambda>s. give (Some (skipped s ''goal changed during gate''))) d'
         | (d', Inl e) \<Rightarrow> (d', Inl e)
         | (d', Inr h) \<Rightarrow> if gr_passed r then evaluate_gates run is h d'
             else if length (g_gates h) \<le> i then (d', Inl (Bad_index ''list index out of range''))
             else and_then (gate_failure i r h) (\<lambda>dc. give (Some dc)) d')"

section \<open>The judge\<close>

datatype judge_reply = Judged judge_result | Parse_failed string | Transport_failed string

fun reply_result :: "judge_reply \<Rightarrow> judge_result" where
  "reply_result (Judged r) = r"
| "reply_result (Parse_failed t) = \<lparr>jr_verdict = V_continue, jr_reason = t, jr_wait = None\<rparr>"
| "reply_result (Transport_failed t) = \<lparr>jr_verdict = V_continue, jr_reason = t, jr_wait = None\<rparr>"

definition judge_decision :: "judge_result \<Rightarrow> goal_state \<Rightarrow> goal_decision" where
  "judge_decision r g =
     (if g_status g = G_done then decision (Some g) V_done None (jr_reason r) ([check_sign] @ '' Goal achieved: '' @ jr_reason r)
      else if jr_verdict r = V_needs_input then decision (Some g) V_needs_input None (jr_reason r)
        ([ring_sign] @ '' Goal is waiting for your input: '' @ jr_reason r)
      else if g_status g = G_paused then decision (Some g) V_continue None (jr_reason r)
        ([pause_sign] @ '' Goal paused: '' @ (case g_paused_reason g of None \<Rightarrow> ''None'' | Some p \<Rightarrow> p))
      else if jr_verdict r = V_wait then decision (Some g) V_wait None (jr_reason r) ([glass_sign] @ '' Goal parked: '' @ jr_reason r)
      else decision (Some g) V_continue (Some (continuation_prompt g)) (jr_reason r)
        ([loop_sign] @ '' Continuing toward goal ('' @ show_int (g_turns_used g) @ ''/'' @ show_int (g_max_turns g) @ ''): '' @ jr_reason r))"

definition judge_turn :: "(goal_state \<Rightarrow> goal_db \<Rightarrow> goal_db \<times> judge_reply) \<Rightarrow> string \<Rightarrow> goal_decision goal_op" where
  "judge_turn ask k = and_then (get_goal k) (\<lambda>st db.
     case st of
       None \<Rightarrow> (db, Inr (skipped None ''goal changed''))
     | Some g \<Rightarrow> if \<not> is_active g then (db, Inr (skipped (Some g) ''goal changed''))
         else (case ask g db of (d, reply) \<Rightarrow>
           or_skipped k ''goal changed during judging''
             (compare_and_update g (apply_judge_result (goal_clock d) (reply_result reply)
               (case reply of Parse_failed _ \<Rightarrow> True | _ \<Rightarrow> False) (case reply of Transport_failed _ \<Rightarrow> True | _ \<Rightarrow> False)))
             (\<lambda>h. give (judge_decision (reply_result reply) h)) d))"

section \<open>After a turn\<close>

record turn_report =
  tr_response :: string
  tr_succeeded :: bool
  tr_aborted :: bool
  tr_provider_error :: bool
  tr_compaction_failed :: bool
  tr_run_id :: "string option"
  tr_expected_goal_id :: "string option"
  tr_expected_revision :: "int option"

record surroundings =
  sr_alive :: "int \<Rightarrow> bool"
  sr_busy :: "string \<Rightarrow> bool"
  sr_gate :: "goal_gate \<Rightarrow> goal_db \<Rightarrow> goal_db \<times> workspace"
  sr_judge :: "goal_state \<Rightarrow> goal_db \<Rightarrow> goal_db \<times> judge_reply"

definition after_abort :: "string \<Rightarrow> goal_state \<Rightarrow> goal_decision goal_op" where
  "after_abort k s = or_skipped k ''goal changed'' (compare_and_update s (\<lambda>c. Inr (pause_goal ''turn interrupted'' c)))
     (\<lambda>p. give (decision (Some p) V_skipped None ''turn interrupted''
       ([pause_sign] @ '' Goal paused because the turn was interrupted.'')))"

definition after_compaction_failure :: "string \<Rightarrow> goal_state \<Rightarrow> goal_decision goal_op" where
  "after_compaction_failure k s = or_skipped k ''goal changed'' (compare_and_update s record_compaction_failure) (\<lambda>f.
     if g_status f = G_paused then give (decision (Some f) V_skipped None ''context recovery failed twice''
       ([pause_sign] @ '' Goal paused after context recovery failed twice. Conversation history was preserved; '' @
        ''compact the chat or choose a larger-context model, then resume the goal.''))
     else give (decision (Some f) V_skipped (Some (continuation_prompt f)) ''context recovery failed; retrying once''
       ([warn_sign] @ '' Goal context recovery failed. Retrying once without resetting or truncating the conversation.'')))"

definition turn_failed :: "turn_report \<Rightarrow> bool" where
  "turn_failed r \<longleftrightarrow> \<not> tr_succeeded r \<or> tr_provider_error r \<or> strip (tr_response r) = ''''"

definition failure_reason :: "turn_report \<Rightarrow> string" where
  "failure_reason r = (if tr_provider_error r then ''model response failed''
     else if \<not> tr_succeeded r then ''turn failed'' else ''empty response'')"

definition after_failure :: "string \<Rightarrow> turn_report \<Rightarrow> goal_state \<Rightarrow> goal_decision goal_op" where
  "after_failure k r s = or_skipped k ''goal changed''
     (compare_and_update s (record_turn_failure (failure_reason r) (tr_run_id r)))
     (\<lambda>p. give (decision (Some p) V_needs_input None (failure_reason r)
       ([pause_sign] @ '' Goal paused because the turn could not finish. Review the error, then reply or resume the goal to continue.'')))"

text \<open>A turn that finished: it is counted, then the gates and the judge.\<close>

definition spend_turn :: "surroundings \<Rightarrow> string \<Rightarrow> turn_report \<Rightarrow> goal_state \<Rightarrow> goal_decision goal_op" where
  "spend_turn env k r s db =
     or_skipped k ''goal changed'' (compare_and_update s (consume_turn (goal_clock db) (tr_run_id r))) (\<lambda>t.
       and_then (evaluate_gates (sr_gate env) [0..<length (g_gates t)] t) (\<lambda>dc.
         case dc of Some d \<Rightarrow> give d | None \<Rightarrow> judge_turn (sr_judge env) k)) db"

definition after_success :: "surroundings \<Rightarrow> string \<Rightarrow> turn_report \<Rightarrow> goal_state \<Rightarrow> goal_decision goal_op" where
  "after_success env k r s = and_then (waiting_state (sr_alive env) (sr_busy env) k) (\<lambda>waiting.
     case waiting of
       None \<Rightarrow> spend_turn env k r s
     | Some w \<Rightarrow> if has_wait w
         then give (decision (Some w) V_waiting None
           (if truthy (g_waiting_reason w) then the (g_waiting_reason w) else ''wait barrier is active'')
           ([glass_sign] @ '' Goal is parked until its wait condition is satisfied.''))
         else spend_turn env k r w)"

definition unexpected :: "turn_report \<Rightarrow> goal_state \<Rightarrow> bool" where
  "unexpected r s \<longleftrightarrow> (tr_expected_goal_id r \<noteq> None \<and> tr_expected_goal_id r \<noteq> Some (g_goal_id s))
     \<or> (tr_expected_revision r \<noteq> None \<and> tr_expected_revision r \<noteq> Some (g_revision s))"

definition evaluate_after_turn :: "surroundings \<Rightarrow> string \<Rightarrow> turn_report \<Rightarrow> goal_decision goal_op" where
  "evaluate_after_turn env k r = and_then (get_goal k) (\<lambda>st.
     case st of
       None \<Rightarrow> give (decision None V_inactive None ''no active goal'' '''')
     | Some s \<Rightarrow>
         if \<not> is_active s then give (decision (Some s) V_inactive None ''no active goal'' '''')
         else if unexpected r s then give (skipped (Some s) ''goal changed before evaluation'')
         else if tr_aborted r then after_abort k s
         else if tr_compaction_failed r then after_compaction_failure k s
         else if turn_failed r then after_failure k r s
         else after_success env k r s)"

end
