(* ===== verification/Goal_Machine.thy ===== *)
theory Goal_Machine
  imports Goal_Facts Goal_Evaluate
begin

text \<open>
  The store of goals under all its users: the controls, the optimistic writes of an evaluation and
  the clock, interleaved in any order. Every step commits at most one record, with the next
  revision; an evaluation is a run of such steps whatever runs during its awaits.
\<close>

section \<open>Controls\<close>

datatype goal_control =
    Set_goal "turn_scope option" int string "int option" "goal_contract option" int
  | Pause_goal string "string option" "int option" | Resume_goal "string option" "int option" | User_replied
  | Clear_goal "int option" "string option" "int option" | Attach_contract string "goal_contract option"
  | Add_subgoal string | Remove_subgoal int | Clear_subgoals
  | Add_gate string int int | Remove_gate int | Clear_gates
  | Wait_pid_for int string | Wait_session_for string string | Wait_seconds int string | Stop_waiting
  | Poll_wait "int \<Rightarrow> bool" "string \<Rightarrow> bool"

fun perform :: "string \<Rightarrow> goal_control \<Rightarrow> goal_db \<Rightarrow> goal_db" where
  "perform k (Set_goal turn n goal mt con ep) db = fst (set_goal turn n k goal mt con ep db)"
| "perform k (Pause_goal reason eid erev) db = fst (pause k reason eid erev db)"
| "perform k (Resume_goal eid erev) db = fst (resume k eid erev db)"
| "perform k User_replied db = fst (resume_for_user_input k db)"
| "perform k (Clear_goal ep eid erev) db = fst (clear_goal k ep eid erev db)"
| "perform k (Attach_contract goal_id con) db = fst (attach_contract k goal_id con db)"
| "perform k (Add_subgoal t) db = fst (add_subgoal k t db)"
| "perform k (Remove_subgoal i) db = fst (remove_subgoal k i db)"
| "perform k Clear_subgoals db = fst (clear_subgoals k db)"
| "perform k (Add_gate c t n) db = fst (add_gate k c t n db)"
| "perform k (Remove_gate i) db = fst (remove_gate k i db)"
| "perform k Clear_gates db = fst (clear_gates k db)"
| "perform k (Wait_pid_for p r) db = fst (wait_on_pid k p r db)"
| "perform k (Wait_session_for t r) db = fst (wait_on_session k t r db)"
| "perform k (Wait_seconds n r) db = fst (wait_for_seconds k n r db)"
| "perform k Stop_waiting db = fst (stop_waiting k db)"
| "perform k (Poll_wait alive busy) db = fst (waiting_state alive busy k db)"

lemma fst_and_then: "fst (and_then m f db) = (case m db of (d, Inl e) \<Rightarrow> d | (d, Inr x) \<Rightarrow> fst (f x d))"
  by (simp add: and_then_def split: prod.split sum.split)

lemma fst_get_then: "fst (and_then (get_goal k) f db) = (case snd (get_goal k db) of Inl e \<Rightarrow> db | Inr x \<Rightarrow> fst (f x db))"
  by (simp add: fst_and_then get_goal_def split: sum.split)

lemma fst_then_give: "fst (and_then m (\<lambda>g. give (h g)) db) = fst (m db)"
  by (simp add: fst_and_then give_def split: prod.split sum.split)

lemma fst_on_conflict_get: "fst (on_conflict m (get_goal k) db) = fst (m db)"
  by (simp add: on_conflict_def get_goal_def split: prod.split sum.split goal_error.split)

lemmas op_effects = fst_get_then fst_then_give fst_on_conflict_get give_def

lemma reload_key: "reload f g = Inr h \<Longrightarrow> strip (g_session_key g) = g_session_key g \<Longrightarrow> g_session_key h = g_session_key g"
  by (simp add: reload_Inr(1))

text \<open>A clone keeps the key of the record it was read from.\<close>

lemma get_goal_session: "snd (get_goal k db) = Inr (Some s) \<Longrightarrow> g_session_key s = k"
proof -
  assume a: "snd (get_goal k db) = Inr (Some s)"
  then obtain c where c: "read_goal db k = Inr (Some c)" "reload (goal_hex db) c = Inr s"
    by (auto simp: get_goal_def clone_opt_def ok_iffs split: option.splits)
  from c(1) obtain raw where "g_session_key c = k" "strip k = k" by (rule read_goal_Some)
  with reload_key [OF c(2)] show ?thesis by simp
qed

lemma fst_or_none: "fst (case p of (d, Inl e) \<Rightarrow> (d, Inr None) | (d, Inr g) \<Rightarrow> (d, Inr (Some g))) = fst p"
  by (simp split: prod.split sum.split)

lemma perform_write: "goal_write k db (perform k c db)"
proof (cases c)
  case User_replied
  show ?thesis
    unfolding User_replied perform.simps resume_for_user_input_def fst_get_then
    using get_goal_session [of k db] cas_write
    by (auto simp: op_effects split: sum.split option.split)
next
  case (Clear_goal ep eid erev)
  show ?thesis
    unfolding Clear_goal perform.simps clear_goal_def fst_get_then by (auto simp: op_effects update_goal_write split: sum.split)
next
  case (Attach_contract goal_id con)
  show ?thesis
    unfolding Attach_contract perform.simps attach_contract_def
    by (simp add: fst_or_none update_goal_write split: option.split)
next
  case (Poll_wait alive busy)
  show ?thesis
    unfolding Poll_wait perform.simps waiting_state_def fst_get_then
    using get_goal_session [of k db] cas_write
    by (auto simp: op_effects split: sum.split option.split)
next
  case (Add_gate cmd t n)
  show ?thesis by (simp add: Add_gate add_gate_def update_goal_write split: sum.split)
qed (simp_all add: set_goal_def pause_def resume_def add_subgoal_def remove_subgoal_def clear_subgoals_def remove_gate_def
  clear_gates_def wait_on_pid_def wait_on_session_def wait_for_seconds_def wait_on_def stop_waiting_def
  update_goal_write update_with_write)

section \<open>Interleaved steps\<close>

inductive goal_step :: "goal_db \<Rightarrow> goal_db \<Rightarrow> bool" where
  control: "goal_step db (perform k c db)"
| turn_write: "goal_step db (fst (compare_and_update s f db))"
| tick: "strip h = h \<Longrightarrow> h \<noteq> '''' \<Longrightarrow> goal_step db (db\<lparr>goal_clock := t, goal_hex := h\<rparr>)"

inductive_cases goal_stepE: "goal_step db d"

text \<open>The revision of the record on disk, as it is read.\<close>

definition stored_revision :: "string \<Rightarrow> goal_db \<Rightarrow> int" where
  "stored_revision k db = (case goal_files db k of None \<Rightarrow> 0 | Some raw \<Rightarrow> bounded_int 0 (2 ^ 63 - 1) (g_revision raw))"

definition revision_cap :: int where "revision_cap = 2 ^ 63 - 1"

lemma read_revision:
  "read_goal db k = Inr cur \<Longrightarrow> stored_revision k db = (case cur of None \<Rightarrow> 0 | Some c \<Rightarrow> g_revision c)"
  by (auto simp: read_goal_def stored_revision_def reload_Inr(5) split: option.splits sum.splits if_splits)

lemma stored_range: "0 \<le> stored_revision k db \<and> stored_revision k db \<le> revision_cap"
  by (simp add: stored_revision_def revision_cap_def bounded_int_def split: option.split)

lemma write_revision:
  assumes "goal_write k db d" "d \<noteq> db"
  shows "stored_revision k d = min revision_cap (stored_revision k db + 1)"
proof -
  from assms obtain cur u where "read_goal db k = Inr cur"
    and d: "d = write_goal k (stamped db cur u) (archive_replaced cur (stamped db cur u) db)" by (auto simp: goal_write_def)
  with read_revision have r: "stored_revision k db = (case cur of None \<Rightarrow> 0 | Some c \<Rightarrow> g_revision c)" by blast
  have "goal_files d k = Some (stamped db cur u)" by (simp add: d write_goal_def)
  then have "stored_revision k d = bounded_int 0 revision_cap (stored_revision k db + 1)"
    by (simp add: stored_revision_def [of k d] revision_cap_def stamped_def r split: option.split)
  with stored_range [of k db] show ?thesis by (simp add: bounded_int_def revision_cap_def)
qed

lemma write_files:
  assumes "goal_write k' db d"
  shows "goal_files d k = goal_files db k \<or> stored_revision k d = min revision_cap (stored_revision k db + 1)"
  using goal_write_frame(3) [OF assms] write_revision [OF assms] by (cases "k = k'"; cases "d = db") auto

lemma step_files:
  "goal_step db d \<Longrightarrow> goal_files d k = goal_files db k \<or> stored_revision k d = min revision_cap (stored_revision k db + 1)"
  by (erule goal_stepE) (auto simp: write_files [OF perform_write] write_files [OF cas_write])

lemma stored_same: "goal_files d k = goal_files db k \<Longrightarrow> stored_revision k d = stored_revision k db"
  by (simp add: stored_revision_def)

interpretation goal_revision: ratchet goal_step "stored_revision k" for k
proof
  fix db d assume "goal_step db d"
  from step_files [OF this, of k] stored_range [of k db] show "stored_revision k db \<le> stored_revision k d"
    by (auto dest: stored_same)
qed

lemma step_hex: "goal_step db d \<Longrightarrow> hex_ok db \<Longrightarrow> hex_ok d"
  by (erule goal_stepE) (auto simp: hex_ok_def goal_write_frame(2) [OF perform_write] goal_write_frame(2) [OF cas_write])

lemma run_hex: "goal_step\<^sup>*\<^sup>* db d \<Longrightarrow> hex_ok db \<Longrightarrow> hex_ok d"
  by (induction rule: rtranclp_induct) (auto intro: step_hex)

text \<open>A record whose revision has not grown has not been written.\<close>

lemma run_files:
  "goal_step\<^sup>*\<^sup>* db d \<Longrightarrow> stored_revision k d < revision_cap \<Longrightarrow>
    goal_files d k = goal_files db k \<or> stored_revision k db < stored_revision k d"
proof (induction rule: rtranclp_induct)
  case (step c d)
  from goal_revision.step_up [OF step.hyps(2), of k] step.prems have "stored_revision k c < revision_cap" by simp
  then have "goal_files c k = goal_files db k \<or> stored_revision k db < stored_revision k c" by (rule step.IH)
  with step_files [OF step.hyps(2), of k] step.prems goal_revision.run_up [OF step.hyps(1), of k] show ?case
    by (auto dest: stored_same)
qed simp

text \<open>Two readings of one version are readings of one file.\<close>

lemma same_reading:
  assumes "goal_step\<^sup>*\<^sup>* db d" "read_goal db k = Inr (Some g)" "read_goal d k = Inr (Some c)" "same_version g c"
    "g_revision c < revision_cap"
  obtains raw where "goal_files db k = Some raw" "reload (goal_hex db) raw = Inr g" "reload (goal_hex d) raw = Inr c"
proof -
  from assms(2) obtain raw where raw: "goal_files db k = Some raw" "reload (goal_hex db) raw = Inr g" by (rule read_goal_Some)
  from assms(3) obtain raw' where raw': "goal_files d k = Some raw'" "reload (goal_hex d) raw' = Inr c" by (rule read_goal_Some)
  have "stored_revision k d = stored_revision k db" "stored_revision k d < revision_cap"
    using read_revision [OF assms(2)] read_revision [OF assms(3)] assms(4,5) by (simp_all add: same_version_def)
  with run_files [OF assms(1), of k] raw raw' show ?thesis by (intro that) auto
qed

section \<open>An evaluation is a run\<close>

definition orderly :: "surroundings \<Rightarrow> bool" where
  "orderly env \<longleftrightarrow> (\<forall>g db. goal_step\<^sup>*\<^sup>* db (fst (sr_gate env g db))) \<and> (\<forall>g db. goal_step\<^sup>*\<^sup>* db (fst (sr_judge env g db)))"

definition runs :: "'a goal_op \<Rightarrow> bool" where
  "runs m \<longleftrightarrow> (\<forall>db. goal_step\<^sup>*\<^sup>* db (fst (m db)))"

lemma runs_give [intro]: "runs (give x)"
  by (simp add: runs_def give_def)

lemma runs_get [intro]: "runs (get_goal k)"
  by (simp add: runs_def get_goal_def)

lemma runs_cas [intro]: "runs (compare_and_update s f)"
  by (auto simp: runs_def intro: turn_write)

lemma runs_then [intro]:
  assumes "runs m" "\<And>x. runs (f x)"
  shows "runs (and_then m f)"
  unfolding runs_def
proof
  fix db
  have "goal_step\<^sup>*\<^sup>* db (fst (m db))" using assms(1) by (simp add: runs_def)
  moreover have "goal_step\<^sup>*\<^sup>* d (fst (f x d))" for x d using assms(2) by (simp add: runs_def)
  ultimately show "goal_step\<^sup>*\<^sup>* db (fst (and_then m f db))"
    unfolding fst_and_then by (cases "m db"; cases "snd (m db)") (auto intro: rtranclp_trans)
qed

lemma runs_or_skipped [intro]:
  assumes "runs m" "\<And>x. runs (rest x)"
  shows "runs (or_skipped k reason m rest)"
  unfolding runs_def
proof
  fix db
  have m: "goal_step\<^sup>*\<^sup>* db (fst (m db))" using assms(1) by (simp add: runs_def)
  have r: "goal_step\<^sup>*\<^sup>* d (fst (rest x d))" for x d using assms(2) by (simp add: runs_def)
  have g: "fst (and_then (get_goal k) (\<lambda>g. give (skipped g reason)) d) = d" for d by (simp add: fst_then_give get_goal_db)
  obtain d v where md: "m db = (d, v)" by (cases "m db")
  show "goal_step\<^sup>*\<^sup>* db (fst (or_skipped k reason m rest db))"
  proof (cases v)
    case (Inl e)
    with m md g show ?thesis by (cases e) (simp_all add: or_skipped_def)
  next
    case (Inr x)
    with m md r [of d x] show ?thesis by (simp add: or_skipped_def)
  qed
qed

lemma runs_poll: "runs (waiting_state alive busy k)"
  unfolding runs_def using control [of _ k "Poll_wait alive busy"] by auto

lemma runs_if [intro]: "(b \<Longrightarrow> runs m) \<Longrightarrow> (\<not> b \<Longrightarrow> runs n) \<Longrightarrow> runs (if b then m else n)"
  by simp

lemma runs_gate_failure: "runs (gate_failure i r g)"
  unfolding gate_failure_def Let_def by (intro runs_if runs_give runs_or_skipped runs_cas)

lemma runs_gates:
  assumes "\<And>g db. goal_step\<^sup>*\<^sup>* db (fst (run g db))"
  shows "runs (evaluate_gates run is g)"
proof (induction "is" arbitrary: g)
  case Nil
  show ?case by (simp add: runs_def)
next
  case (Cons i "is")
  show ?case unfolding runs_def
  proof
    fix db
    obtain d w where dw: "run (g_gates g ! i) db = (d, w)" by (cases "run (g_gates g ! i) db")
    obtain d' v where v: "compare_and_update g (apply_gate i (g_gates g ! i) (run_gate (g_gates g ! i) w)) d = (d', v)"
      by (cases "compare_and_update g (apply_gate i (g_gates g ! i) (run_gate (g_gates g ! i) w)) d")
    have p: "goal_step\<^sup>*\<^sup>* db d'"
      using assms [of db "g_gates g ! i"] turn_write [of d g "apply_gate i (g_gates g ! i) (run_gate (g_gates g ! i) w)"]
      by (simp add: dw v)
    have next_run: "goal_step\<^sup>*\<^sup>* d' (fst (evaluate_gates run is h d'))" for h using Cons.IH by (simp add: runs_def)
    have fail: "goal_step\<^sup>*\<^sup>* d' (fst (and_then (gate_failure i r h) (\<lambda>dc. give (Some dc)) d'))" for r h
      using runs_gate_failure by (simp add: runs_def fst_then_give)
    have skip: "fst (and_then (get_goal k) (\<lambda>s. give (f s)) d') = d'" for k and f :: "goal_state option \<Rightarrow> goal_decision option"
      by (simp add: fst_then_give get_goal_db)
    show "goal_step\<^sup>*\<^sup>* db (fst (evaluate_gates run (i # is) g db))"
    proof (cases v)
      case (Inl e)
      with p skip show ?thesis by (cases e) (simp_all add: dw v)
    next
      case (Inr h)
      with p fail next_run show ?thesis by (auto simp: dw v Let_def intro: rtranclp_trans)
    qed
  qed
qed

lemma await_run:
  assumes "goal_step\<^sup>*\<^sup>* db (fst (ask db))" "\<And>x d. goal_step\<^sup>*\<^sup>* d (fst (f x d))"
  shows "goal_step\<^sup>*\<^sup>* db (fst (case ask db of (d, x) \<Rightarrow> f x d))"
  using rtranclp_trans [OF assms(1) assms(2)] by (simp add: case_prod_beta)

lemma runs_judge:
  assumes "\<And>g db. goal_step\<^sup>*\<^sup>* db (fst (ask g db))"
  shows "runs (judge_turn ask k)"
  unfolding judge_turn_def
proof (rule runs_then [OF runs_get])
  fix st
  show "runs (\<lambda>db. case st of
       None \<Rightarrow> (db, Inr (skipped None ''goal changed''))
     | Some g \<Rightarrow> if \<not> is_active g then (db, Inr (skipped (Some g) ''goal changed''))
         else (case ask g db of (d, reply) \<Rightarrow>
           or_skipped k ''goal changed during judging''
             (compare_and_update g (apply_judge_result (goal_clock d) (reply_result reply)
               (case reply of Parse_failed _ \<Rightarrow> True | _ \<Rightarrow> False) (case reply of Transport_failed _ \<Rightarrow> True | _ \<Rightarrow> False)))
             (\<lambda>h. give (judge_decision (reply_result reply) h)) d))"
  proof (cases st)
    case (Some g)
    have "goal_step\<^sup>*\<^sup>* d (fst (or_skipped k t (compare_and_update g f) (\<lambda>h. give (p h)) d))" for d t f and p :: "goal_state \<Rightarrow> goal_decision"
      using runs_or_skipped [OF runs_cas runs_give] by (simp add: runs_def)
    then show ?thesis by (auto simp: Some runs_def intro!: await_run [of _ "ask g"] assms)
  qed (simp add: runs_def)
qed

lemma runs_spend:
  assumes "orderly env"
  shows "runs (spend_turn env k r s)"
proof -
  have "runs (or_skipped k ''goal changed'' (compare_and_update s f) (\<lambda>t.
       and_then (evaluate_gates (sr_gate env) [0..<length (g_gates t)] t) (\<lambda>dc.
         case dc of Some d \<Rightarrow> give d | None \<Rightarrow> judge_turn (sr_judge env) k)))" for f
  proof (intro runs_or_skipped runs_cas runs_then runs_gates)
    show "goal_step\<^sup>*\<^sup>* db (fst (sr_gate env g db))" for g db using assms by (simp add: orderly_def)
    show "runs (case dc of Some d \<Rightarrow> give d | None \<Rightarrow> judge_turn (sr_judge env) k)" for dc
      using assms by (cases dc) (auto simp: orderly_def intro: runs_judge)
  qed
  then show ?thesis by (simp add: runs_def spend_turn_def)
qed

lemma runs_evaluate:
  assumes "orderly env"
  shows "runs (evaluate_after_turn env k r)"
proof -
  have "runs (after_success env k r s)" for s
    unfolding after_success_def
    by (rule runs_then [OF runs_poll]) (auto simp: runs_spend [OF assms] split: option.split)
  moreover have "runs (after_abort k s)" "runs (after_compaction_failure k s)" "runs (after_failure k r s)" for s
    unfolding after_abort_def after_compaction_failure_def after_failure_def by (intro runs_or_skipped runs_cas runs_if runs_give)+
  ultimately show ?thesis
    unfolding evaluate_after_turn_def by (intro runs_then runs_get) (auto split: option.split)
qed

end
