(* ===== verification/Goal_Autonomy.thy ===== *)
theory Goal_Autonomy
  imports Goal_Machine
begin

text \<open>
  When an evaluation lets the agent continue on its own: only a goal that is on disk, active and
  within its limits is continued, and without the user the continuations end.
\<close>

section \<open>Licensed continuations\<close>

text \<open>What the decision \<open>dc\<close> to continue rests on, in the store it was taken in.\<close>

definition named_in :: "goal_decision \<Rightarrow> goal_state \<Rightarrow> bool" where
  "named_in dc g \<longleftrightarrow> is_active g \<and> dc_goal_id dc = Some (g_goal_id g) \<and> dc_revision dc = Some (g_revision g)"

definition turn_licensed :: "string \<Rightarrow> goal_decision \<Rightarrow> goal_db \<Rightarrow> bool" where
  "turn_licensed k dc d \<longleftrightarrow> (\<exists>g. read_goal d k = Inr (Some g) \<and> named_in dc g
     \<and> dc_verdict dc \<in> {V_continue, V_gate_failed} \<and> g_turns_used g < g_max_turns g)"

definition retry_licensed :: "string \<Rightarrow> goal_decision \<Rightarrow> goal_db \<Rightarrow> bool" where
  "retry_licensed k dc d \<longleftrightarrow> (\<exists>g. read_goal d k = Inr (Some g) \<and> named_in dc g
     \<and> dc_verdict dc = V_skipped \<and> g_consecutive_compaction_failures g < MAX_COMPACTION_FAILURES)"

definition licensed :: "string \<Rightarrow> goal_decision \<Rightarrow> goal_db \<Rightarrow> bool" where
  "licensed k dc d \<longleftrightarrow> turn_licensed k dc d \<or> retry_licensed k dc d"

lemma decision_fields [simp]:
  "dc_should_continue (decision g v p r m) = (p \<noteq> None)" "dc_verdict (decision g v p r m) = v"
  "dc_goal_id (decision g v p r m) = map_option g_goal_id g" "dc_revision (decision g v p r m) = map_option g_revision g"
  by (simp_all add: decision_def)

lemma skipped_stops [simp]: "\<not> dc_should_continue (skipped g r)"
  by (simp add: skipped_def)

text \<open>A decision to continue was not taken after a conflict.\<close>

lemma or_skipped_continue:
  assumes "or_skipped k t m rest db = (e, Inr dc)" "dc_should_continue dc"
  obtains d x where "m db = (d, Inr x)" "rest x d = (e, Inr dc)"
  using assms
  by (auto simp: or_skipped_def and_then_def give_def get_goal_def split: prod.splits sum.splits goal_error.splits)

section \<open>Each exit\<close>

lemma abort_stops: "after_abort k s db = (e, Inr dc) \<Longrightarrow> \<not> dc_should_continue dc"
  unfolding after_abort_def by (rule notI, erule (1) or_skipped_continue) (auto simp: give_def)

lemma failure_stops: "after_failure k r s db = (e, Inr dc) \<Longrightarrow> \<not> dc_should_continue dc"
  unfolding after_failure_def by (rule notI, erule (1) or_skipped_continue) (auto simp: give_def)

lemma pause_goal_status [simp]: "g_status (pause_goal t g) = G_paused" "g_session_key (pause_goal t g) = g_session_key g"
  "g_status (stamped db cur g) = g_status g" "g_session_key (stamped db cur g) = g_session_key g"
  by (simp_all add: pause_goal_def clear_wait_def stamped_def)

lemma stamped_fields [simp]:
  "g_turns_used (stamped db cur g) = g_turns_used g" "g_max_turns (stamped db cur g) = g_max_turns g"
  "g_consecutive_compaction_failures (stamped db cur g) = g_consecutive_compaction_failures g"
  "g_gates (stamped db cur g) = g_gates g"
  by (simp_all add: stamped_def)

section \<open>Quality gates and the judge\<close>

text \<open>The rest of an evaluation is only reached below the revision cap.\<close>

definition below_cap :: "string \<Rightarrow> goal_db \<Rightarrow> bool" where
  "below_cap k d \<longleftrightarrow> stored_revision k d < revision_cap"

lemma below_cap_before: "goal_step\<^sup>*\<^sup>* db d \<Longrightarrow> below_cap k d \<Longrightarrow> below_cap k db"
  using goal_revision.run_up [of db d k] by (simp add: below_cap_def)

lemma read_below_cap: "read_goal d k = Inr (Some g) \<Longrightarrow> below_cap k d \<longleftrightarrow> g_revision g < revision_cap"
  using read_revision [of d k "Some g"] by (simp add: below_cap_def)

definition budget :: "goal_state \<Rightarrow> int \<times> int \<times> int" where
  "budget g = (g_turns_used g, g_max_turns g, g_consecutive_compaction_failures g)"

text \<open>The goal on disk has the counters of \<open>g\<close>.\<close>

definition same_budget :: "string \<Rightarrow> goal_state \<Rightarrow> goal_db \<Rightarrow> bool" where
  "same_budget k g d \<longleftrightarrow> (\<exists>h. read_goal d k = Inr (Some h) \<and> budget h = budget g)"

lemma apply_gate_fields:
  assumes "apply_gate i gate r g = Inr u"
  shows "g_status u = G_paused \<or> g_status u = g_status g" "g_turns_used u = g_turns_used g" "g_max_turns u = g_max_turns g"
    "g_consecutive_compaction_failures u = g_consecutive_compaction_failures g" "length (g_gates u) = length (g_gates g)"
    "g_session_key u = g_session_key g" "gr_passed r \<Longrightarrow> g_status u = g_status g"
  using assms by (auto simp: apply_gate_def pause_goal_def clear_wait_def Let_def split: if_splits)

text \<open>A gate's result committed to a goal that was active leaves it active or paused.\<close>

lemma gate_committed:
  assumes "hex_ok d" "goal_step\<^sup>*\<^sup>* db d" "read_goal db k = Inr (Some g)" "is_active g" "g_session_key g = k"
    "compare_and_update g (apply_gate i gate r) d = (d', Inr h)" "below_cap k d"
  shows "read_goal d' k = Inr (Some h)" "hex_ok d'" "g_session_key h = k" "is_active h \<or> g_status h = G_paused"
    "budget h = budget g" "length (g_gates h) = length (g_gates g)" "gr_passed r \<Longrightarrow> is_active h"
proof -
  from assms(1,6) obtain c u where c: "read_goal d (g_session_key g) = Inr (Some c)" "same_version g c"
    and u: "apply_gate i gate r (retrim c) = Inr u" "reload (goal_hex d) (stamped d (Some c) u) = Inr h"
    and h: "read_goal d' (g_session_key g) = Inr (Some h)" "hex_ok d'" "g_session_key h = g_session_key g" and vc: "valid_goal c"
    by (rule cas_ok)
  show "read_goal d' k = Inr (Some h)" "hex_ok d'" "g_session_key h = k" using h assms(5) by simp_all
  have c': "read_goal d k = Inr (Some c)" using c(1) assms(5) by simp
  have "g_revision c < revision_cap" using assms(7) by (simp add: read_below_cap [OF c'])
  with assms(2,3) c' c(2) obtain raw where raw: "reload (goal_hex db) raw = Inr g" "reload (goal_hex d) raw = Inr c"
    by (rule same_reading)
  note a = apply_gate_fields [OF u(1)]
  show "is_active h \<or> g_status h = G_paused"
    using a(1) assms(4) by (auto simp: is_active_def reload_Inr(3) [OF u(2)] reload_Inr(3) [OF raw(1)] reload_Inr(3) [OF raw(2)])
  show "is_active h" if "gr_passed r"
    using a(7) [OF that] assms(4) by (simp add: is_active_def reload_Inr(3) [OF u(2)] reload_Inr(3) [OF raw(1)] reload_Inr(3) [OF raw(2)])
  show "budget h = budget g" "length (g_gates h) = length (g_gates g)"
    using a by (simp_all add: budget_def reload_Inr [OF u(2)] reload_Inr [OF raw(1)] reload_Inr [OF raw(2)])
qed

lemma gate_failure_licensed:
  assumes "gate_failure i r h d = (e, Inr dc)" "dc_should_continue dc"
    and "read_goal d k = Inr (Some h)" "is_active h \<or> g_status h = G_paused"
  shows "e = d" "turn_licensed k dc d"
proof -
  have skip: "\<not> dc_should_continue x" if "or_skipped k' t m (\<lambda>h. give (decision (Some h) v None s w)) d = (e, Inr x)" for k' t m v s w x
    using that by (auto simp: or_skipped_def and_then_def give_def get_goal_def split: prod.splits sum.splits goal_error.splits)
  from assms(1,2) have "g_status h \<noteq> G_paused" "g_turns_used h < g_max_turns h"
    and give: "e = d \<and> (\<exists>p q m. dc = decision (Some h) V_gate_failed p q m)"
    by (auto simp: gate_failure_def Let_def give_def dest: skip split: if_splits)
  then show "e = d" "turn_licensed k dc d" using assms(3,4) by (auto simp: turn_licensed_def named_in_def)
qed

lemma gates_outcome:
  assumes "\<And>g db. goal_step\<^sup>*\<^sup>* db (fst (run g db))"
    and "evaluate_gates run is g db = (e, Inr r)" "hex_ok db" "read_goal db k = Inr (Some g)" "is_active g" "g_session_key g = k"
    "below_cap k e"
  shows "(\<forall>dc. r = Some dc \<and> dc_should_continue dc \<longrightarrow> turn_licensed k dc e \<and> same_budget k g e) \<and> (r = None \<longrightarrow> same_budget k g e)"
  using assms(2-)
proof (induction "is" arbitrary: g db)
  case Nil
  then show ?case by (auto simp: same_budget_def)
next
  case (Cons i "is")
  let ?gate = "g_gates g ! i"
  obtain d w where dw: "run ?gate db = (d, w)" by (cases "run ?gate db")
  let ?r = "run_gate ?gate w"
  obtain d' v where v: "compare_and_update g (apply_gate i ?gate ?r) d = (d', v)" by (cases "compare_and_update g (apply_gate i ?gate ?r) d")
  have len: "\<not> length (g_gates g) \<le> i" using Cons.prems(1) by (auto split: if_splits)
  show ?case
  proof (cases v)
    case (Inl x)
    with Cons.prems(1) len have "\<forall>dc. r = Some dc \<longrightarrow> \<not> dc_should_continue dc" "r \<noteq> None"
      by (cases x; auto simp: dw v Let_def and_then_def give_def get_goal_def split: sum.splits)+
    then show ?thesis by blast
  next
    case (Inr h)
    have rd: "goal_step\<^sup>*\<^sup>* db d" using assms(1) [of db ?gate] by (simp add: dw)
    have d: "hex_ok d" by (rule run_hex [OF rd Cons.prems(2)])
    have eq: "(if gr_passed ?r then evaluate_gates run is h d' else if length (g_gates h) \<le> i then (d', Inl (Bad_index ''list index out of range''))
        else and_then (gate_failure i ?r h) (\<lambda>dc. give (Some dc)) d') = (e, Inr r)"
      using Cons.prems(1) len by (simp add: dw v Inr Let_def)
    have "runs (evaluate_gates run is h)" by (rule runs_gates) (rule assms(1))
    then have r1: "goal_step\<^sup>*\<^sup>* d' (fst (evaluate_gates run is h d'))" by (simp add: runs_def)
    have r2: "goal_step\<^sup>*\<^sup>* d' (fst (and_then (gate_failure i ?r h) (\<lambda>dc. give (Some dc)) d'))"
      using runs_gate_failure [of i ?r h] by (simp add: runs_def fst_then_give)
    have "goal_step\<^sup>*\<^sup>* d' e" using r1 r2 arg_cong [OF eq, of fst] by (simp split: if_splits)
    moreover have "goal_step\<^sup>*\<^sup>* d d'" using turn_write [of d g "apply_gate i ?gate ?r"] by (simp add: v r_into_rtranclp)
    ultimately have cap: "below_cap k d" using below_cap_before Cons.prems(6) by (meson rtranclp_trans)
    note gc = gate_committed [OF d rd Cons.prems(3-5) v [unfolded Inr] cap]
    show ?thesis
    proof (cases "gr_passed ?r")
      case True
      with eq have "evaluate_gates run is h d' = (e, Inr r)" by simp
      from Cons.IH [OF this gc(2,1) gc(7) [OF True] gc(3) Cons.prems(6)] gc(5) show ?thesis by (auto simp: same_budget_def)
    next
      case False
      with eq obtain dc where dc: "gate_failure i ?r h d' = (e, Inr dc)" "r = Some dc"
        by (auto simp: and_then_def give_def split: if_splits prod.splits sum.splits)
      from gate_failure_licensed [OF dc(1) _ gc(1,4)] gc(1,5) dc(2) show ?thesis by (auto simp: same_budget_def)
    qed
  qed
qed

text \<open>The judge's verdict, applied to the goal it was asked about.\<close>

lemma budget_simps [simp]: "budget (pause_goal t g) = budget g" "budget (clear_wait g) = budget g"
  "budget (g\<lparr>g_status := s\<rparr>) = budget g"
  by (simp_all add: budget_def pause_goal_def clear_wait_def)

lemma set_wait_budget: "set_wait now target reason g = Inr u \<Longrightarrow> budget u = budget g"
  by (auto simp: set_wait_def Let_def budget_def clear_wait_def ok_iffs split: wait_target.splits if_splits)

lemma apply_judge_fields:
  assumes "apply_judge_result now res pf tf g = Inr u"
  shows "is_active g" "budget u = budget g"
    "g_status u \<noteq> G_done \<Longrightarrow> jr_verdict res \<noteq> V_needs_input \<Longrightarrow> g_status u \<noteq> G_paused \<Longrightarrow> jr_verdict res \<noteq> V_wait \<Longrightarrow>
      g_status u = g_status g \<and> g_turns_used u < g_max_turns u"
proof -
  show "is_active g" using assms by (simp add: apply_judge_result_def split: if_splits)
  let ?h = "g\<lparr>g_last_verdict := Some (verdict_text (jr_verdict res)), g_last_reason := Some (jr_reason res),
    g_consecutive_parse_failures := (if pf then g_consecutive_parse_failures g + 1 else 0),
    g_consecutive_transport_failures := (if tf then g_consecutive_transport_failures g + 1 else 0)\<rparr>"
  have "budget ?h = budget g" by (simp add: budget_def)
  moreover have "budget u = budget ?h"
    using assms unfolding apply_judge_result_def Let_def
    by (elim set_wait_budget | simp split: if_split_asm option.split_asm wait_target.split_asm; (elim set_wait_budget)?; auto)+
  ultimately show "budget u = budget g" by simp
  assume "g_status u \<noteq> G_done" "jr_verdict res \<noteq> V_needs_input" "g_status u \<noteq> G_paused" "jr_verdict res \<noteq> V_wait"
  with assms show "g_status u = g_status g \<and> g_turns_used u < g_max_turns u"
    by (auto simp: apply_judge_result_def clear_wait_def Let_def split: if_splits)
qed

lemma judge_outcome:
  assumes "\<And>g db. goal_step\<^sup>*\<^sup>* db (fst (ask g db))" "judge_turn ask k db = (e, Inr dc)" "dc_should_continue dc" "hex_ok db"
    "read_goal db k = Inr (Some c)" "below_cap k e"
  shows "turn_licensed k dc e" "same_budget k c e"
proof -
  let ?g = "retrim c"
  have get: "get_goal k db = (db, Inr (Some ?g))" using get_goal_read [OF assms(4,5)] by simp
  obtain d reply where d: "ask ?g db = (d, reply)" by (cases "ask ?g db")
  let ?f = "apply_judge_result (goal_clock d) (reply_result reply) (case reply of Parse_failed _ \<Rightarrow> True | _ \<Rightarrow> False)
    (case reply of Transport_failed _ \<Rightarrow> True | _ \<Rightarrow> False)"
  have eq: "or_skipped k ''goal changed during judging'' (compare_and_update ?g ?f) (\<lambda>h. give (judge_decision (reply_result reply) h)) d = (e, Inr dc)"
    using assms(2,3) by (auto simp: judge_turn_def and_then_def get d split: if_splits)
  then obtain h where h: "compare_and_update ?g ?f d = (e, Inr h)" "dc = judge_decision (reply_result reply) h"
    using assms(3) by (auto simp: or_skipped_def and_then_def give_def get_goal_def split: prod.splits sum.splits goal_error.splits)
  have run: "goal_step\<^sup>*\<^sup>* db d" using assms(1) [of db ?g] by (simp add: d)
  have key: "g_session_key ?g = k" using assms(5) by (elim read_goal_Some) simp
  from run_hex [OF run assms(4)] h(1) obtain c' u where c': "read_goal d (g_session_key ?g) = Inr (Some c')" "same_version ?g c'"
    and u: "?f (retrim c') = Inr u" "reload (goal_hex d) (stamped d (Some c') u) = Inr h"
    and r: "read_goal e (g_session_key ?g) = Inr (Some h)" by (rule cas_ok)
  have "goal_step\<^sup>*\<^sup>* d e" using turn_write [of d ?g ?f] by (simp add: h(1) r_into_rtranclp)
  then have cap: "below_cap k d" using assms(6) by (rule below_cap_before)
  have c2: "read_goal d k = Inr (Some c')" using c'(1) key by simp
  with cap have "g_revision c' < revision_cap" by (simp add: read_below_cap)
  moreover have "same_version c c'" using c'(2) by (simp add: same_version_def)
  ultimately obtain raw where raw: "reload (goal_hex db) raw = Inr c" "reload (goal_hex d) raw = Inr c'"
    using same_reading [OF run assms(5) c2] by metis
  note a = apply_judge_fields [OF u(1)]
  have b: "budget h = budget u"
    using a(2) by (simp add: budget_def reload_Inr [OF u(2)] reload_Inr [OF raw(2)])
  have bc: "budget c' = budget c" by (simp add: budget_def reload_Inr [OF raw(1)] reload_Inr [OF raw(2)])
  have re: "read_goal e k = Inr (Some h)" using r key by simp
  show "same_budget k c e" using re b a(2) bc by (simp add: same_budget_def budget_def)
  have st: "g_status h = g_status u" using reload_Inr(3) [OF u(2)] by simp
  from h(2) assms(3) have "g_status h \<noteq> G_done" "jr_verdict (reply_result reply) \<noteq> V_needs_input" "g_status h \<noteq> G_paused"
    "jr_verdict (reply_result reply) \<noteq> V_wait" and dc: "\<exists>p q m. dc = decision (Some h) V_continue p q m"
    by (auto simp: judge_decision_def split: if_splits)
  with a(1,3) st b have "is_active h" "g_turns_used h < g_max_turns h" by (auto simp: is_active_def budget_def)
  with re dc show "turn_licensed k dc e" by (auto simp: turn_licensed_def named_in_def)
qed

section \<open>A whole evaluation\<close>

text \<open>Turns left weigh more than retries left; every continuation lowers the sum.\<close>

definition allowance :: "goal_state \<Rightarrow> nat" where
  "allowance g = 3 * nat (g_max_turns g - g_turns_used g) + nat (MAX_COMPACTION_FAILURES - g_consecutive_compaction_failures g)"

lemma allowance_budget: "budget g = budget h \<Longrightarrow> allowance g = allowance h"
  by (simp add: budget_def allowance_def)

definition lowered :: "string \<Rightarrow> goal_state \<Rightarrow> goal_db \<Rightarrow> bool" where
  "lowered k c d \<longleftrightarrow> (\<exists>h. read_goal d k = Inr (Some h) \<and> allowance h < allowance c)"

lemma spend_outcome:
  assumes "orderly env" "spend_turn env k r s db = (e, Inr dc)" "dc_should_continue dc" "hex_ok db"
    "read_goal db k = Inr (Some c)" "g_session_key s = k" "below_cap k e"
  shows "turn_licensed k dc e" "lowered k c e"
proof -
  let ?rest = "\<lambda>t. and_then (evaluate_gates (sr_gate env) [0..<length (g_gates t)] t) (\<lambda>dc.
         case dc of Some d \<Rightarrow> give d | None \<Rightarrow> judge_turn (sr_judge env) k)"
  have g: "\<And>g db. goal_step\<^sup>*\<^sup>* db (fst (sr_gate env g db))" and j: "\<And>g db. goal_step\<^sup>*\<^sup>* db (fst (sr_judge env g db))"
    using assms(1) by (simp_all add: orderly_def)
  from assms(2,3) obtain t d where t: "compare_and_update s (consume_turn (goal_clock db) (tr_run_id r)) db = (d, Inr t)"
    and rest: "?rest t d = (e, Inr dc)"
    by (auto simp: spend_turn_def or_skipped_def and_then_def give_def get_goal_def split: prod.splits sum.splits goal_error.splits)
  from assms(4) t obtain c' u where c': "read_goal db (g_session_key s) = Inr (Some c')"
    and u: "consume_turn (goal_clock db) (tr_run_id r) (retrim c') = Inr u" "reload (goal_hex db) (stamped db (Some c') u) = Inr t"
    and d: "read_goal d (g_session_key s) = Inr (Some t)" "hex_ok d" "g_session_key t = g_session_key s" and vc: "valid_goal c'"
    by (rule cas_ok)
  have c: "c' = c" using c' assms(5,6) by simp
  have t_read: "read_goal d k = Inr (Some t)" and t_key: "g_session_key t = k" using d assms(6) by simp_all
  have t_active: "is_active t"
    using u(1) by (auto simp: consume_turn_def is_active_def reload_Inr(3) [OF u(2)] split: if_splits)
  have t_budget: "budget t = (bounded_int 0 1000000 (g_turns_used c + 1), g_max_turns c, 0)"
    using u(1) vc by (auto simp: consume_turn_def budget_def reload_Inr [OF u(2)] c valid_goal_def bounded_int_def split: if_splits)
  from rest obtain q d2 where q: "evaluate_gates (sr_gate env) [0..<length (g_gates t)] t d = (d2, Inr q)"
    and q2: "(case q of Some x \<Rightarrow> give x | None \<Rightarrow> judge_turn (sr_judge env) k) d2 = (e, Inr dc)"
    by (auto simp: and_then_def split: prod.splits sum.splits)
  have both: "turn_licensed k dc e \<and> same_budget k t e"
  proof (cases q)
    case (Some x)
    with q2 have "e = d2" "x = dc" by (simp_all add: give_def)
    with gates_outcome [OF g q d(2) t_read t_active t_key] assms(3,7) Some show ?thesis by blast
  next
    case None
    with q2 have jt: "judge_turn (sr_judge env) k d2 = (e, Inr dc)" by simp
    have "runs (judge_turn (sr_judge env) k)" by (rule runs_judge) (rule j)
    then have "goal_step\<^sup>*\<^sup>* d2 e" by (metis fst_conv jt runs_def)
    then have "below_cap k d2" using assms(7) by (rule below_cap_before)
    with gates_outcome [OF g q d(2) t_read t_active t_key] None obtain h where h: "read_goal d2 k = Inr (Some h)" "budget h = budget t"
      by (auto simp: same_budget_def)
    have "runs (evaluate_gates (sr_gate env) [0..<length (g_gates t)] t)" by (rule runs_gates) (rule g)
    then have "goal_step\<^sup>*\<^sup>* d d2" by (metis fst_conv q runs_def)
    then have "hex_ok d2" using d(2) by (rule run_hex)
    with judge_outcome [OF j jt assms(3) _ h(1) assms(7)] h(2) show ?thesis by (auto simp: same_budget_def)
  qed
  then show "turn_licensed k dc e" ..
  from both obtain h where h: "read_goal e k = Inr (Some h)" "budget h = budget t" "g_turns_used h < g_max_turns h"
    by (auto simp: same_budget_def turn_licensed_def)
  have "0 \<le> g_turns_used c" "g_turns_used c \<le> 1000000" "g_max_turns c \<le> 10000" using vc c by (simp_all add: valid_goal_def)
  with h(2,3) t_budget have "g_turns_used h = g_turns_used c + 1" "g_max_turns h = g_max_turns c" "g_consecutive_compaction_failures h = 0"
    by (auto simp: budget_def bounded_int_def split: if_splits)
  with h(1,3) show "lowered k c e" by (auto simp: lowered_def allowance_def MAX_COMPACTION_FAILURES_def)
qed

lemma compaction_outcome:
  assumes "after_compaction_failure k s db = (e, Inr dc)" "dc_should_continue dc" "hex_ok db"
    "read_goal db k = Inr (Some c)" "g_session_key s = k"
  shows "retry_licensed k dc e" "lowered k c e"
proof -
  from assms(1,2) obtain d g where cas: "compare_and_update s record_compaction_failure db = (d, Inr g)"
    and np: "g_status g \<noteq> G_paused" "e = d" "\<exists>p q m. dc = decision (Some g) V_skipped p q m"
    unfolding after_compaction_failure_def by (elim or_skipped_continue) (auto simp: give_def split: if_splits)
  from assms(3) cas obtain c' u where c': "read_goal db (g_session_key s) = Inr (Some c')"
    and u: "record_compaction_failure (retrim c') = Inr u" "reload (goal_hex db) (stamped db (Some c') u) = Inr g"
    and r: "read_goal d (g_session_key s) = Inr (Some g)" and vc: "valid_goal c'"
    by (rule cas_ok)
  have c: "c' = c" using c' assms(4,5) by simp
  note st = reload_Inr(3) [OF u(2)]
  from u(1) np(1) st have a: "is_active c" "g_status u = g_status c" "g_turns_used u = g_turns_used c" "g_max_turns u = g_max_turns c"
      "g_consecutive_compaction_failures u = g_consecutive_compaction_failures c + 1"
      "g_consecutive_compaction_failures u < MAX_COMPACTION_FAILURES"
    by (auto simp: record_compaction_failure_def Let_def c split: if_splits)
  have f: "is_active g" "g_consecutive_compaction_failures g = g_consecutive_compaction_failures c + 1"
    "g_turns_used g = g_turns_used c" "g_max_turns g = g_max_turns c"
    using a vc st by (simp_all add: is_active_def bounded_int_def valid_goal_def MAX_COMPACTION_FAILURES_def reload_Inr [OF u(2)] c)
  with a r assms(5) np show "retry_licensed k dc e" by (auto simp: retry_licensed_def named_in_def)
  have "0 \<le> g_consecutive_compaction_failures c" using vc c by (simp add: valid_goal_def)
  with f a r assms(5) np(2) show "lowered k c e" by (auto simp: lowered_def allowance_def)
qed

text \<open>Polling the barrier leaves the counters alone.\<close>

lemma poll_outcome:
  assumes "waiting_state alive busy k db = (d, Inr w)" "hex_ok db" "read_goal db k = Inr (Some c)"
  shows "hex_ok d" "same_budget k c d" "\<forall>x. w = Some x \<longrightarrow> g_session_key x = k"
proof -
  have get: "get_goal k db = (db, Inr (Some (retrim c)))" using get_goal_read [OF assms(2,3)] by simp
  have key: "g_session_key (retrim c) = k" using assms(3) by (elim read_goal_Some) simp
  let ?cas = "compare_and_update (retrim c) (\<lambda>c. Inr (clear_wait c)) db"
  have cases: "(d = db \<and> (w = None \<or> w = Some (retrim c))) \<or> (\<exists>g. ?cas = (d, Inr g) \<and> w = Some g)"
  proof (cases "\<exists>t x. ?cas = (x, Inl (Conflict t))")
    case True
    then obtain t x where "?cas = (x, Inl (Conflict t))" by blast
    moreover from cas_conflict [OF assms(2) this] have "x = db" .
    ultimately show ?thesis
      using assms(1) by (auto simp: waiting_state_def and_then_def get give_def on_conflict_def split: if_splits)
  next
    case False
    then show ?thesis
      using assms(1) by (auto simp: waiting_state_def and_then_def get give_def on_conflict_def split: if_splits prod.splits sum.splits goal_error.splits)
  qed
  then have "hex_ok d \<and> same_budget k c d \<and> (\<forall>x. w = Some x \<longrightarrow> g_session_key x = k)"
  proof (elim disjE exE conjE)
    fix g assume cas: "?cas = (d, Inr g)" and w: "w = Some g"
    from assms(2) cas obtain c' u where c': "read_goal db (g_session_key (retrim c)) = Inr (Some c')"
      and u: "Inr (clear_wait (retrim c')) = (Inr u :: goal_error + goal_state)" "reload (goal_hex db) (stamped db (Some c') u) = Inr g"
      and r: "read_goal d (g_session_key (retrim c)) = Inr (Some g)" "hex_ok d" "g_session_key g = g_session_key (retrim c)" and vc: "valid_goal c'"
      by (rule cas_ok)
    have "budget g = budget c'"
      using u(1) vc by (auto simp: budget_def clear_wait_def valid_goal_def bounded_int_def reload_Inr [OF u(2)])
    with r c' key assms(3) w show ?thesis by (auto simp: same_budget_def)
  qed (use assms key in \<open>auto simp: same_budget_def\<close>)
  then show "hex_ok d" "same_budget k c d" "\<forall>x. w = Some x \<longrightarrow> g_session_key x = k" by blast+
qed

lemma evaluate_outcome:
  assumes "orderly env" "evaluate_after_turn env k r db = (e, Inr dc)" "dc_should_continue dc" "hex_ok db" "below_cap k e"
  obtains c where "read_goal db k = Inr (Some c)" "is_active c" "licensed k dc e" "lowered k c e"
proof -
  from assms(2,3) obtain s where get: "get_goal k db = (db, Inr (Some s))" and act: "is_active s"
    and eq: "(if tr_aborted r then after_abort k s else if tr_compaction_failed r then after_compaction_failure k s
      else if turn_failed r then after_failure k r s else after_success env k r s) db = (e, Inr dc)"
    by (auto simp: evaluate_after_turn_def and_then_def get_goal_def give_def split: sum.splits option.splits if_splits)
  from assms(4) get obtain c where c: "read_goal db k = Inr (Some c)" "s = retrim c" "g_session_key s = k" by (rule get_goal_Some)
  have "licensed k dc e \<and> lowered k c e"
  proof (cases "tr_aborted r \<or> tr_compaction_failed r \<or> turn_failed r")
    case True
    with eq assms(3) abort_stops failure_stops have "after_compaction_failure k s db = (e, Inr dc)" by (auto split: if_splits)
    from compaction_outcome [OF this assms(3,4) c(1,3)] show ?thesis by (simp add: licensed_def)
  next
    case False
    with eq have "after_success env k r s db = (e, Inr dc)" by simp
    then obtain d w where w: "waiting_state (sr_alive env) (sr_busy env) k db = (d, Inr w)"
      and rest: "(case w of None \<Rightarrow> spend_turn env k r s | Some x \<Rightarrow> if has_wait x
         then give (decision (Some x) V_waiting None
           (if truthy (g_waiting_reason x) then the (g_waiting_reason x) else ''wait barrier is active'')
           ([glass_sign] @ '' Goal is parked until its wait condition is satisfied.''))
         else spend_turn env k r x) d = (e, Inr dc)"
      by (auto simp: after_success_def and_then_def split: prod.splits sum.splits)
    note p = poll_outcome [OF w assms(4) c(1)]
    from p(2) obtain c' where c': "read_goal d k = Inr (Some c')" "budget c' = budget c" by (auto simp: same_budget_def)
    from rest assms(3) obtain x where x: "spend_turn env k r x d = (e, Inr dc)" "g_session_key x = k"
      using c(3) p(3) by (cases w) (auto simp: give_def split: if_splits)
    from spend_outcome [OF assms(1) x(1) assms(3) p(1) c'(1) x(2) assms(5)] allowance_budget [OF c'(2)]
    show ?thesis by (simp add: licensed_def lowered_def)
  qed
  with c act show ?thesis by (intro that) auto
qed

end
