(* ===== verification/Goal_Protocol.thy ===== *)
theory Goal_Protocol
  imports Goal_Autonomy
begin

text \<open>
  The protocols around a goal: writers that race on one version, goals that were cleared, generations
  that were replaced, verdicts that arrive late, replies that unpark a goal, and runs of autonomous
  turns.
\<close>

section \<open>Racing writers\<close>

lemma cas_after_success:
  assumes "hex_ok db" "compare_and_update s f db = (d, Inr g)" "goal_step\<^sup>*\<^sup>* d d'" "below_cap (g_session_key s) db"
    "g_session_key s' = g_session_key s" "same_version s s'"
  obtains e where "compare_and_update s' f' d' = (d', Inl e)"
proof -
  let ?k = "g_session_key s"
  from assms(1,2) obtain c u where c: "read_goal db ?k = Inr (Some c)" "same_version s c"
    and u: "f (retrim c) = Inr u" "reload (goal_hex db) (stamped db (Some c) u) = Inr g"
    and r: "read_goal d ?k = Inr (Some g)" by (rule cas_ok)
  have "0 \<le> g_revision c" "g_revision c < revision_cap"
    using read_goal_valid [OF c(1)] assms(4) by (simp_all add: valid_goal_def read_below_cap [OF c(1)])
  then have "g_revision g = g_revision c + 1"
    by (simp add: reload_Inr(5) [OF u(2)] stamped_def bounded_int_def revision_cap_def)
  with read_revision [OF r] goal_revision.run_up [OF assms(3), of ?k] have up: "g_revision c < stored_revision ?k d'" by simp
  show ?thesis
  proof (cases "read_goal d' ?k")
    case (Inl e)
    then have "compare_and_update s' f' d' = (d', Inl e)"
      by (simp add: compare_and_update_def update_goal_def update_with_def assms(5))
    then show ?thesis by (rule that)
  next
    case (Inr cur)
    have "\<forall>x. cur = Some x \<longrightarrow> \<not> same_version s' x"
      using read_revision [OF Inr] up c(2) assms(6) by (auto simp: same_version_def)
    with Inr assms(5) obtain t where "compare_and_update s' f' d' = (d', Inl (Conflict t))" using cas_stale by metis
    then show ?thesis by (rule that)
  qed
qed

section \<open>Cleared goals\<close>

definition goal_cleared :: "string \<Rightarrow> goal_db \<Rightarrow> bool" where
  "goal_cleared k db \<longleftrightarrow> (\<exists>raw. goal_files db k = Some raw \<and> g_status raw = G_cleared)"

lemma cleared_clone:
  assumes "goal_cleared k db" "read_goal db k = Inr cur" "clone_opt f cur = Inr w"
  obtains c g where "cur = Some c" "w = Some g" "g_status g = G_cleared" "g_status c = G_cleared"
  using assms by (auto simp: goal_cleared_def read_goal_def clone_opt_def ok_iffs reload_Inr(3) split: sum.splits if_splits)

lemma cleared_refuses:
  assumes "goal_cleared k db" "\<And>g. g_status g = G_cleared \<Longrightarrow> \<exists>e. f (Some g) = Inl e"
  shows "fst (update_with k f eid erev db) = db"
proof -
  have "\<exists>e. on_ok (clone_opt h cur) f = Inl e" if "read_goal db k = Inr cur" for cur h
  proof (cases "clone_opt h cur")
    case (Inr w)
    from assms(1) that Inr obtain g where "w = Some g" "g_status g = G_cleared" by (rule cleared_clone)
    with Inr assms(2) [of g] show ?thesis by simp
  qed simp
  then show ?thesis
    by (auto simp: update_with_def split: sum.split) (metis Inl_Inr_False)
qed

lemma cleared_update:
  assumes "goal_cleared k db" "\<And>g. g_status g = G_cleared \<Longrightarrow> \<exists>e. f (Some g) = Inl e"
  shows "fst (update_goal k f eid erev db) = db"
proof -
  have "fst (update_with k (\<lambda>c. on_ok (f c) (\<lambda>g. Inr (g, ()))) eid erev db) = db"
    by (rule cleared_refuses [OF assms(1)]) (use assms(2) in fastforce)
  then show ?thesis by (simp add: update_goal_def case_prod_beta)
qed

lemma cleared_get:
  assumes "goal_cleared k db" "snd (get_goal k db) = Inr st"
  obtains g where "st = Some g" "g_status g = G_cleared"
proof -
  from assms(2) obtain cur where c: "read_goal db k = Inr cur" "clone_opt (goal_hex db) cur = Inr st" by (auto simp: get_goal_def ok_iffs)
  from assms(1) c obtain g where "st = Some g" "g_status g = G_cleared" by (rule cleared_clone)
  then show ?thesis by (rule that)
qed

fun sets_goal :: "goal_control \<Rightarrow> bool" where
  "sets_goal (Set_goal _ _ _ _ _ _) = True"
| "sets_goal _ = False"

lemmas live_guards = require_live_goal_def require_goal_def require_active_goal_def

lemma cleared_write:
  assumes "goal_cleared k db"
  shows "goal_cleared k (fst (update_goal k (\<lambda>c. on_ok (require_goal c) (\<lambda>s. Inr (cleared_goal epoch s))) eid erev db))"
proof -
  have "g_status (cleared_goal epoch s) = G_cleared" for s
    by (simp add: cleared_goal_def clear_wait_def Let_def split: option.split)
  then show ?thesis
    using assms by (auto simp: update_goal_def update_with_def commit_def Let_def ok_iffs require_goal_def write_goal_def goal_cleared_def
      stamped_def case_prod_beta split: sum.split option.splits)
qed

lemma perform_cleared:
  assumes "goal_cleared k db" "\<not> sets_goal c"
  shows "goal_cleared k (perform k c db)"
proof (cases c)
  case (Clear_goal ep eid erev)
  then show ?thesis
    using assms(1) cleared_write [OF assms(1)] by (auto simp: clear_goal_def op_effects split: sum.split)
next
  case User_replied
  then show ?thesis
    using assms(1) by (auto simp: resume_for_user_input_def op_effects awaits_input_def split: sum.split option.split elim: cleared_get)
next
  case (Poll_wait alive busy)
  then show ?thesis
    using assms(1) by (auto simp: waiting_state_def op_effects is_active_def split: sum.split option.split elim: cleared_get)
next
  case (Attach_contract goal_id con)
  then show ?thesis
    using assms(1) by (auto simp: attach_contract_def fst_or_none live_guards cleared_update split: option.split)
qed (use assms in \<open>auto simp: pause_def resume_def add_subgoal_def remove_subgoal_def clear_subgoals_def add_gate_def remove_gate_def
  clear_gates_def wait_on_pid_def wait_on_session_def wait_for_seconds_def wait_on_def stop_waiting_def live_guards
  cleared_update cleared_refuses split: sum.split\<close>)

text \<open>Every control but a new goal in this conversation.\<close>

definition unset_step :: "string \<Rightarrow> goal_db \<Rightarrow> goal_db \<Rightarrow> bool" where
  "unset_step k db d \<longleftrightarrow> (\<exists>k' c. d = perform k' c db \<and> (k' = k \<longrightarrow> \<not> sets_goal c))"

interpretation cleared_goals: guarded_system "goal_cleared k" "unset_step k" "goal_cleared k" for k
proof
  fix db d assume "goal_cleared k db" "unset_step k db d"
  then obtain k' c where c: "d = perform k' c db" "k' = k \<longrightarrow> \<not> sets_goal c" by (auto simp: unset_step_def)
  show "goal_cleared k d"
  proof (cases "k' = k")
    case True
    with c perform_cleared \<open>goal_cleared k db\<close> show ?thesis by simp
  next
    case False
    with goal_write_frame(3) [OF perform_write [of k' db c], of k] \<open>goal_cleared k db\<close> show ?thesis by (simp add: c goal_cleared_def)
  qed
qed

lemma evaluate_cleared:
  assumes "goal_cleared k db" "evaluate_after_turn env k r db = (d, Inr dc)"
  shows "d = db" "dc_verdict dc = V_inactive" "\<not> dc_should_continue dc"
proof -
  obtain x where "get_goal k db = (db, x)" by (simp add: get_goal_def)
  with assms obtain st where st: "get_goal k db = (db, Inr st)" by (cases x) (auto simp: evaluate_after_turn_def and_then_def)
  from assms(1) obtain g where "st = Some g" "g_status g = G_cleared" by (rule cleared_get) (simp add: st)
  with assms(2) show "d = db" "dc_verdict dc = V_inactive" "\<not> dc_should_continue dc"
    by (auto simp: evaluate_after_turn_def and_then_def st is_active_def give_def)
qed

section \<open>Replaced generations\<close>

lemma new_goal_Inr:
  assumes "new_goal now hex k goal n con ep run = Inr u" "strip hex = hex"
  shows "g_goal_id u = hex" "g_status u = G_active" "g_turns_used u = 0"
  using assms(1) unfolding new_goal_def
  by (rule post_init_elim, simp add: normalised_def assms(2) bounded_int_def)+

lemma set_goal_replaces:
  assumes "hex_ok db" "read_goal db k = Inr (Some c)" "g_goal_id c \<noteq> goal_hex db" "1 \<le> g_revision c"
    "set_goal turn n k goal mt con ep db = (d, Inr g)"
  shows "get_generation k (g_goal_id c) d = (d, Inr (Some (generation_proof c)))" "g_goal_id g = goal_hex db"
    "is_active g" "g_turns_used g = 0" "read_goal d k = Inr (Some g)"
proof -
  have pre: "check_preconditions (Some c) None None = Inr ()" by (simp add: check_preconditions_def)
  have hex: "strip (goal_hex db) = goal_hex db" "goal_hex db \<noteq> ''''" using assms(1) by (simp_all add: hex_ok_def)
  from assms(5) obtain u where u: "new_goal (goal_clock db) (goal_hex db) k goal
       (case mt of Some n' \<Rightarrow> if n' = 0 then default_turns n else n' | None \<Rightarrow> default_turns n)
       (case con of None \<Rightarrow> empty_contract | Some x \<Rightarrow> x) ep (creating_run_id turn k) = Inr u" "g_session_key u = k"
    and com: "commit k (Some c) u db = (d, Inr g)"
    unfolding set_goal_def update_goal_run [OF assms(1,2) pre] by (auto split: sum.splits if_splits)
  note nu = new_goal_Inr [OF u(1) hex(1)]
  from assms(2) obtain raw where key: "g_session_key c = k" "strip k = k" by (rule read_goal_Some)
  note cr = commit_result [OF com u(2) key(2)]
  have g: "reload (goal_hex db) (stamped db (Some c) u) = Inr g" using cr(3) by simp
  show "read_goal d k = Inr (Some g)" by (rule cr(4)) simp
  have st: "g_goal_id (stamped db (Some c) u) = goal_hex db" by (simp add: stamped_def nu)
  show id: "g_goal_id g = goal_hex db" using hex by (simp add: reload_Inr(4) [OF g] st)
  show "is_active g" "g_turns_used g = 0"
    using nu by (simp_all add: is_active_def reload_Inr [OF g] bounded_int_def stamped_def)
  have "goal_history d (k, g_goal_id c) = Some (generation_proof c)"
    using com st assms(3) key(1) by (auto simp: commit_def Let_def write_goal_def archive_replaced_def)
  then show "get_generation k (g_goal_id c) d = (d, Inr (Some (generation_proof c)))"
    using \<open>read_goal d k = Inr (Some g)\<close> id assms(3,4) key(1) by (simp add: get_generation_def generation_proof_def)
qed

section \<open>Late verdicts\<close>

lemma judge_turn_stale:
  assumes "hex_ok db" "read_goal db k = Inr (Some g)" "is_active g" "ask (retrim g) db = (d, reply)" "hex_ok d"
    "read_goal d k = Inr cur" "\<forall>c. cur = Some c \<longrightarrow> \<not> same_version g c"
  shows "judge_turn ask k db = (d, Inr (skipped (map_option retrim cur) ''goal changed during judging''))"
proof -
  have get: "get_goal k db = (db, Inr (Some (retrim g)))" using get_goal_read [OF assms(1,2)] by simp
  have get2: "get_goal k d = (d, Inr (map_option retrim cur))" by (rule get_goal_read [OF assms(5,6)])
  from assms(2) obtain raw where "g_session_key g = k" by (rule read_goal_Some)
  then have "read_goal d (g_session_key (retrim g)) = Inr cur" "\<forall>c. cur = Some c \<longrightarrow> \<not> same_version (retrim g) c"
    using assms(6,7) by (auto simp: same_version_def)
  then obtain t where "compare_and_update (retrim g) (apply_judge_result (goal_clock d) (reply_result reply)
      (case reply of Parse_failed _ \<Rightarrow> True | _ \<Rightarrow> False) (case reply of Transport_failed _ \<Rightarrow> True | _ \<Rightarrow> False)) d = (d, Inl (Conflict t))"
    by (rule cas_stale)
  with assms(3,4) show ?thesis by (simp add: judge_turn_def and_then_def get get2 or_skipped_def give_def)
qed

section \<open>Resuming\<close>

lemma reply_resumes:
  assumes "hex_ok db" "get_goal k db = (db, Inr (Some s))" "awaits_input s" "resume_for_user_input k db = (d, Inr r)"
  obtains g where "r = Some g" "is_active g" "budget g = budget s" "g_paused_reason g = None"
    "g_consecutive_parse_failures g = g_consecutive_parse_failures s"
    "g_consecutive_transport_failures g = g_consecutive_transport_failures s"
proof -
  from assms(1,2) obtain c where c: "read_goal db k = Inr (Some c)" "s = retrim c" "reload (goal_hex db) c = Inr s" "g_session_key s = k"
    by (rule get_goal_Some)
  have "compare_and_update s unpark db = commit k (Some c) (s\<lparr>g_status := G_active, g_paused_reason := None\<rparr>) db"
    using cas_run [OF assms(1) c(1) _ c(4)] assms(3) c(2,4) by (simp add: unpark_def)
  moreover obtain d' v where v: "commit k (Some c) (s\<lparr>g_status := G_active, g_paused_reason := None\<rparr>) db = (d', v)"
    by (cases "commit k (Some c) (s\<lparr>g_status := G_active, g_paused_reason := None\<rparr>) db")
  ultimately have cas: "compare_and_update s unpark db = (d', v)" by simp
  from c(1) obtain raw where "strip k = k" by (rule read_goal_Some)
  from commit_result(3) [OF v _ this] c(4) have vr: "v = reload (goal_hex db) (stamped db (Some c) (s\<lparr>g_status := G_active, g_paused_reason := None\<rparr>))" by simp
  with reload_no_conflict have "\<forall>t. v \<noteq> Inl (Conflict t)" by metis
  with assms(4) obtain g where g: "r = Some g" "v = Inr g"
    by (cases v; auto simp: resume_for_user_input_def and_then_def assms(2,3) on_conflict_def cas give_def split: goal_error.splits)
  with vr have rl: "reload (goal_hex db) (stamped db (Some c) (s\<lparr>g_status := G_active, g_paused_reason := None\<rparr>)) = Inr g" by simp
  have "g_paused_reason g = None"
    using rl by (rule reload_elim) (simp add: normalised_def stamped_def clean_optional_def)
  moreover have "is_active g" by (simp add: is_active_def reload_Inr(3) [OF rl])
  moreover have "budget g = budget s" "g_consecutive_parse_failures g = g_consecutive_parse_failures s"
    "g_consecutive_transport_failures g = g_consecutive_transport_failures s"
    by (simp_all add: budget_def reload_Inr [OF rl] reload_Inr [OF c(3)] stamped_def)
  ultimately show ?thesis by (intro that [OF g(1)])
qed

section \<open>Autonomous runs\<close>

text \<open>A sequence of turns that were all continued, and the store after it.\<close>

fun keeps_going :: "string \<Rightarrow> (surroundings \<times> turn_report) list \<Rightarrow> goal_db \<Rightarrow> bool" where
  "keeps_going k [] db = True"
| "keeps_going k ((env, r) # ts) db =
     (case evaluate_after_turn env k r db of
        (d, Inr dc) \<Rightarrow> dc_should_continue dc \<and> keeps_going k ts d
      | (d, Inl e) \<Rightarrow> False)"

fun after_turns :: "string \<Rightarrow> (surroundings \<times> turn_report) list \<Rightarrow> goal_db \<Rightarrow> goal_db" where
  "after_turns k [] db = db"
| "after_turns k ((env, r) # ts) db = after_turns k ts (fst (evaluate_after_turn env k r db))"

lemma after_turns_run: "\<forall>(env, r) \<in> set ts. orderly env \<Longrightarrow> goal_step\<^sup>*\<^sup>* db (after_turns k ts db)"
proof (induction k ts db rule: after_turns.induct)
  case (2 k env r ts db)
  then have "goal_step\<^sup>*\<^sup>* db (fst (evaluate_after_turn env k r db))" using runs_evaluate by (auto simp: runs_def)
  with 2 show ?case by (auto intro: rtranclp_trans)
qed simp

lemma autonomous_run:
  "keeps_going k ts db \<Longrightarrow> \<forall>(env, r) \<in> set ts. orderly env \<Longrightarrow> hex_ok db \<Longrightarrow> below_cap k (after_turns k ts db) \<Longrightarrow>
    read_goal db k = Inr (Some c) \<Longrightarrow> length ts \<le> allowance c"
proof (induction k ts db arbitrary: c rule: after_turns.induct)
  case (2 k env r ts db)
  obtain d v where d: "evaluate_after_turn env k r db = (d, v)" by (cases "evaluate_after_turn env k r db")
  with "2.prems"(1) obtain dc where v: "v = Inr dc" "dc_should_continue dc" "keeps_going k ts d" by (cases v) auto
  have env: "orderly env" "\<forall>(env, r) \<in> set ts. orderly env" using "2.prems"(2) by auto
  have "below_cap k d" using below_cap_before [OF after_turns_run [OF env(2)]] "2.prems"(4) by (simp add: d)
  with env(1) d [unfolded v(1)] v(2) "2.prems"(3) obtain c' where "read_goal db k = Inr (Some c')" "lowered k c' d"
    by (rule evaluate_outcome)
  with "2.prems"(5) obtain h where h: "read_goal d k = Inr (Some h)" "allowance h < allowance c" by (auto simp: lowered_def)
  have "goal_step\<^sup>*\<^sup>* db d" using runs_evaluate [OF env(1), of k r] d by (metis fst_conv runs_def)
  then have "hex_ok d" using "2.prems"(3) by (rule run_hex)
  with "2.IH" [of h] v(3) env(2) "2.prems"(4) h show ?case by (simp add: d)
qed simp

section \<open>Parsed verdicts\<close>

lemma pid_targets_Inr: "pid_targets v = Inr ts \<Longrightarrow> ts = [] \<or> (\<exists>p. ts = [Wait_pid p] \<and> 0 < p)"
  by (auto simp: pid_targets_def split: if_splits option.splits)

lemma time_targets_Inr: "time_targets v = Inr ts \<Longrightarrow> ts = [] \<or> (\<exists>t. ts = [Wait_time t] \<and> 0 < t)"
  by (auto simp: time_targets_def split: if_splits option.splits)

lemma session_targets_cases: "session_targets repr v = [] \<or>
    (\<exists>t. session_targets repr v = [Wait_session t] \<and> strip t \<noteq> '''' \<and> length t \<le> 1000)"
  using strip_take [of "strip (text_or_empty repr v)" 1000] by (auto simp: session_targets_def Let_def)

fun usable_target :: "wait_target \<Rightarrow> bool" where
  "usable_target (Wait_pid p) = (0 < p)"
| "usable_target (Wait_session t) = (strip t \<noteq> '''' \<and> length t \<le> 1000)"
| "usable_target (Wait_time t) = (0 < t)"

lemma set_wait_usable: "usable_target t \<Longrightarrow> \<exists>u. set_wait now (case t of Wait_time s \<Rightarrow> Wait_time (now + s) | _ \<Rightarrow> t) reason g = Inr u"
proof (cases t)
  case (Wait_session s)
  moreover assume "usable_target t"
  ultimately show ?thesis using length_strip [of s] by (simp add: set_wait_def clean_text_def Let_def)
qed (simp_all add: set_wait_def Let_def)

lemma single_target_iff: "(case xs of [] \<Rightarrow> Inl e | [t] \<Rightarrow> Inr (f t) | t # u # us \<Rightarrow> Inl e) = Inr r \<longleftrightarrow> (\<exists>t. xs = [t] \<and> r = f t)"
  by (auto split: list.splits)

lemma if_not_Inr_iff: "(if v \<noteq> w then Inr x else m) = Inr y \<longleftrightarrow> (v \<noteq> w \<and> y = x) \<or> (v = w \<and> m = Inr y)"
  by auto

lemma parsed_verdict:
  assumes "parse_judge_result repr data = Inr r"
  shows "jr_verdict r \<in> {V_done, V_continue, V_needs_input, V_wait}" "jr_reason r \<noteq> ''''" "length (jr_reason r) \<le> MAX_REASON_CHARS"
    "jr_wait r \<noteq> None \<longleftrightarrow> jr_verdict r = V_wait" "\<forall>t. jr_wait r = Some t \<longrightarrow> usable_target t"
proof -
  let ?t = "take MAX_REASON_CHARS (strip (text_or_empty repr (json_get data ''reason'')))"
  let ?reason = "\<lambda>v. if ?t = '''' then ''judge returned '' @ verdict_text v else ?t"
  obtain v where vo: "verdict_of (casefold (strip (text_or_empty repr (raw_verdict data)))) = Some v"
    using assms by (cases "verdict_of (casefold (strip (text_or_empty repr (raw_verdict data))))") (simp_all add: parse_judge_result_def)
  have v: "v \<in> {V_done, V_continue, V_needs_input, V_wait}" and cases: "(v \<noteq> V_wait \<and> r = \<lparr>jr_verdict = v, jr_reason = ?reason v, jr_wait = None\<rparr>)
      \<or> (v = V_wait \<and> (\<exists>ps ts t. pid_targets (json_get data ''wait_on_pid'') = Inr ps \<and> time_targets (json_get data ''wait_for_seconds'') = Inr ts
        \<and> session_targets repr (json_get data ''wait_on_session'') @ ps @ ts = [t]
        \<and> r = \<lparr>jr_verdict = v, jr_reason = ?reason v, jr_wait = Some t\<rparr>))"
    using assms unfolding parse_judge_result_def vo option.case Let_def if_Inl_iff if_not_Inr_iff on_ok_Inr_iff single_target_iff
    by blast+
  show "jr_verdict r \<in> {V_done, V_continue, V_needs_input, V_wait}" "jr_wait r \<noteq> None \<longleftrightarrow> jr_verdict r = V_wait"
    using v cases by auto
  have reason: "jr_reason r = (if ?t = '''' then ''judge returned '' @ verdict_text v else ?t)" using cases by auto
  then show "jr_reason r \<noteq> ''''" by simp
  show "length (jr_reason r) \<le> MAX_REASON_CHARS" using v by (auto simp: reason goal_limits)
  show "\<forall>t. jr_wait r = Some t \<longrightarrow> usable_target t"
    using cases session_targets_cases [of repr "json_get data ''wait_on_session''"]
    by (auto dest!: pid_targets_Inr time_targets_Inr)
qed

lemma parsed_applicable:
  assumes "parse_judge_result repr data = Inr r" "is_active g"
  shows "\<exists>u. apply_judge_result now r pf tf g = Inr u"
proof (cases "jr_verdict r = V_wait")
  case True
  with parsed_verdict(4,5) [OF assms(1)] obtain t where t: "jr_wait r = Some t" "usable_target t" by auto
  from set_wait_usable [OF t(2)] True t(1) assms(2) show ?thesis
    by (cases t) (simp_all add: apply_judge_result_def Let_def)
qed (use assms(2) in \<open>simp add: apply_judge_result_def Let_def\<close>)

end
