(* ===== verification/Goal_Properties.thy ===== *)
theory Goal_Properties
  imports Goal_Protocol
begin

text \<open>
  The properties of standing goals, with the conversation they are exercised on: a goal that was just
  set, one whose context recovery failed once, one that waits for a reply, one that was cleared.
\<close>

section \<open>A concrete conversation\<close>

definition demo_goal :: goal_state where
  "demo_goal = \<lparr>g_session_key = ''chat'', g_goal = ''Ship'', g_status = G_active, g_goal_id = ''a1'', g_schema_version = 1,
     g_revision = 1, g_conversation_epoch = 0, g_turns_used = 0, g_max_turns = 20,
     g_created_at = 1, g_updated_at = 1, g_last_turn_at = 0, g_last_run_id = None,
     g_last_failed_run_id = None, g_created_by_run_id = None, g_last_verdict = None, g_last_reason = None,
     g_paused_reason = None, g_consecutive_parse_failures = 0, g_consecutive_transport_failures = 0,
     g_consecutive_compaction_failures = 0, g_subgoals = [], g_waiting_on_pid = None,
     g_waiting_on_session = None, g_waiting_until = 0, g_waiting_reason = None, g_waiting_since = 0,
     g_contract = empty_contract, g_gates = []\<rparr>"

definition demo_db :: goal_db where
  "demo_db = \<lparr>goal_clock = 2, goal_hex = ''b2'', goal_files = [''chat'' \<mapsto> demo_goal], goal_history = Map.empty\<rparr>"

lemma demo_db_set: "goal_files (fst (set_goal None 20 ''chat'' ''Ship'' None None 0 (empty_goals 1 ''a1''))) ''chat'' = goal_files demo_db ''chat''"
  by code_simp

text \<open>Surroundings in which nothing else happens and the judge asks for more work.\<close>

definition demo_env :: surroundings where
  "demo_env = \<lparr>sr_alive = (\<lambda>_. False), sr_busy = (\<lambda>_. False),
     sr_gate = (\<lambda>g db. (db, \<lparr>ws_cwd = ''w'', ws_is_dir = True, ws_fingerprint = '''', ws_end = Exited 0 ''''\<rparr>)),
     sr_judge = (\<lambda>g db. (db, Judged \<lparr>jr_verdict = V_continue, jr_reason = ''more'', jr_wait = None\<rparr>))\<rparr>"

definition demo_report :: turn_report where
  "demo_report = \<lparr>tr_response = ''ok'', tr_succeeded = True, tr_aborted = False, tr_provider_error = False,
     tr_compaction_failed = False, tr_run_id = None, tr_expected_goal_id = Some ''a1'', tr_expected_revision = Some 1\<rparr>"

definition demo_lost :: turn_report where
  "demo_lost = demo_report\<lparr>tr_compaction_failed := True\<rparr>"

lemma demo_hex: "hex_ok demo_db"
  by code_simp

lemma demo_file: "goal_files demo_db ''chat'' = Some demo_goal"
  by code_simp

lemma demo_read: "read_goal demo_db ''chat'' = Inr (Some demo_goal)"
  by code_simp

lemma demo_orderly: "orderly demo_env"
  by (simp add: orderly_def demo_env_def)

section \<open>Properties\<close>

text \<open>C16. A goal record that was read from disk is within every limit of the model, whoever wrote it: key, goal
  text, criteria, run ids, verdict, reasons and the awaited session are cleaned and no longer than allowed, and an
  optional text is absent rather than empty; the criteria are at most fifty and differ beyond case; gates and contract
  are valid; revision, epoch, turn and failure counters are in range, times are not negative and an awaited process
  id is positive; a goal that was not cleared has a text, and it waits for at most one target. It is the record of
  the session that was asked for and has an identity.\<close>

theorem goal_record_valid:
  assumes "read_goal db k = Inr (Some g)" "hex_ok db"
  shows "valid_goal g \<and> g_session_key g = k \<and> strip (g_goal_id g) = g_goal_id g \<and> g_goal_id g \<noteq> ''''"
proof -
  obtain raw where "reload (goal_hex db) raw = Inr g" "g_session_key g = k" using assms(1) by (rule read_goal_Some)
  with assms show ?thesis using read_goal_valid reload_Inr(4) by (simp add: hex_ok_def)
qed

theorem goal_record_valid_witness: "valid_goal demo_goal \<and> g_goal_id demo_goal \<noteq> ''''"
  using goal_record_valid [OF demo_read demo_hex] by blast

text \<open>C17. An evaluation lets the agent continue only with a goal that is on disk, active, and named by its
  current generation and revision in the decision, and only within the limits: with turns left, or
  before the second failed context recovery. This holds whatever other controls run while a gate or the
  judge is awaited.\<close>

theorem continuation_licensed:
  assumes "orderly env" "hex_ok db" "evaluate_after_turn env k r db = (e, Inr dc)" "dc_should_continue dc"
    "stored_revision k e < revision_cap"
  shows "(\<exists>c. read_goal db k = Inr (Some c) \<and> is_active c)
    \<and> (\<exists>g. read_goal e k = Inr (Some g) \<and> is_active g \<and> dc_goal_id dc = Some (g_goal_id g) \<and> dc_revision dc = Some (g_revision g)
       \<and> (dc_verdict dc \<in> {V_continue, V_gate_failed} \<and> g_turns_used g < g_max_turns g
          \<or> dc_verdict dc = V_skipped \<and> g_consecutive_compaction_failures g < MAX_COMPACTION_FAILURES))"
proof -
  have "below_cap k e" using assms(5) by (simp add: below_cap_def)
  with assms(1,3,4,2) obtain c where "read_goal db k = Inr (Some c)" "is_active c" "licensed k dc e" by (rule evaluate_outcome)
  then show ?thesis by (auto simp: licensed_def turn_licensed_def retry_licensed_def named_in_def)
qed

lemma demo_retry:
  obtains d dc where "evaluate_after_turn demo_env ''chat'' demo_lost demo_db = (d, Inr dc)" "dc_should_continue dc"
    "stored_revision ''chat'' d < revision_cap" "dc_verdict dc = V_skipped"
proof -
  have "case evaluate_after_turn demo_env ''chat'' demo_lost demo_db of (d, Inr dc) \<Rightarrow>
      dc_should_continue dc \<and> stored_revision ''chat'' d < revision_cap \<and> dc_verdict dc = V_skipped | _ \<Rightarrow> False"
    by code_simp
  then show ?thesis by (auto split: prod.splits sum.splits intro: that)
qed

theorem continuation_licensed_witness:
  "\<exists>g. read_goal (fst (evaluate_after_turn demo_env ''chat'' demo_lost demo_db)) ''chat'' = Inr (Some g) \<and> is_active g
     \<and> g_consecutive_compaction_failures g < MAX_COMPACTION_FAILURES"
proof -
  obtain d dc where r: "evaluate_after_turn demo_env ''chat'' demo_lost demo_db = (d, Inr dc)" "dc_should_continue dc"
    "stored_revision ''chat'' d < revision_cap" "dc_verdict dc = V_skipped" by (rule demo_retry)
  from continuation_licensed [OF demo_orderly demo_hex r(1-3)] r(1,4) show ?thesis by auto
qed

text \<open>C18. Without a reset by the user the agent does not go on for ever: a run of turns that are all continued is
  no longer than three times the turns left plus two, whatever the gates and the judge answer.\<close>

theorem autonomy_bounded:
  assumes "keeps_going k ts db" "\<forall>(env, r) \<in> set ts. orderly env" "hex_ok db" "read_goal db k = Inr (Some c)"
    "stored_revision k (after_turns k ts db) < revision_cap"
  shows "length ts \<le> 3 * nat (g_max_turns c - g_turns_used c) + 2"
proof -
  have "below_cap k (after_turns k ts db)" using assms(5) by (simp add: below_cap_def)
  from autonomous_run [OF assms(1-3) this assms(4)] have "length ts \<le> allowance c" .
  moreover have "0 \<le> g_consecutive_compaction_failures c" using read_goal_valid [OF assms(4)] by (simp add: valid_goal_def)
  ultimately show ?thesis by (simp add: allowance_def MAX_COMPACTION_FAILURES_def)
qed

theorem autonomy_bounded_witness: "length [(demo_env, demo_lost)] \<le> 3 * nat (g_max_turns demo_goal - g_turns_used demo_goal) + 2"
proof -
  obtain d dc where r: "evaluate_after_turn demo_env ''chat'' demo_lost demo_db = (d, Inr dc)" "dc_should_continue dc"
    "stored_revision ''chat'' d < revision_cap" "dc_verdict dc = V_skipped" by (rule demo_retry)
  have "keeps_going ''chat'' [(demo_env, demo_lost)] demo_db" "\<forall>(env, r) \<in> set [(demo_env, demo_lost)]. orderly env"
    "stored_revision ''chat'' (after_turns ''chat'' [(demo_env, demo_lost)] demo_db) < revision_cap"
    using r demo_orderly by simp_all
  from autonomy_bounded [OF this(1,2) demo_hex demo_read this(3)] show ?thesis .
qed

text \<open>A verdict that arrives after the goal was changed, replaced or deleted is dropped: the decision is \<open>skipped\<close>
  with the goal as it is now, and the store is left as the other control left it.\<close>

theorem late_verdict_dropped:
  assumes "hex_ok db" "read_goal db k = Inr (Some g)" "is_active g" "ask (retrim g) db = (d, reply)" "hex_ok d"
    "read_goal d k = Inr cur" "\<forall>c. cur = Some c \<longrightarrow> \<not> same_version g c"
  shows "judge_turn ask k db = (d, Inr (skipped (map_option retrim cur) ''goal changed during judging''))"
  using assms by (rule judge_turn_stale)

definition demo_paused :: goal_db where
  "demo_paused = perform ''chat'' (Pause_goal ''stop'' None None) demo_db"

definition demo_late :: "goal_state \<Rightarrow> goal_db \<Rightarrow> goal_db \<times> judge_reply" where
  "demo_late g db = (demo_paused, Judged \<lparr>jr_verdict = V_done, jr_reason = ''done'', jr_wait = None\<rparr>)"

lemma demo_paused_ok: "hex_ok demo_paused" "is_active demo_goal"
  "\<exists>c. read_goal demo_paused ''chat'' = Inr (Some c) \<and> g_revision c = 2 \<and> g_status c = G_paused"
proof -
  have "case read_goal demo_paused ''chat'' of Inr (Some c) \<Rightarrow> g_revision c = 2 \<and> g_status c = G_paused | _ \<Rightarrow> False" by code_simp
  then show "\<exists>c. read_goal demo_paused ''chat'' = Inr (Some c) \<and> g_revision c = 2 \<and> g_status c = G_paused"
    by (auto split: sum.splits option.splits)
  show "hex_ok demo_paused" "is_active demo_goal" by code_simp+
qed

theorem late_verdict_dropped_witness: "fst (judge_turn demo_late ''chat'' demo_db) = demo_paused"
proof -
  obtain c where c: "read_goal demo_paused ''chat'' = Inr (Some c)" "g_revision c = 2" using demo_paused_ok(3) by blast
  have "\<forall>x. Some c = Some x \<longrightarrow> \<not> same_version demo_goal x" using c(2) by (simp add: same_version_def demo_goal_def)
  from late_verdict_dropped [OF demo_hex demo_read demo_paused_ok(2) _ demo_paused_ok(1) c(1) this,
      of demo_late "Judged \<lparr>jr_verdict = V_done, jr_reason = ''done'', jr_wait = None\<rparr>"]
  show ?thesis by (simp add: demo_late_def)
qed

text \<open>C19. Every write raises the revision of its record, and only writes change it: over any interleaving of the
  controls, the evaluations' writes and the clock, the stored revision never falls, and as long as it stays the
  same the file is the same. An optimistic write that finds the revision it read finds the record it read.\<close>

theorem revision_identifies_record:
  assumes "goal_step\<^sup>*\<^sup>* db d" "stored_revision k d < revision_cap"
  shows "stored_revision k db \<le> stored_revision k d
    \<and> (stored_revision k d = stored_revision k db \<longrightarrow> goal_files d k = goal_files db k)"
  using goal_revision.run_up [OF assms(1), of k] run_files [OF assms] by auto

theorem revision_identifies_record_witness: "stored_revision ''chat'' demo_db \<le> stored_revision ''chat'' demo_paused"
proof -
  have "goal_step\<^sup>*\<^sup>* demo_db demo_paused" unfolding demo_paused_def by (rule r_into_rtranclp) (rule control)
  moreover have "stored_revision ''chat'' demo_paused < revision_cap" by code_simp
  ultimately show ?thesis using revision_identifies_record by blast
qed

text \<open>C20. Of two writers that read the same version of a goal at most one wins: once one of them has committed, the
  other fails and changes nothing, whatever happened in between.\<close>

theorem one_writer_wins:
  assumes "hex_ok db" "compare_and_update s f db = (d, Inr g)" "goal_step\<^sup>*\<^sup>* d d'"
    "stored_revision (g_session_key s) db < revision_cap" "g_session_key s' = g_session_key s" "same_version s s'"
  shows "\<exists>e. compare_and_update s' f' d' = (d', Inl e)"
proof -
  have "below_cap (g_session_key s) db" using assms(4) by (simp add: below_cap_def)
  with assms(1-3) obtain e where "compare_and_update s' f' d' = (d', Inl e)" using assms(5,6) by (rule cas_after_success)
  then show ?thesis ..
qed

theorem one_writer_wins_witness:
  "\<exists>e. compare_and_update demo_goal (\<lambda>g. Inr (clear_wait g))
     (fst (compare_and_update demo_goal (\<lambda>g. Inr (pause_goal ''stop'' g)) demo_db))
   = (fst (compare_and_update demo_goal (\<lambda>g. Inr (pause_goal ''stop'' g)) demo_db), Inl e)"
proof -
  have "case compare_and_update demo_goal (\<lambda>g. Inr (pause_goal ''stop'' g)) demo_db of (d, Inr g) \<Rightarrow> True | _ \<Rightarrow> False" by code_simp
  then obtain d g where d: "compare_and_update demo_goal (\<lambda>g. Inr (pause_goal ''stop'' g)) demo_db = (d, Inr g)"
    by (auto split: prod.splits sum.splits)
  have "stored_revision (g_session_key demo_goal) demo_db < revision_cap" by code_simp
  with one_writer_wins [OF demo_hex d rtranclp.rtrancl_refl, of demo_goal] show ?thesis by (simp add: d same_version_def)
qed

text \<open>A cleared goal stays cleared: no control of any conversation but setting a new goal in this one revives it,
  and evaluating a turn on it changes nothing and ends the run.\<close>

theorem cleared_until_set:
  assumes "goal_cleared k db" "(unset_step k)\<^sup>*\<^sup>* db d"
  shows "goal_cleared k d \<and> (\<forall>env r e dc. evaluate_after_turn env k r d = (e, Inr dc)
    \<longrightarrow> e = d \<and> dc_verdict dc = V_inactive \<and> \<not> dc_should_continue dc)"
  using cleared_goals.run_good [OF assms(2,1)] evaluate_cleared by blast

definition demo_cleared :: goal_db where
  "demo_cleared = perform ''chat'' (Clear_goal None None None) demo_db"

theorem cleared_until_set_witness: "goal_cleared ''chat'' (perform ''chat'' (Resume_goal None None) demo_cleared)"
proof -
  have "case goal_files demo_cleared ''chat'' of None \<Rightarrow> False | Some raw \<Rightarrow> g_status raw = G_cleared" by code_simp
  then have "goal_cleared ''chat'' demo_cleared" by (auto simp: goal_cleared_def split: option.splits)
  moreover have "(unset_step ''chat'')\<^sup>*\<^sup>* demo_cleared (perform ''chat'' (Resume_goal None None) demo_cleared)"
    by (rule r_into_rtranclp) (auto simp: unset_step_def intro!: exI [of _ "Resume_goal None None"])
  ultimately show ?thesis using cleared_until_set by blast
qed

text \<open>Setting a goal over another one starts a fresh generation, active and with its whole budget, and keeps
  the evidence of the one it replaces: its proof can still be read under its id.\<close>

theorem replaced_generation_kept:
  assumes "hex_ok db" "read_goal db k = Inr (Some c)" "g_goal_id c \<noteq> goal_hex db" "1 \<le> g_revision c"
    "set_goal turn n k goal mt con ep db = (d, Inr g)"
  shows "get_generation k (g_goal_id c) d = (d, Inr (Some (generation_proof c))) \<and> read_goal d k = Inr (Some g)
    \<and> g_goal_id g = goal_hex db \<and> is_active g \<and> g_turns_used g = 0"
  using set_goal_replaces [OF assms] by blast

theorem replaced_generation_kept_witness:
  "\<exists>d. get_generation ''chat'' ''a1'' d = (d, Inr (Some (generation_proof demo_goal)))"
proof -
  have "case set_goal None 20 ''chat'' ''Next'' None None 0 demo_db of (d, Inr g) \<Rightarrow> True | _ \<Rightarrow> False" by code_simp
  then obtain d g where d: "set_goal None 20 ''chat'' ''Next'' None None 0 demo_db = (d, Inr g)" by (auto split: prod.splits sum.splits)
  have "g_goal_id demo_goal \<noteq> goal_hex demo_db" "1 \<le> g_revision demo_goal" "g_goal_id demo_goal = ''a1''"
    by (simp_all add: demo_goal_def demo_db_def)
  with replaced_generation_kept [OF demo_hex demo_read _ _ d] show ?thesis by (intro exI [of _ d]) simp
qed

text \<open>A completion contract survives being written out and read back: the text rendered from a contract whose
  fields are single lines within the limit parses to that contract.\<close>

theorem contract_roundtrip: "plain_contract k \<Longrightarrow> parse_contract (contract_render k) = Inr k"
  by (rule parse_rendered)

definition demo_contract :: goal_contract where
  "demo_contract = empty_contract\<lparr>k_outcome := ''done: yes'', k_stop_when := ''- stuck''\<rparr>"

theorem contract_roundtrip_witness: "parse_contract (contract_render demo_contract) = Inr demo_contract"
proof -
  have "plain_contract demo_contract" by code_simp
  then show ?thesis by (rule contract_roundtrip)
qed

text \<open>A judge's reply that is accepted is well formed and can be applied: the verdict is one of the four the judge
  may give, the reason is there and bounded, exactly the wait verdict names a target, and applying the result to an active
  goal raises no error.\<close>

theorem judge_reply_applicable:
  assumes "parse_judge_result repr data = Inr r"
  shows "jr_verdict r \<in> {V_done, V_continue, V_needs_input, V_wait} \<and> jr_reason r \<noteq> '''' \<and> length (jr_reason r) \<le> MAX_REASON_CHARS
    \<and> (jr_wait r \<noteq> None \<longleftrightarrow> jr_verdict r = V_wait) \<and> (is_active g \<longrightarrow> (\<exists>u. apply_judge_result now r pf tf g = Inr u))"
  using parsed_verdict [OF assms] parsed_applicable [OF assms] by blast

theorem judge_reply_applicable_witness:
  "\<exists>u. apply_judge_result 5 \<lparr>jr_verdict = V_wait, jr_reason = ''build'', jr_wait = Some (Wait_time 30)\<rparr> False False demo_goal = Inr u"
proof -
  let ?data = "[(''verdict'', JStr '' WAIT ''), (''reason'', JStr ''build''), (''wait_for_seconds'', JStr ''30'')]"
  have "parse_judge_result (\<lambda>_. '''') ?data = Inr \<lparr>jr_verdict = V_wait, jr_reason = ''build'', jr_wait = Some (Wait_time 30)\<rparr>" by code_simp
  from judge_reply_applicable [OF this, of demo_goal 5 False False] demo_paused_ok(2) show ?thesis by blast
qed

text \<open>When the user replies to a goal the judge parked, the goal goes on with the turns and failures it had used; it is
  not a fresh start.\<close>

theorem reply_keeps_budget:
  assumes "hex_ok db" "get_goal k db = (db, Inr (Some s))" "awaits_input s" "resume_for_user_input k db = (d, Inr r)"
  shows "\<exists>g. r = Some g \<and> is_active g \<and> g_paused_reason g = None \<and> g_turns_used g = g_turns_used s \<and> g_max_turns g = g_max_turns s
    \<and> g_consecutive_parse_failures g = g_consecutive_parse_failures s
    \<and> g_consecutive_transport_failures g = g_consecutive_transport_failures s
    \<and> g_consecutive_compaction_failures g = g_consecutive_compaction_failures s"
  using assms by (rule reply_resumes) (auto simp: budget_def)

definition demo_parked :: goal_state where
  "demo_parked = demo_goal\<lparr>g_status := G_paused, g_last_verdict := Some ''needs_input'', g_turns_used := 7\<rparr>"

definition demo_parked_db :: goal_db where
  "demo_parked_db = demo_db\<lparr>goal_files := [''chat'' \<mapsto> demo_parked]\<rparr>"

theorem reply_keeps_budget_witness: "\<exists>d g. resume_for_user_input ''chat'' demo_parked_db = (d, Inr (Some g)) \<and> g_turns_used g = 7"
proof -
  have h: "hex_ok demo_parked_db" "awaits_input demo_parked" by code_simp+
  have get: "get_goal ''chat'' demo_parked_db = (demo_parked_db, Inr (Some demo_parked))"
  proof (rule prod_eqI)
    show "snd (get_goal ''chat'' demo_parked_db) = snd (demo_parked_db, Inr (Some demo_parked))" unfolding snd_conv by code_simp
  qed (simp add: get_goal_db)
  have "case resume_for_user_input ''chat'' demo_parked_db of (d, Inr r) \<Rightarrow> True | _ \<Rightarrow> False" by code_simp
  then obtain d r where d: "resume_for_user_input ''chat'' demo_parked_db = (d, Inr r)" by (auto split: prod.splits sum.splits)
  have "g_turns_used demo_parked = 7" by (simp add: demo_parked_def)
  with reply_keeps_budget [OF h(1) get h(2) d] have "\<exists>g. r = Some g \<and> g_turns_used g = 7" by auto
  with d show ?thesis by blast
qed

text \<open>A wait verdict is applied before the budget is looked at: a goal that has used its last turn and is told to wait
  stays active.\<close>

lemma wait_skips_budget:
  assumes "is_active g" "g_max_turns g \<le> g_turns_used g" "0 < p"
  shows "\<exists>u. apply_judge_result now \<lparr>jr_verdict = V_wait, jr_reason = reason, jr_wait = Some (Wait_pid p)\<rparr> False False g = Inr u
    \<and> is_active u \<and> has_wait u"
  using assms by (simp add: apply_judge_result_def set_wait_def Let_def is_active_def has_wait_def pid_set_def clear_wait_def)

end
