(* ===== verification/Agenda_Policy.thy ===== *)
theory Agenda_Policy
  imports Prelude
begin

text \<open>
  The limits on an agent that writes first (\<open>agenda/policy.py\<close>): proactivity levels, quiet hours,
  back-off after unanswered messages and daily caps.

  A timezone is a record of what the code asks the \<open>datetime\<close> package: the day and the minute of the
  day of an instant, and the instant of a time of day. Days are numbered.
\<close>

section \<open>Time\<close>

record zone =
  zn_day :: "int \<Rightarrow> int"
  zn_minute :: "int \<Rightarrow> int"
  zn_at :: "int \<Rightarrow> int \<Rightarrow> int \<Rightarrow> int"

text \<open>A zone at a fixed offset from UTC, in minutes.\<close>

definition fixed_zone :: "int \<Rightarrow> zone" where
  "fixed_zone off = \<lparr>zn_day = (\<lambda>ms. (ms + off * 60000) div 86400000),
     zn_minute = (\<lambda>ms. (ms + off * 60000) mod 86400000 div 60000),
     zn_at = (\<lambda>d h m. d * 86400000 + (h * 60 + m) * 60000 - off * 60000)\<rparr>"

section \<open>Levels and limits\<close>

definition LEVELS :: "string list" where "LEVELS = [''off'', ''low'', ''normal'', ''high'']"
definition DEFAULT_LEVEL :: string where "DEFAULT_LEVEL = ''normal''"

definition DAILY_CAP_BY_LEVEL :: "string \<Rightarrow> nat" where
  "DAILY_CAP_BY_LEVEL level = (if level = ''off'' then 0 else if level = ''low'' then 1 else if level = ''normal'' then 2 else 4)"

definition GLOBAL_DAILY_CAP :: nat where "GLOBAL_DAILY_CAP = 6"
definition MAX_UNANSWERED :: int where "MAX_UNANSWERED = 3"
definition BACKOFF_BASE_MS :: int where "BACKOFF_BASE_MS = 12 * 60 * 60 * 1000"
definition BUSY_RETRY_MS :: int where "BUSY_RETRY_MS = 3 * 60 * 1000"
definition OWNER_AWAKE_MS :: int where "OWNER_AWAKE_MS = 30 * 60 * 1000"
definition DEFAULT_QUIET_START :: string where "DEFAULT_QUIET_START = ''22:00''"
definition DEFAULT_QUIET_END :: string where "DEFAULT_QUIET_END = ''09:00''"

text \<open>The level a setting stands for.\<close>

definition effective_level :: "string \<Rightarrow> string" where
  "effective_level level = (if level \<in> set LEVELS then level else DEFAULT_LEVEL)"

section \<open>Facts and decisions\<close>

record wake_facts =
  fa_now_ms :: int
  fa_zone :: zone
  fa_level :: string
  fa_quiet_start :: string
  fa_quiet_end :: string
  fa_unanswered :: int
  fa_last_proactive_ms :: "int option"
  fa_sent_today_by_agent :: nat
  fa_sent_today_by_all :: nat
  fa_session_busy :: bool
  fa_objective_status :: "string option"
  fa_is_objective :: bool
  fa_owner_last_active_ms :: "int option"

datatype wake_decision = Run_wake | Defer_wake string int | Drop_wake string

definition owner_awake :: "wake_facts \<Rightarrow> bool" where
  "owner_awake f = (case fa_owner_last_active_ms f of
      None \<Rightarrow> False
    | Some l \<Rightarrow> 0 \<le> fa_now_ms f - l \<and> fa_now_ms f - l \<le> OWNER_AWAKE_MS)"

text \<open>\<open>int\<close> of the two parts of \<open>split(":", 1)\<close>, in range.\<close>

definition clock_of :: "string \<Rightarrow> (int \<times> int) option" where
  "clock_of t =
     (let h = takeWhile (\<lambda>c. c \<noteq> CHR '':'') t; r = dropWhile (\<lambda>c. c \<noteq> CHR '':'') t
      in if r = [] then None
      else case (int_of_text h, int_of_text (tl r)) of
          (Some hour, Some minute) \<Rightarrow> if 0 \<le> hour \<and> hour \<le> 23 \<and> 0 \<le> minute \<and> minute \<le> 59 then Some (hour, minute) else None
        | _ \<Rightarrow> None)"

definition parse_clock :: "string \<Rightarrow> string \<Rightarrow> int \<times> int" where
  "parse_clock t fallback = (case clock_of t of
      Some hm \<Rightarrow> hm
    | None \<Rightarrow> (case clock_of fallback of Some hm \<Rightarrow> hm | None \<Rightarrow> (0, 0)))"

definition inside_window :: "int \<Rightarrow> int \<Rightarrow> int \<Rightarrow> bool" where
  "inside_window start fin minute =
     (if start < fin then start \<le> minute \<and> minute < fin else start \<le> minute \<or> minute < fin)"

definition quiet_until :: "int \<Rightarrow> zone \<Rightarrow> string \<Rightarrow> string \<Rightarrow> int option" where
  "quiet_until now z quiet_start quiet_end =
     (let (start_h, start_m) = parse_clock quiet_start DEFAULT_QUIET_START;
          (end_h, end_m) = parse_clock quiet_end DEFAULT_QUIET_END;
          start = start_h * 60 + start_m; fin = end_h * 60 + end_m; minute = zn_minute z now
      in if start = fin then None
      else if \<not> inside_window start fin minute then None
      else let end_day = (if fin < start \<and> start \<le> minute then zn_day z now + 1 else zn_day z now)
        in Some (zn_at z end_day end_h end_m))"

definition next_day_start :: "int \<Rightarrow> zone \<Rightarrow> string \<Rightarrow> int" where
  "next_day_start now z quiet_end =
     (let (end_h, end_m) = parse_clock quiet_end DEFAULT_QUIET_END in zn_at z (zn_day z now + 1) end_h end_m)"

definition backoff_ms :: "int \<Rightarrow> int" where
  "backoff_ms unanswered = (if unanswered \<le> 0 then 0 else BACKOFF_BASE_MS * 2 ^ nat (unanswered - 1))"

definition decide :: "wake_facts \<Rightarrow> wake_decision" where
  "decide f =
     (let level = effective_level (fa_level f);
          quiet = quiet_until (fa_now_ms f) (fa_zone f) (fa_quiet_start f) (fa_quiet_end f);
          tomorrow = next_day_start (fa_now_ms f) (fa_zone f) (fa_quiet_end f);
          backoff = (if 0 < fa_unanswered f
            then map_option (\<lambda>l. l + backoff_ms (fa_unanswered f)) (fa_last_proactive_ms f) else None)
      in if level = ''off'' then Drop_wake ''proactivity_off''
      else if fa_is_objective f \<and> fa_objective_status f \<noteq> Some ''active'' then Drop_wake ''goal_not_active''
      else if MAX_UNANSWERED \<le> fa_unanswered f then Drop_wake ''owner_not_answering''
      else if quiet \<noteq> None \<and> \<not> owner_awake f then Defer_wake ''quiet_hours'' (the quiet)
      else if backoff \<noteq> None \<and> fa_now_ms f < the backoff then Defer_wake ''waiting_for_reply'' (the backoff)
      else if DAILY_CAP_BY_LEVEL level \<le> fa_sent_today_by_agent f then Defer_wake ''agent_daily_limit'' tomorrow
      else if GLOBAL_DAILY_CAP \<le> fa_sent_today_by_all f then Defer_wake ''daily_limit'' tomorrow
      else if fa_session_busy f then Defer_wake ''conversation_busy'' (fa_now_ms f + BUSY_RETRY_MS)
      else Run_wake)"

end
