(* ===== verification/Objective_Text.thy ===== *)
theory Objective_Text
  imports Prelude
begin

text \<open>
  The checks on what the owner or the agent writes into a tracked goal or a wake-up (\<open>objectives/store.py\<close>):
  texts, session keys, numbers and times. The scan for injected instructions (\<open>cron/guard.py\<close>) is a
  parameter that returns a threat or nothing; \<open>Cron_Guard\<close> is that scan.
\<close>

section \<open>Errors\<close>

datatype agenda_error = Objective_error string string | Value_error string | Overflow_error string

abbreviation invalid :: "string \<Rightarrow> agenda_error + 'x" where
  "invalid msg \<equiv> Inl (Objective_error ''INVALID'' msg)"

section \<open>Texts\<close>

definition MAX_SESSION_KEY :: nat where "MAX_SESSION_KEY = 512"

definition control_char :: "char \<Rightarrow> bool" where
  "control_char c = (let n = of_char c :: nat in n < 32 \<or> n = 127)"

definition bad_char :: "char \<Rightarrow> bool" where
  "bad_char c = (control_char c \<and> of_char c \<noteq> (10::nat) \<and> of_char c \<noteq> (9::nat))"

definition clean_session_key :: "string \<Rightarrow> agenda_error + string" where
  "clean_session_key v =
     (if v = '''' then Inr ''''
      else if MAX_SESSION_KEY < length v \<or> list_ex control_char v
      then invalid ''conversation must be a session key'' else Inr (strip v))"

definition clean_string :: "(string \<Rightarrow> string option) \<Rightarrow> nat \<Rightarrow> string \<Rightarrow> bool \<Rightarrow> bool \<Rightarrow> string \<Rightarrow> agenda_error + string" where
  "clean_string scan limit field required multiline v =
     (let t = (if multiline then strip v else join '' '' (words (strip v))) in
      if required \<and> t = '''' then invalid (field @ '' is required'')
      else if limit < length t then invalid (field @ '' exceeds '' @ show_nat limit @ '' characters'')
      else if list_ex bad_char t then invalid (field @ '' contains control characters'')
      else if t \<noteq> '''' \<and> truthy (scan t) then invalid (field @ '': '' @ the (scan t))
      else Inr t)"

definition clean_text_field :: "(string \<Rightarrow> string option) \<Rightarrow> nat \<Rightarrow> string \<Rightarrow> bool \<Rightarrow> bool \<Rightarrow> pyval \<Rightarrow> agenda_error + string" where
  "clean_text_field scan limit field required multiline v =
     (case v of
        PNone \<Rightarrow> clean_string scan limit field required multiline ''''
      | PStr s \<Rightarrow> clean_string scan limit field required multiline s
      | _ \<Rightarrow> invalid (field @ '' must be text''))"

section \<open>Numbers and times\<close>

text \<open>\<open>float\<close> of an integer overflows from \<open>2^1024 - 2^970\<close> on, where it would round to infinity.\<close>

definition clean_number :: "string \<Rightarrow> pyval \<Rightarrow> agenda_error + real option" where
  "clean_number field v =
     (case v of
        PNone \<Rightarrow> Inr None
      | PStr s \<Rightarrow> if s = '''' then Inr None else invalid (field @ '' must be a number'')
      | PInt n \<Rightarrow>
          if 2 ^ 1024 - 2 ^ 970 \<le> \<bar>n\<bar> then Inl (Overflow_error ''int too large to convert to float'')
          else if 1000000000000 < \<bar>n\<bar> then invalid (field @ '' is out of range'') else Inr (Some (real_of_int n))
      | PFloat (Finite x) \<Rightarrow> if 1000000000000 < \<bar>x\<bar> then invalid (field @ '' is out of range'') else Inr (Some x)
      | PFloat NotFinite \<Rightarrow> invalid (field @ '' is out of range'')
      | _ \<Rightarrow> invalid (field @ '' must be a number''))"

definition clean_time :: "string \<Rightarrow> pyval \<Rightarrow> agenda_error + int option" where
  "clean_time field v =
     (case v of
        PNone \<Rightarrow> Inr None
      | PStr s \<Rightarrow> if s = '''' then Inr None else invalid (field @ '' must be a time in milliseconds'')
      | PInt n \<Rightarrow> if n \<le> 0 then invalid (field @ '' must be a time in milliseconds'') else Inr (Some n)
      | _ \<Rightarrow> invalid (field @ '' must be a time in milliseconds''))"

section \<open>What a clean text satisfies\<close>

lemma clean_string_Inr:
  assumes "clean_string scan limit field required multiline v = Inr t"
  shows "length t \<le> limit" "list_all (\<lambda>c. \<not> bad_char c) t" "required \<longrightarrow> t \<noteq> ''''" "t \<noteq> '''' \<longrightarrow> \<not> truthy (scan t)"
  using assms by (auto simp: clean_string_def Let_def list_ex_iff list_all_iff split: if_splits)

lemma clean_text_field_Inr:
  assumes "clean_text_field scan limit field required multiline v = Inr t"
  shows "length t \<le> limit" "list_all (\<lambda>c. \<not> bad_char c) t" "required \<longrightarrow> t \<noteq> ''''" "t \<noteq> '''' \<longrightarrow> \<not> truthy (scan t)"
  using assms by (auto simp: clean_text_field_def dest: clean_string_Inr split: pyval.splits)

lemma clean_string_again:
  assumes "clean_string scan limit field required True v = Inr t"
  shows "clean_string scan limit field required True t = Inr t"
  using assms by (auto simp: clean_string_def Let_def split: if_splits)

lemma clean_session_key_Inr:
  "clean_session_key v = Inr k \<Longrightarrow> length k \<le> MAX_SESSION_KEY"
  using length_strip [of v] by (auto simp: clean_session_key_def split: if_splits)

end
