(* ===== verification/Agenda_Store.thy ===== *)
theory Agenda_Store
  imports Agenda_Policy Objective_Text
begin

text \<open>
  The agenda of one agent (\<open>agenda/store.py\<close>): pending wake-ups, their history, what is known of each
  conversation, and the owner's settings, all in one file that is rewritten by every transaction. The
  text checks are those of \<open>objectives/store.py\<close>; the scan of a note for injected instructions
  (\<open>cron/guard.py\<close>) and the list of timezones are parameters.
\<close>

section \<open>Limits\<close>

definition MAX_PENDING :: nat where "MAX_PENDING = 40"
definition MAX_FOLLOW_UPS_PER_CONVERSATION :: nat where "MAX_FOLLOW_UPS_PER_CONVERSATION = 6"
definition MAX_NOTE :: nat where "MAX_NOTE = 1000"
definition MAX_HISTORY :: nat where "MAX_HISTORY = 100"
definition MAX_CONVERSATIONS :: nat where "MAX_CONVERSATIONS = 200"
definition MAX_ATTEMPTS :: int where "MAX_ATTEMPTS = 3"
definition RETRY_DELAY_MS :: int where "RETRY_DELAY_MS = 30 * 60 * 1000"
definition RESUME_CHECK_IN_DELAY_MS :: int where "RESUME_CHECK_IN_DELAY_MS = 2 * 60 * 60 * 1000"
definition DEFAULT_REVIEW_TIME :: string where "DEFAULT_REVIEW_TIME = ''08:30''"

definition OWNER_CONVERSATION_PREFIXES :: "string list" where
  "OWNER_CONVERSATION_PREFIXES = [''desktop:'', ''web:'', ''ios:'', ''android:'', ''cli:'', ''tui:'',
     ''telegram:'', ''whatsapp:'', ''discord:'', ''slack:'', ''teams:'', ''imessage:'', ''email:'']"

definition is_owner_conversation :: "string \<Rightarrow> bool" where
  "is_owner_conversation k \<longleftrightarrow> k \<noteq> '''' \<and> list_ex (\<lambda>p. is_prefix p k) OWNER_CONVERSATION_PREFIXES
     \<and> tl (dropWhile (\<lambda>c. c \<noteq> CHR '':'') k) \<noteq> ''''"

section \<open>Records\<close>

datatype wake_state = Wake_pending | Wake_running

record wake_item =
  wi_id :: string
  wi_kind :: string
  wi_due_at :: int
  wi_note :: string
  wi_session_key :: string
  wi_objective_id :: "string option"
  wi_cancel_on_reply :: bool
  wi_created_at :: int
  wi_attempts :: int
  wi_state :: wake_state
  wi_deferred_reason :: "string option"
  wi_started_at :: "int option"

record wake_record =
  wr_item :: wake_item
  wr_outcome :: string
  wr_reason :: "string option"
  wr_settled_at :: int
  wr_preview :: "string option"

record conversation_stats =
  cs_unanswered :: int
  cs_last_owner_at :: "int option"
  cs_last_proactive_at :: "int option"

record agenda_settings =
  as_level :: string
  as_quiet_start :: string
  as_quiet_end :: string
  as_timezone :: string
  as_review_time :: string

record agenda =
  ag_revision :: int
  ag_settings :: agenda_settings
  ag_items :: "wake_item list"
  ag_history :: "wake_record list"
  ag_conversations :: "(string \<times> conversation_stats) list"
  ag_last_owner_at :: "int option"
  ag_last_review_day :: "string option"
  ag_last_review_at :: "int option"

definition default_settings :: agenda_settings where
  "default_settings = \<lparr>as_level = DEFAULT_LEVEL, as_quiet_start = DEFAULT_QUIET_START, as_quiet_end = DEFAULT_QUIET_END,
     as_timezone = '''', as_review_time = DEFAULT_REVIEW_TIME\<rparr>"

definition empty_agenda :: agenda where
  "empty_agenda = \<lparr>ag_revision = 0, ag_settings = default_settings, ag_items = [], ag_history = [], ag_conversations = [],
     ag_last_owner_at = None, ag_last_review_day = None, ag_last_review_at = None\<rparr>"

section \<open>Transactions\<close>

definition last_seen :: "string \<times> conversation_stats \<Rightarrow> int" where
  "last_seen kv = (let or_zero = (\<lambda>v. case v of None \<Rightarrow> 0 | Some t \<Rightarrow> t)
     in max (or_zero (cs_last_owner_at (snd kv))) (or_zero (cs_last_proactive_at (snd kv))))"

definition written :: "agenda \<Rightarrow> agenda" where
  "written a = a\<lparr>ag_revision := ag_revision a + 1, ag_history := last_n MAX_HISTORY (ag_history a),
     ag_conversations := (if MAX_CONVERSATIONS < length (ag_conversations a)
       then last_n MAX_CONVERSATIONS (sort_key last_seen (ag_conversations a)) else ag_conversations a)\<rparr>"

definition transaction :: "(agenda \<Rightarrow> agenda_error + (agenda \<times> 'x)) \<Rightarrow> agenda \<Rightarrow> agenda \<times> (agenda_error + 'x)" where
  "transaction f a = (case f a of Inl e \<Rightarrow> (a, Inl e) | Inr (b, x) \<Rightarrow> (written b, Inr x))"

definition settled :: "string \<Rightarrow> string option \<Rightarrow> int \<Rightarrow> wake_item \<Rightarrow> wake_record" where
  "settled outcome reason now i = \<lparr>wr_item = i, wr_outcome = outcome, wr_reason = reason, wr_settled_at = now, wr_preview = None\<rparr>"

text \<open>The items a loop removes from the list, and their records.\<close>

definition retire :: "(wake_item \<Rightarrow> bool) \<Rightarrow> string \<Rightarrow> string option \<Rightarrow> int \<Rightarrow> agenda \<Rightarrow> agenda" where
  "retire P outcome reason now a = a\<lparr>ag_items := filter (\<lambda>i. \<not> P i) (ag_items a),
     ag_history := ag_history a @ map (settled outcome reason now) (filter P (ag_items a))\<rparr>"

text \<open>The first item that satisfies a condition, removed or changed in place.\<close>

fun drop_first :: "('a \<Rightarrow> bool) \<Rightarrow> 'a list \<Rightarrow> 'a list" where
  "drop_first P [] = []"
| "drop_first P (x # xs) = (if P x then xs else x # drop_first P xs)"

fun change_first :: "('a \<Rightarrow> bool) \<Rightarrow> ('a \<Rightarrow> 'a) \<Rightarrow> 'a list \<Rightarrow> 'a list" where
  "change_first P f [] = []"
| "change_first P f (x # xs) = (if P x then f x # xs else x # change_first P f xs)"

section \<open>Text\<close>

text \<open>\<open>clean_text\<close> of a required text of several lines.\<close>

definition clean_note :: "(string \<Rightarrow> string option) \<Rightarrow> nat \<Rightarrow> string \<Rightarrow> agenda_error + string" where
  "clean_note scan limit v = clean_string scan limit ''note'' True True v"

definition py_isdigit :: "char \<Rightarrow> bool" where
  "py_isdigit c = (is_digit c \<or> of_char c \<in> {178, 179, 185 :: nat})"

definition two_digits :: "nat \<Rightarrow> string" where
  "two_digits n = (if n < 10 then ''0'' @ show_nat n else show_nat n)"

definition clean_clock :: "string \<Rightarrow> string \<Rightarrow> agenda_error + string" where
  "clean_clock v field =
     (let t = strip v; h = takeWhile (\<lambda>c. c \<noteq> CHR '':'') t; r = dropWhile (\<lambda>c. c \<noteq> CHR '':'') t; m = tl r;
          bad = Inl (Objective_error ''INVALID'' (field @ '' must be HH:MM''))
      in if r \<noteq> [] \<and> CHR '':'' \<notin> set m \<and> h \<noteq> '''' \<and> m \<noteq> '''' \<and> list_all py_isdigit h \<and> list_all py_isdigit m
      then case (int_of_text h, int_of_text m) of
          (Some hour, Some minute) \<Rightarrow>
            if hour \<le> 23 \<and> minute \<le> 59 \<and> length m = 2 then Inr (two_digits (nat hour) @ '':'' @ two_digits (nat minute)) else bad
        | _ \<Rightarrow> Inl (Value_error ''invalid literal for int() with base 10'')
      else bad)"

section \<open>Settings\<close>

record settings_changes =
  sg_level :: "string option"
  sg_quiet_start :: "string option"
  sg_quiet_end :: "string option"
  sg_review_time :: "string option"
  sg_timezone :: "string option"

definition changed :: "('a \<Rightarrow> agenda_error + 'b) \<Rightarrow> 'a option \<Rightarrow> agenda_error + 'b option" where
  "changed f v = (case v of None \<Rightarrow> Inr None | Some x \<Rightarrow> on_ok (f x) (\<lambda>y. Inr (Some y)))"

definition set_to :: "'a option \<Rightarrow> 'a \<Rightarrow> 'a" where
  "set_to v old = (case v of None \<Rightarrow> old | Some x \<Rightarrow> x)"

definition clean_level :: "string \<Rightarrow> agenda_error + string" where
  "clean_level v = (let l = str_lower (strip v) in
     if l \<in> set LEVELS then Inr l
     else Inl (Objective_error ''INVALID'' (''level must be one of '' @ join '', '' LEVELS)))"

definition clean_zone :: "(string \<Rightarrow> bool) \<Rightarrow> string \<Rightarrow> agenda_error + string" where
  "clean_zone known v = (let z = strip v in
     if z \<noteq> '''' \<and> \<not> known z then Inl (Objective_error ''INVALID'' (''Unknown timezone: '' @ z)) else Inr z)"

definition update_settings :: "(string \<Rightarrow> bool) \<Rightarrow> settings_changes \<Rightarrow> agenda \<Rightarrow> agenda \<times> (agenda_error + agenda_settings)" where
  "update_settings known c a =
     (case on_ok (changed clean_level (sg_level c)) (\<lambda>l.
           on_ok (changed (\<lambda>t. clean_clock t ''quietStart'') (sg_quiet_start c)) (\<lambda>qs.
           on_ok (changed (\<lambda>t. clean_clock t ''quietEnd'') (sg_quiet_end c)) (\<lambda>qe.
           on_ok (changed (\<lambda>t. clean_clock t ''reviewTime'') (sg_review_time c)) (\<lambda>rt.
           on_ok (changed (clean_zone known) (sg_timezone c)) (\<lambda>z.
             if l = None \<and> qs = None \<and> qe = None \<and> rt = None \<and> z = None
             then Inl (Objective_error ''INVALID'' ''Nothing to change'') else Inr (l, qs, qe, rt, z)))))) of
        Inl e \<Rightarrow> (a, Inl e)
      | Inr (l, qs, qe, rt, z) \<Rightarrow> transaction (\<lambda>d.
          let s = ag_settings d;
              t = \<lparr>as_level = set_to l (as_level s), as_quiet_start = set_to qs (as_quiet_start s),
                as_quiet_end = set_to qe (as_quiet_end s), as_timezone = set_to z (as_timezone s),
                as_review_time = set_to rt (as_review_time s)\<rparr>
          in Inr (d\<lparr>ag_settings := t\<rparr>, t)) a)"

section \<open>Wake-ups\<close>

definition is_pending :: "wake_item \<Rightarrow> bool" where
  "is_pending i \<longleftrightarrow> wi_state i = Wake_pending"

definition check_in_of :: "string option \<Rightarrow> wake_item \<Rightarrow> bool" where
  "check_in_of g i \<longleftrightarrow> wi_objective_id i = g \<and> is_pending i"

definition follow_up_in :: "string \<Rightarrow> wake_item \<Rightarrow> bool" where
  "follow_up_in k i \<longleftrightarrow> wi_kind i = ''follow_up'' \<and> wi_session_key i = k"

definition new_item :: "int \<Rightarrow> string \<Rightarrow> string \<Rightarrow> int \<Rightarrow> string \<Rightarrow> string \<Rightarrow> string option \<Rightarrow> bool \<Rightarrow> wake_item" where
  "new_item now hex kind due note k g cancel_on_reply =
     \<lparr>wi_id = ''wk_'' @ hex, wi_kind = kind, wi_due_at = due, wi_note = note, wi_session_key = k, wi_objective_id = g,
      wi_cancel_on_reply = cancel_on_reply, wi_created_at = now, wi_attempts = 0, wi_state = Wake_pending,
      wi_deferred_reason = None, wi_started_at = None\<rparr>"

definition schedule ::
    "(string \<Rightarrow> string option) \<Rightarrow> int \<Rightarrow> string \<Rightarrow> string \<Rightarrow> int \<Rightarrow> string \<Rightarrow> string \<Rightarrow> string option \<Rightarrow> bool \<Rightarrow> agenda
      \<Rightarrow> agenda \<times> (agenda_error + wake_item)" where
  "schedule scan now hex kind due note session_key objective_id cancel_on_reply a =
     (if kind \<notin> {''objective'', ''follow_up''}
      then (a, Inl (Objective_error ''INVALID'' ''kind must be one of objective, follow_up''))
      else case clean_session_key session_key of
        Inl e \<Rightarrow> (a, Inl e)
      | Inr key \<Rightarrow>
          if \<not> is_owner_conversation key
          then (a, Inl (Objective_error ''INVALID'' ''A follow-up must belong to one of the owner's conversations''))
          else if kind = ''objective'' \<and> \<not> truthy objective_id
          then (a, Inl (Objective_error ''INVALID'' ''A goal check-in needs its goal''))
          else case clean_note scan MAX_NOTE note of
            Inl e \<Rightarrow> (a, Inl e)
          | Inr text \<Rightarrow>
              let item = new_item now hex kind due text key (if kind = ''objective'' then objective_id else None)
                    (cancel_on_reply \<and> kind = ''follow_up'')
              in transaction (\<lambda>d.
                if kind \<noteq> ''objective'' \<and> MAX_FOLLOW_UPS_PER_CONVERSATION \<le> length (filter (follow_up_in key) (ag_items d))
                then Inl (Objective_error ''LIMIT'' ''This conversation already has enough follow-ups planned. Cancel one first.'')
                else let b = (if kind = ''objective'' then retire (check_in_of objective_id) ''replaced'' None now d else d)
                in if MAX_PENDING \<le> length (ag_items b)
                   then Inl (Objective_error ''LIMIT'' (''The agenda already holds '' @ show_nat MAX_PENDING @ '' follow-ups.''))
                   else Inr (b\<lparr>ag_items := ag_items b @ [item]\<rparr>, item)) a)"

definition pending_items :: "agenda \<Rightarrow> wake_item list" where
  "pending_items a = sort_key wi_due_at (ag_items a)"

definition next_for_objective :: "string \<Rightarrow> agenda \<Rightarrow> wake_item option" where
  "next_for_objective g a = find (\<lambda>i. wi_objective_id i = Some g) (pending_items a)"

definition due_items :: "int \<Rightarrow> agenda \<Rightarrow> wake_item list" where
  "due_items now a = filter (\<lambda>i. is_pending i \<and> wi_due_at i \<le> now) (pending_items a)"

definition cancel_item :: "int \<Rightarrow> string \<Rightarrow> string \<Rightarrow> agenda \<Rightarrow> agenda \<times> (agenda_error + bool)" where
  "cancel_item now item_id reason = transaction (\<lambda>d.
     let P = (\<lambda>i. wi_id i = item_id \<and> is_pending i) in
     case find P (ag_items d) of
       None \<Rightarrow> Inr (d, False)
     | Some i \<Rightarrow> Inr (d\<lparr>ag_items := drop_first P (ag_items d),
         ag_history := ag_history d @ [settled ''cancelled'' (Some reason) now i]\<rparr>, True))"

definition cancel_for_objective :: "int \<Rightarrow> string \<Rightarrow> string \<Rightarrow> agenda \<Rightarrow> agenda \<times> (agenda_error + nat)" where
  "cancel_for_objective now g reason = transaction (\<lambda>d.
     Inr (retire (check_in_of (Some g)) ''cancelled'' (Some reason) now d, length (filter (check_in_of (Some g)) (ag_items d))))"

definition taken_away :: "string \<Rightarrow> wake_record \<Rightarrow> bool" where
  "taken_away g h \<longleftrightarrow> wi_objective_id (wr_item h) = Some g \<and> wr_outcome h = ''cancelled''
     \<and> (case wr_reason h of None \<Rightarrow> False | Some r \<Rightarrow> is_prefix ''owner_'' r)"

definition restore_for_objective ::
    "(string \<Rightarrow> string option) \<Rightarrow> int \<Rightarrow> string \<Rightarrow> int \<Rightarrow> string \<Rightarrow> string \<Rightarrow> string \<Rightarrow> agenda \<Rightarrow> agenda \<times> (agenda_error + wake_item option)" where
  "restore_for_objective scan now hex delay g session_key fallback a =
     (case clean_session_key session_key of
        Inl e \<Rightarrow> (a, Inl e)
      | Inr key \<Rightarrow>
          if \<not> is_owner_conversation key then (a, Inr None)
          else transaction (\<lambda>d.
            case find (check_in_of (Some g)) (ag_items d) of
              Some i \<Rightarrow> Inr (d, Some i)
            | None \<Rightarrow>
                let taken = find (taken_away g) (rev (ag_history d));
                    due = (case taken of Some h \<Rightarrow> if now < wi_due_at (wr_item h) then wi_due_at (wr_item h) else now + delay
                      | None \<Rightarrow> now + delay);
                    note = (case taken of Some h \<Rightarrow> if wi_note (wr_item h) = '''' then fallback else wi_note (wr_item h) | None \<Rightarrow> fallback)
                in if MAX_PENDING \<le> length (ag_items d) then Inr (d, None)
                   else on_ok (clean_note scan MAX_NOTE note) (\<lambda>text.
                     let item = new_item now hex ''objective'' due text key (Some g) False
                     in Inr (d\<lparr>ag_items := ag_items d @ [item]\<rparr>, Some item))) a)"

definition defer_item :: "string \<Rightarrow> int \<Rightarrow> string \<Rightarrow> agenda \<Rightarrow> agenda \<times> (agenda_error + unit)" where
  "defer_item item_id until reason = transaction (\<lambda>d.
     Inr (d\<lparr>ag_items := map (\<lambda>i. if wi_id i = item_id
       then i\<lparr>wi_due_at := until, wi_state := Wake_pending, wi_deferred_reason := Some reason, wi_started_at := None\<rparr> else i) (ag_items d)\<rparr>, ()))"

definition start_item :: "int \<Rightarrow> string \<Rightarrow> agenda \<Rightarrow> agenda \<times> (agenda_error + wake_item option)" where
  "start_item now item_id = transaction (\<lambda>d.
     let P = (\<lambda>i. wi_id i = item_id \<and> is_pending i); run = (\<lambda>i. i\<lparr>wi_state := Wake_running, wi_started_at := Some now\<rparr>)
     in Inr (d\<lparr>ag_items := change_first P run (ag_items d)\<rparr>, map_option run (find P (ag_items d))))"

definition settle_item :: "int \<Rightarrow> string \<Rightarrow> string \<Rightarrow> string \<Rightarrow> string \<Rightarrow> agenda \<Rightarrow> agenda \<times> (agenda_error + wake_record option)" where
  "settle_item now item_id outcome reason preview = transaction (\<lambda>d.
     case find (\<lambda>i. wi_id i = item_id) (ag_items d) of
       None \<Rightarrow> Inr (d, None)
     | Some i \<Rightarrow>
         let r = (settled outcome (Some reason) now i)\<lparr>wr_preview := (if preview = '''' then None else Some (take 200 preview))\<rparr>
         in Inr (d\<lparr>ag_items := drop_first (\<lambda>i. wi_id i = item_id) (ag_items d), ag_history := ag_history d @ [r]\<rparr>, Some r))"

datatype retry_outcome = Gone | Failed_for_good | Retry

definition retry_or_give_up :: "int \<Rightarrow> string \<Rightarrow> string \<Rightarrow> agenda \<Rightarrow> agenda \<times> (agenda_error + retry_outcome)" where
  "retry_or_give_up now item_id reason = transaction (\<lambda>d.
     let P = (\<lambda>i. wi_id i = item_id) in
     case find P (ag_items d) of
       None \<Rightarrow> Inr (d, Gone)
     | Some i \<Rightarrow>
         if MAX_ATTEMPTS \<le> wi_attempts i + 1
         then Inr (d\<lparr>ag_items := drop_first P (ag_items d),
           ag_history := ag_history d @ [settled ''failed'' (Some reason) now (i\<lparr>wi_attempts := wi_attempts i + 1\<rparr>)]\<rparr>, Failed_for_good)
         else Inr (d\<lparr>ag_items := change_first P (\<lambda>i. i\<lparr>wi_attempts := wi_attempts i + 1, wi_state := Wake_pending,
           wi_due_at := now + RETRY_DELAY_MS, wi_deferred_reason := Some reason, wi_started_at := None\<rparr>) (ag_items d)\<rparr>, Retry))"

definition recovered :: "int \<Rightarrow> wake_item \<Rightarrow> wake_item" where
  "recovered now i = (if wi_state i \<noteq> Wake_running then i
     else i\<lparr>wi_attempts := wi_attempts i + 1, wi_started_at := None, wi_state := Wake_pending,
       wi_due_at := now + 5 * 60 * 1000, wi_deferred_reason := Some ''interrupted''\<rparr>)"

definition given_up :: "wake_item \<Rightarrow> bool" where
  "given_up i \<longleftrightarrow> wi_state i = Wake_running \<and> MAX_ATTEMPTS \<le> wi_attempts i + 1"

definition recover_interrupted :: "int \<Rightarrow> agenda \<Rightarrow> agenda \<times> (agenda_error + nat)" where
  "recover_interrupted now = transaction (\<lambda>d.
     Inr (d\<lparr>ag_items := map (recovered now) (filter (\<lambda>i. \<not> given_up i) (ag_items d)),
       ag_history := ag_history d @ map (\<lambda>i. settled ''failed'' (Some ''interrupted'') now
         (i\<lparr>wi_attempts := wi_attempts i + 1, wi_started_at := None\<rparr>)) (filter given_up (ag_items d))\<rparr>,
       length (filter (\<lambda>i. wi_state i = Wake_running) (ag_items d))))"

section \<open>Conversations\<close>

definition no_stats :: conversation_stats where
  "no_stats = \<lparr>cs_unanswered = 0, cs_last_owner_at = None, cs_last_proactive_at = None\<rparr>"

definition conversation :: "string \<Rightarrow> agenda \<Rightarrow> conversation_stats" where
  "conversation k a = (case map_of (ag_conversations a) k of None \<Rightarrow> no_stats | Some s \<Rightarrow> s)"

text \<open>\<open>setdefault(k, {})\<close> and the changes to the entry.\<close>

definition change_stats :: "string \<Rightarrow> (conversation_stats \<Rightarrow> conversation_stats) \<Rightarrow> agenda \<Rightarrow> agenda" where
  "change_stats k f a = a\<lparr>ag_conversations :=
     (if k \<in> fst ` set (ag_conversations a)
      then map (\<lambda>(j, s). (j, if j = k then f s else s)) (ag_conversations a)
      else ag_conversations a @ [(k, f no_stats)])\<rparr>"

definition last_owner_at :: "agenda \<Rightarrow> int option" where
  "last_owner_at a = (case ag_last_owner_at a of None \<Rightarrow> None | Some t \<Rightarrow> if 0 < t then Some t else None)"

definition owner_wrote :: "int \<Rightarrow> string \<Rightarrow> agenda \<Rightarrow> agenda \<times> (agenda_error + nat)" where
  "owner_wrote now k = transaction (\<lambda>d.
     let moot = (\<lambda>i. wi_session_key i = k \<and> wi_cancel_on_reply i \<and> is_pending i);
         b = (change_stats k (\<lambda>s. s\<lparr>cs_unanswered := 0, cs_last_owner_at := Some now\<rparr>) d)\<lparr>ag_last_owner_at := Some now\<rparr>
     in Inr (retire moot ''cancelled'' (Some ''owner_wrote'') now b, length (filter moot (ag_items b))))"

definition delivered :: "int \<Rightarrow> string \<Rightarrow> agenda \<Rightarrow> agenda \<times> (agenda_error + unit)" where
  "delivered now k = transaction (\<lambda>d.
     Inr (change_stats k (\<lambda>s. s\<lparr>cs_unanswered := cs_unanswered s + 1, cs_last_proactive_at := Some now\<rparr>) d, ()))"

definition mark_review :: "int \<Rightarrow> string \<Rightarrow> agenda \<Rightarrow> agenda \<times> (agenda_error + unit)" where
  "mark_review now day = transaction (\<lambda>d. Inr (d\<lparr>ag_last_review_day := Some day, ag_last_review_at := Some now\<rparr>, ()))"

end
