(* ===== verification/Agenda_Budget.thy ===== *)
theory Agenda_Budget
  imports Agenda_Policy
begin

text \<open>
  The budget of unasked messages that all agents of an owner share (\<open>agenda/budget.py\<close>). The file's
  entries are a list; an operation runs under the file lock, which is granted. The random tokens are
  inputs.
\<close>

section \<open>Entries\<close>

definition STALE_RESERVATION_MS :: int where "STALE_RESERVATION_MS = 30 * 60 * 1000"
definition KEEP_MS :: int where "KEEP_MS = 3 * 24 * 60 * 60 * 1000"

datatype slot_state = Reserved | Sent

record budget_entry =
  be_token :: string
  be_profile :: string
  be_at :: int
  be_state :: slot_state

definition live_entries :: "int \<Rightarrow> budget_entry list \<Rightarrow> budget_entry list" where
  "live_entries now es = filter (\<lambda>e. now - be_at e < KEEP_MS \<and> \<not> (be_state e = Reserved \<and> STALE_RESERVATION_MS < now - be_at e)) es"

definition today_entries :: "zone \<Rightarrow> int \<Rightarrow> budget_entry list \<Rightarrow> budget_entry list" where
  "today_entries z now es = filter (\<lambda>e. zn_day z (be_at e) = zn_day z now) es"

definition of_profile :: "string \<Rightarrow> budget_entry list \<Rightarrow> nat" where
  "of_profile p es = length (filter (\<lambda>e. be_profile e = p) es)"

section \<open>Operations\<close>

definition counts :: "string \<Rightarrow> zone \<Rightarrow> int \<Rightarrow> budget_entry list \<Rightarrow> nat \<times> nat" where
  "counts p z now es = (let today = today_entries z now (live_entries now es) in (of_profile p today, length today))"

definition reserve ::
    "string \<Rightarrow> string \<Rightarrow> zone \<Rightarrow> nat \<Rightarrow> nat \<Rightarrow> int \<Rightarrow> budget_entry list \<Rightarrow> budget_entry list \<times> string option" where
  "reserve hex p z agent_cap global_cap now es =
     (let entries = live_entries now es; today = today_entries z now entries in
      if global_cap \<le> length today \<or> agent_cap \<le> of_profile p today then (es, None)
      else (entries @ [\<lparr>be_token = hex, be_profile = p, be_at = now, be_state = Reserved\<rparr>], Some hex))"

definition settle_slot :: "string \<Rightarrow> bool \<Rightarrow> budget_entry list \<Rightarrow> budget_entry list" where
  "settle_slot token keep es =
     (if token = '''' then es
      else if keep then map (\<lambda>e. if be_token e = token then e\<lparr>be_state := Sent\<rparr> else e) es
      else filter (\<lambda>e. be_token e \<noteq> token) es)"

definition confirm_slot :: "string \<Rightarrow> budget_entry list \<Rightarrow> budget_entry list" where
  "confirm_slot token es = settle_slot token True es"

definition release_slot :: "string \<Rightarrow> budget_entry list \<Rightarrow> budget_entry list" where
  "release_slot token es = settle_slot token False es"

end
