(* ===== verification/Agenda_Service.thy ===== *)
theory Agenda_Service
  imports Agenda_Store Agenda_Budget
begin

text \<open>
  The service that wakes an agent (\<open>agenda/service.py\<close>): which due wake-ups start, and how they end. The
  agent's agenda, the shared budget and the wake-ups that are running are one state; the turn between the
  start and the end of a wake-up is the agent's own. The owner's zone, the goals, busy conversations and the
  random tokens are inputs.
\<close>

section \<open>State\<close>

definition MAX_CONCURRENT_WAKES :: nat where "MAX_CONCURRENT_WAKES = 2"
definition REVIEW_RECENCY_MS :: int where "REVIEW_RECENCY_MS = 7 * 24 * 60 * 60 * 1000"

record running_wake =
  rw_item :: string
  rw_session :: string
  rw_token :: string

record service =
  sv_agenda :: agenda
  sv_budget :: "budget_entry list"
  sv_running :: "running_wake list"

record service_env =
  ev_profile :: string
  ev_zone :: "string \<Rightarrow> zone"
  ev_goal_status :: "string \<Rightarrow> string option"
  ev_busy :: "string \<Rightarrow> bool"
  ev_token :: "string \<Rightarrow> string"

section \<open>One wake-up\<close>

definition facts_of :: "service_env \<Rightarrow> int \<Rightarrow> wake_item \<Rightarrow> service \<Rightarrow> wake_facts" where
  "facts_of env now i s =
     (let set = ag_settings (sv_agenda s); z = ev_zone env (as_timezone set); convo = conversation (wi_session_key i) (sv_agenda s);
          (by_agent, by_all) = counts (ev_profile env) z now (sv_budget s)
      in \<lparr>fa_now_ms = now, fa_zone = z, fa_level = as_level set, fa_quiet_start = as_quiet_start set, fa_quiet_end = as_quiet_end set,
          fa_unanswered = cs_unanswered convo, fa_last_proactive_ms = cs_last_proactive_at convo,
          fa_sent_today_by_agent = by_agent, fa_sent_today_by_all = by_all,
          fa_session_busy = ev_busy env (wi_session_key i),
          fa_objective_status = (if wi_kind i = ''objective''
            then ev_goal_status env (case wi_objective_id i of None \<Rightarrow> '''' | Some g \<Rightarrow> g) else None),
          fa_is_objective = (wi_kind i = ''objective''), fa_owner_last_active_ms = last_owner_at (sv_agenda s)\<rparr>)"

text \<open>\<open>_consider\<close>; the token of the slot is drawn for the item.\<close>

definition consider_wake :: "service_env \<Rightarrow> int \<Rightarrow> wake_item \<Rightarrow> service \<Rightarrow> service \<times> bool" where
  "consider_wake env now i s =
     (let f = facts_of env now i s in
      case decide f of
        Drop_wake reason \<Rightarrow> (s\<lparr>sv_agenda := fst (settle_item now (wi_id i) ''dropped'' reason '''' (sv_agenda s))\<rparr>, False)
      | Defer_wake reason until \<Rightarrow>
          (s\<lparr>sv_agenda := fst (defer_item (wi_id i) (if until = 0 then now + BUSY_RETRY_MS else until) reason (sv_agenda s))\<rparr>, False)
      | Run_wake \<Rightarrow>
          (case reserve (ev_token env (wi_id i)) (ev_profile env) (fa_zone f) (DAILY_CAP_BY_LEVEL (effective_level (fa_level f)))
                GLOBAL_DAILY_CAP now (sv_budget s) of
             (b, None) \<Rightarrow> (s\<lparr>sv_agenda := fst (defer_item (wi_id i) (next_day_start now (fa_zone f) (fa_quiet_end f)) ''daily_limit'' (sv_agenda s)),
                 sv_budget := b\<rparr>, False)
           | (b, Some token) \<Rightarrow>
               (case start_item now (wi_id i) (sv_agenda s) of
                  (a, Inr (Some started)) \<Rightarrow>
                    (s\<lparr>sv_agenda := a, sv_budget := b,
                       sv_running := sv_running s @ [\<lparr>rw_item = wi_id started, rw_session = wi_session_key started, rw_token = token\<rparr>]\<rparr>, True)
                | (a, _) \<Rightarrow> (s\<lparr>sv_agenda := a, sv_budget := release_slot token b\<rparr>, False))))"

text \<open>The loop of \<open>tick\<close> over the due wake-ups; \<open>busy\<close> are the conversations that have one running.\<close>

fun consider_all :: "service_env \<Rightarrow> int \<Rightarrow> string set \<Rightarrow> wake_item list \<Rightarrow> service \<Rightarrow> service" where
  "consider_all env now busy [] s = s"
| "consider_all env now busy (i # is) s =
     (if MAX_CONCURRENT_WAKES \<le> length (sv_running s) then s
      else if wi_session_key i \<in> busy \<or> wi_id i \<in> rw_item ` set (sv_running s) then consider_all env now busy is s
      else case consider_wake env now i s of
          (t, True) \<Rightarrow> consider_all env now (insert (wi_session_key i) busy) is t
        | (t, False) \<Rightarrow> consider_all env now busy is t)"

definition tick_wakes :: "service_env \<Rightarrow> int \<Rightarrow> service \<Rightarrow> service" where
  "tick_wakes env now s = consider_all env now (rw_session ` set (sv_running s)) (due_items now (sv_agenda s)) s"

section \<open>How a wake-up ends\<close>

definition preview_of :: "string \<Rightarrow> string" where
  "preview_of t = take 200 (case find (\<lambda>l. strip l \<noteq> '''') (splitlines t) of None \<Rightarrow> '''' | Some l \<Rightarrow> strip l)"

datatype turn_end = Turn_delivered string | Turn_silent | Turn_failed string | Turn_cancelled

definition wake_end :: "int \<Rightarrow> running_wake \<Rightarrow> turn_end \<Rightarrow> service \<Rightarrow> service" where
  "wake_end now w e s =
     (let t = s\<lparr>sv_running := filter (\<lambda>r. rw_item r \<noteq> rw_item w) (sv_running s)\<rparr> in
      case e of
        Turn_cancelled \<Rightarrow> t\<lparr>sv_budget := release_slot (rw_token w) (sv_budget s)\<rparr>
      | Turn_failed what \<Rightarrow> t\<lparr>sv_budget := release_slot (rw_token w) (sv_budget s),
          sv_agenda := fst (retry_or_give_up now (rw_item w) (''turn_failed: '' @ what) (sv_agenda s))\<rparr>
      | Turn_delivered txt \<Rightarrow> t\<lparr>sv_budget := confirm_slot (rw_token w) (sv_budget s),
          sv_agenda := fst (settle_item now (rw_item w) ''delivered'' '''' (preview_of txt) (fst (delivered now (rw_session w) (sv_agenda s))))\<rparr>
      | Turn_silent \<Rightarrow> t\<lparr>sv_budget := release_slot (rw_token w) (sv_budget s),
          sv_agenda := fst (settle_item now (rw_item w) ''silent'' '''' '''' (sv_agenda s))\<rparr>)"

text \<open>A turn that spoke after the service stopped waiting for it.\<close>

definition late_turn :: "int \<Rightarrow> string \<Rightarrow> string \<Rightarrow> string \<Rightarrow> service \<Rightarrow> service" where
  "late_turn now item_id k txt s =
     s\<lparr>sv_agenda := fst (settle_item now item_id ''delivered'' ''late'' (preview_of txt) (fst (delivered now k (sv_agenda s))))\<rparr>"

definition service_owner_wrote :: "int \<Rightarrow> string \<Rightarrow> service \<Rightarrow> service" where
  "service_owner_wrote now k s = (if is_owner_conversation k then s\<lparr>sv_agenda := fst (owner_wrote now k (sv_agenda s))\<rparr> else s)"

section \<open>The daily review\<close>

text \<open>Whether a review runs at \<open>now\<close>; \<open>day_text\<close> is the text of a day, \<open>some_goal\<close> whether a goal is active.\<close>

definition maybe_review :: "service_env \<Rightarrow> (int \<Rightarrow> string) \<Rightarrow> bool \<Rightarrow> int \<Rightarrow> service \<Rightarrow> service \<times> bool" where
  "maybe_review env day_text some_goal now s =
     (let a = sv_agenda s; set = ag_settings a; z = ev_zone env (as_timezone set); day = day_text (zn_day z now);
          (hour, minute) = parse_clock (as_review_time set) ''08:30''
      in if as_level set = ''off'' then (s, False)
      else if ag_last_review_day a = Some day then (s, False)
      else if zn_minute z now < hour * 60 + minute then (s, False)
      else let t = s\<lparr>sv_agenda := fst (mark_review now day a)\<rparr>
        in if \<not> some_goal \<and> (case ag_last_owner_at a of None \<Rightarrow> True | Some l \<Rightarrow> l = 0 \<or> REVIEW_RECENCY_MS < now - l)
           then (t, False) else (t, True))"

end
