(* ===== verification/Agenda_Limits.thy ===== *)
theory Agenda_Limits
  imports Agenda_Service
begin

text \<open>
  How many messages the owner gets unasked. All agents of an owner share the budget file; each holds slots
  for the wake-ups it runs, keeps the slot of a message that went out and gives the others back. A message is
  logged under the instant its slot was reserved. A turn the service no longer waits for may still speak; such a message
  has no slot.
\<close>

section \<open>Agents sharing a budget\<close>

text \<open>\<open>sh_open\<close> are the slots given back whose turn may still go on, \<open>sh_late\<close> those whose message came without a slot.\<close>

record slot_holders =
  sh_now :: int
  sh_entries :: "budget_entry list"
  sh_held :: "budget_entry list"
  sh_open :: "budget_entry list"
  sh_sent :: "budget_entry list"
  sh_late :: "budget_entry list"

definition no_slots :: "int \<Rightarrow> slot_holders" where
  "no_slots now = \<lparr>sh_now = now, sh_entries = [], sh_held = [], sh_open = [], sh_sent = [], sh_late = []\<rparr>"

definition slot :: "string \<Rightarrow> string \<Rightarrow> int \<Rightarrow> budget_entry" where
  "slot token p now = \<lparr>be_token = token, be_profile = p, be_at = now, be_state = Reserved\<rparr>"

text \<open>A pass reads the clock once, before its review: the slot it takes may bear an earlier instant. A message goes out
  under its slot (\<open>send\<close>), after the slot has become stale and another agent may have dropped it (\<open>send_stale\<close>), or after the
  service stopped waiting and gave the slot back (\<open>speak_late\<close>, which the budget never hears of).\<close>

inductive budget_step :: "zone \<Rightarrow> slot_holders \<Rightarrow> slot_holders \<Rightarrow> bool" for z where
  pass: "sh_now s \<le> t \<Longrightarrow> budget_step z s (s\<lparr>sh_now := t\<rparr>)"
| take: "token \<noteq> '''' \<Longrightarrow> token \<notin> be_token ` set (sh_entries s @ sh_held s) \<Longrightarrow> u \<le> sh_now s \<Longrightarrow>
    reserve token p z agent_cap GLOBAL_DAILY_CAP u (sh_entries s) = (es, Some token) \<Longrightarrow>
    budget_step z s (s\<lparr>sh_entries := es, sh_held := slot token p u # sh_held s\<rparr>)"
| refuse: "reserve token p z agent_cap GLOBAL_DAILY_CAP u (sh_entries s) = (es, None) \<Longrightarrow>
    budget_step z s (s\<lparr>sh_entries := es\<rparr>)"
| send: "e \<in> set (sh_held s) \<Longrightarrow> sh_now s - be_at e \<le> STALE_RESERVATION_MS \<Longrightarrow>
    budget_step z s (s\<lparr>sh_entries := confirm_slot (be_token e) (sh_entries s), sh_held := filter (\<lambda>h. be_token h \<noteq> be_token e) (sh_held s),
      sh_sent := e # sh_sent s\<rparr>)"
| send_stale: "e \<in> set (sh_held s) \<Longrightarrow> STALE_RESERVATION_MS < sh_now s - be_at e \<Longrightarrow>
    budget_step z s (s\<lparr>sh_entries := confirm_slot (be_token e) (sh_entries s), sh_held := filter (\<lambda>h. be_token h \<noteq> be_token e) (sh_held s),
      sh_late := e # sh_late s\<rparr>)"
| give_back: "e \<in> set (sh_held s) \<Longrightarrow>
    budget_step z s (s\<lparr>sh_entries := release_slot (be_token e) (sh_entries s), sh_held := filter (\<lambda>h. be_token h \<noteq> be_token e) (sh_held s),
      sh_open := e # sh_open s\<rparr>)"
| speak_late: "e \<in> set (sh_open s) \<Longrightarrow> budget_step z s (s\<lparr>sh_open := remove1 e (sh_open s), sh_late := e # sh_late s\<rparr>)"

inductive_cases budget_stepE: "budget_step z s t"

section \<open>Days\<close>

definition on_day :: "zone \<Rightarrow> int \<Rightarrow> budget_entry list \<Rightarrow> nat" where
  "on_day z d es = length (filter (\<lambda>e. zn_day z (be_at e) = d) es)"

definition sent_on :: "zone \<Rightarrow> int \<Rightarrow> budget_entry list \<Rightarrow> nat" where
  "sent_on z d es = length (filter (\<lambda>e. zn_day z (be_at e) = d \<and> be_state e = Sent) es)"

text \<open>Two instants of one day are at most 26 hours apart, clock changes included.\<close>

definition days_short :: "zone \<Rightarrow> bool" where
  "days_short z \<longleftrightarrow> (\<forall>s t. zn_day z s = zn_day z t \<longrightarrow> \<bar>s - t\<bar> \<le> 26 * 60 * 60 * 1000)"

text \<open>No entry of the day has been dropped for its age.\<close>

definition recent_day :: "zone \<Rightarrow> int \<Rightarrow> int \<Rightarrow> bool" where
  "recent_day z now d \<longleftrightarrow> (\<forall>t. zn_day z t = d \<longrightarrow> now - t < KEEP_MS)"

lemma recent_of_fresh:
  assumes "days_short z" "now - t \<le> STALE_RESERVATION_MS"
  shows "recent_day z now (zn_day z t)"
  unfolding recent_day_def
proof (intro allI impI)
  fix u assume "zn_day z u = zn_day z t"
  then have "\<bar>u - t\<bar> \<le> 26 * 60 * 60 * 1000" using assms(1) by (simp add: days_short_def)
  then show "now - u < KEEP_MS" using assms(2) by (simp add: KEEP_MS_def STALE_RESERVATION_MS_def)
qed

definition slots_inv :: "zone \<Rightarrow> slot_holders \<Rightarrow> bool" where
  "slots_inv z s \<longleftrightarrow>
     distinct (map be_token (sh_entries s))
     \<and> (\<forall>d. on_day z d (sh_entries s) \<le> GLOBAL_DAILY_CAP)
     \<and> (\<forall>d. on_day z d (sh_sent s) \<le> GLOBAL_DAILY_CAP)
     \<and> (\<forall>d. recent_day z (sh_now s) d \<longrightarrow> on_day z d (sh_sent s) \<le> sent_on z d (sh_entries s))
     \<and> (\<forall>h \<in> set (sh_held s). be_token h \<noteq> '''' \<and> be_state h = Reserved
        \<and> (sh_now s - be_at h \<le> STALE_RESERVATION_MS \<longrightarrow> h \<in> set (sh_entries s))
        \<and> (\<forall>e \<in> set (sh_entries s). be_token e = be_token h \<longrightarrow> be_state e = Reserved))"

lemma slots_inv_start: "slots_inv z (no_slots now)"
  by (simp add: slots_inv_def no_slots_def on_day_def sent_on_def)

lemma on_day_live: "on_day z d (live_entries now es) \<le> on_day z d es"
  by (auto simp: on_day_def live_entries_def intro!: length_filter_mono)

lemma sent_live: "recent_day z now d \<Longrightarrow> sent_on z d (live_entries now es) = sent_on z d es"
  unfolding sent_on_def live_entries_def filter_filter
  by (rule arg_cong [where f = length], rule filter_cong [OF refl]) (auto simp: recent_day_def)

lemma live_distinct: "distinct (map be_token es) \<Longrightarrow> distinct (map be_token (live_entries now es))"
  by (simp add: live_entries_def distinct_map_filter)

lemma live_subset: "set (live_entries now es) \<subseteq> set es"
  by (auto simp: live_entries_def)

lemma live_fresh: "e \<in> set es \<Longrightarrow> be_state e = Reserved \<Longrightarrow> now - be_at e \<le> STALE_RESERVATION_MS \<Longrightarrow> e \<in> set (live_entries now es)"
  by (auto simp: live_entries_def KEEP_MS_def STALE_RESERVATION_MS_def)

lemma reserve_Some:
  assumes "reserve token p z ac gc now es = (es', Some t)"
  shows "es' = live_entries now es @ [slot token p now]" "t = token" "on_day z (zn_day z now) (live_entries now es) < gc"
  using assms by (auto simp: reserve_def Let_def slot_def on_day_def today_entries_def split: if_splits)

lemma reserve_None: "reserve token p z ac gc now es = (es', None) \<Longrightarrow> es' = es"
  by (auto simp: reserve_def Let_def split: if_splits)

section \<open>Settling a slot\<close>

lemma on_day_confirm: "on_day z d (confirm_slot t es) = on_day z d es"
proof -
  have "length (filter (\<lambda>e. zn_day z (be_at e) = d) (map (\<lambda>e. if be_token e = t then e\<lparr>be_state := Sent\<rparr> else e) es))
      = length (filter (\<lambda>e. zn_day z (be_at e) = d) es)" by (induction es) auto
  then show ?thesis by (simp add: on_day_def confirm_slot_def settle_slot_def)
qed

lemma confirm_id: "t \<notin> be_token ` set es \<Longrightarrow> confirm_slot t es = es"
  by (auto simp: confirm_slot_def settle_slot_def intro!: map_idI)

lemma confirm_Cons: "t \<noteq> '''' \<Longrightarrow> confirm_slot t (e # es) = (if be_token e = t then e\<lparr>be_state := Sent\<rparr> else e) # confirm_slot t es"
  by (simp add: confirm_slot_def settle_slot_def)

lemma sent_confirm:
  assumes "distinct (map be_token es)" "e \<in> set es" "be_state e = Reserved" "be_token e \<noteq> ''''"
  shows "sent_on z d (confirm_slot (be_token e) es) = sent_on z d es + (if zn_day z (be_at e) = d then 1 else 0)"
  using assms(1,2)
proof (induction es)
  case (Cons x xs)
  show ?case
  proof (cases "x = e")
    case True
    with Cons.prems(1) have "be_token e \<notin> be_token ` set xs" by simp
    with True assms(3,4) show ?thesis by (simp add: confirm_Cons confirm_id sent_on_def)
  next
    case False
    with Cons.prems have "e \<in> set xs" "be_token x \<noteq> be_token e" by (auto dest: imageI [of e _ be_token])
    with Cons assms(4) show ?thesis by (simp add: confirm_Cons sent_on_def)
  qed
qed simp

lemma sent_le_on_day: "sent_on z d es \<le> on_day z d es"
  by (auto simp: sent_on_def on_day_def intro!: length_filter_mono)

lemma sent_release:
  assumes "\<forall>e \<in> set es. be_token e = t \<longrightarrow> be_state e = Reserved"
  shows "sent_on z d (release_slot t es) = sent_on z d es"
  using assms unfolding release_slot_def settle_slot_def sent_on_def
  by (induction es) (auto split: if_splits)

lemma confirm_tokens: "map be_token (confirm_slot t es) = map be_token es"
  by (induction es) (simp_all add: confirm_slot_def settle_slot_def)

lemma confirm_other: "e \<in> set es \<Longrightarrow> be_token e \<noteq> t \<Longrightarrow> e \<in> set (confirm_slot t es)"
  by (force simp: confirm_slot_def settle_slot_def)

lemma confirm_mem: "e \<in> set (confirm_slot t es) \<Longrightarrow> be_token e \<noteq> t \<Longrightarrow> e \<in> set es"
  by (auto simp: confirm_slot_def settle_slot_def split: if_splits)

lemma release_mem: "set (release_slot t es) \<subseteq> set es" "e \<in> set es \<Longrightarrow> be_token e \<noteq> t \<Longrightarrow> e \<in> set (release_slot t es)"
  "distinct (map be_token es) \<Longrightarrow> distinct (map be_token (release_slot t es))" "on_day z d (release_slot t es) \<le> on_day z d es"
  by (auto simp: release_slot_def settle_slot_def on_day_def distinct_map_filter intro!: length_filter_mono)

section \<open>The invariant\<close>

lemma step_pass: "slots_inv z s \<Longrightarrow> sh_now s \<le> t \<Longrightarrow> slots_inv z (s\<lparr>sh_now := t\<rparr>)"
  by (fastforce simp: slots_inv_def recent_day_def)

lemma step_take:
  assumes "slots_inv z s" "token \<noteq> ''''" "token \<notin> be_token ` set (sh_entries s @ sh_held s)"
    "reserve token p z ac GLOBAL_DAILY_CAP u (sh_entries s) = (es, Some token)" "u \<le> sh_now s"
  shows "slots_inv z (s\<lparr>sh_entries := es, sh_held := slot token p u # sh_held s\<rparr>)"
proof -
  note r = reserve_Some [OF assms(4)]
  let ?live = "live_entries u (sh_entries s)" and ?new = "slot token p u"
  have sub: "set ?live \<subseteq> set (sh_entries s)" by (rule live_subset)
  have "distinct (map be_token es)"
    using assms(1,3) sub by (auto simp: r(1) slots_inv_def slot_def live_distinct)
  moreover have "on_day z d es \<le> GLOBAL_DAILY_CAP" for d
  proof (cases "d = zn_day z u")
    case True
    then have "on_day z d es = Suc (on_day z d ?live)" by (simp add: r(1) on_day_def slot_def)
    with r(3) True show ?thesis by simp
  next
    case False
    then have "on_day z d es = on_day z d ?live" by (simp add: r(1) on_day_def slot_def)
    with on_day_live [of z d u "sh_entries s"] assms(1) show ?thesis by (auto simp: slots_inv_def intro: order_trans)
  qed
  moreover have "sent_on z d es = sent_on z d (sh_entries s)" if "recent_day z (sh_now s) d" for d
    using sent_live [of z u d "sh_entries s"] that assms(5) by (force simp: r(1) sent_on_def slot_def recent_day_def)
  moreover have "h \<in> set es" if "h \<in> set (sh_held s)" "sh_now s - be_at h \<le> STALE_RESERVATION_MS" for h
    using assms(1) that live_fresh [of h "sh_entries s" u] assms(5) by (auto simp: r(1) slots_inv_def)
  moreover have "be_state e = Reserved" if "e \<in> set es" "h \<in> set (?new # sh_held s)" "be_token e = be_token h" for e h
    using assms(1,3) that sub by (auto simp: r(1) slots_inv_def slot_def)
  ultimately show ?thesis
    using assms(1,2) by (auto simp: slots_inv_def slot_def r(1))
qed

lemma step_send:
  assumes "slots_inv z s" "days_short z" "e \<in> set (sh_held s)" "sh_now s - be_at e \<le> STALE_RESERVATION_MS"
  shows "slots_inv z (s\<lparr>sh_entries := confirm_slot (be_token e) (sh_entries s),
    sh_held := filter (\<lambda>h. be_token h \<noteq> be_token e) (sh_held s), sh_sent := e # sh_sent s\<rparr>)"
proof -
  let ?es = "confirm_slot (be_token e) (sh_entries s)"
  have e: "e \<in> set (sh_entries s)" "be_state e = Reserved" "be_token e \<noteq> ''''" and dist: "distinct (map be_token (sh_entries s))"
    using assms(1,3,4) by (auto simp: slots_inv_def)
  note sc = sent_confirm [OF dist e]
  have log: "on_day z d (e # sh_sent s) \<le> sent_on z d ?es" if "recent_day z (sh_now s) d" for d
    using assms(1) that by (simp add: sc slots_inv_def) (simp add: on_day_def)
  have "on_day z d (e # sh_sent s) \<le> GLOBAL_DAILY_CAP" for d
  proof (cases "zn_day z (be_at e) = d")
    case True
    with recent_of_fresh [OF assms(2,4)] log [of d] sent_le_on_day [of z d ?es] assms(1) show ?thesis
      by (auto simp: on_day_confirm slots_inv_def intro: order_trans)
  next
    case False
    then have "on_day z d (e # sh_sent s) = on_day z d (sh_sent s)" by (simp add: on_day_def)
    with assms(1) show ?thesis by (simp add: slots_inv_def)
  qed
  with log assms(1) show ?thesis
    by (auto simp: slots_inv_def confirm_tokens on_day_confirm intro: confirm_other dest: confirm_mem)
qed

lemma sent_confirm_more: "sent_on z d es \<le> sent_on z d (confirm_slot t es)"
  unfolding confirm_slot_def settle_slot_def sent_on_def by (induction es) auto

lemma step_send_stale:
  assumes "slots_inv z s" "e \<in> set (sh_held s)"
  shows "slots_inv z (s\<lparr>sh_entries := confirm_slot (be_token e) (sh_entries s),
    sh_held := filter (\<lambda>h. be_token h \<noteq> be_token e) (sh_held s), sh_late := e # sh_late s\<rparr>)"
  using assms sent_confirm_more [of z _ "sh_entries s" "be_token e"]
  by (auto simp: slots_inv_def confirm_tokens on_day_confirm intro: confirm_other order_trans dest: confirm_mem)

lemma step_give_back:
  assumes "slots_inv z s" "e \<in> set (sh_held s)"
  shows "slots_inv z (s\<lparr>sh_entries := release_slot (be_token e) (sh_entries s), sh_held := filter (\<lambda>h. be_token h \<noteq> be_token e) (sh_held s),
    sh_open := e # sh_open s\<rparr>)"
proof -
  have "\<forall>x \<in> set (sh_entries s). be_token x = be_token e \<longrightarrow> be_state x = Reserved" using assms by (auto simp: slots_inv_def)
  note sr = sent_release [OF this]
  have "on_day z d (release_slot (be_token e) (sh_entries s)) \<le> GLOBAL_DAILY_CAP" for d
    using release_mem(4) [of z d "be_token e" "sh_entries s"] assms(1) by (auto simp: slots_inv_def intro: order_trans)
  with assms(1) sr release_mem(3) show ?thesis
    by (auto simp: slots_inv_def intro: release_mem(2) dest: set_mp [OF release_mem(1)])
qed

lemma budget_step_inv: "days_short z \<Longrightarrow> slots_inv z s \<Longrightarrow> budget_step z s t \<Longrightarrow> slots_inv z t"
  by (erule budget_stepE) (auto simp: step_pass step_take step_send step_send_stale step_give_back slots_inv_def [of z "s\<lparr>sh_open := _, sh_late := _\<rparr>"]
    slots_inv_def [of z s] dest: reserve_None)

interpretation slots: guarded_system "\<lambda>s. \<exists>now. s = no_slots now" "budget_step z" "\<lambda>s. days_short z \<longrightarrow> slots_inv z s" for z
  by unfold_locales (auto simp: slots_inv_start intro: budget_step_inv)

end
