(* ===== verification/Agenda_Invariant.thy ===== *)
theory Agenda_Invariant
  imports Agenda_Store "HOL-Library.Sublist"
begin

text \<open>
  What holds of an agenda after every transaction: its caps, one entry per wake-up and conversation, and that
  every wake-up belongs to a conversation of the owner, with a note that passed the checks and attempts left.
\<close>

section \<open>The invariant\<close>

definition item_ok :: "(string \<Rightarrow> string option) \<Rightarrow> wake_item \<Rightarrow> bool" where
  "item_ok scan i \<longleftrightarrow> clean_note scan MAX_NOTE (wi_note i) = Inr (wi_note i) \<and> is_owner_conversation (wi_session_key i)
     \<and> wi_kind i \<in> {''objective'', ''follow_up''} \<and> (wi_kind i = ''objective'' \<longleftrightarrow> wi_objective_id i \<noteq> None)"

definition items_ok :: "(string \<Rightarrow> string option) \<Rightarrow> wake_item list \<Rightarrow> bool" where
  "items_ok scan is \<longleftrightarrow> (\<forall>i \<in> set is. item_ok scan i \<and> 0 \<le> wi_attempts i \<and> wi_attempts i < MAX_ATTEMPTS)
     \<and> distinct (map wi_id is) \<and> length is \<le> MAX_PENDING
     \<and> (\<forall>k. length (filter (follow_up_in k) is) \<le> MAX_FOLLOW_UPS_PER_CONVERSATION)"

definition agenda_ok :: "(string \<Rightarrow> string option) \<Rightarrow> agenda \<Rightarrow> bool" where
  "agenda_ok scan a \<longleftrightarrow> items_ok scan (ag_items a) \<and> distinct (map fst (ag_conversations a)) \<and> as_level (ag_settings a) \<in> set LEVELS
     \<and> length (ag_history a) \<le> MAX_HISTORY \<and> length (ag_conversations a) \<le> MAX_CONVERSATIONS"

text \<open>The part a change has to keep; writing the file restores the rest.\<close>

definition draft_ok :: "(string \<Rightarrow> string option) \<Rightarrow> agenda \<Rightarrow> bool" where
  "draft_ok scan a \<longleftrightarrow> items_ok scan (ag_items a) \<and> distinct (map fst (ag_conversations a)) \<and> as_level (ag_settings a) \<in> set LEVELS"

lemma agenda_ok_draft: "agenda_ok scan a \<Longrightarrow> draft_ok scan a"
  by (simp add: agenda_ok_def draft_ok_def)

lemma written_ok:
  assumes "draft_ok scan a"
  shows "agenda_ok scan (written a)"
proof -
  let ?c = "ag_conversations a"
  have "distinct (map fst (sort_key last_seen ?c))"
    using assms by (simp add: draft_ok_def distinct_map)
  then have "distinct (map fst (last_n MAX_CONVERSATIONS (sort_key last_seen ?c)))" by (simp add: last_n_def flip: drop_map)
  then show ?thesis using assms length_last_n [of MAX_CONVERSATIONS "sort_key last_seen ?c"]
    by (simp add: agenda_ok_def draft_ok_def written_def length_last_n)
qed

lemma transaction_keeps:
  assumes "agenda_ok scan a" "\<And>b x. f a = Inr (b, x) \<Longrightarrow> draft_ok scan b"
  shows "agenda_ok scan (fst (transaction f a))"
proof (cases "f a")
  case (Inr r)
  then show ?thesis using assms(2) [of "fst r" "snd r"] by (cases r) (auto simp: transaction_def intro: written_ok)
qed (simp add: transaction_def assms(1))

section \<open>Items that stay what they are\<close>

text \<open>No operation changes what identifies a wake-up.\<close>

definition shape :: "wake_item \<Rightarrow> string \<times> string \<times> string \<times> string \<times> string option" where
  "shape i = (wi_id i, wi_kind i, wi_note i, wi_session_key i, wi_objective_id i)"

lemma shape_item_ok: "shape i = shape j \<Longrightarrow> item_ok scan i = item_ok scan j"
  by (simp add: shape_def item_ok_def)

lemma shapes_filter: "length (filter (follow_up_in k) is) = length (filter (\<lambda>(_, kind, _, key, _). kind = ''follow_up'' \<and> key = k) (map shape is))"
  by (induction "is") (simp_all add: follow_up_in_def shape_def)

lemma shapes_ids: "map wi_id is = map fst (map shape is)"
  by (simp add: shape_def)

lemma subseq_mem: "subseq xs ys \<Longrightarrow> x \<in> set xs \<Longrightarrow> x \<in> set ys"
  by (induction rule: list_emb.induct) auto

lemma subseq_distinct: "subseq xs ys \<Longrightarrow> distinct ys \<Longrightarrow> distinct xs"
  by (induction rule: list_emb.induct) (auto dest: subseq_mem)

lemma items_ok_subseq:
  assumes "items_ok scan is" "subseq (map shape js) (map shape is)"
    "\<And>j. j \<in> set js \<Longrightarrow> 0 \<le> wi_attempts j \<and> wi_attempts j < MAX_ATTEMPTS"
  shows "items_ok scan js"
proof -
  have "item_ok scan j" if "j \<in> set js" for j
  proof -
    have "shape j \<in> set (map shape is)" by (rule subseq_mem [OF assms(2)]) (simp add: that)
    then obtain i where "i \<in> set is" "shape j = shape i" by auto
    with assms(1) shape_item_ok [of j i] show ?thesis by (auto simp: items_ok_def)
  qed
  moreover have "distinct (map wi_id js)"
    using assms(1) subseq_distinct [OF subseq_map [OF assms(2), of fst]] by (simp add: items_ok_def shapes_ids)
  moreover have "length js \<le> MAX_PENDING" using assms(1) list_emb_length [OF assms(2)] by (simp add: items_ok_def)
  moreover have "length (filter (follow_up_in k) js) \<le> MAX_FOLLOW_UPS_PER_CONVERSATION" for k
  proof -
    have "length (filter (follow_up_in k) js) \<le> length (filter (follow_up_in k) is)"
      unfolding shapes_filter by (rule list_emb_length [OF subseq_filter [OF assms(2)]])
    with assms(1) show ?thesis by (meson items_ok_def order_trans)
  qed
  ultimately show ?thesis using assms(3) by (auto simp: items_ok_def)
qed

lemma subseq_drop_first: "subseq (drop_first P xs) xs"
  by (induction xs) auto

lemma change_first_map: "(\<And>x. g (f x) = g x) \<Longrightarrow> map g (change_first P f xs) = map g xs"
  by (induction xs) auto

lemma change_first_mem: "y \<in> set (change_first P f xs) \<Longrightarrow> y \<in> set xs \<or> (\<exists>x. find P xs = Some x \<and> y = f x)"
  by (induction xs) (auto split: if_splits)

lemma drop_first_mem: "y \<in> set (drop_first P xs) \<Longrightarrow> y \<in> set xs"
  by (induction xs) (auto split: if_splits)

lemma items_ok_part:
  assumes "items_ok scan is" "subseq js is"
  shows "items_ok scan js"
proof (rule items_ok_subseq [OF assms(1) subseq_map [OF assms(2)]])
  show "0 \<le> wi_attempts j \<and> wi_attempts j < MAX_ATTEMPTS" if "j \<in> set js" for j
    using assms that by (auto simp: items_ok_def dest: subseq_mem)
qed

section \<open>Operations\<close>

lemma retire_draft: "draft_ok scan a \<Longrightarrow> draft_ok scan (retire P outcome reason now a)"
  by (auto simp: draft_ok_def retire_def intro: items_ok_part)

lemma change_stats_draft: "draft_ok scan a \<Longrightarrow> draft_ok scan (change_stats k f a)"
proof -
  have "fst \<circ> (\<lambda>(j, s). (j, if j = k then f s else s)) = fst" by auto
  then show "draft_ok scan a \<Longrightarrow> draft_ok scan (change_stats k f a)" by (auto simp: draft_ok_def change_stats_def)
qed

lemma owner_key_clean: "clean_session_key v = Inr k \<Longrightarrow> clean_session_key k = Inr k"
proof -
  assume "clean_session_key v = Inr k"
  then have k: "k = strip v" "length v \<le> MAX_SESSION_KEY" "\<not> list_ex control_char v" by (auto simp: clean_session_key_def split: if_splits)
  have "set (strip v) \<subseteq> set v" by (auto simp: strip_def lstrip_def rstrip_def dest!: set_dropWhileD)
  then have "\<not> list_ex control_char k" using k by (auto simp: list_ex_iff)
  with k length_strip [of v] show ?thesis by (simp add: clean_session_key_def)
qed

lemma new_item_fields [simp]:
  "wi_id (new_item now hex kind due t key g c) = ''wk_'' @ hex" "wi_kind (new_item now hex kind due t key g c) = kind"
  "wi_note (new_item now hex kind due t key g c) = t" "wi_session_key (new_item now hex kind due t key g c) = key"
  "wi_objective_id (new_item now hex kind due t key g c) = g" "wi_attempts (new_item now hex kind due t key g c) = 0"
  "wi_due_at (new_item now hex kind due t key g c) = due" "wi_state (new_item now hex kind due t key g c) = Wake_pending"
  by (simp_all add: new_item_def)

lemma clean_note_again: "clean_note scan n v = Inr t \<Longrightarrow> clean_note scan n t = Inr t"
  unfolding clean_note_def by (rule clean_string_again)

lemma items_ok_add:
  assumes "items_ok scan is" "item_ok scan i" "wi_attempts i = 0" "wi_id i \<notin> wi_id ` set is" "length is < MAX_PENDING"
    "wi_kind i = ''follow_up'' \<longrightarrow> length (filter (follow_up_in (wi_session_key i)) is) < MAX_FOLLOW_UPS_PER_CONVERSATION"
  shows "items_ok scan (is @ [i])"
proof -
  have "length (filter (follow_up_in k) (is @ [i])) \<le> MAX_FOLLOW_UPS_PER_CONVERSATION" for k
  proof (cases "follow_up_in k i")
    case True
    with assms(6) show ?thesis by (auto simp: follow_up_in_def)
  next
    case False
    with assms(1) show ?thesis by (simp add: items_ok_def)
  qed
  then show ?thesis using assms by (auto simp: items_ok_def MAX_ATTEMPTS_def)
qed

lemma schedule_ok:
  assumes "agenda_ok scan a" "''wk_'' @ hex \<notin> wi_id ` set (ag_items a)"
  shows "agenda_ok scan (fst (schedule scan now hex kind due note key goal cancel a))"
proof (cases "kind \<in> {''objective'', ''follow_up''} \<and> is_ok (clean_session_key key) \<and> is_ok (clean_note scan MAX_NOTE note)")
  case True
  then obtain k t where kt: "clean_session_key key = Inr k" "clean_note scan MAX_NOTE note = Inr t" and kind: "kind \<in> {''objective'', ''follow_up''}"
    by (cases "clean_session_key key"; cases "clean_note scan MAX_NOTE note") auto
  let ?i = "new_item now hex kind due t k (if kind = ''objective'' then goal else None) (cancel \<and> kind = ''follow_up'')"
  let ?b = "if kind = ''objective'' then retire (check_in_of goal) ''replaced'' None now a else a"
  have draft: "draft_ok scan (?b\<lparr>ag_items := ag_items ?b @ [?i]\<rparr>)"
    if "is_owner_conversation k" "\<not> (kind = ''objective'' \<and> \<not> truthy goal)" "length (ag_items ?b) < MAX_PENDING"
      "\<not> (kind \<noteq> ''objective'' \<and> MAX_FOLLOW_UPS_PER_CONVERSATION \<le> length (filter (follow_up_in k) (ag_items a)))"
  proof -
    have b: "draft_ok scan ?b" using retire_draft [OF agenda_ok_draft [OF assms(1)]] agenda_ok_draft [OF assms(1)] by simp
    have "set (ag_items ?b) \<subseteq> set (ag_items a)" by (auto simp: retire_def)
    then have "wi_id ?i \<notin> wi_id ` set (ag_items ?b)" using assms(2) by auto
    moreover have "item_ok scan ?i" using that(1,2) kind clean_note_again [OF kt(2)] by (auto simp: item_ok_def truthy_iff)
    ultimately have "items_ok scan (ag_items ?b @ [?i])"
      using b that(3,4) by (intro items_ok_add) (auto simp: draft_ok_def)
    with b show ?thesis by (simp add: draft_ok_def)
  qed
  show ?thesis using True kind assms(1) draft unfolding schedule_def kt sum.case
    by (auto simp: Let_def intro!: transaction_keeps split: if_splits)
qed (use assms(1) in \<open>auto simp: schedule_def split: sum.splits\<close>)

lemma restore_ok:
  assumes "agenda_ok scan a" "''wk_'' @ hex \<notin> wi_id ` set (ag_items a)"
  shows "agenda_ok scan (fst (restore_for_objective scan now hex delay g key fallback a))"
proof (cases "clean_session_key key")
  case (Inr k)
  have "draft_ok scan b" if own: "is_owner_conversation k" and f: "on_ok (clean_note scan MAX_NOTE nt)
      (\<lambda>t. let i = new_item now hex ''objective'' due t k (Some g) False in Inr (a\<lparr>ag_items := ag_items a @ [i]\<rparr>, Some i)) = Inr (b, x)"
    "length (ag_items a) < MAX_PENDING" for b x nt due
  proof -
    from f(1) obtain t where t: "clean_note scan MAX_NOTE nt = Inr t"
      and b: "b = a\<lparr>ag_items := ag_items a @ [new_item now hex ''objective'' due t k (Some g) False]\<rparr>"
      by (auto simp: on_ok_Inr_iff Let_def)
    have "item_ok scan (new_item now hex ''objective'' due t k (Some g) False)"
      using own clean_note_again [OF t] by (simp add: item_ok_def)
    then have "items_ok scan (ag_items b)" using assms f(2) unfolding b by (auto simp: agenda_ok_def intro!: items_ok_add)
    then show ?thesis using agenda_ok_draft [OF assms(1)] by (simp add: draft_ok_def b)
  qed
  then show ?thesis unfolding restore_for_objective_def Inr sum.case using assms(1)
    by (auto simp: Let_def agenda_ok_draft intro!: transaction_keeps split: if_splits option.splits)
qed (simp add: restore_for_objective_def assms(1))

lemma drop_first_items: "items_ok scan is \<Longrightarrow> items_ok scan (drop_first P is)"
  by (rule items_ok_part [OF _ subseq_drop_first])

text \<open>A change in place that keeps the shape and the attempts within bounds.\<close>

lemma map_items:
  assumes "items_ok scan is" "\<And>i. shape (f i) = shape i" "\<And>i. i \<in> set is \<Longrightarrow> 0 \<le> wi_attempts i \<Longrightarrow> wi_attempts i < MAX_ATTEMPTS \<Longrightarrow>
      0 \<le> wi_attempts (f i) \<and> wi_attempts (f i) < MAX_ATTEMPTS"
  shows "items_ok scan (map f is)"
  by (rule items_ok_subseq [OF assms(1)]) (use assms in \<open>auto simp: o_def items_ok_def\<close>)

lemma change_first_items:
  assumes "items_ok scan is" "\<And>i. shape (f i) = shape i" "\<And>i. find P is = Some i \<Longrightarrow> 0 \<le> wi_attempts i \<Longrightarrow> wi_attempts i < MAX_ATTEMPTS \<Longrightarrow>
      0 \<le> wi_attempts (f i) \<and> wi_attempts (f i) < MAX_ATTEMPTS"
  shows "items_ok scan (change_first P f is)"
proof (rule items_ok_subseq [OF assms(1)])
  show "subseq (map shape (change_first P f is)) (map shape is)" by (simp add: change_first_map assms(2))
next
  fix j assume "j \<in> set (change_first P f is)"
  then consider "j \<in> set is" | i where "find P is = Some i" "j = f i" by (blast dest: change_first_mem)
  then show "0 \<le> wi_attempts j \<and> wi_attempts j < MAX_ATTEMPTS"
  proof cases
    case 2
    then have "i \<in> set is" by (auto simp: find_Some_iff)
    with 2 assms(1,3) show ?thesis by (auto simp: items_ok_def)
  qed (use assms(1) in \<open>simp add: items_ok_def\<close>)
qed

lemma cancel_item_ok: "agenda_ok scan a \<Longrightarrow> agenda_ok scan (fst (cancel_item now k reason a))"
  unfolding cancel_item_def
  by (rule transaction_keeps) (auto simp: Let_def agenda_ok_def draft_ok_def drop_first_items split: option.splits)

lemma cancel_for_objective_ok: "agenda_ok scan a \<Longrightarrow> agenda_ok scan (fst (cancel_for_objective now g reason a))"
  unfolding cancel_for_objective_def by (rule transaction_keeps) (auto intro: retire_draft agenda_ok_draft)

lemma defer_item_ok: "agenda_ok scan a \<Longrightarrow> agenda_ok scan (fst (defer_item k until reason a))"
  unfolding defer_item_def
  by (rule transaction_keeps) (auto simp: agenda_ok_def draft_ok_def shape_def intro!: map_items)

lemma start_item_ok: "agenda_ok scan a \<Longrightarrow> agenda_ok scan (fst (start_item now k a))"
  unfolding start_item_def
  by (rule transaction_keeps)
    (auto simp: Let_def agenda_ok_def draft_ok_def shape_def intro!: change_first_items)

lemma settle_item_ok: "agenda_ok scan a \<Longrightarrow> agenda_ok scan (fst (settle_item now k outcome reason preview a))"
  unfolding settle_item_def
  by (rule transaction_keeps) (auto simp: Let_def agenda_ok_def draft_ok_def drop_first_items split: option.splits)

lemma retry_ok: "agenda_ok scan a \<Longrightarrow> agenda_ok scan (fst (retry_or_give_up now k reason a))"
  unfolding retry_or_give_up_def
  by (rule transaction_keeps)
    (auto simp: Let_def shape_def agenda_ok_def draft_ok_def drop_first_items intro!: change_first_items split: option.splits if_splits)

lemma recovered_attempts: "\<not> given_up i \<Longrightarrow> 0 \<le> wi_attempts i \<Longrightarrow> wi_attempts i < MAX_ATTEMPTS \<Longrightarrow>
    0 \<le> wi_attempts (recovered now i) \<and> wi_attempts (recovered now i) < MAX_ATTEMPTS"
  by (auto simp: given_up_def recovered_def)

lemma recover_ok: "agenda_ok scan a \<Longrightarrow> agenda_ok scan (fst (recover_interrupted now a))"
proof -
  assume a: "agenda_ok scan a"
  have "items_ok scan (filter (\<lambda>i. \<not> given_up i) (ag_items a))" using a by (auto simp: agenda_ok_def intro: items_ok_part)
  then have "items_ok scan (map (recovered now) (filter (\<lambda>i. \<not> given_up i) (ag_items a)))"
    by (rule map_items) (use recovered_attempts in \<open>auto simp: recovered_def shape_def\<close>)
  with a show ?thesis unfolding recover_interrupted_def by (intro transaction_keeps) (auto simp: agenda_ok_def draft_ok_def)
qed

lemma owner_wrote_ok: "agenda_ok scan a \<Longrightarrow> agenda_ok scan (fst (owner_wrote now k a))"
proof -
  assume a: "agenda_ok scan a"
  have "draft_ok scan ((change_stats k f a)\<lparr>ag_last_owner_at := t\<rparr>)" for f t
    using change_stats_draft [OF agenda_ok_draft [OF a]] by (simp add: draft_ok_def)
  then show ?thesis unfolding owner_wrote_def by (intro transaction_keeps [OF a]) (auto simp: Let_def intro!: retire_draft)
qed

lemma delivered_ok: "agenda_ok scan a \<Longrightarrow> agenda_ok scan (fst (delivered now k a))"
  unfolding delivered_def by (rule transaction_keeps) (auto intro: change_stats_draft [OF agenda_ok_draft])

lemma mark_review_ok: "agenda_ok scan a \<Longrightarrow> agenda_ok scan (fst (mark_review now day a))"
  unfolding mark_review_def by (rule transaction_keeps) (auto simp: agenda_ok_def draft_ok_def)

lemma clean_level_Inr: "clean_level v = Inr l \<Longrightarrow> l \<in> set LEVELS"
  by (auto simp: clean_level_def Let_def split: if_splits)

lemma changed_Some: "changed f v = Inr (Some y) \<Longrightarrow> \<exists>x. f x = Inr y"
  by (auto simp: changed_def on_ok_Inr_iff split: option.splits)

lemma settings_transaction:
  assumes "agenda_ok scan a" "\<forall>l'. l = Some l' \<longrightarrow> l' \<in> set LEVELS"
  shows "agenda_ok scan (fst (transaction (\<lambda>d. let s = ag_settings d;
      t = \<lparr>as_level = set_to l (as_level s), as_quiet_start = set_to qs (as_quiet_start s), as_quiet_end = set_to qe (as_quiet_end s),
        as_timezone = set_to z (as_timezone s), as_review_time = set_to rt (as_review_time s)\<rparr> in Inr (d\<lparr>ag_settings := t\<rparr>, t)) a))"
  by (rule transaction_keeps [OF assms(1)]) (use assms in \<open>cases l; auto simp: Let_def agenda_ok_def draft_ok_def set_to_def\<close>)

lemma update_settings_ok:
  assumes "agenda_ok scan a"
  shows "agenda_ok scan (fst (update_settings known c a))"
proof -
  note * = settings_transaction [OF assms]
  show ?thesis unfolding update_settings_def
    by (auto simp: assms on_ok_Inr_iff guard_Inr_iff dest!: changed_Some clean_level_Inr intro!: * split: sum.splits)
qed

section \<open>The agenda over time\<close>

inductive agenda_step :: "(string \<Rightarrow> string option) \<Rightarrow> agenda \<Rightarrow> agenda \<Rightarrow> bool" for scan where
  scheduled: "''wk_'' @ hex \<notin> wi_id ` set (ag_items a) \<Longrightarrow>
    agenda_step scan a (fst (schedule scan now hex kind due text key goal cancel a))"
| restored: "''wk_'' @ hex \<notin> wi_id ` set (ag_items a) \<Longrightarrow>
    agenda_step scan a (fst (restore_for_objective scan now hex delay g key fallback a))"
| cancelled: "agenda_step scan a (fst (cancel_item now k reason a))"
| goal_cancelled: "agenda_step scan a (fst (cancel_for_objective now g reason a))"
| deferred: "agenda_step scan a (fst (defer_item k until reason a))"
| started: "agenda_step scan a (fst (start_item now k a))"
| ended: "agenda_step scan a (fst (settle_item now k outcome reason preview a))"
| failed: "agenda_step scan a (fst (retry_or_give_up now k reason a))"
| restarted: "agenda_step scan a (fst (recover_interrupted now a))"
| answered: "agenda_step scan a (fst (owner_wrote now key a))"
| counted: "agenda_step scan a (fst (delivered now key a))"
| reviewed: "agenda_step scan a (fst (mark_review now day a))"
| configured: "agenda_step scan a (fst (update_settings known c a))"

lemmas agenda_ops_ok = schedule_ok restore_ok cancel_item_ok cancel_for_objective_ok defer_item_ok start_item_ok settle_item_ok
  retry_ok recover_ok owner_wrote_ok delivered_ok mark_review_ok update_settings_ok

lemma agenda_step_ok: "agenda_step scan a b \<Longrightarrow> agenda_ok scan a \<Longrightarrow> agenda_ok scan b"
  by (induction rule: agenda_step.induct) (simp_all add: agenda_ops_ok)

lemma empty_agenda_ok: "agenda_ok scan empty_agenda"
  by (simp add: agenda_ok_def empty_agenda_def items_ok_def default_settings_def DEFAULT_LEVEL_def LEVELS_def)

interpretation agendas: guarded_system "\<lambda>a. a = empty_agenda" "agenda_step scan" "agenda_ok scan" for scan
  by unfold_locales (auto simp: empty_agenda_ok intro: agenda_step_ok)

end
