(* ===== verification/Agenda_Progress.thy ===== *)
theory Agenda_Progress
  imports Agenda_Service Agenda_Invariant
begin

text \<open>
  What a pass over the due wake-ups leaves: each was started, dropped or put off to a later time, unless its
  conversation has a wake-up running or as many run as may.
\<close>

section \<open>Times of the local clock\<close>

text \<open>The instant a zone gives for a local time that the local clock has still to reach. In an hour that the clock repeats the
  zone gives the first of two instants, and it may have passed.\<close>

definition clock_ahead :: "zone \<Rightarrow> int \<Rightarrow> int \<Rightarrow> bool" where
  "clock_ahead z now u \<longleftrightarrow> (\<exists>d h m. u = zn_at z d h m \<and> 0 \<le> h \<and> 0 \<le> m
     \<and> (zn_day z now < d \<or> zn_day z now = d \<and> zn_minute z now < h * 60 + m))"

lemma parse_clock_range: "parse_clock t f = (h, m) \<Longrightarrow> 0 \<le> h \<and> 0 \<le> m"
  by (auto simp: parse_clock_def clock_of_def Let_def split: option.splits if_splits)

lemma quiet_until_ahead: "quiet_until now z qs qe = Some t \<Longrightarrow> clock_ahead z now t"
proof -
  assume q: "quiet_until now z qs qe = Some t"
  obtain sh sm where s: "parse_clock qs DEFAULT_QUIET_START = (sh, sm)" by force
  obtain eh em where e: "parse_clock qe DEFAULT_QUIET_END = (eh, em)" by force
  let ?d = "if eh * 60 + em < sh * 60 + sm \<and> sh * 60 + sm \<le> zn_minute z now then zn_day z now + 1 else zn_day z now"
  have t: "t = zn_at z ?d eh em" "zn_day z now < ?d \<or> zn_day z now = ?d \<and> zn_minute z now < eh * 60 + em"
    using q s e by (auto simp: quiet_until_def Let_def inside_window_def split: if_splits)
  then show ?thesis using parse_clock_range [OF e] unfolding clock_ahead_def by blast
qed

lemma next_day_ahead: "clock_ahead z now (next_day_start now z qe)"
proof -
  obtain eh em where e: "parse_clock qe DEFAULT_QUIET_END = (eh, em)" by force
  have "next_day_start now z qe = zn_at z (zn_day z now + 1) eh em" by (simp add: next_day_start_def e)
  with parse_clock_range [OF e] show ?thesis unfolding clock_ahead_def by force
qed

text \<open>A wake-up is put off to a later time, or to a time the local clock has still to reach.\<close>

lemma deferred_ahead: "decide f = Defer_wake reason until \<Longrightarrow> fa_now_ms f < until \<or> clock_ahead (fa_zone f) (fa_now_ms f) until"
  using quiet_until_ahead [of "fa_now_ms f" "fa_zone f" "fa_quiet_start f" "fa_quiet_end f"] next_day_ahead [of "fa_zone f" "fa_now_ms f" "fa_quiet_end f"]
  by (auto simp: decide_def Let_def BUSY_RETRY_MS_def split: if_splits)

text \<open>In a zone that repeats no hour, an instant before a time of the local clock is before the instant the zone gives for it.\<close>

locale forward_zone =
  fixes z :: zone
  assumes before: "zn_day z t < d \<or> zn_day z t = d \<and> zn_minute z t < h * 60 + m \<Longrightarrow> 0 \<le> h \<Longrightarrow> 0 \<le> m \<Longrightarrow> t < zn_at z d h m"
begin

lemma ahead_later: "clock_ahead z now u \<Longrightarrow> now < u"
  using before by (auto simp: clock_ahead_def)

end

interpretation fixed: forward_zone "fixed_zone off" for off
proof
  fix t d h m :: int
  assume b: "zn_day (fixed_zone off) t < d \<or> zn_day (fixed_zone off) t = d \<and> zn_minute (fixed_zone off) t < h * 60 + m" and hm: "0 \<le> h" "0 \<le> m"
  define x where "x = t + off * 60000"
  define r where "r = x mod 86400000"
  have x: "x = 86400000 * (x div 86400000) + r" "0 \<le> r" "r < 86400000" by (simp_all add: r_def)
  have n: "r = 60000 * (r div 60000) + r mod 60000" "r mod 60000 < 60000" by simp_all
  have "x div 86400000 < d \<or> x div 86400000 = d \<and> r div 60000 < h * 60 + m" using b by (simp add: fixed_zone_def x_def r_def)
  then have "x < d * 86400000 + (h * 60 + m) * 60000"
  proof
    assume "x div 86400000 < d"
    then have "86400000 * (x div 86400000) + 86400000 \<le> d * 86400000" by simp
    moreover have "0 \<le> (h * 60 + m) * 60000" using hm by simp
    ultimately show ?thesis using x by linarith
  next
    assume d: "x div 86400000 = d \<and> r div 60000 < h * 60 + m"
    then have "60000 * (r div 60000) + 60000 \<le> (h * 60 + m) * 60000" by simp
    with d x n show ?thesis by linarith
  qed
  then show "t < zn_at (fixed_zone off) d h m" by (simp add: fixed_zone_def x_def)
qed

section \<open>One wake-up\<close>

abbreviation is_due :: "int \<Rightarrow> wake_item \<Rightarrow> bool" where
  "is_due now j \<equiv> is_pending j \<and> wi_due_at j \<le> now"

lemma drop_first_distinct: "distinct (map g xs) \<Longrightarrow> set (drop_first (\<lambda>x. g x = k) xs) = {x \<in> set xs. g x \<noteq> k}"
  by (induction xs) (auto simp: image_iff)

lemma find_Some_mem: "find P xs = Some x \<Longrightarrow> x \<in> set xs \<and> P x"
  by (auto simp: find_Some_iff)

lemma change_first_distinct:
  assumes "distinct (map g xs)" "find (\<lambda>x. g x = k \<and> Q x) xs = Some x"
  shows "set (change_first (\<lambda>x. g x = k \<and> Q x) f xs) = insert (f x) {y \<in> set xs. g y \<noteq> k}"
  using assms by (induction xs) (auto simp: image_iff dest!: find_Some_mem split: if_splits)

lemma change_first_none: "find P xs = None \<Longrightarrow> change_first P f xs = xs"
  by (induction xs) (auto split: if_splits)

lemma settle_item_set: "distinct (map wi_id (ag_items a)) \<Longrightarrow>
    set (ag_items (fst (settle_item now k outcome reason preview a))) = {j \<in> set (ag_items a). wi_id j \<noteq> k}"
  by (auto simp: settle_item_def transaction_def Let_def written_def drop_first_distinct find_None_iff split: option.splits)

lemma defer_item_set: "set (ag_items (fst (defer_item k until reason a))) = (\<lambda>i. if wi_id i = k
    then i\<lparr>wi_due_at := until, wi_state := Wake_pending, wi_deferred_reason := Some reason, wi_started_at := None\<rparr> else i) ` set (ag_items a)"
  by (simp add: defer_item_def transaction_def written_def)

lemma start_item_set:
  assumes "distinct (map wi_id (ag_items a))" "start_item now k a = (b, Inr (Some w))"
  shows "w \<in> set (ag_items b)" "wi_id w = k" "wi_state w = Wake_running" "set (ag_items b) = insert w {j \<in> set (ag_items a). wi_id j \<noteq> k}"
    "\<exists>j \<in> set (ag_items a). wi_id j = k \<and> wi_session_key j = wi_session_key w"
proof -
  let ?P = "\<lambda>i. wi_id i = k \<and> is_pending i" and ?run = "\<lambda>i. i\<lparr>wi_state := Wake_running, wi_started_at := Some now\<rparr>"
  from assms(2) obtain i where i: "find ?P (ag_items a) = Some i" "w = ?run i"
    and b: "ag_items b = change_first ?P ?run (ag_items a)"
    by (auto simp: start_item_def transaction_def Let_def written_def)
  have "i \<in> set (ag_items a)" "wi_id i = k" using i(1) by (auto simp: find_Some_iff)
  with i b change_first_distinct [OF assms(1) i(1), of ?run]
  show "w \<in> set (ag_items b)" "wi_id w = k" "wi_state w = Wake_running" "set (ag_items b) = insert w {j \<in> set (ag_items a). wi_id j \<noteq> k}"
    "\<exists>j \<in> set (ag_items a). wi_id j = k \<and> wi_session_key j = wi_session_key w" by auto
qed

lemma start_item_gone:
  assumes "start_item now k a = (b, Inr None)"
  shows "ag_items b = ag_items a" "j \<in> set (ag_items a) \<Longrightarrow> wi_id j = k \<Longrightarrow> \<not> is_pending j"
  using assms by (auto simp: start_item_def transaction_def Let_def written_def change_first_none find_None_iff)

lemma start_item_answers: "\<exists>x. snd (start_item now k a) = Inr x"
  by (simp add: start_item_def transaction_def Let_def)

lemma settings_kept:
  "ag_settings (fst (settle_item now k outcome reason preview a)) = ag_settings a"
  "ag_settings (fst (defer_item k until reason a)) = ag_settings a" "ag_settings (fst (start_item now k a)) = ag_settings a"
  by (auto simp: settle_item_def defer_item_def start_item_def transaction_def Let_def written_def split: option.splits)

text \<open>What \<open>_consider\<close> may do to a wake-up.\<close>

lemma consider_wake_cases:
  assumes "consider_wake env now i s = (t, started)" and f: "f = facts_of env now i s"
  obtains (dropped) reason where "\<not> started" "sv_running t = sv_running s" "sv_agenda t = fst (settle_item now (wi_id i) ''dropped'' reason '''' (sv_agenda s))"
  | (put_off) reason until where "\<not> started" "sv_running t = sv_running s" "sv_agenda t = fst (defer_item (wi_id i) until reason (sv_agenda s))"
      "decide f = Defer_wake reason until \<or> until = next_day_start now (fa_zone f) (fa_quiet_end f) \<or> until = now + BUSY_RETRY_MS"
  | (gone) "\<not> started" "sv_running t = sv_running s" "start_item now (wi_id i) (sv_agenda s) = (sv_agenda t, Inr None)"
  | (runs) w r where "started" "sv_running t = sv_running s @ [r]" "rw_session r = wi_session_key w" "rw_item r = wi_id w"
      "start_item now (wi_id i) (sv_agenda s) = (sv_agenda t, Inr (Some w))"
proof (cases "decide f")
  case Run_wake
  obtain b tok where r: "reserve (ev_token env (wi_id i)) (ev_profile env) (fa_zone f) (DAILY_CAP_BY_LEVEL (effective_level (fa_level f)))
      GLOBAL_DAILY_CAP now (sv_budget s) = (b, tok)" by force
  show thesis
  proof (cases tok)
    case None
    then have "t = s\<lparr>sv_agenda := fst (defer_item (wi_id i) (next_day_start now (fa_zone f) (fa_quiet_end f)) ''daily_limit'' (sv_agenda s)), sv_budget := b\<rparr>"
      "\<not> started" using assms(1) Run_wake r by (auto simp: consider_wake_def Let_def simp flip: f)
    then show thesis by (intro put_off) auto
  next
    case (Some token)
    obtain a x where st: "start_item now (wi_id i) (sv_agenda s) = (a, x)" by force
    with start_item_answers [of now "wi_id i" "sv_agenda s"] obtain w where w: "x = Inr w" by auto
    show thesis
    proof (cases w)
      case None
      then have "sv_agenda t = a" "sv_running t = sv_running s" "\<not> started"
        using assms(1) Run_wake r Some st w by (auto simp: consider_wake_def Let_def simp flip: f)
      then show thesis using st w None by (intro gone) auto
    next
      case (Some started_item)
      then have "sv_agenda t = a" "sv_running t = sv_running s @ [\<lparr>rw_item = wi_id started_item, rw_session = wi_session_key started_item, rw_token = token\<rparr>]" "started"
        using assms(1) Run_wake r \<open>tok = Some token\<close> st w by (auto simp: consider_wake_def Let_def simp flip: f)
      then show thesis using st w Some by (intro runs [of _ started_item]) auto
    qed
  qed
next
  case (Defer_wake reason until)
  then have "t = s\<lparr>sv_agenda := fst (defer_item (wi_id i) (if until = 0 then now + BUSY_RETRY_MS else until) reason (sv_agenda s))\<rparr>" "\<not> started"
    using assms(1) by (auto simp: consider_wake_def Let_def simp flip: f)
  then show thesis using Defer_wake by (intro put_off) auto
next
  case (Drop_wake reason)
  then have "t = s\<lparr>sv_agenda := fst (settle_item now (wi_id i) ''dropped'' reason '''' (sv_agenda s))\<rparr>" "\<not> started"
    using assms(1) by (auto simp: consider_wake_def Let_def simp flip: f)
  then show thesis by (intro dropped) auto
qed

text \<open>No wake-up but the one considered changes, and that one is not due any more or waits for a time of the local clock.\<close>

definition moves_on :: "zone \<Rightarrow> int \<Rightarrow> string \<Rightarrow> agenda \<Rightarrow> agenda \<Rightarrow> bool" where
  "moves_on z now k a b \<longleftrightarrow> ag_settings b = ag_settings a
     \<and> (\<forall>j \<in> set (ag_items b). (if wi_id j = k then is_due now j \<longrightarrow> clock_ahead z now (wi_due_at j) else j \<in> set (ag_items a))
        \<and> (\<exists>j' \<in> set (ag_items a). wi_id j' = wi_id j \<and> wi_session_key j' = wi_session_key j))"

lemma settle_moves_on: "distinct (map wi_id (ag_items a)) \<Longrightarrow> moves_on z now k a (fst (settle_item now k outcome reason preview a))"
  by (auto simp: moves_on_def settings_kept settle_item_set)

lemma defer_moves_on: "now < until \<or> clock_ahead z now until \<Longrightarrow> moves_on z now k a (fst (defer_item k until reason a))"
  by (auto simp: moves_on_def settings_kept defer_item_set)

lemma start_moves_on:
  assumes "distinct (map wi_id (ag_items a))" "start_item now k a = (b, Inr w)"
  shows "moves_on z now k a b"
proof (cases w)
  case None
  with start_item_gone [of now k a b] settings_kept(3) [of now k a] assms(2) show ?thesis by (auto simp: moves_on_def)
next
  case (Some v)
  with start_item_set [OF assms(1), of now k b v] settings_kept(3) [of now k a] assms(2) show ?thesis
    by (auto simp: moves_on_def is_pending_def)
qed

lemma facts_of_fields [simp]:
  "fa_zone (facts_of env now i s) = ev_zone env (as_timezone (ag_settings (sv_agenda s)))" "fa_now_ms (facts_of env now i s) = now"
  by (simp_all add: facts_of_def Let_def split_beta)

lemma consider_wake_effect:
  assumes z: "z = ev_zone env (as_timezone (ag_settings (sv_agenda s)))" and ok: "agenda_ok scan (sv_agenda s)"
    and c: "consider_wake env now i s = (t, started)"
  shows "agenda_ok scan (sv_agenda t)" "moves_on z now (wi_id i) (sv_agenda s) (sv_agenda t)" "set (sv_running s) \<subseteq> set (sv_running t)"
    "started \<Longrightarrow> \<exists>j \<in> set (ag_items (sv_agenda s)). wi_id j = wi_id i \<and> wi_session_key j \<in> rw_session ` set (sv_running t)"
proof -
  have d: "distinct (map wi_id (ag_items (sv_agenda s)))" using ok by (simp add: agenda_ok_def items_ok_def)
  have start: "agenda_ok scan b" if "start_item now k (sv_agenda s) = (b, x)" for k b x
    using start_item_ok [OF ok, of now k] that by simp
  have "agenda_ok scan (sv_agenda t) \<and> moves_on z now (wi_id i) (sv_agenda s) (sv_agenda t) \<and> set (sv_running s) \<subseteq> set (sv_running t)
    \<and> (started \<longrightarrow> (\<exists>j \<in> set (ag_items (sv_agenda s)). wi_id j = wi_id i \<and> wi_session_key j \<in> rw_session ` set (sv_running t)))"
    using c refl
  proof (cases rule: consider_wake_cases)
    case (dropped reason)
    then show ?thesis by (simp add: settle_item_ok [OF ok] settle_moves_on [OF d])
  next
    case (put_off reason until)
    have "now < until \<or> clock_ahead z now until"
      using put_off(4) deferred_ahead [of "facts_of env now i s" reason until] next_day_ahead [of z now] z
      by (auto simp: BUSY_RETRY_MS_def)
    then show ?thesis using put_off by (simp add: defer_item_ok [OF ok] defer_moves_on)
  next
    case gone
    then show ?thesis using start start_moves_on [OF d] by auto
  next
    case (runs w r)
    have "\<exists>j \<in> set (ag_items (sv_agenda s)). wi_id j = wi_id i \<and> wi_session_key j \<in> rw_session ` set (sv_running t)"
      using start_item_set(5) [OF d runs(5)] runs(2,3) by force
    then show ?thesis using start [OF runs(5)] start_moves_on [OF d runs(5)] runs(2) by auto
  qed
  then show "agenda_ok scan (sv_agenda t)" "moves_on z now (wi_id i) (sv_agenda s) (sv_agenda t)" "set (sv_running s) \<subseteq> set (sv_running t)"
    "started \<Longrightarrow> \<exists>j \<in> set (ag_items (sv_agenda s)). wi_id j = wi_id i \<and> wi_session_key j \<in> rw_session ` set (sv_running t)" by auto
qed

section \<open>A pass over the due wake-ups\<close>

definition occupied :: "service \<Rightarrow> wake_item \<Rightarrow> bool" where
  "occupied s j \<longleftrightarrow> wi_session_key j \<in> rw_session ` set (sv_running s) \<or> wi_id j \<in> rw_item ` set (sv_running s)"

lemma occupied_mono: "set (sv_running s) \<subseteq> set (sv_running t) \<Longrightarrow> occupied s j \<Longrightarrow> occupied t j"
  by (auto simp: occupied_def)

text \<open>The wake-ups of the list are those of the agenda.\<close>

definition same_sessions :: "wake_item list \<Rightarrow> agenda \<Rightarrow> bool" where
  "same_sessions is a \<longleftrightarrow> (\<forall>i \<in> set is. \<forall>j \<in> set (ag_items a). wi_id j = wi_id i \<longrightarrow> wi_session_key j = wi_session_key i)"

lemma same_sessions_moves: "same_sessions is a \<Longrightarrow> moves_on z now k a b \<Longrightarrow> same_sessions is b"
  by (fastforce simp: same_sessions_def moves_on_def)

lemma consider_all_serves:
  assumes "z = ev_zone env (as_timezone (ag_settings (sv_agenda s)))" "agenda_ok scan (sv_agenda s)"
    "busy \<subseteq> rw_session ` set (sv_running s)" "same_sessions is (sv_agenda s)" "t = consider_all env now busy is s"
    "length (sv_running t) < MAX_CONCURRENT_WAKES"
  shows "set (sv_running s) \<subseteq> set (sv_running t)
    \<and> (\<forall>j \<in> set (ag_items (sv_agenda t)). is_due now j \<longrightarrow> occupied t j \<or> clock_ahead z now (wi_due_at j) \<or> wi_id j \<notin> wi_id ` set is \<and> j \<in> set (ag_items (sv_agenda s)))"
  using assms
proof (induction "is" arbitrary: busy s)
  case (Cons i "is")
  have room: "length (sv_running s) < MAX_CONCURRENT_WAKES"
  proof (rule ccontr)
    assume "\<not> ?thesis"
    then have "t = s" using Cons.prems(5) by simp
    with Cons.prems(6) \<open>\<not> ?thesis\<close> show False by simp
  qed
  have rest: "same_sessions is (sv_agenda s)" using Cons.prems(4) by (simp add: same_sessions_def)
  show ?case
  proof (cases "wi_session_key i \<in> busy \<or> wi_id i \<in> rw_item ` set (sv_running s)")
    case True
    then have t: "t = consider_all env now busy is s" using Cons.prems(5) room by simp
    note ih = Cons.IH [OF Cons.prems(1-3) rest t Cons.prems(6)]
    have "occupied t j" if "j \<in> set (ag_items (sv_agenda s))" "wi_id j = wi_id i" for j
    proof -
      have "wi_session_key j = wi_session_key i" using Cons.prems(4) that by (simp add: same_sessions_def)
      then have "occupied s j" using True Cons.prems(3) that(2) by (auto simp: occupied_def)
      with ih show ?thesis by (auto intro: occupied_mono)
    qed
    with ih show ?thesis by auto
  next
    case False
    obtain u b where c: "consider_wake env now i s = (u, b)" by force
    note e = consider_wake_effect [OF Cons.prems(1,2) c]
    define busy' where "busy' = (if b then insert (wi_session_key i) busy else busy)"
    have t: "t = consider_all env now busy' is u" using Cons.prems(5) room False c by (auto simp: busy'_def split: bool.splits)
    have "wi_session_key i \<in> rw_session ` set (sv_running u)" if b
    proof -
      from e(4) [OF that] obtain j where j: "j \<in> set (ag_items (sv_agenda s))" "wi_id j = wi_id i" "wi_session_key j \<in> rw_session ` set (sv_running u)"
        by auto
      with Cons.prems(4) show ?thesis by (simp add: same_sessions_def)
    qed
    then have busy': "busy' \<subseteq> rw_session ` set (sv_running u)" using Cons.prems(3) e(3) by (auto simp: busy'_def)
    have fz: "z = ev_zone env (as_timezone (ag_settings (sv_agenda u)))" using Cons.prems(1) e(2) by (simp add: moves_on_def)
    note ih = Cons.IH [OF fz e(1) busy' same_sessions_moves [OF rest e(2)] t Cons.prems(6)]
    have "occupied t j \<or> clock_ahead z now (wi_due_at j) \<or> wi_id j \<notin> wi_id ` set (i # is) \<and> j \<in> set (ag_items (sv_agenda s))"
      if "j \<in> set (ag_items (sv_agenda t))" "is_due now j" for j
      using ih that e(2) by (auto simp: moves_on_def split: if_splits)
    with ih e(3) show ?thesis by auto
  qed
qed auto

end
