(* ===== verification/Objective_Store.thy ===== *)
theory Objective_Store
  imports Objective_Text
begin

text \<open>
  The goals an agent tracks for its owner (\<open>objectives/store.py\<close>): one file of records, each written by a
  transaction that raises the revision and drops the oldest closed goals beyond the cap.
\<close>

section \<open>Vocabularies and limits\<close>

definition CATEGORIES :: "string list" where
  "CATEGORIES = [''health'', ''relationships'', ''finance'', ''career'', ''learning'', ''interests'', ''productivity'', ''other'']"
definition STATUSES :: "string list" where "STATUSES = [''active'', ''paused'', ''done'', ''dropped'']"
definition OPEN_STATUSES :: "string list" where "OPEN_STATUSES = [''active'', ''paused'']"
definition LOG_KINDS :: "string list" where "LOG_KINDS = [''note'', ''checkin'', ''plan'', ''status'', ''owner'']"
definition LOG_EVENTS :: "string list" where
  "LOG_EVENTS = [''step_done'', ''step_undone'', ''renamed'', ''active'', ''paused'', ''done'', ''dropped'']"

definition MAX_ACTIVE_OBJECTIVES :: nat where "MAX_ACTIVE_OBJECTIVES = 20"
definition MAX_STORED_OBJECTIVES :: nat where "MAX_STORED_OBJECTIVES = 200"
definition MAX_TITLE :: nat where "MAX_TITLE = 120"
definition MAX_WHY :: nat where "MAX_WHY = 1000"
definition MAX_STEP :: nat where "MAX_STEP = 300"
definition MAX_STEPS :: nat where "MAX_STEPS = 20"
definition MAX_STAGE :: nat where "MAX_STAGE = 200"
definition MAX_CADENCE :: nat where "MAX_CADENCE = 120"
definition MAX_UNIT :: nat where "MAX_UNIT = 24"
definition MAX_LOG_TEXT :: nat where "MAX_LOG_TEXT = 500"
definition MAX_LOG_ENTRIES :: nat where "MAX_LOG_ENTRIES = 50"

section \<open>Records\<close>

record goal_step =
  gs_text :: string
  gs_done :: bool

record goal_progress =
  pr_current :: "real option"
  pr_target :: "real option"
  pr_unit :: string

record log_entry =
  le_at :: int
  le_kind :: string
  le_text :: string
  le_event :: "string option"

record objective =
  o_id :: string
  o_title :: string
  o_category :: string
  o_why :: string
  o_plan :: "goal_step list"
  o_stage :: string
  o_cadence :: string
  o_progress :: goal_progress
  o_status :: string
  o_endsAt :: "int option"
  o_sessionKey :: string
  o_createdBy :: string
  o_createdAt :: int
  o_updatedAt :: int
  o_closedAt :: "int option"
  o_log :: "log_entry list"

record objective_file =
  of_revision :: int
  of_objectives :: "objective list"

definition no_objectives :: objective_file where
  "no_objectives = \<lparr>of_revision = 0, of_objectives = []\<rparr>"

definition is_open :: "objective \<Rightarrow> bool" where
  "is_open g \<longleftrightarrow> o_status g \<in> set OPEN_STATUSES"

section \<open>Values of a request\<close>

datatype 'a list_arg = No_list | Not_a_list | Items "'a list"

datatype step_arg = Step_text string | Step_fields pyval pyval | Step_other

definition clean_category :: "string \<Rightarrow> agenda_error + string" where
  "clean_category v =
     (let c = str_lower (strip (if v = '''' then ''other'' else v)) in
      if c \<in> set CATEGORIES then Inr c else invalid (''category must be one of '' @ join '', '' CATEGORIES))"

definition clean_step :: "(string \<Rightarrow> string option) \<Rightarrow> step_arg \<Rightarrow> agenda_error + goal_step" where
  "clean_step scan a =
     (case a of
        Step_text t \<Rightarrow> on_ok (clean_string scan MAX_STEP ''plan step'' True False t) (\<lambda>x. Inr \<lparr>gs_text = x, gs_done = False\<rparr>)
      | Step_fields t d \<Rightarrow>
          (case d of
             PBool b \<Rightarrow> on_ok (clean_text_field scan MAX_STEP ''plan step'' True False t) (\<lambda>x. Inr \<lparr>gs_text = x, gs_done = b\<rparr>)
           | _ \<Rightarrow> invalid ''a step's done flag must be true or false'')
      | Step_other \<Rightarrow> invalid ''each plan step must be text'')"

fun clean_steps :: "(string \<Rightarrow> string option) \<Rightarrow> step_arg list \<Rightarrow> agenda_error + goal_step list" where
  "clean_steps scan [] = Inr []"
| "clean_steps scan (a # as) = on_ok (clean_step scan a) (\<lambda>s. on_ok (clean_steps scan as) (\<lambda>ss. Inr (s # ss)))"

definition clean_plan :: "(string \<Rightarrow> string option) \<Rightarrow> step_arg list_arg \<Rightarrow> agenda_error + goal_step list" where
  "clean_plan scan v =
     (case v of
        No_list \<Rightarrow> Inr []
      | Not_a_list \<Rightarrow> invalid ''plan must be a list of steps''
      | Items as \<Rightarrow> if MAX_STEPS < length as then invalid (''plan exceeds '' @ show_nat MAX_STEPS @ '' steps'') else clean_steps scan as)"

section \<open>Transactions\<close>

text \<open>\<open>closedAt or updatedAt or 0\<close>.\<close>

definition closed_time :: "objective \<Rightarrow> int" where
  "closed_time g = (case o_closedAt g of None \<Rightarrow> o_updatedAt g | Some t \<Rightarrow> if t = 0 then o_updatedAt g else t)"

text \<open>The positions of the closed goals that go: the oldest, as many as there are goals beyond the cap.\<close>

definition excess :: "objective list \<Rightarrow> nat list" where
  "excess gs = take (length gs - MAX_STORED_OBJECTIVES)
     (sort_key (\<lambda>i. closed_time (gs ! i)) (filter (\<lambda>i. \<not> is_open (gs ! i)) [0..<length gs]))"

definition prune :: "objective list \<Rightarrow> objective list" where
  "prune gs = (if length gs \<le> MAX_STORED_OBJECTIVES then gs else nths gs (- set (excess gs)))"

definition goal_transaction ::
    "(objective list \<Rightarrow> agenda_error + (objective list \<times> 'x)) \<Rightarrow> objective_file \<Rightarrow> objective_file \<times> (agenda_error + 'x)" where
  "goal_transaction f d =
     (case f (of_objectives d) of
        Inl e \<Rightarrow> (d, Inl e)
      | Inr (gs, x) \<Rightarrow> (\<lparr>of_revision = of_revision d + 1, of_objectives = prune gs\<rparr>, Inr x))"

definition find_goal :: "string \<Rightarrow> objective list \<Rightarrow> objective option" where
  "find_goal k gs = find (\<lambda>g. o_id g = k) gs"

text \<open>\<open>_require\<close>, a change of the record in place, and its copy as the result.\<close>

fun change_goal :: "string \<Rightarrow> (objective \<Rightarrow> agenda_error + objective) \<Rightarrow> objective list \<Rightarrow> agenda_error + (objective list \<times> objective)" where
  "change_goal k f [] = Inl (Objective_error ''NOT_FOUND'' ''No such goal'')"
| "change_goal k f (g # gs) =
     (if o_id g = k then on_ok (f g) (\<lambda>h. Inr (h # gs, h))
      else on_ok (change_goal k f gs) (\<lambda>(hs, h). Inr (g # hs, h)))"

definition append_log :: "int \<Rightarrow> string \<Rightarrow> string \<Rightarrow> string option \<Rightarrow> objective \<Rightarrow> objective" where
  "append_log now kind t event g =
     (let entry = \<lparr>le_at = now, le_kind = kind, le_text = t,
        le_event = (case event of None \<Rightarrow> None | Some e \<Rightarrow> if e \<in> set LOG_EVENTS then Some e else None)\<rparr>
      in g\<lparr>o_log := last_n MAX_LOG_ENTRIES (o_log g @ [entry]), o_updatedAt := now\<rparr>)"

section \<open>Reads\<close>

definition list_goals :: "bool \<Rightarrow> objective_file \<Rightarrow> objective list" where
  "list_goals include_closed d =
     (let rows = filter (\<lambda>g. include_closed \<or> is_open g) (of_objectives d);
          newest = sort_key (\<lambda>g. - o_updatedAt g) rows
      in filter is_open newest @ filter (\<lambda>g. \<not> is_open g) newest)"

definition get_goal :: "string \<Rightarrow> objective_file \<Rightarrow> objective option" where
  "get_goal k d = find_goal k (of_objectives d)"

section \<open>Creating a goal\<close>

record goal_request =
  rq_title :: pyval
  rq_category :: string
  rq_why :: pyval
  rq_plan :: "step_arg list_arg"
  rq_stage :: pyval
  rq_cadence :: pyval
  rq_target :: pyval
  rq_current :: pyval
  rq_unit :: pyval
  rq_ends_at :: pyval
  rq_session_key :: string
  rq_created_by :: string

definition new_goal :: "(string \<Rightarrow> string option) \<Rightarrow> int \<Rightarrow> string \<Rightarrow> goal_request \<Rightarrow> agenda_error + objective" where
  "new_goal scan now hex q =
     on_ok (clean_number ''target'' (rq_target q)) (\<lambda>target.
     on_ok (clean_number ''current'' (rq_current q)) (\<lambda>current.
     on_ok (clean_text_field scan MAX_TITLE ''title'' True False (rq_title q)) (\<lambda>title.
     on_ok (clean_category (rq_category q)) (\<lambda>category.
     on_ok (clean_text_field scan MAX_WHY ''why'' False True (rq_why q)) (\<lambda>why.
     on_ok (clean_plan scan (rq_plan q)) (\<lambda>plan.
     on_ok (clean_text_field scan MAX_STAGE ''stage'' False False (rq_stage q)) (\<lambda>stage.
     on_ok (clean_text_field scan MAX_CADENCE ''cadence'' False False (rq_cadence q)) (\<lambda>cadence.
     on_ok (clean_text_field scan MAX_UNIT ''unit'' False False (rq_unit q)) (\<lambda>unit.
     on_ok (clean_time ''endsAt'' (rq_ends_at q)) (\<lambda>ends_at.
     on_ok (clean_session_key (rq_session_key q)) (\<lambda>key.
       Inr \<lparr>o_id = ''obj_'' @ hex, o_title = title, o_category = category, o_why = why, o_plan = plan, o_stage = stage,
         o_cadence = cadence,
         o_progress = \<lparr>pr_current = (if current = None \<and> target \<noteq> None then Some 0 else current), pr_target = target, pr_unit = unit\<rparr>,
         o_status = ''active'', o_endsAt = ends_at, o_sessionKey = key,
         o_createdBy = (if rq_created_by q = ''owner'' then ''owner'' else ''agent''),
         o_createdAt = now, o_updatedAt = now, o_closedAt = None, o_log = []\<rparr>)))))))))))"

definition open_count :: "objective list \<Rightarrow> nat" where
  "open_count gs = length (filter is_open gs)"

definition create_goal :: "(string \<Rightarrow> string option) \<Rightarrow> int \<Rightarrow> string \<Rightarrow> goal_request \<Rightarrow> objective_file \<Rightarrow> objective_file \<times> (agenda_error + objective)" where
  "create_goal scan now hex q d =
     (case new_goal scan now hex q of
        Inl e \<Rightarrow> (d, Inl e)
      | Inr g \<Rightarrow> goal_transaction (\<lambda>gs.
          if MAX_ACTIVE_OBJECTIVES \<le> open_count gs
          then Inl (Objective_error ''LIMIT'' (''Already tracking '' @ show_nat MAX_ACTIVE_OBJECTIVES @ '' goals. Close one first.''))
          else Inr (gs @ [g], g)) d)"

section \<open>Changing a goal\<close>

record goal_changes =
  gc_title :: "pyval option"
  gc_category :: "string option"
  gc_why :: "pyval option"
  gc_plan :: "step_arg list_arg option"
  gc_stage :: "pyval option"
  gc_cadence :: "pyval option"
  gc_ends_at :: "pyval option"
  gc_session_key :: "string option"
  gc_current :: "pyval option"
  gc_target :: "pyval option"
  gc_unit :: "pyval option"
  gc_done_steps :: "pyval list_arg"

definition no_changes :: goal_changes where
  "no_changes = \<lparr>gc_title = None, gc_category = None, gc_why = None, gc_plan = None, gc_stage = None, gc_cadence = None,
     gc_ends_at = None, gc_session_key = None, gc_current = None, gc_target = None, gc_unit = None, gc_done_steps = No_list\<rparr>"

text \<open>A field that was given is cleaned; one left out stays out.\<close>

definition given :: "('a \<Rightarrow> agenda_error + 'b) \<Rightarrow> 'a option \<Rightarrow> agenda_error + 'b option" where
  "given f v = (case v of None \<Rightarrow> Inr None | Some x \<Rightarrow> on_ok (f x) (\<lambda>y. Inr (Some y)))"

definition set_or_keep :: "'a option \<Rightarrow> 'a \<Rightarrow> 'a" where
  "set_or_keep v old = (case v of None \<Rightarrow> old | Some x \<Rightarrow> x)"

record cleaned_changes =
  cc_title :: "string option"
  cc_category :: "string option"
  cc_why :: "string option"
  cc_plan :: "goal_step list option"
  cc_stage :: "string option"
  cc_cadence :: "string option"
  cc_ends_at :: "int option option"
  cc_session_key :: "string option"
  cc_current :: "real option option"
  cc_target :: "real option option"
  cc_unit :: "string option"
  cc_done_steps :: "int list"

definition clean_done_steps :: "pyval list_arg \<Rightarrow> agenda_error + int list" where
  "clean_done_steps v =
     (case v of
        No_list \<Rightarrow> Inr []
      | Not_a_list \<Rightarrow> invalid ''doneSteps must be a list of step numbers''
      | Items vs \<Rightarrow> if list_all plain_int vs then Inr (map the_int_of vs) else invalid ''doneSteps must be a list of step numbers'')"

definition clean_changes :: "(string \<Rightarrow> string option) \<Rightarrow> goal_changes \<Rightarrow> agenda_error + cleaned_changes" where
  "clean_changes scan c =
     on_ok (given (clean_text_field scan MAX_TITLE ''title'' True False) (gc_title c)) (\<lambda>title.
     on_ok (given clean_category (gc_category c)) (\<lambda>category.
     on_ok (given (clean_text_field scan MAX_WHY ''why'' False True) (gc_why c)) (\<lambda>why.
     on_ok (given (clean_plan scan) (gc_plan c)) (\<lambda>plan.
     on_ok (given (clean_text_field scan MAX_STAGE ''stage'' False False) (gc_stage c)) (\<lambda>stage.
     on_ok (given (clean_text_field scan MAX_CADENCE ''cadence'' False False) (gc_cadence c)) (\<lambda>cadence.
     on_ok (given (clean_time ''endsAt'') (gc_ends_at c)) (\<lambda>ends_at.
     on_ok (given clean_session_key (gc_session_key c)) (\<lambda>key.
     on_ok (given (clean_number ''current'') (gc_current c)) (\<lambda>current.
     on_ok (given (clean_number ''target'') (gc_target c)) (\<lambda>target.
     on_ok (given (clean_text_field scan MAX_UNIT ''unit'' False False) (gc_unit c)) (\<lambda>unit.
     on_ok (clean_done_steps (gc_done_steps c)) (\<lambda>done_steps.
       if title = None \<and> category = None \<and> why = None \<and> plan = None \<and> stage = None \<and> cadence = None \<and> ends_at = None \<and> key = None
          \<and> current = None \<and> target = None \<and> unit = None \<and> done_steps = []
       then invalid ''Nothing to change''
       else Inr \<lparr>cc_title = title, cc_category = category, cc_why = why, cc_plan = plan, cc_stage = stage, cc_cadence = cadence,
         cc_ends_at = ends_at, cc_session_key = key, cc_current = current, cc_target = target, cc_unit = unit,
         cc_done_steps = done_steps\<rparr>))))))))))))"

fun tick_steps :: "int list \<Rightarrow> goal_step list \<Rightarrow> agenda_error + goal_step list" where
  "tick_steps [] plan = Inr plan"
| "tick_steps (n # ns) plan =
     (if n < 1 \<or> int (length plan) < n then invalid (''There is no step '' @ show_int n)
      else tick_steps ns (plan[nat n - 1 := (plan ! (nat n - 1))\<lparr>gs_done := True\<rparr>]))"

definition apply_changes :: "int \<Rightarrow> cleaned_changes \<Rightarrow> objective \<Rightarrow> agenda_error + objective" where
  "apply_changes now c g =
     (let p = o_progress g;
          h = g\<lparr>o_title := set_or_keep (cc_title c) (o_title g), o_category := set_or_keep (cc_category c) (o_category g),
            o_why := set_or_keep (cc_why c) (o_why g), o_plan := set_or_keep (cc_plan c) (o_plan g),
            o_stage := set_or_keep (cc_stage c) (o_stage g), o_cadence := set_or_keep (cc_cadence c) (o_cadence g),
            o_endsAt := set_or_keep (cc_ends_at c) (o_endsAt g), o_sessionKey := set_or_keep (cc_session_key c) (o_sessionKey g),
            o_progress := \<lparr>pr_current = set_or_keep (cc_current c) (pr_current p), pr_target = set_or_keep (cc_target c) (pr_target p),
              pr_unit = set_or_keep (cc_unit c) (pr_unit p)\<rparr>\<rparr>
      in on_ok (tick_steps (cc_done_steps c) (o_plan h)) (\<lambda>plan. Inr (h\<lparr>o_plan := plan, o_updatedAt := now\<rparr>)))"

definition update_goal :: "(string \<Rightarrow> string option) \<Rightarrow> int \<Rightarrow> string \<Rightarrow> goal_changes \<Rightarrow> objective_file \<Rightarrow> objective_file \<times> (agenda_error + objective)" where
  "update_goal scan now k c d =
     (case clean_changes scan c of
        Inl e \<Rightarrow> (d, Inl e)
      | Inr cc \<Rightarrow> goal_transaction (change_goal k (apply_changes now cc)) d)"

definition log_goal :: "(string \<Rightarrow> string option) \<Rightarrow> int \<Rightarrow> string \<Rightarrow> pyval \<Rightarrow> string \<Rightarrow> string option \<Rightarrow> objective_file \<Rightarrow> objective_file \<times> (agenda_error + objective)" where
  "log_goal scan now k t kind event d =
     (case clean_text_field scan MAX_LOG_TEXT ''note'' True True t of
        Inl e \<Rightarrow> (d, Inl e)
      | Inr x \<Rightarrow> goal_transaction (change_goal k (\<lambda>g.
          Inr (append_log now (if kind \<in> set LOG_KINDS then kind else ''note'') x event g))) d)"

definition set_step :: "int \<Rightarrow> string \<Rightarrow> pyval \<Rightarrow> pyval \<Rightarrow> bool \<Rightarrow> objective_file \<Rightarrow> objective_file \<times> (agenda_error + objective)" where
  "set_step now k number done_flag by_owner d =
     (case number of
        PInt n \<Rightarrow>
          (case done_flag of
             PBool b \<Rightarrow> goal_transaction (change_goal k (\<lambda>g.
               if n < 1 \<or> int (length (o_plan g)) < n then invalid (''There is no step '' @ show_int n)
               else let step = o_plan g ! (nat n - 1) in
                 if gs_done step = b then Inr g
                 else Inr (append_log now (if by_owner then ''owner'' else ''plan'') (gs_text step) (Some (if b then ''step_done'' else ''step_undone''))
                   (g\<lparr>o_plan := (o_plan g)[nat n - 1 := step\<lparr>gs_done := b\<rparr>]\<rparr>)))) d
           | _ \<Rightarrow> (d, invalid ''done must be true or false''))
      | _ \<Rightarrow> (d, invalid ''step must be a step number''))"

definition set_goal_status ::
    "(string \<Rightarrow> string option) \<Rightarrow> int \<Rightarrow> string \<Rightarrow> string \<Rightarrow> pyval \<Rightarrow> bool \<Rightarrow> objective_file \<Rightarrow> objective_file \<times> (agenda_error + objective)" where
  "set_goal_status scan now k status note by_owner d =
     (if status \<notin> set STATUSES then (d, invalid (''status must be one of '' @ join '', '' STATUSES))
      else case clean_text_field scan MAX_LOG_TEXT ''note'' False True note of
        Inl e \<Rightarrow> (d, Inl e)
      | Inr t \<Rightarrow> goal_transaction (\<lambda>gs. change_goal k (\<lambda>g.
          if status \<in> set OPEN_STATUSES \<and> \<not> is_open g \<and> MAX_ACTIVE_OBJECTIVES \<le> open_count gs
          then Inl (Objective_error ''LIMIT'' (''Already tracking '' @ show_nat MAX_ACTIVE_OBJECTIVES @ '' goals.''))
          else Inr (append_log now (if by_owner then ''owner'' else ''status'') (if t = '''' then status else t) (Some status)
            (g\<lparr>o_status := status, o_closedAt := (if status \<in> set OPEN_STATUSES then None else Some now)\<rparr>))) gs) d)"

definition delete_goal :: "string \<Rightarrow> objective_file \<Rightarrow> objective_file \<times> (agenda_error + bool)" where
  "delete_goal k = goal_transaction (\<lambda>gs.
     let rest = filter (\<lambda>g. o_id g \<noteq> k) gs in Inr (rest, length rest \<noteq> length gs))"

end
