(* ===== verification/Agenda_When.thy ===== *)
theory Agenda_When
  imports Agenda_Policy
begin

text \<open>
  When the agent asked to be woken (\<open>agenda/timeparse.py\<close>): relative times, times of day, days and ISO
  texts, read in the owner's zone. A moment with a date is given by its day number and its zone;
  \<open>datetime.fromisoformat\<close> is a parameter that returns an instant, or local time of a text without an offset.
\<close>

section \<open>Reading a text\<close>

definition MIN_LEAD_MS :: int where "MIN_LEAD_MS = 60000"
definition MAX_LEAD_MS :: int where "MAX_LEAD_MS = 90 * 24 * 60 * 60 * 1000"

datatype when_error = When_error string | Not_finite

definition unit_ms :: "char \<Rightarrow> int option" where
  "unit_ms c = (if c = CHR ''m'' then Some 60000 else if c = CHR ''h'' then Some 3600000
     else if c = CHR ''d'' then Some 86400000 else if c = CHR ''w'' then Some 604800000 else None)"

text \<open>The regular expressions \<open>_RELATIVE\<close> and \<open>_CLOCK\<close>, and the numbers of their groups.\<close>

definition relative :: "string \<Rightarrow> int option" where
  "relative t =
     (case t of
        [] \<Rightarrow> None
      | c # r \<Rightarrow>
          let s = dropWhile py_space r; ds = takeWhile is_digit s; u = dropWhile py_space (dropWhile is_digit s)
          in if c = CHR ''+'' \<and> 1 \<le> length ds \<and> length ds \<le> 4 \<and> length u = 1
             then (case (digits_value 0 ds, unit_ms (hd u)) of (Some n, Some ms) \<Rightarrow> Some (int n * ms) | _ \<Rightarrow> None)
             else None)"

definition clock_match :: "string \<Rightarrow> (int \<times> int) option" where
  "clock_match t =
     (let h = takeWhile is_digit t; r = dropWhile is_digit t; m = tl r
      in if 1 \<le> length h \<and> length h \<le> 2 \<and> r \<noteq> [] \<and> hd r = CHR '':'' \<and> length m = 2 \<and> list_all is_digit m
         then (case (digits_value 0 h, digits_value 0 m) of (Some a, Some b) \<Rightarrow> Some (int a, int b) | _ \<Rightarrow> None)
         else None)"

definition time_of_day :: "string \<Rightarrow> when_error + (int \<times> int)" where
  "time_of_day t =
     (let bad = Inl (When_error (''Unreadable time of day: '' @ py_repr t @ '' (use HH:MM)''))
      in case clock_match (strip t) of
           None \<Rightarrow> bad
         | Some (hour, minute) \<Rightarrow> if 23 < hour \<or> 59 < minute then bad else Inr (hour, minute))"

section \<open>ISO texts\<close>

definition leap_year :: "nat \<Rightarrow> bool" where
  "leap_year y \<longleftrightarrow> y mod 4 = 0 \<and> (y mod 100 \<noteq> 0 \<or> y mod 400 = 0)"

definition month_days :: "nat \<Rightarrow> nat \<Rightarrow> nat" where
  "month_days y m = (if m = 2 then (if leap_year y then 29 else 28) else if m \<in> {4, 6, 9, 11} then 30 else 31)"

text \<open>The days since 1970-01-01 of a date of the calendar.\<close>

definition day_number :: "nat \<Rightarrow> nat \<Rightarrow> nat \<Rightarrow> int" where
  "day_number y m d =
     (let p = int y - 1; before = p * 365 + p div 4 - p div 100 + p div 400
      in before + int (sum_list (map (month_days y) [1..<m])) + int d - 1 - 719162)"

definition date_only :: "string \<Rightarrow> bool" where
  "date_only t \<longleftrightarrow> length t = 10 \<and> t ! 4 = CHR ''-'' \<and> t ! 7 = CHR ''-'' \<and> list_all (\<lambda>i. i \<in> {4, 7} \<or> is_digit (t ! i)) [0..<10]"

definition number_at :: "nat \<Rightarrow> nat \<Rightarrow> string \<Rightarrow> nat" where
  "number_at i n t = (case digits_value 0 (take n (drop i t)) of None \<Rightarrow> 0 | Some v \<Rightarrow> v)"

definition date_of :: "string \<Rightarrow> int option" where
  "date_of t =
     (let y = number_at 0 4 t; m = number_at 5 2 t; d = number_at 8 2 t
      in if 1 \<le> y \<and> 1 \<le> m \<and> m \<le> 12 \<and> 1 \<le> d \<and> d \<le> month_days y m then Some (day_number y m d) else None)"

datatype iso_time = Instant int | Local_time int int int

text \<open>A local time has its milliseconds after the minute.\<close>

definition zulu :: "string \<Rightarrow> string" where
  "zulu t = concat (map (\<lambda>c. if c = CHR ''Z'' then ''+00:00'' else [c]) t)"

definition iso_when :: "(string \<Rightarrow> (iso_time \<times> int) option) \<Rightarrow> zone \<Rightarrow> string \<Rightarrow> when_error + int" where
  "iso_when fromisoformat z t =
     (let parsed = (if date_only t then map_option (\<lambda>d. (Local_time d 9 0, 0)) (date_of t) else fromisoformat (zulu t))
      in case parsed of
           None \<Rightarrow> Inl (When_error (''Unreadable time: '' @ py_repr t @ ''. Use '+2h', 'tomorrow 09:00', '20:00' or an ISO date.''))
         | Some (Instant ms, _) \<Rightarrow> Inr ms
         | Some (Local_time d h m, rest) \<Rightarrow> Inr (zn_at z d h m + rest))"

section \<open>The time of a wake-up\<close>

definition truncated :: "real \<Rightarrow> int" where
  "truncated x = (if 0 \<le> x then \<lfloor>x\<rfloor> else \<lceil>x\<rceil>)"

definition text_when :: "(string \<Rightarrow> (iso_time \<times> int) option) \<Rightarrow> int \<Rightarrow> zone \<Rightarrow> string \<Rightarrow> when_error + int" where
  "text_when fromisoformat now z v =
     (let t = str_lower (strip v); today = zn_day z now in
      case relative t of
        Some ms \<Rightarrow> Inr (now + ms)
      | None \<Rightarrow>
          if is_prefix ''tomorrow'' t then
            (let rest = strip (drop (length ''tomorrow'') t) in
             on_ok (if rest = '''' then Inr (9, 0) else time_of_day rest) (\<lambda>(h, m). Inr (zn_at z (today + 1) h m)))
          else if is_prefix ''today'' t then
            on_ok (time_of_day (strip (drop (length ''today'') t))) (\<lambda>(h, m). Inr (zn_at z today h m))
          else if clock_match t \<noteq> None then
            on_ok (time_of_day t) (\<lambda>(h, m). Inr (if h * 60 + m \<le> zn_minute z now then zn_at z (today + 1) h m else zn_at z today h m))
          else iso_when fromisoformat z (strip v))"

definition parse_when :: "(string \<Rightarrow> (iso_time \<times> int) option) \<Rightarrow> int \<Rightarrow> zone \<Rightarrow> pyval \<Rightarrow> when_error + int" where
  "parse_when fromisoformat now z v =
     on_ok (case v of
         PInt n \<Rightarrow> Inr n
       | PFloat (Finite x) \<Rightarrow> Inr (truncated x)
       | PFloat NotFinite \<Rightarrow> Inl Not_finite
       | PStr s \<Rightarrow> if strip s = '''' then Inl (When_error ''A time is required'') else text_when fromisoformat now z s
       | _ \<Rightarrow> Inl (When_error ''A time is required'')) (\<lambda>target.
       if target < now + MIN_LEAD_MS - 1000 then Inl (When_error ''That time has already passed; pick a later one'')
       else if now + MAX_LEAD_MS < target then Inl (When_error ''That is more than 90 days away; pick a nearer time'')
       else Inr target)"

lemma parse_when_range: "parse_when from_iso now z v = Inr t \<Longrightarrow> now + 59000 \<le> t \<and> t \<le> now + MAX_LEAD_MS"
  by (auto simp: parse_when_def on_ok_Inr_iff MIN_LEAD_MS_def split: if_splits)

lemma day_number_epoch: "day_number 1970 1 1 = 0" "day_number 2000 3 1 = 11017" "day_number 2026 10 13 = 20739"
  by code_simp+

end
