(* ===== verification/Agenda_Surface.thy ===== *)
theory Agenda_Surface
  imports Agenda_Store Objective_Store Agenda_When
begin

text \<open>
  Where goals and wake-ups meet: what the owner does to a goal in the app (\<open>agenda/rpc.py\<close>), and the tools with
  which the agent tracks goals and plans follow-ups (\<open>agent/tools/objective.py\<close>, \<open>follow_up.py\<close>). Each call
  runs its transactions on the two files one after the other, so an error keeps what was written before it.
\<close>

section \<open>State and inputs\<close>

record tracker =
  tk_goals :: objective_file
  tk_agenda :: agenda

record tracker_env =
  en_scan :: "string \<Rightarrow> string option"
  en_zone :: "string \<Rightarrow> zone"
  en_iso :: "string \<Rightarrow> (iso_time \<times> int) option"
  en_describe :: "int \<Rightarrow> zone \<Rightarrow> string"
  en_calling :: string

abbreviation on_goals :: "(objective_file \<Rightarrow> objective_file \<times> (agenda_error + 'x)) \<Rightarrow> tracker \<Rightarrow> tracker \<times> (agenda_error + 'x)" where
  "on_goals f s \<equiv> (s\<lparr>tk_goals := fst (f (tk_goals s))\<rparr>, snd (f (tk_goals s)))"

abbreviation on_agenda :: "(agenda \<Rightarrow> agenda \<times> (agenda_error + 'x)) \<Rightarrow> tracker \<Rightarrow> tracker \<times> (agenda_error + 'x)" where
  "on_agenda f s \<equiv> (s\<lparr>tk_agenda := fst (f (tk_agenda s))\<rparr>, snd (f (tk_agenda s)))"

text \<open>The next call runs on what the last one left, unless that raised.\<close>

definition and_then :: "tracker \<times> ('e + 'x) \<Rightarrow> (tracker \<Rightarrow> 'x \<Rightarrow> tracker \<times> ('e + 'y)) \<Rightarrow> tracker \<times> ('e + 'y)" where
  "and_then r f = (case snd r of Inl e \<Rightarrow> (fst r, Inl e) | Inr x \<Rightarrow> f (fst r) x)"

section \<open>The owner's actions\<close>

definition RESUMED_CHECK_IN_NOTE :: string where
  "RESUMED_CHECK_IN_NOTE = ''The owner resumed this goal. Ask how it is going now, and plan its check-ins again.''"

definition OWNER_ACTIONS :: "string \<Rightarrow> string option" where
  "OWNER_ACTIONS a = (if a = ''pause'' then Some ''paused'' else if a = ''resume'' then Some ''active''
     else if a = ''done'' then Some ''done'' else if a = ''drop'' then Some ''dropped'' else None)"

definition goal_id_of :: "pyval \<Rightarrow> agenda_error + string" where
  "goal_id_of v = (case v of
      PStr s \<Rightarrow> if strip s = '''' \<or> 64 < length s then invalid ''A goal id is required'' else Inr (strip s)
    | _ \<Rightarrow> invalid ''A goal id is required'')"

record owner_request =
  or_id :: pyval
  or_action :: string
  or_step :: pyval
  or_done :: pyval
  or_title :: pyval

datatype owner_reply = Deleted string | Shown objective "int option"

definition next_check_at :: "string \<Rightarrow> agenda \<Rightarrow> int option" where
  "next_check_at k a = map_option wi_due_at (next_for_objective k a)"

definition objectives_update :: "tracker_env \<Rightarrow> int \<Rightarrow> string \<Rightarrow> owner_request \<Rightarrow> tracker \<Rightarrow> tracker \<times> (agenda_error + owner_reply)" where
  "objectives_update env now hex q s =
     (case goal_id_of (or_id q) of
        Inl e \<Rightarrow> (s, Inl e)
      | Inr k \<Rightarrow>
          let action = str_lower (strip (or_action q)) in
          if action = ''delete'' then
            and_then (on_goals (delete_goal k) s) (\<lambda>s removed.
              if \<not> removed then (s, Inl (Objective_error ''NOT_FOUND'' ''No such goal''))
              else and_then (on_agenda (cancel_for_objective now k ''owner_deleted'') s) (\<lambda>s _. (s, Inr (Deleted k))))
          else if action = ''step'' then
            and_then (on_goals (set_step now k (or_step q) (or_done q) True) s) (\<lambda>s g.
              (s, Inr (Shown g (next_check_at k (tk_agenda s)))))
          else if action = ''rename'' then
            and_then (on_goals (update_goal (en_scan env) now k (no_changes\<lparr>gc_title := Some (or_title q)\<rparr>)) s) (\<lambda>s g.
            and_then (on_goals (log_goal (en_scan env) now k (PStr (o_title g)) ''owner'' (Some ''renamed'')) s) (\<lambda>s _.
              (s, Inr (Shown (case get_goal k (tk_goals s) of None \<Rightarrow> g | Some h \<Rightarrow> h) (next_check_at k (tk_agenda s))))))
          else case OWNER_ACTIONS action of
            None \<Rightarrow> (s, invalid ''action must be pause, resume, done, drop, delete, step or rename'')
          | Some status \<Rightarrow>
              and_then (on_goals (set_goal_status (en_scan env) now k status (PStr '''') True) s) (\<lambda>s g.
                if status \<noteq> ''active'' then
                  and_then (on_agenda (cancel_for_objective now k (''owner_'' @ action)) s) (\<lambda>s _. (s, Inr (Shown g None)))
                else
                  and_then (on_agenda (restore_for_objective (en_scan env) now hex RESUME_CHECK_IN_DELAY_MS k (o_sessionKey g) RESUMED_CHECK_IN_NOTE) s)
                    (\<lambda>s _. (s, Inr (Shown g (next_check_at k (tk_agenda s)))))))"

definition objectives_list :: "bool \<Rightarrow> tracker \<Rightarrow> (objective \<times> int option) list" where
  "objectives_list include_closed s =
     (let checks = map_of (rev (map (\<lambda>i. (wi_objective_id i, wi_due_at i)) (pending_items (tk_agenda s))))
      in map (\<lambda>g. (g, checks (Some (o_id g)))) (list_goals include_closed (tk_goals s)))"

definition agenda_list :: "pyval \<Rightarrow> agenda \<Rightarrow> wake_item list \<times> wake_record list \<times> agenda_settings" where
  "agenda_list v a =
     (let limit = (case v of PInt n \<Rightarrow> if 0 \<le> n \<and> n \<le> 100 then nat n else 20 | _ \<Rightarrow> 20)
      in (pending_items a, if limit = 0 then [] else rev (last_n limit (ag_history a)), ag_settings a))"

section \<open>The tools of the agent\<close>

definition resolve_conversation :: "tracker_env \<Rightarrow> string \<Rightarrow> agenda_error + string" where
  "resolve_conversation env requested =
     (if is_owner_conversation (en_calling env) then Inr (en_calling env)
      else if \<not> is_owner_conversation (strip requested)
      then invalid ''Name the owner's conversation this belongs to (conversation=<session key>).''
      else Inr (strip requested))"

definition timing_note :: "agenda_settings \<Rightarrow> int \<Rightarrow> zone \<Rightarrow> string" where
  "timing_note st due z =
     (let start = (if as_quiet_start st = '''' then DEFAULT_QUIET_START else as_quiet_start st);
          fin = (if as_quiet_end st = '''' then DEFAULT_QUIET_END else as_quiet_end st)
      in if quiet_until due z start fin = None then ''''
         else '' That is inside the owner's quiet hours ('' @ start @ ''-'' @ fin @ ''), which are enforced for you: it comes ''
           @ ''on time if the owner has written to you within half an hour before it, otherwise at '' @ fin @ ''. ''
           @ ''Tell the owner that; when it comes, you never hold it back yourself.'')"

datatype tool_error = Refused agenda_error | Bad_time when_error

fun lift_error :: "('e \<Rightarrow> 'f) \<Rightarrow> 'e + 'x \<Rightarrow> 'f + 'x" where
  "lift_error h (Inl e) = Inl (h e)"
| "lift_error h (Inr x) = Inr x"

abbreviation owner_zone_of :: "tracker_env \<Rightarrow> tracker \<Rightarrow> zone" where
  "owner_zone_of env s \<equiv> en_zone env (as_timezone (ag_settings (tk_agenda s)))"

definition follow_up_schedule ::
    "tracker_env \<Rightarrow> int \<Rightarrow> string \<Rightarrow> pyval \<Rightarrow> string \<Rightarrow> bool \<Rightarrow> string \<Rightarrow> tracker \<Rightarrow> tracker \<times> (tool_error + string)" where
  "follow_up_schedule env now hex when_arg note keep requested s =
     (case resolve_conversation env requested of
        Inl e \<Rightarrow> (s, Inl (Refused e))
      | Inr key \<Rightarrow>
          let z = owner_zone_of env s in
          case parse_when (en_iso env) now z when_arg of
            Inl e \<Rightarrow> (s, Inl (Bad_time e))
          | Inr due \<Rightarrow>
              let r = on_agenda (schedule (en_scan env) now hex ''follow_up'' due note key None (\<not> keep)) s
              in and_then (fst r, lift_error Refused (snd r)) (\<lambda>s i.
                (s, Inr (''Follow-up '' @ wi_id i @ '' planned for '' @ en_describe env due z @ '' in this conversation. ''
                   @ ''You will wake up here then; the owner is not told now unless you tell them.''
                   @ timing_note (ag_settings (tk_agenda s)) due z))))"

definition follow_up_cancel :: "int \<Rightarrow> string \<Rightarrow> tracker \<Rightarrow> tracker \<times> (tool_error + string)" where
  "follow_up_cancel now item_id s =
     (let k = strip item_id in
      if k = '''' then (s, Inr ''Error: id is required to cancel a follow-up.'')
      else let r = on_agenda (cancel_item now k ''agent'') s
        in and_then (fst r, lift_error Refused (snd r)) (\<lambda>s found.
          (s, Inr (if found then ''Cancelled '' @ k @ ''.'' else ''No pending follow-up '' @ k @ ''.''))))"

text \<open>An optional time argument: an empty one is not read.\<close>

definition when_given :: "tracker_env \<Rightarrow> int \<Rightarrow> zone \<Rightarrow> string \<Rightarrow> tool_error + int option" where
  "when_given env now z t = (if t = '''' then Inr None else lift_error Bad_time (map_sum id Some (parse_when (en_iso env) now z (PStr t))))"

definition check_note_for :: "string \<Rightarrow> objective \<Rightarrow> string" where
  "check_note_for note g = (if note = '''' then ''Check in on: '' @ o_title g else note)"

record objective_args =
  oa_request :: goal_request
  oa_ends :: string
  oa_next_check :: string
  oa_check_note :: string
  oa_conversation :: string

definition tool_create :: "tracker_env \<Rightarrow> int \<Rightarrow> string \<Rightarrow> string \<Rightarrow> objective_args \<Rightarrow> tracker \<Rightarrow> tracker \<times> (tool_error + string)" where
  "tool_create env now hex_goal hex_item a s =
     (case resolve_conversation env (oa_conversation a) of
        Inl e \<Rightarrow> (s, Inl (Refused e))
      | Inr key \<Rightarrow>
          let z = owner_zone_of env s in
          case on_ok (when_given env now z (oa_ends a)) (\<lambda>ends. on_ok (when_given env now z (oa_next_check a)) (\<lambda>due. Inr (ends, due))) of
            Inl e \<Rightarrow> (s, Inl e)
          | Inr (ends, due) \<Rightarrow>
              let q = (oa_request a)\<lparr>rq_ends_at := (case ends of None \<Rightarrow> PNone | Some t \<Rightarrow> PInt t), rq_session_key := key, rq_created_by := ''agent''\<rparr>;
                  r = on_goals (create_goal (en_scan env) now hex_goal q) s
              in and_then (fst r, lift_error Refused (snd r)) (\<lambda>s g.
                let told = ''Tracking goal '' @ o_id g @ '': '' @ o_title g @ ''.''; closing = '' Tell the owner you will keep track of it.'' in
                case due of
                  None \<Rightarrow> (s, Inr (told @ '' No check-in planned yet: set one with next_check.'' @ closing))
                | Some t \<Rightarrow>
                    let p = on_agenda (schedule (en_scan env) now hex_item ''objective'' t (check_note_for (oa_check_note a) g) key (Some (o_id g)) True) s
                    in and_then (fst p, lift_error Refused (snd p)) (\<lambda>s _.
                      (s, Inr (told @ '' First check-in '' @ en_describe env t z @ ''.'' @ timing_note (ag_settings (tk_agenda s)) t z @ closing)))))"

text \<open>The goal an action names.\<close>

definition with_goal :: "string \<Rightarrow> tracker \<Rightarrow> (string \<Rightarrow> objective \<Rightarrow> tracker \<times> (tool_error + string)) \<Rightarrow> tracker \<times> (tool_error + string)" where
  "with_goal v s f =
     (let k = strip v in
      if k = '''' then (s, Inr ''Error: id is required.'')
      else case get_goal k (tk_goals s) of
          None \<Rightarrow> (s, Inr (''Error: no goal '' @ k @ ''.''))
        | Some g \<Rightarrow> f k g)"

definition tool_update ::
    "tracker_env \<Rightarrow> int \<Rightarrow> string \<Rightarrow> string \<Rightarrow> goal_changes \<Rightarrow> string \<Rightarrow> string \<Rightarrow> string \<Rightarrow> string \<Rightarrow> tracker \<Rightarrow> tracker \<times> (tool_error + string)" where
  "tool_update env now hex goal_id c ends next_check check_note requested s =
     with_goal goal_id s (\<lambda>k g.
          let z = owner_zone_of env s in
          case when_given env now z ends of
            Inl e \<Rightarrow> (s, Inl e)
          | Inr ends_at \<Rightarrow>
              let c' = (case ends_at of None \<Rightarrow> c | Some t \<Rightarrow> c\<lparr>gc_ends_at := Some (PInt t)\<rparr>);
                  r = (if c' = no_changes then (s, Inr g) else on_goals (update_goal (en_scan env) now k c') s);
                  first = (if c' = no_changes then [] else [''Updated '' @ k @ ''.''])
              in and_then (fst r, lift_error Refused (snd r)) (\<lambda>s g.
                if next_check = '''' then
                  (s, Inr (if first = [] then ''Error: nothing to update (give fields to change or next_check).'' else join '' '' first))
                else if o_status g \<noteq> ''active'' then
                  (s, Inr (''Error: '' @ k @ '' is '' @ o_status g @ ''; resume it before planning a check-in.''))
                else case lift_error Bad_time (parse_when (en_iso env) now z (PStr next_check)) of
                  Inl e \<Rightarrow> (s, Inl e)
                | Inr due \<Rightarrow>
                    and_then (s, if o_sessionKey g \<noteq> '''' then Inr (o_sessionKey g) else lift_error Refused (resolve_conversation env requested)) (\<lambda>s key.
                    let p = on_agenda (schedule (en_scan env) now hex ''objective'' due (check_note_for check_note g) key (Some k) True) s
                    in and_then (fst p, lift_error Refused (snd p)) (\<lambda>s _.
                      (s, Inr (join '' '' (first @ [''Next check-in '' @ en_describe env due z @ ''.'' @ timing_note (ag_settings (tk_agenda s)) due z])))))))"

definition tool_log :: "tracker_env \<Rightarrow> int \<Rightarrow> string \<Rightarrow> pyval \<Rightarrow> tracker \<Rightarrow> tracker \<times> (tool_error + string)" where
  "tool_log env now goal_id note s =
     with_goal goal_id s (\<lambda>k _.
          let r = on_goals (log_goal (en_scan env) now k note ''checkin'' None) s
          in and_then (fst r, lift_error Refused (snd r)) (\<lambda>s _. (s, Inr (''Logged on '' @ k @ ''.''))))"

definition tool_close :: "tracker_env \<Rightarrow> int \<Rightarrow> string \<Rightarrow> string \<Rightarrow> pyval \<Rightarrow> tracker \<Rightarrow> tracker \<times> (tool_error + string)" where
  "tool_close env now goal_id outcome note s =
     with_goal goal_id s (\<lambda>k _.
          let out = (if outcome = '''' then ''done'' else outcome) in
          if out \<notin> {''done'', ''dropped''} then (s, Inr ''Error: outcome must be done or dropped.'')
          else let r = on_goals (set_goal_status (en_scan env) now k out note False) s
            in and_then (fst r, lift_error Refused (snd r)) (\<lambda>s _.
            let p = on_agenda (cancel_for_objective now k (''goal_'' @ out)) s
            in and_then (fst p, lift_error Refused (snd p)) (\<lambda>s _.
              (s, Inr (''Closed '' @ k @ '' as '' @ out @ ''. Its check-ins are cancelled.'')))))"

end
