(* ===== verification/Objective_Invariant.thy ===== *)
theory Objective_Invariant
  imports Objective_Store
begin

text \<open>
  What holds of the goals file after every operation: the caps, the vocabulary of a record, and that every
  text in it is bounded and passed the scan for injected instructions.
\<close>

section \<open>Pruning\<close>

lemma filter_nths: "(\<And>i. i < length xs \<Longrightarrow> i \<notin> A \<Longrightarrow> \<not> P (xs ! i)) \<Longrightarrow> filter P (nths xs A) = filter P xs"
proof (induction xs arbitrary: A)
  case (Cons x xs)
  have "filter P (nths xs {j. Suc j \<in> A}) = filter P xs" using Cons.prems by (intro Cons.IH) fastforce
  moreover have "0 \<notin> A \<Longrightarrow> \<not> P x" using Cons.prems [of 0] by simp
  ultimately show ?case by (simp add: nths_Cons)
qed simp

lemma excess_closed: "i \<in> set (excess gs) \<Longrightarrow> i < length gs \<and> \<not> is_open (gs ! i)"
  by (auto simp: excess_def dest!: in_set_takeD)

lemma prune_subset: "set (prune gs) \<subseteq> set gs"
  by (auto simp: prune_def dest: in_set_nthsD)

lemma prune_open: "filter is_open (prune gs) = filter is_open gs"
  by (auto simp: prune_def dest: excess_closed intro!: filter_nths)

lemma prune_keys: "distinct (map o_id gs) \<Longrightarrow> distinct (map o_id (prune gs))"
  by (simp add: prune_def distinct_nthsI flip: nths_map)

lemma length_closed: "length (filter (\<lambda>i. \<not> is_open (gs ! i)) [0..<length gs]) = length gs - open_count gs"
proof -
  have "length (filter (\<lambda>i. is_open (gs ! i)) [0..<length gs]) = open_count gs"
    using arg_cong [OF map_nth [of gs], of open_count] by (simp add: open_count_def filter_map o_def)
  with sum_length_filter_compl [of "\<lambda>i. is_open (gs ! i)" "[0..<length gs]"] show ?thesis by simp
qed

lemma prune_length:
  assumes "open_count gs \<le> MAX_STORED_OBJECTIVES"
  shows "length (prune gs) \<le> MAX_STORED_OBJECTIVES"
proof (cases "length gs \<le> MAX_STORED_OBJECTIVES")
  case False
  have "distinct (excess gs)" by (simp add: excess_def)
  then have "card (set (excess gs)) = length gs - MAX_STORED_OBJECTIVES"
    using assms False by (simp add: distinct_card) (simp add: excess_def length_closed)
  moreover have "{i. i < length gs \<and> i \<notin> set (excess gs)} = {..<length gs} - set (excess gs)" by auto
  moreover have "set (excess gs) \<subseteq> {..<length gs}" using excess_closed by auto
  ultimately have "card {i. i < length gs \<and> i \<notin> set (excess gs)} = MAX_STORED_OBJECTIVES"
    using False by (simp add: card_Diff_subset)
  with False show ?thesis by (simp add: prune_def length_nths)
qed (simp add: prune_def)

section \<open>The invariant\<close>

definition passed :: "(string \<Rightarrow> string option) \<Rightarrow> nat \<Rightarrow> string \<Rightarrow> bool" where
  "passed scan limit t \<longleftrightarrow> length t \<le> limit \<and> list_all (\<lambda>c. \<not> bad_char c) t \<and> (t \<noteq> '''' \<longrightarrow> \<not> truthy (scan t))"

definition step_ok :: "(string \<Rightarrow> string option) \<Rightarrow> goal_step \<Rightarrow> bool" where
  "step_ok scan s \<longleftrightarrow> gs_text s \<noteq> '''' \<and> passed scan MAX_STEP (gs_text s)"

definition entry_ok :: "(string \<Rightarrow> string option) \<Rightarrow> log_entry \<Rightarrow> bool" where
  "entry_ok scan e \<longleftrightarrow> le_kind e \<in> set LOG_KINDS \<and> (le_text e \<in> set STATUSES \<or> passed scan MAX_LOG_TEXT (le_text e))"

definition goal_ok :: "(string \<Rightarrow> string option) \<Rightarrow> objective \<Rightarrow> bool" where
  "goal_ok scan g \<longleftrightarrow>
     o_title g \<noteq> '''' \<and> passed scan MAX_TITLE (o_title g) \<and> o_category g \<in> set CATEGORIES \<and> passed scan MAX_WHY (o_why g)
     \<and> length (o_plan g) \<le> MAX_STEPS \<and> list_all (step_ok scan) (o_plan g)
     \<and> passed scan MAX_STAGE (o_stage g) \<and> passed scan MAX_CADENCE (o_cadence g) \<and> passed scan MAX_UNIT (pr_unit (o_progress g))
     \<and> length (o_sessionKey g) \<le> MAX_SESSION_KEY \<and> o_status g \<in> set STATUSES \<and> (o_closedAt g = None \<longleftrightarrow> is_open g)
     \<and> length (o_log g) \<le> MAX_LOG_ENTRIES \<and> list_all (entry_ok scan) (o_log g)"

definition goals_ok :: "(string \<Rightarrow> string option) \<Rightarrow> objective_file \<Rightarrow> bool" where
  "goals_ok scan d \<longleftrightarrow> (\<forall>g \<in> set (of_objectives d). goal_ok scan g) \<and> distinct (map o_id (of_objectives d))
     \<and> open_count (of_objectives d) \<le> MAX_ACTIVE_OBJECTIVES \<and> length (of_objectives d) \<le> MAX_STORED_OBJECTIVES"

lemma cleaned_passed:
  "clean_text_field scan limit field required multiline v = Inr t \<Longrightarrow> passed scan limit t \<and> (required \<longrightarrow> t \<noteq> '''')"
  using clean_text_field_Inr by (auto simp: passed_def)

lemma passed_string:
  "clean_string scan limit field required multiline v = Inr t \<Longrightarrow> passed scan limit t \<and> (required \<longrightarrow> t \<noteq> '''')"
  using clean_string_Inr by (auto simp: passed_def)

lemma clean_category_Inr: "clean_category v = Inr c \<Longrightarrow> c \<in> set CATEGORIES"
  by (auto simp: clean_category_def Let_def split: if_splits)

lemma clean_step_Inr: "clean_step scan a = Inr s \<Longrightarrow> step_ok scan s"
  by (auto simp: clean_step_def on_ok_Inr_iff step_ok_def dest: cleaned_passed passed_string split: step_arg.splits pyval.splits)

lemma clean_steps_Inr: "clean_steps scan as = Inr ss \<Longrightarrow> list_all (step_ok scan) ss \<and> length ss = length as"
  by (induction as arbitrary: ss) (auto simp: on_ok_Inr_iff clean_step_Inr)

lemma clean_plan_Inr: "clean_plan scan v = Inr ss \<Longrightarrow> list_all (step_ok scan) ss \<and> length ss \<le> MAX_STEPS"
  by (auto simp: clean_plan_def dest: clean_steps_Inr split: list_arg.splits if_splits)

section \<open>Records\<close>

lemma new_goal_ok: "new_goal scan now hex q = Inr g \<Longrightarrow> goal_ok scan g \<and> is_open g \<and> o_id g = ''obj_'' @ hex"
  unfolding new_goal_def on_ok_Inr_iff
  by (elim exE conjE)
    (auto simp: goal_ok_def is_open_def OPEN_STATUSES_def STATUSES_def dest: cleaned_passed clean_category_Inr clean_plan_Inr clean_session_key_Inr)

lemma append_log_ok:
  assumes "goal_ok scan g" "kind \<in> set LOG_KINDS" "t \<in> set STATUSES \<or> passed scan MAX_LOG_TEXT t"
  shows "goal_ok scan (append_log now kind t event g)"
proof -
  have "set (o_log (append_log now kind t event g)) \<subseteq> set (o_log g) \<union> {e. entry_ok scan e}"
    using assms(2,3) by (auto simp: append_log_def Let_def last_n_def entry_ok_def dest!: in_set_dropD)
  then have "list_all (entry_ok scan) (o_log (append_log now kind t event g))" using assms(1) by (auto simp: goal_ok_def list_all_iff)
  then show ?thesis using assms(1) by (simp add: goal_ok_def append_log_def Let_def is_open_def length_last_n)
qed

lemma append_log_open [simp]: "is_open (append_log now kind t event g) = is_open g" "o_id (append_log now kind t event g) = o_id g"
  by (simp_all add: append_log_def is_open_def Let_def)

lemma tick_steps_ok:
  "tick_steps ns plan = Inr p \<Longrightarrow> list_all (step_ok scan) plan \<Longrightarrow> list_all (step_ok scan) p \<and> length p = length plan"
proof (induction ns plan rule: tick_steps.induct)
  case (2 n ns plan)
  let ?i = "nat n - 1"
  have n: "1 \<le> n" "n \<le> int (length plan)" and rest: "tick_steps ns (plan[?i := (plan ! ?i)\<lparr>gs_done := True\<rparr>]) = Inr p"
    using 2(2) by (auto split: if_splits)
  then have "?i < length plan" by simp
  then have "step_ok scan ((plan ! ?i)\<lparr>gs_done := True\<rparr>)" using 2(3) by (simp add: list_all_length step_ok_def)
  then have "list_all (step_ok scan) (plan[?i := (plan ! ?i)\<lparr>gs_done := True\<rparr>])"
    using 2(3) by (auto simp: list_all_iff dest!: set_update_subset_insert [THEN set_mp])
  with 2(1) n rest show ?case by simp
qed simp

lemma given_Some: "given f v = Inr (Some y) \<Longrightarrow> \<exists>x. f x = Inr y"
  by (auto simp: given_def on_ok_Inr_iff split: option.splits)

definition changes_ok :: "(string \<Rightarrow> string option) \<Rightarrow> cleaned_changes \<Rightarrow> bool" where
  "changes_ok scan c \<longleftrightarrow>
     (\<forall>t. cc_title c = Some t \<longrightarrow> t \<noteq> '''' \<and> passed scan MAX_TITLE t) \<and> (\<forall>t. cc_category c = Some t \<longrightarrow> t \<in> set CATEGORIES)
     \<and> (\<forall>t. cc_why c = Some t \<longrightarrow> passed scan MAX_WHY t)
     \<and> (\<forall>p. cc_plan c = Some p \<longrightarrow> list_all (step_ok scan) p \<and> length p \<le> MAX_STEPS)
     \<and> (\<forall>t. cc_stage c = Some t \<longrightarrow> passed scan MAX_STAGE t) \<and> (\<forall>t. cc_cadence c = Some t \<longrightarrow> passed scan MAX_CADENCE t)
     \<and> (\<forall>t. cc_session_key c = Some t \<longrightarrow> length t \<le> MAX_SESSION_KEY) \<and> (\<forall>t. cc_unit c = Some t \<longrightarrow> passed scan MAX_UNIT t)"

lemma clean_changes_ok: "clean_changes scan c = Inr cc \<Longrightarrow> changes_ok scan cc"
  unfolding clean_changes_def on_ok_Inr_iff guard_Inr_iff changes_ok_def
  by (elim exE conjE, intro conjI allI impI)
    (auto dest!: given_Some dest: cleaned_passed clean_category_Inr clean_plan_Inr clean_session_key_Inr)

lemma set_or_keep_cases: "(v = None \<Longrightarrow> P old) \<Longrightarrow> (\<And>x. v = Some x \<Longrightarrow> P x) \<Longrightarrow> P (set_or_keep v old)"
  by (cases v) (auto simp: set_or_keep_def)

lemma apply_changes_ok:
  assumes "apply_changes now c g = Inr h" "goal_ok scan g" "changes_ok scan c"
  shows "goal_ok scan h" "is_open h = is_open g" "o_id h = o_id g"
proof -
  let ?plan = "set_or_keep (cc_plan c) (o_plan g)"
  from assms(1) obtain p where t: "tick_steps (cc_done_steps c) ?plan = Inr p"
    and h: "h = g\<lparr>o_title := set_or_keep (cc_title c) (o_title g), o_category := set_or_keep (cc_category c) (o_category g),
      o_why := set_or_keep (cc_why c) (o_why g), o_plan := p, o_stage := set_or_keep (cc_stage c) (o_stage g),
      o_cadence := set_or_keep (cc_cadence c) (o_cadence g), o_endsAt := set_or_keep (cc_ends_at c) (o_endsAt g),
      o_sessionKey := set_or_keep (cc_session_key c) (o_sessionKey g),
      o_progress := \<lparr>pr_current = set_or_keep (cc_current c) (pr_current (o_progress g)),
        pr_target = set_or_keep (cc_target c) (pr_target (o_progress g)), pr_unit = set_or_keep (cc_unit c) (pr_unit (o_progress g))\<rparr>,
      o_updatedAt := now\<rparr>"
    by (auto simp: apply_changes_def Let_def on_ok_Inr_iff)
  have "list_all (step_ok scan) ?plan \<and> length ?plan \<le> MAX_STEPS"
    by (rule set_or_keep_cases) (use assms(2,3) in \<open>auto simp: goal_ok_def changes_ok_def\<close>)
  with tick_steps_ok [OF t] have plan: "list_all (step_ok scan) p" "length p \<le> MAX_STEPS" by auto
  have kept: "passed scan n (set_or_keep v old)" if "passed scan n old" "\<forall>x. v = Some x \<longrightarrow> passed scan n x" for n v old
    by (rule set_or_keep_cases) (use that in auto)
  note go = assms(2) [unfolded goal_ok_def] and ch = assms(3) [unfolded changes_ok_def]
  have "set_or_keep (cc_title c) (o_title g) \<noteq> ''''" "set_or_keep (cc_category c) (o_category g) \<in> set CATEGORIES"
    "length (set_or_keep (cc_session_key c) (o_sessionKey g)) \<le> MAX_SESSION_KEY"
    by (rule set_or_keep_cases; use go ch in blast)+
  moreover have "passed scan MAX_TITLE (set_or_keep (cc_title c) (o_title g))" "passed scan MAX_WHY (set_or_keep (cc_why c) (o_why g))"
    "passed scan MAX_STAGE (set_or_keep (cc_stage c) (o_stage g))" "passed scan MAX_CADENCE (set_or_keep (cc_cadence c) (o_cadence g))"
    "passed scan MAX_UNIT (set_or_keep (cc_unit c) (pr_unit (o_progress g)))"
    by (rule kept; use go ch in blast)+
  ultimately show "goal_ok scan h" using go plan by (simp add: goal_ok_def h is_open_def)
  show "is_open h = is_open g" "o_id h = o_id g" by (simp_all add: h is_open_def)
qed

section \<open>Operations\<close>

lemma change_goal_Inr:
  "change_goal k f gs = Inr (hs, h) \<Longrightarrow> \<exists>a g b. gs = a @ g # b \<and> o_id g = k \<and> f g = Inr h \<and> hs = a @ h # b"
proof (induction gs arbitrary: hs)
  case (Cons x xs)
  show ?case
  proof (cases "o_id x = k")
    case True
    with Cons.prems show ?thesis by (intro exI [of _ "[]"]) (auto simp: on_ok_Inr_iff)
  next
    case False
    with Cons.prems obtain ys where ys: "change_goal k f xs = Inr (ys, h)" "hs = x # ys" by (auto simp: on_ok_Inr_iff)
    from Cons.IH [OF ys(1)] obtain a g b where "xs = a @ g # b" "o_id g = k" "f g = Inr h" "ys = a @ h # b" by auto
    with ys(2) show ?thesis by (intro exI [of _ "x # a"]) auto
  qed
qed simp

definition list_ok :: "(string \<Rightarrow> string option) \<Rightarrow> objective list \<Rightarrow> bool" where
  "list_ok scan gs \<longleftrightarrow> (\<forall>g \<in> set gs. goal_ok scan g) \<and> distinct (map o_id gs) \<and> open_count gs \<le> MAX_ACTIVE_OBJECTIVES"

lemma goals_ok_list: "goals_ok scan d \<longleftrightarrow> list_ok scan (of_objectives d) \<and> length (of_objectives d) \<le> MAX_STORED_OBJECTIVES"
  by (auto simp: goals_ok_def list_ok_def)

lemma prune_ok: "list_ok scan gs \<Longrightarrow> list_ok scan (prune gs) \<and> length (prune gs) \<le> MAX_STORED_OBJECTIVES"
  using prune_subset [of gs] prune_length [of gs]
  by (auto simp: list_ok_def open_count_def prune_open prune_keys MAX_STORED_OBJECTIVES_def MAX_ACTIVE_OBJECTIVES_def)

text \<open>A transaction keeps the invariant when its change keeps the invariant of the list.\<close>

lemma transaction_ok:
  assumes "goals_ok scan d" "\<And>gs x. f (of_objectives d) = Inr (gs, x) \<Longrightarrow> list_ok scan gs"
  shows "goals_ok scan (fst (goal_transaction f d))"
proof (cases "f (of_objectives d)")
  case (Inr r)
  then show ?thesis using assms(2) [of "fst r" "snd r"] prune_ok [of scan "fst r"] by (cases r) (auto simp: goal_transaction_def goals_ok_list)
qed (simp add: goal_transaction_def assms(1))

text \<open>A change of one record that keeps it well formed; it opens a closed goal only below the cap.\<close>

lemma change_goal_ok:
  assumes "list_ok scan gs" "change_goal k f gs = Inr (hs, h)"
    "\<And>g. f g = Inr h \<Longrightarrow> goal_ok scan g \<Longrightarrow>
      goal_ok scan h \<and> o_id h = o_id g \<and> (is_open h \<longrightarrow> is_open g \<or> open_count gs < MAX_ACTIVE_OBJECTIVES)"
  shows "list_ok scan hs"
proof -
  from change_goal_Inr [OF assms(2)] obtain a g b where *: "gs = a @ g # b" "f g = Inr h" "hs = a @ h # b" by auto
  have "goal_ok scan g" using assms(1) * by (auto simp: list_ok_def)
  from assms(3) [OF *(2) this] have h: "goal_ok scan h" "o_id h = o_id g" "is_open h \<longrightarrow> is_open g \<or> open_count gs < MAX_ACTIVE_OBJECTIVES" by auto
  then have "open_count hs \<le> MAX_ACTIVE_OBJECTIVES" using assms(1) * by (auto simp: list_ok_def open_count_def split: if_splits)
  then show ?thesis using assms(1) * h by (auto simp: list_ok_def)
qed

lemma log_kinds: "''owner'' \<in> set LOG_KINDS" "''plan'' \<in> set LOG_KINDS" "''status'' \<in> set LOG_KINDS" "''note'' \<in> set LOG_KINDS"
  by (simp_all add: LOG_KINDS_def)

lemma passed_mono: "passed scan m t \<Longrightarrow> m \<le> n \<Longrightarrow> passed scan n t"
  by (auto simp: passed_def)

lemma create_goal_ok:
  assumes "goals_ok scan d" "''obj_'' @ hex \<notin> o_id ` set (of_objectives d)"
  shows "goals_ok scan (fst (create_goal scan now hex q d))"
proof (cases "new_goal scan now hex q")
  case (Inr g)
  have "list_ok scan (of_objectives d @ [g])" if "open_count (of_objectives d) < MAX_ACTIVE_OBJECTIVES"
    using new_goal_ok [OF Inr] assms that by (auto simp: goals_ok_list list_ok_def open_count_def)
  then show ?thesis unfolding create_goal_def Inr sum.case
    by (intro transaction_ok [OF assms(1)]) (auto split: if_splits)
qed (simp add: create_goal_def assms(1))

text \<open>The operations that change one record.\<close>

lemma change_transaction_ok:
  assumes "goals_ok scan d"
    "\<And>g h. f (of_objectives d) g = Inr h \<Longrightarrow> goal_ok scan g \<Longrightarrow>
      goal_ok scan h \<and> o_id h = o_id g \<and> (is_open h \<longrightarrow> is_open g \<or> open_count (of_objectives d) < MAX_ACTIVE_OBJECTIVES)"
  shows "goals_ok scan (fst (goal_transaction (\<lambda>gs. change_goal k (f gs) gs) d))"
proof (rule transaction_ok [OF assms(1)])
  fix gs x assume "change_goal k (f (of_objectives d)) (of_objectives d) = Inr (gs, x)"
  then show "list_ok scan gs" by (rule change_goal_ok [rotated]) (use assms in \<open>auto simp: goals_ok_list\<close>)
qed

lemma update_goal_ok:
  assumes "goals_ok scan d"
  shows "goals_ok scan (fst (update_goal scan now k c d))"
proof (cases "clean_changes scan c")
  case (Inr cc)
  have "goals_ok scan (fst (goal_transaction (\<lambda>gs. change_goal k (apply_changes now cc) gs) d))"
    by (rule change_transaction_ok [OF assms]) (use apply_changes_ok clean_changes_ok [OF Inr] in auto)
  then show ?thesis by (simp add: update_goal_def Inr)
qed (simp add: update_goal_def assms)

lemma log_goal_ok:
  assumes "goals_ok scan d"
  shows "goals_ok scan (fst (log_goal scan now k t kind event d))"
proof (cases "clean_text_field scan MAX_LOG_TEXT ''note'' True True t")
  case (Inr x)
  let ?f = "\<lambda>g. Inr (append_log now (if kind \<in> set LOG_KINDS then kind else ''note'') x event g)"
  have "goals_ok scan (fst (goal_transaction (\<lambda>gs. change_goal k ?f gs) d))"
    by (rule change_transaction_ok [OF assms]) (use cleaned_passed [OF Inr] log_kinds in \<open>auto intro!: append_log_ok\<close>)
  then show ?thesis by (simp add: log_goal_def Inr)
qed (simp add: log_goal_def assms)

lemma set_step_ok:
  assumes "goals_ok scan d"
  shows "goals_ok scan (fst (set_step now k number done_flag by_owner d))"
proof (cases "\<exists>n b. number = PInt n \<and> done_flag = PBool b")
  case True
  then obtain n b where nb: "number = PInt n" "done_flag = PBool b" by auto
  let ?f = "\<lambda>g. if n < 1 \<or> int (length (o_plan g)) < n then invalid (''There is no step '' @ show_int n)
    else let step = o_plan g ! (nat n - 1) in
      if gs_done step = b then Inr g
      else Inr (append_log now (if by_owner then ''owner'' else ''plan'') (gs_text step) (Some (if b then ''step_done'' else ''step_undone''))
        (g\<lparr>o_plan := (o_plan g)[nat n - 1 := step\<lparr>gs_done := b\<rparr>]\<rparr>))"
  have "goals_ok scan (fst (goal_transaction (\<lambda>gs. change_goal k ?f gs) d))"
  proof (rule change_transaction_ok [OF assms])
    fix g h assume h: "?f g = Inr h" and g: "goal_ok scan g"
    let ?step = "o_plan g ! (nat n - 1)" and ?plan = "(o_plan g)[nat n - 1 := (o_plan g ! (nat n - 1))\<lparr>gs_done := b\<rparr>]"
    have "nat n - 1 < length (o_plan g)" using h by (auto split: if_splits)
    then have st: "step_ok scan ?step" using g by (simp add: goal_ok_def list_all_length)
    then have "list_all (step_ok scan) ?plan" using g
      by (auto simp: goal_ok_def list_all_iff step_ok_def dest!: set_update_subset_insert [THEN set_mp])
    then have p: "goal_ok scan (g\<lparr>o_plan := ?plan\<rparr>)" using g by (simp add: goal_ok_def is_open_def)
    have same: "is_open (g\<lparr>o_plan := ?plan\<rparr>) = is_open g" by (simp add: is_open_def)
    have t: "passed scan MAX_LOG_TEXT (gs_text ?step)"
      using st by (auto simp: step_ok_def MAX_STEP_def MAX_LOG_TEXT_def intro: passed_mono)
    have "h = g \<or> (\<exists>kind event. kind \<in> set LOG_KINDS \<and> h = append_log now kind (gs_text ?step) event (g\<lparr>o_plan := ?plan\<rparr>))"
      using h log_kinds by (simp add: Let_def split: if_splits) blast+
    then show "goal_ok scan h \<and> o_id h = o_id g \<and> (is_open h \<longrightarrow> is_open g \<or> open_count (of_objectives d) < MAX_ACTIVE_OBJECTIVES)"
      using g append_log_ok [OF p] t same by auto
  qed
  then show ?thesis by (simp add: set_step_def nb)
qed (auto simp: set_step_def assms split: pyval.splits)

lemma set_goal_status_ok:
  assumes "goals_ok scan d"
  shows "goals_ok scan (fst (set_goal_status scan now k status note by_owner d))"
proof (cases "status \<in> set STATUSES \<and> (\<exists>t. clean_text_field scan MAX_LOG_TEXT ''note'' False True note = Inr t)")
  case True
  then obtain t where st: "status \<in> set STATUSES" and t: "clean_text_field scan MAX_LOG_TEXT ''note'' False True note = Inr t" by auto
  let ?entry = "if t = '''' then status else t"
  let ?g = "\<lambda>g. g\<lparr>o_status := status, o_closedAt := (if status \<in> set OPEN_STATUSES then None else Some now)\<rparr>"
  let ?f = "\<lambda>gs g. if status \<in> set OPEN_STATUSES \<and> \<not> is_open g \<and> MAX_ACTIVE_OBJECTIVES \<le> open_count gs
    then Inl (Objective_error ''LIMIT'' (''Already tracking '' @ show_nat MAX_ACTIVE_OBJECTIVES @ '' goals.''))
    else Inr (append_log now (if by_owner then ''owner'' else ''status'') ?entry (Some status) (?g g))"
  have "goals_ok scan (fst (goal_transaction (\<lambda>gs. change_goal k (?f gs) gs) d))"
  proof (rule change_transaction_ok [OF assms])
    fix g h assume h: "?f (of_objectives d) g = Inr h" and g: "goal_ok scan g"
    have p: "goal_ok scan (?g g)" using g st by (simp add: goal_ok_def is_open_def)
    have e: "?entry \<in> set STATUSES \<or> passed scan MAX_LOG_TEXT ?entry" using st cleaned_passed [OF t] by simp
    from h have op: "status \<in> set OPEN_STATUSES \<longrightarrow> is_open g \<or> open_count (of_objectives d) < MAX_ACTIVE_OBJECTIVES"
      and h': "h = append_log now (if by_owner then ''owner'' else ''status'') ?entry (Some status) (?g g)"
      by (auto split: if_splits)
    have "(if by_owner then ''owner'' else ''status'') \<in> set LOG_KINDS" using log_kinds by simp
    note kept = append_log_ok [OF p this e, of now "Some status"]
    have "is_open h = (status \<in> set OPEN_STATUSES)" "o_id h = o_id g" unfolding h' append_log_open by (simp_all add: is_open_def)
    with kept op show "goal_ok scan h \<and> o_id h = o_id g \<and> (is_open h \<longrightarrow> is_open g \<or> open_count (of_objectives d) < MAX_ACTIVE_OBJECTIVES)"
      unfolding h' by blast
  qed
  then show ?thesis using st by (simp add: set_goal_status_def t)
qed (auto simp: set_goal_status_def assms split: sum.splits)

lemma delete_goal_ok:
  assumes "goals_ok scan d"
  shows "goals_ok scan (fst (delete_goal k d))"
proof -
  let ?gs = "filter (\<lambda>g. o_id g \<noteq> k) (of_objectives d)"
  have "open_count ?gs \<le> open_count (of_objectives d)"
    unfolding open_count_def filter_filter by (rule length_filter_mono) simp
  then have "list_ok scan ?gs" using assms by (auto simp: goals_ok_list list_ok_def distinct_map_filter)
  then show ?thesis unfolding delete_goal_def Let_def by (intro transaction_ok [OF assms]) auto
qed

section \<open>The file over time\<close>

inductive objective_step :: "(string \<Rightarrow> string option) \<Rightarrow> objective_file \<Rightarrow> objective_file \<Rightarrow> bool" for scan where
  created: "''obj_'' @ hex \<notin> o_id ` set (of_objectives d) \<Longrightarrow> objective_step scan d (fst (create_goal scan now hex q d))"
| changed_fields: "objective_step scan d (fst (update_goal scan now k c d))"
| logged: "objective_step scan d (fst (log_goal scan now k t kind event d))"
| ticked: "objective_step scan d (fst (set_step now k number done_flag by_owner d))"
| moved: "objective_step scan d (fst (set_goal_status scan now k status note by_owner d))"
| deleted: "objective_step scan d (fst (delete_goal k d))"

lemma objective_step_ok: "objective_step scan d e \<Longrightarrow> goals_ok scan d \<Longrightarrow> goals_ok scan e"
  by (induction rule: objective_step.induct)
    (simp_all add: create_goal_ok update_goal_ok log_goal_ok set_step_ok set_goal_status_ok delete_goal_ok)

lemma no_objectives_ok: "goals_ok scan no_objectives"
  by (simp add: no_objectives_def goals_ok_def open_count_def)

interpretation objectives: guarded_system "\<lambda>d. d = no_objectives" "objective_step scan" "goals_ok scan" for scan
  by unfold_locales (auto simp: no_objectives_ok intro: objective_step_ok)

end
