(* ===== verification/Agenda_Tracking.thy ===== *)
theory Agenda_Tracking
  imports Agenda_Surface Agenda_Invariant Objective_Invariant
begin

text \<open>
  Pausing, finishing or dropping a goal takes its check-in away; resuming it brings the check-in back.
\<close>

section \<open>Changing the status of a goal\<close>

lemma change_goal_found:
  assumes "find_goal k gs = Some g" "f g = Inr h" "o_id h = o_id g"
  shows "\<exists>hs. change_goal k f gs = Inr (hs, h) \<and> find_goal k hs = Some h \<and> length hs = length gs
    \<and> open_count hs + (if is_open g then 1 else 0) = open_count gs + (if is_open h then 1 else 0)"
  using assms
proof (induction gs)
  case (Cons x xs)
  then show ?case by (cases "o_id x = k") (auto simp: find_goal_def open_count_def)
qed (simp add: find_goal_def)

lemma clean_empty_note: "clean_text_field scan limit field False True (PStr '''') = Inr ''''"
  by (simp add: clean_text_field_def clean_string_def)

text \<open>The record a new status gives.\<close>

definition with_status :: "int \<Rightarrow> string \<Rightarrow> objective \<Rightarrow> objective" where
  "with_status now status g = append_log now ''owner'' status (Some status)
     (g\<lparr>o_status := status, o_closedAt := (if status \<in> set OPEN_STATUSES then None else Some now)\<rparr>)"

lemma with_status_fields [simp]:
  "o_id (with_status now status g) = o_id g" "o_status (with_status now status g) = status"
  "o_sessionKey (with_status now status g) = o_sessionKey g" "is_open (with_status now status g) \<longleftrightarrow> status \<in> set OPEN_STATUSES"
  by (simp_all add: with_status_def append_log_def Let_def is_open_def)

lemma set_goal_status_found:
  assumes "length (of_objectives d) \<le> MAX_STORED_OBJECTIVES" "get_goal k d = Some g" "status \<in> set STATUSES"
    "status \<in> set OPEN_STATUSES \<longrightarrow> is_open g \<or> open_count (of_objectives d) < MAX_ACTIVE_OBJECTIVES"
  obtains e where "set_goal_status scan now k status (PStr '''') True d = (e, Inr (with_status now status g))"
    "get_goal k e = Some (with_status now status g)" "length (of_objectives e) \<le> MAX_STORED_OBJECTIVES"
    "open_count (of_objectives e) + (if is_open g then 1 else 0) = open_count (of_objectives d) + (if status \<in> set OPEN_STATUSES then 1 else 0)"
proof -
  let ?f = "\<lambda>g. if status \<in> set OPEN_STATUSES \<and> \<not> is_open g \<and> MAX_ACTIVE_OBJECTIVES \<le> open_count (of_objectives d)
    then Inl (Objective_error ''LIMIT'' (''Already tracking '' @ show_nat MAX_ACTIVE_OBJECTIVES @ '' goals.''))
    else Inr (append_log now ''owner'' status (Some status) (g\<lparr>o_status := status, o_closedAt := (if status \<in> set OPEN_STATUSES then None else Some now)\<rparr>))"
  have f: "?f g = Inr (with_status now status g)" using assms(4) by (auto simp: with_status_def)
  from change_goal_found [where f = ?f, OF assms(2) [unfolded get_goal_def] f] obtain hs where
    hs: "change_goal k ?f (of_objectives d) = Inr (hs, with_status now status g)" "find_goal k hs = Some (with_status now status g)"
      "length hs = length (of_objectives d)"
      "open_count hs + (if is_open g then 1 else 0) = open_count (of_objectives d) + (if status \<in> set OPEN_STATUSES then 1 else 0)" by auto
  have "prune hs = hs" using assms(1) hs(3) by (simp add: prune_def)
  then have "set_goal_status scan now k status (PStr '''') True d =
      (\<lparr>of_revision = of_revision d + 1, of_objectives = hs\<rparr>, Inr (with_status now status g))"
    using assms(3) hs(1) by (simp add: set_goal_status_def clean_empty_note goal_transaction_def)
  with hs assms(1) that show thesis by (auto simp: get_goal_def)
qed

section \<open>Taking a check-in away and bringing it back\<close>

lemma cancel_for_objective_run:
  "cancel_for_objective now k reason a =
     (written (retire (check_in_of (Some k)) ''cancelled'' (Some reason) now a), Inr (length (filter (check_in_of (Some k)) (ag_items a))))"
  by (simp add: cancel_for_objective_def transaction_def)

lemma written_items [simp]: "ag_items (written a) = ag_items a"
  by (simp add: written_def)

lemma last_n_snoc: "0 < n \<Longrightarrow> \<exists>ys. last_n n (xs @ [x]) = ys @ [x]"
  by (auto simp: last_n_def intro!: exI [of _ "drop (Suc (length xs) - n) xs"])

lemma cancelled_history:
  assumes "filter (check_in_of (Some k)) (ag_items a) = [i]"
  shows "\<exists>h. ag_history (fst (cancel_for_objective now k reason a)) = h @ [settled ''cancelled'' (Some reason) now i]"
  using assms last_n_snoc [of MAX_HISTORY] by (simp add: cancel_for_objective_run written_def retire_def MAX_HISTORY_def)

lemma restored_check_in:
  assumes "clean_session_key key = Inr key" "is_owner_conversation key" "filter (check_in_of (Some k)) (ag_items a) = []"
    "ag_history a = h @ [settled ''cancelled'' (Some (''owner_'' @ what)) t i]" "wi_objective_id i = Some k"
    "now < wi_due_at i" "clean_note scan MAX_NOTE (wi_note i) = Inr (wi_note i)" "length (ag_items a) < MAX_PENDING"
  shows "restore_for_objective scan now hex delay k key fallback a =
    (written (a\<lparr>ag_items := ag_items a @ [new_item now hex ''objective'' (wi_due_at i) (wi_note i) key (Some k) False]\<rparr>),
     Inr (Some (new_item now hex ''objective'' (wi_due_at i) (wi_note i) key (Some k) False)))"
proof -
  have none: "find (check_in_of (Some k)) (ag_items a) = None" using assms(3) by (simp add: find_None_iff filter_empty_conv)
  have "find (taken_away k) (rev (ag_history a)) = Some (settled ''cancelled'' (Some (''owner_'' @ what)) t i)"
    using assms(4,5) by (simp add: taken_away_def settled_def is_prefix_iff)
  moreover have "wi_note i \<noteq> ''''" using clean_string_Inr(3) [OF assms(7) [unfolded clean_note_def]] by simp
  ultimately show ?thesis
    using assms none by (simp add: restore_for_objective_def transaction_def Let_def settled_def)
qed

lemma filter_one_less: "filter P xs = [x] \<Longrightarrow> length (filter (\<lambda>y. \<not> P y) xs) < length xs"
  using sum_length_filter_compl [of P xs] by simp

lemma check_in_id: "check_in_of (Some k) i \<Longrightarrow> wi_objective_id i = Some k"
  by (simp add: check_in_of_def)

section \<open>The owner's actions\<close>

definition owner_asks :: "string \<Rightarrow> string \<Rightarrow> owner_request" where
  "owner_asks k action = \<lparr>or_id = PStr k, or_action = action, or_step = PNone, or_done = PNone, or_title = PNone\<rparr>"

lemma take_away_run:
  assumes "goals_ok scan (tk_goals s)" "get_goal k (tk_goals s) = Some g" "o_status g = ''active''" "goal_id_of (PStr k) = Inr k"
    "action \<in> {''pause'', ''done'', ''drop''}" "en_scan env = scan"
  obtains e status where "objectives_update env now hex (owner_asks k action) s =
      (s\<lparr>tk_goals := e, tk_agenda := fst (cancel_for_objective now k (''owner_'' @ action) (tk_agenda s))\<rparr>, Inr (Shown (with_status now status g) None))"
    "get_goal k e = Some (with_status now status g)" "length (of_objectives e) \<le> MAX_STORED_OBJECTIVES"
    "status \<in> set OPEN_STATUSES \<or> open_count (of_objectives e) < MAX_ACTIVE_OBJECTIVES"
proof -
  define status where "status = (if action = ''pause'' then ''paused'' else if action = ''done'' then ''done'' else ''dropped'')"
  have act: "str_lower (strip action) = action" "OWNER_ACTIONS action = Some status" "action \<notin> {''delete'', ''step'', ''rename''}"
    using assms(5) by (auto simp: status_def OWNER_ACTIONS_def str_lower_def char_lower_def strip_def lstrip_def rstrip_def py_space_def)
  have st: "status \<in> set STATUSES" "status \<noteq> ''active''" using assms(5) by (auto simp: status_def STATUSES_def)
  have op: "is_open g" using assms(3) by (simp add: is_open_def OPEN_STATUSES_def)
  have len: "length (of_objectives (tk_goals s)) \<le> MAX_STORED_OBJECTIVES" and cnt: "open_count (of_objectives (tk_goals s)) \<le> MAX_ACTIVE_OBJECTIVES"
    using assms(1) by (auto simp: goals_ok_def)
  obtain e where e: "set_goal_status scan now k status (PStr '''') True (tk_goals s) = (e, Inr (with_status now status g))"
    "get_goal k e = Some (with_status now status g)" "length (of_objectives e) \<le> MAX_STORED_OBJECTIVES"
    "open_count (of_objectives e) + (if is_open g then 1 else 0) =
      open_count (of_objectives (tk_goals s)) + (if status \<in> set OPEN_STATUSES then 1 else 0)"
    using set_goal_status_found [OF len assms(2) st(1), of scan now thesis] op by blast
  have "objectives_update env now hex (owner_asks k action) s =
      (s\<lparr>tk_goals := e, tk_agenda := fst (cancel_for_objective now k (''owner_'' @ action) (tk_agenda s))\<rparr>, Inr (Shown (with_status now status g) None))"
    using act st(2) assms(4,6) e(1) by (simp add: objectives_update_def owner_asks_def Let_def and_then_def cancel_for_objective_run)
  moreover have "status \<in> set OPEN_STATUSES \<or> open_count (of_objectives e) < MAX_ACTIVE_OBJECTIVES" using e(4) op cnt by (simp split: if_splits)
  ultimately show thesis using e(2,3) that by blast
qed

lemma resume_run:
  assumes "length (of_objectives (tk_goals s)) \<le> MAX_STORED_OBJECTIVES" "get_goal k (tk_goals s) = Some g"
    "is_open g \<or> open_count (of_objectives (tk_goals s)) < MAX_ACTIVE_OBJECTIVES" "goal_id_of (PStr k) = Inr k" "en_scan env = scan"
    "restore_for_objective scan now hex RESUME_CHECK_IN_DELAY_MS k (o_sessionKey g) RESUMED_CHECK_IN_NOTE (tk_agenda s) = (a, Inr x)"
  obtains e where "objectives_update env now hex (owner_asks k ''resume'') s =
      (s\<lparr>tk_goals := e, tk_agenda := a\<rparr>, Inr (Shown (with_status now ''active'' g) (next_check_at k a)))"
    "get_goal k e = Some (with_status now ''active'' g)"
proof -
  have st: "''active'' \<in> set STATUSES" by (simp add: STATUSES_def)
  obtain e where e: "set_goal_status scan now k ''active'' (PStr '''') True (tk_goals s) = (e, Inr (with_status now ''active'' g))"
    "get_goal k e = Some (with_status now ''active'' g)"
    using set_goal_status_found [OF assms(1,2) st, of scan now thesis] assms(3) by blast
  have "objectives_update env now hex (owner_asks k ''resume'') s =
      (s\<lparr>tk_goals := e, tk_agenda := a\<rparr>, Inr (Shown (with_status now ''active'' g) (next_check_at k a)))"
    using assms(4-6) e(1)
    by (simp add: objectives_update_def owner_asks_def Let_def and_then_def OWNER_ACTIONS_def str_lower_def char_lower_def strip_def lstrip_def rstrip_def py_space_def)
  with e(2) that show thesis by blast
qed

end
