(* ===== verification/Agenda_Properties.thy ===== *)
theory Agenda_Properties
  imports Agenda_Limits Agenda_Progress Agenda_Tracking
begin

text \<open>
  The properties of the agenda: how often agents write first, and under which conditions.
\<close>

section \<open>Starting a wake-up\<close>

lemma decide_run:
  assumes "decide f = Run_wake"
  shows "effective_level (fa_level f) \<noteq> ''off''" "fa_is_objective f \<longrightarrow> fa_objective_status f = Some ''active''"
    "fa_unanswered f < MAX_UNANSWERED"
    "quiet_until (fa_now_ms f) (fa_zone f) (fa_quiet_start f) (fa_quiet_end f) \<noteq> None \<longrightarrow> owner_awake f"
    "0 < fa_unanswered f \<longrightarrow> fa_last_proactive_ms f = Some l \<longrightarrow> l + backoff_ms (fa_unanswered f) \<le> fa_now_ms f"
    "\<not> fa_session_busy f"
  using assms by (auto simp: decide_def Let_def split: if_splits)

lemma change_first_find:
  "find P xs = Some x \<Longrightarrow> f x \<in> set (change_first P f xs)"
  by (induction xs) (auto split: if_splits)

lemma start_item_Some:
  assumes "start_item now k a = (b, Inr (Some w))"
  shows "w \<in> set (ag_items b)" "wi_state w = Wake_running" "wi_id w = k"
proof -
  let ?P = "\<lambda>i. wi_id i = k \<and> is_pending i" and ?run = "\<lambda>i. i\<lparr>wi_state := Wake_running, wi_started_at := Some now\<rparr>"
  from assms obtain i where i: "find ?P (ag_items a) = Some i" "w = ?run i"
    and b: "b = written (a\<lparr>ag_items := change_first ?P ?run (ag_items a)\<rparr>)"
    by (auto simp: start_item_def transaction_def Let_def)
  from change_first_find [OF i(1), of ?run] i(2) b show "w \<in> set (ag_items b)" by (simp add: written_def)
  from i(1) have "wi_id i = k" by (auto simp: find_Some_iff)
  with i(2) show "wi_state w = Wake_running" "wi_id w = k" by simp_all
qed

lemma of_profile_append [simp]: "of_profile p (xs @ ys) = of_profile p xs + of_profile p ys"
  by (simp add: of_profile_def)

lemma reserve_within:
  assumes "reserve token p z ac gc now es = (es', Some t)"
  shows "length (today_entries z now es') \<le> gc" "of_profile p (today_entries z now es') \<le> ac" "slot token p now \<in> set es'"
  using assms by (auto simp: reserve_def Let_def slot_def today_entries_def of_profile_def split: if_splits)

section \<open>Properties\<close>


text \<open>Late messages have no bound: a slot that was given back is free for the next turn.\<close>

lemma late_turns_unbounded:
  "\<exists>s. (budget_step z)\<^sup>*\<^sup>* (no_slots now) s \<and> length (filter (\<lambda>e. zn_day z (be_at e) = zn_day z now) (sh_late s)) = n"
proof -
  have "\<exists>s. (budget_step z)\<^sup>*\<^sup>* (no_slots now) s \<and> s = (no_slots now)\<lparr>sh_late := replicate n (slot ''t'' ''main'' now)\<rparr>"
  proof (induction n)
    case (Suc n)
    define s where "s = (no_slots now)\<lparr>sh_late := replicate n (slot ''t'' ''main'' now)\<rparr>"
    let ?e = "slot ''t'' ''main'' now"
    have "reserve ''t'' ''main'' z 1 GLOBAL_DAILY_CAP now [] = ([?e], Some ''t'')"
      by (simp add: reserve_def live_entries_def today_entries_def of_profile_def slot_def GLOBAL_DAILY_CAP_def Let_def)
    then have "budget_step z s (s\<lparr>sh_entries := [?e], sh_held := [?e]\<rparr>)" (is "budget_step z s ?u")
      using budget_step.take [of "''t''" s now "''main''" z 1 "[?e]"] by (simp add: s_def no_slots_def)
    moreover have "budget_step z ?u (s\<lparr>sh_open := [?e]\<rparr>)"
      using budget_step.give_back [of ?e ?u z] by (simp add: s_def no_slots_def release_slot_def settle_slot_def slot_def)
    moreover have "budget_step z (s\<lparr>sh_open := [?e]\<rparr>) ((no_slots now)\<lparr>sh_late := replicate (Suc n) ?e\<rparr>)"
      using budget_step.speak_late [of ?e "s\<lparr>sh_open := [?e]\<rparr>" z] by (simp add: s_def no_slots_def)
    ultimately show ?case using Suc s_def by (meson rtranclp.rtrancl_into_rtrancl)
  qed (auto simp: no_slots_def)
  then show ?thesis by (auto simp: slot_def)
qed





text \<open>C22. A wake-up starts only when the owner's limits allow it: proactivity is not off, the goal it checks on is active,
  fewer than three messages in the conversation are unanswered and the wait after them is over, it is not a quiet hour unless the
  owner is up, and no turn is running there. Then it is marked running and holds a slot, with which today's slots are within the
  agent's and the common cap.\<close>

theorem wake_within_limits:
  assumes "consider_wake env now i s = (t, True)"
  defines "f \<equiv> facts_of env now i s"
  shows "effective_level (fa_level f) \<noteq> ''off'' \<and> (wi_kind i = ''objective'' \<longrightarrow> fa_objective_status f = Some ''active'')
    \<and> fa_unanswered f < MAX_UNANSWERED
    \<and> (\<forall>l. 0 < fa_unanswered f \<longrightarrow> fa_last_proactive_ms f = Some l \<longrightarrow> l + backoff_ms (fa_unanswered f) \<le> now)
    \<and> (quiet_until now (fa_zone f) (fa_quiet_start f) (fa_quiet_end f) \<noteq> None \<longrightarrow> owner_awake f)
    \<and> \<not> ev_busy env (wi_session_key i)
    \<and> (\<exists>w \<in> set (ag_items (sv_agenda t)). wi_id w = wi_id i \<and> wi_state w = Wake_running)
    \<and> slot (ev_token env (wi_id i)) (ev_profile env) now \<in> set (sv_budget t)
    \<and> length (today_entries (fa_zone f) now (sv_budget t)) \<le> GLOBAL_DAILY_CAP
    \<and> of_profile (ev_profile env) (today_entries (fa_zone f) now (sv_budget t)) \<le> DAILY_CAP_BY_LEVEL (effective_level (fa_level f))"
proof -
  have fields: "fa_now_ms f = now" "fa_is_objective f = (wi_kind i = ''objective'')" "fa_session_busy f = ev_busy env (wi_session_key i)"
    by (simp_all add: f_def facts_of_def Let_def split_beta)
  from assms(1) have run: "decide f = Run_wake"
    unfolding consider_wake_def Let_def f_def [symmetric] by (auto split: wake_decision.splits)
  from assms(1) obtain b token a w where r: "reserve (ev_token env (wi_id i)) (ev_profile env) (fa_zone f)
      (DAILY_CAP_BY_LEVEL (effective_level (fa_level f))) GLOBAL_DAILY_CAP now (sv_budget s) = (b, Some token)"
    and st: "start_item now (wi_id i) (sv_agenda s) = (a, Inr (Some w))" and t: "sv_agenda t = a" "sv_budget t = b"
    unfolding consider_wake_def Let_def f_def [symmetric] run by (auto split: prod.splits option.splits sum.splits)
  note d = decide_run [OF run] and sw = start_item_Some [OF st] and rw = reserve_within [OF r]
  have "\<exists>w \<in> set (ag_items (sv_agenda t)). wi_id w = wi_id i \<and> wi_state w = Wake_running" using sw t by auto
  with d(1-4,6) rw t fields d(5) show ?thesis by (simp only: simp_thms) blast
qed

definition demo_wake :: wake_item where
  "demo_wake = new_item 1000 ''01'' ''follow_up'' 2000 ''ask'' ''cli:a'' None True"

definition demo_env :: service_env where
  "demo_env = \<lparr>ev_profile = ''main'', ev_zone = (\<lambda>_. fixed_zone 0), ev_goal_status = (\<lambda>_. None), ev_busy = (\<lambda>_. False),
     ev_token = (\<lambda>k. ''t'' @ k)\<rparr>"

definition demo_service :: service where
  "demo_service = \<lparr>sv_agenda = empty_agenda\<lparr>ag_items := [demo_wake]\<rparr>, sv_budget = [], sv_running = []\<rparr>"

theorem wake_within_limits_witness:
  "\<exists>t. consider_wake demo_env (12 * 60 * 60 * 1000) demo_wake demo_service = (t, True)
     \<and> length (today_entries (fixed_zone 0) (12 * 60 * 60 * 1000) (sv_budget t)) \<le> GLOBAL_DAILY_CAP"
proof -
  have "snd (consider_wake demo_env (12 * 60 * 60 * 1000) demo_wake demo_service)" by code_simp
  then obtain t where t: "consider_wake demo_env (12 * 60 * 60 * 1000) demo_wake demo_service = (t, True)"
    by (cases "consider_wake demo_env (12 * 60 * 60 * 1000) demo_wake demo_service") simp
  have "fa_zone (facts_of demo_env (12 * 60 * 60 * 1000) demo_wake demo_service) = fixed_zone 0"
    by (simp add: facts_of_def demo_env_def Let_def split_beta)
  with wake_within_limits [OF t] t show ?thesis by auto
qed

lemma tick_due_cases:
  assumes "agenda_ok scan (sv_agenda s)" "length (sv_running (tick_wakes env now s)) < MAX_CONCURRENT_WAKES"
    "j \<in> set (due_items now (sv_agenda (tick_wakes env now s)))" "z = ev_zone env (as_timezone (ag_settings (sv_agenda s)))"
  shows "occupied (tick_wakes env now s) j \<or> clock_ahead z now (wi_due_at j)"
proof -
  let ?due = "due_items now (sv_agenda s)" and ?t = "tick_wakes env now s"
  have d: "inj_on wi_id (set (ag_items (sv_agenda s)))" using assms(1) by (simp add: agenda_ok_def items_ok_def distinct_map)
  have mem: "set (due_items now a) = {i \<in> set (ag_items a). is_due now i}" for a by (auto simp: due_items_def pending_items_def)
  then have "same_sessions ?due (sv_agenda s)" using d by (auto simp: same_sessions_def inj_on_def)
  note all = consider_all_serves [OF assms(4,1) order_refl this tick_wakes_def assms(2)]
  have j: "j \<in> set (ag_items (sv_agenda ?t))" "is_due now j" using assms(3) mem by auto
  with all have "occupied ?t j \<or> clock_ahead z now (wi_due_at j) \<or> wi_id j \<notin> wi_id ` set ?due \<and> j \<in> set (ag_items (sv_agenda s))" by blast
  then show ?thesis using j(2) mem by (auto simp: occupied_def)
qed


lemma tick_serves_due_forward:
  assumes "agenda_ok scan (sv_agenda s)" "length (sv_running (tick_wakes env now s)) < MAX_CONCURRENT_WAKES"
    "j \<in> set (due_items now (sv_agenda (tick_wakes env now s)))" "forward_zone (ev_zone env (as_timezone (ag_settings (sv_agenda s))))"
  shows "occupied (tick_wakes env now s) j"
  using tick_due_cases [OF assms(1-3) refl] forward_zone.ahead_later [OF assms(4)] assms(3)
  by (force simp: due_items_def)

definition demo_agenda :: agenda where
  "demo_agenda = fst (schedule (\<lambda>_. None) 1000 ''02'' ''follow_up'' 3000 ''then this'' ''cli:a'' None True
     (fst (schedule (\<lambda>_. None) 1000 ''01'' ''follow_up'' 2000 ''ask'' ''cli:a'' None True empty_agenda)))"

lemma demo_agenda_steps: "(agenda_step (\<lambda>_. None))\<^sup>*\<^sup>* empty_agenda demo_agenda"
proof -
  let ?one = "fst (schedule (\<lambda>_. None) 1000 ''01'' ''follow_up'' 2000 ''ask'' ''cli:a'' None True empty_agenda)"
  have "''wk_'' @ ''01'' \<notin> wi_id ` set (ag_items empty_agenda)" "''wk_'' @ ''02'' \<notin> wi_id ` set (ag_items ?one)" by code_simp+
  then have "agenda_step (\<lambda>_. None) empty_agenda ?one" "agenda_step (\<lambda>_. None) ?one demo_agenda"
    unfolding demo_agenda_def by (blast intro: agenda_step.scheduled)+
  then show ?thesis by (meson rtranclp.rtrancl_into_rtrancl rtranclp.rtrancl_refl)
qed





text \<open>C24. Whatever the owner and the agent do, the agenda stays within its caps: at most forty wake-ups, six follow-ups per
  conversation, a hundred records and two hundred conversations; every wake-up has attempts left, belongs to a conversation of the owner
  and has a note that passed the checks.\<close>

theorem agenda_bounded:
  assumes "(agenda_step scan)\<^sup>*\<^sup>* empty_agenda a"
  shows "length (ag_items a) \<le> MAX_PENDING \<and> length (ag_history a) \<le> MAX_HISTORY \<and> length (ag_conversations a) \<le> MAX_CONVERSATIONS
    \<and> (\<forall>k. length (filter (follow_up_in k) (ag_items a)) \<le> MAX_FOLLOW_UPS_PER_CONVERSATION) \<and> distinct (map wi_id (ag_items a))
    \<and> (\<forall>i \<in> set (ag_items a). wi_attempts i < MAX_ATTEMPTS \<and> is_owner_conversation (wi_session_key i)
        \<and> wi_note i \<noteq> '''' \<and> length (wi_note i) \<le> MAX_NOTE \<and> \<not> truthy (scan (wi_note i)))"
proof -
  have ok: "agenda_ok scan a" using agendas.reachable_good [OF _ assms] by blast
  then have "wi_note i \<noteq> '''' \<and> length (wi_note i) \<le> MAX_NOTE \<and> \<not> truthy (scan (wi_note i))" if "i \<in> set (ag_items a)" for i
    using that clean_string_Inr [of scan MAX_NOTE "''note''" True True "wi_note i" "wi_note i"]
    by (auto simp: agenda_ok_def items_ok_def item_ok_def clean_note_def)
  with ok show ?thesis by (auto simp: agenda_ok_def items_ok_def item_ok_def)
qed

theorem agenda_bounded_witness:
  "length (ag_items demo_agenda) = 2 \<and> length (filter (follow_up_in ''cli:a'') (ag_items demo_agenda)) \<le> MAX_FOLLOW_UPS_PER_CONVERSATION"
proof -
  have "length (ag_items demo_agenda) = 2" by code_simp
  with agenda_bounded [OF demo_agenda_steps] show ?thesis by blast
qed

text \<open>The goals file stays within its caps, with at most twenty open goals, and everything in it that a later prompt may
  show was bounded and passed the scan for injected instructions.\<close>

theorem goals_bounded:
  assumes "(objective_step scan)\<^sup>*\<^sup>* no_objectives d"
  shows "length (of_objectives d) \<le> MAX_STORED_OBJECTIVES \<and> open_count (of_objectives d) \<le> MAX_ACTIVE_OBJECTIVES
    \<and> (\<forall>g \<in> set (of_objectives d). o_status g \<in> set STATUSES \<and> passed scan MAX_TITLE (o_title g) \<and> passed scan MAX_WHY (o_why g)
        \<and> passed scan MAX_STAGE (o_stage g) \<and> passed scan MAX_CADENCE (o_cadence g) \<and> passed scan MAX_UNIT (pr_unit (o_progress g))
        \<and> length (o_plan g) \<le> MAX_STEPS \<and> (\<forall>s \<in> set (o_plan g). passed scan MAX_STEP (gs_text s))
        \<and> length (o_log g) \<le> MAX_LOG_ENTRIES \<and> (\<forall>e \<in> set (o_log g). le_text e \<in> set STATUSES \<or> passed scan MAX_LOG_TEXT (le_text e)))"
proof -
  have "goals_ok scan d" using objectives.reachable_good [OF _ assms] by blast
  then show ?thesis by (auto simp: goals_ok_def goal_ok_def list_all_iff step_ok_def entry_ok_def)
qed

definition demo_request :: goal_request where
  "demo_request = \<lparr>rq_title = PStr ''Read a book'', rq_category = ''learning'', rq_why = PNone, rq_plan = Items [Step_text ''choose one''],
     rq_stage = PNone, rq_cadence = PNone, rq_target = PNone, rq_current = PNone, rq_unit = PStr ''chapters'', rq_ends_at = PNone,
     rq_session_key = ''cli:a'', rq_created_by = ''agent''\<rparr>"

definition demo_goals :: objective_file where
  "demo_goals = fst (create_goal (\<lambda>_. None) 1000 ''01'' demo_request no_objectives)"

lemma demo_goals_steps: "(objective_step (\<lambda>_. None))\<^sup>*\<^sup>* no_objectives demo_goals"
proof -
  have "''obj_'' @ ''01'' \<notin> o_id ` set (of_objectives no_objectives)" by code_simp
  then show ?thesis unfolding demo_goals_def by (intro r_into_rtranclp objective_step.created)
qed

theorem goals_bounded_witness:
  "map o_title (of_objectives demo_goals) = [''Read a book''] \<and> open_count (of_objectives demo_goals) \<le> MAX_ACTIVE_OBJECTIVES"
proof -
  have "map o_title (of_objectives demo_goals) = [''Read a book'']" by code_simp
  with goals_bounded [OF demo_goals_steps] show ?thesis by blast
qed

text \<open>C25. Undo brings a check-in back: pausing, finishing or dropping a goal removes its check-in and touches no other wake-up, and
  resuming the goal while the time of the check-in is ahead gives it one with that time and note, in the conversation of the goal, and
  makes the goal active again.\<close>

theorem undo_restores_check_in:
  fixes now later :: int and hex hex' :: string
  assumes "goals_ok (en_scan env) (tk_goals s)" "agenda_ok (en_scan env) (tk_agenda s)"
    "get_goal k (tk_goals s) = Some g" "o_status g = ''active''" "goal_id_of (PStr k) = Inr k"
    "clean_session_key (o_sessionKey g) = Inr (o_sessionKey g)" "is_owner_conversation (o_sessionKey g)"
    "filter (check_in_of (Some k)) (ag_items (tk_agenda s)) = [i]" "action \<in> {''pause'', ''done'', ''drop''}" "later < wi_due_at i"
  defines "s1 \<equiv> fst (objectives_update env now hex (owner_asks k action) s)"
  defines "s2 \<equiv> fst (objectives_update env later hex' (owner_asks k ''resume'') s1)"
  shows "ag_items (tk_agenda s1) = filter (\<lambda>j. \<not> check_in_of (Some k) j) (ag_items (tk_agenda s))
    \<and> (\<exists>j. ag_items (tk_agenda s2) = ag_items (tk_agenda s1) @ [j] \<and> check_in_of (Some k) j \<and> wi_due_at j = wi_due_at i \<and> wi_note j = wi_note i
        \<and> wi_session_key j = o_sessionKey g)
    \<and> (\<exists>h. get_goal k (tk_goals s2) = Some h \<and> o_status h = ''active'')"
proof -
  let ?a = "tk_agenda s" and ?P = "check_in_of (Some k)"
  have i: "i \<in> set (ag_items ?a)" "?P i" using assms(8) by (auto simp: filter_eq_Cons_iff)
  define b where "b = fst (cancel_for_objective now k (''owner_'' @ action) ?a)"
  obtain e status where u: "objectives_update env now hex (owner_asks k action) s =
      (s\<lparr>tk_goals := e, tk_agenda := b\<rparr>, Inr (Shown (with_status now status g) None))"
    and e: "get_goal k e = Some (with_status now status g)" "length (of_objectives e) \<le> MAX_STORED_OBJECTIVES"
      "status \<in> set OPEN_STATUSES \<or> open_count (of_objectives e) < MAX_ACTIVE_OBJECTIVES"
    unfolding b_def by (rule take_away_run [OF assms(1,3,4,5,9) refl])
  have s1: "tk_goals s1 = e" "tk_agenda s1 = b" by (simp_all add: s1_def u)
  have items: "ag_items b = filter (\<lambda>j. \<not> ?P j) (ag_items ?a)" by (simp add: b_def cancel_for_objective_run retire_def)
  obtain hist where hist: "ag_history b = hist @ [settled ''cancelled'' (Some (''owner_'' @ action)) now i]"
    using cancelled_history [OF assms(8)] unfolding b_def by blast
  have note_ok: "clean_note (en_scan env) MAX_NOTE (wi_note i) = Inr (wi_note i)"
    using assms(2) i(1) by (auto simp: agenda_ok_def items_ok_def item_ok_def)
  have room: "length (ag_items b) < MAX_PENDING"
    using filter_one_less [OF assms(8)] assms(2) unfolding items by (auto simp: agenda_ok_def items_ok_def)
  let ?j = "new_item later hex' ''objective'' (wi_due_at i) (wi_note i) (o_sessionKey g) (Some k) False"
  note restored = restored_check_in [OF assms(6,7) _ hist check_in_id [OF i(2)] assms(10) note_ok room,
      of hex' RESUME_CHECK_IN_DELAY_MS RESUMED_CHECK_IN_NOTE]
  have none: "filter ?P (ag_items b) = []" unfolding items by simp
  obtain e' where "objectives_update env later hex' (owner_asks k ''resume'') s1 =
      (s1\<lparr>tk_goals := e', tk_agenda := written (b\<lparr>ag_items := ag_items b @ [?j]\<rparr>)\<rparr>,
       Inr (Shown (with_status later ''active'' (with_status now status g)) (next_check_at k (written (b\<lparr>ag_items := ag_items b @ [?j]\<rparr>)))))"
    "get_goal k e' = Some (with_status later ''active'' (with_status now status g))"
    by (rule resume_run [of s1 k "with_status now status g" env "en_scan env" later hex', OF _ _ _ assms(5) refl])
      (use e s1 restored [OF none] in auto)
  then show ?thesis by (simp add: s2_def s1 items check_in_of_def is_pending_def)
qed

definition demo_goal :: objective where
  "demo_goal = \<lparr>o_id = ''obj_01'', o_title = ''Read'', o_category = ''learning'', o_why = '''', o_plan = [], o_stage = '''', o_cadence = '''',
     o_progress = \<lparr>pr_current = None, pr_target = None, pr_unit = ''''\<rparr>, o_status = ''active'', o_endsAt = None, o_sessionKey = ''cli:a'',
     o_createdBy = ''agent'', o_createdAt = 1000, o_updatedAt = 1000, o_closedAt = None, o_log = []\<rparr>"

definition demo_check_in :: wake_item where
  "demo_check_in = new_item 1000 ''07'' ''objective'' 90000000 ''how far?'' ''cli:a'' (Some ''obj_01'') False"

definition demo_tracker :: tracker where
  "demo_tracker = \<lparr>tk_goals = \<lparr>of_revision = 1, of_objectives = [demo_goal]\<rparr>, tk_agenda = empty_agenda\<lparr>ag_items := [demo_check_in]\<rparr>\<rparr>"

definition demo_tracker_env :: tracker_env where
  "demo_tracker_env = \<lparr>en_scan = (\<lambda>_. None), en_zone = (\<lambda>_. fixed_zone 0), en_iso = (\<lambda>_. None), en_describe = (\<lambda>_ _. ''soon''), en_calling = ''cli:a''\<rparr>"

lemma demo_check_in_ok: "item_ok (\<lambda>_. None) demo_check_in" "check_in_of (Some ''obj_01'') demo_check_in" "wi_due_at demo_check_in = 90000000"
  by code_simp+

lemma demo_tracker_ok: "goals_ok (\<lambda>_. None) (tk_goals demo_tracker)" "agenda_ok (\<lambda>_. None) (tk_agenda demo_tracker)"
proof -
  show "goals_ok (\<lambda>_. None) (tk_goals demo_tracker)" by code_simp
  have "items_ok (\<lambda>_. None) ([] @ [demo_check_in])"
    by (rule items_ok_add) (simp_all add: demo_check_in_ok, simp_all add: items_ok_def demo_check_in_def MAX_PENDING_def)
  then show "agenda_ok (\<lambda>_. None) (tk_agenda demo_tracker)"
    using empty_agenda_ok [of "\<lambda>_. None"] by (simp add: demo_tracker_def agenda_ok_def empty_agenda_def)
qed

theorem undo_restores_check_in_witness:
  "\<exists>j. ag_items (tk_agenda (fst (objectives_update demo_tracker_env 3000 ''09'' (owner_asks ''obj_01'' ''resume'')
     (fst (objectives_update demo_tracker_env 2000 ''08'' (owner_asks ''obj_01'' ''pause'') demo_tracker))))) = [j] \<and> wi_due_at j = 90000000"
proof -
  have g: "get_goal ''obj_01'' (tk_goals demo_tracker) = Some demo_goal" "o_status demo_goal = ''active''" "o_sessionKey demo_goal = ''cli:a''"
    by (simp_all add: get_goal_def find_goal_def demo_tracker_def demo_goal_def)
  have key: "clean_session_key ''cli:a'' = Inr ''cli:a''" "is_owner_conversation ''cli:a''" "goal_id_of (PStr ''obj_01'') = Inr ''obj_01''" by code_simp+
  have one: "ag_items (tk_agenda demo_tracker) = [demo_check_in]" by (simp add: demo_tracker_def)
  from undo_restores_check_in [of demo_tracker_env demo_tracker "''obj_01''" demo_goal demo_check_in "''pause''" 3000 2000 "''08''" "''09''"]
  show ?thesis using demo_tracker_ok g key demo_check_in_ok one by (auto simp: demo_tracker_env_def)
qed

text \<open>A turn that speaks after the service stopped waiting for it is counted as unanswered, but takes no slot of the day.\<close>

lemma late_turn_uncounted: "sv_budget (late_turn now k key msg s) = sv_budget s"
  by (simp add: late_turn_def)

text \<open>A goal may come to have two pending check-ins: one that was running when the next was planned goes back to pending
  after its turn failed.\<close>

lemma two_check_ins:
  "let scan = (\<lambda>_. None); a = fst (schedule scan 1 ''01'' ''objective'' 5 ''look'' ''cli:a'' (Some ''g'') False empty_agenda);
       b = fst (start_item 6 ''wk_01'' a);
       c = fst (schedule scan 7 ''02'' ''objective'' 9 ''again'' ''cli:a'' (Some ''g'') False b)
   in map wi_id (filter (check_in_of (Some ''g'')) (ag_items (fst (retry_or_give_up 8 ''wk_01'' ''timeout'' c)))) = [''wk_01'', ''wk_02'']"
  by code_simp

text \<open>Creating a goal with a first check-in keeps the goal when the agenda has no room for the check-in, although it answers with an error.\<close>

lemma create_kept_on_error:
  "let s = \<lparr>tk_goals = no_objectives, tk_agenda = empty_agenda\<lparr>ag_items := replicate 40 demo_wake\<rparr>\<rparr>;
       a = \<lparr>oa_request = demo_request, oa_ends = '''', oa_next_check = ''+2h'', oa_check_note = ''look'', oa_conversation = ''''\<rparr>;
       (t, answer) = tool_create demo_tracker_env 1000 ''01'' ''02'' a s
   in map o_id (of_objectives (tk_goals t)) = [''obj_01''] \<and> answer = Inl (Refused (Objective_error ''LIMIT'' ''The agenda already holds 40 follow-ups.''))"
  by code_simp

end
