(* ===== verification/Pairing_Store.thy ===== *)
theory Pairing_Store
  imports Prelude
begin

text \<open>
  Who may talk to the agent: pairing codes and the list of senders that were let in (\<open>pairing/store.py\<close>), and the
  checks of the Telegram and iMessage channels (\<open>channels/telegram.py\<close>, \<open>imessage.py\<close>, \<open>base.py\<close>). The state is the two
  files of one channel. Instants are microseconds; the text of an instant and its reading back
  (\<open>datetime.isoformat\<close>, \<open>fromisoformat\<close>) and the random codes are inputs.
\<close>

section \<open>Requests\<close>

definition PAIRING_CODE_LENGTH :: nat where "PAIRING_CODE_LENGTH = 8"
definition PAIRING_CODE_ALPHABET :: string where "PAIRING_CODE_ALPHABET = ''ABCDEFGHJKLMNPQRSTUVWXYZ23456789''"
definition PAIRING_TTL :: int where "PAIRING_TTL = 60 * 60 * 1000000"
definition PAIRING_MAX_PENDING :: nat where "PAIRING_MAX_PENDING = 3"

record pairing_request =
  pq_id :: string
  pq_code :: string
  pq_created_at :: string
  pq_last_seen_at :: string
  pq_meta :: "(string \<times> string) list"

record pairing_files =
  pf_requests :: "pairing_request list"
  pf_allow_from :: "string list"

definition no_pairings :: pairing_files where
  "no_pairings = \<lparr>pf_requests = [], pf_allow_from = []\<rparr>"

record clock_texts =
  ct_text :: "int \<Rightarrow> string"
  ct_time :: "string \<Rightarrow> int option"

definition str_upper :: "string \<Rightarrow> string" where
  "str_upper s = map char_upper s"

section \<open>Pending requests\<close>

text \<open>The codes drawn by \<open>secrets.choice\<close>, one after the other.\<close>

definition generate_code :: "string list \<Rightarrow> string set \<Rightarrow> string + string" where
  "generate_code draws existing =
     (case find (\<lambda>c. c \<notin> existing) (take 500 draws) of
        None \<Rightarrow> Inl ''Failed to generate unique pairing code''
      | Some c \<Rightarrow> Inr c)"

definition is_expired :: "clock_texts \<Rightarrow> int \<Rightarrow> pairing_request \<Rightarrow> bool" where
  "is_expired ct now r = (case ct_time ct (pq_created_at r) of None \<Rightarrow> True | Some t \<Rightarrow> PAIRING_TTL < now - t)"

definition prune_requests :: "clock_texts \<Rightarrow> int \<Rightarrow> pairing_request list \<Rightarrow> pairing_request list \<times> bool" where
  "prune_requests ct now rs =
     (let live = filter (\<lambda>r. \<not> is_expired ct now r) rs;
          kept = (if PAIRING_MAX_PENDING < length live then last_n PAIRING_MAX_PENDING (sort_key pq_last_seen_at live) else live)
      in (kept, length kept \<noteq> length rs))"

definition list_pairing_requests :: "clock_texts \<Rightarrow> int \<Rightarrow> pairing_files \<Rightarrow> pairing_files \<times> pairing_request list" where
  "list_pairing_requests ct now p =
     (case prune_requests ct now (pf_requests p) of
        (kept, modified) \<Rightarrow> (if modified then p\<lparr>pf_requests := kept\<rparr> else p, sort_key pq_created_at kept))"

text \<open>The request of a sender that has one, seen again.\<close>

fun seen_again :: "string \<Rightarrow> string \<Rightarrow> (string \<times> string) list \<Rightarrow> pairing_request list \<Rightarrow> pairing_request list" where
  "seen_again k now_text meta [] = []"
| "seen_again k now_text meta (r # rs) =
     (if pq_id r = k then r\<lparr>pq_last_seen_at := now_text, pq_meta := (if meta = [] then pq_meta r else meta)\<rparr> # rs
      else r # seen_again k now_text meta rs)"

definition upsert_pairing_request ::
    "clock_texts \<Rightarrow> int \<Rightarrow> string list \<Rightarrow> string \<Rightarrow> (string \<times> string) list \<Rightarrow> pairing_files \<Rightarrow> pairing_files \<times> (string + string \<times> bool)" where
  "upsert_pairing_request ct now draws k meta p =
     (let rs = fst (prune_requests ct now (pf_requests p)); now_text = ct_text ct now in
      case find (\<lambda>r. pq_id r = k) rs of
        Some r \<Rightarrow> (p\<lparr>pf_requests := seen_again k now_text meta rs\<rparr>, Inr (pq_code r, False))
      | None \<Rightarrow>
          if PAIRING_MAX_PENDING \<le> length rs then (p, Inr ('''', False))
          else case generate_code draws ((\<lambda>r. str_upper (pq_code r)) ` set rs) of
              Inl e \<Rightarrow> (p, Inl e)
            | Inr code \<Rightarrow> (p\<lparr>pf_requests := rs @ [\<lparr>pq_id = k, pq_code = code, pq_created_at = now_text, pq_last_seen_at = now_text, pq_meta = meta\<rparr>]\<rparr>,
                Inr (code, True)))"

section \<open>The list of senders\<close>

definition read_allow_from_store :: "pairing_files \<Rightarrow> string list" where
  "read_allow_from_store p = map strip (filter (\<lambda>e. e \<noteq> '''') (pf_allow_from p))"

definition add_allow_from_entry :: "string \<Rightarrow> pairing_files \<Rightarrow> pairing_files \<times> bool" where
  "add_allow_from_entry entry p =
     (let e = strip entry; allow = read_allow_from_store p in
      if e = '''' then (p, False)
      else if e \<in> set allow then (p, False)
      else (p\<lparr>pf_allow_from := allow @ [e]\<rparr>, True))"

definition remove_allow_from_entry :: "string \<Rightarrow> pairing_files \<Rightarrow> pairing_files \<times> bool" where
  "remove_allow_from_entry entry p =
     (let e = strip entry; allow = read_allow_from_store p in
      if e = '''' then (p, False)
      else if e \<notin> set allow then (p, False)
      else (p\<lparr>pf_allow_from := remove1 e allow\<rparr>, True))"

definition approve_pairing_code :: "clock_texts \<Rightarrow> int \<Rightarrow> string \<Rightarrow> pairing_files \<Rightarrow> pairing_files \<times> pairing_request option" where
  "approve_pairing_code ct now code p =
     (let c = str_upper (strip code); rs = fst (prune_requests ct now (pf_requests p));
          matching = filter (\<lambda>r. str_upper (pq_code r) = c) rs
      in if c = '''' then (p, None)
         else if matching = [] then (p, None)
         else let approved = last matching
           in (fst (add_allow_from_entry (pq_id approved) (p\<lparr>pf_requests := filter (\<lambda>r. str_upper (pq_code r) \<noteq> c) rs\<rparr>)), Some approved))"

section \<open>The channels\<close>

definition split_bar :: "string \<Rightarrow> string list" where
  "split_bar s = foldr (\<lambda>c acc. if c = CHR ''|'' then [] # acc else (c # hd acc) # tl acc) s [[]]"

text \<open>The check every channel makes before it publishes a message.\<close>

definition base_is_allowed :: "string list \<Rightarrow> string \<Rightarrow> bool" where
  "base_is_allowed allow_list sender =
     (allow_list = [] \<or> sender \<in> set allow_list
      \<or> CHR ''|'' \<in> set sender \<and> list_ex (\<lambda>part. part \<noteq> '''' \<and> part \<in> set allow_list) (split_bar sender))"

definition telegram_sender_allowed :: "string \<Rightarrow> string list \<Rightarrow> pairing_files \<Rightarrow> string \<Rightarrow> string option \<Rightarrow> bool" where
  "telegram_sender_allowed dm_policy config_allow p user_id username =
     (if dm_policy = ''open'' then True
      else let all_allowed = set config_allow \<union> set (read_allow_from_store p) in
        user_id \<in> all_allowed \<or> truthy username \<and> (the username \<in> all_allowed \<or> ''@'' @ the username \<in> all_allowed)
        \<or> ''telegram:'' @ user_id \<in> all_allowed)"

definition telegram_sender_id :: "string \<Rightarrow> string option \<Rightarrow> string" where
  "telegram_sender_id user_id username = (if truthy username then user_id @ ''|'' @ the username else user_id)"

datatype pairing_answer = Let_in | Silent | Code_sent string | Too_many | Waiting

definition handle_pairing ::
    "clock_texts \<Rightarrow> int \<Rightarrow> string list \<Rightarrow> string \<Rightarrow> string list \<Rightarrow> string \<Rightarrow> string option \<Rightarrow> (string \<times> string) list \<Rightarrow> pairing_files
      \<Rightarrow> pairing_files \<times> (string + pairing_answer)" where
  "handle_pairing ct now draws dm_policy config_allow user_id username names p =
     (if telegram_sender_allowed dm_policy config_allow p user_id username then (p, Inr Let_in)
      else if dm_policy = ''allowlist'' then (p, Inr Silent)
      else let meta = (if truthy username then [(''username'', the username)] else []) @ names
        in case upsert_pairing_request ct now draws user_id meta p of
             (q, Inl e) \<Rightarrow> (q, Inl e)
           | (q, Inr (code, created)) \<Rightarrow> (q, Inr (if created \<and> code \<noteq> '''' then Code_sent code else if code = '''' then Too_many else Waiting)))"

text \<open>A message is published when the pairing check and the check of the channel both let it through.\<close>

definition telegram_publishes :: "string \<Rightarrow> string list \<Rightarrow> pairing_files \<Rightarrow> string \<Rightarrow> string option \<Rightarrow> bool" where
  "telegram_publishes dm_policy config_allow p user_id username \<longleftrightarrow>
     telegram_sender_allowed dm_policy config_allow p user_id username
     \<and> base_is_allowed config_allow (telegram_sender_id user_id username)"

definition imessage_is_allowed :: "string \<Rightarrow> string list \<Rightarrow> pairing_files \<Rightarrow> string \<Rightarrow> bool" where
  "imessage_is_allowed dm_policy config_allow p sender =
     (if dm_policy = ''open'' then True
      else let allowed = set config_allow \<union> set (read_allow_from_store p) in sender \<in> allowed \<or> ''imessage:'' @ sender \<in> allowed)"

definition check_dm_access ::
    "clock_texts \<Rightarrow> int \<Rightarrow> string list \<Rightarrow> string \<Rightarrow> string list \<Rightarrow> bool \<Rightarrow> string \<Rightarrow> string \<Rightarrow> pairing_files \<Rightarrow> pairing_files \<times> (string + pairing_answer)" where
  "check_dm_access ct now draws dm_policy config_allow is_group chat sender p =
     (if imessage_is_allowed dm_policy config_allow p sender then (p, Inr Let_in)
      else if dm_policy = ''allowlist'' \<or> is_group then (p, Inr Silent)
      else case upsert_pairing_request ct now draws sender [(''chat'', chat)] p of
          (q, Inl e) \<Rightarrow> (q, Inl e)
        | (q, Inr (code, created)) \<Rightarrow> (q, Inr (if created \<and> code \<noteq> '''' then Code_sent code else Waiting)))"

end
