(* ===== verification/Pairing_Properties.thy ===== *)
theory Pairing_Properties
  imports Pairing_Store
begin

text \<open>
  Who is let in over time. A run remembers which codes were sent to whom and when, what the owner typed when an approval
  was granted, and whom the owner added by hand; the files remember none of that.
\<close>

section \<open>Runs\<close>

record pairing_world =
  pw_files :: pairing_files
  pw_now :: int
  pw_issued :: "(string \<times> string \<times> int) set"
  pw_approved :: "(string \<times> int) set"
  pw_added :: "string set"

definition new_world :: "int \<Rightarrow> pairing_world" where
  "new_world now = \<lparr>pw_files = no_pairings, pw_now = now, pw_issued = {}, pw_approved = {}, pw_added = {}\<rparr>"

definition valid_code :: "string \<Rightarrow> bool" where
  "valid_code c \<longleftrightarrow> length c = PAIRING_CODE_LENGTH \<and> set c \<subseteq> set PAIRING_CODE_ALPHABET"

inductive pairing_event :: "clock_texts \<Rightarrow> pairing_world \<Rightarrow> pairing_world \<Rightarrow> bool" for ct where
  pass: "pw_now w \<le> t \<Longrightarrow> pairing_event ct w (w\<lparr>pw_now := t\<rparr>)"
| asks: "list_all valid_code draws \<Longrightarrow> upsert_pairing_request ct (pw_now w) draws k meta (pw_files w) = (p, Inr (code, created)) \<Longrightarrow>
    pairing_event ct w (w\<lparr>pw_files := p, pw_issued := (if created then insert (code, k, pw_now w) (pw_issued w) else pw_issued w)\<rparr>)"
| lists: "pairing_event ct w (w\<lparr>pw_files := fst (list_pairing_requests ct (pw_now w) (pw_files w))\<rparr>)"
| approves: "approve_pairing_code ct (pw_now w) code (pw_files w) = (p, Some r) \<Longrightarrow>
    pairing_event ct w (w\<lparr>pw_files := p, pw_approved := insert (code, pw_now w) (pw_approved w)\<rparr>)"
| mistypes: "approve_pairing_code ct (pw_now w) code (pw_files w) = (p, None) \<Longrightarrow> pairing_event ct w (w\<lparr>pw_files := p\<rparr>)"
| adds: "pairing_event ct w (w\<lparr>pw_files := fst (add_allow_from_entry e (pw_files w)), pw_added := insert (strip e) (pw_added w)\<rparr>)"
| removes: "pairing_event ct w (w\<lparr>pw_files := fst (remove_allow_from_entry e (pw_files w))\<rparr>)"

text \<open>The owner added the sender, or typed the code that was sent to them, up to case and blanks around it, within an
  hour of its being sent.\<close>

definition invited :: "pairing_world \<Rightarrow> string \<Rightarrow> bool" where
  "invited w e \<longleftrightarrow> e \<in> pw_added w \<or> (\<exists>code typed k t u. (code, k, t) \<in> pw_issued w \<and> (typed, u) \<in> pw_approved w
     \<and> str_upper (strip typed) = str_upper code \<and> e = strip k \<and> t \<le> u \<and> u - t \<le> PAIRING_TTL)"

definition requests_ok :: "clock_texts \<Rightarrow> int \<Rightarrow> (string \<times> string \<times> int) set \<Rightarrow> pairing_request list \<Rightarrow> bool" where
  "requests_ok ct now issued rs \<longleftrightarrow> length rs \<le> PAIRING_MAX_PENDING \<and> distinct (map (\<lambda>r. str_upper (pq_code r)) rs) \<and> distinct (map pq_id rs)
     \<and> (\<forall>r \<in> set rs. \<exists>t. (pq_code r, pq_id r, t) \<in> issued \<and> pq_created_at r = ct_text ct t \<and> t \<le> now)"

definition pairing_inv :: "clock_texts \<Rightarrow> pairing_world \<Rightarrow> bool" where
  "pairing_inv ct w \<longleftrightarrow> requests_ok ct (pw_now w) (pw_issued w) (pf_requests (pw_files w))
     \<and> (\<forall>e \<in> set (read_allow_from_store (pw_files w)). invited w e)"

section \<open>Requests\<close>

lemma requests_ok_part:
  "requests_ok ct now iss rs \<Longrightarrow> requests_ok ct now iss (filter P rs)"
  by (auto simp: requests_ok_def distinct_map_filter intro: le_trans [OF length_filter_le])

lemma prune_kept: "length rs \<le> PAIRING_MAX_PENDING \<Longrightarrow> fst (prune_requests ct now rs) = filter (\<lambda>r. \<not> is_expired ct now r) rs"
  using le_trans [OF length_filter_le, of rs PAIRING_MAX_PENDING "\<lambda>r. \<not> is_expired ct now r"]
  by (simp add: prune_requests_def Let_def)

lemma prune_requests_ok:
  "requests_ok ct now iss rs \<Longrightarrow> requests_ok ct now iss (fst (prune_requests ct now rs))"
  by (simp add: prune_kept requests_ok_part requests_ok_def [THEN iffD1, THEN conjunct1])

lemma seen_again_keys: "map pq_id (seen_again k n m rs) = map pq_id rs" "map pq_code (seen_again k n m rs) = map pq_code rs"
    "map pq_created_at (seen_again k n m rs) = map pq_created_at rs"
  by (induction rs) auto

lemma valid_upper: "valid_code c \<Longrightarrow> str_upper c = c"
proof -
  have "\<forall>x \<in> set PAIRING_CODE_ALPHABET. char_upper x = x" by code_simp
  then show "valid_code c \<Longrightarrow> str_upper c = c" by (auto simp: valid_code_def str_upper_def intro!: map_idI)
qed

definition ticket :: "pairing_request \<Rightarrow> string \<times> string \<times> string" where
  "ticket r = (pq_code r, pq_id r, pq_created_at r)"

lemma requests_ok_tickets:
  assumes "map ticket rs = map ticket qs" "requests_ok ct now iss rs"
  shows "requests_ok ct now iss qs"
proof -
  have ids: "map pq_id rs = map pq_id qs" and codes: "map (\<lambda>r. str_upper (pq_code r)) rs = map (\<lambda>r. str_upper (pq_code r)) qs"
    using arg_cong [OF assms(1), of "map (fst \<circ> snd)"] arg_cong [OF assms(1), of "map (str_upper \<circ> fst)"] by (simp_all add: ticket_def o_def)
  have "\<exists>t. (pq_code q, pq_id q, t) \<in> iss \<and> pq_created_at q = ct_text ct t \<and> t \<le> now" if "q \<in> set qs" for q
  proof -
    have "ticket q \<in> set (map ticket rs)" using assms(1) that by simp
    then obtain r where r: "r \<in> set rs" "ticket r = ticket q" by auto
    from assms(2) r(1) have "\<exists>t. (pq_code r, pq_id r, t) \<in> iss \<and> pq_created_at r = ct_text ct t \<and> t \<le> now" by (simp add: requests_ok_def)
    with r(2) show ?thesis by (simp add: ticket_def)
  qed
  moreover have "length qs \<le> PAIRING_MAX_PENDING" using assms(2) map_eq_imp_length_eq [OF assms(1)] by (simp add: requests_ok_def)
  moreover have "distinct (map pq_id qs)" "distinct (map (\<lambda>r. str_upper (pq_code r)) qs)"
    using assms(2) unfolding requests_ok_def ids codes by blast+
  ultimately show ?thesis unfolding requests_ok_def by blast
qed

lemma seen_again_tickets: "map ticket (seen_again k n m rs) = map ticket rs"
  by (induction rs) (auto simp: ticket_def)

lemma requests_ok_mono: "requests_ok ct now iss rs \<Longrightarrow> now \<le> t \<Longrightarrow> iss \<subseteq> iss' \<Longrightarrow> requests_ok ct t iss' rs"
  by (fastforce simp: requests_ok_def)

lemma upsert_ok:
  assumes "requests_ok ct now iss (pf_requests p)" "list_all valid_code draws"
    "upsert_pairing_request ct now draws k meta p = (q, Inr (code, created))"
  shows "requests_ok ct now (if created then insert (code, k, now) iss else iss) (pf_requests q)" "pf_allow_from q = pf_allow_from p"
proof -
  define rs where "rs = fst (prune_requests ct now (pf_requests p))"
  have rs: "requests_ok ct now iss rs" using prune_requests_ok [OF assms(1)] by (simp add: rs_def)
  show "requests_ok ct now (if created then insert (code, k, now) iss else iss) (pf_requests q)"
  proof (cases "find (\<lambda>r. pq_id r = k) rs")
    case None
    show ?thesis
    proof (cases "PAIRING_MAX_PENDING \<le> length rs")
      case False
      with None assms(3) have c: "generate_code draws ((\<lambda>r. str_upper (pq_code r)) ` set rs) = Inr code" "created"
        and q: "pf_requests q = rs @ [\<lparr>pq_id = k, pq_code = code, pq_created_at = ct_text ct now, pq_last_seen_at = ct_text ct now, pq_meta = meta\<rparr>]"
        by (auto simp: upsert_pairing_request_def Let_def simp flip: rs_def split: sum.splits)
      from c(1) have new: "code \<notin> (\<lambda>r. str_upper (pq_code r)) ` set rs" "code \<in> set draws"
        by (auto simp: generate_code_def find_Some_iff split: option.splits dest!: nth_mem dest: in_set_takeD)
      then have "str_upper code = code" using assms(2) valid_upper by (auto simp: list_all_iff)
      moreover have "k \<notin> pq_id ` set rs" using None by (auto simp: find_None_iff)
      ultimately show ?thesis using rs new(1) False c(2) by (fastforce simp: requests_ok_def q)
    qed (use None assms rs in \<open>auto simp: upsert_pairing_request_def Let_def simp flip: rs_def\<close>)
  next
    case (Some r)
    with assms(3) have "pf_requests q = seen_again k (ct_text ct now) meta rs" "\<not> created"
      by (auto simp: upsert_pairing_request_def Let_def simp flip: rs_def)
    with requests_ok_tickets [OF seen_again_tickets [symmetric] rs] show ?thesis by simp
  qed
  show "pf_allow_from q = pf_allow_from p"
    using assms(3) by (auto simp: upsert_pairing_request_def Let_def split: option.splits if_splits sum.splits)
qed

section \<open>The list of senders\<close>

lemma read_allow_strip: "e \<in> set (read_allow_from_store p) \<Longrightarrow> strip e = e"
  by (auto simp: read_allow_from_store_def)

lemma add_allow_read:
  "set (read_allow_from_store (fst (add_allow_from_entry e p))) \<subseteq> insert (strip e) (set (read_allow_from_store p))"
proof -
  have "map strip (filter (\<lambda>e. e \<noteq> '''') (read_allow_from_store p @ [strip e])) \<noteq> [] \<Longrightarrow>
      set (map strip (filter (\<lambda>e. e \<noteq> '''') (read_allow_from_store p @ [strip e]))) \<subseteq> insert (strip e) (set (read_allow_from_store p))"
    using read_allow_strip [of _ p] by auto
  then show ?thesis by (auto simp: add_allow_from_entry_def Let_def read_allow_from_store_def)
qed

lemma remove_allow_read: "set (read_allow_from_store (fst (remove_allow_from_entry e p))) \<subseteq> set (read_allow_from_store p)"
proof -
  have "strip x \<in> set (read_allow_from_store p)" if "x \<in> set (remove1 (strip e) (read_allow_from_store p))" for x
    using that read_allow_strip notin_set_remove1 by metis
  then show ?thesis by (auto simp: remove_allow_from_entry_def Let_def) (auto simp: read_allow_from_store_def)
qed

lemma add_allow_requests: "pf_requests (fst (add_allow_from_entry e p)) = pf_requests p" "pf_requests (fst (remove_allow_from_entry e p)) = pf_requests p"
  by (simp_all add: add_allow_from_entry_def remove_allow_from_entry_def Let_def)

lemma approve_Some:
  assumes "approve_pairing_code ct now code p = (q, Some r)" "requests_ok ct now iss (pf_requests p)"
  shows "r \<in> set (pf_requests p)" "\<not> is_expired ct now r" "str_upper (pq_code r) = str_upper (strip code)"
    "requests_ok ct now iss (pf_requests q)" "str_upper (pq_code r) \<notin> (\<lambda>x. str_upper (pq_code x)) ` set (pf_requests q)"
    "set (read_allow_from_store q) \<subseteq> insert (strip (pq_id r)) (set (read_allow_from_store p))"
proof -
  define rs where "rs = fst (prune_requests ct now (pf_requests p))"
  have rs: "rs = filter (\<lambda>r. \<not> is_expired ct now r) (pf_requests p)" "requests_ok ct now iss rs"
    using prune_requests_ok [OF assms(2)] prune_kept [of "pf_requests p" ct now] assms(2) by (auto simp: rs_def requests_ok_def)
  let ?c = "str_upper (strip code)"
  let ?m = "filter (\<lambda>r. str_upper (pq_code r) = ?c) rs"
  let ?p = "p\<lparr>pf_requests := filter (\<lambda>r. str_upper (pq_code r) \<noteq> ?c) rs\<rparr>"
  from assms(1) have m: "?m \<noteq> []" "r = last ?m" and q: "q = fst (add_allow_from_entry (pq_id r) ?p)"
    by (auto simp: approve_pairing_code_def Let_def simp flip: rs_def split: if_splits)
  then have "r \<in> set ?m" using last_in_set by blast
  then show "r \<in> set (pf_requests p)" "\<not> is_expired ct now r" and c: "str_upper (pq_code r) = ?c" by (auto simp: rs(1))
  have pq: "pf_requests q = filter (\<lambda>r. str_upper (pq_code r) \<noteq> ?c) rs" by (simp add: q add_allow_requests)
  then show "requests_ok ct now iss (pf_requests q)" "str_upper (pq_code r) \<notin> (\<lambda>x. str_upper (pq_code x)) ` set (pf_requests q)"
    using requests_ok_part [OF rs(2)] c by auto
  show "set (read_allow_from_store q) \<subseteq> insert (strip (pq_id r)) (set (read_allow_from_store p))"
    using add_allow_read [of "pq_id r" ?p] by (simp add: q read_allow_from_store_def)
qed

lemma approve_None: "approve_pairing_code ct now code p = (q, None) \<Longrightarrow> q = p"
  by (auto simp: approve_pairing_code_def Let_def split: if_splits)

section \<open>The invariant\<close>

lemma invited_mono:
  "invited w e \<Longrightarrow> pw_added w \<subseteq> pw_added v \<Longrightarrow> pw_issued w \<subseteq> pw_issued v \<Longrightarrow> pw_approved w \<subseteq> pw_approved v \<Longrightarrow> invited v e"
  unfolding invited_def by blast

lemma pairing_inv_step:
  assumes "pairing_event ct w v" "pairing_inv ct w" "\<And>t. ct_time ct (ct_text ct t) = Some t"
  shows "pairing_inv ct v"
  using assms(1,2)
proof cases
  case (pass t)
  then show ?thesis using assms(2) by (auto simp: pairing_inv_def elim: requests_ok_mono intro: invited_mono [of w])
next
  case (asks draws k meta p code created)
  have "requests_ok ct (pw_now w) (pw_issued w) (pf_requests (pw_files w))" using assms(2) by (simp add: pairing_inv_def)
  from upsert_ok [OF this asks(2,3)] have up: "requests_ok ct (pw_now w) (if created then insert (code, k, pw_now w) (pw_issued w) else pw_issued w) (pf_requests p)"
    "read_allow_from_store p = read_allow_from_store (pw_files w)" by (auto simp: read_allow_from_store_def)
  have "invited v e" if "e \<in> set (read_allow_from_store p)" for e
    using assms(2) that up(2) by (auto simp: asks(1) pairing_inv_def intro: invited_mono [of w])
  with up show ?thesis by (simp add: asks(1) pairing_inv_def)
next
  case lists
  have "requests_ok ct (pw_now w) (pw_issued w) (pf_requests (pw_files v))" "read_allow_from_store (pw_files v) = read_allow_from_store (pw_files w)"
    using assms(2) prune_requests_ok [of ct "pw_now w" "pw_issued w" "pf_requests (pw_files w)"]
    by (auto simp: lists pairing_inv_def list_pairing_requests_def read_allow_from_store_def split: prod.splits)
  with assms(2) show ?thesis by (auto simp: lists pairing_inv_def intro: invited_mono [of w])
next
  case (approves code p r)
  have ok: "requests_ok ct (pw_now w) (pw_issued w) (pf_requests (pw_files w))" using assms(2) by (simp add: pairing_inv_def)
  note ap = approve_Some [OF approves(2) ok]
  from ok ap(1) obtain t where t: "(pq_code r, pq_id r, t) \<in> pw_issued w" "pq_created_at r = ct_text ct t" "t \<le> pw_now w"
    by (auto simp: requests_ok_def)
  have "pw_now w - t \<le> PAIRING_TTL" using ap(2) t(2) assms(3) by (simp add: is_expired_def)
  then have new: "invited v (strip (pq_id r))" using t ap(3) by (force simp: approves(1) invited_def)
  have "invited v e" if "e \<in> set (read_allow_from_store p)" for e
  proof (cases "e = strip (pq_id r)")
    case False
    with ap(6) that assms(2) have "invited w e" by (auto simp: pairing_inv_def)
    then show ?thesis by (auto simp: approves(1) intro: invited_mono [of w])
  qed (simp add: new)
  with ap(4) show ?thesis by (simp add: approves(1) pairing_inv_def)
next
  case (mistypes code p)
  with approve_None [OF mistypes(2)] assms(2) show ?thesis by (auto simp: pairing_inv_def intro: invited_mono [of w])
next
  case (adds e)
  have "invited v x" if "x \<in> set (read_allow_from_store (pw_files v))" for x
  proof (cases "x = strip e")
    case False
    with that add_allow_read [of e "pw_files w"] assms(2) have "invited w x" by (auto simp: adds pairing_inv_def)
    then show ?thesis by (auto simp: adds intro: invited_mono [of w])
  qed (simp add: adds invited_def)
  with assms(2) show ?thesis by (simp add: adds pairing_inv_def add_allow_requests)
next
  case (removes e)
  have "invited v x" if "x \<in> set (read_allow_from_store (pw_files v))" for x
  proof -
    have "x \<in> set (read_allow_from_store (pw_files w))" using that remove_allow_read [of e "pw_files w"] by (auto simp: removes)
    then have "invited w x" using assms(2) by (simp add: pairing_inv_def)
    then show ?thesis by (auto simp: removes intro: invited_mono [of w])
  qed
  with assms(2) show ?thesis by (simp add: removes pairing_inv_def add_allow_requests)
qed

lemma new_world_inv: "pairing_inv ct (new_world now)"
  by (simp add: new_world_def pairing_inv_def requests_ok_def no_pairings_def read_allow_from_store_def)

interpretation pairing: guarded_system "\<lambda>w. \<exists>now. w = new_world now" "pairing_event ct"
    "\<lambda>w. (\<forall>t. ct_time ct (ct_text ct t) = Some t) \<longrightarrow> pairing_inv ct w" for ct
  by unfold_locales (auto simp: new_world_inv intro: pairing_inv_step)

section \<open>Properties\<close>

text \<open>C26. Only invited senders get in: unless the channel is open to everyone, a sender the Telegram check lets through is named in the
  configuration, was added by the owner, or was sent a code that the owner then typed within an hour (the comparison ignores case and
  blanks around it). No more than three requests are
  pending, and no two have the same code. The reading of an instant's text gives the instant.\<close>

theorem only_invited_senders:
  assumes "\<And>t. ct_time ct (ct_text ct t) = Some t" "(pairing_event ct)\<^sup>*\<^sup>* (new_world now) w" "dm_policy \<noteq> ''open''"
    "telegram_sender_allowed dm_policy config_allow (pw_files w) user_id username"
  shows "(\<exists>e. (e = user_id \<or> e = ''telegram:'' @ user_id \<or> truthy username \<and> (e = the username \<or> e = ''@'' @ the username))
      \<and> (e \<in> set config_allow \<or> invited w e))
    \<and> length (pf_requests (pw_files w)) \<le> PAIRING_MAX_PENDING \<and> distinct (map (\<lambda>r. str_upper (pq_code r)) (pf_requests (pw_files w)))"
proof -
  have inv: "pairing_inv ct w" using pairing.reachable_good [OF _ assms(2)] assms(1) by blast
  then have "e \<in> set config_allow \<or> invited w e" if "e \<in> set config_allow \<union> set (read_allow_from_store (pw_files w))" for e
    using that by (auto simp: pairing_inv_def)
  with assms(3,4) inv show ?thesis
    unfolding telegram_sender_allowed_def pairing_inv_def requests_ok_def Let_def by (auto split: if_splits)
qed

definition demo_clock :: clock_texts where
  "demo_clock = \<lparr>ct_text = (\<lambda>t. replicate (nat t) CHR ''+'' @ replicate (nat (- t)) CHR ''-''),
     ct_time = (\<lambda>s. Some (int (length (filter (\<lambda>c. c = CHR ''+'') s)) - int (length (filter (\<lambda>c. c = CHR ''-'') s))))\<rparr>"

lemma demo_clock_reads: "ct_time demo_clock (ct_text demo_clock t) = Some t"
  by (simp add: demo_clock_def)

definition demo_world :: pairing_world where
  "demo_world = (new_world 0)\<lparr>pw_files := \<lparr>pf_requests = [], pf_allow_from = [''42'']\<rparr>, pw_issued := {(''ABCDEFGH'', ''42'', 0)},
     pw_approved := {(''abcdefgh'', 0)}\<rparr>"

lemma demo_world_run: "(pairing_event demo_clock)\<^sup>*\<^sup>* (new_world 0) demo_world"
proof -
  let ?r = "\<lparr>pq_id = ''42'', pq_code = ''ABCDEFGH'', pq_created_at = '''', pq_last_seen_at = '''', pq_meta = []\<rparr>"
  let ?p = "\<lparr>pf_requests = [?r], pf_allow_from = []\<rparr>" and ?q = "\<lparr>pf_requests = [], pf_allow_from = [''42'']\<rparr>"
  have up: "list_all valid_code [''ABCDEFGH'']" "upsert_pairing_request demo_clock 0 [''ABCDEFGH''] ''42'' [] no_pairings = (?p, Inr (''ABCDEFGH'', True))"
    "approve_pairing_code demo_clock 0 ''abcdefgh'' ?p = (?q, Some ?r)" by code_simp+
  let ?w = "(new_world 0)\<lparr>pw_files := ?p, pw_issued := {(''ABCDEFGH'', ''42'', 0)}\<rparr>"
  have "pairing_event demo_clock (new_world 0) ?w"
    using pairing_event.asks [OF up(1), of demo_clock "new_world 0" "''42''" "[]" ?p "''ABCDEFGH''" True] up(2) by (simp add: new_world_def)
  moreover have "pairing_event demo_clock ?w demo_world"
    using pairing_event.approves [of demo_clock ?w "''abcdefgh''" ?q ?r] up(3) by (simp add: demo_world_def new_world_def)
  ultimately show ?thesis by (meson rtranclp.rtrancl_into_rtrancl rtranclp.rtrancl_refl)
qed

theorem only_invited_senders_witness:
  "\<exists>e. (e = ''42'' \<or> e = ''telegram:42'') \<and> invited demo_world e"
proof -
  have "telegram_sender_allowed ''pairing'' [] (pw_files demo_world) ''42'' None" by code_simp
  from only_invited_senders [OF demo_clock_reads demo_world_run _ this] show ?thesis by auto
qed

lemma split_bar_one: "CHR ''|'' \<notin> set a \<Longrightarrow> split_bar a = [a]"
  by (induction a) (auto simp: split_bar_def)

lemma split_bar_two: "CHR ''|'' \<notin> set a \<Longrightarrow> split_bar (a @ CHR ''|'' # b) = a # split_bar b"
  by (induction a) (auto simp: split_bar_def)

text \<open>A sender who paired is let through by the pairing check and still dropped: once the configuration names anybody, a message from
  a sender it does not name is not published, whatever the pairing store says. (A name has no bar in it.)\<close>

theorem paired_sender_dropped:
  assumes "config_allow \<noteq> []" "user_id \<notin> set config_allow" "CHR ''|'' \<notin> set user_id"
    "\<And>n. username = Some n \<Longrightarrow> n \<notin> set config_allow \<and> CHR ''|'' \<notin> set n" "telegram_sender_id user_id username \<notin> set config_allow"
    "user_id \<in> set (read_allow_from_store p)"
  shows "handle_pairing ct now draws dm_policy config_allow user_id username names p = (p, Inr Let_in)
    \<and> \<not> telegram_publishes dm_policy config_allow p user_id username"
proof -
  have "telegram_sender_allowed dm_policy config_allow p user_id username"
    using assms(6) by (simp add: telegram_sender_allowed_def Let_def)
  moreover have "\<not> base_is_allowed config_allow (telegram_sender_id user_id username)"
  proof (cases "truthy username")
    case True
    then obtain n where n: "username = Some n" "n \<noteq> ''''" by (auto simp: truthy_iff)
    with assms(4) [OF n(1)] have "split_bar (user_id @ CHR ''|'' # n) = [user_id, n]"
      using assms(3) by (simp add: split_bar_two split_bar_one)
    with n assms show ?thesis by (auto simp: base_is_allowed_def telegram_sender_id_def)
  next
    case False
    with assms show ?thesis by (auto simp: base_is_allowed_def telegram_sender_id_def)
  qed
  ultimately show ?thesis by (simp add: handle_pairing_def telegram_publishes_def)
qed

theorem paired_sender_dropped_witness:
  "handle_pairing demo_clock 0 [] ''pairing'' [''7''] ''42'' None [] (pw_files demo_world) = (pw_files demo_world, Inr Let_in)
   \<and> \<not> telegram_publishes ''pairing'' [''7''] (pw_files demo_world) ''42'' None"
proof -
  have "''42'' \<in> set (read_allow_from_store (pw_files demo_world))" by code_simp
  then show ?thesis by (intro paired_sender_dropped) (auto simp: telegram_sender_id_def)
qed

end
