(* ===== verification/Key_Rotator.thy ===== *)
theory Key_Rotator
  imports Prelude
begin

text \<open>
  Rotation of provider keys (\<open>providers/key_rotator.py\<close>): a key that failed rests for a while, the next one
  that does not rest is used, and the texts of provider errors are classified. The monotonic clock is an
  input: \<open>failed_at\<close> is its reading when the failure is noted, \<open>clock\<close> its reading at each step of the search.
\<close>

section \<open>Keys\<close>

definition DEFAULT_COOLDOWN_S :: real where "DEFAULT_COOLDOWN_S = 60"

record key_state =
  ks_key :: string
  ks_index :: nat
  ks_fail_count :: nat
  ks_cooldown_until :: real

record key_rotator =
  kr_states :: "key_state list"
  kr_provider :: string
  kr_cooldown_s :: real
  kr_current_idx :: nat

definition is_available :: "real \<Rightarrow> key_state \<Rightarrow> bool" where
  "is_available now s \<longleftrightarrow> ks_cooldown_until s \<le> now"

definition mark_failed :: "real \<Rightarrow> real \<Rightarrow> key_state \<Rightarrow> key_state" where
  "mark_failed now cooldown_s s = s\<lparr>ks_fail_count := ks_fail_count s + 1, ks_cooldown_until := now + cooldown_s\<rparr>"

definition new_key_state :: "nat \<Rightarrow> string \<Rightarrow> key_state" where
  "new_key_state i k = \<lparr>ks_key = k, ks_index = i, ks_fail_count = 0, ks_cooldown_until = 0\<rparr>"

definition new_rotator :: "string list \<Rightarrow> string \<Rightarrow> real \<Rightarrow> string + key_rotator" where
  "new_rotator keys provider cooldown =
     (if keys = [] then Inl ''KeyRotator requires at least one key''
      else Inr \<lparr>kr_states = map (\<lambda>(i, k). new_key_state i k) (enumerate 0 keys), kr_provider = provider,
        kr_cooldown_s = cooldown, kr_current_idx = 0\<rparr>)"

section \<open>Rotation\<close>

definition key_count :: "key_rotator \<Rightarrow> nat" where
  "key_count r = length (kr_states r)"

definition has_multiple_keys :: "key_rotator \<Rightarrow> bool" where
  "has_multiple_keys r \<longleftrightarrow> 1 < length (kr_states r)"

definition available_count :: "(nat \<Rightarrow> real) \<Rightarrow> key_rotator \<Rightarrow> nat" where
  "available_count clock r = length (filter (\<lambda>(i, s). is_available (clock i) s) (enumerate 0 (kr_states r)))"

definition current_key :: "key_rotator \<Rightarrow> string" where
  "current_key r = ks_key (kr_states r ! kr_current_idx r)"

text \<open>The key \<open>offset\<close> places after the current one.\<close>

definition ahead :: "key_rotator \<Rightarrow> nat \<Rightarrow> nat" where
  "ahead r offset = (kr_current_idx r + offset) mod length (kr_states r)"

definition pick_next :: "(nat \<Rightarrow> real) \<Rightarrow> key_rotator \<Rightarrow> nat" where
  "pick_next clock r =
     (let n = length (kr_states r) in
      case find (\<lambda>offset. is_available (clock offset) (kr_states r ! ahead r offset)) [1..<n + 1] of
        Some offset \<Rightarrow> ahead r offset
      | None \<Rightarrow> arg_min_list (\<lambda>i. ks_cooldown_until (kr_states r ! i)) [0..<n])"

record key_rotation =
  ro_provider :: string
  ro_reason :: string
  ro_from :: nat
  ro_to :: nat

text \<open>The rotator afterwards, the key it returns and what the audit callback is told.\<close>

definition rotate_key :: "real \<Rightarrow> (nat \<Rightarrow> real) \<Rightarrow> string \<Rightarrow> key_rotator \<Rightarrow> key_rotator \<times> string \<times> key_rotation" where
  "rotate_key failed_at clock reason r =
     (let from_idx = kr_current_idx r;
          marked = r\<lparr>kr_states := (kr_states r)[from_idx := mark_failed failed_at (kr_cooldown_s r) (kr_states r ! from_idx)]\<rparr>;
          next_idx = pick_next clock marked
      in (marked\<lparr>kr_current_idx := next_idx\<rparr>, ks_key (kr_states marked ! next_idx),
          \<lparr>ro_provider = kr_provider r, ro_reason = reason, ro_from = from_idx, ro_to = next_idx\<rparr>))"

section \<open>Errors that call for another key\<close>

definition AUTH_PHRASES :: "string list" where
  "AUTH_PHRASES = [''invalid api key'', ''authentication'', ''unauthorized'', ''401'', ''403 forbidden'',
     ''permission denied'', ''incorrect api key'']"

definition RATE_PHRASES :: "string list" where
  "RATE_PHRASES = [''rate limit'', ''ratelimit'', ''too many requests'', ''tokens per minute'', ''token rate'',
     ''requests per minute'', '' tpm '', ''429'', ''quota exceeded'', ''resource_exhausted'']"

definition OVERLOAD_PHRASES :: "string list" where
  "OVERLOAD_PHRASES = [''overloaded'', ''529'', ''service unavailable'', ''503'']"

definition mentions :: "string list \<Rightarrow> string \<Rightarrow> bool" where
  "mentions phrases msg = list_ex (\<lambda>p. contains p (str_lower msg)) phrases"

definition classify_error :: "string \<Rightarrow> string option" where
  "classify_error msg =
     (if mentions AUTH_PHRASES msg then Some ''auth_error''
      else if mentions RATE_PHRASES msg then Some ''rate_limit''
      else if mentions OVERLOAD_PHRASES msg then Some ''overload''
      else None)"

definition is_context_overflow :: "string \<Rightarrow> bool" where
  "is_context_overflow msg = mentions
     [''context_length_exceeded'', ''maximum context length'', ''model context window exceeded'',
      ''model_context_window_exceeded'', ''prompt is too long'', ''input is too long'', ''exceed context limit'',
      ''exceeds context limit'', ''context limit is exceeded'', ''exceeds the model's context'',
      ''exceeds the model context'', ''exceeds this model's context''] msg"

definition is_input_too_large :: "string \<Rightarrow> bool" where
  "is_input_too_large msg = mentions
     [''context_too_large'', ''context too large'', ''input_too_large'', ''input too large'', ''request_too_large'',
      ''request too large'', ''payload_too_large'', ''payload too large'', ''request entity too large'',
      ''too large for your tier'', ''http 413'', ''status 413'', ''error code: 413''] msg"

section \<open>A request with several keys\<close>

text \<open>The retry loop of a provider (\<open>openrouter_provider.py\<close>, and the same in \<open>anthropic_provider.py\<close>): the call fails with
  an exception or returns a response; \<open>sdk_reason\<close> classifies the exceptions of the client library and \<open>message\<close> is the redacted
  text of one. The list holds the attempts left, \<open>failed_at\<close> and \<open>clock\<close> are the clock during each rotation. The rotator is shared and
  the call is awaited: \<open>others a\<close> is what the other requests make of the rotator while attempt \<open>a\<close> waits for its answer.\<close>

definition rotation_reason :: "('x \<Rightarrow> string option) \<Rightarrow> ('x \<Rightarrow> string) \<Rightarrow> 'x \<Rightarrow> string option" where
  "rotation_reason sdk_reason message e = (case sdk_reason e of None \<Rightarrow> classify_error (message e) | Some r \<Rightarrow> Some r)"

fun try_keys ::
    "(nat \<Rightarrow> key_rotator \<Rightarrow> key_rotator) \<Rightarrow> (nat \<Rightarrow> string \<Rightarrow> 'x + 'resp) \<Rightarrow> ('x \<Rightarrow> string option) \<Rightarrow> (nat \<Rightarrow> real) \<Rightarrow> (nat \<Rightarrow> nat \<Rightarrow> real) \<Rightarrow> nat list \<Rightarrow> key_rotator
      \<Rightarrow> key_rotator \<times> ('x + 'resp) option" where
  "try_keys others call reason failed_at clock [] r = (r, None)"
| "try_keys others call reason failed_at clock (a # as) r =
     (let q = others a r in
      case call a (current_key r) of
        Inr resp \<Rightarrow> (q, Some (Inr resp))
      | Inl e \<Rightarrow>
          (case reason e of
             Some why \<Rightarrow>
               if why \<noteq> '''' \<and> as \<noteq> []
               then try_keys others call reason failed_at clock as (fst (rotate_key (failed_at a) (clock a) why q))
               else (q, Some (Inl e))
           | None \<Rightarrow> (q, Some (Inl e))))"

definition request_with_keys ::
    "(nat \<Rightarrow> key_rotator \<Rightarrow> key_rotator) \<Rightarrow> (nat \<Rightarrow> string \<Rightarrow> 'x + 'resp) \<Rightarrow> ('x \<Rightarrow> string option) \<Rightarrow> (nat \<Rightarrow> real) \<Rightarrow> (nat \<Rightarrow> nat \<Rightarrow> real) \<Rightarrow> key_rotator
      \<Rightarrow> key_rotator \<times> ('x + 'resp) option" where
  "request_with_keys others call reason failed_at clock r = try_keys others call reason failed_at clock [0..<key_count r] r"

section \<open>Plain rotation\<close>

text \<open>How long the key \<open>k\<close> places after the current one rests.\<close>

definition rest :: "key_rotator \<Rightarrow> nat \<Rightarrow> real" where
  "rest r k = ks_cooldown_until (kr_states r ! ahead r k)"

text \<open>The keys after the current one failed in the order they come in, the last failure not after \<open>t\<close>.\<close>

definition in_turn :: "real \<Rightarrow> key_rotator \<Rightarrow> bool" where
  "in_turn t r \<longleftrightarrow> kr_current_idx r < key_count r \<and> 0 \<le> kr_cooldown_s r
     \<and> (\<forall>k. 1 \<le> k \<and> k < key_count r \<longrightarrow> rest r k = 0 \<or> rest r k \<le> t + kr_cooldown_s r)
     \<and> (\<forall>j k. 1 \<le> j \<and> j < k \<and> k < key_count r \<longrightarrow> rest r j = 0 \<or> rest r j < rest r k)"

lemma ahead_less: "kr_current_idx r < key_count r \<Longrightarrow> ahead r k < key_count r"
  unfolding ahead_def key_count_def by (rule mod_less_divisor) linarith

lemma ahead_inj:
  assumes "kr_current_idx r < key_count r" "j < key_count r" "k < key_count r" "ahead r j = ahead r k"
  shows "j = k"
  using assms by (auto simp: ahead_def key_count_def mod_if split: if_splits)

lemma ahead_current: "kr_current_idx r < key_count r \<Longrightarrow> ahead r 0 = kr_current_idx r" "ahead r (key_count r) = ahead r 0"
  by (simp_all add: ahead_def key_count_def)

lemma ahead_surj:
  assumes "kr_current_idx r < key_count r" "i < key_count r"
  shows "\<exists>k < key_count r. i = ahead r k"
proof (cases "kr_current_idx r \<le> i")
  case True
  then show ?thesis using assms by (intro exI [of _ "i - kr_current_idx r"]) (auto simp: ahead_def key_count_def)
next
  case False
  then show ?thesis using assms
    by (intro exI [of _ "i + key_count r - kr_current_idx r"]) (auto simp: ahead_def key_count_def mod_if)
qed

lemma find_upt_first: "m < n \<Longrightarrow> P m \<Longrightarrow> find P [m..<n] = Some m"
  by (simp add: upt_conv_Cons)

lemma arg_min_list_unique:
  assumes "x \<in> set xs" "\<And>y. y \<in> set xs \<Longrightarrow> y \<noteq> x \<Longrightarrow> f x < (f y :: real)"
  shows "arg_min_list f xs = x"
proof (rule ccontr)
  assume "arg_min_list f xs \<noteq> x"
  moreover have ne: "xs \<noteq> []" using assms(1) by auto
  ultimately have "f x < f (arg_min_list f xs)" using assms(2) arg_min_list_in [OF ne] by blast
  moreover have "f (arg_min_list f xs) \<le> f x" using f_arg_min_list_f [OF ne, of f] assms(1) by simp
  ultimately show False by simp
qed

definition noted :: "real \<Rightarrow> key_rotator \<Rightarrow> key_rotator" where
  "noted t r = r\<lparr>kr_states := (kr_states r)[kr_current_idx r := mark_failed t (kr_cooldown_s r) (kr_states r ! kr_current_idx r)]\<rparr>"

lemma noted_fields [simp]:
  "key_count (noted t r) = key_count r" "ahead (noted t r) k = ahead r k" "kr_current_idx (noted t r) = kr_current_idx r"
  "kr_cooldown_s (noted t r) = kr_cooldown_s r" "map ks_key (kr_states (noted t r)) = map ks_key (kr_states r)"
proof -
  show "map ks_key (kr_states (noted t r)) = map ks_key (kr_states r)"
    by (simp add: noted_def mark_failed_def map_update) (metis list_update_beyond list_update_id map_update not_less)
qed (simp_all add: noted_def key_count_def ahead_def)

lemma noted_rest:
  assumes "kr_current_idx r < key_count r"
  shows "1 \<le> k \<Longrightarrow> k < key_count r \<Longrightarrow> rest (noted t r) k = rest r k"
    "rest (noted t r) (key_count r) = t + kr_cooldown_s r"
proof -
  assume "1 \<le> k" "k < key_count r"
  then have "ahead r k \<noteq> kr_current_idx r" using ahead_inj [OF assms, of k 0] ahead_current(1) [OF assms] assms by auto
  then show "rest (noted t r) k = rest r k" by (simp add: rest_def) (simp add: noted_def)
next
  show "rest (noted t r) (key_count r) = t + kr_cooldown_s r"
    using assms ahead_current [of r] by (simp add: rest_def) (simp add: noted_def key_count_def mark_failed_def)
qed

text \<open>The cyclic search ends at once, or every key rests and the next one has rested longest.\<close>

lemma pick_in_turn:
  assumes "in_turn u r" "u < t" "0 \<le> t"
  shows "pick_next (\<lambda>_. t) (noted t r) = ahead r 1"
proof -
  let ?n = "key_count r" and ?m = "noted t r"
  have cur: "kr_current_idx r < ?n" and c: "0 \<le> kr_cooldown_s r" using assms(1) by (auto simp: in_turn_def)
  have scan: "pick_next (\<lambda>_. t) ?m = (case find (\<lambda>k. rest ?m k \<le> t) [1..<?n + 1] of Some k \<Rightarrow> ahead r k
      | None \<Rightarrow> arg_min_list (\<lambda>i. ks_cooldown_until (kr_states ?m ! i)) [0..<?n])"
    by (simp only: pick_next_def Let_def is_available_def rest_def noted_fields flip: key_count_def)
  show ?thesis
  proof (cases "rest ?m 1 \<le> t")
    case True
    have "1 < ?n + 1" using cur by simp
    from find_upt_first [OF this, of "\<lambda>k. rest ?m k \<le> t"] True show ?thesis unfolding scan by simp
  next
    case False
    have least: "rest ?m 1 < rest ?m k" if "1 < k" "k \<le> ?n" for k
    proof (cases "k = ?n")
      case True
      with that have n1: "1 < ?n" by simp
      then have "rest r 1 = 0 \<or> rest r 1 \<le> u + kr_cooldown_s r" using assms(1) by (auto simp: in_turn_def)
      with False n1 assms(2,3) show ?thesis by (auto simp: True noted_rest [OF cur])
    next
      case False
      with that have k: "k < ?n" by simp
      then have "rest r 1 = 0 \<or> rest r 1 < rest r k" using assms(1) that by (auto simp: in_turn_def)
      with \<open>\<not> rest ?m 1 \<le> t\<close> k that assms(3) show ?thesis by (simp add: noted_rest [OF cur])
    qed
    have "rest ?m k > t" if "1 \<le> k" "k \<le> ?n" for k
      using least [of k] False that by (cases "k = 1") auto
    then have none: "find (\<lambda>k. rest ?m k \<le> t) [1..<?n + 1] = None" by (auto simp: find_None_iff not_le)
    have "arg_min_list (\<lambda>i. ks_cooldown_until (kr_states ?m ! i)) [0..<?n] = ahead r 1"
    proof (rule arg_min_list_unique)
      show "ahead r 1 \<in> set [0..<?n]" using ahead_less [OF cur] by simp
    next
      fix i assume i: "i \<in> set [0..<?n]" "i \<noteq> ahead r 1"
      then obtain k where k: "k < ?n" "i = ahead r k" using ahead_surj [OF cur, of i] by auto
      define k' where "k' = (if k = 0 then ?n else k)"
      have k': "i = ahead r k'" "1 \<le> k'" "k' \<le> ?n" using k ahead_current(2) [of r] by (auto simp: k'_def)
      with i(2) have "1 < k'" by (cases "k' = 1") auto
      from least [OF this k'(3)] k'(1) show "ks_cooldown_until (kr_states ?m ! ahead r 1) < ks_cooldown_until (kr_states ?m ! i)"
        by (simp add: rest_def)
    qed
    with none show ?thesis unfolding scan by simp
  qed
qed

abbreviation rotated :: "real \<Rightarrow> string \<Rightarrow> key_rotator \<Rightarrow> key_rotator" where
  "rotated t why r \<equiv> fst (rotate_key t (\<lambda>_. t) why r)"

lemma rotated_eq: "in_turn u r \<Longrightarrow> u < t \<Longrightarrow> 0 \<le> t \<Longrightarrow> rotated t why r = (noted t r)\<lparr>kr_current_idx := ahead r 1\<rparr>"
  using pick_in_turn [of u r t] by (simp add: rotate_key_def noted_def Let_def)

lemma rotated_in_turn:
  assumes "in_turn u r" "u < t" "0 \<le> t"
  shows "in_turn t (rotated t why r)"
proof -
  let ?n = "key_count r"
  define q where "q = (noted t r)\<lparr>kr_current_idx := ahead r 1\<rparr>"
  have cur: "kr_current_idx r < ?n" and c: "0 \<le> kr_cooldown_s r" using assms(1) by (auto simp: in_turn_def)
  have [simp]: "key_count q = ?n" "kr_cooldown_s q = kr_cooldown_s r"
    by (simp_all add: q_def key_count_def noted_def)
  have "ahead q k = ahead r (Suc k)" for k
    by (simp add: q_def ahead_def noted_def key_count_def mod_simps)
  then have rest: "rest q k = rest (noted t r) (Suc k)" for k by (simp add: rest_def q_def)
  have last: "rest q k = t + kr_cooldown_s r" if "Suc k = ?n" for k unfolding rest that by (rule noted_rest(2) [OF cur])
  have inner: "rest q k = rest r (Suc k)" if "Suc k < ?n" for k unfolding rest using that by (intro noted_rest(1) [OF cur]) auto
  have bound: "rest r k = 0 \<or> rest r k < t + kr_cooldown_s r" if "1 \<le> k" "k < ?n" for k
    using assms(1,2) that by (fastforce simp: in_turn_def)
  have "rest q k = 0 \<or> rest q k \<le> t + kr_cooldown_s r" if "1 \<le> k" "k < ?n" for k
    using that bound [of "Suc k"] inner [of k] last [of k] by (cases "Suc k = ?n") auto
  moreover have "rest q j = 0 \<or> rest q j < rest q k" if "1 \<le> j" "j < k" "k < ?n" for j k
    using that bound [of "Suc j"] inner [of j] inner [of k] last [of k] assms(1)
    by (cases "Suc k = ?n") (auto simp: in_turn_def)
  moreover have "kr_current_idx q < ?n" using ahead_less [OF cur, of 1] by (simp add: q_def)
  moreover have "rotated t why r = q" unfolding q_def by (rule rotated_eq [OF assms])
  ultimately show ?thesis using c by (simp add: in_turn_def)
qed

lemma rotated_keys:
  assumes "in_turn u r" "u < t" "0 \<le> t"
  shows "map ks_key (kr_states (rotated t why r)) = map ks_key (kr_states r)"
    "kr_current_idx (rotated t why r) = Suc (kr_current_idx r) mod key_count r" "key_count (rotated t why r) = key_count r"
proof -
  note eq = rotated_eq [OF assms, of why]
  show keys: "map ks_key (kr_states (rotated t why r)) = map ks_key (kr_states r)" by (simp add: eq)
  from arg_cong [OF keys, of length] show "key_count (rotated t why r) = key_count r" by (simp add: key_count_def)
  show "kr_current_idx (rotated t why r) = Suc (kr_current_idx r) mod key_count r" by (simp add: eq ahead_def key_count_def)
qed

lemma current_key_nth: "kr_current_idx r < key_count r \<Longrightarrow> current_key r = map ks_key (kr_states r) ! kr_current_idx r"
  by (simp add: current_key_def key_count_def)

text \<open>Every key failing at the next of a list of instants.\<close>

fun rotations :: "(real \<times> string) list \<Rightarrow> key_rotator \<Rightarrow> key_rotator" where
  "rotations [] r = r"
| "rotations ((t, why) # ts) r = rotations ts (rotated t why r)"

lemma rotations_round_robin:
  assumes "in_turn u r" "sorted_wrt (<) (u # map fst ts)" "\<forall>t \<in> set (map fst ts). 0 \<le> t"
  shows "in_turn (last (u # map fst ts)) (rotations ts r) \<and> map ks_key (kr_states (rotations ts r)) = map ks_key (kr_states r)
    \<and> kr_current_idx (rotations ts r) = (kr_current_idx r + length ts) mod key_count r"
  using assms
proof (induction ts arbitrary: u r)
  case Nil
  then show ?case by (auto simp: in_turn_def key_count_def)
next
  case (Cons tw ts)
  obtain t why where tw: "tw = (t, why)" by (cases tw)
  with Cons.prems have t: "u < t" "0 \<le> t" and ts: "sorted_wrt (<) (t # map fst ts)" "\<forall>s \<in> set (map fst ts). 0 \<le> s" by auto
  note k = rotated_keys [OF Cons.prems(1) t, of why]
  from Cons.IH [OF rotated_in_turn [OF Cons.prems(1) t] ts, of why] show ?case
    by (simp add: tw k mod_simps)
qed

lemma new_in_turn:
  assumes "new_rotator keys p c = Inr r" "0 \<le> c"
  shows "in_turn u r" "map ks_key (kr_states r) = keys" "kr_current_idx r = 0" "key_count r = length keys"
proof -
  have ne: "keys \<noteq> []" and r: "r = \<lparr>kr_states = map (\<lambda>(i, k). new_key_state i k) (enumerate 0 keys), kr_provider = p,
      kr_cooldown_s = c, kr_current_idx = 0\<rparr>"
    using assms(1) by (auto simp: new_rotator_def split: if_splits)
  show "map ks_key (kr_states r) = keys"
    using map_snd_enumerate [of 0 keys] by (simp add: r new_key_state_def split_beta o_def)
  show n: "key_count r = length keys" "kr_current_idx r = 0" by (simp_all add: r key_count_def)
  have "rest r k = 0" if "k < length keys" for k
    using that by (simp add: rest_def ahead_def r new_key_state_def nth_enumerate_eq)
  then show "in_turn u r" using ne assms(2) n by (simp add: in_turn_def) (simp add: r)
qed

section \<open>A request reaches every key\<close>

lemma try_keys_reaches:
  assumes "in_turn u r" "sorted_wrt (<) (u # map failed_at as)" "\<forall>a \<in> set as. 0 \<le> failed_at a \<and> clock a = (\<lambda>_. failed_at a)"
    "\<And>a q. others a q = q" "\<And>a k e. call a k = Inl e \<Longrightarrow> truthy (reason e)"
    "m < length as" "\<And>a. is_ok (call a (map ks_key (kr_states r) ! ((kr_current_idx r + m) mod key_count r)))"
  shows "\<exists>resp. snd (try_keys others call reason failed_at clock as r) = Some (Inr resp)"
  using assms
proof (induction as arbitrary: u r m)
  case (Cons a as)
  have cur: "kr_current_idx r < key_count r" using Cons.prems(1) by (simp add: in_turn_def)
  show ?case
  proof (cases "call a (current_key r)")
    case (Inl e)
    obtain why where why: "reason e = Some why" "why \<noteq> ''''" using Cons.prems(5) [OF Inl] by (auto simp: truthy_iff)
    have "m \<noteq> 0" using Cons.prems(7) [of a] Inl cur by (cases "m = 0") (auto simp: current_key_nth [OF cur])
    then obtain m' where m: "m = Suc m'" by (cases m) auto
    let ?t = "failed_at a"
    let ?q = "rotated ?t why r"
    have t: "u < ?t" "0 \<le> ?t" "clock a = (\<lambda>_. ?t)" using Cons.prems(2,3) by auto
    note k = rotated_keys [OF Cons.prems(1) t(1,2), of why]
    have "\<exists>resp. snd (try_keys others call reason failed_at clock as ?q) = Some (Inr resp)"
    proof (rule Cons.IH [OF rotated_in_turn [OF Cons.prems(1) t(1,2)], of m'])
      show "is_ok (call b (map ks_key (kr_states ?q) ! ((kr_current_idx ?q + m') mod key_count ?q)))" for b
        using Cons.prems(7) [of b] by (simp only: k m mod_simps add_Suc add_Suc_right)
    qed (use Cons.prems m in auto)
    with Inl why t(3) Cons.prems(4) [of a r] Cons.prems(6) m show ?thesis by auto
  qed (simp add: Let_def)
qed simp

lemma try_keys_answers: "as \<noteq> [] \<Longrightarrow> snd (try_keys others call reason failed_at clock as r) \<noteq> None"
  by (induction others call reason failed_at clock as r rule: try_keys.induct) (auto simp: Let_def split: sum.splits option.splits)

end
