(* ===== verification/Key_Properties.thy ===== *)
theory Key_Properties
  imports Key_Rotator
begin

text \<open>
  The properties of key rotation. The readings of the clock during one rotation are taken as one instant, and
  rotations as happening at different instants.
\<close>

lemma rotations_new:
  assumes "new_rotator keys p c = Inr r" "0 \<le> c" "sorted_wrt (<) (map fst ts)" "\<forall>t \<in> set (map fst ts). 0 \<le> t"
  shows "in_turn (last (-1 # map fst ts)) (rotations ts r) \<and> map ks_key (kr_states (rotations ts r)) = keys
    \<and> kr_current_idx (rotations ts r) = length ts mod length keys"
proof -
  note n = new_in_turn [OF assms(1,2)]
  have "sorted_wrt (<) (-1 # map fst ts)" using assms(3,4) by fastforce
  from rotations_round_robin [OF n(1) this assms(4)] show ?thesis by (simp add: n)
qed

text \<open>C27. The search for a key that does not rest, with its fallback on the key whose rest ends first, is plain
  rotation: after any number of failures at growing instants the current key is the one a round robin over the keys
  would have.\<close>

theorem key_rotation_round_robin:
  assumes "new_rotator keys p c = Inr r" "0 \<le> c" "sorted_wrt (<) (map fst ts)" "\<forall>t \<in> set (map fst ts). 0 \<le> t"
  shows "current_key (rotations ts r) = keys ! (length ts mod length keys)"
proof -
  note rr = rotations_new [OF assms]
  then have "kr_current_idx (rotations ts r) < key_count (rotations ts r)" by (auto simp: in_turn_def)
  from current_key_nth [OF this] rr show ?thesis by simp
qed

definition demo_rotator :: key_rotator where
  "demo_rotator = (case new_rotator [''a'', ''b'', ''c''] ''openrouter'' 60 of Inr r \<Rightarrow> r)"

lemma demo_rotator_new: "new_rotator [''a'', ''b'', ''c''] ''openrouter'' 60 = Inr demo_rotator"
  by (simp add: demo_rotator_def new_rotator_def)

theorem key_rotation_round_robin_witness:
  "current_key (rotations [(1, ''rate_limit''), (2, ''overload''), (3, ''rate_limit''), (90, ''auth_error'')] demo_rotator) = ''b''"
  using key_rotation_round_robin [OF demo_rotator_new, of "[(1, ''rate_limit''), (2, ''overload''), (3, ''rate_limit''), (90, ''auth_error'')]"]
  by simp



text \<open>Two requests at once with a key that fails and one that works. Both fail with the first; the other request rotates to
  the second key while this one still waits, so this one rotates away from it again and ends in the error of the first key.\<close>

lemma rotating_at_once_misses:
  assumes "new_rotator [''a'', ''b''] ''openrouter'' 60 = Inr r"
  shows "snd (request_with_keys (\<lambda>a q. if a = 0 then rotated 1 ''rate_limit'' q else q)
      (\<lambda>a k. if k = ''b'' then Inr ''hello'' else Inl ''429 Too Many Requests'') (rotation_reason (\<lambda>_. None) (\<lambda>e. e))
      (\<lambda>a. 2 + real a) (\<lambda>a _. 2 + real a) r) = Some (Inl ''429 Too Many Requests'')"
proof -
  define q where "q = rotated 2 ''rate_limit'' (rotated 1 ''rate_limit'' r)"
  have rr: "in_turn 2 q \<and> map ks_key (kr_states q) = [''a'', ''b''] \<and> kr_current_idx q = 0"
    using rotations_new [OF assms, of "[(1, ''rate_limit''), (2, ''rate_limit'')]"] by (simp add: q_def)
  then have "current_key q = ''a''" using current_key_nth [of q] by (simp add: in_turn_def)
  moreover have "key_count r = 2" "current_key r = ''a''"
    using assms by (auto simp: new_rotator_def key_count_def current_key_def new_key_state_def)
  ultimately have r: "key_count r = 2" "current_key r = ''a''" "current_key q = ''a''" by simp_all
  have "rotation_reason (\<lambda>_. None) (\<lambda>e. e) ''429 Too Many Requests'' = Some ''rate_limit''" by code_simp
  then show ?thesis using r(2,3) by (simp add: request_with_keys_def r(1) upt_rec numeral_2_eq_2 q_def)
qed


end
