(* ===== verification/Exec_Text.thy ===== *)
theory Exec_Text
  imports Prelude
begin

text \<open>
  The parts of Python's library the command rules and the scan of texts use: regular expressions of \<open>re\<close> (with
  \<open>IGNORECASE\<close>), \<open>shlex.split\<close>, \<open>fnmatch.fnmatch\<close> and POSIX paths of \<open>pathlib\<close>. Each is an
  executable function; a POSIX host is assumed throughout, so \<open>os.sep\<close> is \<open>/\<close> and
  \<open>normcase\<close> the identity.
\<close>

section \<open>Regular expressions\<close>

datatype rx =
    Eps
  | Lit char              \<comment> \<open>a character, in either case\<close>
  | Cls string            \<comment> \<open>\<open>[...]\<close> of single characters, in either case\<close>
  | Dot                   \<comment> \<open>any character but a line feed\<close>
  | NotIn string          \<comment> \<open>\<open>[^...]\<close> of single characters that are not letters\<close>
  | Space                 \<comment> \<open>\<open>\s\<close>\<close>
  | WordChar              \<comment> \<open>\<open>\w\<close>\<close>
  | Bound                 \<comment> \<open>\<open>\b\<close>\<close>
  | Cat rx rx
  | Alt rx rx
  | Many rx               \<comment> \<open>\<open>r*\<close>\<close>

definition word_char :: "char \<Rightarrow> bool" where
  "word_char c = (is_alpha c \<or> is_digit c \<or> c = CHR ''_'' \<or>
     (let n = of_char c :: nat in n = 178 \<or> n = 179 \<or> n = 185 \<or> (188 \<le> n \<and> n \<le> 190)))"

definition word_next :: "string \<Rightarrow> bool" where
  "word_next s = (case s of [] \<Rightarrow> False | c # _ \<Rightarrow> word_char c)"

definition same_letter :: "char \<Rightarrow> char \<Rightarrow> bool" where
  "same_letter a b = (char_lower a = char_lower b)"

definition eat :: "(char \<Rightarrow> bool) \<Rightarrow> string \<Rightarrow> (bool \<times> string) list" where
  "eat P s = (case s of [] \<Rightarrow> [] | c # t \<Rightarrow> if P c then [(word_char c, t)] else [])"

text \<open>
  \<open>ends r w s\<close> are the places where a match of \<open>r\<close> may end that begins before \<open>s\<close>: each is the
  text that is left and whether the character before it is a word character, which \<open>w\<close> tells of
  \<open>s\<close> and \<open>Bound\<close> asks for.
\<close>

function (sequential) ends :: "rx \<Rightarrow> bool \<Rightarrow> string \<Rightarrow> (bool \<times> string) list" where
  "ends Eps w s = [(w, s)]"
| "ends (Lit a) w s = eat (same_letter a) s"
| "ends (Cls as) w s = eat (\<lambda>c. list_ex (\<lambda>a. same_letter a c) as) s"
| "ends Dot w s = eat (\<lambda>c. of_char c \<noteq> (10::nat)) s"
| "ends (NotIn cs) w s = eat (\<lambda>c. c \<notin> set cs) s"
| "ends Space w s = eat py_space s"
| "ends WordChar w s = eat word_char s"
| "ends Bound w s = (if w \<noteq> word_next s then [(w, s)] else [])"
| "ends (Cat p q) w s = concat (map (\<lambda>(v, t). ends q v t) (ends p w s))"
| "ends (Alt p q) w s = ends p w s @ ends q w s"
| "ends (Many r) w s = (w, s) # concat (map (\<lambda>(v, t).
     if length t < length s then ends (Many r) v t else []) (ends r w s))"
  by pat_completeness auto

termination ends
  by (relation "inv_image (less_than <*lex*> less_than) (\<lambda>(r, _, s). (size r, length s))") auto

text \<open>\<open>pattern.search(s)\<close>\<close>

fun search_from :: "rx \<Rightarrow> bool \<Rightarrow> string \<Rightarrow> bool" where
  "search_from r w [] = (ends r w [] \<noteq> [])"
| "search_from r w (c # s) = (ends r w (c # s) \<noteq> [] \<or> search_from r (word_char c) s)"

definition rx_search :: "rx \<Rightarrow> string \<Rightarrow> bool" where
  "rx_search r s = search_from r False s"

fun rx_seq :: "rx list \<Rightarrow> rx" where
  "rx_seq [] = Eps"
| "rx_seq [r] = r"
| "rx_seq (r # q # rs) = Cat r (rx_seq (q # rs))"

definition rx_word :: "string \<Rightarrow> rx" where
  "rx_word s = rx_seq (map Lit s)"

definition rx_some :: "rx \<Rightarrow> rx" where
  "rx_some r = Cat r (Many r)"

definition rx_opt :: "rx \<Rightarrow> rx" where
  "rx_opt r = Alt r Eps"

lemma search_from_iff:
  "search_from r w s \<longleftrightarrow> ends r w s \<noteq> [] \<or>
     (\<exists>a c b. s = a @ c # b \<and> ends r (word_char c) b \<noteq> [])"
proof (induction s arbitrary: w)
  case (Cons x s)
  show ?case
  proof (cases "ends r w (x # s) \<noteq> []")
    case False
    have "(\<exists>a c b. x # s = a @ c # b \<and> ends r (word_char c) b \<noteq> []) \<longleftrightarrow>
       ends r (word_char x) s \<noteq> [] \<or> (\<exists>a c b. s = a @ c # b \<and> ends r (word_char c) b \<noteq> [])"
      by (auto simp: Cons_eq_append_conv)
    with False Cons.IH [of "word_char x"] show ?thesis by simp
  qed simp
qed simp

section \<open>Splitting a command line\<close>

definition shell_blank :: "char \<Rightarrow> bool" where
  "shell_blank c = (let n = of_char c :: nat in n = 32 \<or> n = 9 \<or> n = 13 \<or> n = 10)"

abbreviation sq :: char where "sq \<equiv> CHR 0x27"
abbreviation dq :: char where "dq \<equiv> CHR 0x22"
abbreviation backslash :: char where "backslash \<equiv> CHR 0x5C"

text \<open>
  The states of \<open>shlex.read_token\<close> in POSIX mode with \<open>whitespace_split\<close> and no comments: between
  tokens, in a word, in quotes, after a backslash in a word, after one in double quotes. \<open>None\<close> is
  the \<open>ValueError\<close> of an open quote or a trailing backslash.
\<close>

datatype lex_state = Between | InWord | InQuotes char | Escaped | EscapedInQuotes

definition emit :: "string \<Rightarrow> bool \<Rightarrow> string list \<Rightarrow> string list" where
  "emit tok quoted rest = (if tok \<noteq> '''' \<or> quoted then tok # rest else rest)"

fun shlex :: "lex_state \<Rightarrow> string \<Rightarrow> bool \<Rightarrow> string \<Rightarrow> string list option" where
  "shlex Between tok quoted [] = Some []"
| "shlex Between tok quoted (c # s) =
     (if shell_blank c then shlex Between '''' False s
      else if c = backslash then shlex Escaped '''' False s
      else if c = sq \<or> c = dq then shlex (InQuotes c) '''' False s
      else shlex InWord [c] False s)"
| "shlex (InQuotes k) tok quoted [] = None"
| "shlex (InQuotes k) tok quoted (c # s) =
     (if c = k then shlex InWord tok True s
      else if c = backslash \<and> k = dq then shlex EscapedInQuotes tok True s
      else shlex (InQuotes k) (tok @ [c]) True s)"
| "shlex Escaped tok quoted [] = None"
| "shlex Escaped tok quoted (c # s) = shlex InWord (tok @ [c]) quoted s"
| "shlex EscapedInQuotes tok quoted [] = None"
| "shlex EscapedInQuotes tok quoted (c # s) =
     shlex (InQuotes dq) (tok @ (if c \<noteq> backslash \<and> c \<noteq> dq then [backslash] else []) @ [c]) quoted s"
| "shlex InWord tok quoted [] = Some (emit tok quoted [])"
| "shlex InWord tok quoted (c # s) =
     (if shell_blank c then map_option (emit tok quoted) (shlex Between '''' False s)
      else if c = sq \<or> c = dq then shlex (InQuotes c) tok quoted s
      else if c = backslash then shlex Escaped tok quoted s
      else shlex InWord (tok @ [c]) quoted s)"

definition shlex_split :: "string \<Rightarrow> string list option" where
  "shlex_split s = shlex Between '''' False s"

section \<open>Splitting at a character\<close>

text \<open>\<open>s.split(c)\<close>\<close>

fun split_at :: "char \<Rightarrow> string \<Rightarrow> string list" where
  "split_at c [] = [[]]"
| "split_at c (x # s) = (if x = c then [] # split_at c s
     else (case split_at c s of [] \<Rightarrow> [[x]] | p # ps \<Rightarrow> (x # p) # ps))"

lemma split_at_ne [simp]: "split_at c s \<noteq> []"
  by (induction s) (auto split: list.splits)

lemma split_at_parts: "p \<in> set (split_at c s) \<Longrightarrow> c \<notin> set p"
  by (induction s arbitrary: p) (auto split: list.splits if_splits)

lemma join_split_at: "join [c] (split_at c s) = s"
proof (induction s)
  case (Cons x s)
  obtain p ps where p: "split_at c s = p # ps" by (cases "split_at c s") auto
  have "join [c] ((x # p) # ps) = x # join [c] (p # ps)" by (cases ps) auto
  moreover have "join [c] ([] # p # ps) = c # join [c] (p # ps)" by simp
  ultimately show ?case using Cons p by auto
qed simp

section \<open>POSIX paths\<close>

text \<open>
  A \<open>PurePosixPath\<close>: its root (empty, \<open>/\<close>, or \<open>//\<close> for exactly two leading slashes) and its
  components without the empty ones and the dots.
\<close>

datatype ppath = PPath (path_root: string) (path_names: "string list")

definition path_of :: "string \<Rightarrow> ppath" where
  "path_of s = PPath
     (if is_prefix ''//'' s \<and> \<not> is_prefix ''///'' s then ''//'' else if is_prefix ''/'' s then ''/'' else '''')
     (filter (\<lambda>p. p \<noteq> '''' \<and> p \<noteq> ''.'') (split_at CHR ''/'' s))"

definition path_str :: "ppath \<Rightarrow> string" where
  "path_str p = (if path_root p = '''' \<and> path_names p = [] then ''.''
     else path_root p @ join ''/'' (path_names p))"

definition path_name :: "ppath \<Rightarrow> string" where
  "path_name p = (if path_names p = [] then '''' else last (path_names p))"

text \<open>\<open>p / name / ...\<close> for plain names\<close>

definition path_join :: "ppath \<Rightarrow> string list \<Rightarrow> ppath" where
  "path_join p names = PPath (path_root p) (path_names p @ names)"

text \<open>\<open>p.relative_to(r)\<close> succeeds\<close>

definition is_below :: "ppath \<Rightarrow> ppath \<Rightarrow> bool" where
  "is_below p r = (path_root p = path_root r \<and> is_prefix (path_names r) (path_names p))"

lemma is_below_refl [simp]: "is_below p p"
  using is_prefix_iff by (fastforce simp: is_below_def)

lemma is_below_join [simp]: "is_below (path_join p names) p"
  using is_prefix_iff by (fastforce simp: is_below_def path_join_def)

lemma is_below_trans: "is_below p q \<Longrightarrow> is_below q r \<Longrightarrow> is_below p r"
  by (auto simp: is_below_def is_prefix_iff)

section \<open>Shell patterns\<close>

text \<open>
  \<open>fnmatch.translate\<close>: a pattern is a list of pieces. The text of a bracket expression is cut at
  its hyphens into chunks; the last character of a chunk and the first of the following one are the ends
  of a range, and a range whose ends are in the wrong order is removed with both of them.
\<close>

datatype piece = Star | AnyChar | OneOf bool "(char \<times> char) list" | Exactly char

text \<open>The chunks of \<open>s\<close>, where a hyphen cuts from the \<open>k\<close>-th character on and then again from
  the third character after it.\<close>

fun chunks_from :: "nat \<Rightarrow> string \<Rightarrow> string \<Rightarrow> string list" where
  "chunks_from k acc [] = [acc]"
| "chunks_from 0 acc (c # s) = (if c = CHR ''-'' then acc # chunks_from 2 [] s
     else chunks_from 0 (acc @ [c]) s)"
| "chunks_from (Suc k) acc (c # s) = chunks_from k (acc @ [c]) s"

definition chunks :: "string \<Rightarrow> string list" where
  "chunks stuff = (let cs = chunks_from (if is_prefix ''!'' stuff then 2 else 1) [] stuff in
     if length cs > 1 \<and> last cs = [] then butlast (butlast cs) @ [last (butlast cs) @ ''-''] else cs)"

text \<open>The removal of the empty ranges, from the last chunk to the first.\<close>

fun drop_empty_ranges :: "string list \<Rightarrow> string list" where
  "drop_empty_ranges [] = []"
| "drop_empty_ranges (c # cs) = (case drop_empty_ranges cs of
      [] \<Rightarrow> [c]
    | d # ds \<Rightarrow> if c \<noteq> [] \<and> d \<noteq> [] \<and> hd d < last c then (butlast c @ tl d) # ds else c # d # ds)"

fun chunk_ranges :: "string list \<Rightarrow> (char \<times> char) list" where
  "chunk_ranges [] = []"
| "chunk_ranges [c] = map (\<lambda>x. (x, x)) c"
| "chunk_ranges (c # d # cs) = map (\<lambda>x. (x, x)) c @
     (if c \<noteq> [] \<and> d \<noteq> [] then [(last c, hd d)] else []) @ chunk_ranges (d # cs)"

definition bracket :: "string \<Rightarrow> piece" where
  "bracket stuff = (case drop_empty_ranges (chunks stuff) of
      (c # t) # cs \<Rightarrow> if c = CHR ''!'' then OneOf False (chunk_ranges (t # cs)) else OneOf True (chunk_ranges ((c # t) # cs))
    | cs \<Rightarrow> OneOf True (chunk_ranges cs))"

text \<open>The text of a bracket expression and what follows it: a closing bracket that comes first, or
  first after the exclamation mark, belongs to the text. \<open>None\<close> when it is not closed.\<close>

definition bracket_end :: "string \<Rightarrow> (string \<times> string) option" where
  "bracket_end s = (let
      n0 = (if is_prefix ''!'' s then 1 else 0);
      n = (if is_prefix '']'' (drop n0 s) then n0 + 1 else n0);
      r = dropWhile (\<lambda>c. c \<noteq> CHR '']'') (drop n s)
    in if r = [] then None else Some (take n s @ takeWhile (\<lambda>c. c \<noteq> CHR '']'') (drop n s), tl r))"

lemma bracket_end_shorter: "bracket_end s = Some (stuff, t) \<Longrightarrow> length t < length s"
proof -
  assume "bracket_end s = Some (stuff, t)"
  then obtain n where r: "dropWhile (\<lambda>c. c \<noteq> CHR '']'') (drop n s) \<noteq> []"
      "t = tl (dropWhile (\<lambda>c. c \<noteq> CHR '']'') (drop n s))"
    by (auto simp: bracket_end_def Let_def split: if_splits)
  have "length (dropWhile (\<lambda>c. c \<noteq> CHR '']'') (drop n s)) \<le> length s"
    using length_dropWhile_le [of "\<lambda>c. c \<noteq> CHR '']''" "drop n s"] by simp
  moreover have "0 < length (dropWhile (\<lambda>c. c \<noteq> CHR '']'') (drop n s))" using r(1) by blast
  ultimately show ?thesis using r(2) length_tl by (metis diff_less less_le_trans zero_less_one)
qed

function pieces :: "string \<Rightarrow> piece list" where
  "pieces [] = []"
| "pieces (c # s) =
     (if c = CHR ''*'' then Star # pieces s
      else if c = CHR ''?'' then AnyChar # pieces s
      else if c = CHR ''['' then (case bracket_end s of
          None \<Rightarrow> Exactly c # pieces s
        | Some (stuff, t) \<Rightarrow> bracket stuff # pieces t)
      else Exactly c # pieces s)"
  by pat_completeness auto

termination pieces
  by (relation "measure length") (auto dest: bracket_end_shorter)

fun piece_ok :: "piece \<Rightarrow> char \<Rightarrow> bool" where
  "piece_ok Star c = True"
| "piece_ok AnyChar c = True"
| "piece_ok (OneOf pos rs) c = (list_ex (\<lambda>(a, b). a \<le> c \<and> c \<le> b) rs = pos)"
| "piece_ok (Exactly a) c = (a = c)"

fun glob_match :: "piece list \<Rightarrow> string \<Rightarrow> bool" where
  "glob_match [] s = (s = [])"
| "glob_match (Star # ps) [] = glob_match ps []"
| "glob_match (Star # ps) (c # s) = (glob_match ps (c # s) \<or> glob_match (Star # ps) s)"
| "glob_match (p # ps) [] = False"
| "glob_match (p # ps) (c # s) = (piece_ok p c \<and> glob_match ps s)"

definition fnmatch :: "string \<Rightarrow> string \<Rightarrow> bool" where
  "fnmatch name pat = glob_match (pieces pat) name"

definition glob_char :: "char \<Rightarrow> bool" where
  "glob_char c = (c = CHR ''*'' \<or> c = CHR ''?'' \<or> c = CHR ''['')"

text \<open>A pattern without wildcards matches itself only.\<close>

lemma glob_match_exactly: "glob_match (map Exactly p) s \<longleftrightarrow> s = p"
proof (induction p arbitrary: s)
  case (Cons x p) then show ?case by (cases s) auto
qed simp

lemma pieces_plain: "list_all (\<lambda>c. \<not> glob_char c) p \<Longrightarrow> pieces p = map Exactly p"
  by (induction p) (auto simp: glob_char_def)

lemma fnmatch_plain: "list_all (\<lambda>c. \<not> glob_char c) p \<Longrightarrow> fnmatch s p \<longleftrightarrow> s = p"
  by (simp add: fnmatch_def pieces_plain glob_match_exactly)

lemma glob_match_star: "glob_match (Star # ps) s \<longleftrightarrow> (\<exists>a b. s = a @ b \<and> glob_match ps b)"
proof (induction s)
  case (Cons c s)
  then show ?case by (auto simp: Cons_eq_append_conv)
qed simp

end
