(* ===== verification/Exec_Safety.thy ===== *)
theory Exec_Safety
  imports Exec_Text
begin

text \<open>
  What the program knows of a command before it runs it: \<open>src/flowly/exec/safety.py\<close> and
  \<open>src/flowly/protected_paths.py\<close> on a POSIX host. The host (home directories, symbolic links, the
  files that exist, \<open>PATH\<close>) is a record of functions. An exception that leaves a function is \<open>Inl\<close>
  of its class.
\<close>

datatype py_error = RuntimeError | OSError | ValueError

datatype file_kind = RegularFile | Directory | OtherKind

datatype stat_result = StatMissing | StatFound file_kind | StatFails

text \<open>
  \<open>h_home\<close> is \<open>Path.home()\<close>, \<open>h_user_home\<close> the home of a named user, \<open>h_resolve\<close> is
  \<open>resolve(strict=False)\<close>, \<open>h_stat\<close> the outcome of \<open>stat\<close> (found, and of which kind; absent;
  or an error that \<open>exists\<close> does not ignore, such as a name that is too long), \<open>h_which\<close> is
  \<open>shutil.which\<close>, \<open>h_uid\<close> the text of \<open>os.getuid()\<close>, \<open>h_profile_desktops\<close> the sorted matches of
  \<open>~/.flowly/profiles/*/desktop\<close>, and \<open>h_op_order\<close> the order in which Python visits the set
  \<open>DISALLOWED_PIPELINE_OPS\<close>.
\<close>

record host =
  h_home :: ppath
  h_user_home :: "string \<Rightarrow> string option"
  h_resolve :: "ppath \<Rightarrow> py_error + ppath"
  h_stat :: "ppath \<Rightarrow> stat_result"
  h_which :: "string \<Rightarrow> string option"
  h_uid :: string
  h_profile_desktops :: "string list"
  h_op_order :: "string list"

definition expanduser :: "host \<Rightarrow> ppath \<Rightarrow> py_error + ppath" where
  "expanduser h p = (case path_names p of
      (c # u) # names \<Rightarrow>
        if path_root p = '''' \<and> c = CHR ''~'' then
          (if u = '''' then Inr (path_join (h_home h) names)
           else case h_user_home h u of
               None \<Rightarrow> Inl RuntimeError
             | Some d \<Rightarrow> Inr (path_join (path_of d) names))
        else Inr p
    | _ \<Rightarrow> Inr p)"

section \<open>Protected paths\<close>

definition screen_directories :: "host \<Rightarrow> ppath list" where
  "screen_directories h = path_join (h_home h) [''.flowly'', ''desktop''] # map path_of (h_profile_desktops h)"

definition hardcoded_protected_roots :: "host \<Rightarrow> ppath list" where
  "hardcoded_protected_roots h =
     map (path_join (h_home h))
       [ [''.ssh''], [''.aws''], [''.kube''], [''.gnupg''],
         [''.docker'', ''config.json''], [''.npmrc''], [''.netrc''], [''.pypirc''],
         [''.cargo'', ''credentials''], [''.cargo'', ''credentials.toml''],
         [''Library'', ''Keychains''],
         [''Library'', ''Application Support'', ''Google'', ''Chrome'', ''Default'', ''Cookies''],
         [''Library'', ''Application Support'', ''Google'', ''Chrome'', ''Default'', ''Login Data''],
         [''Library'', ''Application Support'', ''Firefox''],
         [''.flowly'', ''credentials''], [''.flowly'', ''sessions''],
         [''.flowly'', ''subagents'', ''sessions''], [''.flowly'', ''config.json''],
         [''.flowly'', ''electron-api.json''], [''.flowly'', ''desktop-client-id''] ]
     @ [path_of ''/run/flowly-screen'', path_of ''/var/lib/flowly-screen-runtime'',
        path_join (path_of ''/tmp'') [''flowly-screen-'' @ h_uid h]]
     @ screen_directories h
     @ map path_of
       [ ''/etc/shadow'', ''/etc/sudoers'', ''/etc/sudoers.d'', ''/etc/master.passwd'',
         ''/private/etc/sudoers'', ''/private/etc/master.passwd'' ]"

definition normalize :: "host \<Rightarrow> ppath \<Rightarrow> ppath option" where
  "normalize h p = (case expanduser h p of
      Inl _ \<Rightarrow> None
    | Inr q \<Rightarrow> (case h_resolve h q of Inl _ \<Rightarrow> None | Inr r \<Rightarrow> Some r))"

definition is_protected_path :: "host \<Rightarrow> ppath \<Rightarrow> bool" where
  "is_protected_path h target = (case normalize h target of
      None \<Rightarrow> False
    | Some resolved \<Rightarrow> list_ex (\<lambda>r. case normalize h r of
          None \<Rightarrow> False
        | Some root_resolved \<Rightarrow> resolved = root_resolved \<or> is_below resolved root_resolved)
        (hardcoded_protected_roots h))"

definition strip_quotes :: "string \<Rightarrow> string" where
  "strip_quotes s = rev (dropWhile (\<lambda>c. c = sq \<or> c = dq) (rev (dropWhile (\<lambda>c. c = sq \<or> c = dq) s)))"

definition path_like :: "string \<Rightarrow> bool" where
  "path_like s = (is_prefix ''/'' s \<or> is_prefix ''~'' s \<or> contains ''/'' s)"

text \<open>The part of \<open>_flags_path\<close> for a text with a wildcard: \<open>fixed\<close> is what stands before it.\<close>

definition ends_with :: "'a list \<Rightarrow> 'a list \<Rightarrow> bool" where
  "ends_with p s = is_prefix (rev p) (rev s)"

definition glob_reaches :: "host \<Rightarrow> string \<Rightarrow> py_error + bool" where
  "glob_reaches h fixed = (case (if fixed = '''' then Inr ''''
        else case expanduser h (path_of fixed) of Inl e \<Rightarrow> Inl e | Inr p \<Rightarrow> Inr (path_str p)) of
      Inl e \<Rightarrow> Inl e
    | Inr prefix0 \<Rightarrow>
        let prefix = (if ends_with ''/'' fixed \<and> \<not> ends_with ''/'' prefix0 then prefix0 @ ''/'' else prefix0)
        in Inr (length prefix > 1 \<and>
             list_ex (\<lambda>r. list_ex (\<lambda>f. is_prefix prefix f \<or> is_prefix (f @ ''/'') prefix)
                [path_str r, path_str (case normalize h r of None \<Rightarrow> r | Some n \<Rightarrow> n)])
               (hardcoded_protected_roots h)))"

definition flags_path :: "host \<Rightarrow> string \<Rightarrow> py_error + bool" where
  "flags_path h text0 = (let txt0 = strip_quotes text0 in
     if txt0 = '''' \<or> \<not> path_like txt0 then Inr False
     else if list_ex glob_char txt0 then
       (let fixed = takeWhile (\<lambda>c. \<not> glob_char c) txt0 in
        case glob_reaches h fixed of
          Inl e \<Rightarrow> Inl e
        | Inr True \<Rightarrow> Inr True
        | Inr False \<Rightarrow> Inr (fixed \<noteq> '''' \<and> is_protected_path h (path_of fixed)))
     else Inr (is_protected_path h (path_of txt0)))"

fun any_flagged :: "host \<Rightarrow> string list \<Rightarrow> py_error + bool" where
  "any_flagged h [] = Inr False"
| "any_flagged h (p # ps) = (case flags_path h p of
      Inl e \<Rightarrow> Inl e | Inr True \<Rightarrow> Inr True | Inr False \<Rightarrow> any_flagged h ps)"

definition redirect_char :: "char \<Rightarrow> bool" where
  "redirect_char c = (c = CHR ''<'' \<or> c = CHR ''>'' \<or> c = CHR ''&'' \<or> is_digit c)"

text \<open>The body of the loop over the tokens of a command.\<close>

definition token_flagged :: "host \<Rightarrow> string \<Rightarrow> py_error + bool" where
  "token_flagged h token = (let clean = dropWhile redirect_char token in
     if clean = '''' then Inr False
     else case any_flagged h (tl (split_at CHR ''='' clean)) of
         Inl e \<Rightarrow> Inl e
       | Inr True \<Rightarrow> Inr True
       | Inr False \<Rightarrow>
           if \<not> path_like clean then Inr False
           else if strip_quotes clean = '''' then Inr False
           else flags_path h (strip_quotes clean))"

fun flagged_tokens :: "host \<Rightarrow> string list \<Rightarrow> py_error + string list" where
  "flagged_tokens h [] = Inr []"
| "flagged_tokens h (t # ts) = (case token_flagged h t of
      Inl e \<Rightarrow> Inl e
    | Inr f \<Rightarrow> (case flagged_tokens h ts of
        Inl e \<Rightarrow> Inl e
      | Inr fs \<Rightarrow> Inr (if f then t # fs else fs)))"

definition command_tokens :: "string \<Rightarrow> string list" where
  "command_tokens command = (case shlex_split command of
      Some tokens \<Rightarrow> tokens
    | None \<Rightarrow> words (filter (\<lambda>c. c \<noteq> sq \<and> c \<noteq> dq) command))"

definition find_protected_paths_in_command :: "host \<Rightarrow> string \<Rightarrow> py_error + string list" where
  "find_protected_paths_in_command h command = flagged_tokens h (command_tokens command)"

section \<open>Dangerous commands\<close>

definition DEFAULT_SAFE_BINS :: "string list" where
  "DEFAULT_SAFE_BINS = [''jq'', ''grep'', ''cut'', ''sort'', ''uniq'', ''head'', ''tail'', ''tr'', ''wc'',
     ''cat'', ''echo'', ''date'', ''whoami'', ''pwd'', ''hostname'', ''uname'']"

definition SHELL_METACHARS :: string where
  "SHELL_METACHARS = '';&|`$<>''"

definition rm_prefix :: "rx list" where
  "rm_prefix = [Bound, rx_word ''rm'', rx_some Space,
     Many (rx_seq [Lit CHR ''-'', rx_some (Cls ''rf''), rx_some Space])]"

definition pipe_to_shell :: "string \<Rightarrow> rx" where
  "pipe_to_shell tool = rx_seq [Bound, rx_word tool, Bound, Many Dot, Lit CHR ''|'', Many Space,
     rx_opt (rx_word ''ba''), rx_word ''sh'']"

text \<open>The parentheses of \<open>:(){.*};:\<close> are an empty group and match nothing.\<close>

definition DANGEROUS_PATTERNS :: "rx list" where
  "DANGEROUS_PATTERNS =
     [ rx_seq (rm_prefix @ [Lit CHR ''/'']),
       rx_seq (rm_prefix @ [Lit CHR ''~'']),
       rx_seq (rm_prefix @ [rx_word ''$HOME'']),
       rx_seq [Bound, rx_word ''sudo'', Bound],
       rx_seq [Bound, rx_word ''chmod'', rx_some Space, rx_word ''777''],
       rx_seq [Bound, rx_word ''chown'', Bound, Many Dot, rx_word ''root''],
       rx_seq [Bound, rx_word ''mkfs'', Bound],
       rx_seq [Bound, rx_word ''dd'', Bound, Many Dot, rx_word ''of=/''],
       rx_seq [Lit CHR ''>'', Many Space, rx_word ''/dev/'',
         foldr (\<lambda>w r. Alt (rx_word w) r) [''sd'', ''nvme'', ''hd'', ''mapper'', ''disk'', ''rdisk'', ''loop''] (rx_word ''ram'')],
       pipe_to_shell ''curl'',
       pipe_to_shell ''wget'',
       rx_seq [Lit CHR '':'', Eps, Lit CHR ''{'', Many Dot, rx_word ''};:''],
       rx_seq [Bound, rx_word ''killall'', Bound],
       rx_seq [Bound, rx_word ''pkill'', rx_some Space, rx_word ''-9''],
       rx_seq [Bound, rx_word ''launchctl'', rx_some Space, rx_word ''unload''],
       rx_seq [Bound, rx_word ''systemctl'', rx_some Space,
         Alt (rx_word ''stop'') (Alt (rx_word ''disable'') (rx_word ''mask''))],
       rx_seq [Bound, rx_word ''npm'', rx_some Space, rx_word ''publish'', Bound],
       rx_seq [Bound, rx_word ''git'', rx_some Space, rx_word ''push'', rx_some Space, Many Dot, rx_word ''--force''] ]"

definition has_dangerous_pattern :: "string \<Rightarrow> bool" where
  "has_dangerous_pattern command = list_ex (\<lambda>p. rx_search p command) DANGEROUS_PATTERNS"

definition DISALLOWED_PIPELINE_OPS :: "string list" where
  "DISALLOWED_PIPELINE_OPS = [''||'', ''|&'', ''`'', ''$('', [CHR 0x0A], [CHR 0x0D], ''('', '')'']"

definition is_safe_executable :: "string option \<Rightarrow> bool" where
  "is_safe_executable value = (case value of
      None \<Rightarrow> False
    | Some v \<Rightarrow> (let t = strip v in t \<noteq> '''' \<and>
        list_all (\<lambda>c. of_char c \<noteq> (0::nat) \<and> of_char c \<noteq> (10::nat) \<and> of_char c \<noteq> (13::nat) \<and> c \<notin> set SHELL_METACHARS) t))"

definition is_path_text :: "string \<Rightarrow> bool" where
  "is_path_text s = (CHR ''/'' \<in> set s \<or> backslash \<in> set s)"

definition resolve_executable :: "host \<Rightarrow> string \<Rightarrow> py_error + string option" where
  "resolve_executable h name =
     (if is_path_text name then
        (case expanduser h (path_of name) of
           Inl e \<Rightarrow> Inl e
         | Inr q \<Rightarrow> (case h_resolve h q of
             Inl e \<Rightarrow> Inl e
           | Inr path \<Rightarrow> (case h_stat h path of
               StatMissing \<Rightarrow> Inr None
             | StatFails \<Rightarrow> Inl OSError
             | StatFound kind \<Rightarrow> Inr (if kind = RegularFile then Some (path_str path) else None))))
      else Inr (h_which h name))"

fun safe_args :: "host \<Rightarrow> string list \<Rightarrow> py_error + bool" where
  "safe_args h [] = Inr True"
| "safe_args h (a # as) =
     (if is_prefix ''-'' a then safe_args h as
      else if is_path_text a \<or> is_prefix ''~'' a then Inr False
      else case h_stat h (path_of a) of
          StatFails \<Rightarrow> Inl OSError
        | StatFound _ \<Rightarrow> Inr False
        | StatMissing \<Rightarrow> safe_args h as)"

definition is_safe_bin :: "host \<Rightarrow> string \<Rightarrow> string list \<Rightarrow> py_error + bool" where
  "is_safe_bin h executable args =
     (let name = (if is_path_text executable then path_name (path_of executable) else executable) in
      if name \<in> set DEFAULT_SAFE_BINS then safe_args h args else Inr False)"

definition split_pipeline :: "string \<Rightarrow> bool \<times> string option \<times> string list" where
  "split_pipeline command =
     (let segments = filter (\<lambda>s. s \<noteq> '''') (map strip (split_at CHR ''|'' command)) in
      if segments = [] then (False, Some ''Empty pipeline'', []) else (True, None, segments))"

definition analyze_pipeline_risk :: "host \<Rightarrow> string \<Rightarrow> string list" where
  "analyze_pipeline_risk h command =
     (case find (\<lambda>op. contains op command) (h_op_order h) of
        None \<Rightarrow> [] | Some op \<Rightarrow> [''Uses shell operator: '' @ py_repr op])
     @ (if contains ''$('' command \<or> contains ''`'' command then [''Uses command substitution''] else [])
     @ (if contains ''<'' command \<or> contains ''>'' command then [''Uses shell redirection''] else [])"

definition parse_command :: "string \<Rightarrow> string option \<times> string list" where
  "parse_command command = (case shlex_split command of
      Some (p # ps) \<Rightarrow> (Some p, ps)
    | _ \<Rightarrow> (None, []))"

section \<open>Analysis of a command\<close>

record analysis =
  an_ok :: bool
  an_reason :: "string option"
  an_executable :: "string option"
  an_resolved_path :: "string option"
  an_args :: "string list"
  an_is_pipeline :: bool
  an_segments :: "string list"
  an_has_dangerous_chars :: bool
  an_is_safe_bin :: bool
  an_risk_reasons :: "string list"

definition rejected :: "string \<Rightarrow> bool \<Rightarrow> string list \<Rightarrow> analysis" where
  "rejected reason dangerous risks = \<lparr>an_ok = False, an_reason = Some reason, an_executable = None,
     an_resolved_path = None, an_args = [], an_is_pipeline = False, an_segments = [],
     an_has_dangerous_chars = dangerous, an_is_safe_bin = False, an_risk_reasons = risks\<rparr>"

text \<open>\<open>if msg not in reasons: reasons.append(msg)\<close>\<close>

definition add_reason :: "string list \<Rightarrow> string \<Rightarrow> string list" where
  "add_reason reasons msg = (if msg \<in> set reasons then reasons else reasons @ [msg])"

definition command_risks :: "host \<Rightarrow> string \<Rightarrow> string list" where
  "command_risks h command = foldl add_reason
     ((if list_ex (\<lambda>c. of_char c = (10::nat) \<or> of_char c = (13::nat)) command
       then [''Multi-line command (newlines / heredoc)''] else [])
      @ (if has_dangerous_pattern command then [''Matches dangerous command pattern''] else []))
     (analyze_pipeline_risk h command)"

definition segment_risks :: "string list \<Rightarrow> string list \<Rightarrow> string list" where
  "segment_risks risks segments = foldl add_reason risks
     (map (\<lambda>seg. ''Dangerous pattern in pipeline segment: '' @ take 60 seg) (filter has_dangerous_pattern segments))"

text \<open>The executable, where it is found and whether it is a safe one, for both kinds of command.\<close>

definition describe_command :: "host \<Rightarrow> string \<Rightarrow> string list \<Rightarrow> bool \<Rightarrow> string list \<Rightarrow> string list \<Rightarrow> py_error + analysis" where
  "describe_command h executable args pipeline segments risks =
     (case resolve_executable h executable of
        Inl e \<Rightarrow> Inl e
      | Inr resolved \<Rightarrow> (case is_safe_bin h executable args of
          Inl e \<Rightarrow> Inl e
        | Inr safe \<Rightarrow> Inr \<lparr>an_ok = True, an_reason = None, an_executable = Some executable,
            an_resolved_path = resolved, an_args = args, an_is_pipeline = pipeline, an_segments = segments,
            an_has_dangerous_chars = (risks \<noteq> []), an_is_safe_bin = safe, an_risk_reasons = risks\<rparr>))"

definition analyze_pipeline :: "host \<Rightarrow> string \<Rightarrow> string list \<Rightarrow> py_error + analysis" where
  "analyze_pipeline h command risks = (case split_pipeline command of
      (False, reason, _) \<Rightarrow>
        Inr ((rejected (the reason) True (risks @ [the reason])) \<lparr>an_is_pipeline := True\<rparr>)
    | (True, _, segments) \<Rightarrow>
        (let risks' = segment_risks risks segments in
         case parse_command (hd segments) of
           (Some (c # e), args) \<Rightarrow> describe_command h (c # e) args True segments risks'
         | (executable, args) \<Rightarrow> Inr \<lparr>an_ok = True, an_reason = None, an_executable = executable,
             an_resolved_path = None, an_args = args, an_is_pipeline = True, an_segments = segments,
             an_has_dangerous_chars = (risks' \<noteq> []), an_is_safe_bin = False, an_risk_reasons = risks'\<rparr>))"

definition analyze_single :: "host \<Rightarrow> string \<Rightarrow> string list \<Rightarrow> py_error + analysis" where
  "analyze_single h command risks = (case parse_command command of
      (Some (c # e), args) \<Rightarrow> describe_command h (c # e) args False []
        (risks @ (if list_ex (\<lambda>x. x \<in> set SHELL_METACHARS) (c # e)
           then [''Shell metacharacters in executable name''] else []))
    | _ \<Rightarrow> Inr (rejected ''Could not parse command'' (risks \<noteq> [])
        (if risks \<noteq> [] then risks else [''Unparseable command''])))"

definition analyze_command :: "host \<Rightarrow> string \<Rightarrow> py_error + analysis" where
  "analyze_command h raw = (let command = strip raw in
     if command = '''' then Inr (rejected ''Empty command'' False [])
     else if list_ex (\<lambda>c. of_char c = (0::nat)) command
       then Inr (rejected ''Null byte in command'' True [''Null byte in command''])
     else case find_protected_paths_in_command h command of
         Inl e \<Rightarrow> Inl e
       | Inr (f # fs) \<Rightarrow> Inr (rejected
           (''Command touches a protected path ('' @ f @ ''). Sensitive locations like SSH keys, cloud credentials, and the system keychain are always blocked.'')
           True (map (\<lambda>p. ''Touches protected path: '' @ p) (f # fs)))
       | Inr [] \<Rightarrow>
           if contains ''|'' command \<and> \<not> contains ''||'' command
           then analyze_pipeline h command (command_risks h command)
           else analyze_single h command (command_risks h command))"

end
