(* ===== verification/Exec_Env.thy ===== *)
theory Exec_Env
  imports Prelude
begin

text \<open>
  The environment of a child process: \<open>src/flowly/exec/env_scrub.py\<close> and
  \<open>src/flowly/exec/env_passthrough.py\<close>. An environment is a Python \<open>dict\<close>, a list of pairs in
  insertion order; \<open>map_of\<close> looks a name up.
\<close>

type_synonym environ = "(string \<times> string) list"

text \<open>\<open>d[key] = value\<close>\<close>

fun dict_set :: "'k \<Rightarrow> 'v \<Rightarrow> ('k \<times> 'v) list \<Rightarrow> ('k \<times> 'v) list" where
  "dict_set k v [] = [(k, v)]"
| "dict_set k v ((k', v') # d) = (if k' = k then (k, v) # d else (k', v') # dict_set k v d)"

lemma map_of_dict_set [simp]: "map_of (dict_set k v d) = (map_of d)(k \<mapsto> v)"
  by (induction k v d rule: dict_set.induct) auto

lemma keys_dict_set: "fst ` set (dict_set k v d) = insert k (fst ` set d)"
  by (induction k v d rule: dict_set.induct) (auto simp: insert_commute)

lemma distinct_dict_set: "distinct (map fst d) \<Longrightarrow> distinct (map fst (dict_set k v d))"
  by (induction k v d rule: dict_set.induct) (auto simp: keys_dict_set)

definition ENV_BLOCKLIST :: "string list" where
  "ENV_BLOCKLIST =
     [ ''ANTHROPIC_API_KEY'', ''ANTHROPIC_AUTH_TOKEN'', ''OPENAI_API_KEY'', ''OPENAI_ORG_ID'',
       ''OPENROUTER_API_KEY'', ''GEMINI_API_KEY'', ''GOOGLE_API_KEY'', ''GROQ_API_KEY'', ''XAI_API_KEY'',
       ''ZHIPU_API_KEY'', ''ZHIPUAI_API_KEY'', ''VLLM_API_KEY'', ''DEEPGRAM_API_KEY'', ''ELEVENLABS_API_KEY'',
       ''TELEGRAM_BOT_TOKEN'', ''DISCORD_BOT_TOKEN'', ''SLACK_BOT_TOKEN'', ''SLACK_APP_TOKEN'',
       ''WHATSAPP_BRIDGE_URL'', ''FLOWLY_JWT_SECRET'', ''FLOWLY_AUTH_TOKEN'', ''FLOWLY_GATEWAY_TOKEN'',
       ''FLOWLY_RELAY_TOKEN'', ''MOLTBOT_PROXY_JWT_SECRET'', ''FLOWLY_AGENT_SECRET'',
       ''FLOWLY_CHANNELS__FLOWLY_SERVER__AGENT_SECRET'', ''TRELLO_API_KEY'', ''TRELLO_TOKEN'',
       ''LINEAR_API_KEY'', ''X_BEARER_TOKEN'', ''X_API_KEY'', ''X_API_SECRET'', ''X_ACCESS_TOKEN'',
       ''X_ACCESS_TOKEN_SECRET'', ''TWITTER_BEARER_TOKEN'', ''TWITTER_API_KEY'', ''TWITTER_API_SECRET'',
       ''TWITTER_ACCESS_TOKEN'', ''TWITTER_ACCESS_TOKEN_SECRET'', ''BRAVE_API_KEY'', ''BRAVE_SEARCH_API_KEY'',
       ''HASS_TOKEN'', ''HOMEASSISTANT_TOKEN'', ''HOME_ASSISTANT_TOKEN'', ''TWILIO_AUTH_TOKEN'',
       ''TWILIO_ACCOUNT_SID'' ]"

definition FORCE_PREFIX :: string where
  "FORCE_PREFIX = ''__FLOWLY_FORCE__''"

definition is_flowly_credential :: "string \<Rightarrow> bool" where
  "is_flowly_credential name = (name \<in> set ENV_BLOCKLIST)"

section \<open>Names that skills and the operator let through\<close>

text \<open>The names of the current context, and those of \<open>tools.exec.env_passthrough\<close>.\<close>

record passthrough =
  pt_allowed :: "string list"
  pt_config :: "string list"

definition load_config_passthrough :: "pyval list \<Rightarrow> string list" where
  "load_config_passthrough items = remdups (map (\<lambda>i. strip (the_str i))
     (filter (\<lambda>i. is_str i \<and> strip (the_str i) \<noteq> '''') items))"

definition register_name :: "passthrough \<Rightarrow> string option \<Rightarrow> passthrough" where
  "register_name p raw = (let name = strip (case raw of None \<Rightarrow> '''' | Some s \<Rightarrow> s) in
     if name = '''' \<or> is_flowly_credential name then p
     else p\<lparr>pt_allowed := List.insert name (pt_allowed p)\<rparr>)"

definition register_env_passthrough :: "string option list \<Rightarrow> passthrough \<Rightarrow> passthrough" where
  "register_env_passthrough names p = foldl register_name p names"

definition clear_env_passthrough :: "passthrough \<Rightarrow> passthrough" where
  "clear_env_passthrough p = p\<lparr>pt_allowed := []\<rparr>"

definition is_env_passthrough :: "passthrough \<Rightarrow> string \<Rightarrow> bool" where
  "is_env_passthrough p name = (name \<in> set (pt_allowed p) \<or> name \<in> set (pt_config p))"

section \<open>The sanitiser\<close>

definition passes :: "passthrough \<Rightarrow> string \<Rightarrow> bool" where
  "passes p key = (\<not> is_flowly_credential key \<or> is_env_passthrough p key)"

definition keep_base :: "passthrough \<Rightarrow> environ \<Rightarrow> string \<times> string \<Rightarrow> environ" where
  "keep_base p env kv = (if is_prefix FORCE_PREFIX (fst kv) then env
     else if passes p (fst kv) then dict_set (fst kv) (snd kv) env else env)"

definition keep_extra :: "passthrough \<Rightarrow> environ \<Rightarrow> string \<times> string \<Rightarrow> environ" where
  "keep_extra p env kv =
     (if is_prefix FORCE_PREFIX (fst kv) then dict_set (drop (length FORCE_PREFIX) (fst kv)) (snd kv) env
      else if passes p (fst kv) then dict_set (fst kv) (snd kv) env else env)"

definition sanitize_subprocess_env :: "passthrough \<Rightarrow> environ option \<Rightarrow> environ option \<Rightarrow> environ" where
  "sanitize_subprocess_env p base extra =
     foldl (keep_extra p) (foldl (keep_base p) [] (case base of None \<Rightarrow> [] | Some b \<Rightarrow> b))
       (case extra of None \<Rightarrow> [] | Some e \<Rightarrow> e)"

section \<open>What reaches the child\<close>

text \<open>No skill makes a name of the blocklist pass, whatever it registers and in whatever order.\<close>

definition skills_clean :: "passthrough \<Rightarrow> bool" where
  "skills_clean p = list_all (\<lambda>n. \<not> is_flowly_credential n) (pt_allowed p)"

lemma register_name_clean: "skills_clean p \<Longrightarrow> skills_clean (register_name p raw)"
  by (auto simp: skills_clean_def register_name_def Let_def list_all_iff)

lemma register_clean: "skills_clean p \<Longrightarrow> skills_clean (register_env_passthrough names p)"
  unfolding register_env_passthrough_def
  by (induction names arbitrary: p) (auto intro: register_name_clean)

lemma register_config [simp]: "pt_config (register_env_passthrough names p) = pt_config p"
  unfolding register_env_passthrough_def
  by (induction names arbitrary: p) (auto simp: register_name_def Let_def)

text \<open>The value a name gets from the pairs of a list, the last one that sets it.\<close>

definition forced :: "string \<Rightarrow> string" where
  "forced k = FORCE_PREFIX @ k"

lemma is_force_iff: "is_prefix FORCE_PREFIX k \<longleftrightarrow> (\<exists>k'. k = forced k')"
  by (auto simp: is_prefix_iff forced_def)

lemma drop_forced [simp]: "drop (length FORCE_PREFIX) (forced k) = k"
  by (simp add: forced_def)

lemma keep_base_lookup:
  "map_of (foldl (keep_base p) env kvs) k =
     (if passes p k \<and> \<not> is_prefix FORCE_PREFIX k \<and> k \<in> fst ` set kvs
      then map_of (rev kvs) k else map_of env k)"
proof (induction kvs rule: rev_induct)
  case (snoc kv kvs)
  then show ?case by (cases kv) (auto simp: keep_base_def map_add_def)
qed simp

lemma map_of_rev_distinct: "distinct (map fst xs) \<Longrightarrow> map_of (rev xs) k = map_of xs k"
proof (induction xs)
  case (Cons x xs)
  then have "map_of xs (fst x) = None" by (simp add: map_of_eq_None_iff)
  with Cons show ?case by (auto simp: map_add_def split: option.splits)
qed simp

definition sets :: "passthrough \<Rightarrow> string \<Rightarrow> string \<times> string \<Rightarrow> bool" where
  "sets p k kv = (fst kv = forced k \<or> (fst kv = k \<and> \<not> is_prefix FORCE_PREFIX k \<and> passes p k))"

lemma keep_extra_step:
  "map_of (keep_extra p env kv) k = (if sets p k kv then Some (snd kv) else map_of env k)"
proof (cases "is_prefix FORCE_PREFIX (fst kv)")
  case True
  then obtain k' where "fst kv = forced k'" by (auto simp: is_force_iff)
  with True show ?thesis by (auto simp: keep_extra_def sets_def forced_def)
next
  case False
  then have "fst kv \<noteq> forced k" by (auto simp: is_force_iff)
  with False show ?thesis by (auto simp: keep_extra_def sets_def)
qed

lemma keep_extra_lookup:
  "map_of (foldl (keep_extra p) env kvs) k =
     (case filter (sets p k) kvs of [] \<Rightarrow> map_of env k | kv # r \<Rightarrow> Some (snd (last (kv # r))))"
proof (induction kvs rule: rev_induct)
  case (snoc kv kvs)
  then show ?case
    by (cases "filter (sets p k) kvs") (auto simp: keep_extra_step)
qed simp

end
