(* ===== verification/Exec_Approvals.thy ===== *)
theory Exec_Approvals
  imports Exec_Safety Exec_Env
begin

text \<open>
  The stored policy of command execution, its allowlist and the requests that wait for the owner:
  \<open>src/flowly/exec/approvals.py\<close>, with the owner's settings calls of
  \<open>src/flowly/channels/feature_rpc.py\<close>. The file and its modification time are part of the state,
  since several stores (the gateway's, the settings call's) share it. The lock is taken, a write
  succeeds; the time of a write is an input.
\<close>

record allow_entry =
  ae_pattern :: string
  ae_last_used_at :: "int option"
  ae_last_used_command :: "string option"
  ae_last_resolved_path :: "string option"

record exec_policy =
  xp_version :: int
  xp_security :: string
  xp_ask :: string
  xp_ask_fallback :: string
  xp_allowlist :: "allow_entry list"

definition default_policy :: exec_policy where
  "default_policy = \<lparr>xp_version = 1, xp_security = ''full'', xp_ask = ''off'', xp_ask_fallback = ''deny'', xp_allowlist = []\<rparr>"

datatype policy_file = NoFile | Unreadable | Stored exec_policy

record exec_request =
  rq_command :: string
  rq_cwd :: "string option"
  rq_timeout :: "int option"
  rq_env :: "environ option"
  rq_session_key :: "string option"

record pending =
  pe_id :: string
  pe_request :: exec_request
  pe_created_at :: real
  pe_expires_at :: real
  pe_session_key :: "string option"
  pe_resolved_path :: "string option"
  pe_risk_reasons :: "string list"
  pe_kind :: string
  pe_supports_always :: bool
  pe_run_id :: "string option"

datatype decision = AllowOnce | AllowAlways | Deny

text \<open>A store object and the file it shares with the others. The file has a modification time when it
  exists.\<close>

record approvals =
  ap_config :: "exec_policy option"
  ap_pending :: "(string \<times> pending) list"
  ap_loaded_mtime :: "real option"
  ap_file :: policy_file
  ap_mtime :: real

section \<open>Loading and saving\<close>

definition file_mtime :: "approvals \<Rightarrow> real option" where
  "file_mtime s = (if ap_file s = NoFile then None else Some (ap_mtime s))"

definition save :: "real \<Rightarrow> approvals \<Rightarrow> approvals" where
  "save t s = (case ap_config s of
      None \<Rightarrow> s
    | Some c \<Rightarrow> s\<lparr>ap_file := Stored c, ap_mtime := t, ap_loaded_mtime := Some t\<rparr>)"

text \<open>\<open>_legacy_exec_policy_seed\<close> on the values of \<open>tools.exec\<close> in \<open>config.json\<close>, if it can be read.\<close>

definition legacy_exec_policy_seed :: "(pyval \<times> pyval) option \<Rightarrow> (string \<times> string) option" where
  "legacy_exec_policy_seed cfg = (case cfg of
      None \<Rightarrow> None
    | Some (security, ask) \<Rightarrow>
        if security \<notin> PStr ` set [''deny'', ''allowlist'', ''full''] then None
        else Some (the_str security,
          if ask \<in> PStr ` set [''off'', ''on-miss'', ''always''] then the_str ask else ''off''))"

definition load :: "(pyval \<times> pyval) option \<Rightarrow> real \<Rightarrow> approvals \<Rightarrow> approvals" where
  "load legacy t s = (case ap_file s of
      NoFile \<Rightarrow> save t (s\<lparr>ap_config := Some (case legacy_exec_policy_seed legacy of
          Some (security, ask) \<Rightarrow> default_policy\<lparr>xp_security := security, xp_ask := ask\<rparr>
        | None \<Rightarrow> default_policy)\<rparr>)
    | Stored c \<Rightarrow> s\<lparr>ap_config := Some c, ap_loaded_mtime := file_mtime s\<rparr>
    | Unreadable \<Rightarrow> s\<lparr>ap_config := Some default_policy, ap_loaded_mtime := file_mtime s\<rparr>)"

definition refresh_if_changed :: "(pyval \<times> pyval) option \<Rightarrow> real \<Rightarrow> approvals \<Rightarrow> approvals" where
  "refresh_if_changed legacy t s =
     (if ap_config s = None then s
      else if file_mtime s \<noteq> None \<and> file_mtime s \<noteq> ap_loaded_mtime s then load legacy t s
      else s)"

text \<open>The property \<open>config\<close>, which loads the file on its first use.\<close>

definition with_config :: "(pyval \<times> pyval) option \<Rightarrow> real \<Rightarrow> approvals \<Rightarrow> approvals" where
  "with_config legacy t s = (if ap_config s = None then load legacy t s else s)"

definition policy :: "approvals \<Rightarrow> exec_policy" where
  "policy s = the (ap_config s)"

definition set_allowlist :: "allow_entry list \<Rightarrow> approvals \<Rightarrow> approvals" where
  "set_allowlist es s = s\<lparr>ap_config := Some ((policy s)\<lparr>xp_allowlist := es\<rparr>)\<rparr>"

section \<open>The allowlist\<close>

text \<open>The first entry that satisfies a test is changed; \<open>None\<close> when there is none.\<close>

fun touch_first :: "('a \<Rightarrow> bool) \<Rightarrow> ('a \<Rightarrow> 'a) \<Rightarrow> 'a list \<Rightarrow> 'a list option" where
  "touch_first P f [] = None"
| "touch_first P f (x # xs) = (if P x then Some (f x # xs) else map_option ((#) x) (touch_first P f xs))"

definition add_to_allowlist :: "(pyval \<times> pyval) option \<Rightarrow> real \<Rightarrow> int \<Rightarrow> string \<Rightarrow> string option \<Rightarrow> string option \<Rightarrow> approvals \<Rightarrow> approvals" where
  "add_to_allowlist legacy t now_ms pattern command resolved s0 = (let s = with_config legacy t s0 in
     save t (set_allowlist (case touch_first (\<lambda>e. ae_pattern e = pattern)
         (\<lambda>e. e\<lparr>ae_last_used_at := Some now_ms,
             ae_last_used_command := (if truthy command then command else ae_last_used_command e),
             ae_last_resolved_path := (if truthy resolved then resolved else ae_last_resolved_path e)\<rparr>)
         (xp_allowlist (policy s)) of
       Some es \<Rightarrow> es
     | None \<Rightarrow> xp_allowlist (policy s) @ [\<lparr>ae_pattern = pattern, ae_last_used_at = Some now_ms,
         ae_last_used_command = command, ae_last_resolved_path = resolved\<rparr>]) s))"

definition remove_from_allowlist :: "(pyval \<times> pyval) option \<Rightarrow> real \<Rightarrow> string \<Rightarrow> approvals \<Rightarrow> bool \<times> approvals" where
  "remove_from_allowlist legacy t pattern s0 = (let s = with_config legacy t s0;
      kept = filter (\<lambda>e. ae_pattern e \<noteq> pattern) (xp_allowlist (policy s)) in
    if length kept \<noteq> length (xp_allowlist (policy s)) then (True, save t (set_allowlist kept s))
    else (False, set_allowlist kept s))"

text \<open>The pattern of an entry after \<open>~\<close> is expanded; an unknown user raises.\<close>

definition entry_pattern :: "host \<Rightarrow> allow_entry \<Rightarrow> py_error + string" where
  "entry_pattern h e = (if is_prefix ''~'' (ae_pattern e)
     then (case expanduser h (path_of (ae_pattern e)) of Inl err \<Rightarrow> Inl err | Inr p \<Rightarrow> Inr (path_str p))
     else Inr (ae_pattern e))"

fun allowlist_scan :: "host \<Rightarrow> string \<Rightarrow> int \<Rightarrow> allow_entry list \<Rightarrow> py_error + allow_entry list option" where
  "allowlist_scan h resolved now_ms [] = Inr None"
| "allowlist_scan h resolved now_ms (e # es) = (case entry_pattern h e of
      Inl err \<Rightarrow> Inl err
    | Inr pat \<Rightarrow> if fnmatch resolved pat
        then Inr (Some (e\<lparr>ae_last_used_at := Some now_ms, ae_last_resolved_path := Some resolved\<rparr> # es))
        else (case allowlist_scan h resolved now_ms es of
            Inl err \<Rightarrow> Inl err
          | Inr None \<Rightarrow> Inr None
          | Inr (Some es') \<Rightarrow> Inr (Some (e # es'))))"

definition store_check_allowlist :: "host \<Rightarrow> (pyval \<times> pyval) option \<Rightarrow> real \<Rightarrow> int \<Rightarrow> string option \<Rightarrow> approvals \<Rightarrow> (py_error + bool) \<times> approvals" where
  "store_check_allowlist h legacy t now_ms resolved s0 =
     (if \<not> truthy resolved then (Inr False, s0)
      else let s = with_config legacy t s0 in
        case allowlist_scan h (the resolved) now_ms (xp_allowlist (policy s)) of
          Inl e \<Rightarrow> (Inl e, s)
        | Inr None \<Rightarrow> (Inr False, s)
        | Inr (Some es) \<Rightarrow> (Inr True, save t (set_allowlist es s)))"

text \<open>The function \<open>check_allowlist\<close>: the name of the executable alone decides for a safe one.\<close>

definition safe_name :: "string option \<Rightarrow> bool" where
  "safe_name executable = (case executable of
      None \<Rightarrow> False
    | Some x \<Rightarrow> x \<noteq> '''' \<and>
        (if CHR ''/'' \<in> set x then path_name (path_of x) else x) \<in> set DEFAULT_SAFE_BINS)"

definition check_allowlist :: "host \<Rightarrow> (pyval \<times> pyval) option \<Rightarrow> real \<Rightarrow> int \<Rightarrow> string option \<Rightarrow> string option \<Rightarrow> approvals \<Rightarrow> (py_error + bool) \<times> approvals" where
  "check_allowlist h legacy t now_ms resolved executable s =
     (if safe_name executable then (Inr True, s)
      else store_check_allowlist h legacy t now_ms resolved s)"

section \<open>Requests that wait\<close>

definition make_pending :: "string \<Rightarrow> real \<Rightarrow> int \<Rightarrow> exec_request \<Rightarrow> analysis \<Rightarrow> pending" where
  "make_pending i now timeout rq a = \<lparr>pe_id = i, pe_request = rq, pe_created_at = now,
     pe_expires_at = now + of_int timeout, pe_session_key = rq_session_key rq,
     pe_resolved_path = an_resolved_path a, pe_risk_reasons = an_risk_reasons a, pe_kind = ''exec'',
     pe_supports_always = (an_resolved_path a \<noteq> None), pe_run_id = None\<rparr>"

definition create_pending :: "host \<Rightarrow> string \<Rightarrow> real \<Rightarrow> int \<Rightarrow> exec_request \<Rightarrow> approvals \<Rightarrow> py_error + pending \<times> approvals" where
  "create_pending h i now timeout rq s = (case analyze_command h (rq_command rq) of
      Inl e \<Rightarrow> Inl e
    | Inr a \<Rightarrow> (let p = make_pending i now timeout rq a
        in Inr (p, s\<lparr>ap_pending := dict_set i p (ap_pending s)\<rparr>)))"

definition drop_pending :: "string \<Rightarrow> approvals \<Rightarrow> approvals" where
  "drop_pending i s = s\<lparr>ap_pending := filter (\<lambda>kv. fst kv \<noteq> i) (ap_pending s)\<rparr>"

definition get_pending :: "real \<Rightarrow> string \<Rightarrow> approvals \<Rightarrow> pending option \<times> approvals" where
  "get_pending now i s = (case map_of (ap_pending s) i of
      None \<Rightarrow> (None, s)
    | Some p \<Rightarrow> if pe_expires_at p < now then (None, drop_pending i s) else (Some p, s))"

definition resolve_pending :: "(pyval \<times> pyval) option \<Rightarrow> real \<Rightarrow> int \<Rightarrow> string \<Rightarrow> decision \<Rightarrow> approvals \<Rightarrow> bool \<times> approvals" where
  "resolve_pending legacy t now_ms i d s = (case map_of (ap_pending s) i of
      None \<Rightarrow> (False, s)
    | Some p \<Rightarrow> (True, (if d = AllowAlways \<and> truthy (pe_resolved_path p)
        then add_to_allowlist legacy t now_ms (the (pe_resolved_path p)) (Some (rq_command (pe_request p)))
          (pe_resolved_path p) (drop_pending i s)
        else drop_pending i s)))"

definition prune_expired :: "real \<Rightarrow> approvals \<Rightarrow> nat \<times> approvals" where
  "prune_expired now s = (let expired = filter (\<lambda>kv. pe_expires_at (snd kv) < now) (ap_pending s) in
     (length expired, s\<lparr>ap_pending := filter (\<lambda>kv. \<not> pe_expires_at (snd kv) < now) (ap_pending s)\<rparr>))"

definition requires_approval :: "exec_policy \<Rightarrow> bool \<Rightarrow> bool \<Rightarrow> bool" where
  "requires_approval c analysis_ok allowlist_satisfied =
     (xp_ask c = ''always'' \<or>
      (xp_ask c = ''on-miss'' \<and> xp_security c = ''allowlist'' \<and> (\<not> analysis_ok \<or> \<not> allowlist_satisfied)))"

section \<open>The owner's settings calls\<close>

text \<open>Each call works on a store of its own; what it leaves behind is the file.\<close>

definition fresh_store :: "approvals \<Rightarrow> approvals" where
  "fresh_store s = s\<lparr>ap_config := None, ap_pending := [], ap_loaded_mtime := None\<rparr>"

definition share_file :: "approvals \<Rightarrow> approvals \<Rightarrow> approvals" where
  "share_file other s = s\<lparr>ap_file := ap_file other, ap_mtime := ap_mtime other\<rparr>"

datatype rpc_error = InvalidParams string

text \<open>The patterns of \<open>allowlist\<close>, each already taken out of its object.\<close>

fun new_entries :: "pyval list \<Rightarrow> rpc_error + allow_entry list" where
  "new_entries [] = Inr []"
| "new_entries (v # vs) =
     (if \<not> is_str v \<or> strip (the_str v) = '''' then Inl (InvalidParams ''allowlist entries need a pattern'')
      else case new_entries vs of
          Inl e \<Rightarrow> Inl e
        | Inr es \<Rightarrow> Inr (\<lparr>ae_pattern = strip (the_str v), ae_last_used_at = None,
            ae_last_used_command = None, ae_last_resolved_path = None\<rparr> # es))"

definition exec_policy_set :: "(pyval \<times> pyval) option \<Rightarrow> real \<Rightarrow> pyval \<Rightarrow> pyval \<Rightarrow> pyval list option \<Rightarrow> approvals \<Rightarrow> (rpc_error + exec_policy) \<times> approvals" where
  "exec_policy_set legacy t security ask allowlist s =
     (if security \<noteq> PNone \<and> security \<notin> PStr ` set [''deny'', ''allowlist'', ''full''] then (Inl (InvalidParams ''Invalid security''), s)
      else if ask \<noteq> PNone \<and> ask \<notin> PStr ` set [''off'', ''on-miss'', ''always''] then (Inl (InvalidParams ''Invalid ask''), s)
      else if security = PNone \<and> ask = PNone \<and> allowlist = None then (Inl (InvalidParams ''Nothing to set''), s)
      else (let o1 = load legacy t (fresh_store s);
             c1 = (policy o1)\<lparr>xp_security := (if security = PNone then xp_security (policy o1) else the_str security),
                 xp_ask := (if ask = PNone then xp_ask (policy o1) else the_str ask)\<rparr>
           in case (case allowlist of None \<Rightarrow> Inr (xp_allowlist c1) | Some vs \<Rightarrow> new_entries vs) of
               Inl e \<Rightarrow> (Inl e, share_file o1 s)
             | Inr es \<Rightarrow> (let o2 = save t (o1\<lparr>ap_config := Some (c1\<lparr>xp_allowlist := es\<rparr>)\<rparr>)
                 in (Inr (policy o2), share_file o2 s))))"

definition exec_policy_allowlist_remove :: "(pyval \<times> pyval) option \<Rightarrow> real \<Rightarrow> string \<Rightarrow> approvals \<Rightarrow> (rpc_error + bool) \<times> approvals" where
  "exec_policy_allowlist_remove legacy t pattern s =
     (if pattern = '''' then (Inl (InvalidParams ''Missing pattern''), s)
      else (let (removed, o1) = remove_from_allowlist legacy t pattern (load legacy t (fresh_store s))
            in (Inr removed, share_file o1 s)))"

end
