(* ===== verification/Exec_Command.thy ===== *)
theory Exec_Command
  imports Exec_Approvals
begin

text \<open>
  Running a command: the security checks of \<open>execute_command\<close> in \<open>src/flowly/exec/executor.py\<close>,
  the shell text and environment it starts, the directory of a session
  (\<open>src/flowly/runtime_cwd.py\<close>), and the tool the model calls (\<open>src/flowly/agent/tools/shell.py\<close>),
  on a POSIX host. The subprocess and the wait for the owner's decision are parameters; while the
  owner decides, other calls may change the store and its file.
\<close>

section \<open>The directory of a session\<close>

definition is_absolute :: "ppath \<Rightarrow> bool" where
  "is_absolute p = (path_root p \<noteq> '''')"

definition validate_cwd :: "host \<Rightarrow> string option \<Rightarrow> bool \<Rightarrow> ppath option" where
  "validate_cwd h value require_absolute = (case value of
      None \<Rightarrow> None
    | Some v \<Rightarrow> if strip v = '''' then None
        else (case expanduser h (path_of (strip v)) of
            Inl _ \<Rightarrow> None
          | Inr p \<Rightarrow> if require_absolute \<and> \<not> is_absolute p then None
              else if h_stat h p = StatFound Directory
                then (case h_resolve h p of Inl _ \<Rightarrow> None | Inr r \<Rightarrow> Some r)
                else None))"

type_synonym session_cwds = "(string \<times> string) list"

definition set_session_cwd :: "host \<Rightarrow> string \<Rightarrow> string \<Rightarrow> session_cwds \<Rightarrow> (py_error + ppath) \<times> session_cwds" where
  "set_session_cwd h key cwd d = (case validate_cwd h (Some cwd) True of
      None \<Rightarrow> (Inl ValueError, d)
    | Some p \<Rightarrow> (Inr p, dict_set key (path_str p) d))"

definition get_session_cwd :: "host \<Rightarrow> string \<Rightarrow> session_cwds \<Rightarrow> ppath option" where
  "get_session_cwd h key d = validate_cwd h (map_of d key) False"

definition clear_session_cwd :: "string \<Rightarrow> session_cwds \<Rightarrow> session_cwds" where
  "clear_session_cwd key d = filter (\<lambda>kv. fst kv \<noteq> key) d"

text \<open>The configured directories: \<open>FLOWLY_CWD\<close>, \<open>agents.defaults.cwd\<close> and the workspace.\<close>

record cwd_settings =
  cs_env :: "string option"
  cs_default :: "string option"
  cs_workspace :: "string option"
  cs_config_workspace :: "ppath option"

definition workspace_fallback :: "host \<Rightarrow> cwd_settings \<Rightarrow> ppath" where
  "workspace_fallback h cs = (let below = (case cs_config_workspace cs of Some p \<Rightarrow> p | None \<Rightarrow> h_home h) in
     if truthy (cs_workspace cs)
     then (case expanduser h (path_of (the (cs_workspace cs))) of Inl _ \<Rightarrow> below | Inr p \<Rightarrow> p)
     else below)"

fun first_some :: "'a option list \<Rightarrow> 'a option" where
  "first_some [] = None"
| "first_some (Some x # _) = Some x"
| "first_some (None # xs) = first_some xs"

definition resolve_runtime_cwd :: "host \<Rightarrow> cwd_settings \<Rightarrow> session_cwds \<Rightarrow> string option \<Rightarrow> string option \<Rightarrow> py_error + ppath" where
  "resolve_runtime_cwd h cs d session_key explicit =
     (if truthy explicit \<and> strip (the explicit) \<noteq> '''' then expanduser h (path_of (strip (the explicit)))
      else Inr (case first_some
          [ if truthy session_key then validate_cwd h (map_of d (the session_key)) False else None,
            validate_cwd h (cs_env cs) False,
            validate_cwd h (if truthy (cs_default cs) then cs_default cs else None) False ] of
        Some p \<Rightarrow> p
      | None \<Rightarrow> workspace_fallback h cs))"

section \<open>Clearance\<close>

record exec_config =
  xc_enabled :: bool
  xc_timeout_seconds :: int
  xc_max_output_chars :: nat
  xc_approval_timeout_seconds :: int

text \<open>
  The inputs of a call: the host, the legacy settings, the times of the writes before and after the
  wait, the clock, the new request's id, and \<open>xw_wait\<close>, the approval callback with whatever else
  changes the store meanwhile (\<open>None\<close> when no callback is set).
\<close>

record exec_world =
  xw_host :: host
  xw_legacy :: "(pyval \<times> pyval) option"
  xw_write_1 :: real
  xw_write_2 :: real
  xw_now :: real
  xw_now_ms :: int
  xw_id :: string
  xw_wait :: "(pending \<Rightarrow> approvals \<Rightarrow> decision option \<times> approvals) option"

definition request_approval :: "exec_world \<Rightarrow> pending \<Rightarrow> approvals \<Rightarrow> decision option \<times> approvals" where
  "request_approval w p s = (case xw_wait w of None \<Rightarrow> (None, s) | Some f \<Rightarrow> f p s)"

text \<open>A refusal is a text, \<open>None\<close> lets the command run.\<close>

definition ask_owner :: "exec_world \<Rightarrow> exec_config \<Rightarrow> exec_request \<Rightarrow> approvals \<Rightarrow> (py_error + string option) \<times> approvals" where
  "ask_owner w cfg rq s = (case create_pending (xw_host w) (xw_id w) (xw_now w) (xc_approval_timeout_seconds cfg) rq s of
      Inl e \<Rightarrow> (Inl e, s)
    | Inr (p, s1) \<Rightarrow> (case request_approval w p s1 of
        (None, s2) \<Rightarrow> (Inr (Some ''Approval timed out or not available''), s2)
      | (Some d, s2) \<Rightarrow>
          (Inr (if d = Deny then Some ''Command denied by user'' else None),
           snd (resolve_pending (xw_legacy w) (xw_write_2 w) (xw_now_ms w) (pe_id p) d s2))))"

definition policy_now :: "exec_world \<Rightarrow> approvals \<Rightarrow> approvals" where
  "policy_now w s = with_config (xw_legacy w) (xw_write_1 w) (refresh_if_changed (xw_legacy w) (xw_write_1 w) s)"

definition allowlist_verdict :: "exec_world \<Rightarrow> analysis \<Rightarrow> approvals \<Rightarrow> (py_error + bool) \<times> approvals" where
  "allowlist_verdict w a s = (if xp_security (policy s) = ''allowlist''
     then check_allowlist (xw_host w) (xw_legacy w) (xw_write_1 w) (xw_now_ms w) (an_resolved_path a) (an_executable a) s
     else (Inr False, s))"

definition must_ask :: "exec_policy \<Rightarrow> analysis \<Rightarrow> bool \<Rightarrow> bool" where
  "must_ask c a allowlist_ok =
     ((an_has_dangerous_chars a \<and> \<not> (xp_security c = ''full'' \<and> xp_ask c = ''off''))
      \<or> requires_approval c (an_ok a) allowlist_ok)"

definition clearance :: "exec_world \<Rightarrow> exec_config \<Rightarrow> exec_request \<Rightarrow> approvals \<Rightarrow> (py_error + string option) \<times> approvals" where
  "clearance w cfg rq s =
     (if \<not> xc_enabled cfg then (Inr (Some ''Command execution is disabled''), s)
      else case analyze_command (xw_host w) (rq_command rq) of
          Inl e \<Rightarrow> (Inl e, s)
        | Inr a \<Rightarrow>
            if \<not> an_ok a then (Inr (Some (''Command rejected: '' @ the (an_reason a))), s)
            else (let s1 = policy_now w s; c = policy s1 in
              if xp_security c = ''deny'' then (Inr (Some ''Command execution denied by security policy''), s1)
              else case allowlist_verdict w a s1 of
                  (Inl e, s2) \<Rightarrow> (Inl e, s2)
                | (Inr allowlist_ok, s2) \<Rightarrow>
                    if must_ask c a allowlist_ok then ask_owner w cfg rq s2
                    else if xp_security c = ''allowlist'' \<and> \<not> allowlist_ok \<and> \<not> an_is_safe_bin a
                      then (Inr (Some (''Command not in allowlist: '' @
                        (case an_executable a of None \<Rightarrow> ''None'' | Some x \<Rightarrow> x))), s2)
                    else (Inr None, s2)))"

section \<open>Running it\<close>

text \<open>\<open>_wrap_for_cwd_capture\<close>, with the name of its temporary file.\<close>

definition escape_quotes :: "string \<Rightarrow> string" where
  "escape_quotes s = concat (map (\<lambda>c. if c = sq then [sq, backslash, sq, sq] else [c]) s)"

definition wrap_for_cwd_capture :: "string \<Rightarrow> string \<Rightarrow> string" where
  "wrap_for_cwd_capture path command =
     ''eval '' @ [sq] @ escape_quotes command @ [sq, CHR 0x0A]
     @ ''__flowly_ec=$?'' @ [CHR 0x0A]
     @ ''pwd -P > '' @ [sq] @ path @ [sq] @ '' 2>/dev/null || true'' @ [CHR 0x0A]
     @ ''exit $__flowly_ec'' @ [CHR 0x0A]"

record spawn =
  sp_command :: string
  sp_cwd :: string
  sp_env :: environ
  sp_timeout :: int

text \<open>How the process ends: with its exit code, its output and what the temporary file holds; at its
  time limit, when the whole process group is killed; or an exception, with its text or class name.\<close>

datatype process_end = Finished int string string "string option" | TimedOut | Raised string

record run_world =
  rw_environ :: environ
  rw_passthrough :: passthrough
  rw_cwd_file :: string
  rw_run :: "spawn \<Rightarrow> process_end"

definition make_spawn :: "host \<Rightarrow> run_world \<Rightarrow> exec_config \<Rightarrow> exec_request \<Rightarrow> spawn" where
  "make_spawn h r cfg rq =
     \<lparr>sp_command = (if truthy (rq_session_key rq) then wrap_for_cwd_capture (rw_cwd_file r) (rq_command rq) else rq_command rq),
      sp_cwd = (if truthy (rq_cwd rq) then the (rq_cwd rq) else path_str (h_home h)),
      sp_env = sanitize_subprocess_env (rw_passthrough r) (Some (rw_environ r)) (rq_env rq),
      sp_timeout = (case rq_timeout rq of None \<Rightarrow> xc_timeout_seconds cfg
        | Some t \<Rightarrow> if t = 0 then xc_timeout_seconds cfg else t)\<rparr>"

record exec_result =
  xr_success :: bool
  xr_exit_code :: "int option"
  xr_stdout :: string
  xr_stderr :: string
  xr_error :: "string option"
  xr_timed_out :: bool
  xr_denied :: bool

definition truncate_output :: "nat \<Rightarrow> string \<Rightarrow> string" where
  "truncate_output n s = (if length s > n
     then take n s @ [CHR 0x0A] @ ''... (truncated, '' @ show_nat (length s) @ '' total chars)'' else s)"

definition denied :: "string \<Rightarrow> exec_result" where
  "denied msg = \<lparr>xr_success = False, xr_exit_code = None, xr_stdout = '''', xr_stderr = '''',
     xr_error = Some msg, xr_timed_out = False, xr_denied = True\<rparr>"

definition process_result :: "exec_config \<Rightarrow> int \<Rightarrow> process_end \<Rightarrow> exec_result" where
  "process_result cfg timeout pe = (case pe of
      Finished code out err _ \<Rightarrow> \<lparr>xr_success = (code = 0), xr_exit_code = Some code,
        xr_stdout = truncate_output (xc_max_output_chars cfg) out, xr_stderr = truncate_output (xc_max_output_chars cfg) err,
        xr_error = None, xr_timed_out = False, xr_denied = False\<rparr>
    | TimedOut \<Rightarrow> \<lparr>xr_success = False, xr_exit_code = Some (- 1), xr_stdout = '''', xr_stderr = '''',
        xr_error = Some (''Command timed out after '' @ show_int timeout @ '' seconds''), xr_timed_out = True, xr_denied = False\<rparr>
    | Raised msg \<Rightarrow> \<lparr>xr_success = False, xr_exit_code = None, xr_stdout = '''', xr_stderr = '''',
        xr_error = Some msg, xr_timed_out = False, xr_denied = False\<rparr>)"

definition persist_tracked_cwd :: "host \<Rightarrow> string option \<Rightarrow> string \<Rightarrow> session_cwds \<Rightarrow> session_cwds" where
  "persist_tracked_cwd h content key d = (case content of
      None \<Rightarrow> d
    | Some c \<Rightarrow> if strip c = '''' \<or> h_stat h (path_of (strip c)) \<noteq> StatFound Directory then d
        else snd (set_session_cwd h key (strip c) d))"

text \<open>What a call does beside its answer; \<open>es_spawned\<close> are the processes it set out to start.\<close>

record exec_state =
  es_store :: approvals
  es_cwds :: session_cwds
  es_spawned :: "spawn list"

definition run_command :: "host \<Rightarrow> run_world \<Rightarrow> exec_config \<Rightarrow> exec_request \<Rightarrow> exec_state \<Rightarrow> exec_result \<times> exec_state" where
  "run_command h r cfg rq s = (let sp = make_spawn h r cfg rq; pe = rw_run r sp in
     (process_result cfg (sp_timeout sp) pe,
      s\<lparr>es_spawned := es_spawned s @ [sp],
        es_cwds := (case pe of
            Finished _ _ _ content \<Rightarrow> if truthy (rq_session_key rq)
              then persist_tracked_cwd h content (the (rq_session_key rq)) (es_cwds s) else es_cwds s
          | _ \<Rightarrow> es_cwds s)\<rparr>))"

definition execute_command :: "exec_world \<Rightarrow> run_world \<Rightarrow> exec_config \<Rightarrow> exec_request \<Rightarrow> exec_state \<Rightarrow> (py_error + exec_result) \<times> exec_state" where
  "execute_command w r cfg rq s = (case clearance w cfg rq (es_store s) of
      (Inl e, a) \<Rightarrow> (Inl e, s\<lparr>es_store := a\<rparr>)
    | (Inr (Some msg), a) \<Rightarrow> (Inr (denied msg), s\<lparr>es_store := a\<rparr>)
    | (Inr None, a) \<Rightarrow> (case run_command (xw_host w) r cfg rq (s\<lparr>es_store := a\<rparr>) of
        (res, s') \<Rightarrow> (Inr res, s')))"

section \<open>The tool\<close>

definition alarm_sign :: char where "alarm_sign = CHR 0x8C"

definition ascii_name_char :: "char \<Rightarrow> bool" where
  "ascii_name_char c = (c = CHR ''_'' \<or> is_digit c \<or>
     (let n = of_char c :: nat in (65 \<le> n \<and> n \<le> 90) \<or> (97 \<le> n \<and> n \<le> 122)))"

text \<open>\<open>^[A-Za-z_][A-Za-z0-9_]*=\<close>\<close>

definition is_assignment :: "string \<Rightarrow> bool" where
  "is_assignment t = (case t of [] \<Rightarrow> False
    | c # s \<Rightarrow> ascii_name_char c \<and> \<not> is_digit c \<and> is_prefix ''='' (dropWhile ascii_name_char s))"

definition interpret_exit_code :: "string \<Rightarrow> int \<Rightarrow> string option" where
  "interpret_exit_code command code =
     (case dropWhile is_assignment (words (last (split_at CHR ''|'' command))) of
        [] \<Rightarrow> None
      | t # _ \<Rightarrow> (let base = last (split_at CHR ''/'' t) in
          if code = 1 \<and> base \<in> set [''grep'', ''egrep'', ''fgrep'', ''rg'', ''pgrep'', ''ag'']
            then Some (''no matches found '' @ [em_dash] @ '' this is normal for search commands, not an error'')
          else if code = 1 \<and> base = ''diff'' then Some (''files differ '' @ [em_dash] @ '' expected diff output, not an error'')
          else if code = 1 \<and> base \<in> set [''test'', ''['']
            then Some (''condition evaluated to false '' @ [em_dash] @ '' not an error'')
          else if code = 124 \<and> contains ''timeout'' command
            then Some ''the `timeout` wrapper killed the command after its time limit''
          else None))"

definition format_result :: "exec_config \<Rightarrow> string \<Rightarrow> int option \<Rightarrow> exec_result \<Rightarrow> string" where
  "format_result cfg command timeout res =
     (if xr_denied res then [cross_sign] @ '' Command denied: '' @ the (xr_error res)
      else if xr_timed_out res then [alarm_sign] @ '' Command timed out after '' @
        show_int (case timeout of None \<Rightarrow> xc_timeout_seconds cfg | Some t \<Rightarrow> if t = 0 then xc_timeout_seconds cfg else t) @ '' seconds''
      else if truthy (xr_error res) then [cross_sign] @ '' Error: '' @ the (xr_error res)
      else (let parts = (if xr_stdout res \<noteq> '''' then [xr_stdout res] else [])
              @ (if xr_stderr res \<noteq> '''' then [''STDERR:'' @ [CHR 0x0A] @ xr_stderr res] else [])
              @ (case xr_exit_code res of
                  Some code \<Rightarrow> if code = 0 then [] else [[CHR 0x0A] @ ''Exit code: '' @ show_int code @
                    (case interpret_exit_code command code of None \<Rightarrow> '''' | Some hint \<Rightarrow> '' ('' @ hint @ '')'')]
                | None \<Rightarrow> [])
            in if parts = [] then ''(no output)'' else join [CHR 0x0A] parts))"

definition exec_tool :: "exec_world \<Rightarrow> run_world \<Rightarrow> exec_config \<Rightarrow> cwd_settings \<Rightarrow> string \<Rightarrow> string option \<Rightarrow> int option \<Rightarrow> string option \<Rightarrow> exec_state \<Rightarrow> (py_error + string) \<times> exec_state" where
  "exec_tool w r cfg cs command working_dir timeout session_key s =
     (case resolve_runtime_cwd (xw_host w) cs (es_cwds s) session_key working_dir of
        Inl e \<Rightarrow> (Inl e, s)
      | Inr cwd \<Rightarrow> (case analyze_command (xw_host w) command of
          Inl e \<Rightarrow> (Inl e, s)
        | Inr _ \<Rightarrow> (case execute_command w r cfg \<lparr>rq_command = strip command, rq_cwd = Some (path_str cwd),
              rq_timeout = timeout, rq_env = None, rq_session_key = session_key\<rparr> s of
            (Inl e, s') \<Rightarrow> (Inl e, s')
          | (Inr res, s') \<Rightarrow> (Inr (format_result cfg command timeout res), s'))))"

text \<open>\<open>runs_unattended\<close>: whether the policy lets any command run without a question.\<close>

definition runs_unattended :: "(pyval \<times> pyval) option \<Rightarrow> real \<Rightarrow> approvals \<Rightarrow> bool \<times> approvals" where
  "runs_unattended legacy t s0 = (let s = with_config legacy t (refresh_if_changed legacy t s0) in
     (xp_security (policy s) = ''full'' \<and> xp_ask (policy s) = ''off'', s))"

end
