(* ===== verification/Exec_Manager.thy ===== *)
theory Exec_Manager
  imports Board_Types Exec_Command
begin

text \<open>
  The requests that wait for the owner: \<open>src/flowly/exec/approval_manager.py\<close>, and who may answer
  them, \<open>src/flowly/session/control_access.py\<close> and \<open>src/flowly/session/ownership.py\<close>. A session file
  is what a read of it yields. A wait ends by an answer, at its deadline, or because its task is
  cancelled; the loop may reach the deadline after an answer was accepted, and then the answer is
  lost. Telling the surfaces is left out but for the closing notices.
\<close>

section \<open>Who controls a session\<close>

datatype session_file = BrokenFile | MissingFile | SessionMetadata "request_owner option"

definition host_owner :: request_owner where
  "host_owner = RequestOwner None"

text \<open>\<open>is_owned_session\<close>: the metadata names an owner, or the key is that of a voice session.\<close>

definition voice_key :: "string \<Rightarrow> bool" where
  "voice_key key = (let k = map (\<lambda>c. if c = CHR ''_'' then CHR '':'' else c) key in
     is_prefix ''desktop:voice:'' k \<or> is_prefix ''desktop:voice-work:'' k)"

definition voice_work_key :: "string \<Rightarrow> bool" where
  "voice_work_key key = is_prefix ''desktop:voice-work:'' (map (\<lambda>c. if c = CHR ''_'' then CHR '':'' else c) key)"

definition is_owned_session :: "string \<Rightarrow> request_owner option \<Rightarrow> bool" where
  "is_owned_session key voice_owner = (voice_owner \<noteq> None \<or> voice_key key)"

definition session_visible :: "request_owner option \<Rightarrow> string \<Rightarrow> request_owner option \<Rightarrow> bool" where
  "session_visible me key voice_owner = (case me of
      None \<Rightarrow> True
    | Some w \<Rightarrow> \<not> is_owned_session key voice_owner \<or>
        (case voice_owner of None \<Rightarrow> host_owner | Some v \<Rightarrow> v) = w)"

datatype access_error = SessionAccessError | AlreadyPending

text \<open>\<open>Inr None\<close> is a session without a file, \<open>Inr (Some v)\<close> its metadata's owner.\<close>

definition read_session_metadata :: "bool \<Rightarrow> string \<Rightarrow> session_file \<Rightarrow> access_error + request_owner option option" where
  "read_session_metadata allow_missing_work key f = (case f of
      BrokenFile \<Rightarrow> Inl SessionAccessError
    | MissingFile \<Rightarrow> if \<not> allow_missing_work \<and> voice_work_key key then Inl SessionAccessError else Inr None
    | SessionMetadata v \<Rightarrow> Inr (Some v))"

definition require_session_file :: "request_owner option \<Rightarrow> string \<Rightarrow> session_file \<Rightarrow> access_error + request_owner option option" where
  "require_session_file me key f =
     (if me = None then Inr None
      else case read_session_metadata False key f of
          Inl e \<Rightarrow> Inl e
        | Inr None \<Rightarrow> Inr None
        | Inr (Some v) \<Rightarrow> if session_visible me key v then Inr (Some v) else Inl SessionAccessError)"

record control_scope =
  sc_key :: "string option"
  sc_owner :: "request_owner option"

definition valid_key :: "string \<Rightarrow> bool" where
  "valid_key key = (1 \<le> length key \<and> length key \<le> 512 \<and>
     list_all (\<lambda>c. c \<noteq> CHR ''/'' \<and> c \<noteq> backslash \<and> of_char c \<noteq> (0::nat)) key)"

definition capture :: "request_owner option \<Rightarrow> string option \<Rightarrow> session_file \<Rightarrow> access_error + control_scope" where
  "capture me key f =
     (if \<not> truthy key then Inr \<lparr>sc_key = None, sc_owner = Some (case me of None \<Rightarrow> host_owner | Some w \<Rightarrow> w)\<rparr>
      else if \<not> valid_key (the key) then Inl SessionAccessError
      else case read_session_metadata True (the key) f of
          Inl e \<Rightarrow> Inl e
        | Inr m \<Rightarrow> (let v = (case m of None \<Rightarrow> None | Some v \<Rightarrow> v) in
            if \<not> session_visible me (the key) v then Inl SessionAccessError
            else Inr \<lparr>sc_key = key, sc_owner = (if is_owned_session (the key) v
                then Some (case v of None \<Rightarrow> host_owner | Some x \<Rightarrow> x) else None)\<rparr>))"

definition scope_guard :: "request_owner option \<Rightarrow> session_file \<Rightarrow> control_scope \<Rightarrow> string option \<Rightarrow> bool" where
  "scope_guard me f sc key = (case me of
      None \<Rightarrow> True
    | Some w \<Rightarrow>
        if key \<noteq> sc_key sc \<or> (sc_owner sc \<noteq> None \<and> sc_owner sc \<noteq> Some w) then False
        else case sc_key sc of
            None \<Rightarrow> True
          | Some k \<Rightarrow> (case require_session_file me k f of
              Inl _ \<Rightarrow> False
            | Inr canonical \<Rightarrow> (case sc_owner sc of
                None \<Rightarrow> \<not> is_owned_session k (case canonical of None \<Rightarrow> None | Some v \<Rightarrow> v)
              | Some x \<Rightarrow> canonical \<noteq> None \<and>
                  (case the canonical of None \<Rightarrow> host_owner | Some v \<Rightarrow> v) = x)))"

text \<open>\<open>pending_control_guard\<close>; a request without a scope is one of no private session.\<close>

definition pending_control_guard :: "request_owner option \<Rightarrow> session_file \<Rightarrow> (string \<times> control_scope) list \<Rightarrow> pending \<Rightarrow> bool" where
  "pending_control_guard me f scopes p = (case me of
      None \<Rightarrow> True
    | Some _ \<Rightarrow> (case map_of scopes (pe_id p) of
        Some sc \<Rightarrow> scope_guard me f sc (pe_session_key p)
      | None \<Rightarrow> truthy (pe_session_key p) \<and> \<not> is_owned_session (the (pe_session_key p)) None
          \<and> scope_guard me f \<lparr>sc_key = pe_session_key p, sc_owner = None\<rparr> (pe_session_key p)))"

section \<open>The manager\<close>

text \<open>A future is \<open>None\<close> until its result is set.\<close>

record manager =
  mg_futures :: "(string \<times> decision option) list"
  mg_pending :: "(string \<times> pending) list"
  mg_scopes :: "(string \<times> control_scope) list"
  mg_closed :: "(string \<times> string) list"

definition new_manager :: manager where
  "new_manager = \<lparr>mg_futures = [], mg_pending = [], mg_scopes = [], mg_closed = []\<rparr>"

definition cron_mode_decision :: "bool \<Rightarrow> string option \<Rightarrow> decision option" where
  "cron_mode_decision in_cron mode =
     (if \<not> in_cron then None
      else let m = str_lower (case mode of None \<Rightarrow> ''deny'' | Some s \<Rightarrow> if s = '''' then ''deny'' else s) in
        if m = ''approve'' then Some AllowOnce else if m = ''ask'' then None else Some Deny)"

datatype request_start = Decided decision | Failed access_error | Waiting

text \<open>\<open>request_and_wait\<close> up to its wait.\<close>

definition request_and_wait :: "bool \<Rightarrow> string option \<Rightarrow> request_owner option \<Rightarrow> session_file \<Rightarrow> string option \<Rightarrow> pending \<Rightarrow> manager \<Rightarrow> request_start \<times> manager" where
  "request_and_wait in_cron mode me f run_id p m = (case cron_mode_decision in_cron mode of
      Some d \<Rightarrow> (Decided d, m)
    | None \<Rightarrow> if map_of (mg_pending m) (pe_id p) \<noteq> None then (Failed AlreadyPending, m)
        else case capture me (pe_session_key p) f of
            Inl e \<Rightarrow> (Failed e, m)
          | Inr sc \<Rightarrow> (Waiting, m\<lparr>mg_scopes := dict_set (pe_id p) sc (mg_scopes m),
              mg_futures := dict_set (pe_id p) None (mg_futures m),
              mg_pending := dict_set (pe_id p) (p\<lparr>pe_run_id := run_id\<rparr>) (mg_pending m)\<rparr>))"

definition resolve_request :: "real \<Rightarrow> request_owner option \<Rightarrow> session_file \<Rightarrow> string \<Rightarrow> decision \<Rightarrow> manager \<Rightarrow> bool \<times> manager" where
  "resolve_request now me f i d m = (case (map_of (mg_futures m) i, map_of (mg_pending m) i) of
      (Some None, Some p) \<Rightarrow>
        if pe_expires_at p \<le> now \<or> \<not> pending_control_guard me f (mg_scopes m) p then (False, m)
        else (True, m\<lparr>mg_futures := dict_set i (Some d) (mg_futures m)\<rparr>)
    | _ \<Rightarrow> (False, m))"

text \<open>How the wait of a request ends: it takes up the answer, its deadline passes, or it is cancelled.\<close>

datatype wait_end = Answered | Deadline | Cancelled

definition decision_text :: "decision \<Rightarrow> string" where
  "decision_text d = (case d of AllowOnce \<Rightarrow> ''allow-once'' | AllowAlways \<Rightarrow> ''allow-always'' | Deny \<Rightarrow> ''deny'')"

definition drop_key :: "'k \<Rightarrow> ('k \<times> 'v) list \<Rightarrow> ('k \<times> 'v) list" where
  "drop_key k d = filter (\<lambda>kv. fst kv \<noteq> k) d"

definition close_request :: "string \<Rightarrow> string \<Rightarrow> manager \<Rightarrow> manager" where
  "close_request i reason m = m\<lparr>mg_futures := drop_key i (mg_futures m), mg_pending := drop_key i (mg_pending m),
     mg_scopes := drop_key i (mg_scopes m), mg_closed := mg_closed m @ [(i, reason)]\<rparr>"

text \<open>The rest of \<open>request_and_wait\<close>: what it returns (\<open>None\<close> while it cannot end that way) and what it
  leaves.\<close>

definition end_wait :: "wait_end \<Rightarrow> string \<Rightarrow> manager \<Rightarrow> decision option option \<times> manager" where
  "end_wait how i m = (case map_of (mg_futures m) i of
      None \<Rightarrow> (None, m)
    | Some answer \<Rightarrow> (case how of
        Answered \<Rightarrow> (case answer of None \<Rightarrow> (None, m)
          | Some d \<Rightarrow> (Some (Some d), close_request i (decision_text d) m))
      | Deadline \<Rightarrow> (Some None, close_request i ''timeout'' m)
      | Cancelled \<Rightarrow> (None, close_request i ''cancelled'' m)))"

definition manager_get_pending :: "request_owner option \<Rightarrow> session_file \<Rightarrow> string \<Rightarrow> manager \<Rightarrow> pending option" where
  "manager_get_pending me f i m = (case map_of (mg_pending m) i of
      None \<Rightarrow> None
    | Some p \<Rightarrow> if pending_control_guard me f (mg_scopes m) p then Some p else None)"

definition list_pending :: "real \<Rightarrow> request_owner option \<Rightarrow> (string \<Rightarrow> session_file) \<Rightarrow> manager \<Rightarrow> pending list" where
  "list_pending now me files m = filter (\<lambda>p. now < pe_expires_at p \<and>
      manager_get_pending me (files (case pe_session_key p of None \<Rightarrow> '''' | Some k \<Rightarrow> k)) (pe_id p) m \<noteq> None)
    (map snd (mg_pending m))"

end
