(* ===== verification/Exec_Runs.thy ===== *)
theory Exec_Runs
  imports Exec_Manager
begin

text \<open>
  The approval manager as a transition system: requests, answers and ends of waits in any order.
  \<open>mgr_run es\<close> is the manager after the events \<open>es\<close>.
\<close>

datatype mgr_event =
    AskEvent bool "string option" "request_owner option" session_file "string option" pending
  | AnswerEvent real "request_owner option" session_file string decision
  | EndEvent wait_end string

fun mgr_step :: "mgr_event \<Rightarrow> manager \<Rightarrow> manager" where
  "mgr_step (AskEvent cron mode me f run_id p) m = snd (request_and_wait cron mode me f run_id p m)"
| "mgr_step (AnswerEvent now me f i d) m = snd (resolve_request now me f i d m)"
| "mgr_step (EndEvent how i) m = snd (end_wait how i m)"

definition mgr_run :: "mgr_event list \<Rightarrow> manager" where
  "mgr_run es = foldl (\<lambda>m e. mgr_step e m) new_manager es"

lemma mgr_run_Nil [simp]: "mgr_run [] = new_manager"
  by (simp add: mgr_run_def)

lemma mgr_run_snoc [simp]: "mgr_run (es @ [e]) = mgr_step e (mgr_run es)"
  by (simp add: mgr_run_def)

lemma map_of_drop_key [simp]: "map_of (drop_key k d) j = (if j = k then None else map_of d j)"
  by (induction d) (auto simp: drop_key_def)

section \<open>What a step does to the request \<open>i\<close>\<close>

text \<open>The part of the manager that belongs to one request.\<close>

definition slot :: "string \<Rightarrow> manager \<Rightarrow> decision option option \<times> pending option \<times> control_scope option" where
  "slot i m = (map_of (mg_futures m) i, map_of (mg_pending m) i, map_of (mg_scopes m) i)"

lemma slot_close [simp]: "slot i (close_request j reason m) = (if i = j then (None, None, None) else slot i m)"
  by (simp add: slot_def close_request_def)

lemma slot_ask:
  "slot i (mgr_step (AskEvent cron mode me f run_id p) m) = slot i m \<or>
   (pe_id p = i \<and> map_of (mg_pending m) i = None \<and>
    (\<exists>sc. capture me (pe_session_key p) f = Inr sc \<and>
      slot i (mgr_step (AskEvent cron mode me f run_id p) m) = (Some None, Some (p\<lparr>pe_run_id := run_id\<rparr>), Some sc)))"
  by (auto simp: request_and_wait_def slot_def split: option.splits sum.splits)

lemma slot_answer:
  "slot i (mgr_step (AnswerEvent now me f j d) m) = slot i m \<or>
   (j = i \<and> (\<exists>p. slot i m = (Some None, Some p, map_of (mg_scopes m) i) \<and> now < pe_expires_at p \<and>
      pending_control_guard me f (mg_scopes m) p \<and>
      slot i (mgr_step (AnswerEvent now me f j d) m) = (Some (Some d), Some p, map_of (mg_scopes m) i)))"
  by (auto simp: resolve_request_def slot_def split: option.splits)

lemma slot_end:
  "slot i (mgr_step (EndEvent how j) m) = (if i = j \<and> map_of (mg_futures m) i \<noteq> None \<and>
      (how = Answered \<longrightarrow> map_of (mg_futures m) i \<noteq> Some None) then (None, None, None) else slot i m)"
  by (auto simp: end_wait_def split: option.splits wait_end.splits)

text \<open>A request is known in all three tables under its own id, or in none.\<close>

definition slot_ok :: "string \<Rightarrow> decision option option \<times> pending option \<times> control_scope option \<Rightarrow> bool" where
  "slot_ok i x = (x = (None, None, None) \<or> (\<exists>a p sc. x = (Some a, Some p, Some sc) \<and> pe_id p = i))"

lemma slot_ok_run: "slot_ok i (slot i (mgr_run es))"
proof (induction es rule: rev_induct)
  case Nil then show ?case by (simp add: slot_ok_def slot_def new_manager_def)
next
  case (snoc e es)
  show ?case
  proof (cases e)
    case (AskEvent cron mode me f run_id p)
    then show ?thesis using snoc slot_ask [of i cron mode me f run_id p "mgr_run es"] by (auto simp: slot_ok_def)
  next
    case (AnswerEvent now me f j d)
    then show ?thesis using snoc slot_answer [of i now me f j d "mgr_run es"] by (auto simp: slot_ok_def)
  next
    case (EndEvent how j)
    then show ?thesis using snoc slot_end [of i how j "mgr_run es"] by (auto simp: slot_ok_def)
  qed
qed

section \<open>Where an answer comes from\<close>

text \<open>After \<open>es\<close> the request \<open>i\<close> holds the answer \<open>d\<close>: it was accepted at some earlier event, before the
  deadline, from somebody who controls the request's session, and the request has waited since.\<close>

definition accepted_answer :: "mgr_event list \<Rightarrow> string \<Rightarrow> decision \<Rightarrow> bool" where
  "accepted_answer es i d = (\<exists>es1 now me f es2 p sc. es = es1 @ AnswerEvent now me f i d # es2 \<and>
     slot i (mgr_run es1) = (Some None, Some p, Some sc) \<and> now < pe_expires_at p \<and>
     scope_guard me f sc (pe_session_key p) \<and> (\<forall>how. EndEvent how i \<notin> set es2))"

lemma accepted_answer_later:
  assumes "accepted_answer es i d" and "\<And>how. e \<noteq> EndEvent how i"
  shows "accepted_answer (es @ [e]) i d"
proof -
  obtain es1 now me f es2 p sc where a: "es = es1 @ AnswerEvent now me f i d # es2"
      "slot i (mgr_run es1) = (Some None, Some p, Some sc)" "now < pe_expires_at p"
      "scope_guard me f sc (pe_session_key p)" "\<forall>how. EndEvent how i \<notin> set es2"
    using assms(1) unfolding accepted_answer_def by metis
  then have "es @ [e] = es1 @ AnswerEvent now me f i d # (es2 @ [e])" "\<forall>how. EndEvent how i \<notin> set (es2 @ [e])"
    using assms(2) by auto
  with a(2-4) show ?thesis unfolding accepted_answer_def by blast
qed

lemma guard_of_scope:
  assumes "pending_control_guard me f scopes p" and "map_of scopes (pe_id p) = Some sc"
  shows "scope_guard me f sc (pe_session_key p)"
  using assms by (cases me) (simp_all add: pending_control_guard_def scope_guard_def)

lemma accepted_answer_now:
  assumes s: "slot i (mgr_run es) = (Some None, Some p, Some sc)" and "now < pe_expires_at p"
    and g: "pending_control_guard me f (mg_scopes (mgr_run es)) p"
  shows "accepted_answer (es @ [AnswerEvent now me f i d]) i d"
proof -
  have "pe_id p = i" using slot_ok_run [of i es] s by (simp add: slot_ok_def)
  then have "scope_guard me f sc (pe_session_key p)"
    using g s by (intro guard_of_scope) (auto simp: slot_def)
  then show ?thesis using assms(2) s unfolding accepted_answer_def
    by (metis append_Nil2 empty_iff list.set(1))
qed

lemma answer_accepted:
  assumes "map_of (mg_futures (mgr_run es)) i = Some (Some d)"
  shows "accepted_answer es i d"
  using assms
proof (induction es rule: rev_induct)
  case Nil then show ?case by (simp add: new_manager_def)
next
  case (snoc e es)
  have f: "fst (slot i (mgr_step e (mgr_run es))) = Some (Some d)" using snoc.prems by (simp add: slot_def)
  have keep: "accepted_answer (es @ [e]) i d"
    if "slot i (mgr_step e (mgr_run es)) = slot i (mgr_run es)" "\<And>how. e \<noteq> EndEvent how i"
    using f that snoc.IH by (intro accepted_answer_later) (auto simp: slot_def)
  show ?case
  proof (cases e)
    case (AskEvent cron mode me fl run_id p)
    then show ?thesis using keep f slot_ask [of i cron mode me fl run_id p "mgr_run es"] by auto
  next
    case (AnswerEvent now me fl j d')
    consider "slot i (mgr_step e (mgr_run es)) = slot i (mgr_run es)"
      | p where "j = i" "slot i (mgr_run es) = (Some None, Some p, map_of (mg_scopes (mgr_run es)) i)"
          "now < pe_expires_at p" "pending_control_guard me fl (mg_scopes (mgr_run es)) p" "d' = d"
      using f slot_answer [of i now me fl j d' "mgr_run es"] AnswerEvent by auto
    then show ?thesis
    proof cases
      case 1 then show ?thesis using keep AnswerEvent by blast
    next
      case (2 p)
      obtain sc where "map_of (mg_scopes (mgr_run es)) i = Some sc"
        using slot_ok_run [of i es] 2(2) by (auto simp: slot_ok_def)
      with 2 show ?thesis using accepted_answer_now AnswerEvent by simp
    qed
  next
    case (EndEvent how j)
    then have "slot i (mgr_step e (mgr_run es)) = slot i (mgr_run es)" "j \<noteq> i"
      using f slot_end [of i how j "mgr_run es"] by (auto simp: slot_def split: if_splits)
    then show ?thesis using keep EndEvent by blast
  qed
qed

end
