(* ===== verification/Exec_Shell.thy ===== *)
theory Exec_Shell
  imports Exec_Text
begin

text \<open>
  How a POSIX shell reads a text into lines of words and operators, after the rules on quoting and on token recognition of the
  shell command language (sections 2.2 and 2.3 of the standard). It is the side against which the text the
  executor builds is stated, not a model of code of the program. Substitutions in parentheses, braces or back quotes, and a backslash
  before a line feed, are not read; the result is then \<open>None\<close>, as it is for an open quote.
\<close>

text \<open>A word is its characters, each with whether a quote keeps it from being expanded or split; a line feed outside quotes ends
  a line. A number right before a redirection is its file descriptor.\<close>

datatype sh_token = ShWord "(char \<times> bool) list" | ShOp string | ShIo string

abbreviation line_feed :: char where "line_feed \<equiv> CHR 0x0A"

definition sh_operator :: "char \<Rightarrow> bool" where
  "sh_operator c = (c \<in> set ''|&;<>()'')"

definition sh_operators2 :: "string list" where
  "sh_operators2 = [''&&'', ''||'', '';;'', ''<<'', ''>>'', ''<&'', ''>&'', ''<>'', ''>|'']"

definition sh_space :: "char \<Rightarrow> bool" where
  "sh_space c = (c = CHR '' '' \<or> c = CHR 0x09)"

definition sh_ended :: "(char \<times> bool) list \<Rightarrow> char \<Rightarrow> sh_token" where
  "sh_ended w c = (if (c = CHR ''<'' \<or> c = CHR ''>'') \<and> list_all (\<lambda>(d, q). \<not> q \<and> d \<in> set ''0123456789'') w then ShIo (map fst w) else ShWord w)"

text \<open>The start of a substitution that is not read.\<close>

definition sh_substitutes :: "char \<Rightarrow> string \<Rightarrow> bool" where
  "sh_substitutes c s = (c = CHR 0x60 \<or> c = CHR ''$'' \<and> (case s of [] \<Rightarrow> False | d # _ \<Rightarrow> d = CHR ''('' \<or> d = CHR ''{''))"

datatype sh_state = Gap | Word_part | Single | Double | Slash | Double_slash | Comment

function (sequential) sh_lex :: "sh_state \<Rightarrow> (char \<times> bool) list \<Rightarrow> string \<Rightarrow> sh_token list option" where
  "sh_lex Gap w [] = Some []"
| "sh_lex Gap w (c # s) =
     (if c = line_feed then map_option ((#) (ShOp [c])) (sh_lex Gap [] s)
      else if sh_space c then sh_lex Gap [] s
      else if c = CHR ''#'' then sh_lex Comment [] s
      else if sh_operator c then
        (case s of [] \<Rightarrow> Some [ShOp [c]]
         | d # t \<Rightarrow> if [c, d] \<in> set sh_operators2 then map_option ((#) (ShOp [c, d])) (sh_lex Gap [] t)
             else map_option ((#) (ShOp [c])) (sh_lex Gap [] (d # t)))
      else if c = sq then sh_lex Single [] s
      else if c = dq then sh_lex Double [] s
      else if c = backslash then sh_lex Slash [] s
      else if sh_substitutes c s then None
      else sh_lex Word_part [(c, False)] s)"
| "sh_lex Word_part w [] = Some [ShWord w]"
| "sh_lex Word_part w (c # s) =
     (if c = line_feed \<or> sh_space c \<or> sh_operator c then map_option ((#) (sh_ended w c)) (sh_lex Gap [] (c # s))
      else if c = sq then sh_lex Single w s
      else if c = dq then sh_lex Double w s
      else if c = backslash then sh_lex Slash w s
      else if sh_substitutes c s then None
      else sh_lex Word_part (w @ [(c, False)]) s)"
| "sh_lex Single w [] = None"
| "sh_lex Single w (c # s) = (if c = sq then sh_lex Word_part w s else sh_lex Single (w @ [(c, True)]) s)"
| "sh_lex Double w [] = None"
| "sh_lex Double w (c # s) =
     (if c = dq then sh_lex Word_part w s
      else if c = backslash then sh_lex Double_slash w s
      else if sh_substitutes c s then None
      else sh_lex Double (w @ [(c, c \<noteq> CHR ''$'')]) s)"
| "sh_lex Slash w [] = None"
| "sh_lex Slash w (c # s) = (if c = line_feed then None else sh_lex Word_part (w @ [(c, True)]) s)"
| "sh_lex Double_slash w [] = None"
| "sh_lex Double_slash w (c # s) =
     (if c = line_feed then None
      else sh_lex Double (w @ (if c \<in> {CHR ''$'', CHR 0x60, dq, backslash} then [] else [(backslash, True)]) @ [(c, True)]) s)"
| "sh_lex Comment w [] = Some []"
| "sh_lex Comment w (c # s) = (if c = line_feed then map_option ((#) (ShOp [c])) (sh_lex Gap [] s) else sh_lex Comment [] s)"
  by pat_completeness auto

termination sh_lex
  by (relation "measure (\<lambda>(st, w, s). 2 * length s + (if st = Word_part then 1 else 0))") auto

declare sh_lex.simps [simp del]

text \<open>The lines that are not empty.\<close>

fun sh_lines :: "sh_token list \<Rightarrow> sh_token list \<Rightarrow> sh_token list list" where
  "sh_lines l [] = (if l = [] then [] else [l])"
| "sh_lines l (t # ts) = (if t = ShOp [line_feed] then (if l = [] then sh_lines [] ts else l # sh_lines [] ts) else sh_lines (l @ [t]) ts)"

definition sh_read :: "string \<Rightarrow> sh_token list list option" where
  "sh_read s = map_option (sh_lines []) (sh_lex Gap [] s)"

definition bare :: "string \<Rightarrow> sh_token" where
  "bare s = ShWord (map (\<lambda>c. (c, False)) s)"

definition quoted :: "string \<Rightarrow> sh_token" where
  "quoted s = ShWord (map (\<lambda>c. (c, True)) s)"

section \<open>Reading words\<close>

definition sh_plain :: "char \<Rightarrow> bool" where
  "sh_plain c = (c \<noteq> line_feed \<and> \<not> sh_space c \<and> \<not> sh_operator c \<and> c \<noteq> sq \<and> c \<noteq> dq \<and> c \<noteq> backslash \<and> c \<noteq> CHR ''#'' \<and> c \<noteq> CHR 0x60)"

definition sh_ends :: "char \<Rightarrow> bool" where
  "sh_ends c = (c = line_feed \<or> sh_space c \<or> sh_operator c)"

text \<open>No dollar stands before a parenthesis or a brace.\<close>

fun sh_flat :: "string \<Rightarrow> bool" where
  "sh_flat [] = True"
| "sh_flat [c] = sh_plain c"
| "sh_flat (c # d # s) = (sh_plain c \<and> \<not> (c = CHR ''$'' \<and> d = CHR ''{'') \<and> sh_flat (d # s))"

lemma sh_plain_operator: "sh_plain d \<Longrightarrow> d \<noteq> CHR ''(''"
  by (auto simp: sh_plain_def sh_operator_def)

lemma sh_word_ends: "sh_ends b \<Longrightarrow> sh_lex Word_part w (b # rest) = map_option ((#) (sh_ended w b)) (sh_lex Gap [] (b # rest))"
  unfolding sh_ends_def by (subst sh_lex.simps(4)) (simp only: if_True)

lemma sh_word_goes_on:
  "sh_plain c \<Longrightarrow> \<not> sh_substitutes c s \<Longrightarrow> sh_lex Word_part w (c # s) = sh_lex Word_part (w @ [(c, False)]) s"
  "sh_plain c \<Longrightarrow> \<not> sh_substitutes c s \<Longrightarrow> sh_lex Gap w (c # s) = sh_lex Word_part [(c, False)] s"
  by (subst sh_lex.simps, simp add: sh_plain_def)+

lemma no_substitution: "sh_plain c \<Longrightarrow> d \<noteq> CHR ''('' \<Longrightarrow> \<not> (c = CHR ''$'' \<and> d = CHR ''{'') \<Longrightarrow> \<not> sh_substitutes c (d # s)"
  by (simp add: sh_substitutes_def sh_plain_def)

lemma ends_no_brace: "sh_ends b \<Longrightarrow> b \<noteq> CHR ''{''"
  by (auto simp: sh_ends_def sh_space_def sh_operator_def)

lemma flat_head: "sh_flat (c # s) \<Longrightarrow> sh_plain c \<and> sh_flat s"
  by (cases s) auto

lemma flat_no_substitution:
  assumes "sh_flat (c # s)" "sh_ends b" "b \<noteq> CHR ''(''"
  shows "\<not> sh_substitutes c (s @ b # rest)"
proof (cases s)
  case Nil
  then show ?thesis using flat_head [OF assms(1)] ends_no_brace [OF assms(2)] assms(3) no_substitution [of c b rest] by simp
next
  case (Cons d t)
  then have "sh_plain d" using flat_head flat_head [OF assms(1)] by blast
  then have "d \<noteq> CHR ''(''" by (rule sh_plain_operator)
  then show ?thesis using assms(1) Cons flat_head [OF assms(1)] no_substitution [of c d "t @ b # rest"] by simp
qed

lemma sh_lex_flat:
  assumes "sh_flat s" "sh_ends b" "b \<noteq> CHR ''(''"
  shows "sh_lex Word_part w (s @ b # rest) = map_option ((#) (sh_ended (w @ map (\<lambda>c. (c, False)) s) b)) (sh_lex Gap [] (b # rest))"
  using assms(1)
proof (induction s arbitrary: w)
  case Nil
  show ?case using sh_word_ends [OF assms(2)] by simp
next
  case (Cons c s)
  have "sh_lex Word_part w (c # (s @ b # rest)) = sh_lex Word_part (w @ [(c, False)]) (s @ b # rest)"
    using flat_head [OF Cons.prems] flat_no_substitution [OF Cons.prems assms(2,3)] by (intro sh_word_goes_on(1)) auto
  with Cons.IH flat_head [OF Cons.prems] show ?case by simp
qed

lemma sh_lex_ended:
  assumes "sh_flat s" "s \<noteq> []" "sh_ends b" "b \<noteq> CHR ''(''"
  shows "sh_lex Gap w (s @ b # rest) = map_option ((#) (sh_ended (map (\<lambda>c. (c, False)) s) b)) (sh_lex Gap [] (b # rest))"
proof -
  obtain c u where s: "s = c # u" using assms(2) by (cases s) auto
  have "sh_lex Gap w (c # (u @ b # rest)) = sh_lex Word_part [(c, False)] (u @ b # rest)"
    using flat_head flat_no_substitution assms(1,3,4) s by (intro sh_word_goes_on(2)) blast+
  also have "\<dots> = map_option ((#) (sh_ended (map (\<lambda>c. (c, False)) s) b)) (sh_lex Gap [] (b # rest))"
    using sh_lex_flat [OF _ assms(3,4), of u] flat_head [of c u] assms(1) s by simp
  finally show ?thesis by (simp add: s)
qed

lemma sh_lex_bare:
  "sh_flat s \<Longrightarrow> s \<noteq> [] \<Longrightarrow> b = line_feed \<or> sh_space b \<Longrightarrow>
    sh_lex Gap w (s @ b # rest) = map_option ((#) (bare s)) (sh_lex Gap [] (b # rest))"
  by (subst sh_lex_ended) (auto simp: sh_ends_def sh_ended_def sh_space_def bare_def)

lemma sh_lex_feed: "sh_lex Gap w (line_feed # s) = map_option ((#) (ShOp [line_feed])) (sh_lex Gap [] s)"
  by (subst sh_lex.simps) simp

lemma sh_lex_space: "sh_space c \<Longrightarrow> sh_lex Gap w (c # s) = sh_lex Gap [] s"
  by (subst sh_lex.simps) (auto simp: sh_space_def)

lemma sh_lex_open: "sh_lex Gap w (sq # s) = sh_lex Single [] s"
  by (subst sh_lex.simps) (simp add: sh_space_def sh_operator_def)

lemma sh_lex_operator:
  "sh_operator c \<Longrightarrow> [c, d] \<notin> set sh_operators2 \<Longrightarrow> sh_lex Gap w (c # d # s) = map_option ((#) (ShOp [c])) (sh_lex Gap [] (d # s))"
  "sh_operator c \<Longrightarrow> [c, d] \<in> set sh_operators2 \<Longrightarrow> sh_lex Gap w (c # d # s) = map_option ((#) (ShOp [c, d])) (sh_lex Gap [] s)"
  by (subst sh_lex.simps, auto simp: sh_operator_def sh_space_def)+

lemma sh_lex_single: "sq \<notin> set s \<Longrightarrow> sh_lex Single w (s @ sq # rest) = sh_lex Word_part (w @ map (\<lambda>c. (c, True)) s) rest"
proof (induction s arbitrary: w)
  case Nil
  show ?case by (simp add: sh_lex.simps(6))
next
  case (Cons c s)
  then have "sh_lex Single w (c # (s @ sq # rest)) = sh_lex Single (w @ [(c, True)]) (s @ sq # rest)"
    by (auto simp: sh_lex.simps(6))
  with Cons show ?case by simp
qed

end
