(* ===== verification/Exec_Facts.thy ===== *)
theory Exec_Facts
  imports Exec_Runs Exec_Shell
begin

text \<open>
  Facts about the checks before a command runs: when the owner is asked and what counts as an
  answer, how a protected path in a command is found, what the allowlist remembers, and that the
  shell text built around a command keeps it.
\<close>

section \<open>The way to a process\<close>

lemma run_command_spawns:
  "es_spawned (snd (run_command h r cfg rq s)) = es_spawned s @ [make_spawn h r cfg rq]"
  by (simp add: run_command_def Let_def)

lemma execute_spawns:
  "es_spawned (snd (execute_command w r cfg rq s)) = es_spawned s @
     (if fst (clearance w cfg rq (es_store s)) = Inr None then [make_spawn (xw_host w) r cfg rq] else [])"
proof (cases "clearance w cfg rq (es_store s)")
  case (Pair v a)
  then show ?thesis using run_command_spawns [of "xw_host w" r cfg rq "s\<lparr>es_store := a\<rparr>"]
    by (auto simp: execute_command_def split: sum.splits option.splits prod.splits)
qed

text \<open>The owner, or whoever the callback asks, allowed this very request.\<close>

definition owner_allowed :: "exec_world \<Rightarrow> exec_request \<Rightarrow> analysis \<Rightarrow> bool" where
  "owner_allowed w rq a = (\<exists>p s1 d s2. request_approval w p s1 = (Some d, s2) \<and> d \<noteq> Deny \<and>
     pe_request p = rq \<and> pe_risk_reasons p = an_risk_reasons a \<and> pe_resolved_path p = an_resolved_path a)"

lemma ask_owner_allows:
  assumes "fst (ask_owner w cfg rq s) = Inr None" and "analyze_command (xw_host w) (rq_command rq) = Inr a"
  shows "owner_allowed w rq a"
proof -
  define p where "p = make_pending (xw_id w) (xw_now w) (xc_approval_timeout_seconds cfg) rq a"
  define s1 where "s1 = s\<lparr>ap_pending := dict_set (xw_id w) p (ap_pending s)\<rparr>"
  have c: "create_pending (xw_host w) (xw_id w) (xw_now w) (xc_approval_timeout_seconds cfg) rq s = Inr (p, s1)"
    using assms(2) by (simp add: create_pending_def p_def s1_def Let_def)
  obtain d s2 where "request_approval w p s1 = (Some d, s2)" "d \<noteq> Deny"
    using assms(1) unfolding ask_owner_def c
    by (auto split: prod.splits option.splits if_splits)
  moreover have "pe_request p = rq" "pe_risk_reasons p = an_risk_reasons a" "pe_resolved_path p = an_resolved_path a"
    by (simp_all add: p_def make_pending_def)
  ultimately show ?thesis unfolding owner_allowed_def by blast
qed

text \<open>The conditions under which a policy lets a command run without a question.\<close>

definition unasked :: "exec_policy \<Rightarrow> analysis \<Rightarrow> bool \<Rightarrow> bool" where
  "unasked c a listed = (xp_security c \<noteq> ''deny'' \<and> xp_ask c \<noteq> ''always'' \<and>
     (an_has_dangerous_chars a \<longrightarrow> xp_security c = ''full'' \<and> xp_ask c = ''off'') \<and>
     (xp_security c = ''allowlist'' \<longrightarrow> listed \<or> (xp_ask c \<noteq> ''on-miss'' \<and> an_is_safe_bin a)))"

lemma clearance_cases:
  assumes "fst (clearance w cfg rq s) = Inr None"
  obtains a listed where "xc_enabled cfg" "analyze_command (xw_host w) (rq_command rq) = Inr a" "an_ok a"
    "fst (allowlist_verdict w a (policy_now w s)) = Inr listed"
    "xp_security (policy (policy_now w s)) \<noteq> ''deny''"
    "owner_allowed w rq a \<or> unasked (policy (policy_now w s)) a listed"
proof -
  have e: "xc_enabled cfg" using assms by (auto simp: clearance_def split: if_splits)
  obtain a where a: "analyze_command (xw_host w) (rq_command rq) = Inr a" "an_ok a"
    using assms e by (auto simp: clearance_def split: sum.splits if_splits)
  let ?c = "policy (policy_now w s)"
  obtain v s2 where v: "allowlist_verdict w a (policy_now w s) = (v, s2)" by fastforce
  have d: "xp_security ?c \<noteq> ''deny''"
    using assms e a by (auto simp: clearance_def Let_def split: if_splits)
  obtain listed where l: "v = Inr listed"
    using assms e a v d by (cases v) (auto simp: clearance_def Let_def)
  have c: "fst (clearance w cfg rq s) = (if must_ask ?c a listed then fst (ask_owner w cfg rq s2)
      else if xp_security ?c = ''allowlist'' \<and> \<not> listed \<and> \<not> an_is_safe_bin a
        then Inr (Some (''Command not in allowlist: '' @ (case an_executable a of None \<Rightarrow> ''None'' | Some x \<Rightarrow> x)))
        else Inr None)"
    using e a v l d by (simp add: clearance_def Let_def)
  have "owner_allowed w rq a \<or> unasked ?c a listed"
  proof (cases "must_ask ?c a listed")
    case True
    then show ?thesis using c assms ask_owner_allows [of w cfg rq s2 a] a(1) by simp
  next
    case False
    then show ?thesis using c assms d a(2)
      by (auto simp: must_ask_def requires_approval_def unasked_def split: if_splits)
  qed
  with e a v l d show ?thesis using that by auto
qed

section \<open>Protected paths\<close>

text \<open>The texts of a token that are looked at as paths: what follows a redirection, and what follows
  an equals sign in it.\<close>

definition path_texts :: "string \<Rightarrow> string list" where
  "path_texts token = (let clean = dropWhile redirect_char token in clean # tl (split_at CHR ''='' clean))"

text \<open>A text that names a path at or below a protected root, with no wildcard in it.\<close>

definition names_protected :: "host \<Rightarrow> string \<Rightarrow> bool" where
  "names_protected h v = (let t = strip_quotes v in
     path_like v \<and> path_like t \<and> \<not> list_ex glob_char t \<and>
     (\<exists>q base r. normalize h (path_of t) = Some q \<and> base \<in> set (hardcoded_protected_roots h) \<and>
        normalize h base = Some r \<and> is_below q r))"

lemma is_protected_if_below:
  assumes "normalize h p = Some q" "base \<in> set (hardcoded_protected_roots h)" "normalize h base = Some r" "is_below q r"
  shows "is_protected_path h p"
  using assms by (auto simp: is_protected_path_def list_ex_iff intro!: bexI [of _ base])

lemma strip_quotes_idem [simp]: "strip_quotes (strip_quotes s) = strip_quotes s"
proof -
  define P where "P = (\<lambda>c. c = sq \<or> c = dq)"
  define t where "t = dropWhile P s"
  have eq: "strip_quotes s = rev (dropWhile P (rev t))" by (simp add: strip_quotes_def P_def t_def)
  have r: "dropWhile P (rev (rev (dropWhile P (rev t)))) = dropWhile P (rev t)"
    by (simp add: dropWhile_idem)
  have "dropWhile P (rev (dropWhile P (rev t))) = rev (dropWhile P (rev t))"
  proof (cases "rev (dropWhile P (rev t))")
    case (Cons c u)
    obtain z where z: "t = rev (dropWhile P (rev t)) @ z"
      by (metis rev_append rev_rev_ident takeWhile_dropWhile_id)
    then have "t \<noteq> []" "hd t = c" using Cons by (auto dest: arg_cong [of _ _ hd])
    then have "\<not> P c" using hd_dropWhile [of P s] by (simp add: t_def)
    then show ?thesis by (simp add: Cons)
  next
    case Nil
    show ?thesis by (simp only: Nil dropWhile.simps)
  qed
  then have "strip_quotes (strip_quotes s) = rev (dropWhile P (rev (rev (dropWhile P (rev t)))))"
    by (simp only: eq) (simp add: strip_quotes_def P_def)
  then show ?thesis by (simp only: eq r)
qed

lemma names_protected_strip: "names_protected h v \<Longrightarrow> names_protected h (strip_quotes v)"
  by (simp add: names_protected_def Let_def)

lemma flags_protected: "names_protected h v \<Longrightarrow> flags_path h v = Inr True"
  by (auto simp: names_protected_def flags_path_def Let_def path_like_def intro: is_protected_if_below)

lemma any_flagged_hit: "v \<in> set vs \<Longrightarrow> names_protected h v \<Longrightarrow> any_flagged h vs \<noteq> Inr False"
  by (induction vs) (auto simp: flags_protected split: sum.splits bool.splits)

lemma token_flagged_hit:
  assumes "v \<in> set (path_texts token)" "names_protected h v"
  shows "token_flagged h token \<noteq> Inr False"
proof -
  define clean where "clean = dropWhile redirect_char token"
  have p: "path_like v" "path_like (strip_quotes v)" using assms(2) by (simp_all add: names_protected_def Let_def)
  then have ne: "v \<noteq> []" "strip_quotes v \<noteq> []" by (auto simp: path_like_def)
  have v: "v = clean \<or> v \<in> set (tl (split_at CHR ''='' clean))"
    using assms(1) by (auto simp: path_texts_def clean_def Let_def)
  have "clean \<noteq> []" using v ne by auto
  moreover have "any_flagged h (tl (split_at CHR ''='' clean)) \<noteq> Inr False" if "v \<noteq> clean"
    using v that assms(2) by (intro any_flagged_hit) auto
  moreover have "flags_path h (strip_quotes v) = Inr True"
    using names_protected_strip [OF assms(2)] by (rule flags_protected)
  ultimately show ?thesis using p ne
    by (cases "v = clean") (auto simp: token_flagged_def clean_def [symmetric] Let_def split: sum.splits bool.splits)
qed

lemma flagged_tokens_hit:
  "t \<in> set ts \<Longrightarrow> token_flagged h t \<noteq> Inr False \<Longrightarrow> flagged_tokens h ts \<noteq> Inr []"
  by (induction ts) (auto split: sum.splits)

lemma analyze_protected:
  assumes "t \<in> set (command_tokens (strip command))" "v \<in> set (path_texts t)" "names_protected h v"
  shows "\<not> (\<exists>a. analyze_command h command = Inr a \<and> an_ok a)"
proof -
  have "find_protected_paths_in_command h (strip command) \<noteq> Inr []"
    unfolding find_protected_paths_in_command_def
    using assms token_flagged_hit flagged_tokens_hit by blast
  then show ?thesis
    by (auto simp: analyze_command_def Let_def rejected_def split: sum.splits list.splits if_splits)
qed

section \<open>The allowlist\<close>

text \<open>Whether the list lets a path pass; the entries count by their patterns only.\<close>

definition passes_list :: "host \<Rightarrow> string \<Rightarrow> allow_entry list \<Rightarrow> py_error + bool" where
  "passes_list h q es = (case allowlist_scan h q 0 es of Inl e \<Rightarrow> Inl e | Inr r \<Rightarrow> Inr (r \<noteq> None))"

lemma passes_list_simps:
  "passes_list h q [] = Inr False"
  "passes_list h q (e # es) = (case entry_pattern h e of Inl err \<Rightarrow> Inl err
     | Inr pat \<Rightarrow> if fnmatch q pat then Inr True else passes_list h q es)"
  by (auto simp: passes_list_def split: sum.splits option.splits)

lemma scan_passes:
  "(case allowlist_scan h q n es of Inl e \<Rightarrow> Inl e | Inr r \<Rightarrow> Inr (r \<noteq> None)) = passes_list h q es"
  by (induction es) (auto simp: passes_list_simps split: sum.splits option.splits)

lemma store_check_passes:
  "fst (store_check_allowlist h l t n (Some q) s) =
     (if q = [] then Inr False else passes_list h q (xp_allowlist (policy (with_config l t s))))"
  using scan_passes [of h q n "xp_allowlist (policy (with_config l t s))"]
  by (auto simp: store_check_allowlist_def Let_def split: sum.splits option.splits)

lemma entry_pattern_cong: "ae_pattern e = ae_pattern e' \<Longrightarrow> entry_pattern h e = entry_pattern h e'"
  by (simp add: entry_pattern_def)

lemma passes_list_cong: "map ae_pattern es = map ae_pattern es' \<Longrightarrow> passes_list h q es = passes_list h q es'"
proof (induction es arbitrary: es')
  case (Cons e es)
  then obtain e' es1 where "es' = e' # es1" by (cases es') auto
  with Cons show ?case by (simp add: passes_list_simps entry_pattern_cong [of e e'] split: sum.splits)
qed simp

lemma passes_list_append:
  "passes_list h q (es @ [e]) = (case passes_list h q es of Inl err \<Rightarrow> Inl err
     | Inr b \<Rightarrow> if b then Inr True else passes_list h q [e])"
  by (induction es) (auto simp: passes_list_simps split: sum.splits)

text \<open>A path as \<open>resolve_executable\<close> gives it, with no wildcard in it.\<close>

definition plain_path :: "string \<Rightarrow> bool" where
  "plain_path q = (q \<noteq> [] \<and> list_all (\<lambda>c. \<not> glob_char c) q \<and> \<not> is_prefix ''~'' q)"

lemma entry_pattern_plain: "plain_path (ae_pattern e) \<Longrightarrow> entry_pattern h e = Inr (ae_pattern e)"
  by (simp add: entry_pattern_def plain_path_def)

lemma passes_own_pattern:
  assumes "plain_path q" "q \<in> ae_pattern ` set es" "passes_list h q es = Inr b"
  shows "b"
  using assms(2,3)
proof (induction es)
  case (Cons e es)
  show ?case
  proof (cases "ae_pattern e = q")
    case True
    then have "passes_list h q (e # es) = Inr True"
      using assms(1) by (simp add: passes_list_simps entry_pattern_plain) (simp add: plain_path_def fnmatch_plain)
    with Cons.prems(2) show ?thesis by simp
  next
    case False
    with Cons show ?thesis by (auto simp: passes_list_simps split: sum.splits if_splits)
  qed
qed simp

lemma touch_first_patterns:
  assumes "touch_first P f es = Some es'" "\<And>e. ae_pattern (f e) = ae_pattern e"
  shows "map ae_pattern es' = map ae_pattern es"
  using assms by (induction es arbitrary: es') (auto split: if_splits)

lemma touch_first_None: "touch_first P f es = None \<longleftrightarrow> list_all (\<lambda>e. \<not> P e) es"
  by (induction es) auto

lemma with_config_policy: "policy (with_config l t s) = policy (with_config l t' s)"
  by (auto simp: with_config_def load_def save_def policy_def split: policy_file.splits option.splits)

lemma with_config_loaded: "ap_config (with_config l t s) = Some (policy (with_config l t s))"
  by (auto simp: with_config_def load_def save_def policy_def split: policy_file.splits option.splits)

definition remembered :: "string \<Rightarrow> allow_entry list \<Rightarrow> allow_entry list \<Rightarrow> bool" where
  "remembered q es es' = (if q \<in> ae_pattern ` set es then map ae_pattern es' = map ae_pattern es
     else (\<exists>e. es' = es @ [e] \<and> ae_pattern e = q))"

lemma add_to_allowlist_remembers:
  assumes s'_def: "s' = add_to_allowlist l t n q cmd res s"
  shows "remembered q (xp_allowlist (policy (with_config l t s))) (xp_allowlist (policy s'))"
    and "ap_config s' = Some (policy s')" and "ap_file s' = Stored (policy s')"
proof -
  let ?es = "xp_allowlist (policy (with_config l t s))"
  let ?P = "\<lambda>e. ae_pattern e = q"
  let ?f = "\<lambda>e. e\<lparr>ae_last_used_at := Some n, ae_last_used_command := (if truthy cmd then cmd else ae_last_used_command e),
     ae_last_resolved_path := (if truthy res then res else ae_last_resolved_path e)\<rparr>"
  define es' where "es' = (case touch_first ?P ?f ?es of Some es \<Rightarrow> es
     | None \<Rightarrow> ?es @ [\<lparr>ae_pattern = q, ae_last_used_at = Some n, ae_last_used_command = cmd, ae_last_resolved_path = res\<rparr>])"
  have s': "s' = save t (set_allowlist es' (with_config l t s))"
    by (simp add: s'_def add_to_allowlist_def es'_def Let_def)
  then show "ap_config s' = Some (policy s')" "ap_file s' = Stored (policy s')"
    by (simp_all add: save_def set_allowlist_def policy_def)
  have "xp_allowlist (policy s') = es'" using s' by (simp add: save_def set_allowlist_def policy_def)
  moreover have "remembered q ?es es'"
  proof (cases "touch_first ?P ?f ?es")
    case None
    then have "q \<notin> ae_pattern ` set ?es" by (auto simp: touch_first_None list_all_iff)
    with None show ?thesis by (simp add: remembered_def es'_def)
  next
    case (Some es)
    then have "\<not> list_all (\<lambda>e. \<not> ?P e) ?es" using touch_first_None [of ?P ?f ?es] by simp
    then have "q \<in> ae_pattern ` set ?es" by (auto simp: list_all_iff)
    with Some touch_first_patterns [OF Some] show ?thesis by (simp add: remembered_def es'_def)
  qed
  ultimately show "remembered q ?es (xp_allowlist (policy s'))" by simp
qed

lemma passes_remembered:
  assumes "plain_path q" "remembered q es es'"
  shows "passes_list h q' es' = (case passes_list h q' es of Inl e \<Rightarrow> Inl e | Inr b \<Rightarrow> Inr (b \<or> q' = q))"
proof (cases "q \<in> ae_pattern ` set es")
  case True
  then have "passes_list h q' es' = passes_list h q' es"
    using assms(2) by (intro passes_list_cong) (simp add: remembered_def)
  then show ?thesis using True assms(1) passes_own_pattern by (fastforce split: sum.splits)
next
  case False
  then obtain e where "es' = es @ [e]" "ae_pattern e = q" using assms(2) by (auto simp: remembered_def)
  moreover have "passes_list h q' [e] = Inr (q' = q)"
    using assms(1) \<open>ae_pattern e = q\<close> entry_pattern_plain [of e h]
    by (simp add: passes_list_simps plain_path_def fnmatch_plain)
  ultimately show ?thesis by (auto simp: passes_list_append split: sum.splits)
qed

section \<open>The shell text around a command\<close>

lemma not_blank [simp]: "\<not> shell_blank sq" "\<not> shell_blank dq" "\<not> shell_blank backslash"
  by (simp_all add: shell_blank_def)

lemma sh_lex_escaped:
  "sh_lex Single w (escape_quotes c @ sq # rest) = sh_lex Word_part (w @ map (\<lambda>c. (c, True)) c) rest"
proof (induction c arbitrary: w)
  case Nil
  show ?case by (simp add: escape_quotes_def sh_lex.simps(6))
next
  case (Cons x c)
  show ?case
  proof (cases "x = sq")
    case True
    have "sh_lex Single w (escape_quotes (x # c) @ sq # rest) = sh_lex Word_part w (backslash # sq # sq # escape_quotes c @ sq # rest)"
      using True by (simp add: escape_quotes_def sh_lex.simps(6))
    also have "\<dots> = sh_lex Slash w (sq # sq # escape_quotes c @ sq # rest)"
      by (subst sh_lex.simps(4)) (simp add: sh_space_def sh_operator_def)
    also have "\<dots> = sh_lex Word_part (w @ [(sq, True)]) (sq # escape_quotes c @ sq # rest)" by (simp add: sh_lex.simps(10))
    also have "\<dots> = sh_lex Single (w @ [(sq, True)]) (escape_quotes c @ sq # rest)"
      by (subst sh_lex.simps(4)) (simp add: sh_space_def sh_operator_def)
    finally show ?thesis using Cons.IH True by simp
  next
    case False
    then show ?thesis using Cons.IH by (simp add: escape_quotes_def sh_lex.simps(6))
  qed
qed

lemma sh_lex_wrapped:
  "sh_lex Gap w (sq # escape_quotes c @ sq # line_feed # rest) = map_option ((#) (quoted c)) (sh_lex Gap [] (line_feed # rest))"
  "sq \<notin> set s \<Longrightarrow> sh_lex Gap w (sq # s @ sq # CHR '' '' # rest) = map_option ((#) (quoted s)) (sh_lex Gap [] (CHR '' '' # rest))"
  by (simp_all add: sh_lex_open sh_lex_escaped sh_lex_single sh_word_ends sh_ends_def sh_ended_def sh_space_def quoted_def)

definition plain_word :: "string \<Rightarrow> bool" where
  "plain_word s = list_all (\<lambda>c. \<not> shell_blank c \<and> c \<noteq> sq \<and> c \<noteq> dq \<and> c \<noteq> backslash) s"

lemma shlex_in_word: "plain_word s \<Longrightarrow> shlex InWord tok q (s @ rest) = shlex InWord (tok @ s) q rest"
  by (induction s arbitrary: tok) (auto simp: plain_word_def)

lemma shlex_word:
  assumes "plain_word s" "s \<noteq> []" "shell_blank b"
  shows "shlex Between tok q (s @ b # rest) = map_option ((#) s) (shlex Between [] False rest)"
proof -
  obtain c u where s: "s = c # u" using assms(2) by (cases s) auto
  then have "shlex Between tok q (s @ b # rest) = shlex InWord [c] False (u @ b # rest)"
    using assms(1) by (simp add: plain_word_def)
  also have "\<dots> = shlex InWord s False (b # rest)"
    using assms(1) s shlex_in_word [of u "[c]" False "b # rest"] by (simp add: plain_word_def)
  also have "\<dots> = map_option ((#) s) (shlex Between [] False rest)"
    using assms(3) s by (cases "shlex Between [] False rest") (simp_all add: emit_def)
  finally show ?thesis .
qed

section \<open>The policy in force\<close>

text \<open>The store has the policy of the file, provided it has it whenever the modification time it
  remembers is that of the file.\<close>

lemma policy_is_current:
  assumes "ap_file s = Stored c" "ap_loaded_mtime s = Some (ap_mtime s) \<longrightarrow> ap_config s = Some c \<or> ap_config s = None"
  shows "policy (policy_now w s) = c"
  using assms by (cases "ap_config s")
    (auto simp: policy_now_def refresh_if_changed_def with_config_def load_def file_mtime_def policy_def)

section \<open>Where the checks fall short\<close>

text \<open>The name of a safe program in front lets any command without a risk mark run, whatever its
  arguments and whatever follows it.\<close>

lemma safe_name_runs:
  assumes "xc_enabled cfg" "analyze_command (xw_host w) (rq_command rq) = Inr a" "an_ok a"
    "\<not> an_has_dangerous_chars a" "safe_name (an_executable a)"
    "xp_security (policy (policy_now w s)) = ''allowlist''" "xp_ask (policy (policy_now w s)) \<noteq> ''always''"
  shows "fst (clearance w cfg rq s) = Inr None"
  using assms by (simp add: clearance_def Let_def allowlist_verdict_def check_allowlist_def must_ask_def requires_approval_def)

text \<open>A policy file that cannot be read gives full access without questions.\<close>

lemma unreadable_policy_is_full:
  "ap_file s = Unreadable \<Longrightarrow> xp_security (policy (load l t s)) = ''full'' \<and> xp_ask (policy (load l t s)) = ''off''"
  by (simp add: load_def policy_def default_policy_def)

text \<open>\<open>allow-always\<close> writes the policy the store had read before the wait over an edit made since.\<close>

lemma policy_edit_lost:
  assumes "ap_config s = Some c" "map_of (ap_pending s) i = Some p" "truthy (pe_resolved_path p)"
  shows "\<exists>c'. ap_file (snd (resolve_pending l t n i AllowAlways s)) = Stored c' \<and> xp_security c' = xp_security c \<and> xp_ask c' = xp_ask c"
  using assms by (simp add: resolve_pending_def add_to_allowlist_def Let_def save_def set_allowlist_def
    with_config_def drop_pending_def policy_def)

text \<open>A host without other users, without links and without files.\<close>

definition bare_host :: host where
  "bare_host = \<lparr>h_home = path_of ''/h'', h_user_home = (\<lambda>_. None), h_resolve = Inr, h_stat = (\<lambda>_. StatMissing),
     h_which = (\<lambda>n. Some (''/bin/'' @ n)), h_uid = ''0'', h_profile_desktops = [], h_op_order = DISALLOWED_PIPELINE_OPS\<rparr>"

lemma home_variable_unprotected:
  "case analyze_command bare_host ''cat $HOME/.ssh/id_rsa'' of Inl _ \<Rightarrow> False | Inr a \<Rightarrow> an_ok a \<and> \<not> an_has_dangerous_chars a"
  "case analyze_command bare_host ''cat ~/.ssh/id_rsa'' of Inl _ \<Rightarrow> False | Inr a \<Rightarrow> \<not> an_ok a"
  by code_simp+

lemma second_command_unmarked:
  "case analyze_command bare_host ''echo ok; python3 x.py'' of Inl _ \<Rightarrow> False | Inr a \<Rightarrow> an_ok a \<and> \<not> an_has_dangerous_chars a \<and>
     safe_name (an_executable a)"
  by code_simp

lemma file_argument_unmarked:
  "case analyze_command bare_host ''cat /etc/hosts'' of Inl _ \<Rightarrow> False | Inr a \<Rightarrow> an_ok a \<and> \<not> an_has_dangerous_chars a \<and>
     safe_name (an_executable a) \<and> \<not> an_is_safe_bin a"
  by code_simp

lemma fork_bomb_unmatched: "\<not> has_dangerous_pattern '':(){ :|:& };:''"
  by code_simp

lemma unknown_user_raises: "analyze_command bare_host ''ls ~nobody/*'' = Inl RuntimeError"
  by code_simp

lemma long_argument_raises:
  "analyze_command (bare_host\<lparr>h_stat := (\<lambda>_. StatFails)\<rparr>) ''echo hello'' = Inl OSError"
  by code_simp

end
