(* ===== verification/Exec_Properties.thy ===== *)
theory Exec_Properties
  imports Exec_Facts
begin

text \<open>
  The properties of command execution. Their witnesses run on the bare host of
  \<open>Exec_Facts\<close>, with the default policy.
\<close>

section \<open>Inputs of the witnesses\<close>

definition demo_store :: approvals where
  "demo_store = \<lparr>ap_config = None, ap_pending = [], ap_loaded_mtime = None, ap_file = Stored default_policy, ap_mtime = 1\<rparr>"

definition demo_world :: exec_world where
  "demo_world = \<lparr>xw_host = bare_host, xw_legacy = None, xw_write_1 = 2, xw_write_2 = 3, xw_now = 10, xw_now_ms = 10000,
     xw_id = ''a1'', xw_wait = Some (\<lambda>_ s. (Some AllowAlways, s))\<rparr>"

definition demo_config :: exec_config where
  "demo_config = \<lparr>xc_enabled = True, xc_timeout_seconds = 300, xc_max_output_chars = 200000, xc_approval_timeout_seconds = 120\<rparr>"

definition demo_run :: run_world where
  "demo_run = \<lparr>rw_environ = [(''OPENAI_API_KEY'', ''k''), (''PATH'', ''/bin'')],
     rw_passthrough = register_env_passthrough [Some ''OPENAI_API_KEY''] \<lparr>pt_allowed = [], pt_config = []\<rparr>,
     rw_cwd_file = ''/tmp/c'', rw_run = (\<lambda>_. Finished 0 [] [] None)\<rparr>"

definition demo_request :: "string \<Rightarrow> exec_request" where
  "demo_request command = \<lparr>rq_command = command, rq_cwd = None, rq_timeout = None, rq_env = None, rq_session_key = None\<rparr>"

definition demo_state :: exec_state where
  "demo_state = \<lparr>es_store = demo_store, es_cwds = [], es_spawned = []\<rparr>"

section \<open>Authority\<close>

text \<open>C29. A command reaches the shell only when execution is enabled, its analysis accepts it, the policy
  in force is not to deny, and either the owner allowed this very request (and was shown its risk marks and
  its resolved path) or the policy asks no question of it: it does not always ask, a risk mark is present only
  under full trust, and an allowlist policy has it listed, or knows it as a safe program and does not ask on a
  miss. Exactly one process is started, the one built from the request.\<close>

theorem spawn_authorised:
  assumes "es_spawned (snd (execute_command w r cfg rq s)) \<noteq> es_spawned s"
  shows "es_spawned (snd (execute_command w r cfg rq s)) = es_spawned s @ [make_spawn (xw_host w) r cfg rq] \<and>
    xc_enabled cfg \<and>
    (\<exists>a listed. analyze_command (xw_host w) (rq_command rq) = Inr a \<and> an_ok a \<and>
       fst (allowlist_verdict w a (policy_now w (es_store s))) = Inr listed \<and>
       xp_security (policy (policy_now w (es_store s))) \<noteq> ''deny'' \<and>
       (owner_allowed w rq a \<or> unasked (policy (policy_now w (es_store s))) a listed))"
proof -
  have c: "fst (clearance w cfg rq (es_store s)) = Inr None"
    using assms execute_spawns [of w r cfg rq s] by (auto split: if_splits)
  from c have "es_spawned (snd (execute_command w r cfg rq s)) = es_spawned s @ [make_spawn (xw_host w) r cfg rq]"
    by (simp add: execute_spawns)
  with c show ?thesis by (elim clearance_cases) blast
qed

theorem spawn_authorised_witness:
  "xc_enabled demo_config \<and> length (es_spawned (snd (execute_command demo_world demo_run demo_config (demo_request ''ls'') demo_state))) = 1"
proof -
  have "analyze_command bare_host ''ls'' = Inr \<lparr>an_ok = True, an_reason = None, an_executable = Some ''ls'',
      an_resolved_path = Some ''/bin/ls'', an_args = [], an_is_pipeline = False, an_segments = [],
      an_has_dangerous_chars = False, an_is_safe_bin = False, an_risk_reasons = []\<rparr>"
    by code_simp
  then have "fst (clearance demo_world demo_config (demo_request ''ls'') demo_store) = Inr None"
    by (simp add: clearance_def Let_def demo_world_def demo_config_def demo_request_def demo_store_def policy_now_def
      refresh_if_changed_def with_config_def load_def policy_def default_policy_def allowlist_verdict_def must_ask_def requires_approval_def)
  then have "es_spawned (snd (execute_command demo_world demo_run demo_config (demo_request ''ls'') demo_state)) \<noteq> es_spawned demo_state"
    by (simp add: execute_spawns demo_state_def)
  from spawn_authorised [OF this] show ?thesis by (simp add: demo_state_def)
qed




text \<open>C31. Whatever names skills and plugins register, in whatever order, a credential of the program is
  not in the environment of a process the executor starts, unless the operator's own configuration or a
  forced entry of the request names it; every other variable is inherited as it is when the request sets none.\<close>

theorem child_env_without_credentials:
  assumes "skills_clean p0" "rw_passthrough r = register_env_passthrough names p0" "distinct (map fst (rw_environ r))"
  shows "(\<forall>k. is_flowly_credential k \<and> k \<notin> set (pt_config p0) \<and>
      forced k \<notin> fst ` set (case rq_env rq of None \<Rightarrow> [] | Some e \<Rightarrow> e) \<longrightarrow>
      map_of (sp_env (make_spawn h r cfg rq)) k = None) \<and>
    (\<forall>k. rq_env rq = None \<and> \<not> is_flowly_credential k \<and> \<not> is_prefix FORCE_PREFIX k \<longrightarrow>
      map_of (sp_env (make_spawn h r cfg rq)) k = map_of (rw_environ r) k)"
proof (intro conjI allI impI; elim conjE)
  let ?p = "rw_passthrough r" and ?extra = "case rq_env rq of None \<Rightarrow> [] | Some e \<Rightarrow> e"
  have clean: "skills_clean ?p" "pt_config ?p = pt_config p0" using assms(1,2) register_clean by simp_all
  have env: "sp_env (make_spawn h r cfg rq) = foldl (keep_extra ?p) (foldl (keep_base ?p) [] (rw_environ r)) ?extra"
    by (simp add: make_spawn_def sanitize_subprocess_env_def)
  fix k
  { assume k: "is_flowly_credential k" "k \<notin> set (pt_config p0)" "forced k \<notin> fst ` set ?extra"
    then have "\<not> passes ?p k" using clean by (auto simp: passes_def is_env_passthrough_def skills_clean_def list_all_iff)
    then have "filter (sets ?p k) ?extra = []" "map_of (foldl (keep_base ?p) [] (rw_environ r)) k = None"
      using k(3) by (force simp: sets_def filter_empty_conv, simp add: keep_base_lookup)
    then show "map_of (sp_env (make_spawn h r cfg rq)) k = None" unfolding env keep_extra_lookup by simp }
  { assume "rq_env rq = None" "\<not> is_flowly_credential k" "\<not> is_prefix FORCE_PREFIX k"
    then show "map_of (sp_env (make_spawn h r cfg rq)) k = map_of (rw_environ r) k"
      unfolding env using assms(3)
      by (auto simp: keep_base_lookup passes_def map_of_eq_None_iff [symmetric] map_of_rev_distinct) }
qed

theorem child_env_without_credentials_witness:
  "map_of (sp_env (make_spawn bare_host demo_run demo_config (demo_request ''env''))) ''OPENAI_API_KEY'' = None \<and>
   map_of (sp_env (make_spawn bare_host demo_run demo_config (demo_request ''env''))) ''PATH'' = Some ''/bin''"
proof -
  have p: "skills_clean \<lparr>pt_allowed = [], pt_config = []\<rparr>" "distinct (map fst (rw_environ demo_run))"
    "rw_passthrough demo_run = register_env_passthrough [Some ''OPENAI_API_KEY''] \<lparr>pt_allowed = [], pt_config = []\<rparr>"
    by (simp_all add: skills_clean_def demo_run_def)
  have "is_flowly_credential ''OPENAI_API_KEY''" "\<not> is_flowly_credential ''PATH''" "\<not> is_prefix FORCE_PREFIX ''PATH''"
    "map_of (rw_environ demo_run) ''PATH'' = Some ''/bin''"
    by code_simp+
  moreover have "rq_env (demo_request ''env'') = None" by (simp add: demo_request_def)
  ultimately show ?thesis using child_env_without_credentials [OF p(1,3,2), of "demo_request ''env''" bare_host demo_config] by simp
qed

section \<open>Remembered decisions\<close>

text \<open>When the owner answers a request with \<open>allow-always\<close> and its program was found at a plain path,
  the allowlist, in memory and in the file, afterwards lets exactly the paths pass that passed before and that
  one; a pattern that raises still raises.\<close>

theorem allow_always_remembered:
  assumes "map_of (ap_pending s) i = Some p" "pe_resolved_path p = Some q" "plain_path q"
    and s'_def: "s' = snd (resolve_pending l t n i AllowAlways s)"
  shows "fst (store_check_allowlist h l t' n' (Some q') s') =
      (case fst (store_check_allowlist h l t' n' (Some q') s) of Inl e \<Rightarrow> Inl e | Inr b \<Rightarrow> Inr (b \<or> q' = q)) \<and>
    ap_file s' = Stored (policy s')"
proof -
  define s1 where "s1 = drop_pending i s"
  have s': "s' = add_to_allowlist l t n q (Some (rq_command (pe_request p))) (Some q) s1"
    using assms(1-3) by (simp add: s'_def resolve_pending_def s1_def plain_path_def)
  have "with_config l t s1 = drop_pending i (with_config l t s)"
    by (auto simp: s1_def drop_pending_def with_config_def load_def save_def file_mtime_def
      split: policy_file.splits option.splits)
  then have p1: "policy (with_config l t s1) = policy (with_config l t' s)"
    using with_config_policy [of l t s t'] by (simp add: policy_def drop_pending_def)
  note r = add_to_allowlist_remembers [OF s']
  have "with_config l t' s' = s'" using r(2) by (simp add: with_config_def)
  then show ?thesis using passes_remembered [OF assms(3) r(1), of h q'] assms(3) p1 r(3)
    by (auto simp: store_check_passes plain_path_def split: sum.splits)
qed

definition demo_pending :: pending where
  "demo_pending = \<lparr>pe_id = ''a1'', pe_request = demo_request ''ls'', pe_created_at = 10, pe_expires_at = 130,
     pe_session_key = None, pe_resolved_path = Some ''/bin/ls'', pe_risk_reasons = [], pe_kind = ''exec'',
     pe_supports_always = True, pe_run_id = None\<rparr>"

theorem allow_always_remembered_witness:
  "fst (store_check_allowlist bare_host None 5 0 (Some ''/bin/ls'')
     (snd (resolve_pending None 3 0 ''a1'' AllowAlways (demo_store\<lparr>ap_pending := [(''a1'', demo_pending)]\<rparr>)))) = Inr True"
proof -
  have "plain_path ''/bin/ls''" by code_simp
  moreover have "fst (store_check_allowlist bare_host None 5 0 (Some ''/bin/ls'') (demo_store\<lparr>ap_pending := [(''a1'', demo_pending)]\<rparr>)) = Inr False"
    by (simp add: store_check_passes with_config_def load_def demo_store_def policy_def default_policy_def passes_list_simps)
  ultimately show ?thesis
    using allow_always_remembered [of "demo_store\<lparr>ap_pending := [(''a1'', demo_pending)]\<rparr>" "''a1''" demo_pending "''/bin/ls''"
      _ None 3 0 bare_host 5 0 "''/bin/ls''"] by (simp add: demo_pending_def)
qed

section \<open>The shell text\<close>

text \<open>C32. The text the executor gives to the shell so that it can read the final directory is four command lines, as a POSIX shell
  reads them: the first is \<open>eval\<close> of a single word, quoted throughout and so neither expanded nor split, which is exactly the
  command, whatever quotes, line feeds or operators it contains; the others keep its exit code, write the directory to the
  capture file and exit with that code. The path of the capture file has no single quote.\<close>

theorem wrapped_command_kept:
  assumes "sq \<notin> set path"
  shows "sh_read (wrap_for_cwd_capture path command) =
    Some [[bare ''eval'', quoted command],
      [bare ''__flowly_ec=$?''],
      [bare ''pwd'', bare ''-P'', ShOp ''>'', quoted path, ShIo ''2'', ShOp ''>'', bare ''/dev/null'', ShOp ''||'', bare ''true''],
      [bare ''exit'', bare ''$__flowly_ec'']]"
proof -
  let ?sp = "CHR '' ''" and ?lf = "CHR 0x0A"
  have w: "wrap_for_cwd_capture path command = ''eval'' @ ?sp # sq # escape_quotes command @ sq # ?lf #
      ''__flowly_ec=$?'' @ ?lf # ''pwd'' @ ?sp # ''-P'' @ ?sp # CHR ''>'' # ?sp # sq # path @ sq #
      ?sp # ''2'' @ CHR ''>'' # ''/dev/null'' @ ?sp # CHR ''|'' # CHR ''|'' # ?sp # ''true'' @ ?lf # ''exit'' @ ?sp #
      ''$__flowly_ec'' @ [?lf]"
    by (simp add: wrap_for_cwd_capture_def)
  have flat: "sh_flat ''eval''" "sh_flat ''__flowly_ec=$?''" "sh_flat ''pwd''" "sh_flat ''-P''" "sh_flat ''2''" "sh_flat ''/dev/null''"
    "sh_flat ''true''" "sh_flat ''exit''" "sh_flat ''$__flowly_ec''" by code_simp+
  have sp: "sh_space ?sp" and ends: "?sp = ?lf \<or> sh_space ?sp" "?lf = ?lf \<or> sh_space ?lf" by code_simp+
  have two: "sh_lex Gap [] (''2'' @ CHR ''>'' # rest) = map_option ((#) (ShIo ''2'')) (sh_lex Gap [] (CHR ''>'' # rest))" for rest
    using sh_lex_ended [OF flat(5), of "CHR ''>''" "[]" rest] by (simp add: sh_ends_def sh_ended_def sh_operator_def)
  have redirect: "sh_lex Gap [] (CHR ''>'' # c # rest) = map_option ((#) (ShOp ''>'')) (sh_lex Gap [] (c # rest))" if "c = ?sp \<or> c = CHR ''/''" for c rest
    using that by (intro sh_lex_operator(1)) (auto simp: sh_operator_def sh_operators2_def)
  have orelse: "sh_lex Gap [] (CHR ''|'' # CHR ''|'' # rest) = map_option ((#) (ShOp ''||'')) (sh_lex Gap [] rest)" for rest
    by (intro sh_lex_operator(2)) (auto simp: sh_operator_def sh_operators2_def)
  have redirect2: "sh_lex Gap [] (CHR ''>'' # ''/dev/null'' @ rest) = map_option ((#) (ShOp ''>'')) (sh_lex Gap [] (''/dev/null'' @ rest))" for rest
    using redirect [of "CHR ''/''" "''dev/null'' @ rest"] by simp
  note bare = flat [THEN sh_lex_bare [OF _ _ ends(1)]] flat [THEN sh_lex_bare [OF _ _ ends(2)]] two
  have "sh_lex Gap [] (wrap_for_cwd_capture path command) = Some [bare ''eval'', quoted command, ShOp [?lf], bare ''__flowly_ec=$?'', ShOp [?lf],
      bare ''pwd'', bare ''-P'', ShOp ''>'', quoted path, ShIo ''2'', ShOp ''>'', bare ''/dev/null'', ShOp ''||'', bare ''true'', ShOp [?lf],
      bare ''exit'', bare ''$__flowly_ec'', ShOp [?lf]]"
    unfolding w
    by (simp only: bare sh_lex_wrapped(1) sh_lex_wrapped(2) [OF assms] sh_lex_feed sh_lex_space [OF sp] redirect redirect2 orelse sh_lex.simps(1)
      option.map list.distinct char.inject simp_thms not_False_eq_True)
  then show ?thesis by (simp add: sh_read_def bare_def quoted_def)
qed

theorem wrapped_command_kept_witness:
  "map_option (map (map (\<lambda>t. case t of ShWord w \<Rightarrow> map fst w | ShOp s \<Rightarrow> s | ShIo s \<Rightarrow> s))) (sh_read (wrap_for_cwd_capture ''/tmp/c'' ''echo it's; id'')) =
    Some [[''eval'', ''echo it's; id''], [''__flowly_ec=$?''],
      [''pwd'', ''-P'', ''>'', ''/tmp/c'', ''2'', ''>'', ''/dev/null'', ''||'', ''true''], [''exit'', ''$__flowly_ec'']]"
proof -
  have "sq \<notin> set ''/tmp/c''" by code_simp
  from wrapped_command_kept [OF this] show ?thesis by (simp add: bare_def quoted_def)
qed

section \<open>Answers to a request\<close>

text \<open>C33. When the wait of a request returns a decision, in any order of requests, answers and ends of
  waits, that decision was given to this request while it waited, before its deadline, by somebody its session's
  control scope admits: the trusted process itself, or the owner of a private session. No further answer is
  accepted, and the request is gone from the manager when the wait is over.\<close>

theorem approval_settled_once:
  assumes "fst (end_wait Answered i (mgr_run es)) = Some (Some d)"
  shows "(\<exists>es1 now me f es2 p sc. es = es1 @ AnswerEvent now me f i d # es2 \<and>
      slot i (mgr_run es1) = (Some None, Some p, Some sc) \<and> now < pe_expires_at p \<and>
      (me = None \<or> sc_owner sc = None \<or> sc_owner sc = me) \<and> (\<forall>how. EndEvent how i \<notin> set es2)) \<and>
    (\<forall>now me f d'. \<not> fst (resolve_request now me f i d' (mgr_run es))) \<and>
    slot i (snd (end_wait Answered i (mgr_run es))) = (None, None, None)"
proof -
  have a: "map_of (mg_futures (mgr_run es)) i = Some (Some d)"
    using assms by (auto simp: end_wait_def split: option.splits)
  have "me = None \<or> sc_owner sc = None \<or> sc_owner sc = me" if "scope_guard me f sc key" for me f sc key
    using that by (auto simp: scope_guard_def split: option.splits if_splits)
  then have "\<exists>es1 now me f es2 p sc. es = es1 @ AnswerEvent now me f i d # es2 \<and>
      slot i (mgr_run es1) = (Some None, Some p, Some sc) \<and> now < pe_expires_at p \<and>
      (me = None \<or> sc_owner sc = None \<or> sc_owner sc = me) \<and> (\<forall>how. EndEvent how i \<notin> set es2)"
    using answer_accepted [OF a] unfolding accepted_answer_def by metis
  moreover have "\<not> fst (resolve_request now me f i d' (mgr_run es))" for now me f d'
    using a by (auto simp: resolve_request_def split: option.splits)
  moreover have "slot i (snd (end_wait Answered i (mgr_run es))) = (None, None, None)"
    using a by (simp add: end_wait_def)
  ultimately show ?thesis by blast
qed

definition demo_events :: "mgr_event list" where
  "demo_events = [AskEvent False None None MissingFile None demo_pending, AnswerEvent 20 (Some host_owner) MissingFile ''a1'' AllowOnce]"

theorem approval_settled_once_witness:
  "\<not> fst (resolve_request 30 None MissingFile ''a1'' Deny (mgr_run demo_events))"
proof -
  have "fst (end_wait Answered ''a1'' (mgr_run demo_events)) = Some (Some AllowOnce)"
    by (simp add: mgr_run_def demo_events_def request_and_wait_def cron_mode_decision_def new_manager_def capture_def
      demo_pending_def resolve_request_def pending_control_guard_def scope_guard_def end_wait_def)
  from approval_settled_once [OF this] show ?thesis by blast
qed

end
