(* ===== verification/Cron_Types.thy ===== *)
theory Cron_Types
  imports Prelude
begin

text \<open>
  Scheduled jobs and when they are due: \<open>src/flowly/cron/types.py\<close> and the schedule functions of
  \<open>src/flowly/cron/service.py\<close>. Times are milliseconds. The package \<open>croniter\<close> and the rules of a
  timezone are parameters; the search that combines them is the program's own.
\<close>

section \<open>Schedules\<close>

record cron_schedule =
  cs_kind :: string
  cs_at_ms :: "int option"
  cs_every_ms :: "int option"
  cs_expr :: "string option"
  cs_tz :: "string option"

text \<open>A naive local calendar value is a number; a zone reads the calendar at an instant and finds the
  instant of a calendar value (the earlier one when it occurs twice).\<close>

type_synonym wall = int

record zone_rules =
  zr_wall :: "int \<Rightarrow> wall"
  zr_instant :: "wall \<Rightarrow> int"

text \<open>\<open>cal_named\<close> is \<open>ZoneInfo\<close> (\<open>None\<close> raises), \<open>cal_host\<close> the zone of the host (\<open>gettz()\<close>); \<open>cal_next e w\<close>
  is the calendar value after \<open>w\<close> that the expression \<open>e\<close> gives (\<open>None\<close> when \<open>croniter\<close> raises),
  \<open>cal_valid\<close> whether it accepts \<open>e\<close>.\<close>

record calendar =
  cal_named :: "string \<Rightarrow> zone_rules option"
  cal_host :: "zone_rules option"
  cal_valid :: "string \<Rightarrow> bool"
  cal_next :: "string \<Rightarrow> wall \<Rightarrow> wall option"

text \<open>\<open>schedule_timezone\<close>: an explicit zone or that of the host; \<open>None\<close> is its \<open>ValueError\<close>.\<close>

definition schedule_timezone :: "calendar \<Rightarrow> string option \<Rightarrow> zone_rules option" where
  "schedule_timezone cal name = (if truthy name then cal_named cal (the name) else cal_host cal)"

text \<open>Truth of an optional number: \<open>None\<close> and zero are false.\<close>

definition truthy_int :: "int option \<Rightarrow> bool" where
  "truthy_int v = (case v of None \<Rightarrow> False | Some i \<Rightarrow> i \<noteq> 0)"

lemma truthy_int_simps [simp]: "\<not> truthy_int None" "truthy_int (Some i) \<longleftrightarrow> i \<noteq> 0"
  by (simp_all add: truthy_int_def)

definition schedule_equal :: "cron_schedule \<Rightarrow> cron_schedule \<Rightarrow> bool" where
  "schedule_equal l r = (cs_kind l = cs_kind r \<and> cs_at_ms l = cs_at_ms r \<and> cs_every_ms l = cs_every_ms r \<and>
     cs_expr l = cs_expr r \<and> cs_tz l = cs_tz r)"

text \<open>The loop of \<open>_next_cron_datetime\<close>: a calendar value the zone skips is passed over, and so is one
  that is not later than \<open>after\<close>. \<open>None\<close> is the \<open>ValueError\<close> after the last round or an error of \<open>croniter\<close>.\<close>

fun search_cron :: "nat \<Rightarrow> (wall \<Rightarrow> wall option) \<Rightarrow> zone_rules \<Rightarrow> int \<Rightarrow> wall \<Rightarrow> int option" where
  "search_cron 0 following z after w = None"
| "search_cron (Suc n) following z after w = (case following w of
      None \<Rightarrow> None
    | Some v \<Rightarrow> (let t = zr_instant z v in
        if zr_wall z t \<noteq> v then search_cron n following z after v
        else if after < t then Some t
        else search_cron n following z after v))"

definition CRON_ROUNDS :: nat where
  "CRON_ROUNDS = 100000"

definition next_cron_datetime :: "calendar \<Rightarrow> string \<Rightarrow> int \<Rightarrow> zone_rules \<Rightarrow> int option" where
  "next_cron_datetime cal expr after_ms z =
     (if cal_valid cal expr then search_cron CRON_ROUNDS (cal_next cal expr) z after_ms (zr_wall z after_ms) else None)"

definition compute_next_run :: "calendar \<Rightarrow> cron_schedule \<Rightarrow> int \<Rightarrow> int option" where
  "compute_next_run cal s now_ms =
     (if cs_kind s = ''at'' then
        (if truthy_int (cs_at_ms s) \<and> now_ms < the (cs_at_ms s) then cs_at_ms s else None)
      else if cs_kind s = ''every'' then
        (case cs_every_ms s of None \<Rightarrow> None | Some e \<Rightarrow> if e \<le> 0 then None else Some (now_ms + e))
      else if cs_kind s = ''cron'' \<and> truthy (cs_expr s) then
        (case schedule_timezone cal (cs_tz s) of
           None \<Rightarrow> None
         | Some z \<Rightarrow> next_cron_datetime cal (the (cs_expr s)) now_ms z)
      else None)"

definition GRACE_MIN_MS :: int where "GRACE_MIN_MS = 120 * 1000"
definition GRACE_MAX_MS :: int where "GRACE_MAX_MS = 7200 * 1000"

definition clamp_grace :: "int \<Rightarrow> int" where
  "clamp_grace period = max GRACE_MIN_MS (min (period div 2) GRACE_MAX_MS)"

definition compute_grace_ms :: "calendar \<Rightarrow> int \<Rightarrow> cron_schedule \<Rightarrow> int" where
  "compute_grace_ms cal now_ms s =
     (if cs_kind s = ''every'' \<and> truthy_int (cs_every_ms s) then clamp_grace (the (cs_every_ms s))
      else if cs_kind s = ''cron'' \<and> truthy (cs_expr s) then
        (case schedule_timezone cal (cs_tz s) of
           None \<Rightarrow> GRACE_MIN_MS
         | Some z \<Rightarrow> (case next_cron_datetime cal (the (cs_expr s)) now_ms z of
             None \<Rightarrow> GRACE_MIN_MS
           | Some first \<Rightarrow> (case next_cron_datetime cal (the (cs_expr s)) first z of
               None \<Rightarrow> GRACE_MIN_MS
             | Some second \<Rightarrow> clamp_grace (second - first))))
      else GRACE_MIN_MS)"

lemma search_cron_result:
  assumes "search_cron n following z after w = Some t"
  shows "after < t" "\<exists>v. zr_instant z v = t \<and> zr_wall z t = v"
  using assms by (induction n arbitrary: w) (auto simp: Let_def split: option.splits if_splits)

lemma compute_next_run_future: "compute_next_run cal s now = Some t \<Longrightarrow> now < t"
  by (auto simp: compute_next_run_def next_cron_datetime_def dest: search_cron_result(1) split: if_splits option.splits)

lemma compute_grace_bounds: "GRACE_MIN_MS \<le> compute_grace_ms cal now s \<and> compute_grace_ms cal now s \<le> GRACE_MAX_MS"
  by (auto simp: compute_grace_ms_def clamp_grace_def GRACE_MIN_MS_def GRACE_MAX_MS_def split: option.splits)

section \<open>Jobs\<close>

datatype lifecycle = Scheduled | Paused | Completed | Archived

datatype run_status = St_ok | St_error | St_skipped

record cron_origin =
  or_platform :: "string option"
  or_chat_id :: "string option"
  or_chat_name :: "string option"
  or_thread_id :: "string option"

record cron_payload =
  py_kind :: string
  py_message :: string
  py_deliver :: bool
  py_channel :: "string option"
  py_to :: "string option"
  py_tool_name :: "string option"
  py_tool_args :: "(string \<times> json) list option"

record job_state =
  js_next_run_at_ms :: "int option"
  js_last_run_at_ms :: "int option"
  js_last_status :: "run_status option"
  js_last_error :: "string option"
  js_last_delivery_error :: "string option"
  js_last_output_error :: "string option"
  js_consecutive_failures :: int
  js_last_alert_at_ms :: "int option"
  js_retry_attempt :: int
  js_last_run_id :: "string option"

definition new_state :: "int option \<Rightarrow> job_state" where
  "new_state next_run = \<lparr>js_next_run_at_ms = next_run, js_last_run_at_ms = None, js_last_status = None, js_last_error = None,
     js_last_delivery_error = None, js_last_output_error = None, js_consecutive_failures = 0, js_last_alert_at_ms = None,
     js_retry_attempt = 0, js_last_run_id = None\<rparr>"

record cron_job =
  cj_id :: string
  cj_name :: string
  cj_enabled :: bool
  cj_schedule :: cron_schedule
  cj_payload :: cron_payload
  cj_state :: job_state
  cj_created_at_ms :: int
  cj_updated_at_ms :: int
  cj_lifecycle :: lifecycle
  cj_completed_at_ms :: "int option"
  cj_archived_at_ms :: "int option"
  cj_source :: "string option"
  cj_source_id :: "string option"
  cj_delete_after_run :: bool
  cj_origin :: "cron_origin option"
  cj_repeat_times :: "int option"
  cj_repeat_completed :: int
  cj_script :: "string option"
  cj_skills :: "string list"
  cj_model :: "string option"
  cj_provider :: "string option"
  cj_retry_max_attempts :: int
  cj_retry_backoff_ms :: "int list"
  cj_failure_alert_after :: int
  cj_failure_alert_cooldown_ms :: int

abbreviation next_run :: "cron_job \<Rightarrow> int option" where
  "next_run j \<equiv> js_next_run_at_ms (cj_state j)"

definition set_state :: "(job_state \<Rightarrow> job_state) \<Rightarrow> cron_job \<Rightarrow> cron_job" where
  "set_state f j = j\<lparr>cj_state := f (cj_state j)\<rparr>"

definition set_next :: "int option \<Rightarrow> cron_job \<Rightarrow> cron_job" where
  "set_next t = set_state (\<lambda>s. s\<lparr>js_next_run_at_ms := t\<rparr>)"

lemma set_next_simps [simp]:
  "next_run (set_next t j) = t" "cj_id (set_next t j) = cj_id j" "cj_lifecycle (set_next t j) = cj_lifecycle j"
  "cj_enabled (set_next t j) = cj_enabled j" "cj_schedule (set_next t j) = cj_schedule j"
  "cj_repeat_times (set_next t j) = cj_repeat_times j" "cj_repeat_completed (set_next t j) = cj_repeat_completed j"
  "cj_retry_max_attempts (set_next t j) = cj_retry_max_attempts j"
  "js_retry_attempt (cj_state (set_next t j)) = js_retry_attempt (cj_state j)"
  by (simp_all add: set_next_def set_state_def)

definition recurring :: "cron_job \<Rightarrow> bool" where
  "recurring j = (cs_kind (cj_schedule j) = ''every'' \<or> cs_kind (cj_schedule j) = ''cron'')"

text \<open>The condition under which a pass takes a job up.\<close>

definition is_due :: "int \<Rightarrow> cron_job \<Rightarrow> bool" where
  "is_due now j = (cj_lifecycle j = Scheduled \<and> cj_enabled j \<and> truthy_int (next_run j) \<and> the (next_run j) \<le> now)"

end
