(* ===== verification/Cron_Store.thy ===== *)
theory Cron_Store
  imports Cron_Types
begin

text \<open>
  The operations on the schedule of \<open>CronService\<close> in \<open>src/flowly/cron/service.py\<close>: adding, changing,
  pausing, archiving and listing jobs, repairing due times, and the earliest wake-up. Each works on
  the list of jobs; the service (\<open>Cron_Service\<close>) saves it. A \<open>ValueError\<close> of \<open>add_job\<close> is \<open>Inl\<close> of its text.
\<close>

definition normalize_text :: "string option \<Rightarrow> string option" where
  "normalize_text v = (case v of None \<Rightarrow> None | Some s \<Rightarrow> or_none (strip s))"

text \<open>The skills of a job: stripped, without empty ones and repetitions, in their order.\<close>

definition add_skill :: "string list \<Rightarrow> string option \<Rightarrow> string list" where
  "add_skill acc s = (let t = strip (case s of None \<Rightarrow> '''' | Some x \<Rightarrow> x) in
     if t \<noteq> '''' \<and> t \<notin> set acc then acc @ [t] else acc)"

definition normalize_skills :: "string option list \<Rightarrow> string list" where
  "normalize_skills skills = foldl add_skill [] skills"

section \<open>Adding a job\<close>

record job_request =
  jr_name :: string
  jr_schedule :: cron_schedule
  jr_payload :: cron_payload
  jr_delete_after_run :: bool
  jr_origin :: "cron_origin option"
  jr_repeat_times :: "int option"
  jr_script :: "string option"
  jr_skills :: "string option list"
  jr_model :: "string option"
  jr_provider :: "string option"
  jr_retry_max_attempts :: int
  jr_retry_backoff_ms :: "int list"
  jr_failure_alert_after :: int
  jr_failure_alert_cooldown_ms :: int
  jr_source :: "string option"
  jr_source_id :: "string option"

definition MIN_INTERVAL_MS :: int where "MIN_INTERVAL_MS = 60000"

text \<open>\<open>croniter(expr)\<close> and \<open>schedule_timezone(tz)\<close> raise; their messages are shortened.\<close>

definition check_schedule :: "calendar \<Rightarrow> cron_schedule \<Rightarrow> string option" where
  "check_schedule cal s =
     (if cs_kind s = ''every'' \<and> (\<not> truthy_int (cs_every_ms s) \<or> the (cs_every_ms s) < MIN_INTERVAL_MS)
        then Some ''Minimum interval is 60 seconds''
      else if cs_kind s = ''cron'' \<and> schedule_timezone cal (cs_tz s) = None then Some ''Invalid cron timezone''
      else if cs_kind s = ''cron'' \<and> truthy (cs_expr s) \<and> \<not> cal_valid cal (the (cs_expr s)) then Some ''Invalid cron expression''
      else None)"

definition limit_of :: "cron_schedule \<Rightarrow> int option \<Rightarrow> int option" where
  "limit_of s repeat_times = (case (if cs_kind s = ''at'' \<and> repeat_times = None then Some 1 else repeat_times) of
      None \<Rightarrow> None | Some n \<Rightarrow> if n \<le> 0 then None else Some n)"

definition make_job :: "string \<Rightarrow> int \<Rightarrow> int option \<Rightarrow> job_request \<Rightarrow> cron_job" where
  "make_job i now due r = (let source = normalize_text (jr_source r) in
     \<lparr>cj_id = i, cj_name = jr_name r, cj_enabled = True, cj_schedule = jr_schedule r, cj_payload = jr_payload r,
      cj_state = new_state due, cj_created_at_ms = now, cj_updated_at_ms = now, cj_lifecycle = Scheduled,
      cj_completed_at_ms = None, cj_archived_at_ms = None, cj_source = source,
      cj_source_id = (case normalize_text (jr_source_id r) of Some x \<Rightarrow> Some x
        | None \<Rightarrow> if source = None then None else Some i),
      cj_delete_after_run = jr_delete_after_run r, cj_origin = jr_origin r,
      cj_repeat_times = limit_of (jr_schedule r) (jr_repeat_times r), cj_repeat_completed = 0,
      cj_script = normalize_text (jr_script r), cj_skills = normalize_skills (jr_skills r),
      cj_model = normalize_text (jr_model r), cj_provider = normalize_text (jr_provider r),
      cj_retry_max_attempts = max 0 (jr_retry_max_attempts r),
      cj_retry_backoff_ms = filter (\<lambda>x. 0 < x) (jr_retry_backoff_ms r),
      cj_failure_alert_after = max 0 (jr_failure_alert_after r),
      cj_failure_alert_cooldown_ms = max 0 (jr_failure_alert_cooldown_ms r)\<rparr>)"

definition add_job :: "calendar \<Rightarrow> string \<Rightarrow> int \<Rightarrow> job_request \<Rightarrow> cron_job list \<Rightarrow> string + cron_job \<times> cron_job list" where
  "add_job cal i now r jobs =
     (if jr_name r = '''' \<or> 256 < length (jr_name r) then Inl ''Job name must be 1-256 characters''
      else if 50000 < length (py_message (jr_payload r)) then Inl ''Job message too long (max 50,000 chars)''
      else case check_schedule cal (jr_schedule r) of
          Some e \<Rightarrow> Inl e
        | None \<Rightarrow> (let due = compute_next_run cal (jr_schedule r) now in
            if cs_kind (jr_schedule r) = ''cron'' \<and> due = None then Inl ''Cron schedule has no resolvable future occurrence''
            else (let j = make_job i now due r in Inr (j, jobs @ [j]))))"

section \<open>Changing a job\<close>

text \<open>The keys of \<open>updates\<close> that are present; a value of \<open>None\<close> inside is Python's.\<close>

record job_updates =
  ju_name :: "string option"
  ju_message :: "string option"
  ju_deliver :: "bool option"
  ju_channel :: "string option"
  ju_to :: "string option"
  ju_script :: "string option option"
  ju_skills :: "string option list option"
  ju_model :: "string option option"
  ju_provider :: "string option option"
  ju_source :: "string option option"
  ju_source_id :: "string option option"
  ju_repeat_times :: "int option option"
  ju_schedule :: "cron_schedule option"
  ju_reschedule :: bool

definition given :: "'a option \<Rightarrow> 'a \<Rightarrow> 'a" where
  "given v old = (case v of None \<Rightarrow> old | Some x \<Rightarrow> x)"

definition update_fields :: "job_updates \<Rightarrow> cron_job \<Rightarrow> cron_job" where
  "update_fields u j = j
     \<lparr>cj_name := (if truthy (ju_name u) then the (ju_name u) else cj_name j),
      cj_payload := (cj_payload j)\<lparr>py_message := given (ju_message u) (py_message (cj_payload j)),
        py_deliver := given (ju_deliver u) (py_deliver (cj_payload j)),
        py_channel := (case ju_channel u of None \<Rightarrow> py_channel (cj_payload j) | Some c \<Rightarrow> or_none c),
        py_to := (case ju_to u of None \<Rightarrow> py_to (cj_payload j) | Some t \<Rightarrow> or_none t)\<rparr>,
      cj_script := given (map_option normalize_text (ju_script u)) (cj_script j),
      cj_skills := given (map_option normalize_skills (ju_skills u)) (cj_skills j),
      cj_model := given (map_option normalize_text (ju_model u)) (cj_model j),
      cj_provider := given (map_option normalize_text (ju_provider u)) (cj_provider j),
      cj_source := given (map_option normalize_text (ju_source u)) (cj_source j),
      cj_source_id := given (map_option normalize_text (ju_source_id u)) (cj_source_id j),
      cj_repeat_times := (case ju_repeat_times u of None \<Rightarrow> cj_repeat_times j
        | Some v \<Rightarrow> (case v of None \<Rightarrow> None | Some n \<Rightarrow> if 0 < n then Some n else None))\<rparr>"

definition reschedule_job :: "bool \<Rightarrow> cron_schedule \<Rightarrow> int option \<Rightarrow> cron_job \<Rightarrow> cron_job" where
  "reschedule_job limit_given s due j = j
     \<lparr>cj_schedule := s, cj_lifecycle := Scheduled, cj_enabled := True, cj_completed_at_ms := None, cj_archived_at_ms := None,
      cj_state := (cj_state j)\<lparr>js_next_run_at_ms := due, js_retry_attempt := 0\<rparr>,
      cj_repeat_completed := 0, cj_delete_after_run := False,
      cj_repeat_times := (if \<not> limit_given \<and> cs_kind (cj_schedule j) \<noteq> cs_kind s
        then (if cs_kind s = ''at'' then Some 1 else None) else cj_repeat_times j)\<rparr>"

text \<open>Whether and to when the new schedule moves the job: \<open>Inr None\<close> when it does not.\<close>

definition new_due :: "calendar \<Rightarrow> int \<Rightarrow> job_updates \<Rightarrow> cron_job \<Rightarrow> string + (cron_schedule \<times> int) option" where
  "new_due cal now u j = (case ju_schedule u of
      None \<Rightarrow> Inr None
    | Some s \<Rightarrow>
        if cs_kind s = ''cron'' \<and> schedule_timezone cal (cs_tz s) = None then Inl ''Invalid cron timezone''
        else if \<not> ju_reschedule u \<and> schedule_equal (cj_schedule j) s then Inr None
        else case check_schedule cal s of
            Some e \<Rightarrow> Inl e
          | None \<Rightarrow> (case compute_next_run cal s now of
              None \<Rightarrow> Inl ''rescheduled job must have a future valid schedule''
            | Some t \<Rightarrow> Inr (Some (s, t))))"

text \<open>How an operation on one job ends: saved, left unsaved, or raised.\<close>

datatype change = Saved | Unsaved | Raised string

definition update_one :: "calendar \<Rightarrow> int \<Rightarrow> int \<Rightarrow> job_updates \<Rightarrow> cron_job \<Rightarrow> change \<times> cron_job" where
  "update_one cal now stamp u j = (case new_due cal now u j of
      Inl e \<Rightarrow> (Raised e, j)
    | Inr move \<Rightarrow> (let k = update_fields u j in
        (Saved, (case move of None \<Rightarrow> k | Some (s, t) \<Rightarrow> reschedule_job (ju_repeat_times u \<noteq> None) s (Some t) k)
          \<lparr>cj_updated_at_ms := stamp\<rparr>)))"

text \<open>The first job that satisfies a test is replaced; \<open>None\<close> when there is none.\<close>

fun change_first :: "(cron_job \<Rightarrow> bool) \<Rightarrow> (cron_job \<Rightarrow> change \<times> cron_job) \<Rightarrow> cron_job list \<Rightarrow> (change \<times> cron_job list) option" where
  "change_first P f [] = None"
| "change_first P f (j # js) = (if P j then Some (fst (f j), snd (f j) # js)
     else map_option (\<lambda>(c, ks). (c, j # ks)) (change_first P f js))"

definition update_job :: "calendar \<Rightarrow> int \<Rightarrow> int \<Rightarrow> string \<Rightarrow> job_updates \<Rightarrow> cron_job list \<Rightarrow> (change \<times> cron_job list) option" where
  "update_job cal now stamp i u jobs = change_first (\<lambda>j. cj_id j = i \<or> cj_name j = i) (update_one cal now stamp u) jobs"

definition update_delivery_target :: "int \<Rightarrow> string \<Rightarrow> string \<Rightarrow> string \<Rightarrow> cron_job list \<Rightarrow> (change \<times> cron_job list) option" where
  "update_delivery_target now i channel target jobs = change_first (\<lambda>j. cj_id j = i)
     (\<lambda>j. (Saved, j\<lparr>cj_payload := (cj_payload j)\<lparr>py_channel := Some channel, py_to := Some target\<rparr>, cj_updated_at_ms := now\<rparr>)) jobs"

definition mark_delivery_error :: "string \<Rightarrow> string option \<Rightarrow> cron_job list \<Rightarrow> (change \<times> cron_job list) option" where
  "mark_delivery_error i e jobs = change_first (\<lambda>j. cj_id j = i)
     (\<lambda>j. (Saved, set_state (\<lambda>s. s\<lparr>js_last_delivery_error := e\<rparr>) j)) jobs"

text \<open>\<open>enable_job\<close> stamps the job before it may raise.\<close>

definition resume_job :: "calendar \<Rightarrow> int \<Rightarrow> cron_job \<Rightarrow> change \<times> cron_job" where
  "resume_job cal now j0 = (let j = j0\<lparr>cj_updated_at_ms := now\<rparr> in
     if cj_lifecycle j = Completed \<or> cj_lifecycle j = Archived then (Raised ''completed or archived jobs must be rescheduled'', j)
     else case compute_next_run cal (cj_schedule j) now of
         None \<Rightarrow> (Raised ''job schedule has no future run; reschedule it'', j)
       | Some t \<Rightarrow> (Saved, (set_next (Some t) j)\<lparr>cj_lifecycle := Scheduled, cj_enabled := True\<rparr>))"

definition pause_job :: "int \<Rightarrow> cron_job \<Rightarrow> change \<times> cron_job" where
  "pause_job now j0 = (let j = j0\<lparr>cj_updated_at_ms := now\<rparr> in
     if cj_lifecycle j \<noteq> Scheduled then (Unsaved, j)
     else (Saved, (set_next None j)\<lparr>cj_lifecycle := Paused, cj_enabled := False\<rparr>))"

definition enable_job :: "calendar \<Rightarrow> int \<Rightarrow> string \<Rightarrow> bool \<Rightarrow> cron_job list \<Rightarrow> (change \<times> cron_job list) option" where
  "enable_job cal now i enabled jobs = change_first (\<lambda>j. cj_id j = i)
     (if enabled then resume_job cal now else pause_job now) jobs"

definition archive_job :: "int \<Rightarrow> cron_job \<Rightarrow> cron_job" where
  "archive_job now j = (set_next None j)\<lparr>cj_lifecycle := Archived, cj_enabled := False,
     cj_archived_at_ms := Some now, cj_updated_at_ms := now\<rparr>"

text \<open>\<open>remove_job\<close>, given the jobs that run now; \<open>None\<close> is its \<open>False\<close>.\<close>

definition remove_job :: "int \<Rightarrow> string list \<Rightarrow> string \<Rightarrow> bool \<Rightarrow> cron_job list \<Rightarrow> cron_job list option" where
  "remove_job now active i purge jobs = (let targets = filter (\<lambda>j. cj_id j = i \<or> cj_name j = i) jobs in
     if targets = [] \<or> list_ex (\<lambda>j. cj_id j \<in> set active) targets then None
     else if purge then Some (filter (\<lambda>j. cj_id j \<notin> cj_id ` set targets) jobs)
     else Some (map (\<lambda>j. if cj_id j = i \<or> cj_name j = i then archive_job now j else j) jobs))"

section \<open>Due times\<close>

definition recompute_one :: "calendar \<Rightarrow> int \<Rightarrow> cron_job \<Rightarrow> cron_job" where
  "recompute_one cal now j =
     (if cj_lifecycle j \<noteq> Scheduled \<or> \<not> cj_enabled j then (set_next None j)\<lparr>cj_enabled := False\<rparr>
      else if 0 < js_retry_attempt (cj_state j) \<and> next_run j \<noteq> None then j
      else if cs_kind (cj_schedule j) = ''at'' then
        (if js_last_run_at_ms (cj_state j) = None
         then set_next (if truthy_int (next_run j) then next_run j else cs_at_ms (cj_schedule j)) j
         else (set_next None j)\<lparr>cj_lifecycle := Completed, cj_enabled := False,
           cj_completed_at_ms := (if truthy_int (cj_completed_at_ms j) then cj_completed_at_ms j else js_last_run_at_ms (cj_state j))\<rparr>)
      else (let t = compute_next_run cal (cj_schedule j) now in
        if cs_kind (cj_schedule j) = ''cron'' \<and> t = None
        then (set_next None j)\<lparr>cj_lifecycle := Paused, cj_enabled := False\<rparr>
        else set_next t j))"

definition recompute_next_runs :: "calendar \<Rightarrow> int \<Rightarrow> cron_job list \<Rightarrow> cron_job list" where
  "recompute_next_runs cal now jobs = map (recompute_one cal now) jobs"

definition next_wake_ms :: "string list \<Rightarrow> cron_job list \<Rightarrow> int option" where
  "next_wake_ms active jobs = (let times = map (\<lambda>j. the (next_run j)) (filter (\<lambda>j. cj_lifecycle j = Scheduled \<and> cj_enabled j \<and>
       truthy_int (next_run j) \<and> cj_id j \<notin> set active) jobs)
     in if times = [] then None else Some (Min (set times)))"

section \<open>Listings\<close>

text \<open>\<open>list_jobs\<close>: the scheduled ones first by due time, the others by their last change.\<close>

definition listed_before :: "cron_job \<Rightarrow> cron_job \<Rightarrow> bool" where
  "listed_before a b =
     (if cj_lifecycle a = Scheduled \<and> cj_lifecycle b = Scheduled then
        (truthy_int (next_run a) \<and> (truthy_int (next_run b) \<longrightarrow> the (next_run a) \<le> the (next_run b)))
        \<or> (\<not> truthy_int (next_run a) \<and> \<not> truthy_int (next_run b))
      else if cj_lifecycle a = Scheduled then True
      else if cj_lifecycle b = Scheduled then False
      else (let key = (\<lambda>j. if cj_updated_at_ms j \<noteq> 0 then cj_updated_at_ms j else cj_created_at_ms j) in key b \<le> key a))"

fun insert_job :: "cron_job \<Rightarrow> cron_job list \<Rightarrow> cron_job list" where
  "insert_job j [] = [j]"
| "insert_job j (k # ks) = (if listed_before j k then j # k # ks else k # insert_job j ks)"

definition list_jobs :: "bool \<Rightarrow> bool \<Rightarrow> lifecycle list option \<Rightarrow> cron_job list \<Rightarrow> cron_job list" where
  "list_jobs include_disabled include_archived lifecycles jobs = foldr insert_job
     (filter (\<lambda>j. case lifecycles of Some ls \<Rightarrow> cj_lifecycle j \<in> set ls
        | None \<Rightarrow> if include_disabled then include_archived \<or> cj_lifecycle j \<noteq> Archived
            else cj_lifecycle j = Scheduled \<and> cj_enabled j) jobs) []"

end
