(* ===== verification/Cron_Disk.thy ===== *)
theory Cron_Disk
  imports Cron_Types "HOL-Library.Monad_Syntax"
begin

text \<open>
  The file of scheduled jobs: \<open>CronService._save_store\<close> and \<open>_load_store\<close> as an encoder to JSON
  values and a decoder from them, with the inference of a missing lifecycle. A required key that is
  missing raises; a field that holds a value of another type than the declared one is outside the model
  and read as unloadable too.
\<close>

section \<open>Reading fields\<close>

definition jint_opt :: "int option \<Rightarrow> json" where
  "jint_opt v = (case v of None \<Rightarrow> JNull | Some i \<Rightarrow> JInt i)"

definition field :: "string \<Rightarrow> (string \<times> json) list \<Rightarrow> json option" where
  "field k o1 = map_of o1 k"

fun as_str :: "json \<Rightarrow> string option" where "as_str (JStr s) = Some s" | "as_str _ = None"
fun as_int :: "json \<Rightarrow> int option" where "as_int (JInt i) = Some i" | "as_int _ = None"
fun as_bool :: "json \<Rightarrow> bool option" where "as_bool (JBool b) = Some b" | "as_bool _ = None"
fun as_obj :: "json \<Rightarrow> (string \<times> json) list option" where "as_obj (JObj o1) = Some o1" | "as_obj _ = None"
fun as_arr :: "json \<Rightarrow> json list option" where "as_arr (JArr xs) = Some xs" | "as_arr _ = None"

text \<open>\<open>o[k]\<close>\<close>

definition need :: "(json \<Rightarrow> 'a option) \<Rightarrow> string \<Rightarrow> (string \<times> json) list \<Rightarrow> 'a option" where
  "need rd k o1 = Option.bind (field k o1) rd"

text \<open>\<open>o.get(k)\<close>: an absent key and \<open>null\<close> give Python's \<open>None\<close>.\<close>

definition get_opt :: "(json \<Rightarrow> 'a option) \<Rightarrow> string \<Rightarrow> (string \<times> json) list \<Rightarrow> 'a option option" where
  "get_opt rd k o1 = (case field k o1 of None \<Rightarrow> Some None
     | Some v \<Rightarrow> if v = JNull then Some None else map_option Some (rd v))"

text \<open>\<open>o.get(k, default)\<close>\<close>

definition get_or :: "(json \<Rightarrow> 'a option) \<Rightarrow> 'a \<Rightarrow> string \<Rightarrow> (string \<times> json) list \<Rightarrow> 'a option" where
  "get_or rd d k o1 = (case field k o1 of None \<Rightarrow> Some d | Some v \<Rightarrow> rd v)"

fun read_all :: "(json \<Rightarrow> 'a option) \<Rightarrow> json list \<Rightarrow> 'a list option" where
  "read_all rd [] = Some []"
| "read_all rd (v # vs) = Option.bind (rd v) (\<lambda>x. map_option ((#) x) (read_all rd vs))"

text \<open>\<open>list(o.get(k) or [])\<close>\<close>

definition get_list :: "(json \<Rightarrow> 'a option) \<Rightarrow> string \<Rightarrow> (string \<times> json) list \<Rightarrow> 'a list option" where
  "get_list rd k o1 = Option.bind (get_opt as_arr k o1) (\<lambda>v. case v of None \<Rightarrow> Some [] | Some xs \<Rightarrow> read_all rd xs)"

section \<open>Encoding\<close>

definition lifecycle_text :: "lifecycle \<Rightarrow> string" where
  "lifecycle_text l = (case l of Scheduled \<Rightarrow> ''scheduled'' | Paused \<Rightarrow> ''paused'' | Completed \<Rightarrow> ''completed'' | Archived \<Rightarrow> ''archived'')"

definition lifecycle_of :: "string \<Rightarrow> lifecycle option" where
  "lifecycle_of s = (if s = ''scheduled'' then Some Scheduled else if s = ''paused'' then Some Paused
     else if s = ''completed'' then Some Completed else if s = ''archived'' then Some Archived else None)"

definition status_text :: "run_status \<Rightarrow> string" where
  "status_text s = (case s of St_ok \<Rightarrow> ''ok'' | St_error \<Rightarrow> ''error'' | St_skipped \<Rightarrow> ''skipped'')"

fun as_status :: "json \<Rightarrow> run_status option" where
  "as_status (JStr s) = (if s = ''ok'' then Some St_ok else if s = ''error'' then Some St_error
     else if s = ''skipped'' then Some St_skipped else None)"
| "as_status _ = None"

definition schedule_json :: "cron_schedule \<Rightarrow> json" where
  "schedule_json s = JObj [(''kind'', JStr (cs_kind s)), (''atMs'', jint_opt (cs_at_ms s)), (''everyMs'', jint_opt (cs_every_ms s)),
     (''expr'', jopt (cs_expr s)), (''tz'', jopt (cs_tz s))]"

definition payload_json :: "cron_payload \<Rightarrow> json" where
  "payload_json p = JObj [(''kind'', JStr (py_kind p)), (''message'', JStr (py_message p)), (''deliver'', JBool (py_deliver p)),
     (''channel'', jopt (py_channel p)), (''to'', jopt (py_to p)), (''toolName'', jopt (py_tool_name p)),
     (''toolArgs'', (case py_tool_args p of None \<Rightarrow> JNull | Some o1 \<Rightarrow> JObj o1))]"

definition state_json :: "job_state \<Rightarrow> json" where
  "state_json s = JObj [(''nextRunAtMs'', jint_opt (js_next_run_at_ms s)), (''lastRunAtMs'', jint_opt (js_last_run_at_ms s)),
     (''lastStatus'', jopt (map_option status_text (js_last_status s))), (''lastError'', jopt (js_last_error s)),
     (''lastDeliveryError'', jopt (js_last_delivery_error s)), (''lastOutputError'', jopt (js_last_output_error s)),
     (''consecutiveFailures'', JInt (js_consecutive_failures s)), (''lastAlertAtMs'', jint_opt (js_last_alert_at_ms s)),
     (''retryAttempt'', JInt (js_retry_attempt s)), (''lastRunId'', jopt (js_last_run_id s))]"

definition origin_json :: "cron_origin option \<Rightarrow> json" where
  "origin_json v = (case v of None \<Rightarrow> JNull
    | Some r \<Rightarrow> JObj [(''platform'', jopt (or_platform r)), (''chatId'', jopt (or_chat_id r)),
        (''chatName'', jopt (or_chat_name r)), (''threadId'', jopt (or_thread_id r))])"

definition job_json :: "cron_job \<Rightarrow> json" where
  "job_json j = JObj
     [(''id'', JStr (cj_id j)), (''name'', JStr (cj_name j)), (''enabled'', JBool (cj_enabled j)),
      (''schedule'', schedule_json (cj_schedule j)), (''payload'', payload_json (cj_payload j)), (''state'', state_json (cj_state j)),
      (''createdAtMs'', JInt (cj_created_at_ms j)), (''updatedAtMs'', JInt (cj_updated_at_ms j)),
      (''lifecycle'', JStr (lifecycle_text (cj_lifecycle j))), (''completedAtMs'', jint_opt (cj_completed_at_ms j)),
      (''archivedAtMs'', jint_opt (cj_archived_at_ms j)), (''source'', jopt (cj_source j)), (''sourceId'', jopt (cj_source_id j)),
      (''deleteAfterRun'', JBool (cj_delete_after_run j)), (''origin'', origin_json (cj_origin j)),
      (''repeatTimes'', jint_opt (cj_repeat_times j)), (''repeatCompleted'', JInt (cj_repeat_completed j)),
      (''script'', jopt (cj_script j)), (''skills'', JArr (map JStr (cj_skills j))), (''model'', jopt (cj_model j)),
      (''provider'', jopt (cj_provider j)), (''retryMaxAttempts'', JInt (cj_retry_max_attempts j)),
      (''retryBackoffMs'', JArr (map JInt (cj_retry_backoff_ms j))), (''failureAlertAfter'', JInt (cj_failure_alert_after j)),
      (''failureAlertCooldownMs'', JInt (cj_failure_alert_cooldown_ms j))]"

definition store_json :: "cron_job list \<Rightarrow> json" where
  "store_json jobs = JObj [(''version'', JInt 2), (''jobs'', JArr (map job_json jobs))]"

section \<open>Decoding\<close>

definition read_schedule :: "(string \<times> json) list \<Rightarrow> cron_schedule option" where
  "read_schedule o1 = do {
     kind \<leftarrow> need as_str ''kind'' o1; at_ms \<leftarrow> get_opt as_int ''atMs'' o1; every_ms \<leftarrow> get_opt as_int ''everyMs'' o1;
     expr \<leftarrow> get_opt as_str ''expr'' o1; tz \<leftarrow> get_opt as_str ''tz'' o1;
     Some \<lparr>cs_kind = kind, cs_at_ms = at_ms, cs_every_ms = every_ms, cs_expr = expr, cs_tz = tz\<rparr> }"

definition read_payload :: "(string \<times> json) list \<Rightarrow> cron_payload option" where
  "read_payload o1 = do {
     kind \<leftarrow> get_or as_str ''agent_turn'' ''kind'' o1; message \<leftarrow> get_or as_str [] ''message'' o1;
     deliver \<leftarrow> get_or as_bool False ''deliver'' o1; channel \<leftarrow> get_opt as_str ''channel'' o1; target \<leftarrow> get_opt as_str ''to'' o1;
     tool_name \<leftarrow> get_opt as_str ''toolName'' o1; tool_args \<leftarrow> get_opt as_obj ''toolArgs'' o1;
     Some \<lparr>py_kind = kind, py_message = message, py_deliver = deliver, py_channel = channel, py_to = target,
       py_tool_name = tool_name, py_tool_args = tool_args\<rparr> }"

definition read_state :: "(string \<times> json) list \<Rightarrow> job_state option" where
  "read_state o1 = do {
     next_at \<leftarrow> get_opt as_int ''nextRunAtMs'' o1; last_at \<leftarrow> get_opt as_int ''lastRunAtMs'' o1;
     status \<leftarrow> get_opt as_status ''lastStatus'' o1; last_error \<leftarrow> get_opt as_str ''lastError'' o1;
     delivery \<leftarrow> get_opt as_str ''lastDeliveryError'' o1; output \<leftarrow> get_opt as_str ''lastOutputError'' o1;
     failures \<leftarrow> get_or as_int 0 ''consecutiveFailures'' o1; alert \<leftarrow> get_opt as_int ''lastAlertAtMs'' o1;
     retry \<leftarrow> get_or as_int 0 ''retryAttempt'' o1; run_id \<leftarrow> get_opt as_str ''lastRunId'' o1;
     Some \<lparr>js_next_run_at_ms = next_at, js_last_run_at_ms = last_at, js_last_status = status, js_last_error = last_error,
       js_last_delivery_error = delivery, js_last_output_error = output, js_consecutive_failures = failures,
       js_last_alert_at_ms = alert, js_retry_attempt = retry, js_last_run_id = run_id\<rparr> }"

text \<open>\<open>a or b\<close> on optional texts\<close>

definition or_else :: "string option \<Rightarrow> string option \<Rightarrow> string option" where
  "or_else a b = (if truthy a then a else b)"

definition read_origin :: "(string \<times> json) list \<Rightarrow> cron_origin option" where
  "read_origin o1 = do {
     platform \<leftarrow> get_opt as_str ''platform'' o1;
     chat \<leftarrow> get_opt as_str ''chatId'' o1; chat' \<leftarrow> get_opt as_str ''chat_id'' o1;
     name \<leftarrow> get_opt as_str ''chatName'' o1; name' \<leftarrow> get_opt as_str ''chat_name'' o1;
     thread \<leftarrow> get_opt as_str ''threadId'' o1; thread' \<leftarrow> get_opt as_str ''thread_id'' o1;
     Some \<lparr>or_platform = platform, or_chat_id = or_else chat chat', or_chat_name = or_else name name',
       or_thread_id = or_else thread thread'\<rparr> }"

text \<open>\<open>_legacy_lifecycle\<close>, on the fields it looks at.\<close>

definition legacy_lifecycle :: "string option \<Rightarrow> int option \<Rightarrow> int \<Rightarrow> string \<Rightarrow> int option \<Rightarrow> bool \<Rightarrow> lifecycle" where
  "legacy_lifecycle explicit repeat_times repeat_completed kind last_run enabled =
     (case Option.bind explicit lifecycle_of of
        Some l \<Rightarrow> l
      | None \<Rightarrow>
          if repeat_times \<noteq> None \<and> the repeat_times \<le> repeat_completed then Completed
          else if kind = ''at'' \<and> last_run \<noteq> None then Completed
          else if \<not> enabled then Paused else Scheduled)"

text \<open>The due time of a one-shot of an older file that has not run is its original time.\<close>

definition restored_due :: "lifecycle \<Rightarrow> cron_schedule \<Rightarrow> job_state \<Rightarrow> int option" where
  "restored_due l s st = (if l = Scheduled \<and> cs_kind s = ''at'' \<and> js_last_run_at_ms st = None \<and> js_next_run_at_ms st = None
     then cs_at_ms s else js_next_run_at_ms st)"

definition read_job :: "json \<Rightarrow> cron_job option" where
  "read_job v = do {
     o1 \<leftarrow> as_obj v;
     explicit \<leftarrow> get_opt as_str ''lifecycle'' o1; enabled \<leftarrow> get_or as_bool True ''enabled'' o1;
     origin_raw \<leftarrow> get_opt as_obj ''origin'' o1;
     origin \<leftarrow> (case origin_raw of None \<Rightarrow> Some None | Some r \<Rightarrow> map_option Some (read_origin r));
     state_raw \<leftarrow> get_or as_obj [] ''state'' o1; st \<leftarrow> read_state state_raw;
     schedule_raw \<leftarrow> need as_obj ''schedule'' o1; s \<leftarrow> read_schedule schedule_raw;
     i \<leftarrow> need as_str ''id'' o1; name \<leftarrow> need as_str ''name'' o1;
     payload_raw \<leftarrow> need as_obj ''payload'' o1; p \<leftarrow> read_payload payload_raw;
     created \<leftarrow> get_or as_int 0 ''createdAtMs'' o1; changed \<leftarrow> get_or as_int 0 ''updatedAtMs'' o1;
     completed \<leftarrow> get_opt as_int ''completedAtMs'' o1; archived \<leftarrow> get_opt as_int ''archivedAtMs'' o1;
     source \<leftarrow> get_opt as_str ''source'' o1; source_id \<leftarrow> get_opt as_str ''sourceId'' o1;
     delete_after \<leftarrow> get_or as_bool False ''deleteAfterRun'' o1;
     times \<leftarrow> get_opt as_int ''repeatTimes'' o1; done \<leftarrow> get_or as_int 0 ''repeatCompleted'' o1;
     script \<leftarrow> get_opt as_str ''script'' o1; skills \<leftarrow> get_list as_str ''skills'' o1;
     model \<leftarrow> get_opt as_str ''model'' o1; provider \<leftarrow> get_opt as_str ''provider'' o1;
     retry_max \<leftarrow> get_or as_int 0 ''retryMaxAttempts'' o1; backoff \<leftarrow> get_list as_int ''retryBackoffMs'' o1;
     alert_after \<leftarrow> get_or as_int 3 ''failureAlertAfter'' o1;
     cooldown \<leftarrow> get_or as_int (24 * 60 * 60 * 1000) ''failureAlertCooldownMs'' o1;
     let l = legacy_lifecycle explicit times done (cs_kind s) (js_last_run_at_ms st) enabled;
     Some \<lparr>cj_id = i, cj_name = name, cj_enabled = (l = Scheduled), cj_schedule = s, cj_payload = p,
       cj_state = st\<lparr>js_next_run_at_ms := restored_due l s st\<rparr>, cj_created_at_ms = created, cj_updated_at_ms = changed,
       cj_lifecycle = l, cj_completed_at_ms = completed, cj_archived_at_ms = archived, cj_source = source,
       cj_source_id = source_id, cj_delete_after_run = delete_after, cj_origin = origin, cj_repeat_times = times,
       cj_repeat_completed = done, cj_script = script, cj_skills = skills, cj_model = model, cj_provider = provider,
       cj_retry_max_attempts = retry_max, cj_retry_backoff_ms = backoff, cj_failure_alert_after = alert_after,
       cj_failure_alert_cooldown_ms = cooldown\<rparr> }"

definition read_store :: "json \<Rightarrow> cron_job list option" where
  "read_store v = do { o1 \<leftarrow> as_obj v; xs \<leftarrow> get_or as_arr [] ''jobs'' o1; read_all read_job xs }"

section \<open>The round trip\<close>

lemma get_opt_hit [simp]:
  "field k o1 = Some JNull \<Longrightarrow> get_opt rd k o1 = Some None"
  "field k o1 = Some v \<Longrightarrow> v \<noteq> JNull \<Longrightarrow> get_opt rd k o1 = map_option Some (rd v)"
  "field k o1 = None \<Longrightarrow> get_opt rd k o1 = Some None"
  by (simp_all add: get_opt_def)

lemma get_opt_str: "field k o1 = Some (jopt v) \<Longrightarrow> get_opt as_str k o1 = Some v"
  by (cases v) simp_all

lemma get_opt_int: "field k o1 = Some (jint_opt n) \<Longrightarrow> get_opt as_int k o1 = Some n"
  by (cases n) (simp_all add: jint_opt_def)

lemma get_opt_status: "field k o1 = Some (jopt (map_option status_text st)) \<Longrightarrow> get_opt as_status k o1 = Some st"
  by (cases st) (auto simp: status_text_def split: run_status.split)

lemma get_or_hit: "field k o1 = Some v \<Longrightarrow> get_or rd d k o1 = rd v"
  by (simp add: get_or_def)

lemma need_hit: "field k o1 = Some v \<Longrightarrow> need rd k o1 = rd v"
  by (simp add: need_def)

lemma read_all_written: "(\<And>x. x \<in> set xs \<Longrightarrow> rd (f x) = Some x) \<Longrightarrow> read_all rd (map f xs) = Some xs"
  by (induction xs) auto

lemma get_list_written:
  "field k o1 = Some (JArr (map f xs)) \<Longrightarrow> (\<And>x. rd (f x) = Some x) \<Longrightarrow> get_list rd k o1 = Some xs"
  by (simp add: get_list_def read_all_written)

lemmas read_rules = get_opt_str get_opt_int get_opt_status get_or_hit need_hit get_list_written

lemma lifecycle_of_text [simp]: "lifecycle_of (lifecycle_text l) = Some l"
  by (cases l) (simp_all add: lifecycle_of_def lifecycle_text_def)

lemma read_schedule_json: "schedule_json s = JObj o1 \<Longrightarrow> read_schedule o1 = Some s"
  by (cases s) (auto simp: schedule_json_def read_schedule_def field_def read_rules)

lemma read_payload_json: "payload_json p = JObj o1 \<Longrightarrow> read_payload o1 = Some p"
  by (cases p) (auto simp: payload_json_def read_payload_def field_def read_rules split: option.splits)

lemma read_state_json: "state_json s = JObj o1 \<Longrightarrow> read_state o1 = Some s"
  by (cases s) (auto simp: state_json_def read_state_def field_def read_rules)

text \<open>What the file gives back of a job: the switch follows the lifecycle, empty texts of the origin are
  gone, and a one-shot that has not run has a due time again.\<close>

definition stored_origin :: "cron_origin \<Rightarrow> cron_origin" where
  "stored_origin r = \<lparr>or_platform = or_platform r, or_chat_id = or_else (or_chat_id r) None,
     or_chat_name = or_else (or_chat_name r) None, or_thread_id = or_else (or_thread_id r) None\<rparr>"

definition stored_form :: "cron_job \<Rightarrow> cron_job" where
  "stored_form j = j\<lparr>cj_enabled := (cj_lifecycle j = Scheduled), cj_origin := map_option stored_origin (cj_origin j),
     cj_state := (cj_state j)\<lparr>js_next_run_at_ms := restored_due (cj_lifecycle j) (cj_schedule j) (cj_state j)\<rparr>\<rparr>"

lemma read_origin_json: "origin_json (Some r) = JObj o1 \<Longrightarrow> read_origin o1 = Some (stored_origin r)"
  by (cases r) (auto simp: origin_json_def read_origin_def field_def read_rules stored_origin_def)

lemma json_objects:
  "\<exists>o1. schedule_json s = JObj o1" "\<exists>o1. payload_json p = JObj o1" "\<exists>o1. state_json st = JObj o1"
  "\<exists>o1. origin_json (Some r) = JObj o1"
  by (simp_all add: schedule_json_def payload_json_def state_json_def origin_json_def)

lemma get_opt_origin:
  assumes "field k o1 = Some (origin_json v)"
  shows "\<exists>raw. get_opt as_obj k o1 = Some raw \<and>
    (case raw of None \<Rightarrow> Some None | Some r \<Rightarrow> map_option Some (read_origin r)) = Some (map_option stored_origin v)"
proof (cases v)
  case None then show ?thesis using assms by (simp add: origin_json_def)
next
  case (Some r)
  obtain o2 where o2: "origin_json v = JObj o2" using Some json_objects(4) by blast
  then have "read_origin o2 = Some (stored_origin r)" using Some by (intro read_origin_json) auto
  then show ?thesis using assms o2 Some by simp
qed

lemma legacy_lifecycle_written [simp]: "legacy_lifecycle (Some (lifecycle_text l)) a b c d e = l"
  by (simp add: legacy_lifecycle_def)

lemma read_job_json: "read_job (job_json j) = Some (stored_form j)"
proof -
  obtain os op ot where obj: "schedule_json (cj_schedule j) = JObj os" "payload_json (cj_payload j) = JObj op"
      "state_json (cj_state j) = JObj ot" using json_objects by blast
  note rd = read_schedule_json [OF obj(1)] read_payload_json [OF obj(2)] read_state_json [OF obj(3)]
  define o1 where "o1 = (case job_json j of JObj o1 \<Rightarrow> o1 | _ \<Rightarrow> [])"
  have o1: "job_json j = JObj o1" by (simp add: o1_def job_json_def)
  have f: "field ''id'' o1 = Some (JStr (cj_id j))" "field ''name'' o1 = Some (JStr (cj_name j))"
    "field ''enabled'' o1 = Some (JBool (cj_enabled j))" "field ''schedule'' o1 = Some (JObj os)"
    "field ''payload'' o1 = Some (JObj op)" "field ''state'' o1 = Some (JObj ot)"
    "field ''createdAtMs'' o1 = Some (JInt (cj_created_at_ms j))" "field ''updatedAtMs'' o1 = Some (JInt (cj_updated_at_ms j))"
    "field ''lifecycle'' o1 = Some (jopt (Some (lifecycle_text (cj_lifecycle j))))"
    "field ''completedAtMs'' o1 = Some (jint_opt (cj_completed_at_ms j))"
    "field ''archivedAtMs'' o1 = Some (jint_opt (cj_archived_at_ms j))"
    "field ''source'' o1 = Some (jopt (cj_source j))" "field ''sourceId'' o1 = Some (jopt (cj_source_id j))"
    "field ''deleteAfterRun'' o1 = Some (JBool (cj_delete_after_run j))" "field ''origin'' o1 = Some (origin_json (cj_origin j))"
    "field ''repeatTimes'' o1 = Some (jint_opt (cj_repeat_times j))" "field ''repeatCompleted'' o1 = Some (JInt (cj_repeat_completed j))"
    "field ''script'' o1 = Some (jopt (cj_script j))" "field ''skills'' o1 = Some (JArr (map JStr (cj_skills j)))"
    "field ''model'' o1 = Some (jopt (cj_model j))" "field ''provider'' o1 = Some (jopt (cj_provider j))"
    "field ''retryMaxAttempts'' o1 = Some (JInt (cj_retry_max_attempts j))"
    "field ''retryBackoffMs'' o1 = Some (JArr (map JInt (cj_retry_backoff_ms j)))"
    "field ''failureAlertAfter'' o1 = Some (JInt (cj_failure_alert_after j))"
    "field ''failureAlertCooldownMs'' o1 = Some (JInt (cj_failure_alert_cooldown_ms j))"
    by (simp_all add: o1_def job_json_def field_def obj)
  obtain raw where raw: "get_opt as_obj ''origin'' o1 = Some raw"
      "(case raw of None \<Rightarrow> Some None | Some r \<Rightarrow> map_option Some (read_origin r)) = Some (map_option stored_origin (cj_origin j))"
    using get_opt_origin [OF f(15)] by blast
  show ?thesis unfolding read_job_def o1
    by (simp add: f(1-14,16-25) [THEN get_or_hit] f(1,2,4,5) [THEN need_hit] f(9,12,13,18,20,21) [THEN get_opt_str]
      f(10,11,16) [THEN get_opt_int] f(19) [THEN get_list_written] f(23) [THEN get_list_written] raw rd Let_def stored_form_def)
qed

lemma read_all_map: "(\<And>x. rd (f x) = Some (g x)) \<Longrightarrow> read_all rd (map f xs) = Some (map g xs)"
  by (induction xs) auto

lemma read_store_json: "read_store (store_json jobs) = Some (map stored_form jobs)"
  by (simp add: read_store_def store_json_def get_or_def field_def read_all_map read_job_json)

text \<open>A job that the file gives back as it was.\<close>

definition storable :: "cron_job \<Rightarrow> bool" where
  "storable j = (cj_enabled j = (cj_lifecycle j = Scheduled) \<and>
     (case cj_origin j of None \<Rightarrow> True | Some r \<Rightarrow> or_chat_id r \<noteq> Some [] \<and> or_chat_name r \<noteq> Some [] \<and> or_thread_id r \<noteq> Some []) \<and>
     restored_due (cj_lifecycle j) (cj_schedule j) (cj_state j) = next_run j)"

lemma or_else_None: "or_else v None = v \<longleftrightarrow> v \<noteq> Some []"
  by (cases v) (auto simp: or_else_def)

lemma stored_origin_same:
  "stored_origin r = r \<longleftrightarrow> or_chat_id r \<noteq> Some [] \<and> or_chat_name r \<noteq> Some [] \<and> or_thread_id r \<noteq> Some []"
  by (cases r) (auto simp: stored_origin_def or_else_None)

lemma stored_form_same:
  assumes "storable j" shows "stored_form j = j"
proof -
  have "map_option stored_origin (cj_origin j) = cj_origin j"
    using assms by (auto simp: storable_def stored_origin_same split: option.splits)
  then show ?thesis using assms by (cases j, cases "cj_state j") (simp add: storable_def stored_form_def)
qed

end
