(* ===== verification/Cron_Service.thy ===== *)
theory Cron_Service
  imports Cron_Store Cron_Disk
begin

text \<open>
  Runs of scheduled jobs: the part of \<open>CronService\<close> (\<open>src/flowly/cron/service.py\<close>) that fires due jobs,
  records how a run ended, retries, alerts, recovers after a crash and shuts down. A run is split at its
  awaits: \<open>start_run\<close> is what happens before the callback; after it, a run whose failure calls for an alert stops again in
  \<open>send_alert\<close> while the alert is delivered and ends by \<open>close_run\<close>, any other run ends by \<open>finish_run\<close>, and either may
  be cut off by \<open>cancel_run\<close>. Any other operation may come between, and the process may die. Times and run ids are inputs; a save of the file succeeds; the
  transcripts are reduced to their metadata records.
\<close>

datatype outcome = Answered "string option" | Raised_error string | Idle

text \<open>\<open>rr_alerted\<close> is what a run keeps while its alert is delivered: when the callback ended, and how.\<close>

record run_rec =
  rr_run_id :: string
  rr_started_at_ms :: int
  rr_manual :: bool
  rr_base_repeat :: int
  rr_base_failures :: int
  rr_base_retry :: int
  rr_alerted :: "(int \<times> outcome) option"

record run_meta =
  rm_run_id :: string
  rm_job_id :: string
  rm_job_name :: string
  rm_started_at_ms :: int
  rm_completed_at_ms :: int
  rm_status :: "run_status option"
  rm_error :: "string option"
  rm_delivery_error :: "string option"
  rm_lifecycle :: lifecycle
  rm_next_run_at_ms :: "int option"
  rm_retry_attempt :: int
  rm_repeat_completed :: int

text \<open>What is sent to clients when a run is settled, and the alerts to the owner.\<close>

record completion =
  cp_job_id :: string
  cp_run_id :: string
  cp_status :: "run_status option"
  cp_error :: "string option"
  cp_duration_ms :: int
  cp_lifecycle :: lifecycle
  cp_silent :: bool
  cp_cancelled :: bool

text \<open>\<open>cr_owned\<close> are the jobs whose run has been started by a task, \<open>cr_pass\<close> the rest of the current pass
  over the due jobs and \<open>cr_waiting\<close> the run that pass waits for. The rest is history: the alerts that the jobs file knows of,
  those sent since it was last written, those a new process knows nothing of, and how many processes were started.\<close>

record cron =
  cr_jobs :: "cron_job list"
  cr_file :: "json option"
  cr_archive :: "run_meta list"
  cr_active :: "(string \<times> run_rec) list"
  cr_owned :: "string list"
  cr_running :: bool
  cr_stopping :: bool
  cr_pass :: "string list option"
  cr_waiting :: "string option"
  cr_published :: "completion list"
  cr_alerts :: "(string \<times> int \<times> string) list"
  cr_unsaved :: "(string \<times> int \<times> string) list"
  cr_lost :: "(string \<times> int \<times> string) list"
  cr_restarts :: nat

definition save_store :: "cron \<Rightarrow> cron" where
  "save_store s = s\<lparr>cr_file := Some (store_json (cr_jobs s)), cr_alerts := cr_alerts s @ cr_unsaved s, cr_unsaved := []\<rparr>"

definition set_jobs :: "cron_job list \<Rightarrow> cron \<Rightarrow> cron" where
  "set_jobs jobs s = s\<lparr>cr_jobs := jobs\<rparr>"

definition find_job :: "string \<Rightarrow> cron \<Rightarrow> cron_job option" where
  "find_job i s = find (\<lambda>j. cj_id j = i) (cr_jobs s)"

text \<open>A run works on the job object it was started with.\<close>

definition change_job :: "string \<Rightarrow> (cron_job \<Rightarrow> cron_job) \<Rightarrow> cron \<Rightarrow> cron" where
  "change_job i f s = s\<lparr>cr_jobs := map (\<lambda>j. if cj_id j = i then f j else j) (cr_jobs s)\<rparr>"

definition current_run :: "string \<Rightarrow> cron \<Rightarrow> run_rec option" where
  "current_run i s = map_of (cr_active s) i"

definition retire_run :: "string \<Rightarrow> cron \<Rightarrow> cron" where
  "retire_run i s = s\<lparr>cr_active := filter (\<lambda>kv. fst kv \<noteq> i) (cr_active s), cr_owned := filter (\<lambda>k. k \<noteq> i) (cr_owned s),
     cr_waiting := (if cr_waiting s = Some i then None else cr_waiting s)\<rparr>"

section \<open>How a run ends\<close>

definition SILENT_MARKER :: string where "SILENT_MARKER = ''[SILENT]''"

definition is_silent_response :: "string option \<Rightarrow> bool" where
  "is_silent_response r = (case r of None \<Rightarrow> False | Some t \<Rightarrow> contains SILENT_MARKER (map char_upper (strip t)))"

definition JOB_TIMEOUT_S :: nat where "JOB_TIMEOUT_S = 600"

definition ERROR_PREFIX :: string where "ERROR_PREFIX = ''__error__:''"

definition run_error :: "outcome \<Rightarrow> string option" where
  "run_error out = (case out of
      Answered (Some r) \<Rightarrow> if is_prefix ERROR_PREFIX r then Some (take 500 (drop (length ERROR_PREFIX) r)) else None
    | Answered None \<Rightarrow> None
    | Raised_error e \<Rightarrow> Some (take 500 e)
    | Idle \<Rightarrow> Some (''Inactivity timeout after '' @ show_nat JOB_TIMEOUT_S @ ''s''))"

definition outcome_response :: "outcome \<Rightarrow> string option" where
  "outcome_response out = (case out of Answered r \<Rightarrow> r | _ \<Rightarrow> None)"

definition default_backoffs :: "int list" where "default_backoffs = [30000, 60000, 300000]"

definition retry_delay :: "cron_job \<Rightarrow> int" where
  "retry_delay j = (let bs = (if cj_retry_backoff_ms j = [] then default_backoffs else cj_retry_backoff_ms j)
     in bs ! min (nat (js_retry_attempt (cj_state j))) (length bs - 1))"

definition will_retry :: "bool \<Rightarrow> string option \<Rightarrow> cron_job \<Rightarrow> bool" where
  "will_retry manual err j = (\<not> manual \<and> truthy err \<and> 0 < cj_retry_max_attempts j \<and>
     js_retry_attempt (cj_state j) < cj_retry_max_attempts j)"

text \<open>\<open>_maybe_send_failure_alert\<close>: whether an alert is sent now.\<close>

definition alert_due :: "int \<Rightarrow> cron_job \<Rightarrow> bool" where
  "alert_due now j = (0 < cj_failure_alert_after j \<and> cj_failure_alert_after j \<le> js_consecutive_failures (cj_state j) \<and>
     cj_failure_alert_cooldown_ms j \<le> now - (case js_last_alert_at_ms (cj_state j) of None \<Rightarrow> 0 | Some t \<Rightarrow> t))"

definition alert_text :: "cron_job \<Rightarrow> string \<Rightarrow> string" where
  "alert_text j err = [warn_sign] @ '' Scheduled task '' @ [CHR 0x27] @ cj_name j @ [CHR 0x27] @ '' has failed '' @
     show_int (js_consecutive_failures (cj_state j)) @ '' times in a row. Last error: '' @ take 300 err"

text \<open>The slot of the schedule a settled run uses up; a one-shot and a job at its limit are completed.\<close>

definition use_slot :: "int \<Rightarrow> cron_job \<Rightarrow> cron_job" where
  "use_slot now j = (let k = j\<lparr>cj_repeat_completed := cj_repeat_completed j + 1\<rparr> in
     if (cj_repeat_times k \<noteq> None \<and> the (cj_repeat_times k) \<le> cj_repeat_completed k) \<or> cs_kind (cj_schedule k) = ''at''
     then (set_next None k)\<lparr>cj_lifecycle := Completed, cj_enabled := False, cj_completed_at_ms := Some now\<rparr>
     else k)"

definition note_result :: "int \<Rightarrow> run_rec \<Rightarrow> string option \<Rightarrow> cron_job \<Rightarrow> cron_job" where
  "note_result now run err j = (set_state (\<lambda>s. s\<lparr>js_last_status := Some (if err = None then St_ok else St_error), js_last_error := err,
     js_last_run_at_ms := Some (rr_started_at_ms run), js_last_run_id := Some (rr_run_id run)\<rparr>) j)\<lparr>cj_updated_at_ms := now\<rparr>"

text \<open>The counters: a retry is planned, or the failures are reset or counted, with an alert.\<close>

definition count_result :: "int \<Rightarrow> int \<Rightarrow> bool \<Rightarrow> string option \<Rightarrow> cron_job \<Rightarrow> cron_job" where
  "count_result now_retry now_alert manual err j =
     (if will_retry manual err j then
        set_state (\<lambda>s. s\<lparr>js_retry_attempt := js_retry_attempt s + 1, js_next_run_at_ms := Some (now_retry + retry_delay j)\<rparr>) j
      else if \<not> truthy err then set_state (\<lambda>s. s\<lparr>js_retry_attempt := 0, js_consecutive_failures := 0\<rparr>) j
      else (let k = set_state (\<lambda>s. s\<lparr>js_retry_attempt := 0, js_consecutive_failures := js_consecutive_failures s + 1\<rparr>) j in
        if alert_due now_alert k then set_state (\<lambda>s. s\<lparr>js_last_alert_at_ms := Some now_alert\<rparr>) k else k))"

definition settle_job :: "int \<Rightarrow> int \<Rightarrow> int \<Rightarrow> run_rec \<Rightarrow> string option \<Rightarrow> cron_job \<Rightarrow> cron_job" where
  "settle_job now_done now_retry now_alert run err j0 = (let j = note_result now_done run err j0;
      k = count_result now_retry now_alert (rr_manual run) err j
    in if rr_manual run \<or> will_retry (rr_manual run) err j then k else use_slot now_done k)"

text \<open>Whether the settlement sends an alert.\<close>

definition settle_alerts :: "int \<Rightarrow> run_rec \<Rightarrow> string option \<Rightarrow> cron_job \<Rightarrow> bool" where
  "settle_alerts now_alert run err j = (truthy err \<and> \<not> will_retry (rr_manual run) err j \<and>
     alert_due now_alert (set_state (\<lambda>s. s\<lparr>js_consecutive_failures := js_consecutive_failures s + 1\<rparr>) j))"

definition meta_of :: "int \<Rightarrow> run_rec \<Rightarrow> cron_job \<Rightarrow> run_meta" where
  "meta_of now run j = \<lparr>rm_run_id = rr_run_id run, rm_job_id = cj_id j, rm_job_name = cj_name j,
     rm_started_at_ms = rr_started_at_ms run, rm_completed_at_ms = now, rm_status = js_last_status (cj_state j),
     rm_error = js_last_error (cj_state j), rm_delivery_error = js_last_delivery_error (cj_state j),
     rm_lifecycle = cj_lifecycle j, rm_next_run_at_ms = next_run j, rm_retry_attempt = js_retry_attempt (cj_state j),
     rm_repeat_completed = cj_repeat_completed j\<rparr>"

definition completion_of :: "int \<Rightarrow> run_rec \<Rightarrow> bool \<Rightarrow> bool \<Rightarrow> cron_job \<Rightarrow> completion" where
  "completion_of now run silent cancelled j = \<lparr>cp_job_id = cj_id j, cp_run_id = rr_run_id run, cp_status = js_last_status (cj_state j),
     cp_error = js_last_error (cj_state j), cp_duration_ms = now - rr_started_at_ms run, cp_lifecycle = cj_lifecycle j,
     cp_silent = silent, cp_cancelled = cancelled\<rparr>"

text \<open>Writing the transcript: \<open>archive_err\<close> is the text of the exception when that fails.\<close>

definition archive_run :: "int \<Rightarrow> run_rec \<Rightarrow> string option \<Rightarrow> string \<Rightarrow> cron \<Rightarrow> cron" where
  "archive_run now run archive_err i s = (case find_job i s of
      None \<Rightarrow> s
    | Some j \<Rightarrow> (case archive_err of
        None \<Rightarrow> change_job i (set_state (\<lambda>st. st\<lparr>js_last_output_error := None\<rparr>)) (s\<lparr>cr_archive := cr_archive s @ [meta_of now run j]\<rparr>)
      | Some e \<Rightarrow> change_job i (set_state (\<lambda>st. st\<lparr>js_last_output_error := Some (take 500 e)\<rparr>)) s))"

definition publish :: "completion \<Rightarrow> cron \<Rightarrow> cron" where
  "publish c s = s\<lparr>cr_published := cr_published s @ [c]\<rparr>"

definition alert_of :: "int \<Rightarrow> string option \<Rightarrow> cron_job \<Rightarrow> string \<times> int \<times> string" where
  "alert_of now err j = (cj_id j, now,
     alert_text (set_state (\<lambda>st. st\<lparr>js_consecutive_failures := js_consecutive_failures st + 1\<rparr>) j) (the err))"

text \<open>\<open>_run_job_body\<close> after the callback, up to the save of the file.\<close>

definition settle_run :: "int \<Rightarrow> int \<Rightarrow> int \<Rightarrow> run_rec \<Rightarrow> outcome \<Rightarrow> string option \<Rightarrow> string \<Rightarrow> cron \<Rightarrow> cron" where
  "settle_run now_done now_retry now_alert run out archive_err i s = (let err = run_error out;
      alerts = (case find_job i s of None \<Rightarrow> [] | Some j \<Rightarrow> if settle_alerts now_alert run err j then [alert_of now_alert err j] else [])
    in archive_run now_done run archive_err i
      ((change_job i (settle_job now_done now_retry now_alert run err) s)\<lparr>cr_unsaved := cr_unsaved s @ alerts\<rparr>))"

text \<open>The end of \<open>_run_job_body\<close> and of \<open>_execute_job\<close>: the file is written, the run is no longer active and clients are told.\<close>

definition end_run :: "bool \<Rightarrow> int \<Rightarrow> run_rec \<Rightarrow> outcome \<Rightarrow> string \<Rightarrow> cron \<Rightarrow> cron" where
  "end_run tell now run out i s = (let s1 = save_store s; s2 = retire_run i s1 in
     if \<not> tell then s2
     else (case find_job i s1 of None \<Rightarrow> s2
       | Some k \<Rightarrow> publish (completion_of now run (is_silent_response (outcome_response out)) False k) s2))"

definition finish_run :: "int \<Rightarrow> int \<Rightarrow> int \<Rightarrow> outcome \<Rightarrow> string option \<Rightarrow> string \<Rightarrow> cron \<Rightarrow> cron" where
  "finish_run now_done now_retry now_alert out archive_err i s = (case (current_run i s, find_job i s) of
      (Some run, Some j) \<Rightarrow> if rr_alerted run \<noteq> None then s
        else end_run (\<not> will_retry (rr_manual run) (run_error out) j \<and> archive_err = None) now_done run out i
          (settle_run now_done now_retry now_alert run out archive_err i s)
    | _ \<Rightarrow> s)"

text \<open>\<open>_maybe_send_failure_alert\<close> hands its message to the callback and awaits it: until then the result is in memory only, and the
  slot is not used up yet. \<open>close_run\<close> is what \<open>_run_job_body\<close> does afterwards.\<close>

definition send_alert :: "int \<Rightarrow> int \<Rightarrow> outcome \<Rightarrow> string \<Rightarrow> cron \<Rightarrow> cron" where
  "send_alert now_done now_alert out i s = (case (current_run i s, find_job i s) of
      (Some run, Some j) \<Rightarrow> (let err = run_error out in
        if rr_alerted run \<noteq> None \<or> \<not> settle_alerts now_alert run err j then s
        else (change_job i (\<lambda>k. count_result now_alert now_alert (rr_manual run) err (note_result now_done run err k)) s)
          \<lparr>cr_active := map (\<lambda>kv. if fst kv = i then (i, run\<lparr>rr_alerted := Some (now_done, out)\<rparr>) else kv) (cr_active s),
           cr_unsaved := cr_unsaved s @ [alert_of now_alert err j]\<rparr>)
    | _ \<Rightarrow> s)"

definition close_run :: "string option \<Rightarrow> string \<Rightarrow> cron \<Rightarrow> cron" where
  "close_run archive_err i s = (case current_run i s of
      None \<Rightarrow> s
    | Some run \<Rightarrow> (case rr_alerted run of
        None \<Rightarrow> s
      | Some (now_done, out) \<Rightarrow> end_run (archive_err = None) now_done run out i
          (archive_run now_done run archive_err i (if rr_manual run then s else change_job i (use_slot now_done) s))))"

section \<open>A run that is cut off\<close>

definition cancel_text :: "bool \<Rightarrow> string" where
  "cancel_text stopping = (if stopping then ''Cancelled during scheduler shutdown'' else ''Cancelled before completion'')"

definition cancel_job :: "int \<Rightarrow> bool \<Rightarrow> run_rec \<Rightarrow> cron_job \<Rightarrow> cron_job" where
  "cancel_job now stopping run j = (let
      k = (set_state (\<lambda>s. s\<lparr>js_last_status := Some St_error, js_last_error := Some (cancel_text stopping), js_last_delivery_error := None,
          js_last_run_at_ms := Some (rr_started_at_ms run), js_last_run_id := Some (rr_run_id run),
          js_consecutive_failures := rr_base_failures run + 1,
          js_retry_attempt := (if rr_manual run then rr_base_retry run else 0)\<rparr>) j)\<lparr>cj_updated_at_ms := now\<rparr>
    in if rr_manual run then k else use_slot now (k\<lparr>cj_repeat_completed := rr_base_repeat run\<rparr>))"

definition persist_cancelled_run :: "int \<Rightarrow> run_rec \<Rightarrow> string option \<Rightarrow> string \<Rightarrow> cron \<Rightarrow> cron" where
  "persist_cancelled_run now run archive_err i s =
     save_store (archive_run now run archive_err i (change_job i (cancel_job now (cr_stopping s) run) s))"

definition cancel_run :: "int \<Rightarrow> string option \<Rightarrow> string \<Rightarrow> cron \<Rightarrow> cron" where
  "cancel_run now archive_err i s = (case current_run i s of
      None \<Rightarrow> s
    | Some run \<Rightarrow> (let s1 = persist_cancelled_run now run archive_err i s; s2 = retire_run i s1 in
        if archive_err \<noteq> None then s2
        else (case find_job i s1 of None \<Rightarrow> s2 | Some k \<Rightarrow> publish (completion_of now run False True k) s2)))"

section \<open>Starting a run\<close>

definition run_record :: "int \<Rightarrow> string \<Rightarrow> bool \<Rightarrow> cron_job \<Rightarrow> run_rec" where
  "run_record now run_id manual j = \<lparr>rr_run_id = run_id, rr_started_at_ms = now, rr_manual = manual,
     rr_base_repeat = cj_repeat_completed j, rr_base_failures = js_consecutive_failures (cj_state j),
     rr_base_retry = js_retry_attempt (cj_state j), rr_alerted = None\<rparr>"

definition reserve_run :: "int \<Rightarrow> string \<Rightarrow> bool \<Rightarrow> cron_job \<Rightarrow> cron \<Rightarrow> (run_rec \<times> cron) option" where
  "reserve_run now run_id manual j s =
     (if cr_stopping s \<or> current_run (cj_id j) s \<noteq> None then None
      else (let r = run_record now run_id manual j in Some (r, s\<lparr>cr_active := cr_active s @ [(cj_id j, r)]\<rparr>)))"

text \<open>\<open>_execute_job\<close> on a reservation, up to the callback: the counters at this moment are what a
  cancellation starts from; once admission is closed the reservation is cancelled instead.\<close>

definition start_run :: "int \<Rightarrow> string option \<Rightarrow> string \<Rightarrow> cron \<Rightarrow> bool \<times> cron" where
  "start_run now archive_err i s = (case (current_run i s, find_job i s) of
      (Some run, Some j) \<Rightarrow>
        if i \<in> set (cr_owned s) then (False, s)
        else if cr_stopping s then (False, cancel_run now archive_err i
          (s\<lparr>cr_active := map (\<lambda>kv. if fst kv = i then (i, run_record (rr_started_at_ms run) (rr_run_id run) (rr_manual run) j) else kv) (cr_active s)\<rparr>))
        else (True, change_job i (set_state (\<lambda>st. st\<lparr>js_last_delivery_error := None\<rparr>))
          (s\<lparr>cr_active := map (\<lambda>kv. if fst kv = i then (i, run_record (rr_started_at_ms run) (rr_run_id run) (rr_manual run) j) else kv) (cr_active s),
             cr_owned := cr_owned s @ [i]\<rparr>))
    | _ \<Rightarrow> (False, s))"

text \<open>\<open>run_job\<close>, a run somebody asked for; \<open>reserve_manual\<close> is its first half, which other callers use alone.\<close>

definition manual_target :: "bool \<Rightarrow> string \<Rightarrow> cron \<Rightarrow> cron_job option" where
  "manual_target force i s = (case find (\<lambda>j. cj_id j = i \<or> cj_name j = i) (cr_jobs s) of
      None \<Rightarrow> None
    | Some j \<Rightarrow> if cj_lifecycle j = Archived \<or> (\<not> force \<and> \<not> cj_enabled j) then None else Some j)"

definition reserve_manual :: "int \<Rightarrow> string \<Rightarrow> bool \<Rightarrow> string \<Rightarrow> cron \<Rightarrow> cron" where
  "reserve_manual now run_id force i s = (case manual_target force i s of
      None \<Rightarrow> s
    | Some j \<Rightarrow> (case reserve_run now run_id True j s of None \<Rightarrow> s | Some (_, s1) \<Rightarrow> s1))"

definition run_job :: "int \<Rightarrow> string \<Rightarrow> bool \<Rightarrow> string \<Rightarrow> cron \<Rightarrow> bool \<times> cron" where
  "run_job now run_id force i s = (case manual_target force i s of
      None \<Rightarrow> (False, s)
    | Some j \<Rightarrow> (case reserve_run now run_id True j s of
        None \<Rightarrow> (False, s)
      | Some (_, s1) \<Rightarrow> start_run now None (cj_id j) s1))"

section \<open>A pass over the due jobs\<close>

text \<open>A recurring job that is later than its grace is moved to its following time and not run. \<open>_compute_grace_ms\<close> reads the
  clock for itself: \<open>clock\<close> is what it reads for each job.\<close>

definition too_late :: "calendar \<Rightarrow> (string \<Rightarrow> int) \<Rightarrow> int \<Rightarrow> cron_job \<Rightarrow> bool" where
  "too_late cal clock now j = (is_due now j \<and> recurring j \<and>
     compute_grace_ms cal (clock (cj_id j)) (cj_schedule j) < now - the (next_run j) \<and>
     truthy_int (compute_next_run cal (cj_schedule j) now))"

definition fast_forward :: "calendar \<Rightarrow> (string \<Rightarrow> int) \<Rightarrow> int \<Rightarrow> cron_job \<Rightarrow> cron_job" where
  "fast_forward cal clock now j = (if too_late cal clock now j then set_next (compute_next_run cal (cj_schedule j) now) j else j)"

definition pass_start :: "calendar \<Rightarrow> (string \<Rightarrow> int) \<Rightarrow> int \<Rightarrow> cron \<Rightarrow> cron" where
  "pass_start cal clock now s = (if cr_pass s \<noteq> None then s
     else (let due = map cj_id (filter (\<lambda>j. is_due now j \<and> \<not> too_late cal clock now j) (cr_jobs s));
           s1 = set_jobs (map (fast_forward cal clock now) (cr_jobs s)) s
       in (if list_ex (too_late cal clock now) (cr_jobs s) then save_store s1 else s1)\<lparr>cr_pass := Some due\<rparr>))"

definition advance_next_run :: "calendar \<Rightarrow> int \<Rightarrow> cron_job \<Rightarrow> cron \<Rightarrow> cron" where
  "advance_next_run cal now j s = (let t = compute_next_run cal (cj_schedule j) now in
     if recurring j \<and> truthy_int t \<and> t \<noteq> next_run j then save_store (change_job (cj_id j) (set_next t) s) else s)"

text \<open>The next job of the pass: it is looked up again, since anything may have happened to it meanwhile.\<close>

definition pass_fire :: "calendar \<Rightarrow> int \<Rightarrow> int \<Rightarrow> string \<Rightarrow> cron \<Rightarrow> cron" where
  "pass_fire cal now now_advance run_id s = (if cr_waiting s \<noteq> None then s else case cr_pass s of
      None \<Rightarrow> s
    | Some [] \<Rightarrow> (save_store s)\<lparr>cr_pass := None\<rparr>
    | Some (i # rest) \<Rightarrow>
        if cr_stopping s then (save_store s)\<lparr>cr_pass := None\<rparr>
        else (let s0 = s\<lparr>cr_pass := Some rest\<rparr> in case find_job i s of
            None \<Rightarrow> s0
          | Some j \<Rightarrow> if \<not> is_due now j \<or> current_run i s \<noteq> None then s0
              else (let s1 = advance_next_run cal now_advance j s0 in
                case find_job i s1 of None \<Rightarrow> s1
                | Some k \<Rightarrow> (case reserve_run now run_id False k s1 of
                    None \<Rightarrow> s1
                  | Some (_, s2) \<Rightarrow> (snd (start_run now None i s2))\<lparr>cr_waiting := Some i\<rparr>))))"

section \<open>Stopping and starting\<close>

definition stop :: "cron \<Rightarrow> cron" where
  "stop s = s\<lparr>cr_running := False, cr_stopping := True\<rparr>"

text \<open>The part of \<open>shutdown\<close> without an await: reservations no task has taken up are cancelled. Runs that are
  still going afterwards end by \<open>finish_run\<close> or, when the grace period is over, by \<open>cancel_run\<close>.\<close>

fun retire_reservations :: "int \<Rightarrow> string list \<Rightarrow> cron \<Rightarrow> cron" where
  "retire_reservations now [] s = s"
| "retire_reservations now (i # is) s = retire_reservations now is
     (case (current_run i s, find_job i s) of
        (Some run, Some j) \<Rightarrow> if i \<in> set (cr_owned s) then s
          else cancel_run now None i (s\<lparr>cr_active := map (\<lambda>kv. if fst kv = i then
            (i, run_record (rr_started_at_ms run) (rr_run_id run) (rr_manual run) j) else kv) (cr_active s)\<rparr>)
      | (Some _, None) \<Rightarrow> retire_run i s
      | _ \<Rightarrow> s)"

definition shutdown :: "int \<Rightarrow> cron \<Rightarrow> cron" where
  "shutdown now s = (let s1 = stop s in retire_reservations now (map fst (cr_active s1)) s1)"

text \<open>\<open>_recover_orphan_archives\<close>: the newest record of a job is replayed when it is newer than the job, and a
  record without a job makes an archived one.\<close>

definition record_completed :: "run_meta \<Rightarrow> int" where
  "record_completed m = (if rm_completed_at_ms m = 0 then rm_started_at_ms m else rm_completed_at_ms m)"

definition newer :: "run_meta \<Rightarrow> run_meta \<Rightarrow> bool" where
  "newer a b = (record_completed b < record_completed a \<or>
     (record_completed a = record_completed b \<and> rm_run_id b < rm_run_id a))"

fun latest_of :: "run_meta list \<Rightarrow> run_meta option" where
  "latest_of [] = None"
| "latest_of (m # ms) = (case latest_of ms of None \<Rightarrow> Some m | Some n \<Rightarrow> if newer n m then Some n else Some m)"

definition latest_record :: "string \<Rightarrow> run_meta list \<Rightarrow> run_meta option" where
  "latest_record i ms = latest_of (filter (\<lambda>m. rm_job_id m = i) ms)"

definition replay_record :: "run_meta \<Rightarrow> cron_job \<Rightarrow> cron_job" where
  "replay_record m j =
     (if js_last_run_id (cj_state j) = Some (rm_run_id m) \<or> record_completed m < cj_updated_at_ms j then j
      else (let k = (set_state (\<lambda>s. s\<lparr>js_last_run_at_ms := (if rm_started_at_ms m = 0 then None else Some (rm_started_at_ms m)),
          js_last_run_id := Some (rm_run_id m),
          js_last_status := (if rm_status m = None then js_last_status s else rm_status m),
          js_last_error := rm_error m, js_last_delivery_error := rm_delivery_error m,
          js_retry_attempt := rm_retry_attempt m, js_next_run_at_ms := rm_next_run_at_ms m\<rparr>) j)
        \<lparr>cj_repeat_completed := max (cj_repeat_completed j) (rm_repeat_completed m), cj_lifecycle := rm_lifecycle m,
         cj_enabled := (rm_lifecycle m = Scheduled), cj_updated_at_ms := record_completed m\<rparr>
      in if rm_lifecycle m = Completed
         then k\<lparr>cj_completed_at_ms := (if record_completed m = 0 then None else Some (record_completed m))\<rparr> else k))"

definition recovered_job :: "int \<Rightarrow> run_meta list \<Rightarrow> run_meta \<Rightarrow> cron_job" where
  "recovered_job now ms m = (let i = rm_job_id m; completed = record_completed m;
      started = filter (\<lambda>v. v \<noteq> 0) (map rm_started_at_ms (filter (\<lambda>x. rm_job_id x = i) ms))
    in \<lparr>cj_id = i, cj_name = (if rm_job_name m = '''' then i else rm_job_name m), cj_enabled = False,
      cj_schedule = \<lparr>cs_kind = ''at'', cs_at_ms = None, cs_every_ms = None, cs_expr = None, cs_tz = None\<rparr>,
      cj_payload = \<lparr>py_kind = ''agent_turn'', py_message = '''', py_deliver = False, py_channel = None, py_to = None,
        py_tool_name = None, py_tool_args = None\<rparr>,
      cj_state = (new_state None)\<lparr>js_last_run_at_ms := (if rm_started_at_ms m = 0 then None else Some (rm_started_at_ms m)),
        js_last_status := rm_status m, js_last_error := rm_error m, js_last_delivery_error := rm_delivery_error m,
        js_last_run_id := Some (rm_run_id m)\<rparr>,
      cj_created_at_ms = (if started = [] then completed else Min (set started)), cj_updated_at_ms = completed,
      cj_lifecycle = Archived, cj_completed_at_ms = (if completed = 0 then None else Some completed),
      cj_archived_at_ms = Some (if completed = 0 then now else completed), cj_source = None, cj_source_id = None,
      cj_delete_after_run = False, cj_origin = None, cj_repeat_times = None, cj_repeat_completed = 0, cj_script = None,
      cj_skills = [], cj_model = None, cj_provider = None, cj_retry_max_attempts = 0, cj_retry_backoff_ms = [],
      cj_failure_alert_after = 3, cj_failure_alert_cooldown_ms = 24 * 60 * 60 * 1000\<rparr>)"

definition recover_jobs :: "int \<Rightarrow> run_meta list \<Rightarrow> cron_job list \<Rightarrow> cron_job list" where
  "recover_jobs now ms jobs =
     map (\<lambda>j. case latest_record (cj_id j) ms of None \<Rightarrow> j | Some m \<Rightarrow> replay_record m j) jobs
     @ map (\<lambda>i. recovered_job now ms (the (latest_record i ms)))
         (filter (\<lambda>i. i \<notin> cj_id ` set jobs) (remdups (map rm_job_id ms)))"

definition load_jobs :: "int \<Rightarrow> json option \<Rightarrow> run_meta list \<Rightarrow> cron_job list option" where
  "load_jobs now file ms = (case file of
      None \<Rightarrow> Some (recover_jobs now ms [])
    | Some v \<Rightarrow> map_option (recover_jobs now ms) (read_store v))"

text \<open>A new process on the files the last one left; an unreadable file raises and leaves all as it is. What was not saved is gone.\<close>

definition restart :: "calendar \<Rightarrow> int \<Rightarrow> cron \<Rightarrow> cron" where
  "restart cal now s = (case load_jobs now (cr_file s) (cr_archive s) of
      None \<Rightarrow> s
    | Some jobs \<Rightarrow> save_store (s\<lparr>cr_jobs := recompute_next_runs cal now jobs, cr_active := [], cr_owned := [], cr_running := True,
        cr_stopping := False, cr_pass := None, cr_waiting := None, cr_unsaved := [], cr_lost := cr_lost s @ cr_unsaved s,
        cr_restarts := cr_restarts s + 1\<rparr>))"

text \<open>\<open>reload\<close>: the jobs of the file, but for those that run now.\<close>

definition keep_active :: "cron_job list \<Rightarrow> cron_job list \<Rightarrow> cron_job list" where
  "keep_active active fresh =
     map (\<lambda>j. case find (\<lambda>a. cj_id a = cj_id j) active of None \<Rightarrow> j | Some a \<Rightarrow> a) fresh
     @ filter (\<lambda>a. cj_id a \<notin> cj_id ` set fresh) active"

definition reload :: "calendar \<Rightarrow> int \<Rightarrow> cron \<Rightarrow> cron" where
  "reload cal now s = (case load_jobs now (cr_file s) (cr_archive s) of
      None \<Rightarrow> s
    | Some jobs \<Rightarrow> save_store (set_jobs (recompute_next_runs cal now
        (keep_active (filter (\<lambda>j. current_run (cj_id j) s \<noteq> None) (cr_jobs s)) jobs)) s))"

section \<open>The schedule as clients change it\<close>

definition add_to_schedule :: "calendar \<Rightarrow> string \<Rightarrow> int \<Rightarrow> job_request \<Rightarrow> cron \<Rightarrow> cron" where
  "add_to_schedule cal i now r s = (case add_job cal i now r (cr_jobs s) of
      Inl _ \<Rightarrow> s
    | Inr (_, jobs) \<Rightarrow> save_store (set_jobs jobs s))"

text \<open>An operation that raises or returns early leaves what it has changed so far in memory.\<close>

definition apply_change :: "(change \<times> cron_job list) option \<Rightarrow> cron \<Rightarrow> cron" where
  "apply_change c s = (case c of
      None \<Rightarrow> s
    | Some (Saved, jobs) \<Rightarrow> save_store (set_jobs jobs s)
    | Some (_, jobs) \<Rightarrow> set_jobs jobs s)"

text \<open>A purge deletes the records of the runs with the job.\<close>

definition drop_from_schedule :: "int \<Rightarrow> string \<Rightarrow> bool \<Rightarrow> cron \<Rightarrow> cron" where
  "drop_from_schedule now i purge s = (case remove_job now (map fst (cr_active s)) i purge (cr_jobs s) of
      None \<Rightarrow> s
    | Some jobs \<Rightarrow> save_store (set_jobs jobs
        (if purge then s\<lparr>cr_archive := filter (\<lambda>m. \<not> list_ex (\<lambda>j. (cj_id j = i \<or> cj_name j = i) \<and> cj_id j = rm_job_id m) (cr_jobs s)) (cr_archive s)\<rparr>
         else s)))"

section \<open>All that can happen to the service\<close>

definition empty_cron :: cron where
  "empty_cron = \<lparr>cr_jobs = [], cr_file = None, cr_archive = [], cr_active = [], cr_owned = [], cr_running = False, cr_stopping = False,
     cr_pass = None, cr_waiting = None, cr_published = [], cr_alerts = [], cr_unsaved = [], cr_lost = [], cr_restarts = 0\<rparr>"

text \<open>Job and run ids are new (they are random): no job, record or alert has them.\<close>

definition new_job_id :: "string \<Rightarrow> cron \<Rightarrow> bool" where
  "new_job_id i s = (i \<notin> cj_id ` set (cr_jobs s) \<and> i \<notin> fst ` set (cr_alerts s @ cr_unsaved s))"

definition new_run_id :: "string \<Rightarrow> cron \<Rightarrow> bool" where
  "new_run_id r s = (r \<notin> rm_run_id ` set (cr_archive s) \<and> r \<notin> rr_run_id ` snd ` set (cr_active s))"

inductive cron_step :: "calendar \<Rightarrow> cron \<Rightarrow> cron \<Rightarrow> bool" for cal where
  added: "new_job_id i s \<Longrightarrow> cron_step cal s (add_to_schedule cal i now r s)"
| updates: "cron_step cal s (apply_change (update_job cal now stamp i u (cr_jobs s)) s)"
| retargeted: "cron_step cal s (apply_change (update_delivery_target now i channel target (cr_jobs s)) s)"
| delivery: "cron_step cal s (apply_change (mark_delivery_error i e (cr_jobs s)) s)"
| switched: "cron_step cal s (apply_change (enable_job cal now i on (cr_jobs s)) s)"
| removed: "cron_step cal s (drop_from_schedule now i purge s)"
| reserved: "new_run_id r s \<Longrightarrow> cron_step cal s (reserve_manual now r force i s)"
| manual: "new_run_id r s \<Longrightarrow> cron_step cal s (snd (run_job now r force i s))"
| started: "cron_step cal s (snd (start_run now e i s))"
| finished: "i \<in> set (cr_owned s) \<Longrightarrow> cron_step cal s (finish_run now_done now_retry now_alert out e i s)"
| alerting: "i \<in> set (cr_owned s) \<Longrightarrow> cron_step cal s (send_alert now_done now_alert out i s)"
| alerted: "i \<in> set (cr_owned s) \<Longrightarrow> cron_step cal s (close_run e i s)"
| cancelled: "i \<in> set (cr_owned s) \<Longrightarrow> cron_step cal s (cancel_run now e i s)"
| pass_begins: "cron_step cal s (pass_start cal clock now s)"
| pass_goes_on: "new_run_id r s \<Longrightarrow> cron_step cal s (pass_fire cal now now' r s)"
| stops: "cron_step cal s (stop s)"
| shuts_down: "cron_step cal s (shutdown now s)"
| restarts: "cron_step cal s (restart cal now s)"
| reloads: "cron_step cal s (reload cal now s)"

end
