(* ===== verification/Cron_Facts.thy ===== *)
theory Cron_Facts
  imports Cron_Service
begin

text \<open>
  The invariant of the cron service: ids of jobs and runs are unique, a run in progress has its job, a job is
  switched on exactly when it is scheduled, the file and the memory agree on which jobs there are, each knows when a job
  alerted last as far as it goes, the alerts of a job keep their distance, and an alert the file does not know of
  belongs to a run that still waits for its delivery. Each operation preserves it.
\<close>

section \<open>What operations leave of a job\<close>

text \<open>What no operation but the end of a run changes.\<close>

definition alert_view :: "cron_job \<Rightarrow> string \<times> int option \<times> int" where
  "alert_view j = (cj_id j, js_last_alert_at_ms (cj_state j), cj_failure_alert_cooldown_ms j)"

definition in_step :: "cron_job \<Rightarrow> bool" where
  "in_step j = (cj_enabled j = (cj_lifecycle j = Scheduled))"

definition tame :: "(cron_job \<Rightarrow> cron_job) \<Rightarrow> bool" where
  "tame f = (\<forall>j. alert_view (f j) = alert_view j \<and> (in_step j \<longrightarrow> in_step (f j)))"

named_theorems job_parts

lemmas [job_parts] = alert_view_def in_step_def set_state_def set_next_def

lemma tame_stored: "tame stored_form"
  by (simp add: tame_def job_parts stored_form_def)

lemma tame_replay: "tame (replay_record m)"
  by (simp add: tame_def job_parts replay_record_def Let_def)

lemma tame_recompute: "tame (recompute_one cal now)"
  by (simp add: tame_def job_parts recompute_one_def Let_def)

lemma tame_set_state:
  "(\<And>st. js_last_alert_at_ms (f st) = js_last_alert_at_ms st) \<Longrightarrow> tame (set_state f)"
  by (simp add: tame_def job_parts)

lemma tame_set_next: "tame (set_next t)"
  by (simp add: tame_def job_parts)

lemma tame_fast_forward: "tame (fast_forward cal clock now)"
  using tame_set_next by (simp add: tame_def fast_forward_def)

lemma tame_use_slot: "tame (use_slot now)"
  by (simp add: tame_def job_parts use_slot_def Let_def)

lemma tame_archive_job: "tame (archive_job now)"
  by (simp add: tame_def job_parts archive_job_def)

lemma tame_cancel_job: "tame (cancel_job now stopping run)"
  by (simp add: tame_def job_parts cancel_job_def use_slot_def Let_def)

lemma tame_update: "tame (\<lambda>j. snd (update_one cal now stamp u j))"
  by (simp add: tame_def job_parts update_one_def update_fields_def reschedule_job_def Let_def split: sum.split option.split)

lemma tame_target: "tame (\<lambda>j. j\<lparr>cj_payload := f j, cj_updated_at_ms := now\<rparr>)"
  by (simp add: tame_def job_parts)

lemma tame_switch: "tame (\<lambda>j. snd (resume_job cal now j))" "tame (\<lambda>j. snd (pause_job now j))"
  by (simp_all add: tame_def job_parts resume_job_def pause_job_def Let_def split: option.split)

lemma tame_id: "tame f \<Longrightarrow> cj_id (f j) = cj_id j"
  by (simp add: tame_def alert_view_def)

lemma tame_mapped:
  assumes "tame f"
  shows "map alert_view (map f js) = map alert_view js" "list_all in_step js \<Longrightarrow> list_all in_step (map f js)"
  using assms by (auto simp: tame_def list_all_iff)

lemma change_first_kept:
  assumes "change_first P f js = Some (c, ks)" "tame (\<lambda>j. snd (f j))"
  shows "map alert_view ks = map alert_view js" "list_all in_step js \<Longrightarrow> list_all in_step ks"
  using assms by (induction js arbitrary: ks) (auto simp: tame_def split: if_splits)

definition saved_view :: "cron_job \<Rightarrow> string \<times> int" where
  "saved_view j = (cj_id j, cj_failure_alert_cooldown_ms j)"

lemma views_saved: "map alert_view ks = map alert_view js \<Longrightarrow> map saved_view ks = map saved_view js"
proof -
  have "saved_view = (\<lambda>(i, t, c). (i, c)) \<circ> alert_view" by (auto simp: saved_view_def alert_view_def)
  then show "map alert_view ks = map alert_view js \<Longrightarrow> map saved_view ks = map saved_view js" by (metis list.map_comp)
qed

lemma saved_ids: "map saved_view ks = map saved_view js \<Longrightarrow> map cj_id ks = map cj_id js"
  by (metis (no_types, lifting) saved_view_def fst_conv list.map_comp list.map_cong0 comp_apply)

lemma views_ids: "map alert_view ks = map alert_view js \<Longrightarrow> map cj_id ks = map cj_id js"
  by (metis (no_types, lifting) alert_view_def fst_conv list.map_comp list.map_cong0 comp_apply)

section \<open>The invariant\<close>

text \<open>The alerts the memory knows of.\<close>

definition alert_times :: "string \<Rightarrow> cron \<Rightarrow> int list" where
  "alert_times i s = map (\<lambda>a. fst (snd a)) (filter (\<lambda>a. fst a = i) (cr_alerts s @ cr_unsaved s))"

definition known_alerts :: "(string \<times> int \<times> string) list \<Rightarrow> cron_job \<Rightarrow> bool" where
  "known_alerts al j = (let ts = map (\<lambda>a. fst (snd a)) (filter (\<lambda>a. fst a = cj_id j) al) in
     js_last_alert_at_ms (cj_state j) = (if ts = [] then None else Some (last ts)) \<and>
     successively (\<lambda>t u. cj_failure_alert_cooldown_ms j \<le> u - t) ts)"

definition alert_kept :: "cron \<Rightarrow> cron_job \<Rightarrow> bool" where
  "alert_kept s = known_alerts (cr_alerts s @ cr_unsaved s)"

definition file_agrees :: "cron \<Rightarrow> bool" where
  "file_agrees s = (case cr_file s of None \<Rightarrow> cr_jobs s = []
     | Some v \<Rightarrow> (\<exists>saved. v = store_json saved \<and> map saved_view saved = map saved_view (cr_jobs s) \<and>
         list_all (known_alerts (cr_alerts s)) saved))"

definition runs_apart :: "cron \<Rightarrow> bool" where
  "runs_apart s = (distinct (map fst (cr_active s)) \<and> fst ` set (cr_active s) \<subseteq> cj_id ` set (cr_jobs s) \<and>
     set (cr_owned s) \<subseteq> fst ` set (cr_active s) \<and> distinct (cr_owned s) \<and> set_option (cr_waiting s) \<subseteq> set (cr_owned s) \<and>
     rm_job_id ` set (cr_archive s) \<subseteq> cj_id ` set (cr_jobs s) \<and>
     distinct (map rm_run_id (cr_archive s) @ map (\<lambda>kv. rr_run_id (snd kv)) (cr_active s)))"

definition alerting :: "string \<Rightarrow> cron \<Rightarrow> bool" where
  "alerting i s = (i \<in> set (cr_owned s) \<and> (\<exists>run. current_run i s = Some run \<and> rr_alerted run \<noteq> None))"

definition alerts_pending :: "cron \<Rightarrow> bool" where
  "alerts_pending s = (distinct (map fst (cr_unsaved s)) \<and> (\<forall>i\<in>fst ` set (cr_unsaved s). alerting i s))"

definition losses_bounded :: "cron \<Rightarrow> bool" where
  "losses_bounded s = (\<forall>i. length (filter (\<lambda>a. fst a = i) (cr_lost s)) \<le> cr_restarts s)"

definition cron_inv :: "cron \<Rightarrow> bool" where
  "cron_inv s = (distinct (map cj_id (cr_jobs s)) \<and> list_all in_step (cr_jobs s) \<and> runs_apart s \<and> file_agrees s \<and>
     list_all (alert_kept s) (cr_jobs s) \<and> alerts_pending s \<and> losses_bounded s)"

lemma known_view: "alert_view j = alert_view k \<Longrightarrow> known_alerts al j = known_alerts al k"
  by (simp add: known_alerts_def alert_view_def Let_def)

lemma known_views:
  assumes "map alert_view ks = map alert_view js" "list_all (known_alerts al) js"
  shows "list_all (known_alerts al) ks"
proof -
  have "alert_view ` set ks = alert_view ` set js" using arg_cong [OF assms(1), of set] by simp
  then show ?thesis using assms(2) known_view unfolding list_all_iff by (metis image_iff)
qed

lemma alert_kept_views: "map alert_view ks = map alert_view js \<Longrightarrow> list_all (alert_kept s) js \<Longrightarrow> list_all (alert_kept s) ks"
  unfolding alert_kept_def by (rule known_views)

lemma alert_kept_same [simp]:
  "alert_kept (s\<lparr>cr_jobs := a\<rparr>) = alert_kept s" "alert_kept (s\<lparr>cr_file := b\<rparr>) = alert_kept s"
  "alert_kept (s\<lparr>cr_archive := c\<rparr>) = alert_kept s" "alert_kept (s\<lparr>cr_active := d\<rparr>) = alert_kept s"
  "alert_kept (s\<lparr>cr_owned := e\<rparr>) = alert_kept s" "alert_kept (s\<lparr>cr_running := f\<rparr>) = alert_kept s"
  "alert_kept (s\<lparr>cr_stopping := g\<rparr>) = alert_kept s" "alert_kept (s\<lparr>cr_pass := h\<rparr>) = alert_kept s"
  "alert_kept (s\<lparr>cr_waiting := w\<rparr>) = alert_kept s" "alert_kept (s\<lparr>cr_published := k\<rparr>) = alert_kept s"
  by (simp_all add: alert_kept_def)

lemma runs_apart_jobs: "cj_id ` set ks = cj_id ` set (cr_jobs s) \<Longrightarrow> runs_apart (set_jobs ks s) = runs_apart s"
  by (simp add: runs_apart_def set_jobs_def)

lemma inv_set_jobs:
  assumes "cron_inv s" "map alert_view ks = map alert_view (cr_jobs s)" "list_all in_step ks"
  shows "cron_inv (set_jobs ks s)"
proof -
  have ids: "map cj_id ks = map cj_id (cr_jobs s)" using assms(2) by (rule views_ids)
  then have ids': "cj_id ` set ks = cj_id ` set (cr_jobs s)" by (metis set_map)
  have "list_all (alert_kept (set_jobs ks s)) ks"
    using alert_kept_views [OF assms(2)] assms(1) by (simp add: cron_inv_def set_jobs_def)
  moreover have "ks = [] \<longleftrightarrow> cr_jobs s = []" using ids by (metis map_is_Nil_conv)
  then have "file_agrees (set_jobs ks s)" using assms(1) views_saved [OF assms(2)]
    by (auto simp: cron_inv_def file_agrees_def set_jobs_def split: option.splits)
  moreover have "alerts_pending (set_jobs ks s)" "losses_bounded (set_jobs ks s)" using assms(1)
    by (auto simp: cron_inv_def alerts_pending_def alerting_def losses_bounded_def set_jobs_def current_run_def)
  ultimately show ?thesis using assms(1,3) ids runs_apart_jobs [OF ids'] by (simp add: cron_inv_def) (simp add: set_jobs_def)
qed

text \<open>After a save the file agrees with the memory.\<close>

lemma inv_saved:
  assumes "distinct (map cj_id (cr_jobs s))" "list_all in_step (cr_jobs s)" "runs_apart s" "list_all (alert_kept s) (cr_jobs s)"
    and "losses_bounded s"
  shows "cron_inv (save_store s)"
  using assms by (auto simp: cron_inv_def runs_apart_def file_agrees_def alert_kept_def alerts_pending_def losses_bounded_def save_store_def)

lemma inv_save: "cron_inv s \<Longrightarrow> cron_inv (save_store s)"
  by (intro inv_saved) (auto simp: cron_inv_def)

lemma inv_change_job:
  assumes "cron_inv s" "tame f"
  shows "cron_inv (change_job i f s)"
proof -
  have "tame (\<lambda>j. if cj_id j = i then f j else j)" using assms(2) by (simp add: tame_def)
  from tame_mapped [OF this] assms(1) show ?thesis
    unfolding change_job_def set_jobs_def [symmetric] by (intro inv_set_jobs) (auto simp: cron_inv_def)
qed

lemma inv_apply_change:
  assumes "cron_inv s" "tame (\<lambda>j. snd (f j))"
  shows "cron_inv (apply_change (change_first P f (cr_jobs s)) s)"
proof (cases "change_first P f (cr_jobs s)")
  case (Some r)
  obtain c ks where r: "r = (c, ks)" by (cases r)
  have "cron_inv (set_jobs ks s)"
    using change_first_kept [OF Some [unfolded r] assms(2)] assms(1) by (intro inv_set_jobs) (auto simp: cron_inv_def)
  then show ?thesis using Some r inv_save by (cases c) (auto simp: apply_change_def)
qed (simp add: apply_change_def assms)

section \<open>Runs\<close>

lemma find_by_key: "distinct (map f xs) \<Longrightarrow> x \<in> set xs \<Longrightarrow> find (\<lambda>y. f y = f x) xs = Some x"
  by (induction xs) force+

lemma find_job_own: "distinct (map cj_id (cr_jobs s)) \<Longrightarrow> j \<in> set (cr_jobs s) \<Longrightarrow> find_job (cj_id j) s = Some j"
  by (simp add: find_job_def find_by_key)

lemma find_job_Some: "find_job i s = Some j \<Longrightarrow> j \<in> set (cr_jobs s) \<and> cj_id j = i"
  by (auto simp: find_job_def find_Some_iff)

lemma find_job_ex: "i \<in> cj_id ` set (cr_jobs s) \<Longrightarrow> \<exists>j. find_job i s = Some j"
  by (cases "find_job i s") (auto simp: find_job_def find_None_iff)

lemma run_has_job: "cron_inv s \<Longrightarrow> current_run i s = Some run \<Longrightarrow> \<exists>j. find_job i s = Some j"
  by (intro find_job_ex) (auto simp: cron_inv_def runs_apart_def current_run_def dest!: map_of_SomeD)

definition rebase :: "string \<Rightarrow> run_rec \<Rightarrow> cron \<Rightarrow> cron" where
  "rebase i r s = s\<lparr>cr_active := map (\<lambda>kv. if fst kv = i then (i, r) else kv) (cr_active s)\<rparr>"

lemma map_of_map_if: "map_of (map (\<lambda>kv. if fst kv = i then (i, r) else kv) xs) k =
    (if k = i then map_option (\<lambda>_. r) (map_of xs k) else map_of xs k)"
  by (induction xs) auto

lemma rebase_active:
  assumes "distinct (map fst (cr_active s))" "current_run i s = Some run" "rr_run_id r = rr_run_id run"
  shows "map fst (cr_active (rebase i r s)) = map fst (cr_active s)"
    "map (\<lambda>kv. rr_run_id (snd kv)) (cr_active (rebase i r s)) = map (\<lambda>kv. rr_run_id (snd kv)) (cr_active s)"
proof -
  show "map fst (cr_active (rebase i r s)) = map fst (cr_active s)" by (simp add: rebase_def)
  have "snd kv = run" if "kv \<in> set (cr_active s)" "fst kv = i" for kv
    using that assms(1,2) by (metis current_run_def map_of_is_SomeI option.inject prod.collapse)
  then show "map (\<lambda>kv. rr_run_id (snd kv)) (cr_active (rebase i r s)) = map (\<lambda>kv. rr_run_id (snd kv)) (cr_active s)"
    using assms(3) by (auto simp: rebase_def)
qed

lemma inv_cong:
  assumes "cr_jobs t = cr_jobs s" "cr_file t = cr_file s" "cr_owned t = cr_owned s" "cr_waiting t = cr_waiting s"
    and "cr_archive t = cr_archive s" "cr_alerts t = cr_alerts s" "cr_active t = cr_active s"
    and "cr_unsaved t = cr_unsaved s" "cr_lost t = cr_lost s" "cr_restarts t = cr_restarts s"
  shows "cron_inv t = cron_inv s"
  unfolding cron_inv_def runs_apart_def file_agrees_def alert_kept_def alerts_pending_def alerting_def current_run_def losses_bounded_def
    assms ..

lemma inv_rebase:
  assumes "cron_inv s" "current_run i s = Some run" "rr_run_id r = rr_run_id run" "i \<notin> set (cr_owned s)"
  shows "cron_inv (rebase i r s)"
proof -
  let ?t = "rebase i r s"
  note inv = assms(1) [unfolded cron_inv_def]
  have d: "distinct (map fst (cr_active s))" using inv by (simp add: runs_apart_def)
  have a: "map fst (cr_active ?t) = map fst (cr_active s)"
      "map (\<lambda>kv. rr_run_id (snd kv)) (cr_active ?t) = map (\<lambda>kv. rr_run_id (snd kv)) (cr_active s)"
    using rebase_active [OF d assms(2,3)] by auto
  have im: "fst ` set (cr_active ?t) = fst ` set (cr_active s)" using a(1) by (metis set_map)
  have f: "cr_jobs ?t = cr_jobs s" "cr_owned ?t = cr_owned s" "cr_waiting ?t = cr_waiting s" "cr_archive ?t = cr_archive s"
    by (simp_all add: rebase_def)
  have "runs_apart ?t" using inv unfolding runs_apart_def f a im by blast
  moreover have "current_run k ?t = current_run k s" if "k \<noteq> i" for k
    using that by (auto simp: rebase_def current_run_def map_of_map_if)
  then have "alerting k s \<Longrightarrow> alerting k ?t" for k using assms(4) by (cases "k = i") (auto simp: alerting_def rebase_def)
  then have "alerts_pending ?t" using inv by (simp add: alerts_pending_def) (simp add: rebase_def)
  moreover have "file_agrees ?t" "losses_bounded ?t" using inv by (auto simp: file_agrees_def losses_bounded_def rebase_def split: option.splits)
  ultimately show ?thesis using inv by (simp add: cron_inv_def) (simp add: rebase_def)
qed

lemma run_ids_settled:
  assumes "distinct (map rm_run_id ar @ map (\<lambda>kv. rr_run_id (snd kv)) ac)" "map_of ac i = Some run"
    and "ms = [] \<or> (\<exists>m. ms = [m] \<and> rm_run_id m = rr_run_id run \<and> rm_job_id m = i)"
  shows "distinct (map rm_run_id (ar @ ms) @ map (\<lambda>kv. rr_run_id (snd kv)) (filter (\<lambda>kv. fst kv \<noteq> i) ac))"
proof -
  let ?rid = "\<lambda>kv. rr_run_id (snd kv)" and ?rest = "filter (\<lambda>kv. fst kv \<noteq> i) ac"
  have d: "distinct (map rm_run_id ar)" "distinct (map ?rid ac)" "rm_run_id ` set ar \<inter> ?rid ` set ac = {}" using assms(1) by auto
  have i: "(i, run) \<in> set ac" using assms(2) by (rule map_of_SomeD)
  have "rr_run_id run \<notin> ?rid ` set ?rest"
  proof
    assume "rr_run_id run \<in> ?rid ` set ?rest"
    then obtain kv where kv: "kv \<in> set ac" "fst kv \<noteq> i" "?rid kv = ?rid (i, run)" by auto
    then have "kv = (i, run)" using d(2) i by (metis (mono_tags, lifting) distinct_map inj_onD)
    with kv(2) show False by simp
  qed
  moreover have "?rid (i, run) \<in> ?rid ` set ac" using i by (rule imageI)
  then have "rr_run_id run \<notin> rm_run_id ` set ar" using d(3) by auto
  moreover have "rm_run_id ` set ar \<inter> ?rid ` set ?rest = {}" using d(3) by auto
  moreover have "distinct (map ?rid ?rest)" using d(2) by (simp add: distinct_map_filter)
  ultimately show ?thesis using assms(3) d(1) by (elim disjE exE conjE) (simp_all add: image_iff)
qed

lemma inv_settled:
  assumes "cron_inv s" "current_run i s = Some run" "map cj_id ks = map cj_id (cr_jobs s)" "list_all in_step ks"
    and "list_all (alert_kept (s\<lparr>cr_unsaved := al\<rparr>)) ks"
    and "ms = [] \<or> (\<exists>m. ms = [m] \<and> rm_run_id m = rr_run_id run \<and> rm_job_id m = i)"
  shows "cron_inv (retire_run i (save_store (s\<lparr>cr_jobs := ks, cr_archive := cr_archive s @ ms, cr_unsaved := al\<rparr>)))" (is "cron_inv ?t")
proof -
  note inv = assms(1) [unfolded cron_inv_def runs_apart_def]
  have ids: "cj_id ` set ks = cj_id ` set (cr_jobs s)" using assms(3) by (metis set_map)
  have run: "map_of (cr_active s) i = Some run" using assms(2) by (simp add: current_run_def)
  have i: "i \<in> cj_id ` set ks" using map_of_SomeD [OF run] inv ids by (metis fst_conv image_eqI subsetD)
  have "runs_apart ?t"
    using run_ids_settled [OF _ run assms(6), of "cr_archive s"] inv ids i assms(6) unfolding runs_apart_def
    by (auto simp: retire_run_def save_store_def distinct_map_filter split: if_splits)
  moreover have "file_agrees ?t" "alerts_pending ?t" "losses_bounded ?t" using inv assms(5)
    by (auto simp: file_agrees_def alerts_pending_def losses_bounded_def alert_kept_def retire_run_def save_store_def)
  moreover have "alert_kept ?t = alert_kept (s\<lparr>cr_unsaved := al\<rparr>)" by (simp add: alert_kept_def retire_run_def save_store_def)
  ultimately show ?thesis using inv assms(3-5) by (simp add: cron_inv_def) (simp add: retire_run_def save_store_def)
qed

lemma inv_publish: "cron_inv s \<Longrightarrow> cron_inv (publish c s)"
  using inv_cong [of "publish c s" s] by (simp add: publish_def)
section \<open>The end of a run\<close>

lemma count_result_kept:
  "cj_id (count_result b c man err (note_result a run err j)) = cj_id j"
  "cj_failure_alert_cooldown_ms (count_result b c man err (note_result a run err j)) = cj_failure_alert_cooldown_ms j"
  "in_step j \<Longrightarrow> in_step (count_result b c man err (note_result a run err j))"
  by (simp_all add: note_result_def count_result_def job_parts Let_def)

lemma count_result_alert:
  "js_last_alert_at_ms (cj_state (count_result b c (rr_manual run) err (note_result a run err j))) =
     (if settle_alerts c run err j then Some c else js_last_alert_at_ms (cj_state j))"
  by (auto simp: note_result_def count_result_def settle_alerts_def will_retry_def alert_due_def set_state_def Let_def)

lemma settle_job_shape: "\<exists>f. tame f \<and> settle_job a b c run err j = f (count_result b c (rr_manual run) err (note_result a run err j))"
  using tame_use_slot [of a] by (auto simp: settle_job_def Let_def tame_def intro: exI [of _ id] exI [of _ "use_slot a"])

lemma settle_job_kept:
  "cj_id (settle_job a b c run err j) = cj_id j"
  "in_step j \<Longrightarrow> in_step (settle_job a b c run err j)"
  using settle_job_shape [of a b c run err j] by (auto simp: tame_def alert_view_def count_result_kept)

lemma settle_alerts_due:
  "settle_alerts now run err j \<Longrightarrow> cj_failure_alert_cooldown_ms j \<le> now - (case js_last_alert_at_ms (cj_state j) of None \<Rightarrow> 0 | Some t \<Rightarrow> t)"
  by (simp add: settle_alerts_def alert_due_def set_state_def)

lemma archive_run_shape:
  assumes "find_job i s = Some j"
  shows "\<exists>f ms. tame f \<and> (ms = [] \<or> (\<exists>m. ms = [m] \<and> rm_run_id m = rr_run_id run \<and> rm_job_id m = i)) \<and>
    archive_run now run e i s = (change_job i f s)\<lparr>cr_archive := cr_archive s @ ms\<rparr>"
proof (cases e)
  case None
  have "tame (set_state (\<lambda>st. st\<lparr>js_last_output_error := None\<rparr>))" by (rule tame_set_state) simp
  moreover have "rm_run_id (meta_of now run j) = rr_run_id run" "rm_job_id (meta_of now run j) = i"
    using find_job_Some [OF assms] by (simp_all add: meta_of_def)
  ultimately show ?thesis using assms None
    by (intro exI [of _ "set_state (\<lambda>st. st\<lparr>js_last_output_error := None\<rparr>)"] exI [of _ "[meta_of now run j]"])
      (simp add: archive_run_def change_job_def)
next
  case (Some e')
  have "tame (set_state (\<lambda>st. st\<lparr>js_last_output_error := Some (take 500 e')\<rparr>))" by (rule tame_set_state) simp
  then show ?thesis using assms Some
    by (intro exI [of _ "set_state (\<lambda>st. st\<lparr>js_last_output_error := Some (take 500 e')\<rparr>)"] exI [of _ "[]"])
      (simp add: archive_run_def change_job_def)
qed

lemma find_job_change:
  "(\<And>j. cj_id (f j) = cj_id j) \<Longrightarrow> find_job i (change_job k f s) = map_option (\<lambda>j. if cj_id j = k then f j else j) (find_job i s)"
proof -
  assume "\<And>j. cj_id (f j) = cj_id j"
  then have "find (\<lambda>j. cj_id j = i) (map (\<lambda>j. if cj_id j = k then f j else j) js) =
      map_option (\<lambda>j. if cj_id j = k then f j else j) (find (\<lambda>j. cj_id j = i) js)" for js
    by (induction js) auto
  then show ?thesis by (simp add: find_job_def change_job_def)
qed

text \<open>How the alerts of all jobs stand after a run of job \<open>i\<close> that may have sent one.\<close>

lemma known_counted:
  assumes "known_alerts al j"
  shows "known_alerts (al @ (if settle_alerts c run err j then [(cj_id j, c, text)] else []))
      (count_result b c (rr_manual run) err (note_result a run err j))"
  using assms settle_alerts_due [of c run err j]
  by (auto simp: known_alerts_def Let_def count_result_alert count_result_kept successively_append_iff split: option.splits if_splits)

lemma known_other: "cj_id j \<noteq> i \<Longrightarrow> list_all (\<lambda>a. fst a = i) al \<Longrightarrow> known_alerts (bs @ al) j = known_alerts bs j"
proof -
  assume "cj_id j \<noteq> i" "list_all (\<lambda>a. fst a = i) al"
  then have "filter (\<lambda>a. fst a = cj_id j) al = []" by (auto simp: filter_empty_conv list_all_iff)
  then show ?thesis by (simp add: known_alerts_def Let_def)
qed

lemma change_job_twice: "(\<And>j. cj_id (g j) = cj_id j) \<Longrightarrow> change_job i f (change_job i g s) = change_job i (f \<circ> g) s"
  by (auto simp: change_job_def comp_def)

lemma change_job_unsaved: "change_job i f (s\<lparr>cr_unsaved := al\<rparr>) = (change_job i f s)\<lparr>cr_unsaved := al\<rparr>"
  by (simp add: change_job_def)

lemma alerts_settled:
  assumes "cron_inv s" "find_job i s = Some j" "tame f" "al = (if settle_alerts c run err j then [alert_of c err j] else [])"
  shows "list_all (alert_kept (s\<lparr>cr_unsaved := cr_unsaved s @ al\<rparr>))
    (map (\<lambda>k. if cj_id k = i then f (count_result b c (rr_manual run) err (note_result a run err k)) else k) (cr_jobs s))"
proof -
  let ?g = "\<lambda>k. count_result b c (rr_manual run) err (note_result a run err k)"
  let ?al = "cr_alerts s @ cr_unsaved s"
  have i: "cj_id j = i" using find_job_Some [OF assms(2)] by simp
  have known: "known_alerts ?al k" if "k \<in> set (cr_jobs s)" for k
    using assms(1) that by (simp add: cron_inv_def list_all_iff alert_kept_def)
  have "known_alerts (?al @ al) (if cj_id k = i then f (?g k) else k)" if k: "k \<in> set (cr_jobs s)" for k
  proof (cases "cj_id k = i")
    case True
    then have "k = j" using find_job_own [of s k] assms(1,2) k by (simp add: cron_inv_def)
    have "al = (if settle_alerts c run err k then [(cj_id k, c, snd (snd (alert_of c err k)))] else [])"
      unfolding assms(4) \<open>k = j\<close> by (simp add: alert_of_def)
    with known_counted [OF known [OF k], of c run err "snd (snd (alert_of c err k))" b a] have "known_alerts (?al @ al) (?g k)" by simp
    then show ?thesis using True assms(3) known_view [of "f (?g k)" "?g k"] by (simp add: tame_def)
  next
    case False
    then show ?thesis using known [OF k] assms(4) i known_other [of k i al ?al] by (simp add: alert_of_def)
  qed
  moreover have "alert_kept (s\<lparr>cr_unsaved := cr_unsaved s @ al\<rparr>) = known_alerts (?al @ al)" by (simp add: alert_kept_def)
  ultimately show ?thesis unfolding list_all_iff set_map by (auto simp only:)
qed

lemma inv_settle_run:
  assumes "cron_inv s" "current_run i s = Some run"
  shows "cron_inv (retire_run i (save_store (settle_run a b c run out e i s)))"
proof -
  obtain j where j: "find_job i s = Some j" using run_has_job [OF assms] by blast
  define g where "g = settle_job a b c run (run_error out)"
  define al where "al = (if settle_alerts c run (run_error out) j then [alert_of c (run_error out) j] else [])"
  have gid: "cj_id (g k) = cj_id k" for k by (simp add: g_def settle_job_kept)
  have "find_job i ((change_job i g s)\<lparr>cr_unsaved := cr_unsaved s @ al\<rparr>) = Some (g j)"
    using find_job_change [of g, OF gid, of i i s] find_job_Some [OF j] j by (simp add: find_job_def)
  from archive_run_shape [OF this, of run a e] obtain f ms where f: "tame f"
      and ms: "ms = [] \<or> (\<exists>m. ms = [m] \<and> rm_run_id m = rr_run_id run \<and> rm_job_id m = i)"
      and shape: "archive_run a run e i ((change_job i g s)\<lparr>cr_unsaved := cr_unsaved s @ al\<rparr>) =
        (change_job i f ((change_job i g s)\<lparr>cr_unsaved := cr_unsaved s @ al\<rparr>))\<lparr>cr_archive := cr_archive s @ ms\<rparr>"
    by (auto simp: change_job_def)
  define ks where "ks = map (\<lambda>k. if cj_id k = i then f (g k) else k) (cr_jobs s)"
  have "settle_run a b c run out e i s = archive_run a run e i ((change_job i g s)\<lparr>cr_unsaved := cr_unsaved s @ al\<rparr>)"
    by (simp add: settle_run_def j al_def g_def Let_def)
  also have "\<dots> = s\<lparr>cr_jobs := ks, cr_archive := cr_archive s @ ms, cr_unsaved := cr_unsaved s @ al\<rparr>"
    unfolding shape change_job_unsaved change_job_twice [of g, OF gid] by (simp add: change_job_def ks_def comp_def)
  finally have "settle_run a b c run out e i s = s\<lparr>cr_jobs := ks, cr_archive := cr_archive s @ ms, cr_unsaved := cr_unsaved s @ al\<rparr>" .
  moreover have "map cj_id ks = map cj_id (cr_jobs s)" using gid tame_id [OF f] by (simp add: ks_def)
  moreover have "list_all in_step ks" using assms(1) f settle_job_kept(2)
    by (auto simp: ks_def list_all_iff cron_inv_def tame_def g_def)
  moreover have "list_all (alert_kept (s\<lparr>cr_unsaved := cr_unsaved s @ al\<rparr>)) ks"
  proof (rule alert_kept_views [OF _ alerts_settled [OF assms(1) j _ al_def, of id b a]])
    have "alert_view (f (g k)) = alert_view (count_result b c (rr_manual run) (run_error out) (note_result a run (run_error out) k))" for k
      using f settle_job_shape [of a b c run "run_error out" k] by (auto simp: tame_def g_def)
    then show "map alert_view ks = map alert_view (map (\<lambda>k. if cj_id k = i then id (count_result b c (rr_manual run) (run_error out)
        (note_result a run (run_error out) k)) else k) (cr_jobs s))" by (simp add: ks_def)
  qed (simp add: tame_def)
  ultimately show ?thesis using inv_settled [OF assms(1,2)] ms by simp
qed

lemma inv_end_run: "cron_inv (retire_run i (save_store s)) \<Longrightarrow> cron_inv (end_run tell now run out i s)"
  using inv_publish by (auto simp: end_run_def Let_def split: option.split)

lemma inv_finish_run: "cron_inv s \<Longrightarrow> cron_inv (finish_run a b c out e i s)"
  using inv_settle_run [of s i _ a b c out e] by (auto simp: finish_run_def split: option.split intro!: inv_end_run)

text \<open>The job and its record are written at the end of a run.\<close>

lemma inv_recorded:
  assumes "cron_inv s" "current_run i s = Some run" "tame g"
  shows "cron_inv (retire_run i (save_store (archive_run now run e i (change_job i g s))))"
proof -
  obtain j where j: "find_job i s = Some j" using run_has_job [OF assms(1,2)] by blast
  note gid = tame_id [OF assms(3)]
  have "find_job i (change_job i g s) = Some (g j)" using find_job_change [of g, OF gid, of i i s] find_job_Some [OF j] j by simp
  from archive_run_shape [OF this, of run now e] obtain f ms where f: "tame f"
      and ms: "ms = [] \<or> (\<exists>m. ms = [m] \<and> rm_run_id m = rr_run_id run \<and> rm_job_id m = i)"
      and shape: "archive_run now run e i (change_job i g s) = (change_job i f (change_job i g s))\<lparr>cr_archive := cr_archive s @ ms\<rparr>"
    by (auto simp: change_job_def)
  define ks where "ks = map (\<lambda>k. if cj_id k = i then f (g k) else k) (cr_jobs s)"
  have "tame (\<lambda>k. if cj_id k = i then f (g k) else k)" using f assms(3) by (simp add: tame_def)
  note ks = tame_mapped [OF this, of "cr_jobs s", folded ks_def]
  have "archive_run now run e i (change_job i g s) =
      s\<lparr>cr_jobs := ks, cr_archive := cr_archive s @ ms, cr_unsaved := cr_unsaved s\<rparr>"
    unfolding shape by (simp add: ks_def change_job_twice [of g, OF gid]) (simp add: change_job_def comp_def)
  moreover have "list_all (alert_kept (s\<lparr>cr_unsaved := cr_unsaved s\<rparr>)) ks"
    using alert_kept_views [OF ks(1)] assms(1) by (simp add: cron_inv_def)
  ultimately show ?thesis
    using inv_settled [OF assms(1,2) views_ids [OF ks(1)] ks(2) _ ms, of "cr_unsaved s"] assms(1) by (simp add: cron_inv_def)
qed

lemma change_job_id [simp]: "change_job i (\<lambda>j. j) s = s"
  by (simp add: change_job_def)

lemma inv_close_run:
  assumes "cron_inv s"
  shows "cron_inv (close_run e i s)"
proof -
  have "cron_inv (end_run tell now run out i (archive_run now run e i (if rr_manual run then s else change_job i (use_slot now) s)))"
    if "current_run i s = Some run" for now run out tell
    using inv_recorded [OF assms that tame_use_slot] inv_recorded [OF assms that, of "\<lambda>j. j"] by (intro inv_end_run) (simp add: tame_def)
  then show ?thesis using assms by (simp add: close_run_def split: option.split prod.split)
qed

text \<open>A run that waits for its alert: the file may know less than the memory.\<close>

lemma inv_send_alert:
  assumes "cron_inv s" "i \<in> set (cr_owned s)"
  shows "cron_inv (send_alert a c out i s)"
proof -
  define err where "err = run_error out"
  have "cron_inv ((change_job i g s)\<lparr>cr_active := cr_active (rebase i r s), cr_unsaved := cr_unsaved s @ [alert_of c err j]\<rparr>)" (is "cron_inv ?t")
    if run: "current_run i s = Some run" "find_job i s = Some j" "rr_alerted run = None" "settle_alerts c run err j"
      and g: "g = (\<lambda>k. count_result c c (rr_manual run) err (note_result a run err k))" and r: "r = run\<lparr>rr_alerted := Some w\<rparr>" for run j g r w
  proof -
    note inv = assms(1) [unfolded cron_inv_def]
    have view: "map saved_view (cr_jobs ?t) = map saved_view (cr_jobs s)" by (simp add: change_job_def saved_view_def g count_result_kept)
    have im: "cj_id ` set (cr_jobs ?t) = cj_id ` set (cr_jobs s)" using saved_ids [OF view] by (metis set_map)
    have act: "map fst (cr_active (rebase i r s)) = map fst (cr_active s)"
        "map (\<lambda>kv. rr_run_id (snd kv)) (cr_active (rebase i r s)) = map (\<lambda>kv. rr_run_id (snd kv)) (cr_active s)"
      using rebase_active [OF _ run(1), of r] inv r by (auto simp: runs_apart_def)
    have act': "fst ` set (cr_active (rebase i r s)) = fst ` set (cr_active s)" using act(1) by (metis set_map)
    have f: "cr_owned ?t = cr_owned s" "cr_waiting ?t = cr_waiting s" "cr_archive ?t = cr_archive s" "cr_active ?t = cr_active (rebase i r s)"
      by (simp_all add: change_job_def)
    have "runs_apart ?t" using inv unfolding runs_apart_def im f act act' by blast
    moreover have "file_agrees ?t" using inv view by (auto simp: file_agrees_def change_job_def split: option.splits)
    moreover have "list_all in_step (cr_jobs ?t)" using inv by (auto simp: list_all_iff change_job_def g count_result_kept)
    moreover have "list_all (alert_kept ?t) (cr_jobs ?t)"
      using alerts_settled [OF assms(1) run(2) _ refl, of "\<lambda>j. j" c run err c a] run(4) by (simp add: tame_def alert_kept_def change_job_def g)
    moreover have new: "i \<notin> fst ` set (cr_unsaved s)" using inv run(1,3) by (auto simp: alerts_pending_def alerting_def)
    have still: "alerting k ?t" if "k = i \<or> alerting k s" for k
      using that assms(2) run(1) r by (auto simp: alerting_def current_run_def rebase_def map_of_map_if change_job_def)
    have "map fst (cr_unsaved ?t) = map fst (cr_unsaved s) @ [i]" using find_job_Some [OF run(2)] by (simp add: alert_of_def)
    then have "alerts_pending ?t" using inv new still unfolding alerts_pending_def by (auto simp: image_Un simp flip: set_map)
    moreover have "losses_bounded ?t" using inv by (simp add: losses_bounded_def change_job_def)
    moreover have "distinct (map cj_id (cr_jobs ?t))" using inv saved_ids [OF view] by metis
    ultimately show ?thesis unfolding cron_inv_def by blast
  qed
  note sent = this [of _ _ _ _ "(a, out)", OF _ _ _ _ refl refl, unfolded rebase_def]
  show ?thesis
  proof (cases "\<exists>run j. current_run i s = Some run \<and> find_job i s = Some j \<and> rr_alerted run = None \<and> settle_alerts c run err j")
    case True
    then obtain run j where "current_run i s = Some run" "find_job i s = Some j" "rr_alerted run = None" "settle_alerts c run err j" by blast
    then show ?thesis using sent [of run j] by (simp add: send_alert_def err_def [symmetric] Let_def)
  next
    case False
    then have "send_alert a c out i s = s" by (auto simp: send_alert_def err_def [symmetric] Let_def split: option.split)
    then show ?thesis using assms(1) by simp
  qed
qed

lemma inv_persist_cancelled:
  "cron_inv s \<Longrightarrow> current_run i s = Some run \<Longrightarrow> cron_inv (retire_run i (persist_cancelled_run now run e i s))"
  unfolding persist_cancelled_run_def by (rule inv_recorded [OF _ _ tame_cancel_job])

lemma inv_cancel_run: "cron_inv s \<Longrightarrow> cron_inv (cancel_run now e i s)"
  using inv_persist_cancelled [of s i _ now e] inv_publish by (auto simp: cancel_run_def Let_def split: option.split)
section \<open>The start of a run\<close>

lemma file_agrees_cong:
  "cr_file t = cr_file s \<Longrightarrow> cr_jobs t = cr_jobs s \<Longrightarrow> cr_alerts t = cr_alerts s \<Longrightarrow> file_agrees t = file_agrees s"
  by (simp add: file_agrees_def split: option.split)

lemma inv_start_run:
  assumes "cron_inv s"
  shows "cron_inv (snd (start_run now e i s))"
proof (cases "current_run i s = None \<or> find_job i s = None \<or> i \<in> set (cr_owned s)")
  case True
  then show ?thesis using assms by (auto simp: start_run_def split: option.splits)
next
  case False
  then obtain run j where run: "current_run i s = Some run" and j: "find_job i s = Some j" and own: "i \<notin> set (cr_owned s)" by auto
  let ?r = "run_record (rr_started_at_ms run) (rr_run_id run) (rr_manual run) j"
  have base: "cron_inv (rebase i ?r s)" using inv_rebase [OF assms run _ own] by (simp add: run_record_def)
  have i: "i \<in> fst ` set (cr_active (rebase i ?r s))" 
  proof -
    have "map fst (cr_active (rebase i ?r s)) = map fst (cr_active s)" by (simp add: rebase_def)
    then have "fst ` set (cr_active (rebase i ?r s)) = fst ` set (cr_active s)" by (metis set_map)
    then show ?thesis using imageI [OF map_of_SomeD [OF run [unfolded current_run_def]], of fst] by simp
  qed
  have "cron_inv ((rebase i ?r s)\<lparr>cr_owned := cr_owned s @ [i]\<rparr>)" (is "cron_inv ?t")
  proof -
    have "runs_apart ?t" using base own i unfolding cron_inv_def runs_apart_def by (auto simp: rebase_def)
    moreover have "alerting k (rebase i ?r s) \<Longrightarrow> alerting k ?t" for k by (auto simp: alerting_def current_run_def rebase_def)
    then have "alerts_pending ?t" using base by (simp add: cron_inv_def alerts_pending_def)
    ultimately show ?thesis using base file_agrees_cong [of ?t "rebase i ?r s"] by (simp add: cron_inv_def) (simp add: losses_bounded_def)
  qed
  from inv_change_job [OF this tame_set_state, of "\<lambda>st. st\<lparr>js_last_delivery_error := None\<rparr>" i]
  have "cron_inv (change_job i (set_state (\<lambda>st. st\<lparr>js_last_delivery_error := None\<rparr>)) ((rebase i ?r s)\<lparr>cr_owned := cr_owned s @ [i]\<rparr>))"
    by simp
  then show ?thesis using run j own inv_cancel_run [OF base, of now e i]
    by (simp add: start_run_def rebase_def)
qed

lemma inv_reserve_run:
  assumes "cron_inv s" "cj_id j \<in> cj_id ` set (cr_jobs s)" "new_run_id r s" "reserve_run now r manual j s = Some (rec, t)"
  shows "cron_inv t" "current_run (cj_id j) t = Some rec" "rr_manual rec = manual" "cr_jobs t = cr_jobs s"
    "cr_owned t = cr_owned s" "cr_stopping t = cr_stopping s" "\<not> cr_stopping s"
proof -
  have t: "t = s\<lparr>cr_active := cr_active s @ [(cj_id j, rec)]\<rparr>" and rec: "rec = run_record now r manual j"
    and free: "current_run (cj_id j) s = None" and run: "\<not> cr_stopping s"
    using assms(4) by (auto simp: reserve_run_def Let_def split: if_splits)
  have k: "cj_id j \<notin> fst ` set (cr_active s)" using free by (simp add: current_run_def map_of_eq_None_iff)
  have "runs_apart t" using assms(1-3) k unfolding t rec cron_inv_def runs_apart_def new_run_id_def
    by (auto simp: run_record_def)
  moreover have "alerting i s \<Longrightarrow> alerting i t" for i using free by (auto simp: alerting_def t current_run_def map_add_def)
  then have "alerts_pending t" using assms(1) by (simp add: cron_inv_def alerts_pending_def) (simp add: t)
  ultimately show "cron_inv t" using assms(1) file_agrees_cong [of t s] by (simp add: cron_inv_def losses_bounded_def) (simp add: t)
  show "current_run (cj_id j) t = Some rec" using free by (simp add: t current_run_def map_add_def)
  show "rr_manual rec = manual" "cr_jobs t = cr_jobs s" "cr_owned t = cr_owned s" "cr_stopping t = cr_stopping s" "\<not> cr_stopping s"
    using run by (simp_all add: t rec run_record_def)
qed

lemma manual_target_in: "manual_target force i s = Some j \<Longrightarrow> cj_id j \<in> cj_id ` set (cr_jobs s)"
  by (auto simp: manual_target_def find_Some_iff split: option.splits if_splits)

lemma inv_reserve_manual: "cron_inv s \<Longrightarrow> new_run_id r s \<Longrightarrow> cron_inv (reserve_manual now r force i s)"
  by (auto simp: reserve_manual_def split: option.split intro: inv_reserve_run(1) [OF _ manual_target_in])

lemma inv_run_job: "cron_inv s \<Longrightarrow> new_run_id r s \<Longrightarrow> cron_inv (snd (run_job now r force i s))"
  by (auto simp: run_job_def split: option.split intro: inv_start_run inv_reserve_run(1) [OF _ manual_target_in])

section \<open>Passes\<close>

lemma inv_map_jobs: "cron_inv s \<Longrightarrow> tame f \<Longrightarrow> cron_inv (set_jobs (map f (cr_jobs s)) s)"
  using tame_mapped by (intro inv_set_jobs) (auto simp: cron_inv_def)

lemma inv_pass: "cron_inv (s\<lparr>cr_pass := p\<rparr>) = cron_inv s"
  by (rule inv_cong) simp_all

lemma inv_pass_start: "cron_inv s \<Longrightarrow> cron_inv (pass_start cal clock now s)"
  using inv_map_jobs [OF _ tame_fast_forward] inv_save by (auto simp: pass_start_def Let_def inv_pass)

lemma inv_advance: "cron_inv s \<Longrightarrow> cron_inv (advance_next_run cal now j s)"
  using inv_change_job [OF _ tame_set_next] inv_save by (auto simp: advance_next_run_def Let_def)

lemma advance_same:
  "cr_archive (advance_next_run cal now j s) = cr_archive s" "cr_active (advance_next_run cal now j s) = cr_active s"
  "cr_owned (advance_next_run cal now j s) = cr_owned s" "cr_waiting (advance_next_run cal now j s) = cr_waiting s"
  "cr_stopping (advance_next_run cal now j s) = cr_stopping s"
  by (simp_all add: advance_next_run_def save_store_def change_job_def Let_def)

lemma start_run_owns:
  assumes "current_run i s = Some run" "find_job i s = Some j" "\<not> cr_stopping s"
  shows "i \<in> set (cr_owned (snd (start_run now e i s)))"
  using assms by (simp add: start_run_def change_job_def)

lemma inv_waiting:
  assumes "cron_inv s" "i \<in> set (cr_owned s)"
  shows "cron_inv (s\<lparr>cr_waiting := Some i\<rparr>)" (is "cron_inv ?t")
proof -
  have "runs_apart ?t" using assms by (simp add: cron_inv_def runs_apart_def)
  moreover have "file_agrees ?t" using assms file_agrees_cong [of ?t s] by (simp add: cron_inv_def)
  moreover have "alerts_pending ?t" "losses_bounded ?t"
    using assms by (simp_all add: cron_inv_def alerts_pending_def alerting_def current_run_def losses_bounded_def)
  ultimately show ?thesis using assms(1) by (simp add: cron_inv_def)
qed

lemma inv_pass_fire:
  assumes "cron_inv s" "new_run_id r s"
  shows "cron_inv (pass_fire cal now now' r s)"
proof (cases "cr_waiting s \<noteq> None \<or> cr_stopping s \<or> cr_pass s = None \<or> cr_pass s = Some []")
  case True
  then show ?thesis using assms(1) inv_save by (auto simp: pass_fire_def inv_pass split: option.splits list.splits)
next
  case False
  then obtain i rest where p: "cr_waiting s = None" "\<not> cr_stopping s" "cr_pass s = Some (i # rest)" by (auto simp: neq_Nil_conv)
  define s0 where "s0 = s\<lparr>cr_pass := Some rest\<rparr>"
  have s0: "cron_inv s0" using assms(1) by (simp add: s0_def inv_pass)
  have fired: "cron_inv ((snd (start_run now None i s2))\<lparr>cr_waiting := Some i\<rparr>)"
    if "find_job i (advance_next_run cal now' j s0) = Some k" "reserve_run now r False k (advance_next_run cal now' j s0) = Some (rec, s2)"
    for j k rec s2
  proof -
    have k: "k \<in> set (cr_jobs (advance_next_run cal now' j s0))" "cj_id k = i" using find_job_Some [OF that(1)] by simp_all
    have "new_run_id r (advance_next_run cal now' j s0)" using assms(2) by (simp add: new_run_id_def advance_same s0_def)
    note res = inv_reserve_run [OF inv_advance [OF s0] imageI [OF k(1)] this that(2)]
    have "find_job i s2 = Some k" using that(1) res(4) by (simp add: find_job_def)
    then have "i \<in> set (cr_owned (snd (start_run now None i s2)))"
      using res(2,6,7) k(2) by (intro start_run_owns) auto
    then show ?thesis using inv_start_run [OF res(1), of now None i] by (intro inv_waiting)
  qed
  show ?thesis using p s0 fired inv_advance [OF s0]
    by (auto simp: pass_fire_def s0_def [symmetric] Let_def split: option.split)
qed

section \<open>Stopping, starting and reading the file\<close>

lemma inv_stop: "cron_inv s \<Longrightarrow> cron_inv (stop s)"
  using inv_cong [of "stop s" s] by (simp add: stop_def)

lemma inv_rebased_cancel:
  assumes "cron_inv s" "current_run i s = Some run" "i \<notin> set (cr_owned s)"
  shows "cron_inv (cancel_run now e i (s\<lparr>cr_active := map (\<lambda>kv. if fst kv = i then
    (i, run_record (rr_started_at_ms run) (rr_run_id run) (rr_manual run) j) else kv) (cr_active s)\<rparr>))"
proof -
  have "cron_inv (rebase i (run_record (rr_started_at_ms run) (rr_run_id run) (rr_manual run) j) s)"
    by (rule inv_rebase [OF assms(1,2) _ assms(3)]) (simp add: run_record_def)
  from inv_cancel_run [OF this] show ?thesis by (simp add: rebase_def)
qed

lemma inv_retire_reservations: "cron_inv s \<Longrightarrow> cron_inv (retire_reservations now is s)"
proof (induction "is" arbitrary: s)
  case (Cons i rest)
  have "cron_inv (case (current_run i s, find_job i s) of
        (Some run, Some j) \<Rightarrow> if i \<in> set (cr_owned s) then s
          else cancel_run now None i (s\<lparr>cr_active := map (\<lambda>kv. if fst kv = i then
            (i, run_record (rr_started_at_ms run) (rr_run_id run) (rr_manual run) j) else kv) (cr_active s)\<rparr>)
      | (Some _, None) \<Rightarrow> retire_run i s
      | _ \<Rightarrow> s)"
    using Cons.prems run_has_job [OF Cons.prems, of i] inv_rebased_cancel [OF Cons.prems]
    by (cases "current_run i s"; cases "find_job i s") auto
  then show ?case unfolding retire_reservations.simps by (rule Cons.IH)
qed simp

lemma inv_shutdown: "cron_inv s \<Longrightarrow> cron_inv (shutdown now s)"
  by (simp add: shutdown_def Let_def inv_retire_reservations inv_stop)

text \<open>The file has the jobs of the memory: the records make no new ones.\<close>

lemma recover_jobs_kept:
  assumes "rm_job_id ` set ms \<subseteq> cj_id ` set js"
  shows "map alert_view (recover_jobs now ms js) = map alert_view js" "list_all in_step js \<Longrightarrow> list_all in_step (recover_jobs now ms js)"
proof -
  have "filter (\<lambda>i. i \<notin> cj_id ` set js) (remdups (map rm_job_id ms)) = []" using assms by (auto simp: filter_empty_conv)
  then have r: "recover_jobs now ms js = map (\<lambda>j. case latest_record (cj_id j) ms of None \<Rightarrow> j | Some m \<Rightarrow> replay_record m j) js"
    by (simp add: recover_jobs_def)
  have "tame (\<lambda>j. case latest_record (cj_id j) ms of None \<Rightarrow> j | Some m \<Rightarrow> replay_record m j)"
    using tame_replay by (auto simp: tame_def split: option.split)
  from tame_mapped [OF this] show "map alert_view (recover_jobs now ms js) = map alert_view js"
      "list_all in_step js \<Longrightarrow> list_all in_step (recover_jobs now ms js)"
    unfolding r by auto
qed

lemma stored_in_step: "list_all in_step (map stored_form js)"
  by (auto simp: list_all_iff stored_form_def in_step_def)

lemma load_jobs_kept:
  assumes "cron_inv s" "load_jobs now (cr_file s) (cr_archive s) = Some jobs"
  shows "map saved_view jobs = map saved_view (cr_jobs s)" "list_all in_step jobs" "list_all (known_alerts (cr_alerts s)) jobs"
proof -
  obtain js where js: "jobs = recover_jobs now (cr_archive s) js" "map saved_view js = map saved_view (cr_jobs s)" "list_all in_step js"
    "list_all (known_alerts (cr_alerts s)) js"
  proof (cases "cr_file s")
    case None
    then show ?thesis using that [of "[]"] assms by (simp add: load_jobs_def cron_inv_def file_agrees_def)
  next
    case (Some v)
    then obtain saved where v: "v = store_json saved" "map saved_view saved = map saved_view (cr_jobs s)"
        "list_all (known_alerts (cr_alerts s)) saved"
      using assms(1) by (auto simp: cron_inv_def file_agrees_def)
    have st: "map alert_view (map stored_form saved) = map alert_view saved" by (rule tame_mapped(1) [OF tame_stored])
    show ?thesis using that [of "map stored_form saved"] v(1,2) views_saved [OF st] known_views [OF st v(3)] Some assms(2) stored_in_step
      by (simp add: load_jobs_def read_store_json)
  qed
  have "cj_id ` set js = cj_id ` set (cr_jobs s)" using saved_ids [OF js(2)] by (metis set_map)
  then have "rm_job_id ` set (cr_archive s) \<subseteq> cj_id ` set js" using assms(1) by (simp add: cron_inv_def runs_apart_def)
  note kept = recover_jobs_kept [OF this, of now, folded js(1)]
  show "map saved_view jobs = map saved_view (cr_jobs s)" using views_saved [OF kept(1)] js(2) by simp
  show "list_all in_step jobs" using kept(2) js(3) by simp
  show "list_all (known_alerts (cr_alerts s)) jobs" using known_views [OF kept(1) js(4)] .
qed

text \<open>A new process knows the alerts of the file; each job may have lost the one that was on its way.\<close>

lemma losses_restarted:
  assumes "losses_bounded s" "alerts_pending s"
  shows "length (filter (\<lambda>a. fst a = i) (cr_lost s @ cr_unsaved s)) \<le> cr_restarts s + 1"
proof -
  have d: "distinct (map fst (cr_unsaved s))" using assms(2) by (simp add: alerts_pending_def)
  have "length (filter (\<lambda>a. fst a = i) (cr_unsaved s)) \<le> 1"
  proof -
    have "set (map fst (filter (\<lambda>a. fst a = i) (cr_unsaved s))) \<subseteq> {i}" by auto
    moreover have "distinct (map fst (filter (\<lambda>a. fst a = i) (cr_unsaved s)))" using d by (simp add: distinct_map_filter)
    ultimately have "length (map fst (filter (\<lambda>a. fst a = i) (cr_unsaved s))) \<le> card {i}"
      using distinct_card card_mono [of "{i}"] by (metis finite.emptyI finite.insertI)
    then show ?thesis by simp
  qed
  moreover have "length (filter (\<lambda>a. fst a = i) (cr_lost s)) \<le> cr_restarts s" using assms(1) by (simp add: losses_bounded_def)
  ultimately show ?thesis by simp
qed

lemma inv_restart:
  assumes "cron_inv s"
  shows "cron_inv (restart cal now s)"
proof (cases "load_jobs now (cr_file s) (cr_archive s)")
  case (Some jobs)
  define ks where "ks = map (recompute_one cal now) jobs"
  define t where "t = s\<lparr>cr_jobs := ks, cr_active := [], cr_owned := [], cr_running := True, cr_stopping := False, cr_pass := None,
      cr_waiting := None, cr_unsaved := [], cr_lost := cr_lost s @ cr_unsaved s, cr_restarts := cr_restarts s + 1\<rparr>"
  note load = load_jobs_kept [OF assms Some]
  have view: "map alert_view ks = map alert_view jobs" "list_all in_step ks"
    using tame_mapped [OF tame_recompute [of cal now], of jobs] load(2) by (auto simp: ks_def)
  have ids: "map cj_id ks = map cj_id (cr_jobs s)" using views_ids [OF view(1)] saved_ids [OF load(1)] by simp
  then have ids': "cj_id ` set ks = cj_id ` set (cr_jobs s)" by (metis set_map)
  have "cron_inv (save_store t)"
  proof (rule inv_saved)
    show "distinct (map cj_id (cr_jobs t))" using assms ids by (simp add: t_def cron_inv_def)
    show "list_all in_step (cr_jobs t)" using view(2) by (simp add: t_def)
    show "runs_apart t" using assms ids' by (simp add: t_def cron_inv_def runs_apart_def)
    show "list_all (alert_kept t) (cr_jobs t)" using known_views [OF view(1) load(3)] by (simp add: t_def alert_kept_def)
    show "losses_bounded t" using assms losses_restarted [of s]
      unfolding losses_bounded_def cron_inv_def by (simp add: t_def losses_bounded_def)
  qed
  then show ?thesis using Some by (simp add: restart_def t_def ks_def recompute_next_runs_def)
qed (simp add: restart_def assms)

lemma keep_active_cases:
  assumes "map saved_view fresh = map saved_view js" "distinct (map cj_id js)" "set act \<subseteq> set js"
  obtains f where "keep_active act fresh = map f fresh" "\<And>j. j \<in> set fresh \<Longrightarrow> saved_view (f j) = saved_view j"
    "\<And>j. j \<in> set fresh \<Longrightarrow> f j \<in> set act \<or> f j = j \<and> cj_id j \<notin> cj_id ` set act"
proof -
  let ?f = "\<lambda>j. case find (\<lambda>a. cj_id a = cj_id j) act of None \<Rightarrow> j | Some a \<Rightarrow> a"
  have ids: "map cj_id fresh = map cj_id js" using assms(1) by (rule saved_ids)
  then have "cj_id ` set fresh = cj_id ` set js" by (metis set_map)
  then have "filter (\<lambda>a. cj_id a \<notin> cj_id ` set fresh) act = []" using assms(3) by (auto simp: filter_empty_conv)
  then have k: "keep_active act fresh = map ?f fresh" by (simp add: keep_active_def)
  have view: "saved_view a = saved_view j" if "a \<in> set js" "j \<in> set fresh" "cj_id a = cj_id j" for a j
  proof -
    have "saved_view j \<in> set (map saved_view js)" using that(2) assms(1) by (metis image_eqI set_map)
    then obtain b where b: "b \<in> set js" "saved_view b = saved_view j" by auto
    then have "cj_id b = cj_id a" using that(3) by (simp add: saved_view_def)
    then have "b = a" using b(1) that(1) assms(2) by (metis distinct_map inj_onD)
    with b(2) show ?thesis by simp
  qed
  have find: "a \<in> set act \<and> cj_id a = cj_id j" if "find (\<lambda>a. cj_id a = cj_id j) act = Some a" for a j
    using that by (auto simp: find_Some_iff)
  show ?thesis
  proof (rule that [OF k])
    show "saved_view (?f j) = saved_view j" if "j \<in> set fresh" for j
    proof (cases "find (\<lambda>a. cj_id a = cj_id j) act")
      case (Some a)
      with find [OF Some] view [of a j] that assms(3) show ?thesis by auto
    qed simp
    show "?f j \<in> set act \<or> ?f j = j \<and> cj_id j \<notin> cj_id ` set act" if "j \<in> set fresh" for j
    proof (cases "find (\<lambda>a. cj_id a = cj_id j) act")
      case None
      then have "cj_id j \<notin> cj_id ` set act" unfolding find_None_iff by (metis imageE)
      with None show ?thesis by simp
    next
      case (Some a)
      with find [OF Some] show ?thesis by simp
    qed
  qed
qed

lemma known_saved: "cj_id j \<notin> fst ` set bs \<Longrightarrow> known_alerts (al @ bs) j = known_alerts al j"
proof -
  assume "cj_id j \<notin> fst ` set bs"
  then have "filter (\<lambda>a. fst a = cj_id j) bs = []" by (force simp: filter_empty_conv)
  then show ?thesis by (simp add: known_alerts_def Let_def)
qed

lemma inv_reload:
  assumes "cron_inv s"
  shows "cron_inv (reload cal now s)"
proof (cases "load_jobs now (cr_file s) (cr_archive s)")
  case (Some jobs)
  note inv = assms [unfolded cron_inv_def]
  let ?act = "filter (\<lambda>j. current_run (cj_id j) s \<noteq> None) (cr_jobs s)"
  note load = load_jobs_kept [OF assms Some]
  obtain f where f: "keep_active ?act jobs = map f jobs" "\<And>j. j \<in> set jobs \<Longrightarrow> saved_view (f j) = saved_view j"
      "\<And>j. j \<in> set jobs \<Longrightarrow> f j \<in> set ?act \<or> f j = j \<and> cj_id j \<notin> cj_id ` set ?act"
    by (rule keep_active_cases [OF load(1), of ?act]) (use inv in auto)
  have idle: "cj_id j \<notin> fst ` set (cr_unsaved s)" if "j \<in> set jobs" "cj_id j \<notin> cj_id ` set ?act" for j
  proof
    assume "cj_id j \<in> fst ` set (cr_unsaved s)"
    then have "current_run (cj_id j) s \<noteq> None" using inv by (auto simp: alerts_pending_def alerting_def)
    moreover have "cj_id j \<in> cj_id ` set (cr_jobs s)" using that(1) saved_ids [OF load(1)] by (metis imageI set_map)
    ultimately show False using that(2) by auto
  qed
  have kept: "in_step (f j) \<and> alert_kept s (f j)" if j: "j \<in> set jobs" for j
    using f(3) [OF j] idle [OF j] load(2,3) j inv by (auto simp: list_all_iff alert_kept_def known_saved)
  define ks where "ks = map (recompute_one cal now) (keep_active ?act jobs)"
  have "list_all in_step (map f jobs)" using kept by (simp add: list_all_iff)
  note view = tame_mapped(1) [OF tame_recompute [of cal now], of "map f jobs", folded f(1), folded ks_def, unfolded f(1)]
    tame_mapped(2) [OF tame_recompute [of cal now] this, folded f(1), folded ks_def]
  have "map cj_id ks = map cj_id (map f jobs)" using views_ids [OF view(1)] .
  also have "\<dots> = map cj_id jobs" using f(2) by (simp add: saved_view_def)
  finally have ids: "map cj_id ks = map cj_id (cr_jobs s)" using saved_ids [OF load(1)] by simp
  then have ids': "cj_id ` set ks = cj_id ` set (cr_jobs s)" by (metis set_map)
  have "list_all (alert_kept s) ks" by (rule alert_kept_views [OF view(1)]) (use kept in \<open>simp add: list_all_iff\<close>)
  then have "cron_inv (save_store (set_jobs ks s))" using inv ids view(2) runs_apart_jobs [OF ids']
    by (intro inv_saved) (simp_all add: set_jobs_def losses_bounded_def)
  then show ?thesis using Some by (simp add: reload_def ks_def recompute_next_runs_def)
qed (simp add: reload_def assms)

section \<open>Jobs that come and go\<close>

lemma add_job_cases:
  assumes "add_job cal i now r js = Inr (j, ks)"
  shows "ks = js @ [j]" "j = make_job i now (compute_next_run cal (jr_schedule r) now) r"
  using assms by (auto simp: add_job_def Let_def split: if_splits option.splits)

lemma inv_add:
  assumes "cron_inv s" "new_job_id i s"
  shows "cron_inv (add_to_schedule cal i now r s)"
proof (cases "add_job cal i now r (cr_jobs s)")
  case (Inr p)
  obtain j ks where p: "p = (j, ks)" by (cases p)
  note add = add_job_cases [OF Inr [unfolded p]]
  have j: "cj_id j = i" "in_step j" "js_last_alert_at_ms (cj_state j) = None"
    by (simp_all add: add(2) make_job_def in_step_def new_state_def Let_def)
  have "filter (\<lambda>a. fst a = i) (cr_alerts s @ cr_unsaved s) = []" using assms(2) by (force simp: new_job_id_def filter_empty_conv)
  then have "alert_kept s j" by (simp add: alert_kept_def known_alerts_def j)
  moreover have "runs_apart (set_jobs ks s)" using assms(1) by (auto simp: cron_inv_def runs_apart_def set_jobs_def add(1))
  ultimately have "cron_inv (save_store (set_jobs ks s))"
    using assms j by (intro inv_saved) (simp_all add: cron_inv_def losses_bounded_def set_jobs_def add(1) new_job_id_def)
  then show ?thesis using Inr p by (simp add: add_to_schedule_def)
qed (simp add: add_to_schedule_def assms)

lemma inv_purge:
  assumes "cron_inv s" "gone \<inter> fst ` set (cr_active s) = {}"
  shows "cron_inv (save_store (s\<lparr>cr_archive := filter (\<lambda>m. rm_job_id m \<notin> gone) (cr_archive s),
    cr_jobs := filter (\<lambda>j. cj_id j \<notin> gone) (cr_jobs s)\<rparr>))" (is "cron_inv (save_store ?t)")
proof -
  note inv = assms(1) [unfolded cron_inv_def runs_apart_def]
  have act: "fst ` set (cr_active s) \<subseteq> cj_id ` set (cr_jobs s)" and arch: "rm_job_id ` set (cr_archive s) \<subseteq> cj_id ` set (cr_jobs s)"
    and ids: "distinct (map rm_run_id (cr_archive s))" "rm_run_id ` set (cr_archive s) \<inter> (\<lambda>kv. rr_run_id (snd kv)) ` set (cr_active s) = {}"
    using inv by simp_all
  have left: "k \<in> cj_id ` set (cr_jobs ?t)" if "k \<in> cj_id ` set (cr_jobs s)" "k \<notin> gone" for k using that by auto
  have "fst ` set (cr_active s) \<subseteq> cj_id ` set (cr_jobs ?t)" using act assms(2) left by blast
  moreover have "rm_job_id ` set (cr_archive ?t) \<subseteq> cj_id ` set (cr_jobs ?t)" using arch left by auto
  moreover have "distinct (map rm_run_id (cr_archive ?t))" using ids(1) by (simp add: distinct_map_filter)
  moreover have "rm_run_id ` set (cr_archive ?t) \<inter> (\<lambda>kv. rr_run_id (snd kv)) ` set (cr_active s) = {}" using ids(2) by auto
  ultimately have "runs_apart ?t" using inv by (simp add: runs_apart_def)
  moreover have "distinct (map cj_id (cr_jobs ?t))" "list_all in_step (cr_jobs ?t)" "list_all (alert_kept s) (cr_jobs ?t)"
    using inv by (auto simp: distinct_map_filter list_all_iff)
  ultimately show ?thesis using inv by (intro inv_saved) (simp_all add: losses_bounded_def)
qed

lemma inv_drop:
  assumes "cron_inv s"
  shows "cron_inv (drop_from_schedule now i purge s)"
proof (cases "remove_job now (map fst (cr_active s)) i purge (cr_jobs s)")
  case (Some ks)
  define hit where "hit = (\<lambda>j :: cron_job. cj_id j = i \<or> cj_name j = i)"
  define gone where "gone = cj_id ` set (filter hit (cr_jobs s))"
  show ?thesis
  proof (cases purge)
    case True
    have "list_ex (\<lambda>j. (cj_id j = i \<or> cj_name j = i) \<and> cj_id j = rm_job_id m) (cr_jobs s) \<longleftrightarrow> rm_job_id m \<in> gone" for m :: run_meta
      by (force simp: gone_def hit_def list_ex_iff)
    moreover have "ks = filter (\<lambda>j. cj_id j \<notin> gone) (cr_jobs s)" and idle: "\<not> list_ex (\<lambda>j. cj_id j \<in> fst ` set (cr_active s)) (filter hit (cr_jobs s))"
      using Some True by (auto simp: remove_job_def Let_def gone_def hit_def split: if_splits)
    moreover have "gone \<inter> fst ` set (cr_active s) = {}" using idle unfolding gone_def list_ex_iff by blast
    ultimately show ?thesis using inv_purge [OF assms, of gone] Some True by (simp add: drop_from_schedule_def set_jobs_def)
  next
    case False
    have "tame (\<lambda>j. if cj_id j = i \<or> cj_name j = i then archive_job now j else j)" using tame_archive_job by (simp add: tame_def)
    from inv_save [OF inv_map_jobs [OF assms this]] show ?thesis
      using Some False by (auto simp: drop_from_schedule_def remove_job_def Let_def split: if_splits)
  qed
qed (simp add: drop_from_schedule_def assms)

section \<open>All operations\<close>

lemma cron_step_inv:
  assumes "cron_step cal s t" "cron_inv s"
  shows "cron_inv t"
  using assms
proof (cases rule: cron_step.cases)
  case (updates now stamp i u)
  then show ?thesis using inv_apply_change [OF assms(2) tame_update] by (simp add: update_job_def)
next
  case (retargeted now i channel target)
  then show ?thesis using inv_apply_change [OF assms(2), of "\<lambda>j. (Saved, _ j)"] tame_target
    by (simp add: update_delivery_target_def)
next
  case (delivery i e)
  then show ?thesis using inv_apply_change [OF assms(2), of "\<lambda>j. (Saved, set_state (\<lambda>s. s\<lparr>js_last_delivery_error := e\<rparr>) j)"]
      tame_set_state by (simp add: mark_delivery_error_def)
next
  case (switched now i on)
  then show ?thesis using inv_apply_change [OF assms(2) tame_switch(1)] inv_apply_change [OF assms(2) tame_switch(2)]
    by (simp add: enable_job_def)
qed (simp_all add: assms(2) inv_add inv_drop inv_reserve_manual inv_run_job inv_start_run inv_finish_run inv_send_alert inv_close_run inv_cancel_run
  inv_pass_start inv_pass_fire inv_stop inv_shutdown inv_restart inv_reload)

lemma cron_inv_empty: "cron_inv empty_cron"
  by (simp add: cron_inv_def runs_apart_def file_agrees_def alerts_pending_def losses_bounded_def empty_cron_def)

interpretation cron: guarded_system "\<lambda>s. s = empty_cron" "cron_step cal" cron_inv for cal
  using cron_inv_empty cron_step_inv by unfold_locales auto

section \<open>A job that is taken up\<close>

text \<open>The job as a pass takes it up.\<close>

definition taken_up :: "calendar \<Rightarrow> int \<Rightarrow> cron_job \<Rightarrow> cron_job" where
  "taken_up cal now j = (let t = compute_next_run cal (cj_schedule j) now in
     if recurring j \<and> truthy_int t \<and> t \<noteq> next_run j then set_next t j else j)"

lemma advance_is_taken_up:
  "find_job (cj_id j) s = Some j \<Longrightarrow> find_job (cj_id j) (advance_next_run cal now j s) = Some (taken_up cal now j)"
  using find_job_change [of "set_next (compute_next_run cal (cj_schedule j) now)" "cj_id j" "cj_id j" s]
  by (simp add: advance_next_run_def taken_up_def Let_def save_store_def find_job_def)

lemma settle_job_cases:
  assumes "\<not> rr_manual run"
  obtains "will_retry False err j" "cj_repeat_completed (settle_job a b c run err j) = cj_repeat_completed j"
      "js_retry_attempt (cj_state (settle_job a b c run err j)) = js_retry_attempt (cj_state j) + 1"
      "cj_lifecycle (settle_job a b c run err j) = cj_lifecycle j"
    | "cj_repeat_completed (settle_job a b c run err j) = cj_repeat_completed j + 1"
      "js_retry_attempt (cj_state (settle_job a b c run err j)) = 0"
      "cj_lifecycle (settle_job a b c run err j) =
        (if (cj_repeat_times j \<noteq> None \<and> the (cj_repeat_times j) \<le> cj_repeat_completed j + 1) \<or> cs_kind (cj_schedule j) = ''at''
         then Completed else cj_lifecycle j)"
proof (cases "will_retry False err j")
  case True
  moreover have "will_retry False err (note_result a run err j)" using True by (simp add: will_retry_def note_result_def set_state_def)
  ultimately show ?thesis using assms
    by (intro that(1)) (simp_all add: settle_job_def count_result_def note_result_def set_state_def Let_def)
next
  case False
  moreover have "\<not> will_retry False err (note_result a run err j)" using False by (simp add: will_retry_def note_result_def set_state_def)
  ultimately show ?thesis using assms
    by (intro that(2)) (auto simp: settle_job_def count_result_def note_result_def use_slot_def set_state_def set_next_def Let_def)
qed

lemma settle_job_same:
  "cj_repeat_times (settle_job a b c run err j) = cj_repeat_times j"
  "cj_retry_max_attempts (settle_job a b c run err j) = cj_retry_max_attempts j"
  by (simp_all add: settle_job_def count_result_def note_result_def use_slot_def set_state_def set_next_def Let_def)

section \<open>A new process after a crash\<close>

lemma find_map_id: "(\<And>j. cj_id (f j) = cj_id j) \<Longrightarrow> find (\<lambda>j. cj_id j = i) (map f js) = map_option f (find (\<lambda>j. cj_id j = i) js)"
  by (induction js) auto

lemma find_append_hit: "find P xs = Some x \<Longrightarrow> find P (xs @ ys) = Some x"
  by (induction xs) (auto split: if_splits)

definition replayed :: "run_meta list \<Rightarrow> cron_job \<Rightarrow> cron_job" where
  "replayed ms j = (case latest_record (cj_id j) ms of None \<Rightarrow> j | Some m \<Rightarrow> replay_record m j)"

lemma replayed_id: "cj_id (replayed ms j) = cj_id j"
  using tame_id [OF tame_replay] by (simp add: replayed_def split: option.split)

lemma restart_find:
  assumes "cr_file s = Some v" "read_store v = Some js" "find (\<lambda>j. cj_id j = i) js = Some j"
  shows "find_job i (restart cal now s) = Some (recompute_one cal now (replayed (cr_archive s) j))"
proof -
  have "find (\<lambda>j. cj_id j = i) (recover_jobs now (cr_archive s) js) = Some (replayed (cr_archive s) j)"
    unfolding recover_jobs_def replayed_def [symmetric]
    by (rule find_append_hit) (simp add: find_map_id [of "replayed _", OF replayed_id] assms(3))
  then show ?thesis using assms(1,2) find_map_id [of "recompute_one cal now", OF tame_id [OF tame_recompute]]
    by (simp add: restart_def load_jobs_def find_job_def save_store_def recompute_next_runs_def)
qed

text \<open>A fire of a recurring job: the file has its following time before the run starts.\<close>

lemma pass_fire_file:
  assumes "cr_pass s = Some (i # rest)" "current_run i s = None" "current_run i (pass_fire cal now now' r s) \<noteq> None"
    and "find_job i s = Some j" "recurring j" "compute_next_run cal (cj_schedule j) now' = Some t" "t \<noteq> 0" "now \<le> now'"
  shows "cr_file (pass_fire cal now now' r s) = Some (store_json (cr_jobs (change_job i (set_next (Some t)) s)))"
    "cr_archive (pass_fire cal now now' r s) = cr_archive s" "is_due now j"
proof -
  define s0 where "s0 = s\<lparr>cr_pass := Some rest\<rparr>"
  have go: "cr_waiting s = None" "\<not> cr_stopping s" and due: "is_due now j"
    using assms(1-4) by (auto simp: pass_fire_def current_run_def save_store_def Let_def split: if_splits)
  have i: "cj_id j = i" using find_job_Some [OF assms(4)] by simp
  have "now' < t" using assms(6) by (rule compute_next_run_future)
  then have "Some t \<noteq> next_run j" using due assms(8) by (cases "next_run j") (auto simp: is_due_def)
  then have s1: "advance_next_run cal now' j s0 = save_store (change_job i (set_next (Some t)) s0)"
    using assms(5-7) i by (simp add: advance_next_run_def)
  have k: "find_job i (advance_next_run cal now' j s0) = Some (taken_up cal now' j)"
    using advance_is_taken_up [of j s0] assms(4) i by (simp add: s0_def find_job_def)
  have "cj_id (taken_up cal now' j) = i" using i by (simp add: taken_up_def Let_def)
  then have "\<exists>rec s2. reserve_run now r False (taken_up cal now' j) (advance_next_run cal now' j s0) = Some (rec, s2) \<and>
      s2 = (advance_next_run cal now' j s0)\<lparr>cr_active := cr_active s @ [(i, rec)]\<rparr>"
    using go assms(2) by (simp add: reserve_run_def advance_same s0_def current_run_def Let_def)
  then obtain rec s2 where s2: "reserve_run now r False (taken_up cal now' j) (advance_next_run cal now' j s0) = Some (rec, s2)"
      "s2 = (advance_next_run cal now' j s0)\<lparr>cr_active := cr_active s @ [(i, rec)]\<rparr>" by blast
  have fire: "pass_fire cal now now' r s = (snd (start_run now None i s2))\<lparr>cr_waiting := Some i\<rparr>"
    using go assms(1,2,4) due k s2(1) by (simp add: pass_fire_def s0_def [symmetric] Let_def)
  have "cr_file (snd (start_run now None i s2)) = cr_file s2" "cr_archive (snd (start_run now None i s2)) = cr_archive s2"
    using go(2) by (auto simp: start_run_def s2(2) advance_same s0_def change_job_def split: option.split)
  then show "cr_file (pass_fire cal now now' r s) = Some (store_json (cr_jobs (change_job i (set_next (Some t)) s)))"
      "cr_archive (pass_fire cal now now' r s) = cr_archive s" "is_due now j"
    using due by (simp_all add: fire s2(2) s1) (simp_all add: save_store_def change_job_def s0_def)
qed

definition settled_record :: "string \<Rightarrow> cron \<Rightarrow> cron_job \<Rightarrow> bool" where
  "settled_record i s j = (case latest_record i (cr_archive s) of None \<Rightarrow> True
     | Some m \<Rightarrow> js_last_run_id (cj_state j) = Some (rm_run_id m) \<or> record_completed m < cj_updated_at_ms j)"

lemma replayed_settled:
  "settled_record (cj_id j) s j \<Longrightarrow> js_last_run_id (cj_state k) = js_last_run_id (cj_state j) \<Longrightarrow> cj_updated_at_ms k = cj_updated_at_ms j
    \<Longrightarrow> cj_id k = cj_id j \<Longrightarrow> replayed (cr_archive s) k = k"
  by (auto simp: replayed_def settled_record_def replay_record_def split: option.splits)

lemma recompute_recurring:
  assumes "recurring j" "in_step j" "cj_lifecycle j = Scheduled"
  shows "next_run (recompute_one cal now j) =
    (if 0 < js_retry_attempt (cj_state j) \<and> next_run j \<noteq> None then next_run j else compute_next_run cal (cj_schedule j) now)"
  using assms by (auto simp: recompute_one_def recurring_def in_step_def Let_def set_next_def set_state_def)

text \<open>The newest record, when it is the last one written.\<close>

lemma latest_of_snoc: "(\<And>x. x \<in> set xs \<Longrightarrow> newer m x) \<Longrightarrow> latest_of (xs @ [m]) = Some m"
  by (induction xs) auto

section \<open>An alert that is delivered undisturbed\<close>

text \<open>An alert that nothing comes in the way of: the two halves make the whole.\<close>

lemma filter_rebased: "filter (\<lambda>kv. fst kv \<noteq> i) (map (\<lambda>kv. if fst kv = i then (i, r) else kv) xs) = filter (\<lambda>kv. fst kv \<noteq> i) xs"
  by (induction xs) auto

lemma end_rebased:
  assumes "rr_run_id r = rr_run_id run" "rr_started_at_ms r = rr_started_at_ms run"
  shows "end_run tell a r out i (archive_run a r e i (rebase i r s)) = end_run tell a run out i (archive_run a run e i s)"
proof -
  have m: "meta_of a r j = meta_of a run j" "completion_of a r x y j = completion_of a run x y j" for x y j
    using assms by (simp_all add: meta_of_def completion_of_def)
  have "archive_run a r e i (rebase i r s) = rebase i r (archive_run a run e i s)"
    by (auto simp: archive_run_def rebase_def find_job_def change_job_def m split: option.split)
  moreover have "retire_run i (save_store (rebase i r t)) = retire_run i (save_store t)" for t
    by (simp add: retire_run_def save_store_def rebase_def filter_rebased)
  moreover have "find_job i (save_store (rebase i r t)) = find_job i (save_store t)" for t
    by (simp add: find_job_def save_store_def rebase_def)
  ultimately show ?thesis unfolding end_run_def Let_def m by presburger
qed

lemma alert_in_one_go:
  assumes "current_run i s = Some run" "find_job i s = Some j" "rr_alerted run = None" "settle_alerts c run (run_error out) j"
    and "distinct (map cj_id (cr_jobs s))"
  shows "close_run e i (send_alert a c out i s) = finish_run a b c out e i s"
proof -
  let ?err = "run_error out"
  let ?g = "\<lambda>k. count_result c c (rr_manual run) ?err (note_result a run ?err k)"
  let ?r = "run\<lparr>rr_alerted := Some (a, out)\<rparr>"
  define u where "u = (change_job i ?g s)\<lparr>cr_unsaved := cr_unsaved s @ [alert_of c ?err j]\<rparr>"
  have sent: "send_alert a c out i s = rebase i ?r u"
    using assms by (simp add: send_alert_def Let_def u_def rebase_def change_job_def)
  have run: "current_run i (rebase i ?r u) = Some ?r"
    using assms(1) by (simp add: rebase_def current_run_def map_of_map_if u_def change_job_def)
  define v where "v = (if rr_manual run then u else change_job i (use_slot a) u)"
  have v: "(if rr_manual run then rebase i ?r u else change_job i (use_slot a) (rebase i ?r u)) = rebase i ?r v"
    by (simp add: v_def rebase_def change_job_def)
  have "close_run e i (send_alert a c out i s) = end_run (e = None) a ?r out i (archive_run a ?r e i (rebase i ?r v))"
    using v by (simp add: sent close_run_def run)
  also have "\<dots> = end_run (e = None) a run out i (archive_run a run e i v)" by (rule end_rebased) simp_all
  also have "archive_run a run e i v = settle_run a b c run out e i s"
  proof -
    have same: "k = j" if "k \<in> set (cr_jobs s)" "cj_id k = i" for k using find_job_own [OF assms(5) that(1)] assms(2) that(2) by simp
    have retry: "\<not> will_retry (rr_manual run) ?err (note_result a run ?err j)" and err: "truthy ?err"
      using assms(4) by (auto simp: settle_alerts_def will_retry_def note_result_def set_state_def)
    then have one: "settle_job a b c run ?err j = (if rr_manual run then ?g j else use_slot a (?g j))"
      by (cases "rr_manual run") (simp_all add: settle_job_def count_result_def Let_def)
    have ks: "map (\<lambda>k. if cj_id k = i then (if rr_manual run then ?g k else use_slot a (?g k)) else k) (cr_jobs s) =
        map (\<lambda>k. if cj_id k = i then settle_job a b c run ?err k else k) (cr_jobs s)"
    proof (intro map_cong refl)
      fix k assume k: "k \<in> set (cr_jobs s)"
      show "(if cj_id k = i then (if rr_manual run then ?g k else use_slot a (?g k)) else k) =
          (if cj_id k = i then settle_job a b c run ?err k else k)"
      proof (cases "cj_id k = i")
        case True
        then show ?thesis unfolding same [OF k True] using one by simp
      qed simp
    qed
    have "cr_jobs v = map (\<lambda>k. if cj_id k = i then (if rr_manual run then ?g k else use_slot a (?g k)) else k) (cr_jobs s)"
      by (simp add: v_def u_def change_job_def count_result_kept)
    then have "v = (change_job i (settle_job a b c run ?err) s)\<lparr>cr_unsaved := cr_unsaved s @ [alert_of c ?err j]\<rparr>"
      unfolding ks by (auto simp: v_def u_def change_job_def split: if_splits)
    then show ?thesis using assms(2,4) by (simp add: settle_run_def Let_def)
  qed
  also have "end_run (e = None) a run out i (settle_run a b c run out e i s) = finish_run a b c out e i s"
    using assms(1-4) by (simp add: finish_run_def settle_alerts_def)
  finally show ?thesis .
qed

end
