(* ===== verification/Cron_Life.thy ===== *)
theory Cron_Life
  imports Cron_Facts
begin

text \<open>
  The life of one job with a limit: it is taken up by passes, run by hand, paused and resumed, moved past missed
  times, settled, cut off or stopped halfway by the death of the process, and loaded again from what the files then hold. The
  service is reduced to that job: what the memory has, what the jobs file has, how far its run is, and how many fires, runs by
  hand and deaths in the middle of a run there were. Its schedule, limit and retries are not edited, and the record that a new process
  replays is that of the run which ended last.
\<close>

section \<open>Steps\<close>

text \<open>A run waits for its callback, or for the delivery of its alert; or it is over, its record written or not, and the jobs
  file is about to be written.\<close>

datatype life_phase = Resting | Running run_rec | Alerting run_rec int | Writing "run_meta option"

record job_life =
  jl_job :: cron_job
  jl_file :: cron_job
  jl_phase :: life_phase
  jl_fires :: nat
  jl_crashes :: nat
  jl_by_hand :: nat

definition start_life :: "cron_job \<Rightarrow> job_life" where
  "start_life j = \<lparr>jl_job = j, jl_file = j, jl_phase = Resting, jl_fires = 0, jl_crashes = 0, jl_by_hand = 0\<rparr>"

fun writing :: "life_phase \<Rightarrow> bool" where
  "writing (Writing m) = True"
| "writing ph = False"

fun run_of :: "life_phase \<Rightarrow> run_rec option" where
  "run_of (Running run) = Some run"
| "run_of (Alerting run a) = Some run"
| "run_of ph = None"

text \<open>What the transcript's failure or success leaves in the job.\<close>

definition noted_output :: "string option \<Rightarrow> cron_job \<Rightarrow> cron_job" where
  "noted_output e = set_state (\<lambda>st. st\<lparr>js_last_output_error := e\<rparr>)"

text \<open>What the next process makes of the files.\<close>

definition reborn :: "calendar \<Rightarrow> int \<Rightarrow> job_life \<Rightarrow> cron_job" where
  "reborn cal now l = recompute_one cal now (case jl_phase l of
      Writing (Some m) \<Rightarrow> replay_record m (stored_form (jl_file l))
    | _ \<Rightarrow> stored_form (jl_file l))"

text \<open>What happens to a job beside its runs: a switch, a missed time, a delivery mark, a reading of its times anew.\<close>

inductive touch :: "calendar \<Rightarrow> cron_job \<Rightarrow> cron_job \<Rightarrow> bool" for cal where
  pause: "touch cal j (snd (pause_job now j))"
| resume: "touch cal j (snd (resume_job cal now j))"
| move: "touch cal j (fast_forward cal clock now j)"
| delivery: "touch cal j (set_state (\<lambda>st. st\<lparr>js_last_delivery_error := e\<rparr>) j)"
| reread: "touch cal j (recompute_one cal now j)"

inductive life_step :: "calendar \<Rightarrow> job_life \<Rightarrow> job_life \<Rightarrow> bool" for cal where
  fire: "jl_phase l = Resting \<Longrightarrow> is_due now (jl_job l) \<Longrightarrow> k = taken_up cal now' (jl_job l) \<Longrightarrow>
    life_step cal l (l\<lparr>jl_job := k, jl_file := (if k = jl_job l then jl_file l else k), jl_phase := Running (run_record now r False k),
      jl_fires := jl_fires l + 1\<rparr>)"
| by_hand: "jl_phase l = Resting \<Longrightarrow>
    life_step cal l (l\<lparr>jl_phase := Running (run_record now r True (jl_job l)), jl_by_hand := jl_by_hand l + 1\<rparr>)"
| alert: "jl_phase l = Running run \<Longrightarrow> settle_alerts c run err (jl_job l) \<Longrightarrow>
    life_step cal l (l\<lparr>jl_job := count_result c c (rr_manual run) err (note_result a run err (jl_job l)), jl_phase := Alerting run a\<rparr>)"
| settle: "jl_phase l = Running run \<Longrightarrow> k = settle_job a b c run err (jl_job l) \<Longrightarrow> m = None \<or> m = Some (meta_of a run k) \<Longrightarrow>
    life_step cal l (l\<lparr>jl_job := noted_output e k, jl_phase := Writing m\<rparr>)"
| close: "jl_phase l = Alerting run a \<Longrightarrow> k = (if rr_manual run then jl_job l else use_slot a (jl_job l)) \<Longrightarrow>
    m = None \<or> m = Some (meta_of a run k) \<Longrightarrow> life_step cal l (l\<lparr>jl_job := noted_output e k, jl_phase := Writing m\<rparr>)"
| cut_off: "run_of (jl_phase l) = Some run \<Longrightarrow> k = cancel_job now stopping run (jl_job l) \<Longrightarrow> m = None \<or> m = Some (meta_of now run k) \<Longrightarrow>
    life_step cal l (l\<lparr>jl_job := noted_output e k, jl_phase := Writing m\<rparr>)"
| written: "jl_phase l = Writing m \<Longrightarrow> life_step cal l (l\<lparr>jl_file := jl_job l, jl_phase := Resting\<rparr>)"
| saved: "\<not> writing (jl_phase l) \<Longrightarrow> life_step cal l (l\<lparr>jl_file := jl_job l\<rparr>)"
| touched: "\<not> writing (jl_phase l) \<Longrightarrow> touch cal (jl_job l) k \<Longrightarrow> life_step cal l (l\<lparr>jl_job := k\<rparr>)"
| restarted: "k = reborn cal now l \<Longrightarrow> life_step cal l (l\<lparr>jl_job := k, jl_file := k, jl_phase := Resting,
    jl_crashes := jl_crashes l + (if jl_phase l = Resting then 0 else 1)\<rparr>)"

section \<open>What is left of the limit\<close>

definition live :: "cron_job \<Rightarrow> bool" where
  "live j = (cj_lifecycle j = Scheduled \<or> cj_lifecycle j = Paused)"

definition slots :: "cron_job \<Rightarrow> int option \<times> int \<times> int \<times> int" where
  "slots j = (cj_repeat_times j, cj_repeat_completed j, js_retry_attempt (cj_state j), cj_retry_max_attempts j)"

text \<open>The fires a job has left, each open slot with \<open>r\<close> retries.\<close>

definition fires_left :: "int \<Rightarrow> int \<Rightarrow> cron_job \<Rightarrow> int" where
  "fires_left m r j = (m - cj_repeat_completed j) * (r + 1) - js_retry_attempt (cj_state j)"

definition fits :: "int \<Rightarrow> int \<Rightarrow> int \<Rightarrow> cron_job \<Rightarrow> bool" where
  "fits m r x j = (cj_repeat_times j = Some m \<and> cj_repeat_completed j \<le> m \<and> max 0 (cj_retry_max_attempts j) = r \<and>
     (live j \<longrightarrow> cj_repeat_completed j < m \<and> 0 \<le> js_retry_attempt (cj_state j) \<and> js_retry_attempt (cj_state j) \<le> r \<and>
        fires_left m r j \<le> x))"

definition quiet :: "(cron_job \<Rightarrow> cron_job) \<Rightarrow> bool" where
  "quiet f = (\<forall>j. slots (f j) = slots j \<and> (live (f j) \<longrightarrow> live j))"

named_theorems quiet_facts

lemmas quiet_defs = quiet_def slots_def live_def set_state_def set_next_def Let_def

lemma quiet_taken_up [quiet_facts]: "quiet (taken_up cal now)"
  by (simp add: quiet_defs taken_up_def)

lemma quiet_recompute [quiet_facts]: "quiet (recompute_one cal now)"
  by (simp add: quiet_defs recompute_one_def)

lemma quiet_stored [quiet_facts]: "quiet stored_form"
  by (simp add: quiet_defs stored_form_def)

lemma quiet_noted [quiet_facts]: "quiet (noted_output e)"
  by (simp add: quiet_defs noted_output_def)

lemma quiet_switch [quiet_facts]: "quiet (\<lambda>j. snd (pause_job now j))" "quiet (\<lambda>j. snd (resume_job cal now j))"
  using lifecycle.exhaust by (auto simp: quiet_defs pause_job_def resume_job_def split: option.split)

lemma quiet_forward [quiet_facts]: "quiet (fast_forward cal clock now)"
  by (simp add: quiet_defs fast_forward_def)

lemma quiet_delivery [quiet_facts]: "quiet (set_state (\<lambda>st. st\<lparr>js_last_delivery_error := e\<rparr>))"
  by (simp add: quiet_defs)

lemma touch_quiet: "touch cal j k \<Longrightarrow> \<exists>f. quiet f \<and> k = f j"
proof (erule touch.cases)
  fix j' now assume "j = j'" "k = snd (pause_job now j')"
  then show ?thesis using quiet_switch(1) by (intro exI [of _ "\<lambda>j. snd (pause_job now j)"]) simp
next
  fix j' now assume "j = j'" "k = snd (resume_job cal now j')"
  then show ?thesis using quiet_switch(2) by (intro exI [of _ "\<lambda>j. snd (resume_job cal now j)"]) simp
qed (blast intro: quiet_forward quiet_delivery quiet_recompute)+

lemma fits_mono: "fits m r x j \<Longrightarrow> x \<le> y \<Longrightarrow> fits m r y j"
  by (auto simp: fits_def)

lemma fits_quiet: "quiet f \<Longrightarrow> fits m r x j \<Longrightarrow> fits m r x (f j)"
  by (auto simp: quiet_def slots_def fits_def fires_left_def)

lemma quiet_same:
  assumes "quiet f"
  shows "cj_repeat_completed (f j) = cj_repeat_completed j" "js_retry_attempt (cj_state (f j)) = js_retry_attempt (cj_state j)"
    "live (f j) \<Longrightarrow> live j"
  using assms by (auto simp: quiet_def slots_def)

lemma left_pos:
  assumes "fits m r x j" "live j"
  shows "1 \<le> x"
proof -
  have "1 * (r + 1) \<le> (m - cj_repeat_completed j) * (r + 1)" using assms by (intro mult_right_mono) (auto simp: fits_def)
  moreover have "(m - cj_repeat_completed j) * (r + 1) - js_retry_attempt (cj_state j) \<le> x" "js_retry_attempt (cj_state j) \<le> r"
    using assms by (auto simp: fits_def fires_left_def)
  moreover have "1 * (y + 1) \<le> p \<Longrightarrow> p - a \<le> x \<Longrightarrow> a \<le> y \<Longrightarrow> 1 \<le> x" for y p a :: int by simp
  ultimately show ?thesis by blast
qed

text \<open>Retries begin anew, a slot is used up.\<close>

lemma fits_anew:
  assumes "fits m r x j" "slots k = (cj_repeat_times j, cj_repeat_completed j, t, cj_retry_max_attempts j)" "live k \<Longrightarrow> live j \<and> 0 \<le> t \<and> t \<le> r"
  shows "fits m r (x + r - t) k"
  using assms by (auto simp: fits_def slots_def fires_left_def)

lemma fits_used:
  assumes "fits m r x j" "slots k = (cj_repeat_times j, cj_repeat_completed j + 1, t, cj_retry_max_attempts j)" "cj_repeat_completed j < m"
    and "live k \<Longrightarrow> live j \<and> cj_repeat_completed j + 1 < m \<and> 0 \<le> t \<and> t \<le> js_retry_attempt (cj_state j)"
  shows "fits m r (x - (r + 1) + js_retry_attempt (cj_state j) - t) k"
proof -
  have "(m - (cj_repeat_completed j + 1)) * (r + 1) = (m - cj_repeat_completed j) * (r + 1) - (r + 1)" by (simp add: algebra_simps)
  then show ?thesis using assms by (auto simp: fits_def slots_def fires_left_def)
qed

section \<open>The invariant\<close>

fun job_slack :: "int \<Rightarrow> life_phase \<Rightarrow> int" where
  "job_slack r (Running run) = (if rr_manual run then - (r + 1) else 1)"
| "job_slack r (Alerting run a) = (if rr_manual run then 0 else r + 1)"
| "job_slack r ph = 0"

definition file_slack :: "int \<Rightarrow> life_phase \<Rightarrow> int" where
  "file_slack r ph = (if ph = Resting then 0 else r + 1)"

definition run_fits :: "int \<Rightarrow> int \<Rightarrow> run_rec \<Rightarrow> cron_job \<Rightarrow> bool" where
  "run_fits m r run j = (rr_base_repeat run = cj_repeat_completed j \<and> (live j \<longrightarrow> 0 \<le> rr_base_retry run \<and> rr_base_retry run \<le> r) \<and>
     (\<not> rr_manual run \<longrightarrow> cj_repeat_completed j < m))"

fun phase_fits :: "int \<Rightarrow> int \<Rightarrow> life_phase \<Rightarrow> cron_job \<Rightarrow> bool" where
  "phase_fits m r Resting j = True"
| "phase_fits m r (Running run) j = run_fits m r run j"
| "phase_fits m r (Alerting run a) j = (run_fits m r run j \<and> js_retry_attempt (cj_state j) = 0)"
| "phase_fits m r (Writing rec) j = (\<forall>v. rec = Some v \<longrightarrow> rm_repeat_completed v = cj_repeat_completed j \<and>
     rm_retry_attempt v = js_retry_attempt (cj_state j) \<and> rm_lifecycle v = cj_lifecycle j)"

text \<open>The fires the limit still allows, each death in the middle of a run and each run by hand adding a slot's worth.\<close>

definition allowed :: "int \<Rightarrow> int \<Rightarrow> job_life \<Rightarrow> int" where
  "allowed b r l = b + (int (jl_crashes l) + int (jl_by_hand l)) * (r + 1) - int (jl_fires l)"

definition life_inv :: "int \<Rightarrow> int \<Rightarrow> int \<Rightarrow> job_life \<Rightarrow> bool" where
  "life_inv m r b l = (0 \<le> allowed b r l \<and> fits m r (allowed b r l + job_slack r (jl_phase l)) (jl_job l) \<and>
     fits m r (allowed b r l + file_slack r (jl_phase l)) (jl_file l) \<and>
     cj_repeat_completed (jl_file l) \<le> cj_repeat_completed (jl_job l) \<and> phase_fits m r (jl_phase l) (jl_job l))"

lemma life_invI:
  assumes "0 \<le> allowed b r l" "fits m r x (jl_job l)" "x \<le> allowed b r l + job_slack r (jl_phase l)"
    and "fits m r y (jl_file l)" "y \<le> allowed b r l + file_slack r (jl_phase l)"
    and "cj_repeat_completed (jl_file l) \<le> cj_repeat_completed (jl_job l)" "phase_fits m r (jl_phase l) (jl_job l)"
  shows "life_inv m r b l"
  using assms fits_mono unfolding life_inv_def by blast

section \<open>How a run leaves the job\<close>

lemma count_slots:
  assumes "settle_alerts c run err j"
  shows "slots (count_result c c (rr_manual run) err (note_result a run err j)) =
      (cj_repeat_times j, cj_repeat_completed j, 0, cj_retry_max_attempts j)"
    "cj_lifecycle (count_result c c (rr_manual run) err (note_result a run err j)) = cj_lifecycle j"
proof -
  have "\<not> will_retry (rr_manual run) err (note_result a run err j)" "truthy err"
    using assms by (auto simp: settle_alerts_def will_retry_def note_result_def set_state_def)
  then show "slots (count_result c c (rr_manual run) err (note_result a run err j)) =
      (cj_repeat_times j, cj_repeat_completed j, 0, cj_retry_max_attempts j)"
    "cj_lifecycle (count_result c c (rr_manual run) err (note_result a run err j)) = cj_lifecycle j"
    by (simp_all add: count_result_def note_result_def slots_def set_state_def Let_def)
qed

definition spent :: "cron_job \<Rightarrow> lifecycle" where
  "spent j = (if (cj_repeat_times j \<noteq> None \<and> the (cj_repeat_times j) \<le> cj_repeat_completed j + 1) \<or> cs_kind (cj_schedule j) = ''at''
     then Completed else cj_lifecycle j)"

lemma spent_live: "cj_repeat_times j = Some m \<Longrightarrow> cj_lifecycle k = spent j \<Longrightarrow> live k \<Longrightarrow> live j \<and> cj_repeat_completed j + 1 < m"
  by (auto simp: spent_def live_def split: if_splits)

lemma use_slot_slots:
  "slots (use_slot a j) = (cj_repeat_times j, cj_repeat_completed j + 1, js_retry_attempt (cj_state j), cj_retry_max_attempts j)"
  "cj_lifecycle (use_slot a j) = spent j"
  by (auto simp: use_slot_def slots_def spent_def set_next_def set_state_def Let_def)

lemma settle_slots:
  assumes "\<not> rr_manual run"
  shows "(will_retry False err j \<and> cj_lifecycle (settle_job a b c run err j) = cj_lifecycle j \<and> slots (settle_job a b c run err j) =
        (cj_repeat_times j, cj_repeat_completed j, js_retry_attempt (cj_state j) + 1, cj_retry_max_attempts j)) \<or>
    (cj_lifecycle (settle_job a b c run err j) = spent j \<and> slots (settle_job a b c run err j) =
        (cj_repeat_times j, cj_repeat_completed j + 1, 0, cj_retry_max_attempts j))"
  by (rule settle_job_cases [OF assms, of err j a b c]) (simp_all add: slots_def spent_def settle_job_same)

lemma settle_manual_slots:
  assumes "rr_manual run"
  shows "slots (settle_job a b c run err j) = (cj_repeat_times j, cj_repeat_completed j, 0, cj_retry_max_attempts j)"
    "cj_lifecycle (settle_job a b c run err j) = cj_lifecycle j"
  using assms by (simp_all add: settle_job_def count_result_def note_result_def will_retry_def slots_def set_state_def Let_def)

lemma cancel_slots:
  "\<not> rr_manual run \<Longrightarrow> rr_base_repeat run = cj_repeat_completed j \<Longrightarrow>
    slots (cancel_job now stopping run j) = (cj_repeat_times j, cj_repeat_completed j + 1, 0, cj_retry_max_attempts j) \<and>
    cj_lifecycle (cancel_job now stopping run j) = spent j"
  "rr_manual run \<Longrightarrow>
    slots (cancel_job now stopping run j) = (cj_repeat_times j, cj_repeat_completed j, rr_base_retry run, cj_retry_max_attempts j) \<and>
    cj_lifecycle (cancel_job now stopping run j) = cj_lifecycle j"
  by (auto simp: cancel_job_def use_slot_def slots_def spent_def set_state_def set_next_def Let_def)

text \<open>A run that ended leaves the job within what is allowed.\<close>

lemma fits_settled:
  assumes "fits m r (x + job_slack r (Running run)) j" "run_fits m r run j" "0 \<le> r"
  shows "fits m r x (settle_job a b c run err j)"
proof (cases "rr_manual run")
  case True
  have "fits m r (x + job_slack r (Running run) + r - 0) (settle_job a b c run err j)"
    using assms True settle_manual_slots [OF True, of a b c err j] by (intro fits_anew [of _ _ _ j]) (auto simp: live_def)
  then show ?thesis by (rule fits_mono) (simp add: True)
next
  case False
  note j = assms(1) [unfolded fits_def]
  from settle_slots [OF False, of err j a b c] show ?thesis
  proof (elim disjE conjE)
    assume w: "will_retry False err j" "cj_lifecycle (settle_job a b c run err j) = cj_lifecycle j"
      and s: "slots (settle_job a b c run err j) = (cj_repeat_times j, cj_repeat_completed j, js_retry_attempt (cj_state j) + 1, cj_retry_max_attempts j)"
    show ?thesis using assms(1) w s False by (auto simp: fits_def fires_left_def slots_def live_def will_retry_def)
  next
    assume l: "cj_lifecycle (settle_job a b c run err j) = spent j"
      and s: "slots (settle_job a b c run err j) = (cj_repeat_times j, cj_repeat_completed j + 1, 0, cj_retry_max_attempts j)"
    let ?t = "js_retry_attempt (cj_state j)"
    have live: "live (settle_job a b c run err j) \<Longrightarrow> live j \<and> cj_repeat_completed j + 1 < m" using spent_live l j by blast
    have "fits m r (x + 1 - (r + 1) + ?t - 0) (settle_job a b c run err j)"
      using assms False j live s by (intro fits_used) (auto simp: run_fits_def)
    then show ?thesis using j live by (auto simp: fits_def)
  qed
qed

lemma fits_cut_off:
  assumes "fits m r (x + job_slack r ph) j" "run_of ph = Some run" "phase_fits m r ph j" "0 \<le> r"
  shows "fits m r x (cancel_job now stopping run j)"
proof (cases "rr_manual run")
  case True
  note c = cancel_slots(2) [OF True, of now stopping j]
  have "fits m r (x + job_slack r ph + js_retry_attempt (cj_state j) - rr_base_retry run) (cancel_job now stopping run j)"
    using assms c by (cases ph) (auto simp: fits_def slots_def fires_left_def live_def run_fits_def)
  then show ?thesis using assms True c by (cases ph) (auto simp: fits_def slots_def live_def run_fits_def)
next
  case False
  have base: "rr_base_repeat run = cj_repeat_completed j" "cj_repeat_completed j < m"
    using assms(2,3) False by (cases ph; simp add: run_fits_def)+
  note c = cancel_slots(1) [OF False base(1), of now stopping]
  let ?t = "js_retry_attempt (cj_state j)"
  note j = assms(1) [unfolded fits_def]
  have live: "live (cancel_job now stopping run j) \<Longrightarrow> live j \<and> cj_repeat_completed j + 1 < m" using spent_live c j by blast
  have "fits m r (x + job_slack r ph - (r + 1) + ?t - 0) (cancel_job now stopping run j)"
    using assms base(2) c j live by (intro fits_used) auto
  then show ?thesis using assms(2,3) j live False by (cases ph) (auto simp: fits_def)
qed

section \<open>Every step keeps it\<close>

lemma phase_fits_quiet: "quiet f \<Longrightarrow> \<not> writing ph \<Longrightarrow> phase_fits m r ph j \<Longrightarrow> phase_fits m r ph (f j)"
  by (cases ph) (auto simp: run_fits_def quiet_same)

lemma ended_inv:
  assumes "life_inv m r b l" "fits m r (allowed b r l) k" "cj_repeat_completed (jl_job l) \<le> cj_repeat_completed k" "jl_phase l \<noteq> Resting"
    and "rec = None \<or> rec = Some (meta_of a run k)"
  shows "life_inv m r b (l\<lparr>jl_job := noted_output e k, jl_phase := Writing rec\<rparr>)"
proof -
  note q = quiet_noted [of e]
  have "cj_lifecycle (noted_output e k) = cj_lifecycle k" by (simp add: noted_output_def set_state_def)
  then have "phase_fits m r (Writing rec) (noted_output e k)" using assms(5) quiet_same(1,2) [OF q] by (auto simp: meta_of_def)
  then show ?thesis using assms(1-4) fits_quiet [OF q] quiet_same(1) [OF q] by (simp add: life_inv_def allowed_def file_slack_def)
qed

lemma use_slot_fits:
  assumes "fits m r x j" "cj_repeat_completed j < m"
  shows "fits m r (x - (r + 1)) (use_slot a j)"
proof -
  have "live (use_slot a j) \<Longrightarrow> live j \<and> cj_repeat_completed j + 1 < m"
    using assms(1) use_slot_slots(2) by (intro spent_live) (auto simp: fits_def)
  then have "fits m r (x - (r + 1) + js_retry_attempt (cj_state j) - js_retry_attempt (cj_state j)) (use_slot a j)"
    using assms use_slot_slots(1) by (intro fits_used) (auto simp: fits_def)
  then show ?thesis by simp
qed

lemma reborn_inv:
  assumes "life_inv m r b l" "0 \<le> r" "l' = l\<lparr>jl_job := reborn cal now l, jl_file := reborn cal now l, jl_phase := Resting,
    jl_crashes := jl_crashes l + (if jl_phase l = Resting then 0 else 1)\<rparr>"
  shows "life_inv m r b l'"
proof -
  have more: "allowed b r l + file_slack r (jl_phase l) \<le> allowed b r l'" "allowed b r l \<le> allowed b r l'"
    using assms(2) by (simp_all add: assms(3) allowed_def file_slack_def algebra_simps)
  have stored: "fits m r (allowed b r l') (stored_form (jl_file l))"
    using assms(1) more(1) by (intro fits_quiet [OF quiet_stored]) (auto simp: life_inv_def intro: fits_mono)
  have "fits m r (allowed b r l') (case jl_phase l of Writing (Some v) \<Rightarrow> replay_record v (stored_form (jl_file l)) | _ \<Rightarrow> stored_form (jl_file l))"
  proof (cases "\<exists>v. jl_phase l = Writing (Some v)")
    case True
    then obtain v where v: "jl_phase l = Writing (Some v)" by blast
    let ?f = "stored_form (jl_file l)"
    show ?thesis
    proof (cases "js_last_run_id (cj_state ?f) = Some (rm_run_id v) \<or> record_completed v < cj_updated_at_ms ?f")
      case True
      then have "replay_record v ?f = ?f" by (auto simp: replay_record_def)
      with stored v show ?thesis by simp
    next
      case False
      let ?k = "replay_record v ?f"
      have k: "cj_repeat_completed ?k = max (cj_repeat_completed ?f) (rm_repeat_completed v)" "js_retry_attempt (cj_state ?k) = rm_retry_attempt v"
          "cj_lifecycle ?k = rm_lifecycle v" "cj_repeat_times ?k = cj_repeat_times ?f" "cj_retry_max_attempts ?k = cj_retry_max_attempts ?f"
        using False by (auto simp: replay_record_def set_state_def Let_def)
      have m: "rm_repeat_completed v = cj_repeat_completed (jl_job l)" "rm_retry_attempt v = js_retry_attempt (cj_state (jl_job l))"
          "rm_lifecycle v = cj_lifecycle (jl_job l)" "cj_repeat_completed ?f \<le> cj_repeat_completed (jl_job l)"
        using assms(1) v quiet_same(1) [OF quiet_stored] by (auto simp: life_inv_def)
      have "fits m r (allowed b r l') (jl_job l)" using assms(1) v more(2) by (auto simp: life_inv_def intro: fits_mono)
      then have "fits m r (allowed b r l') ?k" using stored k m by (auto simp: fits_def fires_left_def live_def)
      with v show ?thesis by simp
    qed
  next
    case False
    then show ?thesis using stored by (auto split: life_phase.split option.split)
  qed
  then have "fits m r (allowed b r l') (reborn cal now l)" unfolding reborn_def by (intro fits_quiet [OF quiet_recompute])
  then show ?thesis using assms(1) more(2) by (auto simp: assms(3) life_inv_def file_slack_def)
qed

lemma life_step_inv:
  assumes "life_step cal l l'" "life_inv m r b l" "0 \<le> r"
  shows "life_inv m r b l'"
  using assms(1)
proof cases
  case (fire now k now' rid)
  have live: "live (jl_job l)" using fire(3) by (simp add: live_def is_due_def)
  have q: "quiet (taken_up cal now')" by (rule quiet_taken_up)
  have fit: "fits m r (allowed b r l) (jl_job l)" "fits m r (allowed b r l) (jl_file l)" using assms(2) fire(2) by (auto simp: life_inv_def file_slack_def)
  have k: "fits m r (allowed b r l) k" unfolding fire(4) by (rule fits_quiet [OF q fit(1)])
  have "cj_lifecycle k = cj_lifecycle (jl_job l)" by (simp add: fire(4) taken_up_def Let_def)
  then have "live k" using live by (simp add: live_def)
  moreover have "cj_repeat_completed k = cj_repeat_completed (jl_job l)" unfolding fire(4) by (rule quiet_same(1) [OF q])
  ultimately show ?thesis using left_pos [OF fit(1) live] k fit(2) assms(2,3) unfolding fire(1)
    by (intro life_invI [where x = "allowed b r l" and y = "allowed b r l"])
      (auto simp: allowed_def file_slack_def run_fits_def run_record_def fits_def life_inv_def)
next
  case (by_hand now rid)
  then show ?thesis using assms(2,3)
    by (intro life_invI [where x = "allowed b r l" and y = "allowed b r l"])
      (auto simp: allowed_def file_slack_def run_fits_def run_record_def fits_def life_inv_def algebra_simps)
next
  case (alert run c err a)
  let ?k = "count_result c c (rr_manual run) err (note_result a run err (jl_job l))"
  note s = count_slots [OF alert(3), of a]
  have k: "fits m r (allowed b r l + job_slack r (Running run) + r - 0) ?k"
    using assms(2,3) alert(2) s by (intro fits_anew [of _ _ _ "jl_job l"]) (auto simp: life_inv_def live_def)
  have "run_fits m r run ?k" using assms(2) alert(2) s by (auto simp: life_inv_def run_fits_def slots_def live_def)
  moreover have "js_retry_attempt (cj_state ?k) = 0" "cj_repeat_completed ?k = cj_repeat_completed (jl_job l)" using s(1) by (auto simp: slots_def)
  ultimately show ?thesis using assms(2,3) alert(1,2) k
    by (intro life_invI [where x = "allowed b r l + job_slack r (Running run) + r - 0" and y = "allowed b r l + file_slack r (jl_phase l)"])
      (auto simp: allowed_def file_slack_def life_inv_def)
next
  case (settle run k a b' c err rec e)
  have run: "run_fits m r run (jl_job l)" "fits m r (allowed b r l + job_slack r (Running run)) (jl_job l)"
    using assms(2) settle(2) by (auto simp: life_inv_def)
  have "cj_repeat_completed (jl_job l) \<le> cj_repeat_completed k"
    using settle_slots [of run err "jl_job l" a b' c] settle_manual_slots(1) [of run a b' c err "jl_job l"] settle(3)
    by (cases "rr_manual run") (auto simp: slots_def)
  then show ?thesis using fits_settled [OF run(2,1) assms(3), of a b' c err] settle unfolding settle(1) by (intro ended_inv [OF assms(2)]) auto
next
  case (close run a k rec e)
  have run: "run_fits m r run (jl_job l)" "fits m r (allowed b r l + job_slack r (Alerting run a)) (jl_job l)"
    using assms(2) close(2) by (auto simp: life_inv_def)
  have "fits m r (allowed b r l) k"
    using run use_slot_fits [OF run(2), of a] close(3) by (cases "rr_manual run") (auto simp: run_fits_def)
  moreover have "cj_repeat_completed (jl_job l) \<le> cj_repeat_completed k" using close(3) use_slot_slots(1) [of a "jl_job l"] by (auto simp: slots_def)
  ultimately show ?thesis unfolding close(1) using close(2,4) by (intro ended_inv [OF assms(2)]) auto
next
  case (cut_off run k now stopping rec e)
  have ph: "phase_fits m r (jl_phase l) (jl_job l)" "fits m r (allowed b r l + job_slack r (jl_phase l)) (jl_job l)"
    using assms(2) by (auto simp: life_inv_def)
  have "\<not> rr_manual run \<Longrightarrow> rr_base_repeat run = cj_repeat_completed (jl_job l)"
    using ph(1) cut_off(2) by (cases "jl_phase l") (auto simp: run_fits_def)
  then have "cj_repeat_completed (jl_job l) \<le> cj_repeat_completed k"
    using cancel_slots [where run = run and j = "jl_job l" and now = now and stopping = stopping] cut_off(3) by (cases "rr_manual run") (auto simp: slots_def)
  then show ?thesis unfolding cut_off(1) using fits_cut_off [OF ph(2) cut_off(2) ph(1) assms(3), of now stopping] cut_off(2-4)
    by (intro ended_inv [OF assms(2)]) auto
next
  case (written rec)
  then show ?thesis using assms(2) by (auto simp: life_inv_def allowed_def file_slack_def)
next
  case saved
  have "job_slack r (jl_phase l) \<le> file_slack r (jl_phase l)" using assms(3) by (cases "jl_phase l") (auto simp: file_slack_def)
  then show ?thesis using assms(2) saved
    by (intro life_invI [where x = "allowed b r l + job_slack r (jl_phase l)" and y = "allowed b r l + job_slack r (jl_phase l)"])
      (auto simp: life_inv_def allowed_def)
next
  case (touched k)
  obtain f where f: "quiet f" "k = f (jl_job l)" using touch_quiet [OF touched(3)] by blast
  then show ?thesis using assms(2) touched(1,2) fits_quiet [OF f(1)] phase_fits_quiet [OF f(1)] quiet_same(1) [OF f(1)]
    by (auto simp: life_inv_def allowed_def)
next
  case (restarted k now)
  then show ?thesis using reborn_inv [OF assms(2,3)] by simp
qed

interpretation limited_life: guarded_system "\<lambda>l. \<exists>j. l = start_life j \<and> 0 \<le> r \<and> fits m r b j \<and> 0 \<le> b" "life_step cal"
    "\<lambda>l. 0 \<le> r \<and> life_inv m r b l" for cal m r b
  using life_step_inv by unfold_locales (auto simp: life_inv_def start_life_def allowed_def file_slack_def)

end
