(* ===== verification/Cron_Properties.thy ===== *)
theory Cron_Properties
  imports Cron_Life
begin

text \<open>
  The properties of scheduled jobs. Their witnesses run on a calendar in universal time whose every
  expression is hourly.
\<close>

section \<open>Inputs of the witnesses\<close>

definition hourly_calendar :: calendar where
  "hourly_calendar = \<lparr>cal_named = (\<lambda>_. None), cal_host = Some \<lparr>zr_wall = (\<lambda>t. t), zr_instant = (\<lambda>w. w)\<rparr>,
     cal_valid = (\<lambda>_. True), cal_next = (\<lambda>_ w. Some (w + 3600000))\<rparr>"

definition minutely :: cron_schedule where
  "minutely = \<lparr>cs_kind = ''every'', cs_at_ms = None, cs_every_ms = Some 60000, cs_expr = None, cs_tz = None\<rparr>"

definition once_at :: "int \<Rightarrow> cron_schedule" where
  "once_at t = \<lparr>cs_kind = ''at'', cs_at_ms = Some t, cs_every_ms = None, cs_expr = None, cs_tz = None\<rparr>"

definition request_on :: "cron_schedule \<Rightarrow> int option \<Rightarrow> job_request" where
  "request_on s limit = \<lparr>jr_name = ''tidy'', jr_schedule = s,
     jr_payload = \<lparr>py_kind = ''agent_turn'', py_message = ''tidy up'', py_deliver = False, py_channel = None, py_to = None,
       py_tool_name = None, py_tool_args = None\<rparr>,
     jr_delete_after_run = False, jr_origin = None, jr_repeat_times = limit, jr_script = None, jr_skills = [], jr_model = None,
     jr_provider = None, jr_retry_max_attempts = 1, jr_retry_backoff_ms = [], jr_failure_alert_after = 1,
     jr_failure_alert_cooldown_ms = 1000, jr_source = None, jr_source_id = None\<rparr>"

definition with_job :: "cron_schedule \<Rightarrow> cron" where
  "with_job s = save_store (set_jobs [make_job ''j1'' 1000 (compute_next_run hourly_calendar s 1000) (request_on s None)] empty_cron)"

lemma with_job_reached:
  assumes "s = minutely \<or> s = once_at 5000"
  shows "(cron_step hourly_calendar)\<^sup>*\<^sup>* empty_cron (with_job s)"
proof -
  have "add_to_schedule hourly_calendar ''j1'' 1000 (request_on s None) empty_cron = with_job s"
    using assms by (auto simp: add_to_schedule_def add_job_def with_job_def request_on_def check_schedule_def minutely_def once_at_def
      MIN_INTERVAL_MS_def empty_cron_def Let_def)
  moreover have "new_job_id ''j1'' empty_cron" by (simp add: new_job_id_def empty_cron_def)
  ultimately show ?thesis by (metis cron_step.added r_into_rtranclp)
qed



section \<open>The schedule and its runs\<close>

text \<open>C34. Whatever clients, passes, runs, crashes and restarts do to the service, in any order: no two jobs
  have the same id, a job is switched on exactly when it is scheduled, no job runs twice at the same time, every
  run has its job, only reserved runs are started, every record belongs to a job, and no run id is recorded twice
  or recorded while its run still goes on.\<close>

theorem cron_invariant:
  assumes "(cron_step cal)\<^sup>*\<^sup>* empty_cron s"
  shows "distinct (map cj_id (cr_jobs s)) \<and> (\<forall>j\<in>set (cr_jobs s). cj_enabled j \<longleftrightarrow> cj_lifecycle j = Scheduled) \<and>
    distinct (map fst (cr_active s)) \<and> fst ` set (cr_active s) \<subseteq> cj_id ` set (cr_jobs s) \<and>
    set (cr_owned s) \<subseteq> fst ` set (cr_active s) \<and> rm_job_id ` set (cr_archive s) \<subseteq> cj_id ` set (cr_jobs s) \<and>
    distinct (map rm_run_id (cr_archive s) @ map (\<lambda>kv. rr_run_id (snd kv)) (cr_active s))"
  using cron.reachable_good [OF refl assms] by (simp add: cron_inv_def runs_apart_def list_all_iff in_step_def)

theorem cron_invariant_witness:
  "map cj_id (cr_jobs (with_job minutely)) = [''j1''] \<and> distinct (map cj_id (cr_jobs (with_job minutely)))"
proof -
  have "map cj_id (cr_jobs (with_job minutely)) = [''j1'']" by code_simp
  then show ?thesis using cron_invariant [OF with_job_reached [of minutely]] by blast
qed





section \<open>How often a job runs\<close>


definition one_slot :: cron_job where
  "one_slot = make_job ''j1'' 1000 (Some 61000) (request_on minutely (Some 1))"







section \<open>Crashes\<close>

text \<open>C35. A recurring job is fired at most once for a due time: when a pass starts it and the process dies before the
  run ends, the new process finds it due later than the moment of the fire, and, unless the fire was a retry, not due
  on arrival. The job has no record that is not yet reflected in it, and its schedule has a following time.\<close>

theorem recurring_fired_once:
  assumes "(cron_step cal)\<^sup>*\<^sup>* empty_cron s" "cr_pass s = Some (i # rest)" "current_run i s = None"
    and "current_run i (pass_fire cal now now' r s) \<noteq> None" "find_job i s = Some j" "recurring j"
    and "compute_next_run cal (cj_schedule j) now' = Some t" "t \<noteq> 0" "now \<le> now'" "now' \<le> later" "settled_record i s j"
  shows "\<exists>k. find_job i (restart cal later (pass_fire cal now now' r s)) = Some k \<and>
    (\<forall>d. next_run k = Some d \<longrightarrow> now' < d) \<and> (js_retry_attempt (cj_state j) \<le> 0 \<longrightarrow> \<not> is_due later k)"
proof -
  note f = pass_fire_file [OF assms(2-9)]
  let ?j = "stored_form (set_next (Some t) j)"
  have j: "cj_id j = i" "cj_lifecycle j = Scheduled" using find_job_Some [OF assms(5)] f(3) by (simp_all add: is_due_def)
  have "find (\<lambda>j. cj_id j = i) (map stored_form (cr_jobs (change_job i (set_next (Some t)) s))) = Some ?j"
    using find_map_id [of stored_form, OF tame_id [OF tame_stored]] find_job_change [of "set_next (Some t)" i i s] assms(5) j(1)
    by (simp add: find_job_def)
  then have k: "find_job i (restart cal later (pass_fire cal now now' r s)) = Some (recompute_one cal later (replayed (cr_archive s) ?j))"
    using restart_find [OF f(1) read_store_json] f(2) by simp
  have "replayed (cr_archive s) ?j = ?j"
    using assms(11) by (intro replayed_settled [of j]) (simp_all add: j(1) stored_form_def set_next_def set_state_def)
  moreover have st: "recurring ?j" "in_step ?j" "cj_lifecycle ?j = Scheduled" "cj_schedule ?j = cj_schedule j" "next_run ?j = Some t"
      "js_retry_attempt (cj_state ?j) = js_retry_attempt (cj_state j)"
    using assms(6) j(2) by (auto simp: stored_form_def recurring_def in_step_def restored_due_def set_next_def set_state_def)
  ultimately have n: "next_run (recompute_one cal later (replayed (cr_archive s) ?j)) =
      (if 0 < js_retry_attempt (cj_state j) then Some t else compute_next_run cal (cj_schedule j) later)"
    using recompute_recurring [OF st(1-3), of cal later] by simp
  have "now' < t" using assms(7) by (rule compute_next_run_future)
  then show ?thesis using k n assms(10) compute_next_run_future [of cal "cj_schedule j" later]
    by (auto simp: is_due_def truthy_int_def split: if_splits option.splits)
qed

theorem recurring_fired_once_witness:
  "let s = pass_start hourly_calendar (\<lambda>_. 61000) 61000 (with_job minutely) in
    current_run ''j1'' (pass_fire hourly_calendar 61000 61000 ''r1'' s) \<noteq> None \<and>
    (case find_job ''j1'' (restart hourly_calendar 70000 (pass_fire hourly_calendar 61000 61000 ''r1'' s)) of
       None \<Rightarrow> False | Some k \<Rightarrow> \<not> is_due 70000 k \<and> next_run k = Some 130000)"
proof -
  define s where "s = pass_start hourly_calendar (\<lambda>_. 61000) 61000 (with_job minutely)"
  define j where "j = make_job ''j1'' 1000 (compute_next_run hourly_calendar minutely 1000) (request_on minutely None)"
  define k where "k = find_job ''j1'' (restart hourly_calendar 70000 (pass_fire hourly_calendar 61000 61000 ''r1'' s))"
  have "cron_step hourly_calendar (with_job minutely) s" unfolding s_def by (rule cron_step.pass_begins)
  then have "(cron_step hourly_calendar)\<^sup>*\<^sup>* empty_cron s"
    using with_job_reached [of minutely] by (auto intro: rtranclp.rtrancl_into_rtrancl)
  moreover have "cr_pass s = Some [''j1'']" "current_run ''j1'' s = None" "find_job ''j1'' s = Some j" "settled_record ''j1'' s j"
    and run: "current_run ''j1'' (pass_fire hourly_calendar 61000 61000 ''r1'' s) \<noteq> None"
    and sched: "recurring j" "compute_next_run hourly_calendar (cj_schedule j) 61000 = Some 121000" "js_retry_attempt (cj_state j) = 0"
    unfolding s_def j_def by code_simp+
  ultimately obtain k' where "k = Some k'" "\<not> is_due 70000 k'"
    using recurring_fired_once [of hourly_calendar s "''j1''" "[]" 61000 61000 "''r1''" j 121000 70000] by (auto simp: k_def)
  moreover have "map_option (\<lambda>k. next_run k) k = Some (Some 130000)" unfolding k_def s_def by code_simp
  ultimately show ?thesis using run by (simp add: k_def s_def Let_def)
qed

text \<open>C36. A one-shot is not run again after a crash between the two writes that end its run: once the record of the run is
  on disk, a new process reads the old file, replays the record and has the job completed, never due. The record is
  the newest of its job and not older than the job in the file.\<close>

theorem one_shot_not_rerun:
  assumes "\<not> rr_manual run" "find_job i s = Some j" "cs_kind (cj_schedule j) = ''at''" "\<not> will_retry False (run_error out) j"
    and "cr_file s = Some v" "read_store v = Some js" "find (\<lambda>j. cj_id j = i) js = Some j0"
    and "js_last_run_id (cj_state j0) \<noteq> Some (rr_run_id run)" "cj_updated_at_ms j0 \<le> ended" "0 < ended"
    and "\<forall>m\<in>set (cr_archive s). rm_job_id m = i \<longrightarrow> record_completed m < ended"
  shows "\<exists>k. find_job i (restart cal later (settle_run ended b c run out None i s)) = Some k \<and>
    cj_lifecycle k = Completed \<and> next_run k = None \<and> (\<forall>t. \<not> is_due t k)"
proof -
  let ?g = "settle_job ended b c run (run_error out)"
  let ?t = "settle_run ended b c run out None i s" and ?m = "meta_of ended run (?g j)"
  have ids: "cj_id j = i" "cj_id j0 = i" using find_job_Some [OF assms(2)] assms(7) by (auto simp: find_Some_iff)
  have found: "find_job i (change_job i ?g s) = Some (?g j)"
    using find_job_change [of ?g i i s] settle_job_kept(1) ids(1) assms(2) by simp
  then have t: "cr_file ?t = Some v" "cr_archive ?t = cr_archive s @ [?m]"
    using assms(5) by (simp_all add: settle_run_def archive_run_def Let_def find_job_def) (simp_all add: change_job_def)
  have m: "rm_lifecycle ?m = Completed" "rm_job_id ?m = i" "record_completed ?m = ended" "rm_run_id ?m = rr_run_id run"
    using settle_job_cases [OF assms(1), of "run_error out" j ended b c] assms(3,4,10) ids(1) settle_job_kept(1)
    by (auto simp: meta_of_def record_completed_def)
  have "latest_record i (cr_archive ?t) = Some ?m"
    using assms(11) m by (auto simp: t latest_record_def newer_def intro!: latest_of_snoc)
  then have "cj_lifecycle (replayed (cr_archive ?t) j0) = Completed"
    using assms(8,9) m ids(2) by (simp add: replayed_def replay_record_def Let_def set_state_def)
  moreover have "find_job i (restart cal later ?t) = Some (recompute_one cal later (replayed (cr_archive ?t) j0))"
    by (rule restart_find [OF t(1) assms(6,7)])
  ultimately show ?thesis by (auto simp: recompute_one_def is_due_def set_next_def set_state_def)
qed

theorem one_shot_not_rerun_witness:
  "let s = pass_fire hourly_calendar 5000 5000 ''r1'' (pass_start hourly_calendar (\<lambda>_. 5000) 5000 (with_job (once_at 5000)));
       run = the (current_run ''j1'' s)
   in (case find_job ''j1'' (restart hourly_calendar 9000 (settle_run 6000 6000 6000 run (Answered (Some ''done'')) None ''j1'' s)) of
       None \<Rightarrow> False | Some k \<Rightarrow> cj_lifecycle k = Completed \<and> next_run k = None)"
proof -
  define s where "s = pass_fire hourly_calendar 5000 5000 ''r1'' (pass_start hourly_calendar (\<lambda>_. 5000) 5000 (with_job (once_at 5000)))"
  define run where "run = the (current_run ''j1'' s)"
  define j where "j = make_job ''j1'' 1000 (compute_next_run hourly_calendar (once_at 5000) 1000) (request_on (once_at 5000) None)"
  have "\<not> rr_manual run" "find_job ''j1'' s = Some j" "cs_kind (cj_schedule j) = ''at''" "\<not> will_retry False (run_error (Answered (Some ''done''))) j"
      "cr_file s = Some (store_json [j])" "js_last_run_id (cj_state (stored_form j)) \<noteq> Some (rr_run_id run)"
      "cj_updated_at_ms (stored_form j) \<le> 6000" "cr_archive s = []" "cj_id (stored_form j) = ''j1''"
    unfolding run_def s_def j_def by code_simp+
  then show ?thesis
    using one_shot_not_rerun [of run "''j1''" s j "Answered (Some ''done'')" "store_json [j]" "[stored_form j]" "stored_form j" 6000 hourly_calendar 9000 6000 6000]
      read_store_json [of "[j]"] by (auto simp: s_def run_def Let_def)
qed

text \<open>C40. Writing the jobs and reading them back gives every job its stored form, which the next round trip keeps; a
  job whose switch agrees with its lifecycle, whose origin has no empty texts and which is not a one-shot without a due
  time comes back as it was.\<close>

theorem jobs_file_roundtrip:
  "read_store (store_json jobs) = Some (map stored_form jobs) \<and>
   read_store (store_json (map stored_form jobs)) = Some (map stored_form jobs) \<and>
   (list_all storable jobs \<longrightarrow> read_store (store_json jobs) = Some jobs)"
proof -
  have "storable (stored_form j)" for j
    by (auto simp: storable_def stored_form_def stored_origin_def or_else_def restored_due_def split: option.splits if_splits)
  then have "map stored_form (map stored_form jobs) = map stored_form jobs" using stored_form_same by simp
  moreover have "list_all storable jobs \<Longrightarrow> map stored_form jobs = jobs" using stored_form_same by (auto simp: list_all_iff intro: map_idI)
  ultimately show ?thesis using read_store_json by metis
qed

theorem jobs_file_roundtrip_witness:
  "storable one_slot \<and> read_store (store_json [one_slot]) = Some [one_slot]"
proof -
  have s: "storable one_slot" by code_simp
  then have "list_all storable [one_slot]" by simp
  then show ?thesis using s jobs_file_roundtrip [of "[one_slot]"] by blast
qed

section \<open>Runs that overlap with a change\<close>

text \<open>A one-shot that is given a new time while it runs is completed by the end of that run: the new time is gone.\<close>

lemma reschedule_during_run_lost:
  assumes "\<not> rr_manual run" "\<not> truthy err" "cs_kind s = ''at''"
  shows "cj_lifecycle (settle_job a b c run err (reschedule_job g s (Some t) j)) = Completed \<and>
    next_run (settle_job a b c run err (reschedule_job g s (Some t) j)) = None"
  using assms by (simp add: settle_job_def count_result_def note_result_def use_slot_def reschedule_job_def will_retry_def
    set_state_def set_next_def Let_def)

text \<open>An exception without a text is noted as an error, but the failures are reset as after a success.\<close>

lemma empty_error_resets_failures:
  "js_last_status (cj_state (settle_job a b c run (run_error (Raised_error [])) j)) = Some St_error \<and>
   js_consecutive_failures (cj_state (settle_job a b c run (run_error (Raised_error [])) j)) = 0"
  by (simp add: run_error_def settle_job_def count_result_def note_result_def use_slot_def will_retry_def set_state_def set_next_def Let_def)

text \<open>A run by hand restarts the retries of the scheduled fire that is waiting for its next attempt.\<close>

lemma manual_run_resets_retries:
  "rr_manual run \<Longrightarrow> js_retry_attempt (cj_state (settle_job a b c run err j)) = 0"
  by (simp add: settle_job_def count_result_def note_result_def will_retry_def set_state_def Let_def)

text \<open>A one-shot added for a time that has passed is accepted without a due time; the next start of the service fires it.\<close>

lemma past_one_shot_stranded:
  assumes "cs_at_ms s = Some t" "cs_kind s = ''at''" "0 < t" "t \<le> now" "now \<le> later"
    and "cal_j = make_job i now (compute_next_run cal s now) r" "jr_schedule r = s"
  shows "next_run cal_j = None \<and> cj_lifecycle cal_j = Scheduled \<and> is_due later (recompute_one cal later (stored_form cal_j))"
  using assms by (auto simp: compute_next_run_def make_job_def new_state_def recompute_one_def stored_form_def restored_due_def
    is_due_def set_next_def set_state_def Let_def)

end
