(* ===== verification/Cron_Tool.thy ===== *)
theory Cron_Tool
  imports Cron_Service Cron_Guard Agenda_When Exec_Safety Objective_Text
begin

text \<open>
  The agent's tool for scheduled jobs: \<open>src/flowly/agent/tools/cron.py\<close>. Texts of durations, times and
  schedules are parsed, prompts scanned, and the service called. A reply holds the data its text is made of;
  \<open>Refused\<close> is a text that begins with \<open>Error:\<close>. The sync to other clients after the call is left out.
\<close>

section \<open>Durations and times\<close>

definition last_char :: "string \<Rightarrow> char \<Rightarrow> bool" where
  "last_char s c = (s \<noteq> '''' \<and> last s = c)"

definition parse_duration :: "string \<Rightarrow> int option" where
  "parse_duration duration = (if duration = '''' then None else
     (let d = str_lower (strip duration); units = (\<lambda>f. map_option (\<lambda>n. n * f) (int_of_text (butlast d))) in
      if last_char d CHR ''s'' then units 1000
      else if last_char d CHR ''m'' then units (60 * 1000)
      else if last_char d CHR ''h'' then units (60 * 60 * 1000)
      else if last_char d CHR ''d'' then units (24 * 60 * 60 * 1000)
      else if last_char d CHR ''w'' then units (7 * 24 * 60 * 60 * 1000)
      else map_option (\<lambda>n. n * 1000) (int_of_text d)))"

text \<open>A local calendar value is counted in milliseconds from the beginning of 1970.\<close>

definition DAY_MS :: int where "DAY_MS = 24 * 60 * 60 * 1000"

text \<open>\<open>hour, minute = map(int, t.split(":"))\<close>\<close>

definition hour_minute :: "string \<Rightarrow> (int \<times> int) option" where
  "hour_minute t = (case dropWhile (\<lambda>c. c \<noteq> CHR '':'') t of
      [] \<Rightarrow> None
    | _ # m \<Rightarrow> if CHR '':'' \<in> set m then None
        else (case (int_of_text (takeWhile (\<lambda>c. c \<noteq> CHR '':'') t), int_of_text m) of
            (Some h, Some n) \<Rightarrow> Some (h, n) | _ \<Rightarrow> None))"

text \<open>\<open>now.replace(hour=h, minute=m, second=0, microsecond=0)\<close>, which raises out of range.\<close>

definition clock_of_day :: "wall \<Rightarrow> int \<times> int \<Rightarrow> wall option" where
  "clock_of_day w hm = (if 0 \<le> fst hm \<and> fst hm \<le> 23 \<and> 0 \<le> snd hm \<and> snd hm \<le> 59
     then Some (w - w mod DAY_MS + fst hm * 3600000 + snd hm * 60000) else None)"

text \<open>The directives of \<open>strptime\<close>: two digits in their range, or one.\<close>

definition digit_value :: "char \<Rightarrow> nat" where
  "digit_value c = of_char c - 48"

definition one_digit :: "nat \<Rightarrow> string \<Rightarrow> (nat \<times> string) option" where
  "one_digit low s = (case s of [] \<Rightarrow> None
    | c # t \<Rightarrow> if is_digit c \<and> low \<le> digit_value c then Some (digit_value c, t) else None)"

definition directive :: "nat \<Rightarrow> nat \<Rightarrow> string \<Rightarrow> (nat \<times> string) option" where
  "directive low high s = (case s of
      c # d # t \<Rightarrow> if is_digit c \<and> is_digit d \<and> low \<le> 10 * digit_value c + digit_value d \<and> 10 * digit_value c + digit_value d \<le> high
        then Some (10 * digit_value c + digit_value d, t) else one_digit low s
    | _ \<Rightarrow> one_digit low s)"

definition literal :: "char \<Rightarrow> string \<Rightarrow> string option" where
  "literal c s = (case s of [] \<Rightarrow> None | d # t \<Rightarrow> if same_letter c d then Some t else None)"

definition year_digits :: "string \<Rightarrow> (nat \<times> string) option" where
  "year_digits s = (if 4 \<le> length s \<and> list_all is_digit (take 4 s)
     then Some (foldl (\<lambda>n c. 10 * n + digit_value c) 0 (take 4 s), drop 4 s) else None)"

text \<open>\<open>%Y-%m-%d\<close> at the beginning of a text, with what follows it; the day may have a blank for its first digit.\<close>

definition day_digits :: "string \<Rightarrow> (nat \<times> string) option" where
  "day_digits s = (case s of c # t \<Rightarrow> if c = CHR '' '' then one_digit 1 t else directive 1 31 s | [] \<Rightarrow> None)"

definition date_prefix :: "string \<Rightarrow> (int \<times> string) option" where
  "date_prefix s = do {
     (y, s1) \<leftarrow> year_digits s; s2 \<leftarrow> literal CHR ''-'' s1;
     (m, s3) \<leftarrow> directive 1 12 s2; s4 \<leftarrow> literal CHR ''-'' s3;
     (d, s5) \<leftarrow> day_digits s4;
     if 1 \<le> y \<and> d \<le> month_days y m then Some (day_number y m d, s5) else None }"

definition clock_suffix :: "string \<Rightarrow> int option" where
  "clock_suffix s = do {
     (h, s1) \<leftarrow> directive 0 23 s; s2 \<leftarrow> literal CHR '':'' s1; (m, s3) \<leftarrow> directive 0 59 s2;
     if s3 = '''' then Some (int h * 3600000 + int m * 60000) else None }"

definition strptime_first :: "string \<Rightarrow> wall option" where
  "strptime_first s = do {
     (day, r) \<leftarrow> date_prefix s;
     if r = '''' then Some (day * DAY_MS)
     else map_option (\<lambda>t. day * DAY_MS + t)
       (if py_space (hd r) then clock_suffix (dropWhile py_space r)
        else Option.bind (literal CHR ''T'' r) clock_suffix) }"

text \<open>\<open>t.replace("tomorrow", "")\<close>\<close>

definition tomorrow_word :: string where "tomorrow_word = ''tomorrow''"

function erase_tomorrow :: "string \<Rightarrow> string" where
  "erase_tomorrow s = (if s = '''' then ''''
     else if is_prefix tomorrow_word s then erase_tomorrow (drop (length tomorrow_word) s)
     else hd s # erase_tomorrow (tl s))"
  by pat_completeness auto

termination erase_tomorrow
  by (relation "measure length") (auto simp: tomorrow_word_def)

declare erase_tomorrow.simps [simp del]

definition parse_time :: "zone_rules \<Rightarrow> int \<Rightarrow> string \<Rightarrow> int option" where
  "parse_time z now time_str = (if time_str = '''' then None else
     (let t = str_lower (strip time_str); w = zr_wall z now; time_part = strip (erase_tomorrow t) in
      if is_prefix ''+'' t then
        (case parse_duration (tl t) of None \<Rightarrow> None | Some d \<Rightarrow> if d \<noteq> 0 then Some (now + d) else None)
      else if is_prefix tomorrow_word t \<and> time_part \<noteq> '''' then
        map_option (\<lambda>target. zr_instant z (target + DAY_MS)) (Option.bind (hour_minute time_part) (clock_of_day w))
      else if CHR '':'' \<in> set t \<and> length t \<le> 5 then
        map_option (\<lambda>target. zr_instant z (if target \<le> w then target + DAY_MS else target)) (Option.bind (hour_minute t) (clock_of_day w))
      else map_option (zr_instant z) (strptime_first t)))"

section \<open>Schedules\<close>

definition digit_like :: "char \<Rightarrow> bool" where
  "digit_like c = (is_digit c \<or> (let n = of_char c :: nat in n = 178 \<or> n = 179 \<or> n = 185))"

text \<open>A part of a cron expression: digits once \<open>* , - /\<close> are taken out, or \<open>*\<close>.\<close>

definition cron_part :: "string \<Rightarrow> bool" where
  "cron_part p = (let d = filter (\<lambda>c. c \<notin> set ''*,-/'') p in (d \<noteq> '''' \<and> list_all digit_like d) \<or> p = ''*'')"

definition parse_schedule :: "calendar \<Rightarrow> zone_rules \<Rightarrow> int \<Rightarrow> string \<Rightarrow> cron_schedule option" where
  "parse_schedule cal z now schedule = (let s = strip schedule;
      blank = \<lparr>cs_kind = '''', cs_at_ms = None, cs_every_ms = None, cs_expr = None, cs_tz = None\<rparr> in
     if is_prefix ''every '' (str_lower s) then
       (case parse_duration (strip (drop 6 s)) of None \<Rightarrow> None
        | Some d \<Rightarrow> if d \<noteq> 0 then Some (blank\<lparr>cs_kind := ''every'', cs_every_ms := Some d\<rparr>) else None)
     else if is_prefix ''at '' (str_lower s) then
       (case parse_time z now (strip (drop 3 s)) of None \<Rightarrow> None
        | Some t \<Rightarrow> if t \<noteq> 0 then Some (blank\<lparr>cs_kind := ''at'', cs_at_ms := Some t\<rparr>) else None)
     else if length (words s) = 5 \<and> list_all cron_part (words s) \<and> cal_valid cal s
       then Some (blank\<lparr>cs_kind := ''cron'', cs_expr := Some s\<rparr>)
     else None)"

section \<open>Scripts\<close>

text \<open>\<open>validate_script_path\<close> of \<open>cron/script_runner.py\<close>; \<open>dir\<close> is \<open>scripts_dir()\<close>. The texts of the paths are shortened.\<close>

definition validate_script_path :: "host \<Rightarrow> ppath \<Rightarrow> string \<Rightarrow> string option" where
  "validate_script_path h dir script = (let p = strip script in
     if p = '''' then Some ''Script path is empty.''
     else if is_prefix ''/'' p \<or> is_prefix ''~'' p \<or> (2 \<le> length p \<and> p ! 1 = CHR '':'')
       then Some (''Script path must be relative to the Flowly workspace. Got: '' @ p)
     else case (h_resolve h (path_join dir (path_names (path_of p))), h_resolve h dir) of
         (Inr candidate, Inr base) \<Rightarrow> if candidate = base \<or> is_below candidate base then None
           else Some (''Script path escapes the workspace: '' @ p)
       | _ \<Rightarrow> Some (''Script path escapes the workspace: '' @ p))"

section \<open>The tool\<close>

text \<open>The arguments of \<open>execute\<close>; \<open>None\<close> is Python's.\<close>

record cron_call =
  cc_action :: string
  cc_name :: "string option"
  cc_message :: "string option"
  cc_schedule :: "string option"
  cc_job_id :: "string option"
  cc_deliver :: bool
  cc_channel :: "string option"
  cc_to :: "string option"
  cc_tool_name :: "string option"
  cc_tool_args :: "(string \<times> json) list option"
  cc_script :: "string option"
  cc_skills :: "string option list option"
  cc_model :: "string option"
  cc_provider :: "string option"
  cc_repeat_times :: "int option"
  cc_include_archived :: bool

text \<open>What the tool knows of its surroundings: the conversation it is used in, the session for scheduled tasks of the
  web channel (when there is a way to ask for it), the local clock, the host, the directory of scripts, and \<open>str\<close> of a value that is not a text.\<close>

record tool_context =
  tc_channel :: string
  tc_chat_id :: string
  tc_chat_name :: "string option"
  tc_thread_id :: "string option"
  tc_web_session :: "string option option"
  tc_zone :: zone_rules
  tc_host :: host
  tc_scripts :: ppath
  tc_str :: "json \<Rightarrow> string"

datatype cron_reply = Refused string | Created cron_job | Changed string | Missing | Removed bool | Ran bool | Switched bool string
  | Listed "cron_job list" | Service_status bool nat "int option"

definition arg_text :: "tool_context \<Rightarrow> string \<Rightarrow> (string \<times> json) list \<Rightarrow> string" where
  "arg_text tc k args = (case map_of args k of None \<Rightarrow> '''' | Some (JStr s) \<Rightarrow> s | Some v \<Rightarrow> tc_str tc v)"

definition set_arg :: "string \<Rightarrow> json \<Rightarrow> (string \<times> json) list \<Rightarrow> (string \<times> json) list" where
  "set_arg k v args = (if k \<in> fst ` set args then map (\<lambda>kv. if fst kv = k then (k, v) else kv) args else args @ [(k, v)])"

text \<open>The arguments of a scheduled tool call, or why it is refused.\<close>

definition check_tool_args :: "tool_context \<Rightarrow> string \<Rightarrow> (string \<times> json) list option \<Rightarrow> string + (string \<times> json) list" where
  "check_tool_args tc tool args = (case args of
      None \<Rightarrow> Inl ''tool_args must be a non-empty object when tool_name is set''
    | Some [] \<Rightarrow> Inl ''tool_args must be a non-empty object when tool_name is set''
    | Some as \<Rightarrow>
        if tool \<noteq> ''voice_call'' then Inr as
        else if str_lower (arg_text tc ''action'' as) \<noteq> ''call'' then Inl ''voice_call scheduled jobs must set tool_args.action=call''
        else if strip (arg_text tc ''to'' as) = '''' then Inl ''voice_call scheduled jobs must set tool_args.to (E.164 phone number)''
        else Inr (if strip (arg_text tc ''greeting'' as) = '''' \<and> strip (arg_text tc ''script'' as) = ''''
          then set_arg ''script'' (JStr ''Hello!'') as else as))"

text \<open>What is scheduled: the kind, the message and the arguments of the payload.\<close>

definition check_payload :: "tool_context \<Rightarrow> cron_call \<Rightarrow> string + string \<times> string \<times> (string \<times> json) list option" where
  "check_payload tc c =
     (if truthy (cc_tool_name c) then
        (case check_tool_args tc (the (cc_tool_name c)) (cc_tool_args c) of
           Inl e \<Rightarrow> Inl e
         | Inr args \<Rightarrow> Inr (''tool_call'', if truthy (cc_message c) then the (cc_message c)
             else ''Run tool '' @ [sq] @ the (cc_tool_name c) @ [sq], Some args))
      else if \<not> truthy (cc_message c) then Inl ''message is required for adding a job''
      else Inr (''agent_turn'', the (cc_message c), cc_tool_args c))"

definition delivery_channel :: "tool_context \<Rightarrow> cron_call \<Rightarrow> string option" where
  "delivery_channel tc c = (if cc_deliver c \<and> \<not> truthy (cc_channel c) then or_none (tc_channel tc) else cc_channel c)"

definition delivery_target :: "tool_context \<Rightarrow> cron_call \<Rightarrow> string option" where
  "delivery_target tc c = (if cc_deliver c \<and> \<not> truthy (cc_to c) then
       (if tc_chat_id tc \<noteq> '''' then Some (tc_chat_id tc)
        else if delivery_channel tc c = Some ''web'' \<and> tc_web_session tc \<noteq> None then the (tc_web_session tc)
        else cc_to c)
     else cc_to c)"

definition origin_of :: "tool_context \<Rightarrow> cron_origin option" where
  "origin_of tc = (if tc_channel tc = '''' \<and> tc_chat_id tc = '''' then None
     else Some \<lparr>or_platform = or_none (tc_channel tc), or_chat_id = or_none (tc_chat_id tc), or_chat_name = tc_chat_name tc,
       or_thread_id = tc_thread_id tc\<rparr>)"

definition request_of :: "tool_context \<Rightarrow> cron_call \<Rightarrow> cron_schedule \<Rightarrow> string \<times> string \<times> (string \<times> json) list option \<Rightarrow> job_request" where
  "request_of tc c s payload = (case payload of (kind, message, args) \<Rightarrow>
     \<lparr>jr_name = the (cc_name c), jr_schedule = s,
      jr_payload = \<lparr>py_kind = kind, py_message = message, py_deliver = cc_deliver c, py_channel = delivery_channel tc c,
        py_to = delivery_target tc c, py_tool_name = cc_tool_name c, py_tool_args = args\<rparr>,
      jr_delete_after_run = (cs_kind s = ''at''), jr_origin = origin_of tc, jr_repeat_times = cc_repeat_times c,
      jr_script = cc_script c, jr_skills = (case cc_skills c of None \<Rightarrow> [] | Some xs \<Rightarrow> xs), jr_model = cc_model c,
      jr_provider = cc_provider c, jr_retry_max_attempts = 0, jr_retry_backoff_ms = [], jr_failure_alert_after = 3,
      jr_failure_alert_cooldown_ms = 24 * 60 * 60 * 1000, jr_source = Some ''agent'', jr_source_id = None\<rparr>)"

definition script_refused :: "tool_context \<Rightarrow> cron_call \<Rightarrow> string option" where
  "script_refused tc c = (if truthy (cc_script c) then validate_script_path (tc_host tc) (tc_scripts tc) (the (cc_script c)) else None)"

definition tool_add :: "calendar \<Rightarrow> tool_context \<Rightarrow> int \<Rightarrow> string \<Rightarrow> cron_call \<Rightarrow> cron \<Rightarrow> cron_reply \<times> cron" where
  "tool_add cal tc now i c s =
     (if \<not> truthy (cc_name c) then (Refused ''name is required for adding a job'', s)
      else if \<not> truthy (cc_schedule c) then (Refused ''schedule is required for adding a job'', s)
      else case script_refused tc c of Some e \<Rightarrow> (Refused e, s) | None \<Rightarrow>
      if \<not> truthy (cc_tool_name c) \<and> truthy (cc_message c) \<and> scan_cron_prompt (the (cc_message c)) \<noteq> ''''
        then (Refused (scan_cron_prompt (the (cc_message c))), s)
      else case check_payload tc c of Inl e \<Rightarrow> (Refused e, s) | Inr payload \<Rightarrow>
      case parse_schedule cal (tc_zone tc) now (the (cc_schedule c)) of
        None \<Rightarrow> (Refused (''Invalid schedule '' @ [sq] @ the (cc_schedule c) @ [sq]), s)
      | Some sched \<Rightarrow>
          (case add_job cal i now (request_of tc c sched payload) (cr_jobs s) of
             Inl e \<Rightarrow> (Refused e, s)
           | Inr (j, _) \<Rightarrow> (Created j, add_to_schedule cal i now (request_of tc c sched payload) s)))"

definition updates_of :: "cron_call \<Rightarrow> cron_schedule option \<Rightarrow> job_updates" where
  "updates_of c sched = \<lparr>ju_name = cc_name c, ju_message = cc_message c, ju_deliver = Some (cc_deliver c), ju_channel = cc_channel c,
     ju_to = cc_to c, ju_script = map_option Some (cc_script c), ju_skills = cc_skills c, ju_model = map_option Some (cc_model c),
     ju_provider = map_option Some (cc_provider c), ju_source = None, ju_source_id = None,
     ju_repeat_times = map_option Some (cc_repeat_times c), ju_schedule = sched, ju_reschedule = False\<rparr>"

text \<open>\<open>execute\<close> passes its \<open>deliver\<close>, which is never \<open>None\<close>, so an update always has that field.\<close>

definition tool_update_job :: "calendar \<Rightarrow> tool_context \<Rightarrow> int \<Rightarrow> cron_call \<Rightarrow> cron \<Rightarrow> cron_reply \<times> cron" where
  "tool_update_job cal tc now c s =
     (if \<not> truthy (cc_job_id c) then (Refused ''job_id is required for updating a job'', s)
      else case script_refused tc c of Some e \<Rightarrow> (Refused e, s) | None \<Rightarrow>
      if truthy (cc_message c) \<and> \<not> truthy (cc_script c) \<and> scan_cron_prompt (the (cc_message c)) \<noteq> ''''
        then (Refused (scan_cron_prompt (the (cc_message c))), s)
      else (let sched = Option.bind (cc_schedule c) (parse_schedule cal (tc_zone tc) now) in
        if cc_schedule c \<noteq> None \<and> sched = None then (Refused (''Invalid schedule '' @ [sq] @ the (cc_schedule c) @ [sq]), s)
        else (let r = update_job cal now now (the (cc_job_id c)) (updates_of c sched) (cr_jobs s) in
          (case r of None \<Rightarrow> Missing | Some (Raised e, _) \<Rightarrow> Refused e | Some _ \<Rightarrow> Changed (the (cc_job_id c)), apply_change r s))))"

definition tool_remove_job :: "int \<Rightarrow> bool \<Rightarrow> cron_call \<Rightarrow> cron \<Rightarrow> cron_reply \<times> cron" where
  "tool_remove_job now purge c s =
     (if \<not> truthy (cc_job_id c) then (Refused ''job_id is required for removing a job'', s)
      else case remove_job now (map fst (cr_active s)) (the (cc_job_id c)) purge (cr_jobs s) of
          None \<Rightarrow> (Missing, s)
        | Some _ \<Rightarrow> (Removed purge, drop_from_schedule now (the (cc_job_id c)) purge s))"

definition tool_run_job :: "int \<Rightarrow> string \<Rightarrow> cron_call \<Rightarrow> cron \<Rightarrow> cron_reply \<times> cron" where
  "tool_run_job now run_id c s =
     (if \<not> truthy (cc_job_id c) then (Refused ''job_id is required for running a job'', s)
      else (let r = run_job now run_id True (the (cc_job_id c)) s in (Ran (fst r), snd r)))"

definition tool_enable_job :: "calendar \<Rightarrow> int \<Rightarrow> bool \<Rightarrow> cron_call \<Rightarrow> cron \<Rightarrow> cron_reply \<times> cron" where
  "tool_enable_job cal now on c s =
     (if \<not> truthy (cc_job_id c) then (Refused ''job_id is required'', s)
      else (let r = enable_job cal now (the (cc_job_id c)) on (cr_jobs s) in
        (case r of None \<Rightarrow> Missing | Some (Raised e, _) \<Rightarrow> Refused e | Some _ \<Rightarrow> Switched on (the (cc_job_id c)), apply_change r s)))"

definition cron_tool :: "calendar \<Rightarrow> tool_context \<Rightarrow> int \<Rightarrow> string \<Rightarrow> string \<Rightarrow> cron_call \<Rightarrow> cron \<Rightarrow> cron_reply \<times> cron" where
  "cron_tool cal tc now i run_id c s = (let a = cc_action c in
     if a = ''list'' then (Listed (list_jobs True (cc_include_archived c) None (cr_jobs s)), s)
     else if a = ''add'' then tool_add cal tc now i c s
     else if a = ''update'' then tool_update_job cal tc now c s
     else if a = ''remove'' then tool_remove_job now False c s
     else if a = ''purge'' then tool_remove_job now True c s
     else if a = ''run'' then tool_run_job now run_id c s
     else if a = ''enable'' then tool_enable_job cal now True c s
     else if a = ''disable'' then tool_enable_job cal now False c s
     else if a = ''status'' then (Service_status (cr_running s) (length (cr_jobs s)) (next_wake_ms (map fst (cr_active s)) (cr_jobs s)), s)
     else (Refused (''Unknown action '' @ [sq] @ a @ [sq]), s))"

section \<open>What the tool may do\<close>

text \<open>A call of the tool is a step of the service, or leaves it as it is.\<close>

lemma cron_tool_steps:
  assumes "new_job_id i s" "new_run_id r s"
  shows "snd (cron_tool cal tc now i r c s) = s \<or> cron_step cal s (snd (cron_tool cal tc now i r c s))"
proof -
  have a: "snd (tool_add cal tc now i c s) = s \<or> cron_step cal s (snd (tool_add cal tc now i c s))"
    using cron_step.added [OF assms(1)] by (auto simp: tool_add_def split: option.splits sum.splits)
  have u: "snd (tool_update_job cal tc now c s) = s \<or> cron_step cal s (snd (tool_update_job cal tc now c s))"
    using cron_step.updates by (auto simp: tool_update_job_def Let_def split: option.splits)
  have d: "snd (tool_remove_job now p c s) = s \<or> cron_step cal s (snd (tool_remove_job now p c s))" for p
    using cron_step.removed by (auto simp: tool_remove_job_def split: option.splits)
  have m: "snd (tool_run_job now r c s) = s \<or> cron_step cal s (snd (tool_run_job now r c s))"
    using cron_step.manual [OF assms(2)] by (auto simp: tool_run_job_def Let_def)
  have e: "snd (tool_enable_job cal now on c s) = s \<or> cron_step cal s (snd (tool_enable_job cal now on c s))" for on
    using cron_step.switched by (auto simp: tool_enable_job_def Let_def)
  show ?thesis unfolding cron_tool_def Let_def using a u d m e by (simp split: if_split)
qed

lemma tool_add_cases:
  assumes "tool_add cal tc now i c s = (Created j, t)"
  obtains payload sched ks where "truthy (cc_name c)" "script_refused tc c = None"
    "truthy (cc_tool_name c) \<or> \<not> truthy (cc_message c) \<or> scan_cron_prompt (the (cc_message c)) = ''''"
    "check_payload tc c = Inr payload" "parse_schedule cal (tc_zone tc) now (the (cc_schedule c)) = Some sched"
    "add_job cal i now (request_of tc c sched payload) (cr_jobs s) = Inr (j, ks)"
    "t = add_to_schedule cal i now (request_of tc c sched payload) s"
  using assms unfolding tool_add_def by (auto split: if_splits option.splits sum.splits)

text \<open>What the agent schedules for itself has passed the scan, comes at most every minute, and names its conversation.\<close>

lemma tool_add_checked:
  assumes "tool_add cal tc now i c s = (Created j, t)"
  shows "j \<in> set (cr_jobs t)" "cj_source j = Some ''agent'' \<and> cj_source_id j = Some i"
    "py_kind (cj_payload j) = ''agent_turn'' \<Longrightarrow> py_message (cj_payload j) \<noteq> '''' \<and> scan_cron_prompt (py_message (cj_payload j)) = ''''"
    "cs_kind (cj_schedule j) = ''every'' \<Longrightarrow> \<exists>e. cs_every_ms (cj_schedule j) = Some e \<and> 60000 \<le> e"
    "cs_kind (cj_schedule j) = ''cron'' \<Longrightarrow> next_run j \<noteq> None"
proof -
  obtain payload sched ks where scan: "truthy (cc_tool_name c) \<or> \<not> truthy (cc_message c) \<or> scan_cron_prompt (the (cc_message c)) = ''''"
    and pay: "check_payload tc c = Inr payload"
    and add: "add_job cal i now (request_of tc c sched payload) (cr_jobs s) = Inr (j, ks)"
    and t: "t = add_to_schedule cal i now (request_of tc c sched payload) s"
    using assms by (elim tool_add_cases)
  obtain kind message args where p: "payload = (kind, message, args)" by (cases payload)
  let ?r = "request_of tc c sched payload"
  have j: "j = make_job i now (compute_next_run cal (jr_schedule ?r) now) ?r" "ks = cr_jobs s @ [j]"
    and ok: "check_schedule cal (jr_schedule ?r) = None" "cs_kind (jr_schedule ?r) = ''cron'' \<longrightarrow> compute_next_run cal (jr_schedule ?r) now \<noteq> None"
    using add by (auto simp: add_job_def Let_def split: if_splits option.splits)
  have r: "jr_schedule ?r = sched" "py_kind (jr_payload ?r) = kind" "py_message (jr_payload ?r) = message" "jr_source ?r = Some ''agent''"
      "jr_source_id ?r = None" by (simp_all add: p request_of_def)
  have agent: "normalize_text (Some ''agent'') = Some ''agent''" by code_simp
  have cj: "cj_schedule j = sched" "cj_payload j = jr_payload ?r" "next_run j = compute_next_run cal sched now"
    by (simp_all add: j(1) make_job_def r(1) new_state_def Let_def)
  show "j \<in> set (cr_jobs t)" using add j(2) by (simp add: t add_to_schedule_def save_store_def set_jobs_def)
  show "cj_source j = Some ''agent'' \<and> cj_source_id j = Some i"
    using agent by (simp add: j(1) make_job_def r Let_def normalize_text_def)
  show "cs_kind (cj_schedule j) = ''every'' \<Longrightarrow> \<exists>e. cs_every_ms (cj_schedule j) = Some e \<and> 60000 \<le> e"
    using ok(1) r(1) cj(1) by (auto simp: check_schedule_def MIN_INTERVAL_MS_def truthy_int_def split: if_splits option.splits)
  show "cs_kind (cj_schedule j) = ''cron'' \<Longrightarrow> next_run j \<noteq> None" using ok(2) r(1) cj by simp
  show "py_message (cj_payload j) \<noteq> '''' \<and> scan_cron_prompt (py_message (cj_payload j)) = ''''" if "py_kind (cj_payload j) = ''agent_turn''"
    using that pay scan cj(2) r(2,3) by (cases "cc_message c") (auto simp: check_payload_def p split: if_splits sum.splits)
qed

section \<open>Where the tool falls short\<close>

text \<open>A new prompt is not scanned when the call names a script too.\<close>

lemma update_with_script_unscanned:
  assumes "truthy (cc_job_id c)" "truthy (cc_script c)" "script_refused tc c = None" "cc_schedule c = None"
    and "cr_jobs s = [j]" "cj_id j = the (cc_job_id c)" "cc_message c = Some payload"
  shows "\<exists>k. cr_jobs (snd (tool_update_job cal tc now c s)) = [k] \<and> py_message (cj_payload k) = payload"
  using assms by (simp add: tool_update_job_def update_job_def update_one_def new_due_def updates_of_def update_fields_def given_def
    apply_change_def save_store_def set_jobs_def Let_def)

text \<open>An update that does not mention the delivery turns it off.\<close>

lemma update_stops_delivery:
  assumes "truthy (cc_job_id c)" "script_refused tc c = None" "cc_schedule c = None" "cc_message c = None" "\<not> cc_deliver c"
    and "cr_jobs s = [j]" "cj_id j = the (cc_job_id c)"
  shows "\<exists>k. cr_jobs (snd (tool_update_job cal tc now c s)) = [k] \<and> \<not> py_deliver (cj_payload k)"
  using assms by (simp add: tool_update_job_def update_job_def update_one_def new_due_def updates_of_def update_fields_def given_def
    apply_change_def save_store_def set_jobs_def Let_def)

section \<open>Readings\<close>

lemma duration_examples:
  "parse_duration ''30s'' = Some 30000" "parse_duration '' 5M '' = Some 300000" "parse_duration ''2w'' = Some 1209600000"
  "parse_duration ''90'' = Some 90000" "parse_duration ''1.5h'' = None" "parse_duration ''-5m'' = Some (- 300000)"
  by code_simp+

definition utc :: zone_rules where "utc = \<lparr>zr_wall = (\<lambda>t. t), zr_instant = (\<lambda>w. w)\<rparr>"

lemma time_examples:
  "parse_time utc 36000000 ''09:00'' = Some (32400000 + DAY_MS)" "parse_time utc 36000000 ''11:30'' = Some 41400000"
  "parse_time utc 36000000 ''tomorrow 9:05'' = Some (32700000 + DAY_MS)" "parse_time utc 36000000 ''+2h'' = Some 43200000"
  "parse_time utc 36000000 ''1970-01-03 00:01'' = Some (2 * DAY_MS + 60000)" "parse_time utc 36000000 ''24:00'' = None"
  by code_simp+

section \<open>The scan of goals\<close>

text \<open>With this scan for the parameter of the goal checks, an accepted text has passed it.\<close>

lemma goal_text_scanned:
  assumes "clean_string (\<lambda>t. or_none (scan_cron_prompt t)) limit name required multiline v = Inr t"
  shows "scan_cron_prompt t = ''''"
proof (cases "t = ''''")
  case True
  then show ?thesis by (simp add: scan_cron_prompt_def find_threats_def)
next
  case False
  then show ?thesis using clean_string_Inr(4) [OF assms] by (simp add: or_none_def split: if_splits)
qed

end
