(* ===== verification/Spec2Isabelle.thy ===== *)
theory Spec2Isabelle
  imports Board_Properties Plan_Properties Goal_Properties Agenda_Properties Pairing_Properties Key_Properties Exec_Properties
    Cron_Properties Cron_Tool
begin

text \<open>
  A verification library for the control state of Flowly, a personal agent runtime.

  Flowly runs an agent for one owner over chat channels, voice and the desktop. What the agent does is
  up to a language model; what it may do, what it still owes, whom it listens to and what it was told
  are kept by stores around the agent loop, which this library models and proves correct:

  \<^item> the task board (\<open>src/flowly/board\<close>), a SQLite database of cards that background workers and voice
    turns claim, run and finish;
  \<^item> plan mode (\<open>src/flowly/plans\<close>, \<open>agent/tools/plan.py\<close>), plans the agent proposes, the owner
    decides on, and a gate that holds side effects back meanwhile;
  \<^item> standing goals (\<open>src/flowly/goals\<close>), objectives the agent pursues over many turns, judged after
    each turn and continued on their own within limits;
  \<^item> the agenda and the tracked goals (\<open>src/flowly/agenda\<close>, \<open>src/flowly/objectives\<close>), what the agent looks at
    again later, and when it may write to the owner first;
  \<^item> command execution (\<open>src/flowly/exec\<close>, \<open>protected_paths.py\<close>), which shell commands run, after which
    question to the owner, and what the process may see;
  \<^item> scheduled jobs (\<open>src/flowly/cron\<close>), what the agent does at set times, how often, and what a crash
    leaves of it;
  \<^item> pairing (\<open>src/flowly/pairing\<close>), which senders a channel listens to;
  \<^item> key rotation (\<open>providers/key_rotator.py\<close>), which key a model service is called with.

  \<^bold>\<open>Prelude.\<close> Python values and string operations, tables as lists of rows with the SQL statements on
  them, results as sums, and the interfaces the parts share as locales: \<open>guarded_system\<close> (a transition
  system with an invariant), \<open>ratchet\<close> (a quantity that never falls) and \<open>keyed_store\<close> (what a lookup
  returns after a write).

  \<^bold>\<open>The board.\<close> \<open>Board_Types\<close> has the rows and vocabularies and who sees a row (\<open>store.py\<close>,
  \<open>live_voice/authority.py\<close>); \<open>Voice_Commands\<close> the queue of spoken instructions
  (\<open>voice_commands.py\<close>); \<open>Board_Store\<close> every write and \<open>Board_Reads\<close> every read of \<open>BoardStore\<close>. An
  operation is a function of the board, the clock, fresh identifiers and the request owner; an SQL
  error or a raised \<open>BoardError\<close> is \<open>Inl\<close> and rolls back. \<open>Board_Invariant\<close> states the invariant;
  \<open>Board_Claims\<close>, \<open>Board_Steps\<close>, \<open>Board_Runs\<close> and \<open>Board_Turns\<close> show that every operation keeps it;
  \<open>Board_Changes\<close> says which cards an operation may change; \<open>Board_Machine\<close> interprets
  \<open>guarded_system\<close> for all operations in any order. \<open>Board_Protocol\<close> and \<open>Board_Queries\<close> carry the
  claim protocol, recovery, dependencies, the dispatch queue and replays. The properties C1 to C8 are
  in \<open>Board_Properties\<close>: the invariant, one runner per card, when a claim is granted, exact
  recovery, acyclic dependencies, the dispatch order, isolation of owners; retries and revision guards are
  proved beside them.

  \<^bold>\<open>Plans.\<close> \<open>Plan_Models\<close> has plans, steps, approvals and the history of revisions
  (\<open>plans/models.py\<close>); \<open>Plan_Manager\<close> the registry, the waiting turns, the gate and every operation of
  the manager (\<open>plans/manager.py\<close>, \<open>store.py\<close>, \<open>approval.py\<close>); \<open>Plan_Tool\<close> the actions of the agent's
  tool. \<open>Plan_Invariant\<close> and \<open>Plan_Machine\<close> show that content stays bounded and the history complete;
  \<open>Plan_Protocol\<close> follows decisions and steps. C9 to C15 are in \<open>Plan_Properties\<close>: bounded content,
  complete history, clients that converge, execution only after a decision, the
  gate, one active plan, what an answer to a closed plan does; that decisions are taken once and how steps are
  updated is proved beside them.

  \<^bold>\<open>Goals.\<close> \<open>Goal_Models\<close> has the records and their validation (\<open>goals/models.py\<close>), \<open>Goal_Contracts\<close>
  the contracts written as headed text; \<open>Goal_Store\<close> the files, optimistic writes and the archive
  (\<open>goals/store.py\<close>); \<open>Goal_Manager\<close> the controls (\<open>goals/manager.py\<close>, \<open>provenance.py\<close>); \<open>Goal_Judge\<close>
  verdicts and gate outcomes (\<open>judge.py\<close>, \<open>gates.py\<close>); \<open>Goal_Evaluate\<close> the evaluation after a turn.
  Running a gate and asking the judge are parameters that take the store and return it, so whatever
  else runs during an await is covered. \<open>Goal_Facts\<close> shows what validation gives and the effect of one
  optimistic write; \<open>Goal_Machine\<close> interleaves all controls and writes and interprets \<open>ratchet\<close> for
  the stored revision; \<open>Goal_Autonomy\<close> licenses and bounds continuations; \<open>Goal_Protocol\<close> has racing
  writers, cleared and replaced goals, late verdicts and replies. C16 to C20 are in \<open>Goal_Properties\<close>.

  \<^bold>\<open>The agenda.\<close> \<open>Objective_Text\<close> has the checks on texts, numbers and times that goals and wake-ups share
  and \<open>Objective_Store\<close> every operation on the goals file (\<open>objectives/store.py\<close>); \<open>Agenda_Store\<close> every
  transaction on the agenda file (\<open>agenda/store.py\<close>); \<open>Agenda_Policy\<close> the decision on a due wake-up
  (\<open>policy.py\<close>); \<open>Agenda_Budget\<close> the daily slots all agents share (\<open>budget.py\<close>); \<open>Agenda_When\<close> the times the
  agent may write (\<open>timeparse.py\<close>); \<open>Agenda_Service\<close> how wake-ups start and end (\<open>service.py\<close>);
  \<open>Agenda_Surface\<close> the owner's actions and the agent's tools over both files (\<open>rpc.py\<close>,
  \<open>agent/tools/objective.py\<close>, \<open>follow_up.py\<close>). \<open>Agenda_Invariant\<close> and \<open>Objective_Invariant\<close> interpret
  \<open>guarded_system\<close> for the two files, \<open>Agenda_Limits\<close> for agents sharing a budget; \<open>Agenda_Progress\<close>
  follows a pass over the due wake-ups, with the locale \<open>forward_zone\<close> for what a timezone promises;
  \<open>Agenda_Tracking\<close> follows a check-in through pausing and resuming its goal. C21 to C25 are in
  \<open>Agenda_Properties\<close>: the daily cap, the limits on a wake-up, no due wake-up passed over, the caps of
  the agenda file, and a check-in that comes back with its goal.

  \<^bold>\<open>Pairing.\<close> \<open>Pairing_Store\<close> has the requests, the list of senders and the checks of the channels
  (\<open>pairing/store.py\<close>, \<open>channels/telegram.py\<close>, \<open>imessage.py\<close>, \<open>base.py\<close>). C26 is in
  \<open>Pairing_Properties\<close>: who is let in over any run; a sender who paired and is still dropped is shown there too.

  \<^bold>\<open>Keys.\<close> \<open>Key_Rotator\<close> has the rotator, the classification of errors and the retry loop of a request
  (\<open>key_rotator.py\<close>, \<open>openrouter_provider.py\<close>). C27 and C28 are in \<open>Key_Properties\<close>: the rotation is a round
  robin, and a request reaches a key that works.

  \<^bold>\<open>Commands.\<close> \<open>Exec_Text\<close> has what the rules use of Python's library: regular expressions, \<open>shlex\<close>,
  \<open>fnmatch\<close> and paths. \<open>Exec_Safety\<close> is the analysis of a command and the protected paths
  (\<open>exec/safety.py\<close>, \<open>protected_paths.py\<close>), \<open>Exec_Env\<close> the environment of a child (\<open>exec/env_scrub.py\<close>,
  \<open>env_passthrough.py\<close>), \<open>Exec_Approvals\<close> the policy file, the allowlist and the settings calls
  (\<open>exec/approvals.py\<close>, \<open>channels/feature_rpc.py\<close>), \<open>Exec_Command\<close> the executor, the directory of a session and
  the tool (\<open>exec/executor.py\<close>, \<open>runtime_cwd.py\<close>, \<open>agent/tools/shell.py\<close>), \<open>Exec_Manager\<close> the waiting
  requests and who may answer them (\<open>exec/approval_manager.py\<close>, \<open>session/control_access.py\<close>,
  \<open>ownership.py\<close>). The host (home, links, files, \<open>PATH\<close>) is a record of functions, the subprocess and the
  owner's wait are parameters. \<open>Exec_Runs\<close> has requests, answers and deadlines in any order; \<open>Exec_Facts\<close> the lemmas, with
  the cases where the checks fall short. C29 to C33 are in \<open>Exec_Properties\<close>: the authority behind every
  process, protected paths, credentials, the quoting of the shell text, and answers that settle a request
  once; what \<open>allow-always\<close> adds is proved beside them.

  \<^bold>\<open>Scheduled jobs.\<close> \<open>Cron_Types\<close> has schedules, jobs and the next time of a schedule
  (\<open>cron/types.py\<close>, \<open>timezone.py\<close>); the package \<open>croniter\<close> and the rules of a zone are parameters, and the search of the
  source over both is bounded by its own 100000 rounds. \<open>Cron_Store\<close> has every change of the schedule,
  \<open>Cron_Disk\<close> the jobs file both ways, \<open>Cron_Service\<close> the runs (\<open>cron/service.py\<close>): a run is split at its await into a
  reservation, a start and an end, a pass over the due jobs goes one job at a time, and a restart reads the file
  and the records of runs, so the relation \<open>cron_step\<close> interleaves clients, passes, runs, crashes, shutdowns and reloads.
  \<open>Cron_Facts\<close> shows that each keeps the invariant, interprets \<open>guarded_system\<close>, counts the fires of a limited job
  and follows the file over a crash. C34 to C40 are in \<open>Cron_Properties\<close>: the invariant, a fire that is not repeated after a
  crash, a one-shot that is not rerun, limits that end a job, alerts that keep their distance, what a pass takes up,
  and the file's round trip; lost reschedules and miscounted failures are shown there too.
  \<open>Cron_Guard\<close> is the scan for injected instructions (\<open>cron/guard.py\<close>) over the regular expressions of \<open>Exec_Text\<close>, and \<open>Cron_Tool\<close>
  the agent's tool (\<open>agent/tools/cron.py\<close>) with the texts of durations, times and schedules: each of its calls is a step
  of the service, what it schedules has passed the scan, and the two ways in which an update goes wrong are shown.

  \<^bold>\<open>Bounds and termination.\<close> No fuel is used. Every recursion is structural or has a measure: the
  descendants of a card by the cards not yet visited, the words and lines of a text by its length, the
  matches of a regular expression by the expression and the text. A
  run of autonomous turns is a list of any length; C18 bounds it. Integers are unbounded as in Python; the
  goal revision is clamped to 63 bits as the source does, and the theorems that need it say so
  (\<open>revision_cap\<close>).

  \<^bold>\<open>Assumptions.\<close> The clock, \<open>uuid4\<close> and \<open>secrets\<close> are inputs. An operation is one step: it runs under the
  lock of its store, and where the source awaits, the model splits it or takes the await as a parameter.
  Writing a file or a row succeeds, callbacks to clients return, and a process has the rights its owner
  has. Strings are Latin-1 with stand-ins for the few other symbols in literals; \<open>float\<close> is \<open>real\<close>. Timezones
  and the texts of instants are parameters; C21 takes a day of the owner as at most 26 hours long, C23 that the local
  clock does not run back, C26 that the text of an instant reads back as that instant.

  \<^bold>\<open>Not modelled.\<close> The agent loop, subagents, channels, gateway, providers, voice and the command line
  are asynchronous I/O around these stores and other services; there is little in them a pure model
  could state beyond their calls. Schema migrations, the disk form of plans, the sweep over goal files at
  startup, prompts, the search for a JSON object in a reply, the daily review's own turn and phone
  notifications are left out. Of scheduled jobs, the text and
  expiry of transcripts, the inactivity watchdog, the timer with its lock between processes, a write of the
  jobs file that fails, and what happens while an alert is being delivered are left out. The timers of the goal runtime
  would be next.
\<close>

end
